(* ===== verification/Prelude.thy ===== *)
theory Prelude
  imports Main "HOL-Library.Word" "HOL-Library.List_Lexorder" "HOL-Library.Char_ord"
    "HOL-Library.Option_ord" "HOL-Library.Product_Lexorder"
begin

text \<open>
  Shared vocabulary of the development: Rust's machine integers, byte strings,
  \<open>Result\<close> values and ordered collections, with the generic lemmas that the
  component theories use.

  \<^item> \<open>u8\<close>, \<open>u32\<close>, \<open>u64\<close> are words of that width; \<open>i32\<close> and \<open>i64\<close> wrap a word and
    are ordered as two's complement values; a \<open>usize\<close> that only counts elements held
    in memory is a \<open>nat\<close>.
  \<^item> A Rust \<open>str\<close> is its UTF-8 byte sequence, an Isabelle \<open>string\<close> (a \<open>char\<close> is one
    byte); its order is the byte-wise lexicographic one, as in Rust.
  \<^item> \<open>Result<T, E>\<close> is \<open>'e + 'a\<close> and \<open>?\<close> is \<^verbatim>\<open>and_then\<close>.
  \<^item> \<open>BTreeMap\<close> and \<open>BTreeSet\<close> are strictly sorted association lists and lists, so
    that iteration order is the source's key order.
\<close>

named_theorems codec_simps \<open>equations that evaluate encoders and parsers\<close>
named_theorems wf_intros \<open>well-formedness preservation of the ordered collections\<close>

section \<open>Machine integers\<close>

type_synonym u8 = "8 word"
type_synonym u16 = "16 word"
type_synonym u32 = "32 word"
type_synonym u64 = "64 word"
type_synonym bytes = "u8 list"

text \<open>A UUID is sixteen bytes compared lexicographically, which is the order of the
  big-endian number they spell.\<close>

type_synonym uuid = "128 word"

datatype i32 = I32 (i32_bits: "32 word")
datatype i64 = I64 (i64_bits: "64 word")

lemma sint_inj: "sint a = sint b \<Longrightarrow> a = b"
  by (rule signed_word_eqI)

instantiation i32 :: linorder
begin
definition less_eq_i32 :: "i32 \<Rightarrow> i32 \<Rightarrow> bool" where
  "less_eq_i32 a b \<longleftrightarrow> sint (i32_bits a) \<le> sint (i32_bits b)"
definition less_i32 :: "i32 \<Rightarrow> i32 \<Rightarrow> bool" where
  "less_i32 a b \<longleftrightarrow> sint (i32_bits a) < sint (i32_bits b)"
instance
  by standard (auto simp: less_eq_i32_def less_i32_def intro!: i32.expand sint_inj)
end

instantiation i64 :: linorder
begin
definition less_eq_i64 :: "i64 \<Rightarrow> i64 \<Rightarrow> bool" where
  "less_eq_i64 a b \<longleftrightarrow> sint (i64_bits a) \<le> sint (i64_bits b)"
definition less_i64 :: "i64 \<Rightarrow> i64 \<Rightarrow> bool" where
  "less_i64 a b \<longleftrightarrow> sint (i64_bits a) < sint (i64_bits b)"
instance
  by standard (auto simp: less_eq_i64_def less_i64_def intro!: i64.expand sint_inj)
end

definition i64_of_int :: "int \<Rightarrow> i64" where
  "i64_of_int n = I64 (word_of_int n)"

definition i64_min :: i64 where
  "i64_min = I64 (2 ^ 63)"

lemma i64_min_least: "i64_min \<le> x"
proof -
  have "sint (2 ^ 63 :: 64 word) = - (2 ^ 63)" by simp
  then show ?thesis
    using sint_greater_eq [of "i64_bits x"] by (simp add: less_eq_i64_def i64_min_def)
qed

section \<open>Results\<close>

text \<open>The \<open>?\<close> operator: stop at the first error, otherwise continue with the value.\<close>

fun and_then :: "'e + 'a \<Rightarrow> ('a \<Rightarrow> 'e + 'b) \<Rightarrow> 'e + 'b" where
  "and_then (Inl e) f = Inl e"
| "and_then (Inr x) f = f x"

lemma and_then_cong [fundef_cong]:
  "r = r' \<Longrightarrow> (\<And>x. r' = Inr x \<Longrightarrow> f x = g x) \<Longrightarrow> and_then r f = and_then r' g"
  by (cases r') auto

lemma and_then_eq_Inr:
  "and_then r f = Inr y \<longleftrightarrow> (\<exists>x. r = Inr x \<and> f x = Inr y)"
  by (cases r) auto

lemma and_then_eq_Inl:
  "and_then r f = Inl e \<longleftrightarrow> r = Inl e \<or> (\<exists>x. r = Inr x \<and> f x = Inl e)"
  by (cases r) auto

definition ok_or :: "'a option \<Rightarrow> 'e \<Rightarrow> 'e + 'a" where
  "ok_or x e = (case x of None \<Rightarrow> Inl e | Some a \<Rightarrow> Inr a)"

lemma ok_or_simps [simp]: "ok_or None e = Inl e" "ok_or (Some a) e = Inr a"
  by (simp_all add: ok_or_def)

definition is_ok :: "'e + 'a \<Rightarrow> bool" where
  "is_ok r \<longleftrightarrow> (case r of Inl _ \<Rightarrow> False | Inr _ \<Rightarrow> True)"

text \<open>A loop that stops at the first error: \<open>for x in xs { acc = f(acc, x)?; }\<close>.\<close>

fun try_fold :: "('s \<Rightarrow> 'a \<Rightarrow> 'e + 's) \<Rightarrow> 's \<Rightarrow> 'a list \<Rightarrow> 'e + 's" where
  "try_fold f s [] = Inr s"
| "try_fold f s (x # xs) = and_then (f s x) (\<lambda>s'. try_fold f s' xs)"

lemma try_fold_invariant:
  assumes "try_fold f s xs = Inr s'" and "P s"
    and "\<And>s x s'. P s \<Longrightarrow> x \<in> set xs \<Longrightarrow> f s x = Inr s' \<Longrightarrow> P s'"
  shows "P s'"
  using assms
proof (induction xs arbitrary: s)
  case (Cons x xs)
  from Cons.prems(1) obtain t where t: "f s x = Inr t" "try_fold f t xs = Inr s'"
    by (auto simp: and_then_eq_Inr)
  have "P t" by (rule Cons.prems(3) [OF Cons.prems(2) _ t(1)]) simp
  show ?case
  proof (rule Cons.IH [OF t(2) \<open>P t\<close>])
    fix s y s' assume "P s" "y \<in> set xs" "f s y = Inr s'"
    then show "P s'" by (intro Cons.prems(3) [of s y s']) simp_all
  qed
qed simp

lemma try_fold_append:
  "try_fold f s (xs @ ys) = and_then (try_fold f s xs) (\<lambda>t. try_fold f t ys)"
proof (induction xs arbitrary: s)
  case (Cons x xs)
  show ?case by (cases "f s x") (simp_all add: Cons.IH)
qed simp

text \<open>\<open>collect::<Result<Vec<_>, _>>()\<close>.\<close>

fun try_map :: "('a \<Rightarrow> 'e + 'b) \<Rightarrow> 'a list \<Rightarrow> 'e + 'b list" where
  "try_map f [] = Inr []"
| "try_map f (x # xs) = and_then (f x) (\<lambda>y. and_then (try_map f xs) (\<lambda>ys. Inr (y # ys)))"

lemma try_map_cong [fundef_cong]:
  "xs = ys \<Longrightarrow> (\<And>x. x \<in> set ys \<Longrightarrow> f x = g x) \<Longrightarrow> try_map f xs = try_map g ys"
  by (induction xs arbitrary: ys) (auto intro!: and_then_cong)

lemma try_map_Inr_iff:
  "try_map f xs = Inr ys \<longleftrightarrow> list_all2 (\<lambda>x y. f x = Inr y) xs ys"
  by (induction xs arbitrary: ys) (auto simp: and_then_eq_Inr list_all2_Cons1)

section \<open>Ordered maps and sets\<close>

text \<open>\<open>BTreeMap<K, V>\<close>: an association list with strictly increasing keys.\<close>

type_synonym ('k, 'v) btree = "('k \<times> 'v) list"

abbreviation bt_get :: "('k, 'v) btree \<Rightarrow> 'k \<Rightarrow> 'v option" where
  "bt_get m k \<equiv> map_of m k"

abbreviation bt_keys :: "('k, 'v) btree \<Rightarrow> 'k list" where
  "bt_keys m \<equiv> map fst m"

abbreviation bt_values :: "('k, 'v) btree \<Rightarrow> 'v list" where
  "bt_values m \<equiv> map snd m"

definition bt_wf :: "('k::linorder, 'v) btree \<Rightarrow> bool" where
  "bt_wf m \<longleftrightarrow> sorted_wrt (<) (map fst m)"

definition bt_contains :: "('k, 'v) btree \<Rightarrow> 'k \<Rightarrow> bool" where
  "bt_contains m k \<longleftrightarrow> map_of m k \<noteq> None"

fun bt_insert :: "'k::linorder \<Rightarrow> 'v \<Rightarrow> ('k, 'v) btree \<Rightarrow> ('k, 'v) btree" where
  "bt_insert k v [] = [(k, v)]"
| "bt_insert k v ((a, b) # m) =
     (if k < a then (k, v) # (a, b) # m
      else if k = a then (k, v) # m
      else (a, b) # bt_insert k v m)"

definition bt_remove :: "'k \<Rightarrow> ('k, 'v) btree \<Rightarrow> ('k, 'v) btree" where
  "bt_remove k m = filter (\<lambda>p. fst p \<noteq> k) m"

text \<open>\<open>extend\<close> and \<open>collect\<close>: later pairs replace earlier ones with the same key.\<close>

definition bt_extend :: "('k::linorder, 'v) btree \<Rightarrow> ('k \<times> 'v) list \<Rightarrow> ('k, 'v) btree" where
  "bt_extend m ps = fold (\<lambda>(k, v). bt_insert k v) ps m"

abbreviation bt_of_list :: "('k::linorder \<times> 'v) list \<Rightarrow> ('k, 'v) btree" where
  "bt_of_list ps \<equiv> bt_extend [] ps"

lemma bt_get_insert [simp]: "map_of (bt_insert k v m) = (map_of m)(k \<mapsto> v)"
  by (induction k v m rule: bt_insert.induct) (auto simp: fun_eq_iff)

lemma fst_set_bt_insert [simp]: "fst ` set (bt_insert k v m) = insert k (fst ` set m)"
  by (induction k v m rule: bt_insert.induct) auto

lemma set_bt_insert_subset: "set (bt_insert k v m) \<subseteq> insert (k, v) (set m)"
  by (induction k v m rule: bt_insert.induct) auto

lemma bt_wf_Nil [simp]: "bt_wf []"
  by (simp add: bt_wf_def)

lemma bt_wf_Cons: "bt_wf ((k, v) # m) \<longleftrightarrow> (\<forall>x \<in> fst ` set m. k < x) \<and> bt_wf m"
  by (auto simp: bt_wf_def)

lemma bt_wf_insert [simp, wf_intros]: "bt_wf m \<Longrightarrow> bt_wf (bt_insert k v m)"
proof (induction k v m rule: bt_insert.induct)
  case (2 k v a b m)
  then show ?case by (auto simp: bt_wf_Cons)
qed (simp add: bt_wf_Cons)

lemma bt_wf_filter [simp, wf_intros]: "bt_wf m \<Longrightarrow> bt_wf (filter P m)"
  by (induction m) (auto simp: bt_wf_def)

lemma bt_wf_remove [simp, wf_intros]: "bt_wf m \<Longrightarrow> bt_wf (bt_remove k m)"
  by (simp add: bt_remove_def)

lemma bt_wf_distinct: "bt_wf m \<Longrightarrow> distinct (map fst m)"
  by (simp add: bt_wf_def strict_sorted_iff)

lemma bt_get_remove [simp]: "map_of (bt_remove k m) = (map_of m)(k := None)"
  by (induction m) (auto simp: bt_remove_def fun_eq_iff)

lemma map_of_filter_key: "map_of (filter (\<lambda>p. P (fst p)) m) k = (if P k then map_of m k else None)"
  by (induction m) auto

lemma bt_get_filter:
  assumes "distinct (map fst m)"
  shows "map_of (filter (\<lambda>(k, v). P k v) m) k =
    (case map_of m k of None \<Rightarrow> None | Some v \<Rightarrow> if P k v then Some v else None)"
  using assms
proof (induction m)
  case (Cons p m)
  then show ?case
    by (cases p) (auto split: option.splits dest!: map_of_SomeD intro: rev_image_eqI)
qed simp

text \<open>
  What the program relies on from \<open>BTreeMap\<close>: lookups see insertions and removals,
  and iteration visits the pairs in increasing key order. The contract determines the
  iteration sequence from the lookups alone, which is why canonical encodings and
  merges of equal maps agree.
\<close>

locale ordered_map =
  fixes empty :: "'m"
    and ins :: "'k::linorder \<Rightarrow> 'v \<Rightarrow> 'm \<Rightarrow> 'm"
    and del :: "'k \<Rightarrow> 'm \<Rightarrow> 'm"
    and get :: "'m \<Rightarrow> 'k \<Rightarrow> 'v option"
    and items :: "'m \<Rightarrow> ('k \<times> 'v) list"
    and wf :: "'m \<Rightarrow> bool"
  assumes get_empty: "get empty = (\<lambda>_. None)"
    and get_ins: "wf m \<Longrightarrow> get (ins k v m) = (get m)(k \<mapsto> v)"
    and get_del: "wf m \<Longrightarrow> get (del k m) = (get m)(k := None)"
    and wf_empty: "wf empty"
    and wf_ins: "wf m \<Longrightarrow> wf (ins k v m)"
    and wf_del: "wf m \<Longrightarrow> wf (del k m)"
    and items_sorted: "wf m \<Longrightarrow> sorted_wrt (<) (map fst (items m))"
    and items_get: "wf m \<Longrightarrow> map_of (items m) = get m"
begin

lemma items_as_map:
  assumes "wf m"
  shows "items m = map (\<lambda>k. (k, the (get m k))) (map fst (items m))"
proof -
  have "distinct (map fst (items m))"
    using items_sorted [OF assms] by (simp add: strict_sorted_iff)
  then have "map (\<lambda>k. (k, the (map_of (items m) k))) (map fst (items m)) = map (\<lambda>p. p) (items m)"
    unfolding map_map by (intro map_cong [OF refl]) auto
  then show ?thesis by (simp add: items_get [OF assms] del: map_map)
qed

lemma items_determined:
  assumes "wf m" and "wf m'" and "get m = get m'"
  shows "items m = items m'"
proof -
  have "set (map fst (items m)) = set (map fst (items m'))"
    using assms items_get by (metis dom_map_of_conv_image_fst set_map)
  then have "map fst (items m) = map fst (items m')"
    using assms(1,2) items_sorted by (metis strict_sorted_equal)
  then show ?thesis
    using items_as_map assms by metis
qed

lemma wf_fold_ins: "wf m \<Longrightarrow> wf (fold (\<lambda>(k, v). ins k v) ps m)"
  by (induction ps arbitrary: m) (auto simp: wf_ins split: prod.splits)

lemma get_fold_ins:
  "wf m \<Longrightarrow> get (fold (\<lambda>(k, v). ins k v) ps m) = get m ++ map_of (rev ps)"
proof (induction ps arbitrary: m)
  case (Cons p ps)
  obtain k v where "p = (k, v)" by (cases p)
  with Cons show ?case
    by (simp add: wf_ins get_ins) (simp add: fun_eq_iff map_add_def split: option.split)
qed simp

lemma items_ins_commute:
  assumes "wf m" and "k \<noteq> k'"
  shows "items (ins k v (ins k' v' m)) = items (ins k' v' (ins k v m))"
  using assms by (intro items_determined) (auto simp: wf_ins get_ins fun_eq_iff)

lemma items_ins_del:
  assumes "wf m" and "get m k = Some v"
  shows "items (ins k v (del k m)) = items m"
  using assms by (intro items_determined) (auto simp: wf_ins wf_del get_ins get_del fun_eq_iff)

end

interpretation btree: ordered_map "[]" bt_insert bt_remove map_of "\<lambda>m. m" bt_wf
  by unfold_locales (auto simp: bt_wf_def [symmetric])

lemma bt_wf_extend [simp, wf_intros]: "bt_wf m \<Longrightarrow> bt_wf (bt_extend m ps)"
  unfolding bt_extend_def by (rule btree.wf_fold_ins)

lemma bt_extend_Nil [simp]: "bt_extend m [] = m"
  by (simp add: bt_extend_def)

lemma bt_extend_Cons: "bt_extend m ((k, v) # ps) = bt_extend (bt_insert k v m) ps"
  by (simp add: bt_extend_def)

lemma bt_extend_append: "bt_extend m (ps @ qs) = bt_extend (bt_extend m ps) qs"
  by (simp add: bt_extend_def)

lemma bt_get_extend: "map_of (bt_extend m ps) = map_of m ++ map_of (rev ps)"
proof (induction ps arbitrary: m)
  case (Cons p ps)
  then show ?case
    by (cases p) (auto simp: bt_extend_Cons fun_eq_iff map_add_def split: option.splits)
qed simp

lemmas bt_eqI = btree.items_determined

lemma map_of_rev_distinct: "distinct (map fst m) \<Longrightarrow> map_of (rev m) = map_of m"
  by (rule map_of_inject_set [THEN iffD2]) (auto simp: rev_map [symmetric])

lemma bt_of_list_id:
  assumes "bt_wf m"
  shows "bt_of_list m = m"
proof (rule bt_eqI)
  show "map_of (bt_of_list m) = map_of m"
    using bt_wf_distinct [OF assms] by (simp add: bt_get_extend map_of_rev_distinct)
qed (use assms in simp_all)

lemma fst_set_bt_extend: "fst ` set (bt_extend m ps) = fst ` set m \<union> fst ` set ps"
proof (induction ps arbitrary: m)
  case (Cons p ps)
  then show ?case by (cases p) (simp add: bt_extend_Cons)
qed simp

lemma bt_contains_iff: "bt_contains m k \<longleftrightarrow> k \<in> fst ` set m"
  by (simp add: bt_contains_def map_of_eq_None_iff)

text \<open>\<open>BTreeSet<T>\<close>: a strictly increasing list.\<close>

fun bs_insert :: "'a::linorder \<Rightarrow> 'a list \<Rightarrow> 'a list" where
  "bs_insert x [] = [x]"
| "bs_insert x (y # ys) = (if x < y then x # y # ys else if x = y then y # ys else y # bs_insert x ys)"

definition bs_of_list :: "'a::linorder list \<Rightarrow> 'a list" where
  "bs_of_list xs = fold bs_insert xs []"

definition bs_wf :: "'a::linorder list \<Rightarrow> bool" where
  "bs_wf xs \<longleftrightarrow> sorted_wrt (<) xs"

lemma set_bs_insert [simp]: "set (bs_insert x ys) = insert x (set ys)"
  by (induction x ys rule: bs_insert.induct) auto

lemma bs_wf_insert [simp, wf_intros]: "bs_wf ys \<Longrightarrow> bs_wf (bs_insert x ys)"
  by (induction x ys rule: bs_insert.induct) (auto simp: bs_wf_def)

lemma set_fold_bs_insert: "set (fold bs_insert xs ys) = set xs \<union> set ys"
  by (induction xs arbitrary: ys) auto

lemma bs_wf_fold: "bs_wf ys \<Longrightarrow> bs_wf (fold bs_insert xs ys)"
  by (induction xs arbitrary: ys) auto

lemma set_bs_of_list [simp]: "set (bs_of_list xs) = set xs"
  by (simp add: bs_of_list_def set_fold_bs_insert)

lemma bs_wf_of_list [simp, wf_intros]: "bs_wf (bs_of_list xs)"
  by (simp add: bs_of_list_def bs_wf_fold bs_wf_def [where xs = "[]"])

lemma bs_eqI: "bs_wf xs \<Longrightarrow> bs_wf ys \<Longrightarrow> set xs = set ys \<Longrightarrow> xs = ys"
  by (simp add: bs_wf_def strict_sorted_equal)

lemma bs_of_list_id: "bs_wf xs \<Longrightarrow> bs_of_list xs = xs"
  by (rule bs_eqI) simp_all

lemma bs_wf_distinct: "bs_wf xs \<Longrightarrow> distinct xs"
  by (simp add: bs_wf_def strict_sorted_iff)

lemma bs_wf_keys: "bs_wf (map fst m) \<longleftrightarrow> bt_wf m"
  by (simp add: bs_wf_def bt_wf_def)

text \<open>The keys of three maps, in order (\<open>union_keys3\<close> of the merge code).\<close>

definition union_keys3 :: "('k::linorder, 'a) btree \<Rightarrow> ('k, 'b) btree \<Rightarrow> ('k, 'c) btree \<Rightarrow> 'k list" where
  "union_keys3 m1 m2 m3 = bs_of_list (bt_keys m1 @ bt_keys m2 @ bt_keys m3)"

lemma set_union_keys3: "set (union_keys3 m1 m2 m3) = fst ` set m1 \<union> fst ` set m2 \<union> fst ` set m3"
  by (simp add: union_keys3_def Un_assoc)

lemma wf_union_keys3: "bs_wf (union_keys3 m1 m2 m3)"
  by (simp add: union_keys3_def)

section \<open>Byte encodings of integers\<close>

text \<open>The \<open>n\<close> low bytes of a non-negative integer, least significant first, and back.\<close>

fun le_digits :: "nat \<Rightarrow> int \<Rightarrow> bytes" where
  "le_digits 0 x = []"
| "le_digits (Suc n) x = word_of_int x # le_digits n (x div 256)"

fun le_value :: "bytes \<Rightarrow> int" where
  "le_value [] = 0"
| "le_value (b # bs) = uint b + 256 * le_value bs"

lemma length_le_digits [simp]: "length (le_digits n x) = n"
  by (induction n arbitrary: x) auto

lemma le_value_digits: "le_value (le_digits n x) = x mod 256 ^ n"
proof (induction n arbitrary: x)
  case (Suc n)
  have "uint (word_of_int x :: u8) = x mod 256"
    by (simp add: uint_word_of_int)
  with Suc show ?case
    by (simp add: zmod_zmult2_eq)
qed simp

lemma le_value_nonneg: "0 \<le> le_value bs"
  by (induction bs) auto

lemma le_value_bound: "le_value bs < 256 ^ length bs"
proof (induction bs)
  case (Cons b bs)
  have "uint b < 256" using uint_lt2p [of b] by simp
  with Cons show ?case by simp
qed simp

lemma le_digits_value: "le_digits (length bs) (le_value bs) = bs"
proof (induction bs)
  case (Cons b bs)
  have "uint b < 256" "0 \<le> uint b" using uint_lt2p [of b] by simp_all
  then have "uint (word_of_int (uint b + 256 * le_value bs) :: u8) = uint b"
    and q: "(uint b + 256 * le_value bs) div 256 = le_value bs"
    by (simp_all only: uint_word_of_int) simp_all
  then have "word_of_int (uint b + 256 * le_value bs) = b"
    by (simp only: word_uint_eq_iff)
  with Cons q show ?case by simp
qed simp

definition u16_le :: "u16 \<Rightarrow> bytes" where "u16_le w = le_digits 2 (uint w)"
definition u32_le :: "u32 \<Rightarrow> bytes" where "u32_le w = le_digits 4 (uint w)"
definition u64_le :: "u64 \<Rightarrow> bytes" where "u64_le w = le_digits 8 (uint w)"
definition u64_be :: "u64 \<Rightarrow> bytes" where "u64_be w = rev (u64_le w)"
definition i32_le :: "i32 \<Rightarrow> bytes" where "i32_le w = u32_le (i32_bits w)"
definition i64_le :: "i64 \<Rightarrow> bytes" where "i64_le w = u64_le (i64_bits w)"
definition uuid_bytes :: "uuid \<Rightarrow> bytes" where "uuid_bytes u = rev (le_digits 16 (uint u))"

definition word_from_le :: "bytes \<Rightarrow> 'a::len word" where
  "word_from_le bs = word_of_int (le_value bs)"

lemma le_bytes_length [simp]:
  "length (u16_le a) = 2" "length (u32_le b) = 4" "length (u64_le c) = 8" "length (u64_be c) = 8"
  "length (i32_le d) = 4" "length (i64_le e) = 8" "length (uuid_bytes u) = 16"
  by (simp_all add: u16_le_def u32_le_def u64_le_def u64_be_def i32_le_def i64_le_def uuid_bytes_def)

lemma le_roundtrip [simp]:
  "word_from_le (u16_le a) = a" "word_from_le (u32_le b) = b" "word_from_le (u64_le c) = c"
  using uint_lt2p [of a] uint_lt2p [of b] uint_lt2p [of c]
  by (simp_all add: word_from_le_def u16_le_def u32_le_def u64_le_def le_value_digits)

lemma uuid_bytes_inj: "uuid_bytes u = uuid_bytes v \<Longrightarrow> u = v"
proof -
  assume "uuid_bytes u = uuid_bytes v"
  then have "le_value (le_digits 16 (uint u)) = le_value (le_digits 16 (uint v))"
    by (simp add: uuid_bytes_def)
  then show ?thesis
    using uint_lt2p [of u] uint_lt2p [of v] by (simp add: le_value_digits word_uint_eq_iff)
qed

text \<open>The bytes of a \<open>str\<close>.\<close>

definition text_bytes :: "string \<Rightarrow> bytes" where
  "text_bytes s = map of_char s"

definition text_of_bytes :: "bytes \<Rightarrow> string" where
  "text_of_bytes bs = map (\<lambda>b. char_of (unat b)) bs"

lemma unat_of_char [simp]: "unat (of_char c :: u8) = of_char c"
proof -
  have "unat (of_nat (of_char c) :: u8) = of_char c"
    by (simp add: unat_of_nat)
  then show ?thesis by (simp only: of_nat_of_char)
qed

lemma of_char_inj: "(of_char c :: u8) = of_char d \<Longrightarrow> c = d"
  by (metis unat_of_char char_of_char)

lemma text_bytes_inj: "text_bytes s = text_bytes t \<Longrightarrow> s = t"
  by (auto simp: text_bytes_def intro: map_injective dest!: of_char_inj intro!: injI)

lemma length_text_bytes [simp]: "length (text_bytes s) = length s"
  by (simp add: text_bytes_def)

end
