(* ===== verification/Text.thy ===== *)
theory Text
  imports Prelude
begin

text \<open>
  The operations of Rust's \<open>str\<close>, \<open>u8\<close> and integer parsing that the program calls, on
  byte strings: ASCII case, splitting, UTF-8 validation as \<open>String::from_utf8\<close> does it,
  decimal printing and \<open>FromStr\<close> for unsigned integers.
\<close>

abbreviation code :: "char \<Rightarrow> nat" where
  "code c \<equiv> of_char c"

lemma code_bound: "code c < 256"
  using of_char_eq_iff [of c c] by (metis char_of_char of_char_of mod_less_divisor zero_less_numeral)

section \<open>ASCII\<close>

definition ascii_lower :: "char \<Rightarrow> char" where
  "ascii_lower c = (if 65 \<le> code c \<and> code c \<le> 90 then char_of (code c + 32) else c)"

definition ascii_upper :: "char \<Rightarrow> char" where
  "ascii_upper c = (if 97 \<le> code c \<and> code c \<le> 122 then char_of (code c - 32) else c)"

definition to_ascii_lowercase :: "string \<Rightarrow> string" where
  "to_ascii_lowercase s = map ascii_lower s"

definition to_ascii_uppercase :: "string \<Rightarrow> string" where
  "to_ascii_uppercase s = map ascii_upper s"

definition eq_ignore_ascii_case :: "string \<Rightarrow> string \<Rightarrow> bool" where
  "eq_ignore_ascii_case a b \<longleftrightarrow> to_ascii_lowercase a = to_ascii_lowercase b"

lemma eq_ignore_ascii_case_refl [simp]: "eq_ignore_ascii_case a a"
  by (simp add: eq_ignore_ascii_case_def)

section \<open>Splitting\<close>

text \<open>\<open>str::split_once\<close> with a one-byte separator, and \<open>str::split\<close>.\<close>

fun split_once :: "char \<Rightarrow> string \<Rightarrow> (string \<times> string) option" where
  "split_once c [] = None"
| "split_once c (x # xs) =
     (if x = c then Some ([], xs)
      else (case split_once c xs of None \<Rightarrow> None | Some (a, b) \<Rightarrow> Some (x # a, b)))"

fun split_on :: "char \<Rightarrow> string \<Rightarrow> string list" where
  "split_on c [] = [[]]"
| "split_on c (x # xs) =
     (if x = c then [] # split_on c xs
      else (case split_on c xs of [] \<Rightarrow> [[x]] | p # ps \<Rightarrow> (x # p) # ps))"

lemma split_once_hit: "c \<notin> set a \<Longrightarrow> split_once c (a @ c # b) = Some (a, b)"
  by (induction a) auto

lemma split_once_miss: "c \<notin> set a \<Longrightarrow> split_once c a = None"
  by (induction a) auto

lemma split_on_nonempty [simp]: "split_on c s \<noteq> []"
  by (induction s) (auto split: list.splits)

lemma split_on_miss: "c \<notin> set a \<Longrightarrow> split_on c a = [a]"
  by (induction a) auto

lemma split_on_hit: "c \<notin> set a \<Longrightarrow> split_on c (a @ c # b) = a # split_on c b"
  by (induction a) auto

fun join_with :: "char \<Rightarrow> string list \<Rightarrow> string" where
  "join_with c [] = []"
| "join_with c [p] = p"
| "join_with c (p # q # ps) = p @ c # join_with c (q # ps)"

lemma split_on_join:
  "ps \<noteq> [] \<Longrightarrow> \<forall>p \<in> set ps. c \<notin> set p \<Longrightarrow> split_on c (join_with c ps) = ps"
  by (induction c ps rule: join_with.induct) (auto simp: split_on_miss split_on_hit)

text \<open>\<open>str::get(..n)\<close>: \<open>None\<close> past the end or inside a multi-byte character.\<close>

definition is_continuation :: "char \<Rightarrow> bool" where
  "is_continuation c \<longleftrightarrow> 128 \<le> code c \<and> code c < 192"

definition str_get_prefix :: "nat \<Rightarrow> string \<Rightarrow> string option" where
  "str_get_prefix n s =
     (if n \<le> length s \<and> (n = length s \<or> \<not> is_continuation (s ! n)) then Some (take n s) else None)"

fun starts_with :: "string \<Rightarrow> string \<Rightarrow> bool" where
  "starts_with [] s = True"
| "starts_with (p # ps) [] = False"
| "starts_with (p # ps) (c # cs) = (p = c \<and> starts_with ps cs)"

fun str_contains :: "string \<Rightarrow> string \<Rightarrow> bool" where
  "str_contains [] needle = (needle = [])"
| "str_contains (c # cs) needle = (starts_with needle (c # cs) \<or> str_contains cs needle)"

lemma starts_with_iff: "starts_with p s \<longleftrightarrow> (\<exists>t. s = p @ t)"
  by (induction p s rule: starts_with.induct) auto

lemma str_contains_iff: "str_contains s n \<longleftrightarrow> (\<exists>a b. s = a @ n @ b)"
proof (induction s)
  case IH: (Cons c cs)
  show ?case
  proof
    assume "str_contains (c # cs) n"
    then consider t where "c # cs = n @ t" | a b where "cs = a @ n @ b"
      using IH by (auto simp: starts_with_iff)
    then show "\<exists>a b. c # cs = a @ n @ b"
    proof cases
      case 1 then show ?thesis by (intro exI [of _ "[]"] exI [of _ t]) simp
    next
      case 2 then show ?thesis by (intro exI [of _ "c # a"] exI [of _ b]) simp
    qed
  next
    assume "\<exists>a b. c # cs = a @ n @ b"
    then obtain a b where eq: "c # cs = a @ n @ b" by blast
    show "str_contains (c # cs) n"
    proof (cases a)
      case Nil
      with eq have "starts_with n (c # cs)" by (auto simp: starts_with_iff)
      then show ?thesis by simp
    next
      case (Cons d a')
      with eq have "\<exists>a b. cs = a @ n @ b" by auto
      then show ?thesis using IH by simp
    qed
  qed
qed auto

section \<open>UTF-8\<close>

text \<open>
  \<open>String::from_utf8\<close> accepts exactly the well-formed sequences: no overlong forms, no
  surrogates, nothing above U+10FFFF.
\<close>

definition cont :: "char \<Rightarrow> bool" where
  "cont c \<longleftrightarrow> 128 \<le> code c \<and> code c \<le> 191"

definition utf8_second3 :: "nat \<Rightarrow> char \<Rightarrow> bool" where
  "utf8_second3 lead c \<longleftrightarrow>
     (if lead = 224 then 160 else 128) \<le> code c \<and> code c \<le> (if lead = 237 then 159 else 191)"

definition utf8_second4 :: "nat \<Rightarrow> char \<Rightarrow> bool" where
  "utf8_second4 lead c \<longleftrightarrow>
     (if lead = 240 then 144 else 128) \<le> code c \<and> code c \<le> (if lead = 244 then 143 else 191)"

function (sequential) utf8_valid :: "string \<Rightarrow> bool" where
  "utf8_valid [] = True"
| "utf8_valid (a # s) =
     (if code a < 128 then utf8_valid s
      else if 194 \<le> code a \<and> code a \<le> 223 then
        (case s of b # s' \<Rightarrow> cont b \<and> utf8_valid s' | _ \<Rightarrow> False)
      else if 224 \<le> code a \<and> code a \<le> 239 then
        (case s of b # c # s' \<Rightarrow> utf8_second3 (code a) b \<and> cont c \<and> utf8_valid s' | _ \<Rightarrow> False)
      else if 240 \<le> code a \<and> code a \<le> 244 then
        (case s of b # c # d # s' \<Rightarrow>
           utf8_second4 (code a) b \<and> cont c \<and> cont d \<and> utf8_valid s' | _ \<Rightarrow> False)
      else False)"
  by pat_completeness auto
termination by (relation "measure length") auto

section \<open>Decimal numbers\<close>

definition digit_char :: "int \<Rightarrow> char" where
  "digit_char d = char_of (48 + d)"

text \<open>Decimal \<open>Display\<close> of a non-negative integer.\<close>

fun show_dec :: "int \<Rightarrow> string" where
  "show_dec n = (if n < 10 then [digit_char n] else show_dec (n div 10) @ [digit_char (n mod 10)])"

declare show_dec.simps [simp del]

text \<open>\<open>FromStr\<close> for an unsigned type with maximum \<open>mx\<close>: an optional \<open>+\<close>, then one or
  more digits, each step checked for overflow.\<close>

fun parse_digits :: "int \<Rightarrow> int \<Rightarrow> string \<Rightarrow> int option" where
  "parse_digits mx acc [] = Some acc"
| "parse_digits mx acc (c # cs) =
     (let d = of_char c - 48 in
      if 0 \<le> d \<and> d \<le> 9
      then (let v = acc * 10 + d in if v \<le> mx then parse_digits mx v cs else None)
      else None)"

definition parse_unsigned :: "int \<Rightarrow> string \<Rightarrow> int option" where
  "parse_unsigned mx s =
     (case s of
        [] \<Rightarrow> None
      | c # r \<Rightarrow>
          if c = CHR ''+'' then (if r = [] then None else parse_digits mx 0 r)
          else parse_digits mx 0 s)"

definition parse_u32 :: "string \<Rightarrow> u32 option" where
  "parse_u32 s = map_option word_of_int (parse_unsigned 4294967295 s)"

definition parse_u64 :: "string \<Rightarrow> u64 option" where
  "parse_u64 s = map_option word_of_int (parse_unsigned 18446744073709551615 s)"

definition show_word :: "'a::len word \<Rightarrow> string" where
  "show_word w = show_dec (uint w)"

lemma of_char_digit:
  assumes "0 \<le> d" and "d < 10"
  shows "of_char (digit_char d) = 48 + d"
  using assms by (simp add: digit_char_def)

lemma parse_digits_append:
  "parse_digits mx acc (xs @ ys) =
    (case parse_digits mx acc xs of None \<Rightarrow> None | Some a \<Rightarrow> parse_digits mx a ys)"
  by (induction mx acc xs rule: parse_digits.induct) (auto simp: Let_def)

lemma parse_digits_show: "0 \<le> n \<Longrightarrow> n \<le> mx \<Longrightarrow> parse_digits mx 0 (show_dec n) = Some n"
proof (induction n rule: show_dec.induct)
  case (1 n)
  show ?case
  proof (cases "n < 10")
    case True
    then show ?thesis using 1 by (simp add: show_dec.simps [of n] of_char_digit)
  next
    case False
    with 1 have "parse_digits mx 0 (show_dec (n div 10)) = Some (n div 10)" by auto
    with False 1 show ?thesis
      by (simp add: show_dec.simps [of n] parse_digits_append of_char_digit Let_def)
  qed
qed

lemma show_dec_nonempty [simp]: "show_dec n \<noteq> []"
  by (simp add: show_dec.simps [of n])

lemma show_dec_digits:
  "0 \<le> n \<Longrightarrow> c \<in> set (show_dec n) \<Longrightarrow> 48 \<le> (of_char c :: int) \<and> (of_char c :: int) \<le> 57"
proof (induction n rule: show_dec.induct)
  case (1 n)
  then show ?case
    by (cases "n < 10") (auto simp: show_dec.simps [of n] of_char_digit)
qed

lemma parse_unsigned_show:
  assumes "0 \<le> n" and "n \<le> mx"
  shows "parse_unsigned mx (show_dec n) = Some n"
proof (cases "show_dec n")
  case (Cons c r)
  then have "48 \<le> (of_char c :: int)" using show_dec_digits [of n c] assms by simp
  then have "c \<noteq> CHR ''+''" by auto
  with Cons assms show ?thesis
    using parse_digits_show [OF assms] by (simp add: parse_unsigned_def)
qed simp

lemma parse_u32_show: "parse_u32 (show_word w) = Some w"
proof -
  have "uint w < 2 ^ LENGTH(32)" by (rule unsigned_less)
  then show ?thesis by (simp add: parse_u32_def show_word_def parse_unsigned_show)
qed

lemma parse_u64_show: "parse_u64 (show_word w) = Some w"
proof -
  have "uint w < 2 ^ LENGTH(64)" by (rule unsigned_less)
  then show ?thesis by (simp add: parse_u64_def show_word_def parse_unsigned_show)
qed

lemma show_word_digits:
  "c \<in> set (show_word w) \<Longrightarrow> 48 \<le> (of_char c :: int) \<and> (of_char c :: int) \<le> 57"
  using show_dec_digits [of "uint w" c] by (simp add: show_word_def)

end
