(* ===== verification/Model.thy ===== *)
theory Model
  imports Text
begin

text \<open>
  The vault data model of \<^verbatim>\<open>crates/vaultkern-model/src/lib.rs\<close>: every struct and enum
  that the merge, serialization and credential code reads. Field names carry a prefix
  for their struct (\<open>e_\<close> entry, \<open>g_\<close> group, \<open>v_\<close> vault, and so on). \<open>Entry\<close> and \<open>Group\<close>
  contain themselves (history, children), so each is a record of its own fields and a
  datatype that adds the nested lists. \<open>Zeroizing\<close> wrappers hold the value they wrap; their
  wiping on drop has no value semantics and is not modelled.
\<close>

section \<open>Errors and small structs\<close>

datatype model_error = Unimplemented | EntryNotFound | AttachmentContentHashCollision

record custom_field =
  cf_value :: string
  cf_protected :: bool

text \<open>\<open>AttachmentContentId([u8; 32])\<close>, ordered as its bytes are.\<close>

type_synonym content_id = "256 word"

record attachment_content =
  ac_id :: content_id
  ac_bytes :: bytes

record attachment =
  a_name :: string
  a_data :: attachment_content
  a_protect_in_memory :: bool

record deleted_object =
  do_id :: uuid
  do_deleted_at :: i64

record custom_icon =
  ci_id :: uuid
  ci_data :: bytes
  ci_name :: "string option"
  ci_last_modified :: "i64 option"

record anchor =
  an_element_name :: string
  an_occurrence :: nat

record fragment =
  fr_xml :: string
  fr_after :: "anchor option"

record custom_data_item =
  cd_key :: string
  cd_value :: string
  cd_last_modified :: "i64 option"

record custom_data_block =
  cb_items :: "custom_data_item list"
  cb_after :: "anchor option"

section \<open>Fidelity state\<close>

record meta_raw_state =
  mr_node_order :: "string list"
  mr_description_raw :: "string option"
  mr_default_username_raw :: "string option"
  mr_color_raw :: "string option"
  mr_auto_enable_visual_hiding_raw :: "string option"
  mr_has_custom_icons_node :: bool
  mr_recycle_bin_group_raw :: "string option"
  mr_entry_templates_group_raw :: "string option"

record root_raw_state =
  rr_node_order :: "string list"
  rr_has_deleted_objects_node :: bool

record group_raw_state =
  gr_node_order :: "string list"
  gr_entry_order :: "uuid list"
  gr_group_order :: "uuid list"
  gr_default_auto_type_sequence_raw :: "string option"
  gr_enable_auto_type_raw :: "string option"
  gr_enable_searching_raw :: "string option"
  gr_last_top_visible_entry_raw :: "string option"

record entry_raw_state =
  er_node_order :: "string list"
  er_string_order :: "string list"
  er_binary_order :: "string list"
  er_foreground_color_raw :: "string option"
  er_background_color_raw :: "string option"
  er_override_url_raw :: "string option"
  er_tags_raw :: "string option"
  er_quality_check_raw :: "string option"
  er_has_history_node :: bool

record memory_protection =
  mp_title :: bool
  mp_username :: bool
  mp_password :: bool
  mp_url :: bool
  mp_notes :: bool

record field_protection =
  protect_title :: bool
  protect_username :: bool
  protect_password :: bool
  protect_url :: bool
  protect_notes :: bool

definition default_field_protection :: field_protection where
  "default_field_protection =
     \<lparr>protect_title = False, protect_username = False, protect_password = True,
      protect_url = False, protect_notes = False\<rparr>"

record auto_type_association =
  at_window :: string
  at_sequence :: string

record auto_type_config =
  at_enabled :: "bool option"
  at_obfuscation :: "i32 option"
  at_default_sequence :: "string option"
  at_associations :: "auto_type_association list"

definition default_auto_type :: auto_type_config where
  "default_auto_type =
     \<lparr>at_enabled = None, at_obfuscation = None, at_default_sequence = None, at_associations = []\<rparr>"

record group_flags =
  gf_is_expanded :: "bool option"
  gf_enable_auto_type :: "bool option"
  gf_enable_searching :: "bool option"

record group_times =
  gt_created_at :: u64
  gt_modified_at :: u64
  gt_expires :: bool
  gt_expiry_time :: "i64 option"
  gt_last_accessed_at :: "u64 option"
  gt_usage_count :: "u64 option"
  gt_location_changed_at :: "u64 option"

section \<open>Credentials\<close>

record passkey_record =
  pk_username :: string
  pk_credential_id :: string
  pk_generated_user_id :: "string option"
  pk_private_key_pem :: string
  pk_relying_party :: string
  pk_user_handle :: "string option"
  pk_backup_eligible :: bool
  pk_backup_state :: bool

datatype totp_algorithm = Sha1 | Sha256 | Sha512

record totp_spec =
  tp_secret_base32 :: string
  tp_algorithm :: totp_algorithm
  tp_digits :: u32
  tp_period_seconds :: u64
  tp_issuer :: "string option"
  tp_account_name :: "string option"

section \<open>Entries, groups, vaults\<close>

type_synonym attributes = "(string, custom_field) btree"

record entry_core =
  e_id :: uuid
  e_title :: string
  e_username :: string
  e_password :: string
  e_url :: string
  e_notes :: string
  e_field_protection :: field_protection
  e_tags :: "string list"
  e_attributes :: attributes
  e_attachments :: "(string, attachment) btree"
  e_totp :: "totp_spec option"
  e_passkey :: "passkey_record option"
  e_icon_id :: "u32 option"
  e_custom_icon_id :: "uuid option"
  e_foreground_color :: "string option"
  e_background_color :: "string option"
  e_override_url :: "string option"
  e_created_at :: u64
  e_modified_at :: u64
  e_expires :: bool
  e_expiry_time :: "i64 option"
  e_last_accessed_at :: "u64 option"
  e_usage_count :: "u64 option"
  e_location_changed_at :: "u64 option"
  e_auto_type :: "auto_type_config option"
  e_custom_data :: "(string, string) btree"
  e_custom_data_blocks :: "custom_data_block list"
  e_previous_parent :: "uuid option"
  e_exclude_from_reports :: bool
  e_raw_state :: entry_raw_state
  e_opaque_xml :: "fragment list"

datatype entry = Entry (e_core: entry_core) (e_history: "entry list")

record group_core =
  g_id :: uuid
  g_title :: string
  g_notes :: string
  g_icon_id :: "u32 option"
  g_custom_icon_id :: "uuid option"
  g_tags :: "string list"
  g_times :: "group_times option"
  g_flags :: group_flags
  g_default_auto_type_sequence :: "string option"
  g_last_top_visible_entry :: "uuid option"
  g_custom_data :: "(string, string) btree"
  g_custom_data_blocks :: "custom_data_block list"
  g_previous_parent :: "uuid option"
  g_raw_state :: group_raw_state
  g_opaque_xml :: "fragment list"

datatype vgroup = Group (g_core: group_core) (g_entries: "entry list") (g_children: "vgroup list")

record vault =
  v_generator :: "string option"
  v_settings_changed :: "i64 option"
  v_name :: string
  v_database_name_changed :: "i64 option"
  v_description :: "string option"
  v_description_changed :: "i64 option"
  v_default_username :: "string option"
  v_default_username_changed :: "i64 option"
  v_meta_custom_data :: "(string, string) btree"
  v_meta_custom_data_blocks :: "custom_data_block list"
  v_meta_raw_state :: meta_raw_state
  v_root_raw_state :: root_raw_state
  v_root :: vgroup
  v_kdf_parameters :: "bytes option"
  v_public_custom_data :: "(string, bytes) btree"
  v_deleted_objects :: "deleted_object list"
  v_maintenance_history_days :: "i32 option"
  v_color :: "string option"
  v_master_key_changed :: "i64 option"
  v_master_key_change_rec :: "i64 option"
  v_master_key_change_force :: "i64 option"
  v_master_key_change_force_once :: "bool option"
  v_custom_icons :: "custom_icon list"
  v_history_max_items :: "i32 option"
  v_history_max_size :: "i64 option"
  v_last_selected_group :: "uuid option"
  v_last_top_visible_group :: "uuid option"
  v_memory_protection :: "memory_protection option"
  v_recycle_bin_enabled :: "bool option"
  v_recycle_bin_group :: "uuid option"
  v_recycle_bin_changed :: "i64 option"
  v_entry_templates_group :: "uuid option"
  v_entry_templates_group_changed :: "i64 option"
  v_meta_opaque_xml :: "fragment list"
  v_root_opaque_xml :: "fragment list"

section \<open>Constructors\<close>

text \<open>\<open>Entry::new\<close>, \<open>Group::new\<close>, \<open>Vault::empty\<close>: the fresh UUIDs that the \<open>uuid\<close> crate
  draws are arguments.\<close>

definition default_entry_raw_state :: entry_raw_state where
  "default_entry_raw_state =
     \<lparr>er_node_order = [], er_string_order = [], er_binary_order = [],
      er_foreground_color_raw = None, er_background_color_raw = None, er_override_url_raw = None,
      er_tags_raw = None, er_quality_check_raw = None, er_has_history_node = False\<rparr>"

definition entry_new :: "uuid \<Rightarrow> string \<Rightarrow> entry" where
  "entry_new uid title = Entry
     \<lparr>e_id = uid, e_title = title, e_username = [], e_password = [], e_url = [], e_notes = [],
      e_field_protection = default_field_protection, e_tags = [], e_attributes = [],
      e_attachments = [], e_totp = None, e_passkey = None, e_icon_id = Some 0,
      e_custom_icon_id = None, e_foreground_color = None, e_background_color = None,
      e_override_url = None, e_created_at = 0, e_modified_at = 0, e_expires = False,
      e_expiry_time = Some (I64 0), e_last_accessed_at = Some 0, e_usage_count = Some 0,
      e_location_changed_at = Some 0, e_auto_type = Some default_auto_type, e_custom_data = [],
      e_custom_data_blocks = [], e_previous_parent = None, e_exclude_from_reports = False,
      e_raw_state = default_entry_raw_state, e_opaque_xml = []\<rparr> []"

definition default_group_raw_state :: group_raw_state where
  "default_group_raw_state =
     \<lparr>gr_node_order = [], gr_entry_order = [], gr_group_order = [],
      gr_default_auto_type_sequence_raw = None, gr_enable_auto_type_raw = None,
      gr_enable_searching_raw = None, gr_last_top_visible_entry_raw = None\<rparr>"

definition group_new :: "uuid \<Rightarrow> string \<Rightarrow> vgroup" where
  "group_new uid title = Group
     \<lparr>g_id = uid, g_title = title, g_notes = [], g_icon_id = None, g_custom_icon_id = None,
      g_tags = [], g_times = None,
      g_flags = \<lparr>gf_is_expanded = None, gf_enable_auto_type = None, gf_enable_searching = None\<rparr>,
      g_default_auto_type_sequence = None, g_last_top_visible_entry = None, g_custom_data = [],
      g_custom_data_blocks = [], g_previous_parent = None,
      g_raw_state = default_group_raw_state, g_opaque_xml = []\<rparr> [] []"

definition vault_empty :: "uuid \<Rightarrow> string \<Rightarrow> vault" where
  "vault_empty root_id name =
     \<lparr>v_generator = Some ''VaultKern'', v_settings_changed = None, v_name = name,
      v_database_name_changed = None, v_description = None, v_description_changed = None,
      v_default_username = None, v_default_username_changed = None, v_meta_custom_data = [],
      v_meta_custom_data_blocks = [],
      v_meta_raw_state = \<lparr>mr_node_order = [], mr_description_raw = None,
        mr_default_username_raw = None, mr_color_raw = None,
        mr_auto_enable_visual_hiding_raw = None, mr_has_custom_icons_node = False,
        mr_recycle_bin_group_raw = None, mr_entry_templates_group_raw = None\<rparr>,
      v_root_raw_state = \<lparr>rr_node_order = [], rr_has_deleted_objects_node = True\<rparr>,
      v_root = group_new root_id name, v_kdf_parameters = None, v_public_custom_data = [],
      v_deleted_objects = [], v_maintenance_history_days = None, v_color = None,
      v_master_key_changed = None, v_master_key_change_rec = None,
      v_master_key_change_force = None, v_master_key_change_force_once = None,
      v_custom_icons = [], v_history_max_items = None, v_history_max_size = None,
      v_last_selected_group = None, v_last_top_visible_group = None, v_memory_protection = None,
      v_recycle_bin_enabled = None, v_recycle_bin_group = None, v_recycle_bin_changed = None,
      v_entry_templates_group = None, v_entry_templates_group_changed = None,
      v_meta_opaque_xml = [], v_root_opaque_xml = []\<rparr>"

text \<open>Rust's \<open>entry.field = x\<close> on an entry: update the record inside the datatype.\<close>

definition upd_entry :: "(entry_core \<Rightarrow> entry_core) \<Rightarrow> entry \<Rightarrow> entry" where
  "upd_entry f e = Entry (f (e_core e)) (e_history e)"

definition set_history :: "entry list \<Rightarrow> entry \<Rightarrow> entry" where
  "set_history h e = Entry (e_core e) h"

lemma upd_entry_simps [simp]:
  "e_core (upd_entry f e) = f (e_core e)" "e_history (upd_entry f e) = e_history e"
  "e_core (set_history h e) = e_core e" "e_history (set_history h e) = h"
  by (simp_all add: upd_entry_def set_history_def)

end
