(* ===== verification/OtpAuth.thy ===== *)
theory OtpAuth
  imports Model
begin

text \<open>
  TOTP provisioning URIs (\<^verbatim>\<open>crates/vaultkern-model/src/lib.rs\<close>): percent encoding and
  decoding, \<open>TotpSpec::parse_otpauth\<close>, the writer \<open>entry_otpauth_uri\<close>, and the validity gate
  \<open>structured_totp_is_persistence_valid\<close> of \<^verbatim>\<open>crates/vaultkern-kdbx/src/lib.rs\<close>. The lemmas
  show that decoding inverts encoding, and what the parser makes of a written URI.
\<close>

section \<open>Percent encoding\<close>

definition hex_digit_upper :: "nat \<Rightarrow> char" where
  "hex_digit_upper n = (if n < 10 then char_of (48 + n) else char_of (55 + n))"

definition is_unreserved :: "char \<Rightarrow> bool" where
  "is_unreserved c \<longleftrightarrow>
     (65 \<le> code c \<and> code c \<le> 90) \<or> (97 \<le> code c \<and> code c \<le> 122) \<or>
     (48 \<le> code c \<and> code c \<le> 57) \<or> c \<in> {CHR ''-'', CHR ''.'', CHR ''_'', CHR ''~''}"

definition percent_encode_byte :: "char \<Rightarrow> string" where
  "percent_encode_byte c =
     (if is_unreserved c then [c]
      else [CHR ''%'', hex_digit_upper (code c div 16), hex_digit_upper (code c mod 16)])"

definition percent_encode_component :: "string \<Rightarrow> string" where
  "percent_encode_component s = concat (map percent_encode_byte s)"

text \<open>\<open>nibble\<close> and \<open>decode_hex_byte\<close>; the shift and or of two nibbles is \<open>16 * h + l\<close>.\<close>

definition nibble :: "char \<Rightarrow> nat option" where
  "nibble c =
     (if 48 \<le> code c \<and> code c \<le> 57 then Some (code c - 48)
      else if 97 \<le> code c \<and> code c \<le> 102 then Some (code c - 97 + 10)
      else if 65 \<le> code c \<and> code c \<le> 70 then Some (code c - 65 + 10)
      else None)"

definition decode_hex_byte :: "char \<Rightarrow> char \<Rightarrow> char option" where
  "decode_hex_byte high low =
     (case nibble high of
        None \<Rightarrow> None
      | Some h \<Rightarrow> (case nibble low of None \<Rightarrow> None | Some l \<Rightarrow> Some (char_of (16 * h + l))))"

text \<open>The decoding loop: an escape needs two more bytes, and a malformed one stays literal.\<close>

fun percent_decode_loop :: "string \<Rightarrow> string" where
  "percent_decode_loop (c # high # low # rest) =
     (if c = CHR ''%'' then
        (case decode_hex_byte high low of
           Some v \<Rightarrow> v # percent_decode_loop rest
         | None \<Rightarrow> c # percent_decode_loop (high # low # rest))
      else c # percent_decode_loop (high # low # rest))"
| "percent_decode_loop (c # rest) = c # percent_decode_loop rest"
| "percent_decode_loop [] = []"

definition percent_decode :: "string \<Rightarrow> model_error + string" where
  "percent_decode s =
     (let d = percent_decode_loop s in if utf8_valid d then Inr d else Inl Unimplemented)"

lemma nibble_hex_digit: "n < 16 \<Longrightarrow> nibble (hex_digit_upper n) = Some n"
  by (auto simp: nibble_def hex_digit_upper_def)

lemma decode_hex_of_byte:
  "decode_hex_byte (hex_digit_upper (code c div 16)) (hex_digit_upper (code c mod 16)) = Some c"
proof -
  have "code c div 16 < 16" using code_bound [of c] by presburger
  then show ?thesis by (simp add: decode_hex_byte_def nibble_hex_digit)
qed

lemma unreserved_not_percent: "is_unreserved c \<Longrightarrow> c \<noteq> CHR ''%''"
  by (auto simp: is_unreserved_def)

lemma percent_decode_plain: "c \<noteq> CHR ''%'' \<Longrightarrow> percent_decode_loop (c # r) = c # percent_decode_loop r"
  by (cases "c # r" rule: percent_decode_loop.cases) auto

lemma percent_decode_encode_append:
  "percent_decode_loop (percent_encode_component s @ t) = s @ percent_decode_loop t"
proof (induction s)
  case (Cons c s)
  then show ?case
    by (cases "is_unreserved c")
       (simp_all add: percent_encode_component_def percent_encode_byte_def percent_decode_plain
          unreserved_not_percent decode_hex_of_byte)
qed (simp add: percent_encode_component_def)

lemma percent_decode_encode:
  "utf8_valid s \<Longrightarrow> percent_decode (percent_encode_component s) = Inr s"
  using percent_decode_encode_append [of s "[]"] by (simp add: percent_decode_def)

text \<open>What an encoded component contains: unreserved characters, \<open>%\<close> and hex digits.\<close>

lemma hex_digit_unreserved: "n < 16 \<Longrightarrow> is_unreserved (hex_digit_upper n)"
  by (auto simp: hex_digit_upper_def is_unreserved_def)

lemma encoded_chars:
  assumes "c \<in> set (percent_encode_component s)"
  shows "is_unreserved c \<or> c = CHR ''%''"
proof -
  have "code d div 16 < 16" for d using code_bound [of d] by presburger
  then show ?thesis
    using assms
    by (auto simp: percent_encode_component_def percent_encode_byte_def hex_digit_unreserved
        split: if_splits)
qed

lemma encoded_avoids:
  assumes "\<not> is_unreserved c" and "c \<noteq> CHR ''%''"
  shows "c \<notin> set (percent_encode_component s)"
  using assms encoded_chars by blast

lemma separators_reserved [simp]:
  "\<not> is_unreserved CHR '':''" "\<not> is_unreserved CHR ''?''" "\<not> is_unreserved CHR ''&''"
  "\<not> is_unreserved CHR ''=''"
  by (simp_all add: is_unreserved_def)

lemma encoded_empty_iff [simp]: "percent_encode_component s = [] \<longleftrightarrow> s = []"
  by (cases s) (auto simp: percent_encode_component_def percent_encode_byte_def)

section \<open>Labels\<close>

text \<open>\<open>split_once_encoded_label_separator\<close>: the first window \<open>%3A\<close> or \<open>%3a\<close>.\<close>

fun split_once_encoded_label_separator :: "string \<Rightarrow> (string \<times> string) option" where
  "split_once_encoded_label_separator (a # b # c # rest) =
     (if a = CHR ''%'' \<and> b = CHR ''3'' \<and> (c = CHR ''A'' \<or> c = CHR ''a'') then Some ([], rest)
      else (case split_once_encoded_label_separator (b # c # rest) of
              None \<Rightarrow> None | Some (x, y) \<Rightarrow> Some (a # x, y)))"
| "split_once_encoded_label_separator _ = None"

fun trim_encoded_label_spaces :: "string \<Rightarrow> string" where
  "trim_encoded_label_spaces (a # b # c # rest) =
     (if a = CHR ''%'' \<and> b = CHR ''2'' \<and> c = CHR ''0'' then trim_encoded_label_spaces rest
      else a # b # c # rest)"
| "trim_encoded_label_spaces s = s"

definition nonempty :: "string \<Rightarrow> string option" where
  "nonempty s = (if s = [] then None else Some s)"

definition filter_nonempty :: "string option \<Rightarrow> string option" where
  "filter_nonempty x = (case x of None \<Rightarrow> None | Some s \<Rightarrow> nonempty s)"

text \<open>The issuer and account that the label spells, before empty ones are dropped.\<close>

definition parse_label :: "string \<Rightarrow> model_error + string option \<times> string option" where
  "parse_label label =
     (case split_once CHR '':'' label of
        Some (issuer, account) \<Rightarrow>
          and_then (percent_decode issuer) (\<lambda>i.
          and_then (percent_decode account) (\<lambda>a. Inr (Some i, Some a)))
      | None \<Rightarrow>
          (case split_once_encoded_label_separator label of
             Some (issuer, account) \<Rightarrow>
               and_then (percent_decode issuer) (\<lambda>i.
               and_then (percent_decode (trim_encoded_label_spaces account)) (\<lambda>a.
                 Inr (Some i, Some a)))
           | None \<Rightarrow> and_then (percent_decode label) (\<lambda>a. Inr (None, nonempty a))))"

section \<open>The query\<close>

record otp_query =
  oq_secret :: "string option"
  oq_issuer :: "string option option"
  oq_algorithm :: totp_algorithm
  oq_digits :: u32
  oq_period :: u64
  oq_names :: "string list"

definition otp_query_start :: otp_query where
  "otp_query_start =
     \<lparr>oq_secret = None, oq_issuer = None, oq_algorithm = Sha1, oq_digits = 6, oq_period = 30,
      oq_names = []\<rparr>"

definition parse_algorithm_name :: "string \<Rightarrow> totp_algorithm option" where
  "parse_algorithm_name value =
     (let u = to_ascii_uppercase value in
      if u = ''SHA1'' \<or> u = ''HMAC-SHA-1'' then Some Sha1
      else if u = ''SHA256'' \<or> u = ''HMAC-SHA-256'' then Some Sha256
      else if u = ''SHA512'' \<or> u = ''HMAC-SHA-512'' then Some Sha512
      else None)"

definition otp_query_keys :: "string list" where
  "otp_query_keys = [''secret'', ''issuer'', ''algorithm'', ''digits'', ''period'']"

text \<open>The \<open>match key\<close> of the loop body, and one iteration of the loop over
  \<open>query.split('&')\<close>.\<close>

definition apply_query_value :: "otp_query \<Rightarrow> string \<Rightarrow> string \<Rightarrow> model_error + otp_query" where
  "apply_query_value q key v =
     (if key = ''secret'' then Inr (q\<lparr>oq_secret := Some v\<rparr>)
      else if key = ''issuer'' then Inr (q\<lparr>oq_issuer := Some (nonempty v)\<rparr>)
      else if key = ''algorithm'' then
        and_then (ok_or (parse_algorithm_name v) Unimplemented) (\<lambda>a. Inr (q\<lparr>oq_algorithm := a\<rparr>))
      else if key = ''digits'' then
        and_then (ok_or (parse_u32 v) Unimplemented) (\<lambda>d. Inr (q\<lparr>oq_digits := d\<rparr>))
      else
        and_then (ok_or (parse_u64 v) Unimplemented) (\<lambda>p. Inr (q\<lparr>oq_period := p\<rparr>)))"

definition parse_query_pair :: "otp_query \<Rightarrow> string \<Rightarrow> model_error + otp_query" where
  "parse_query_pair q pair =
     (if pair = [] then Inl Unimplemented
      else and_then (ok_or (split_once CHR ''='' pair) Unimplemented) (\<lambda>(key, raw).
        if key \<notin> set otp_query_keys \<or> key \<in> set (oq_names q) then Inl Unimplemented
        else and_then (percent_decode raw)
               (apply_query_value (q\<lparr>oq_names := key # oq_names q\<rparr>) key)))"

definition otpauth_prefix :: string where
  "otpauth_prefix = ''otpauth://totp/''"

definition parse_otpauth :: "string \<Rightarrow> model_error + totp_spec" where
  "parse_otpauth uri =
     (case str_get_prefix (length otpauth_prefix) uri of
        None \<Rightarrow> Inl Unimplemented
      | Some prefix \<Rightarrow>
        if \<not> eq_ignore_ascii_case prefix otpauth_prefix then Inl Unimplemented
        else
        and_then (ok_or (split_once CHR ''?'' (drop (length otpauth_prefix) uri)) Unimplemented)
          (\<lambda>(label, query).
        and_then (parse_label label) (\<lambda>(label_issuer0, account_name0).
        (let label_issuer = filter_nonempty label_issuer0 in
        and_then (try_fold parse_query_pair otp_query_start (split_on CHR ''&'' query)) (\<lambda>q.
        and_then (ok_or (oq_secret q) Unimplemented) (\<lambda>secret.
        if secret = [] then Inl Unimplemented
        else
        (let issuer = (case oq_issuer q of Some i \<Rightarrow> i | None \<Rightarrow> label_issuer) in
        and_then (ok_or (filter_nonempty account_name0) Unimplemented) (\<lambda>account_name.
        if issuer = None \<and> CHR '':'' \<in> set account_name
           \<or> \<not> (1 \<le> oq_digits q \<and> oq_digits q \<le> 9) \<or> oq_period q = 0
        then Inl Unimplemented
        else Inr \<lparr>tp_secret_base32 = secret, tp_algorithm = oq_algorithm q,
                  tp_digits = oq_digits q, tp_period_seconds = oq_period q,
                  tp_issuer = issuer, tp_account_name = Some account_name\<rparr>))))))))"

section \<open>The writer\<close>

definition uri_algorithm :: "totp_algorithm \<Rightarrow> string" where
  "uri_algorithm a = (case a of Sha1 \<Rightarrow> ''SHA1'' | Sha256 \<Rightarrow> ''SHA256'' | Sha512 \<Rightarrow> ''SHA512'')"

definition attribute_algorithm :: "totp_algorithm \<Rightarrow> string" where
  "attribute_algorithm a =
     (case a of Sha1 \<Rightarrow> ''HMAC-SHA-1'' | Sha256 \<Rightarrow> ''HMAC-SHA-256'' | Sha512 \<Rightarrow> ''HMAC-SHA-512'')"

definition otpauth_label :: "entry_core \<Rightarrow> totp_spec \<Rightarrow> string \<times> string option" where
  "otpauth_label entry totp =
     (case tp_issuer totp of
        None \<Rightarrow>
          (case tp_account_name totp of
             Some account_name \<Rightarrow>
               if account_name \<noteq> [] then (percent_encode_component account_name, None)
               else (percent_encode_component (e_title entry) @ '':'' @
                       percent_encode_component (e_username entry), Some (e_title entry))
           | None \<Rightarrow>
               (percent_encode_component (e_title entry) @ '':'' @
                  percent_encode_component (e_username entry), Some (e_title entry)))
      | Some issuer \<Rightarrow>
          (let account_name = (case tp_account_name totp of Some a \<Rightarrow> a | None \<Rightarrow> e_username entry)
           in (percent_encode_component issuer @ '':'' @ percent_encode_component account_name,
               Some issuer)))"

definition entry_otpauth_uri :: "entry_core \<Rightarrow> totp_spec \<Rightarrow> string \<Rightarrow> string" where
  "entry_otpauth_uri entry totp algorithm =
     (case otpauth_label entry totp of (label, issuer) \<Rightarrow>
        ''otpauth://totp/'' @ label @ ''?secret='' @ percent_encode_component (tp_secret_base32 totp) @
        (case issuer of None \<Rightarrow> [] | Some i \<Rightarrow> ''&issuer='' @ percent_encode_component i) @
        ''&algorithm='' @ algorithm @ ''&digits='' @ show_word (tp_digits totp) @
        ''&period='' @ show_word (tp_period_seconds totp))"

text \<open>\<open>structured_totp_is_persistence_valid\<close>: the gate in front of every save.\<close>

definition structured_totp_is_persistence_valid :: "totp_spec \<Rightarrow> bool" where
  "structured_totp_is_persistence_valid totp \<longleftrightarrow>
     (case tp_account_name totp of
        None \<Rightarrow> False
      | Some account_name \<Rightarrow>
          account_name \<noteq> [] \<and> tp_secret_base32 totp \<noteq> [] \<and>
          (case tp_issuer totp of None \<Rightarrow> True | Some issuer \<Rightarrow> issuer \<noteq> []) \<and>
          (tp_issuer totp \<noteq> None \<or> CHR '':'' \<notin> set account_name))"

text \<open>Every Rust \<open>String\<close> is valid UTF-8.\<close>

definition totp_text_valid :: "totp_spec \<Rightarrow> bool" where
  "totp_text_valid totp \<longleftrightarrow>
     utf8_valid (tp_secret_base32 totp) \<and>
     (case tp_issuer totp of None \<Rightarrow> True | Some s \<Rightarrow> utf8_valid s) \<and>
     (case tp_account_name totp of None \<Rightarrow> True | Some s \<Rightarrow> utf8_valid s)"

section \<open>Reading back what was written\<close>

lemma split_label_plain:
  "c \<noteq> CHR ''%'' \<Longrightarrow> split_once_encoded_label_separator (c # r) =
     (case split_once_encoded_label_separator r of None \<Rightarrow> None | Some (x, y) \<Rightarrow> Some (c # x, y))"
  by (cases "c # r" rule: split_once_encoded_label_separator.cases) auto

lemma hex_upper_code: "n < 16 \<Longrightarrow> code (hex_digit_upper n) = (if n < 10 then 48 + n else 55 + n)"
  by (simp add: hex_digit_upper_def)

lemma escape_is_colon:
  assumes "hex_digit_upper (code c div 16) = CHR ''3''"
    and "hex_digit_upper (code c mod 16) = CHR ''A'' \<or> hex_digit_upper (code c mod 16) = CHR ''a''"
  shows "c = CHR '':''"
proof -
  have b: "code c div 16 < 16" using code_bound [of c] by presburger
  have "code c div 16 = 3"
    using arg_cong [OF assms(1), of code] b by (auto simp: hex_upper_code split: if_splits)
  moreover have "code c mod 16 = 10"
  proof -
    have "code c mod 16 < 16" by simp
    moreover have "code (hex_digit_upper (code c mod 16)) = 65 \<or>
        code (hex_digit_upper (code c mod 16)) = 97"
      using assms(2) by auto
    ultimately show ?thesis by (auto simp: hex_upper_code split: if_splits)
  qed
  ultimately have "code c = 58" by presburger
  then have "code c = code CHR '':''" by simp
  then show ?thesis by (simp only: of_char_eq_iff)
qed

lemma hex_digit_not_percent: "n < 16 \<Longrightarrow> hex_digit_upper n \<noteq> CHR ''%''"
  using hex_digit_unreserved unreserved_not_percent by blast

lemma split_label_encoded:
  "CHR '':'' \<notin> set s \<Longrightarrow> split_once_encoded_label_separator (percent_encode_component s) = None"
proof (induction s)
  case (Cons c s)
  have b: "code c div 16 < 16" using code_bound [of c] by presburger
  from Cons have IH: "split_once_encoded_label_separator (percent_encode_component s) = None" by simp
  show ?case
  proof (cases "is_unreserved c")
    case True
    then show ?thesis
      using IH by (simp add: percent_encode_component_def percent_encode_byte_def split_label_plain
          unreserved_not_percent)
  next
    case False
    then show ?thesis
      using IH Cons.prems escape_is_colon [of c] b
      by (auto simp: percent_encode_component_def percent_encode_byte_def split_label_plain
          hex_digit_not_percent)
  qed
qed (simp add: percent_encode_component_def)

lemma parse_label_issuer:
  assumes "utf8_valid i" and "utf8_valid a"
  shows "parse_label (percent_encode_component i @ CHR '':'' # percent_encode_component a) =
    Inr (Some i, Some a)"
  using assms by (simp add: parse_label_def split_once_hit encoded_avoids percent_decode_encode)

lemma parse_label_account:
  assumes "utf8_valid a" and "CHR '':'' \<notin> set a"
  shows "parse_label (percent_encode_component a) = Inr (None, nonempty a)"
  using assms
  by (simp add: parse_label_def split_once_miss encoded_avoids percent_decode_encode
      split_label_encoded)

text \<open>Plain values (algorithm names, decimal numbers) are their own encoding.\<close>

lemma percent_decode_loop_id: "CHR ''%'' \<notin> set s \<Longrightarrow> percent_decode_loop s = s"
  by (induction s) (auto simp: percent_decode_plain)

lemma utf8_valid_ascii: "(\<And>c. c \<in> set s \<Longrightarrow> code c < 128) \<Longrightarrow> utf8_valid s"
  by (induction s) auto

lemma percent_decode_ascii:
  assumes "\<And>c. c \<in> set s \<Longrightarrow> code c < 128 \<and> c \<noteq> CHR ''%''"
  shows "percent_decode s = Inr s"
proof -
  have "CHR ''%'' \<notin> set s" and "utf8_valid s"
    using assms utf8_valid_ascii by blast+
  then show ?thesis by (simp add: percent_decode_def percent_decode_loop_id)
qed

lemma of_char_int: "(of_char c :: int) = int (code c)"
  by (metis of_nat_of_char)

lemma show_word_chars:
  assumes "c \<in> set (show_word w)"
  shows "48 \<le> code c \<and> code c \<le> 57"
  using show_word_digits [OF assms] by (simp add: of_char_int)

lemma percent_decode_show: "percent_decode (show_word w) = Inr (show_word w)"
  by (rule percent_decode_ascii) (use show_word_chars in fastforce)

lemma uri_algorithm_plain: "percent_decode (uri_algorithm a) = Inr (uri_algorithm a)"
  by (cases a) (simp_all add: uri_algorithm_def percent_decode_def)

lemma parse_uri_algorithm: "parse_algorithm_name (uri_algorithm a) = Some a"
  by (cases a)
     (simp_all add: uri_algorithm_def parse_algorithm_name_def to_ascii_uppercase_def ascii_upper_def)

lemmas pair_simps = parse_query_pair_def apply_query_value_def otp_query_keys_def

lemma pair_secret:
  "utf8_valid s \<Longrightarrow> ''secret'' \<notin> set (oq_names q) \<Longrightarrow>
   parse_query_pair q (''secret='' @ percent_encode_component s) =
     Inr (q\<lparr>oq_names := ''secret'' # oq_names q, oq_secret := Some s\<rparr>)"
  by (simp add: pair_simps percent_decode_encode)

lemma pair_issuer:
  "utf8_valid s \<Longrightarrow> ''issuer'' \<notin> set (oq_names q) \<Longrightarrow>
   parse_query_pair q (''issuer='' @ percent_encode_component s) =
     Inr (q\<lparr>oq_names := ''issuer'' # oq_names q, oq_issuer := Some (nonempty s)\<rparr>)"
  by (simp add: pair_simps percent_decode_encode)

lemma pair_algorithm:
  "''algorithm'' \<notin> set (oq_names q) \<Longrightarrow>
   parse_query_pair q (''algorithm='' @ uri_algorithm a) =
     Inr (q\<lparr>oq_names := ''algorithm'' # oq_names q, oq_algorithm := a\<rparr>)"
  by (simp add: pair_simps uri_algorithm_plain parse_uri_algorithm)

lemma pair_digits:
  "''digits'' \<notin> set (oq_names q) \<Longrightarrow>
   parse_query_pair q (''digits='' @ show_word d) =
     Inr (q\<lparr>oq_names := ''digits'' # oq_names q, oq_digits := d\<rparr>)"
  by (simp add: pair_simps percent_decode_show parse_u32_show)

lemma pair_period:
  "''period'' \<notin> set (oq_names q) \<Longrightarrow>
   parse_query_pair q (''period='' @ show_word p) =
     Inr (q\<lparr>oq_names := ''period'' # oq_names q, oq_period := p\<rparr>)"
  by (simp add: pair_simps percent_decode_show parse_u64_show)

definition written_query :: "string \<Rightarrow> string option \<Rightarrow> totp_spec \<Rightarrow> string" where
  "written_query secret issuer t =
     ''secret='' @ percent_encode_component secret @
     (case issuer of None \<Rightarrow> [] | Some i \<Rightarrow> ''&issuer='' @ percent_encode_component i) @
     ''&algorithm='' @ uri_algorithm (tp_algorithm t) @ ''&digits='' @ show_word (tp_digits t) @
     ''&period='' @ show_word (tp_period_seconds t)"

lemma amp_avoided:
  "CHR ''&'' \<notin> set (uri_algorithm a)"
  "CHR ''&'' \<notin> set (show_word w)"
  "CHR ''&'' \<notin> set (percent_encode_component s)"
proof -
  show "CHR ''&'' \<notin> set (uri_algorithm a)" by (cases a) (simp_all add: uri_algorithm_def)
  show "CHR ''&'' \<notin> set (show_word w)" using show_word_chars [of "CHR ''&''" w] by auto
qed (simp add: encoded_avoids)

definition written_pairs :: "string \<Rightarrow> string option \<Rightarrow> totp_spec \<Rightarrow> string list" where
  "written_pairs s issuer t =
     [''secret='' @ percent_encode_component s] @
     (case issuer of None \<Rightarrow> [] | Some i \<Rightarrow> [''issuer='' @ percent_encode_component i]) @
     [''algorithm='' @ uri_algorithm (tp_algorithm t), ''digits='' @ show_word (tp_digits t),
      ''period='' @ show_word (tp_period_seconds t)]"

lemma split_written_query:
  "split_on CHR ''&'' (written_query s issuer t) = written_pairs s issuer t"
proof -
  have "written_query s issuer t = join_with CHR ''&'' (written_pairs s issuer t)"
    by (cases issuer) (simp_all add: written_query_def written_pairs_def)
  moreover have "\<forall>p \<in> set (written_pairs s issuer t). CHR ''&'' \<notin> set p"
    by (cases issuer) (simp_all add: written_pairs_def amp_avoided)
  ultimately show ?thesis
    by (simp add: split_on_join written_pairs_def)
qed

lemma parse_written_query:
  assumes "utf8_valid s" and "\<And>i. issuer = Some i \<Longrightarrow> utf8_valid i"
  shows "\<exists>names. try_fold parse_query_pair otp_query_start
      (split_on CHR ''&'' (written_query s issuer t)) =
    Inr \<lparr>oq_secret = Some s, oq_issuer = map_option nonempty issuer,
         oq_algorithm = tp_algorithm t, oq_digits = tp_digits t,
         oq_period = tp_period_seconds t, oq_names = names\<rparr>"
  using assms
  by (cases issuer)
     (simp_all add: split_written_query written_pairs_def pair_secret [simplified] pair_issuer [simplified]
        pair_algorithm [simplified] pair_digits [simplified] pair_period [simplified]
        otp_query_start_def)

lemma uri_shape:
  "entry_otpauth_uri e t (uri_algorithm (tp_algorithm t)) =
     otpauth_prefix @ fst (otpauth_label e t) @ CHR ''?'' #
       written_query (tp_secret_base32 t) (snd (otpauth_label e t)) t"
  by (simp add: entry_otpauth_uri_def otpauth_prefix_def written_query_def split: prod.split)

lemma encoded_not_continuation:
  "c \<in> set (percent_encode_component s) \<Longrightarrow> \<not> is_continuation c"
  using encoded_chars [of c s] by (auto simp: is_continuation_def is_unreserved_def)

lemma label_chars:
  assumes "c \<in> set (fst (otpauth_label e t))"
  shows "\<not> is_continuation c \<and> c \<noteq> CHR ''?''"
  using assms
  by (auto simp: otpauth_label_def Let_def is_continuation_def [of "CHR '':''"] encoded_avoids
      dest: encoded_not_continuation split: option.splits if_splits)

lemma uri_prefix:
  "str_get_prefix (length otpauth_prefix) (otpauth_prefix @ fst (otpauth_label e t) @ CHR ''?'' # r) =
     Some otpauth_prefix"
proof (cases "fst (otpauth_label e t)")
  case Nil
  then show ?thesis by (simp add: str_get_prefix_def nth_append is_continuation_def)
next
  case (Cons c l)
  then show ?thesis
    using label_chars [of c e t] by (simp add: str_get_prefix_def nth_append)
qed

lemma parse_written_label:
  assumes valid: "structured_totp_is_persistence_valid t" and utf: "totp_text_valid t"
  shows "parse_label (fst (otpauth_label e t)) = Inr (tp_issuer t, tp_account_name t)"
    and "snd (otpauth_label e t) = tp_issuer t"
proof -
  from valid obtain a where a: "tp_account_name t = Some a" "a \<noteq> []"
    by (auto simp: structured_totp_is_persistence_valid_def split: option.splits)
  have "parse_label (fst (otpauth_label e t)) = Inr (tp_issuer t, tp_account_name t) \<and>
      snd (otpauth_label e t) = tp_issuer t"
  proof (cases "tp_issuer t")
    case None
    then show ?thesis using a valid utf
      by (simp add: otpauth_label_def parse_label_account nonempty_def totp_text_valid_def
          structured_totp_is_persistence_valid_def)
  next
    case (Some i)
    then show ?thesis using a valid utf
      by (simp add: otpauth_label_def parse_label_issuer totp_text_valid_def)
  qed
  then show "parse_label (fst (otpauth_label e t)) = Inr (tp_issuer t, tp_account_name t)"
    and "snd (otpauth_label e t) = tp_issuer t" by simp_all
qed

lemma written_uri_parses:
  assumes "structured_totp_is_persistence_valid t" and "totp_text_valid t"
  shows "parse_otpauth (entry_otpauth_uri e t (uri_algorithm (tp_algorithm t))) =
    (if 1 \<le> tp_digits t \<and> tp_digits t \<le> 9 \<and> tp_period_seconds t \<noteq> 0
     then Inr t else Inl Unimplemented)"
proof -
  let ?s = "tp_secret_base32 t"
  obtain a where a: "tp_account_name t = Some a" "a \<noteq> []" "?s \<noteq> []"
      "tp_issuer t = None \<Longrightarrow> CHR '':'' \<notin> set a" "tp_issuer t \<noteq> Some []"
    using assms(1) by (auto simp: structured_totp_is_persistence_valid_def split: option.splits)
  have u: "utf8_valid ?s" "\<And>i. tp_issuer t = Some i \<Longrightarrow> utf8_valid i"
    using assms(2) by (auto simp: totp_text_valid_def)
  have q: "split_once CHR ''?'' (fst (otpauth_label e t) @ CHR ''?'' # r) =
      Some (fst (otpauth_label e t), r)" for r
    using label_chars [of "CHR ''?''" e t] by (intro split_once_hit) auto
  obtain names where query: "try_fold parse_query_pair otp_query_start
      (split_on CHR ''&'' (written_query ?s (tp_issuer t) t)) =
    Inr \<lparr>oq_secret = Some ?s, oq_issuer = map_option nonempty (tp_issuer t),
         oq_algorithm = tp_algorithm t, oq_digits = tp_digits t,
         oq_period = tp_period_seconds t, oq_names = names\<rparr>"
    using parse_written_query [of ?s "tp_issuer t" t] u by blast
  note simps = uri_shape parse_otpauth_def uri_prefix q parse_written_label [OF assms]
    filter_nonempty_def nonempty_def Let_def
  show ?thesis
  proof (cases "tp_issuer t")
    case None
    with a show ?thesis by (simp add: simps query [unfolded None])
  next
    case (Some i)
    with a show ?thesis by (simp add: simps query [unfolded Some])
  qed
qed

text \<open>
  C10. Written TOTP URIs and the parser. For a TOTP that the save gate
  \<open>structured_totp_is_persistence_valid\<close> accepts, parsing the URI that
  \<open>entry_otpauth_uri\<close> writes gives back exactly that TOTP when the digit count is between
  1 and 9 and the period is not zero, and is rejected otherwise: the gate does not check
  these two fields, so it lets through TOTPs whose written URI does not load as a TOTP.
\<close>

theorem otpauth_uri_roundtrip:
  assumes "structured_totp_is_persistence_valid t" and "totp_text_valid t"
  shows "parse_otpauth (entry_otpauth_uri e t (uri_algorithm (tp_algorithm t))) =
    (if 1 \<le> tp_digits t \<and> tp_digits t \<le> 9 \<and> tp_period_seconds t \<noteq> 0
     then Inr t else Inl Unimplemented)"
  using assms by (rule written_uri_parses)

definition totp_example :: totp_spec where
  "totp_example = \<lparr>tp_secret_base32 = ''SECRET'', tp_algorithm = Sha256, tp_digits = 8,
     tp_period_seconds = 45, tp_issuer = Some ''A:B'', tp_account_name = Some ''alice''\<rparr>"

theorem otpauth_uri_roundtrip_witness:
  "parse_otpauth (entry_otpauth_uri (e_core (entry_new 1 ''t'')) totp_example
     (uri_algorithm (tp_algorithm totp_example))) = Inr totp_example"
proof -
  have "structured_totp_is_persistence_valid totp_example" and "totp_text_valid totp_example"
    by code_simp+
  from otpauth_uri_roundtrip [OF this, of "e_core (entry_new 1 ''t'')"]
  show ?thesis by (simp add: totp_example_def)
qed

section \<open>What the parser accepts\<close>

lemma percent_decode_utf8: "percent_decode s = Inr d \<Longrightarrow> utf8_valid d"
  by (auto simp: percent_decode_def Let_def split: if_splits)

definition query_text_valid :: "otp_query \<Rightarrow> bool" where
  "query_text_valid q \<longleftrightarrow>
     (\<forall>s. oq_secret q = Some s \<longrightarrow> utf8_valid s) \<and>
     (\<forall>i. oq_issuer q = Some (Some i) \<longrightarrow> utf8_valid i \<and> i \<noteq> [])"

lemma apply_query_value_text:
  assumes "query_text_valid q" and "utf8_valid v" and "apply_query_value q key v = Inr q'"
  shows "query_text_valid q'"
proof -
  have "oq_secret q' = oq_secret q \<or> oq_secret q' = Some v"
    and "oq_issuer q' = oq_issuer q \<or> oq_issuer q' = Some (nonempty v)"
    using assms(3) by (auto simp: apply_query_value_def and_then_eq_Inr split: if_splits)
  then show ?thesis
    using assms(1,2)
    by (elim disjE) (simp_all add: query_text_valid_def nonempty_def)
qed

lemma query_pair_text:
  assumes "query_text_valid q" and "parse_query_pair q pair = Inr q'"
  shows "query_text_valid q'"
proof (cases "split_once CHR ''='' pair")
  case None
  then show ?thesis using assms(2) by (simp add: parse_query_pair_def split: if_splits)
next
  case (Some kr)
  obtain key raw where kr: "kr = (key, raw)" by (cases kr)
  let ?q = "q\<lparr>oq_names := key # oq_names q\<rparr>"
  from assms(2) Some kr
  have "and_then (percent_decode raw) (apply_query_value ?q key) = Inr q'"
    by (simp add: parse_query_pair_def split: if_splits)
  then obtain v where "percent_decode raw = Inr v" and v: "apply_query_value ?q key v = Inr q'"
    unfolding and_then_eq_Inr by blast
  then have "utf8_valid v" by (simp add: percent_decode_utf8)
  moreover have "query_text_valid ?q"
    using assms(1) by (simp add: query_text_valid_def)
  ultimately show ?thesis using v by (blast intro: apply_query_value_text)
qed

lemma query_text:
  assumes "try_fold parse_query_pair otp_query_start pairs = Inr q"
  shows "query_text_valid q"
proof (rule try_fold_invariant [OF assms])
  show "query_text_valid otp_query_start"
    by (simp add: query_text_valid_def otp_query_start_def)
qed (rule query_pair_text)

lemma label_text:
  "parse_label l = Inr (i, a) \<Longrightarrow>
    (\<forall>x. i = Some x \<longrightarrow> utf8_valid x) \<and> (\<forall>x. a = Some x \<longrightarrow> utf8_valid x)"
  by (auto simp: parse_label_def and_then_eq_Inr nonempty_def dest: percent_decode_utf8
      split: option.splits if_splits prod.splits)

lemma parse_otpauth_accepts:
  assumes "parse_otpauth uri = Inr t"
  shows "structured_totp_is_persistence_valid t \<and> totp_text_valid t \<and>
    1 \<le> tp_digits t \<and> tp_digits t \<le> 9 \<and> tp_period_seconds t \<noteq> 0"
proof -
  obtain label q li a0 s a where
      label: "parse_label label = Inr (li, a0)"
    and q: "try_fold parse_query_pair otp_query_start q = Inr a" "oq_secret a = Some s" "s \<noteq> []"
    and acc: "\<exists>acc. filter_nonempty a0 = Some acc \<and>
      (let issuer = (case oq_issuer a of Some i \<Rightarrow> i | None \<Rightarrow> filter_nonempty li) in
       \<not> (issuer = None \<and> CHR '':'' \<in> set acc) \<and> 1 \<le> oq_digits a \<and> oq_digits a \<le> 9 \<and>
       oq_period a \<noteq> 0 \<and>
       t = \<lparr>tp_secret_base32 = s, tp_algorithm = oq_algorithm a, tp_digits = oq_digits a,
            tp_period_seconds = oq_period a, tp_issuer = issuer, tp_account_name = Some acc\<rparr>)"
    using assms
    by (fastforce simp: parse_otpauth_def and_then_eq_Inr ok_or_def Let_def
        split: option.splits if_splits prod.splits)
  have "query_text_valid a" using q(1) by (rule query_text)
  moreover note label_text [OF label]
  ultimately show ?thesis
    using acc q
    by (auto simp: structured_totp_is_persistence_valid_def totp_text_valid_def query_text_valid_def
        filter_nonempty_def nonempty_def Let_def split: option.splits if_splits)
qed

text \<open>
  C19. Every TOTP that the parser accepts can be saved and comes back. Its strings are valid text, it
  passes the save gate, its digit count is between 1 and 9 and its period is positive, as code
  generation requires of them; and the URI written for it, in whatever entry, parses to the same TOTP.
  Of the secret the parser only requires that it is not empty, not that it is base32.
\<close>

theorem parse_otpauth_sound:
  assumes "parse_otpauth uri = Inr t"
  shows "structured_totp_is_persistence_valid t \<and> totp_text_valid t \<and>
    1 \<le> tp_digits t \<and> tp_digits t \<le> 9 \<and> tp_period_seconds t \<noteq> 0 \<and>
    parse_otpauth (entry_otpauth_uri e t (uri_algorithm (tp_algorithm t))) = Inr t"
  using parse_otpauth_accepts [OF assms] written_uri_parses [of t e] by simp

theorem parse_otpauth_sound_witness:
  "let t = \<lparr>tp_secret_base32 = ''S'', tp_algorithm = Sha1, tp_digits = 6, tp_period_seconds = 30,
      tp_issuer = None, tp_account_name = Some ''al''\<rparr>
   in structured_totp_is_persistence_valid t \<and>
     parse_otpauth (entry_otpauth_uri (e_core (entry_new 1 ''mail'')) t ''SHA1'') = Inr t"
proof -
  have "parse_otpauth ''otpauth://totp/al?secret=S'' = Inr
     \<lparr>tp_secret_base32 = ''S'', tp_algorithm = Sha1, tp_digits = 6, tp_period_seconds = 30,
      tp_issuer = None, tp_account_name = Some ''al''\<rparr>" by code_simp
  from parse_otpauth_sound [OF this, of "e_core (entry_new 1 ''mail'')"]
  show ?thesis by (simp add: uri_algorithm_def)
qed

end
