(* ===== verification/Credentials.thy ===== *)
theory Credentials
  imports OtpAuth
begin

text \<open>
  Credentials kept in entry attributes (\<^verbatim>\<open>crates/vaultkern-model/src/lib.rs\<close>): the passkey
  attributes (\<open>PasskeyRecord\<close>, \<open>PasskeyPersistentView\<close>, \<open>parse_passkey_flag\<close>), the TOTP
  attributes (\<open>totp_from_persistent_attributes\<close> and its helpers), and the materialized view
  \<open>materialize_entry_persistent_attributes\<close> that every writer reads. The lemmas show that the
  projections invert the writers and that the view never shows a secret unprotected.
\<close>

section \<open>Passkey attributes\<close>

abbreviation "pk_username_key \<equiv> ''KPEX_PASSKEY_USERNAME''"
abbreviation "pk_credential_id_key \<equiv> ''KPEX_PASSKEY_CREDENTIAL_ID''"
abbreviation "pk_generated_user_id_key \<equiv> ''KPEX_PASSKEY_GENERATED_USER_ID''"
abbreviation "pk_private_key_pem_key \<equiv> ''KPEX_PASSKEY_PRIVATE_KEY_PEM''"
abbreviation "pk_relying_party_key \<equiv> ''KPEX_PASSKEY_RELYING_PARTY''"
abbreviation "pk_user_handle_key \<equiv> ''KPEX_PASSKEY_USER_HANDLE''"
abbreviation "pk_flag_be_key \<equiv> ''KPEX_PASSKEY_FLAG_BE''"
abbreviation "pk_flag_bs_key \<equiv> ''KPEX_PASSKEY_FLAG_BS''"

definition passkey_keys :: "string list" where
  "passkey_keys = [pk_username_key, pk_credential_id_key, pk_generated_user_id_key,
     pk_private_key_pem_key, pk_relying_party_key, pk_user_handle_key, pk_flag_be_key,
     pk_flag_bs_key]"

definition passkey_secret_keys :: "string list" where
  "passkey_secret_keys = [pk_credential_id_key, pk_generated_user_id_key, pk_private_key_pem_key,
     pk_user_handle_key]"

definition is_passkey_persistent_attribute_key :: "string \<Rightarrow> bool" where
  "is_passkey_persistent_attribute_key key \<longleftrightarrow> key \<in> set passkey_keys"

definition is_sensitive_passkey_attribute_key :: "string \<Rightarrow> bool" where
  "is_sensitive_passkey_attribute_key key \<longleftrightarrow> key \<in> set passkey_secret_keys"

definition parse_passkey_flag :: "custom_field option \<Rightarrow> bool option" where
  "parse_passkey_flag field =
     (case field of
        None \<Rightarrow> Some False
      | Some f \<Rightarrow>
          if cf_value f = ''0'' then Some False
          else if cf_value f = ''1'' then Some True
          else if eq_ignore_ascii_case (cf_value f) ''false'' then Some False
          else if eq_ignore_ascii_case (cf_value f) ''true'' then Some True
          else None)"

text \<open>\<open>PasskeyPersistentView::visit_attributes\<close>: the visited triples, in order.\<close>

definition flag_text :: "bool \<Rightarrow> string" where
  "flag_text b = (if b then ''1'' else ''0'')"

definition passkey_visit :: "passkey_record \<Rightarrow> (string \<times> custom_field) list" where
  "passkey_visit p =
     [(pk_username_key, \<lparr>cf_value = pk_username p, cf_protected = False\<rparr>),
      (pk_credential_id_key, \<lparr>cf_value = pk_credential_id p, cf_protected = True\<rparr>)] @
     (case pk_generated_user_id p of
        None \<Rightarrow> []
      | Some g \<Rightarrow> [(pk_generated_user_id_key, \<lparr>cf_value = g, cf_protected = False\<rparr>)]) @
     [(pk_private_key_pem_key, \<lparr>cf_value = pk_private_key_pem p, cf_protected = True\<rparr>),
      (pk_relying_party_key, \<lparr>cf_value = pk_relying_party p, cf_protected = False\<rparr>)] @
     (case pk_user_handle p of
        None \<Rightarrow> []
      | Some h \<Rightarrow> [(pk_user_handle_key, \<lparr>cf_value = h, cf_protected = True\<rparr>)]) @
     [(pk_flag_be_key, \<lparr>cf_value = flag_text (pk_backup_eligible p), cf_protected = False\<rparr>),
      (pk_flag_bs_key, \<lparr>cf_value = flag_text (pk_backup_state p), cf_protected = False\<rparr>)]"

definition passkey_write_to_attributes :: "passkey_record \<Rightarrow> attributes \<Rightarrow> attributes" where
  "passkey_write_to_attributes p attributes =
     bt_extend (bt_remove pk_user_handle_key (bt_remove pk_generated_user_id_key attributes))
       (passkey_visit p)"

definition passkey_from_attributes :: "attributes \<Rightarrow> passkey_record option" where
  "passkey_from_attributes attributes =
     (case (bt_get attributes pk_username_key, bt_get attributes pk_credential_id_key,
            bt_get attributes pk_private_key_pem_key, bt_get attributes pk_relying_party_key,
            parse_passkey_flag (bt_get attributes pk_flag_be_key),
            parse_passkey_flag (bt_get attributes pk_flag_bs_key)) of
        (Some u, Some c, Some k, Some r, Some be, Some bs) \<Rightarrow>
          Some \<lparr>pk_username = cf_value u, pk_credential_id = cf_value c,
                pk_generated_user_id = map_option cf_value (bt_get attributes pk_generated_user_id_key),
                pk_private_key_pem = cf_value k, pk_relying_party = cf_value r,
                pk_user_handle = map_option cf_value (bt_get attributes pk_user_handle_key),
                pk_backup_eligible = be, pk_backup_state = bs\<rparr>
      | _ \<Rightarrow> None)"

lemma parse_flag_text [simp]:
  "parse_passkey_flag (Some \<lparr>cf_value = flag_text b, cf_protected = p\<rparr>) = Some b"
  by (cases b) (simp_all add: parse_passkey_flag_def flag_text_def)

lemma passkey_visit_keys: "fst ` set (passkey_visit p) \<subseteq> set passkey_keys"
  by (auto simp: passkey_visit_def passkey_keys_def split: option.splits)

text \<open>The lookups of a map into which a passkey has been written.\<close>

lemma map_of_rev_visit:
  "map_of (rev (passkey_visit p)) pk_username_key =
     Some \<lparr>cf_value = pk_username p, cf_protected = False\<rparr>"
  "map_of (rev (passkey_visit p)) pk_credential_id_key =
     Some \<lparr>cf_value = pk_credential_id p, cf_protected = True\<rparr>"
  "map_of (rev (passkey_visit p)) pk_generated_user_id_key =
     map_option (\<lambda>g. \<lparr>cf_value = g, cf_protected = False\<rparr>) (pk_generated_user_id p)"
  "map_of (rev (passkey_visit p)) pk_private_key_pem_key =
     Some \<lparr>cf_value = pk_private_key_pem p, cf_protected = True\<rparr>"
  "map_of (rev (passkey_visit p)) pk_relying_party_key =
     Some \<lparr>cf_value = pk_relying_party p, cf_protected = False\<rparr>"
  "map_of (rev (passkey_visit p)) pk_user_handle_key =
     map_option (\<lambda>h. \<lparr>cf_value = h, cf_protected = True\<rparr>) (pk_user_handle p)"
  "map_of (rev (passkey_visit p)) pk_flag_be_key =
     Some \<lparr>cf_value = flag_text (pk_backup_eligible p), cf_protected = False\<rparr>"
  "map_of (rev (passkey_visit p)) pk_flag_bs_key =
     Some \<lparr>cf_value = flag_text (pk_backup_state p), cf_protected = False\<rparr>"
  by (cases "pk_generated_user_id p"; cases "pk_user_handle p"; simp add: passkey_visit_def)+

text \<open>Reading and writing meet whenever the optional keys are absent beforehand.\<close>

lemma passkey_from_extended:
  assumes "bt_get m pk_generated_user_id_key = None" and "bt_get m pk_user_handle_key = None"
  shows "passkey_from_attributes (bt_extend m (passkey_visit p)) = Some p"
proof -
  have "pk_generated_user_id_key \<noteq> pk_user_handle_key" by simp
  then show ?thesis
    using assms
    by (cases "pk_generated_user_id p"; cases "pk_user_handle p")
       (simp_all add: passkey_from_attributes_def bt_get_extend map_add_def map_of_rev_visit)
qed

text \<open>A passkey written into any attribute map is read back unchanged: optional attrs that
  the record lacks do not survive from an earlier passkey.
\<close>

theorem passkey_attributes_roundtrip:
  "passkey_from_attributes (passkey_write_to_attributes p attributes) = Some p"
  unfolding passkey_write_to_attributes_def by (rule passkey_from_extended) simp_all

lemma visit_other_key:
  assumes "\<not> is_passkey_persistent_attribute_key k"
  shows "map_of (rev (passkey_visit p)) k = None"
  using assms passkey_visit_keys [of p]
  by (auto simp: is_passkey_persistent_attribute_key_def map_of_eq_None_iff)

text \<open>Writing a passkey touches passkey attributes only, and keeps the map sorted.
\<close>

theorem passkey_write_frame:
  assumes "bt_wf attributes"
  shows "bt_wf (passkey_write_to_attributes p attributes) \<and>
    (\<forall>k. is_passkey_persistent_attribute_key k \<or>
       bt_get (passkey_write_to_attributes p attributes) k = bt_get attributes k)"
proof (intro conjI allI)
  show "bt_wf (passkey_write_to_attributes p attributes)"
    using assms by (simp add: passkey_write_to_attributes_def)
  fix k
  show "is_passkey_persistent_attribute_key k \<or>
      bt_get (passkey_write_to_attributes p attributes) k = bt_get attributes k"
  proof (cases "is_passkey_persistent_attribute_key k")
    case False
    then have "k \<noteq> pk_user_handle_key" "k \<noteq> pk_generated_user_id_key"
      by (auto simp: is_passkey_persistent_attribute_key_def passkey_keys_def)
    then show ?thesis
      by (simp add: passkey_write_to_attributes_def bt_get_extend map_add_def
          visit_other_key [OF False])
  qed simp
qed

theorem passkey_write_frame_witness:
  "bt_get (passkey_write_to_attributes
     \<lparr>pk_username = ''u'', pk_credential_id = ''c'', pk_generated_user_id = None,
      pk_private_key_pem = ''k'', pk_relying_party = ''r'', pk_user_handle = None,
      pk_backup_eligible = True, pk_backup_state = False\<rparr>
     [(''A'', \<lparr>cf_value = ''x'', cf_protected = True\<rparr>)]) ''A'' =
   Some \<lparr>cf_value = ''x'', cf_protected = True\<rparr>"
proof -
  have wf: "bt_wf [(''A'', \<lparr>cf_value = ''x'', cf_protected = True\<rparr>)]" by (simp add: bt_wf_def)
  have "\<not> is_passkey_persistent_attribute_key ''A''"
    by (simp add: is_passkey_persistent_attribute_key_def passkey_keys_def)
  with passkey_write_frame [OF wf, THEN conjunct2, rule_format, of "''A''"] show ?thesis by simp
qed

section \<open>TOTP attributes\<close>

definition totp_projectable_keys :: "string list" where
  "totp_projectable_keys = [''otp'', ''TimeOtp-Secret-Base32'', ''TimeOtp-Algorithm'',
     ''TimeOtp-Length'', ''TimeOtp-Period'']"

definition totp_keys :: "string list" where
  "totp_keys = [''otp'', ''TimeOtp-Secret'', ''TimeOtp-Secret-Hex'', ''TimeOtp-Secret-Base32'',
     ''TimeOtp-Secret-Base64'', ''TimeOtp-Algorithm'', ''TimeOtp-Length'', ''TimeOtp-Period'',
     ''HmacOtp-Secret'', ''HmacOtp-Secret-Hex'', ''HmacOtp-Secret-Base32'',
     ''HmacOtp-Secret-Base64'', ''HmacOtp-Counter'']"

definition totp_secret_keys :: "string list" where
  "totp_secret_keys = [''otp'', ''TimeOtp-Secret'', ''TimeOtp-Secret-Hex'', ''TimeOtp-Secret-Base32'',
     ''TimeOtp-Secret-Base64'', ''HmacOtp-Secret'', ''HmacOtp-Secret-Hex'', ''HmacOtp-Secret-Base32'',
     ''HmacOtp-Secret-Base64'', ''HmacOtp-Counter'']"

definition is_projectable_totp_attribute_key :: "string \<Rightarrow> bool" where
  "is_projectable_totp_attribute_key key \<longleftrightarrow> key \<in> set totp_projectable_keys"

definition is_totp_persistent_attribute_key :: "string \<Rightarrow> bool" where
  "is_totp_persistent_attribute_key key \<longleftrightarrow> key \<in> set totp_keys"

definition is_totp_secret_persistent_attribute_key :: "string \<Rightarrow> bool" where
  "is_totp_secret_persistent_attribute_key key \<longleftrightarrow> key \<in> set totp_secret_keys"

definition parse_discrete_totp_algorithm :: "custom_field option \<Rightarrow> totp_algorithm option" where
  "parse_discrete_totp_algorithm field =
     (case field of
        None \<Rightarrow> Some Sha1
      | Some f \<Rightarrow>
          if eq_ignore_ascii_case (cf_value f) ''HMAC-SHA-1'' then Some Sha1
          else if eq_ignore_ascii_case (cf_value f) ''HMAC-SHA-256'' then Some Sha256
          else if eq_ignore_ascii_case (cf_value f) ''HMAC-SHA-512'' then Some Sha512
          else None)"

definition parse_discrete_totp_number ::
    "(string \<Rightarrow> 'a option) \<Rightarrow> custom_field option \<Rightarrow> 'a \<Rightarrow> 'a option" where
  "parse_discrete_totp_number from_str field dflt =
     (case field of Some f \<Rightarrow> from_str (cf_value f) | None \<Rightarrow> Some dflt)"

definition discrete_totp_matches :: "attributes \<Rightarrow> totp_spec \<Rightarrow> bool" where
  "discrete_totp_matches attrs uri \<longleftrightarrow>
     (case bt_get attrs ''TimeOtp-Secret-Base32'' of
        None \<Rightarrow> False | Some f \<Rightarrow> cf_value f = tp_secret_base32 uri) \<and>
     parse_discrete_totp_algorithm (bt_get attrs ''TimeOtp-Algorithm'') = Some (tp_algorithm uri) \<and>
     parse_discrete_totp_number parse_u32 (bt_get attrs ''TimeOtp-Length'') 6 = Some (tp_digits uri) \<and>
     parse_discrete_totp_number parse_u64 (bt_get attrs ''TimeOtp-Period'') 30 =
       Some (tp_period_seconds uri)"

definition present_discrete_totp_parameters_match :: "attributes \<Rightarrow> totp_spec \<Rightarrow> bool" where
  "present_discrete_totp_parameters_match attrs uri \<longleftrightarrow>
     (case bt_get attrs ''TimeOtp-Algorithm'' of
        None \<Rightarrow> True | Some f \<Rightarrow> parse_discrete_totp_algorithm (Some f) = Some (tp_algorithm uri)) \<and>
     (case bt_get attrs ''TimeOtp-Length'' of
        None \<Rightarrow> True | Some f \<Rightarrow> parse_u32 (cf_value f) = Some (tp_digits uri)) \<and>
     (case bt_get attrs ''TimeOtp-Period'' of
        None \<Rightarrow> True | Some f \<Rightarrow> parse_u64 (cf_value f) = Some (tp_period_seconds uri))"

definition totp_from_persistent_attributes :: "attributes \<Rightarrow> totp_spec option" where
  "totp_from_persistent_attributes attrs =
     (if list_ex (\<lambda>key. is_totp_persistent_attribute_key key \<and>
          \<not> is_projectable_totp_attribute_key key) (bt_keys attrs)
      then None
      else (case bt_get attrs ''otp'' of
        None \<Rightarrow> None
      | Some uri_field \<Rightarrow>
          (case parse_otpauth (cf_value uri_field) of
             Inl _ \<Rightarrow> None
           | Inr uri \<Rightarrow>
               if bt_contains attrs ''TimeOtp-Secret-Base32''
               then (if discrete_totp_matches attrs uri then Some uri else None)
               else (if present_discrete_totp_parameters_match attrs uri then Some uri else None))))"

section \<open>The materialized view\<close>

record materialized =
  mt_fields :: attributes
  mt_has_projectable_passkey :: bool

definition totp_overlay_fields :: "entry_core \<Rightarrow> totp_spec \<Rightarrow> (string \<times> custom_field) list" where
  "totp_overlay_fields entry totp =
     [(''otp'', \<lparr>cf_value = entry_otpauth_uri entry totp (uri_algorithm (tp_algorithm totp)),
                 cf_protected = True\<rparr>),
      (''TimeOtp-Secret-Base32'', \<lparr>cf_value = tp_secret_base32 totp, cf_protected = True\<rparr>),
      (''TimeOtp-Algorithm'', \<lparr>cf_value = attribute_algorithm (tp_algorithm totp),
                               cf_protected = False\<rparr>),
      (''TimeOtp-Length'', \<lparr>cf_value = show_word (tp_digits totp), cf_protected = False\<rparr>),
      (''TimeOtp-Period'', \<lparr>cf_value = show_word (tp_period_seconds totp), cf_protected = False\<rparr>)]"

definition overlay_totp_projection :: "attributes \<Rightarrow> entry_core \<Rightarrow> totp_spec \<Rightarrow> attributes" where
  "overlay_totp_projection attributes entry totp =
     bt_extend (filter (\<lambda>p. \<not> is_totp_persistent_attribute_key (fst p)) attributes)
       (totp_overlay_fields entry totp)"

text \<open>\<open>for (key, field) in &mut attrs { if p(key) { field.protected = true } }\<close>\<close>

definition protect_keys :: "(string \<Rightarrow> bool) \<Rightarrow> attributes \<Rightarrow> attributes" where
  "protect_keys p attributes =
     map (\<lambda>(key, field). (key, if p key then field\<lparr>cf_protected := True\<rparr> else field)) attributes"

definition materialize_entry_persistent_attributes :: "entry_core \<Rightarrow> materialized" where
  "materialize_entry_persistent_attributes entry =
     (let raw_totp = (if e_totp entry = None
                      then totp_from_persistent_attributes (e_attributes entry) else None);
          attributes =
            (case e_totp entry of
               Some totp \<Rightarrow> overlay_totp_projection (e_attributes entry) entry totp
             | None \<Rightarrow>
                 (case raw_totp of
                    Some totp \<Rightarrow> overlay_totp_projection (e_attributes entry) entry totp
                  | None \<Rightarrow> protect_keys is_totp_secret_persistent_attribute_key
                              (e_attributes entry)));
          passkey = (case e_passkey entry of
                       Some p \<Rightarrow> Some p | None \<Rightarrow> passkey_from_attributes (e_attributes entry))
      in case passkey of
           Some p \<Rightarrow>
             \<lparr>mt_fields = bt_extend
                (filter (\<lambda>f. \<not> is_passkey_persistent_attribute_key (fst f)) attributes) (passkey_visit p),
              mt_has_projectable_passkey = True\<rparr>
         | None \<Rightarrow>
             \<lparr>mt_fields = protect_keys is_sensitive_passkey_attribute_key attributes,
              mt_has_projectable_passkey = False\<rparr>)"

section \<open>Lookups in the view\<close>

definition protect_if :: "bool \<Rightarrow> custom_field \<Rightarrow> custom_field" where
  "protect_if b f = (if b then f\<lparr>cf_protected := True\<rparr> else f)"

lemma protect_if_simps [simp]:
  "cf_value (protect_if b f) = cf_value f"
  "cf_protected (protect_if b f) \<longleftrightarrow> b \<or> cf_protected f"
  "protect_if b (protect_if b f) = protect_if b f"
  by (simp_all add: protect_if_def)

lemma map_of_protect_keys:
  "map_of (protect_keys p m) k = map_option (protect_if (p k)) (map_of m k)"
  by (induction m) (auto simp: protect_keys_def protect_if_def)

lemma keys_protect_keys [simp]: "map fst (protect_keys p m) = map fst m"
  by (induction m) (auto simp: protect_keys_def)

lemma bt_wf_protect_keys [simp, wf_intros]: "bt_wf m \<Longrightarrow> bt_wf (protect_keys p m)"
  by (simp add: bt_wf_def)

definition effective_totp :: "entry_core \<Rightarrow> totp_spec option" where
  "effective_totp e =
     (case e_totp e of Some t \<Rightarrow> Some t | None \<Rightarrow> totp_from_persistent_attributes (e_attributes e))"

definition effective_passkey :: "entry_core \<Rightarrow> passkey_record option" where
  "effective_passkey e =
     (case e_passkey e of Some p \<Rightarrow> Some p | None \<Rightarrow> passkey_from_attributes (e_attributes e))"

text \<open>What the view holds under a key: the projected TOTP and passkey replace every attribute
  of their representation, everything else is the entry's own attribute, with secrets
  protected.\<close>

definition view_lookup :: "entry_core \<Rightarrow> string \<Rightarrow> custom_field option" where
  "view_lookup e k =
     (if is_totp_persistent_attribute_key k then
        (case effective_totp e of
           Some t \<Rightarrow> map_of (rev (totp_overlay_fields e t)) k
         | None \<Rightarrow> map_option (protect_if (is_totp_secret_persistent_attribute_key k))
                     (bt_get (e_attributes e) k))
      else if is_passkey_persistent_attribute_key k then
        (case effective_passkey e of
           Some p \<Rightarrow> map_of (rev (passkey_visit p)) k
         | None \<Rightarrow> map_option (protect_if (is_sensitive_passkey_attribute_key k))
                     (bt_get (e_attributes e) k))
      else bt_get (e_attributes e) k)"

lemma totp_passkey_disjoint:
  "is_totp_persistent_attribute_key k \<Longrightarrow> \<not> is_passkey_persistent_attribute_key k"
  by (auto simp: is_totp_persistent_attribute_key_def is_passkey_persistent_attribute_key_def
      totp_keys_def passkey_keys_def)

lemma totp_secret_is_totp:
  "is_totp_secret_persistent_attribute_key k \<Longrightarrow> is_totp_persistent_attribute_key k"
  by (auto simp: is_totp_persistent_attribute_key_def is_totp_secret_persistent_attribute_key_def
      totp_keys_def totp_secret_keys_def)

lemma sensitive_is_passkey:
  "is_sensitive_passkey_attribute_key k \<Longrightarrow> is_passkey_persistent_attribute_key k"
  by (auto simp: is_sensitive_passkey_attribute_key_def is_passkey_persistent_attribute_key_def
      passkey_keys_def passkey_secret_keys_def)

lemma not_secret_key:
  "\<not> is_totp_persistent_attribute_key k \<Longrightarrow> is_totp_secret_persistent_attribute_key k \<longleftrightarrow> False"
  "\<not> is_passkey_persistent_attribute_key k \<Longrightarrow> is_sensitive_passkey_attribute_key k \<longleftrightarrow> False"
  using totp_secret_is_totp sensitive_is_passkey by blast+

lemmas drop_keys_lookup =
  map_of_filter_key [where P = "\<lambda>k. \<not> is_totp_persistent_attribute_key k"]
  map_of_filter_key [where P = "\<lambda>k. \<not> is_passkey_persistent_attribute_key k"]

lemma overlay_other_key:
  assumes "\<not> is_totp_persistent_attribute_key k"
  shows "map_of (rev (totp_overlay_fields e t)) k = None"
  using assms
  by (auto simp: map_of_eq_None_iff totp_overlay_fields_def is_totp_persistent_attribute_key_def
      totp_keys_def)

lemma protect_if_False [simp]: "map_option (protect_if False) x = x"
  by (cases x) (simp_all add: protect_if_def)

text \<open>The code's two stages in terms of the effective credentials.\<close>

definition totp_stage :: "entry_core \<Rightarrow> attributes" where
  "totp_stage e =
     (case effective_totp e of
        Some t \<Rightarrow> overlay_totp_projection (e_attributes e) e t
      | None \<Rightarrow> protect_keys is_totp_secret_persistent_attribute_key (e_attributes e))"

lemma materialize_alt:
  "materialize_entry_persistent_attributes e =
     (case effective_passkey e of
        Some p \<Rightarrow>
          \<lparr>mt_fields = bt_extend
             (filter (\<lambda>f. \<not> is_passkey_persistent_attribute_key (fst f)) (totp_stage e))
             (passkey_visit p), mt_has_projectable_passkey = True\<rparr>
      | None \<Rightarrow>
          \<lparr>mt_fields = protect_keys is_sensitive_passkey_attribute_key (totp_stage e),
           mt_has_projectable_passkey = False\<rparr>)"
  by (simp add: materialize_entry_persistent_attributes_def effective_totp_def
      effective_passkey_def totp_stage_def Let_def split: option.split)

lemma totp_stage_lookup:
  "map_of (totp_stage e) k =
     (if is_totp_persistent_attribute_key k then
        (case effective_totp e of
           Some t \<Rightarrow> map_of (rev (totp_overlay_fields e t)) k
         | None \<Rightarrow> map_option (protect_if (is_totp_secret_persistent_attribute_key k))
                     (bt_get (e_attributes e) k))
      else bt_get (e_attributes e) k)"
  by (auto simp: totp_stage_def overlay_totp_projection_def bt_get_extend map_add_def
      drop_keys_lookup overlay_other_key map_of_protect_keys not_secret_key split: option.split)

lemma materialize_lookup:
  "map_of (mt_fields (materialize_entry_persistent_attributes e)) k = view_lookup e k"
  using totp_passkey_disjoint [of k]
  by (auto simp: materialize_alt view_lookup_def bt_get_extend map_add_def
      drop_keys_lookup visit_other_key map_of_protect_keys totp_stage_lookup not_secret_key
      split: option.split)

lemma materialize_has_passkey:
  "mt_has_projectable_passkey (materialize_entry_persistent_attributes e) \<longleftrightarrow>
     effective_passkey e \<noteq> None"
  by (simp add: materialize_alt split: option.split)

lemma materialize_wf:
  "bt_wf (e_attributes e) \<Longrightarrow> bt_wf (mt_fields (materialize_entry_persistent_attributes e))"
  by (simp add: materialize_alt totp_stage_def overlay_totp_projection_def split: option.split)

lemma visit_protection:
  assumes "map_of (rev (passkey_visit p)) k = Some f" and "is_sensitive_passkey_attribute_key k"
  shows "cf_protected f \<or> k = pk_generated_user_id_key"
  using assms
  by (auto simp: is_sensitive_passkey_attribute_key_def passkey_secret_keys_def map_of_rev_visit)

lemma overlay_protection:
  assumes "map_of (rev (totp_overlay_fields e t)) k = Some f"
    and "is_totp_secret_persistent_attribute_key k"
  shows "cf_protected f"
  using assms
  by (auto simp: is_totp_secret_persistent_attribute_key_def totp_secret_keys_def
      totp_overlay_fields_def split: if_splits)

text \<open>
  C18. No secret leaves the model unprotected: in the view that both writers read, every TOTP
  or HOTP secret and every passkey attribute that the code calls sensitive is marked
  protected, whatever the entry's own attributes say. The one exception is the generated
  user id of a projected passkey, which the visitor emits unprotected.
\<close>

theorem materialized_secrets_protected:
  assumes "bt_get (mt_fields (materialize_entry_persistent_attributes e)) k = Some f"
    and "is_totp_secret_persistent_attribute_key k \<or> is_sensitive_passkey_attribute_key k"
  shows "cf_protected f \<or>
    (k = pk_generated_user_id_key \<and>
     mt_has_projectable_passkey (materialize_entry_persistent_attributes e))"
proof (cases "is_totp_persistent_attribute_key k")
  case True
  then have "is_totp_secret_persistent_attribute_key k"
    using assms(2) totp_passkey_disjoint sensitive_is_passkey by blast
  then show ?thesis
    using assms(1) True
    by (auto simp: materialize_lookup view_lookup_def dest: overlay_protection split: option.splits)
next
  case False
  then have s: "is_sensitive_passkey_attribute_key k"
    using assms(2) totp_secret_is_totp by blast
  then show ?thesis
    using assms(1) False sensitive_is_passkey [OF s]
    by (auto simp: materialize_lookup view_lookup_def materialize_has_passkey
        dest: visit_protection split: option.splits)
qed

definition passkey_example :: passkey_record where
  "passkey_example = \<lparr>pk_username = ''u'', pk_credential_id = ''c'', pk_generated_user_id = Some ''g'',
     pk_private_key_pem = ''k'', pk_relying_party = ''r'', pk_user_handle = None,
     pk_backup_eligible = True, pk_backup_state = False\<rparr>"

definition credential_example :: entry_core where
  "credential_example = (e_core (entry_new 1 ''t''))
     \<lparr>e_passkey := Some passkey_example,
      e_attributes := [(''TimeOtp-Secret-Hex'', \<lparr>cf_value = ''00'', cf_protected = False\<rparr>)]\<rparr>"

theorem materialized_secrets_protected_witness:
  "bt_get (mt_fields (materialize_entry_persistent_attributes credential_example))
     ''TimeOtp-Secret-Hex'' = Some \<lparr>cf_value = ''00'', cf_protected = True\<rparr> \<and>
   cf_protected \<lparr>cf_value = ''00'', cf_protected = True\<rparr>"
proof -
  have get: "bt_get (mt_fields (materialize_entry_persistent_attributes credential_example))
     ''TimeOtp-Secret-Hex'' = Some \<lparr>cf_value = ''00'', cf_protected = True\<rparr>" by code_simp
  have "is_totp_secret_persistent_attribute_key ''TimeOtp-Secret-Hex''" by code_simp
  with materialized_secrets_protected [OF get] get show ?thesis by simp
qed

text \<open>The exception is real and contradicts the comment on
  \<open>is_sensitive_persistent_attribute_key\<close> (such an attribute ``must be protected''): a passkey
  with a generated user id is materialized with that attribute unprotected, although the
  same attribute of an unprojectable passkey is forced to be protected.
\<close>

theorem generated_user_id_unprotected:
  "is_sensitive_passkey_attribute_key pk_generated_user_id_key \<and>
   bt_get (mt_fields (materialize_entry_persistent_attributes credential_example))
     pk_generated_user_id_key = Some \<lparr>cf_value = ''g'', cf_protected = False\<rparr>"
  by code_simp

section \<open>Stability\<close>

lemma bt_keys_lookup: "k \<in> set (bt_keys m) \<longleftrightarrow> bt_get m k \<noteq> None"
  by (simp add: map_of_eq_None_iff)

lemma unprojectable_totp_iff:
  "list_ex (\<lambda>key. is_totp_persistent_attribute_key key \<and> \<not> is_projectable_totp_attribute_key key)
     (bt_keys m) \<longleftrightarrow>
   (\<exists>key. is_totp_persistent_attribute_key key \<and> \<not> is_projectable_totp_attribute_key key \<and>
     bt_get m key \<noteq> None)"
  unfolding list_ex_iff using bt_keys_lookup by metis

text \<open>The TOTP projection reads only TOTP keys and only their values.\<close>

lemma parse_discrete_cong:
  "map_option cf_value x = map_option cf_value y \<Longrightarrow>
     parse_discrete_totp_algorithm x = parse_discrete_totp_algorithm y"
  "map_option cf_value x = map_option cf_value y \<Longrightarrow>
     parse_discrete_totp_number p x d = parse_discrete_totp_number p y d"
  by (cases x; cases y; simp add: parse_discrete_totp_algorithm_def parse_discrete_totp_number_def)+

lemma option_value_cong:
  "map_option cf_value x = map_option cf_value y \<Longrightarrow>
     (case x of None \<Rightarrow> b | Some f \<Rightarrow> P (cf_value f)) = (case y of None \<Rightarrow> b | Some f \<Rightarrow> P (cf_value f))"
  by (cases x; cases y) auto

lemma present_algorithm_cong:
  "map_option cf_value x = map_option cf_value y \<Longrightarrow>
     (case x of None \<Rightarrow> True | Some f \<Rightarrow> parse_discrete_totp_algorithm (Some f) = a) =
     (case y of None \<Rightarrow> True | Some f \<Rightarrow> parse_discrete_totp_algorithm (Some f) = a)"
  by (cases x; cases y) (auto simp: parse_discrete_totp_algorithm_def)

lemma totp_from_congruence:
  assumes "\<And>k. is_totp_persistent_attribute_key k \<Longrightarrow>
    map_option cf_value (bt_get m k) = map_option cf_value (bt_get m' k)"
  shows "totp_from_persistent_attributes m = totp_from_persistent_attributes m'"
proof -
  have same: "map_option cf_value (bt_get m k) = map_option cf_value (bt_get m' k)"
    if "k \<in> set totp_keys" for k
    using assms [of k] that by (simp add: is_totp_persistent_attribute_key_def)
  have in_keys: "''otp'' \<in> set totp_keys" "''TimeOtp-Secret-Base32'' \<in> set totp_keys"
    "''TimeOtp-Algorithm'' \<in> set totp_keys" "''TimeOtp-Length'' \<in> set totp_keys"
    "''TimeOtp-Period'' \<in> set totp_keys"
    by (simp_all add: totp_keys_def)
  have contains: "bt_contains m ''TimeOtp-Secret-Base32'' = bt_contains m' ''TimeOtp-Secret-Base32''"
    unfolding bt_contains_def using same [OF in_keys(2)] by (metis map_option_is_None)
  have d: "discrete_totp_matches m t = discrete_totp_matches m' t" for t
    unfolding discrete_totp_matches_def
    by (simp only: option_value_cong [OF same [OF in_keys(2)], where P = "\<lambda>v. v = tp_secret_base32 t"]
        parse_discrete_cong(1) [OF same [OF in_keys(3)]]
        parse_discrete_cong(2) [OF same [OF in_keys(4)]]
        parse_discrete_cong(2) [OF same [OF in_keys(5)]])
  have pr: "present_discrete_totp_parameters_match m t =
      present_discrete_totp_parameters_match m' t" for t
    unfolding present_discrete_totp_parameters_match_def
    by (simp only: present_algorithm_cong [OF same [OF in_keys(3)]]
        option_value_cong [OF same [OF in_keys(4)], where P = "\<lambda>v. parse_u32 v = Some (tp_digits t)"]
        option_value_cong [OF same [OF in_keys(5)],
          where P = "\<lambda>v. parse_u64 v = Some (tp_period_seconds t)"])
  have un: "list_ex (\<lambda>key. is_totp_persistent_attribute_key key \<and>
       \<not> is_projectable_totp_attribute_key key) (bt_keys m) =
     list_ex (\<lambda>key. is_totp_persistent_attribute_key key \<and>
       \<not> is_projectable_totp_attribute_key key) (bt_keys m')"
    unfolding unprojectable_totp_iff using assms by (metis map_option_is_None)
  show ?thesis
    unfolding totp_from_persistent_attributes_def un contains d pr
    using same [OF in_keys(1)] by (cases "bt_get m ''otp''"; cases "bt_get m' ''otp''") simp_all
qed

lemma passkey_from_congruence:
  assumes "\<And>k. is_passkey_persistent_attribute_key k \<Longrightarrow>
    map_option cf_value (bt_get m k) = map_option cf_value (bt_get m' k)"
  shows "passkey_from_attributes m = passkey_from_attributes m'"
proof -
  have same: "map_option cf_value (bt_get m k) = map_option cf_value (bt_get m' k)"
    if "k \<in> set passkey_keys" for k
    using assms [of k] that by (simp add: is_passkey_persistent_attribute_key_def)
  have flag: "parse_passkey_flag x = parse_passkey_flag y"
    if "map_option cf_value x = map_option cf_value y" for x y
    using that by (cases x; cases y) (auto simp: parse_passkey_flag_def)
  have alt: "passkey_from_attributes n =
     (case (map_option cf_value (bt_get n pk_username_key),
            map_option cf_value (bt_get n pk_credential_id_key),
            map_option cf_value (bt_get n pk_private_key_pem_key),
            map_option cf_value (bt_get n pk_relying_party_key),
            parse_passkey_flag (bt_get n pk_flag_be_key),
            parse_passkey_flag (bt_get n pk_flag_bs_key)) of
        (Some u, Some c, Some k, Some r, Some be, Some bs) \<Rightarrow>
          Some \<lparr>pk_username = u, pk_credential_id = c,
                pk_generated_user_id = map_option cf_value (bt_get n pk_generated_user_id_key),
                pk_private_key_pem = k, pk_relying_party = r,
                pk_user_handle = map_option cf_value (bt_get n pk_user_handle_key),
                pk_backup_eligible = be, pk_backup_state = bs\<rparr>
      | _ \<Rightarrow> None)" for n
    by (simp add: passkey_from_attributes_def split: option.split)
  have k: "pk_username_key \<in> set passkey_keys" "pk_credential_id_key \<in> set passkey_keys"
    "pk_private_key_pem_key \<in> set passkey_keys" "pk_relying_party_key \<in> set passkey_keys"
    "pk_flag_be_key \<in> set passkey_keys" "pk_flag_bs_key \<in> set passkey_keys"
    "pk_generated_user_id_key \<in> set passkey_keys" "pk_user_handle_key \<in> set passkey_keys"
    by (simp_all add: passkey_keys_def)
  show ?thesis
    unfolding alt by (simp only: k [THEN same] flag [OF k(5) [THEN same]] flag [OF k(6) [THEN same]])
qed

text \<open>A projected TOTP that parses back is found again in its own overlay.\<close>

lemma parse_attribute_algorithm:
  "parse_discrete_totp_algorithm (Some \<lparr>cf_value = attribute_algorithm a, cf_protected = b\<rparr>) = Some a"
  by (cases a) (simp_all add: parse_discrete_totp_algorithm_def attribute_algorithm_def
      eq_ignore_ascii_case_def to_ascii_lowercase_def ascii_lower_def)

lemma overlay_lookups:
  "map_of (rev (totp_overlay_fields e t)) ''otp'' =
     Some \<lparr>cf_value = entry_otpauth_uri e t (uri_algorithm (tp_algorithm t)), cf_protected = True\<rparr>"
  "map_of (rev (totp_overlay_fields e t)) ''TimeOtp-Secret-Base32'' =
     Some \<lparr>cf_value = tp_secret_base32 t, cf_protected = True\<rparr>"
  "map_of (rev (totp_overlay_fields e t)) ''TimeOtp-Algorithm'' =
     Some \<lparr>cf_value = attribute_algorithm (tp_algorithm t), cf_protected = False\<rparr>"
  "map_of (rev (totp_overlay_fields e t)) ''TimeOtp-Length'' =
     Some \<lparr>cf_value = show_word (tp_digits t), cf_protected = False\<rparr>"
  "map_of (rev (totp_overlay_fields e t)) ''TimeOtp-Period'' =
     Some \<lparr>cf_value = show_word (tp_period_seconds t), cf_protected = False\<rparr>"
  by (simp_all add: totp_overlay_fields_def)

lemma overlay_keys_projectable:
  "map_of (rev (totp_overlay_fields e t)) k \<noteq> None \<Longrightarrow> is_projectable_totp_attribute_key k"
  by (auto simp: totp_overlay_fields_def is_projectable_totp_attribute_key_def
      totp_projectable_keys_def split: if_splits)

lemma totp_from_overlay:
  assumes parse: "parse_otpauth (entry_otpauth_uri e t (uri_algorithm (tp_algorithm t))) = Inr t"
    and look: "\<And>k. is_totp_persistent_attribute_key k \<Longrightarrow>
      bt_get m k = map_of (rev (totp_overlay_fields e t)) k"
  shows "totp_from_persistent_attributes m = Some t"
proof -
  have k: "is_totp_persistent_attribute_key ''otp''"
    "is_totp_persistent_attribute_key ''TimeOtp-Secret-Base32''"
    "is_totp_persistent_attribute_key ''TimeOtp-Algorithm''"
    "is_totp_persistent_attribute_key ''TimeOtp-Length''"
    "is_totp_persistent_attribute_key ''TimeOtp-Period''"
    by (simp_all add: is_totp_persistent_attribute_key_def totp_keys_def)
  note looks = k [THEN look, unfolded overlay_lookups]
  have "\<not> list_ex (\<lambda>key. is_totp_persistent_attribute_key key \<and>
      \<not> is_projectable_totp_attribute_key key) (bt_keys m)"
    unfolding unprojectable_totp_iff using look overlay_keys_projectable by metis
  moreover have "bt_contains m ''TimeOtp-Secret-Base32''" by (simp add: bt_contains_def looks)
  moreover have "discrete_totp_matches m t"
    by (simp add: discrete_totp_matches_def looks parse_attribute_algorithm
        parse_discrete_totp_number_def parse_u32_show parse_u64_show)
  ultimately show ?thesis
    by (simp add: totp_from_persistent_attributes_def looks parse)
qed

lemma totp_from_parses_back:
  assumes "totp_from_persistent_attributes m = Some t"
  shows "parse_otpauth (entry_otpauth_uri e t (uri_algorithm (tp_algorithm t))) = Inr t"
proof -
  obtain uri where "parse_otpauth uri = Inr t"
    using assms by (auto simp: totp_from_persistent_attributes_def split: if_splits option.splits sum.splits)
  from parse_otpauth_accepts [OF this] show ?thesis
    by (simp add: written_uri_parses)
qed

text \<open>Materializing changes neither effective credential.\<close>

abbreviation remat :: "entry_core \<Rightarrow> entry_core" where
  "remat e \<equiv> e\<lparr>e_attributes := mt_fields (materialize_entry_persistent_attributes e)\<rparr>"

lemma otpauth_label_attributes: "otpauth_label (e\<lparr>e_attributes := m\<rparr>) t = otpauth_label e t"
  by (simp add: otpauth_label_def Let_def split: option.split)

lemma otpauth_uri_attributes [simp]:
  "entry_otpauth_uri (e\<lparr>e_attributes := m\<rparr>) t a = entry_otpauth_uri e t a"
  by (simp only: entry_otpauth_uri_def otpauth_label_attributes)

lemma effective_totp_remat: "effective_totp (remat e) = effective_totp e"
proof (cases "e_totp e")
  case None
  show ?thesis
  proof (cases "totp_from_persistent_attributes (e_attributes e)")
    case n: None
    have eff: "effective_totp e = None" by (simp add: effective_totp_def None n)
    have "totp_from_persistent_attributes (mt_fields (materialize_entry_persistent_attributes e)) =
        totp_from_persistent_attributes (e_attributes e)"
      by (rule totp_from_congruence)
         (simp add: materialize_lookup view_lookup_def eff option.map_comp o_def)
    then show ?thesis by (simp add: effective_totp_def None)
  next
    case (Some t)
    have eff: "effective_totp e = Some t" by (simp add: effective_totp_def None Some)
    have "totp_from_persistent_attributes (mt_fields (materialize_entry_persistent_attributes e)) =
        Some t"
      by (rule totp_from_overlay [OF totp_from_parses_back [OF Some]])
         (simp add: materialize_lookup view_lookup_def eff)
    then show ?thesis by (simp add: effective_totp_def None Some)
  qed
qed (simp add: effective_totp_def)

lemma passkey_key_lookup:
  "is_passkey_persistent_attribute_key k \<Longrightarrow>
   map_of (mt_fields (materialize_entry_persistent_attributes e)) k =
     (case effective_passkey e of
        Some p \<Rightarrow> map_of (rev (passkey_visit p)) k
      | None \<Rightarrow> map_option (protect_if (is_sensitive_passkey_attribute_key k))
                  (bt_get (e_attributes e) k))"
  using totp_passkey_disjoint [of k] by (auto simp: materialize_lookup view_lookup_def)

lemma passkey_from_visit:
  assumes "\<And>k. is_passkey_persistent_attribute_key k \<Longrightarrow>
    bt_get m k = map_of (rev (passkey_visit p)) k"
  shows "passkey_from_attributes m = Some p"
proof -
  have "passkey_from_attributes m = passkey_from_attributes (bt_extend [] (passkey_visit p))"
    by (rule passkey_from_congruence) (simp add: assms bt_get_extend)
  then show ?thesis by (simp add: passkey_from_extended)
qed

lemma effective_passkey_remat: "effective_passkey (remat e) = effective_passkey e"
proof (cases "e_passkey e")
  case None
  show ?thesis
  proof (cases "passkey_from_attributes (e_attributes e)")
    case n: None
    have eff: "effective_passkey e = None" by (simp add: effective_passkey_def None n)
    have "passkey_from_attributes (mt_fields (materialize_entry_persistent_attributes e)) =
        passkey_from_attributes (e_attributes e)"
      by (rule passkey_from_congruence) (simp add: passkey_key_lookup eff option.map_comp o_def)
    then show ?thesis by (simp add: effective_passkey_def None)
  next
    case (Some p)
    have eff: "effective_passkey e = Some p" by (simp add: effective_passkey_def None Some)
    have "passkey_from_attributes (mt_fields (materialize_entry_persistent_attributes e)) = Some p"
      by (rule passkey_from_visit) (simp add: passkey_key_lookup eff)
    then show ?thesis
      by (simp add: effective_passkey_def None Some)
  qed
qed (simp add: effective_passkey_def)

lemma view_lookup_remat: "view_lookup (remat e) k = view_lookup e k"
proof -
  have "totp_overlay_fields (remat e) t = totp_overlay_fields e t" for t
    by (simp add: totp_overlay_fields_def)
  moreover have "bt_get (e_attributes (remat e)) k = view_lookup e k"
    by (simp add: materialize_lookup)
  ultimately show ?thesis
    unfolding view_lookup_def [of "remat e"] effective_totp_remat effective_passkey_remat
    by (simp add: view_lookup_def option.map_comp o_def split: option.split)
qed

lemma materialize_remat:
  assumes "bt_wf (e_attributes e)"
  shows "materialize_entry_persistent_attributes (remat e) = materialize_entry_persistent_attributes e"
proof (rule materialized.equality)
  show "mt_fields (materialize_entry_persistent_attributes (remat e)) =
      mt_fields (materialize_entry_persistent_attributes e)"
  proof (rule bt_eqI)
    show "bt_wf (mt_fields (materialize_entry_persistent_attributes (remat e)))"
      by (rule materialize_wf) (simp add: materialize_wf [OF assms])
    show "bt_wf (mt_fields (materialize_entry_persistent_attributes e))"
      by (rule materialize_wf [OF assms])
  qed (simp add: fun_eq_iff materialize_lookup view_lookup_remat)
  show "mt_has_projectable_passkey (materialize_entry_persistent_attributes (remat e)) =
      mt_has_projectable_passkey (materialize_entry_persistent_attributes e)"
    by (simp only: materialize_has_passkey effective_passkey_remat)
qed simp

text \<open>The view is stable: an entry whose attributes are replaced by its own materialized
  view, which is what a save followed by a load does to them, materializes to the same
  view, so repeated saves do not drift.
\<close>

theorem materialize_idempotent:
  assumes "bt_wf (e_attributes e)"
  shows "materialize_entry_persistent_attributes
      (e\<lparr>e_attributes := mt_fields (materialize_entry_persistent_attributes e)\<rparr>) =
    materialize_entry_persistent_attributes e"
  by (rule materialize_remat [OF assms])

theorem materialize_idempotent_witness:
  "materialize_entry_persistent_attributes (credential_example
     \<lparr>e_attributes := mt_fields (materialize_entry_persistent_attributes credential_example)\<rparr>) =
   materialize_entry_persistent_attributes credential_example"
proof -
  have "bt_wf (e_attributes credential_example)" by (simp add: credential_example_def bt_wf_def)
  then show ?thesis by (rule materialize_idempotent)
qed

text \<open>
  C17. Credentials survive their attribute representation: from the materialized view of an
  entry with a savable, generating TOTP and a passkey, the loader's projections recover
  exactly that TOTP and that passkey.
\<close>

theorem materialized_credentials_recovered:
  assumes "e_totp e = Some t" and "e_passkey e = Some p"
    and "structured_totp_is_persistence_valid t" and "totp_text_valid t"
    and "1 \<le> tp_digits t" and "tp_digits t \<le> 9" and "tp_period_seconds t \<noteq> 0"
  shows "totp_from_persistent_attributes (mt_fields (materialize_entry_persistent_attributes e)) =
      Some t \<and>
    passkey_from_attributes (mt_fields (materialize_entry_persistent_attributes e)) = Some p"
proof
  have "parse_otpauth (entry_otpauth_uri e t (uri_algorithm (tp_algorithm t))) = Inr t"
    using assms by (simp add: written_uri_parses)
  then show "totp_from_persistent_attributes
      (mt_fields (materialize_entry_persistent_attributes e)) = Some t"
    by (rule totp_from_overlay)
       (simp add: materialize_lookup view_lookup_def effective_totp_def assms(1))
  show "passkey_from_attributes (mt_fields (materialize_entry_persistent_attributes e)) = Some p"
    by (rule passkey_from_visit) (simp add: passkey_key_lookup effective_passkey_def assms(2))
qed

theorem materialized_credentials_recovered_witness:
  "totp_from_persistent_attributes (mt_fields (materialize_entry_persistent_attributes
     (credential_example\<lparr>e_totp := Some totp_example\<rparr>))) = Some totp_example"
proof -
  have "structured_totp_is_persistence_valid totp_example" "totp_text_valid totp_example"
    by code_simp+
  then show ?thesis
    using materialized_credentials_recovered
      [of "credential_example\<lparr>e_totp := Some totp_example\<rparr>" totp_example passkey_example]
    by (simp add: credential_example_def totp_example_def)
qed

end
