(* ===== verification/CustomData.thy ===== *)
theory CustomData
  imports Model
begin

text \<open>
  CustomData and its fidelity blocks (\<^verbatim>\<open>crates/vaultkern-model/src/lib.rs\<close>,
  \<open>reconcile_custom_data_blocks\<close> and \<open>retarget_custom_data_anchor\<close>; the readers
  \<open>merge_custom_data_blocks\<close> of \<^verbatim>\<open>crates/vaultkern-kdbx/src/lib.rs\<close> and
  \<open>collect_custom_data_items\<close> of \<^verbatim>\<open>canonical_serialization.rs\<close>). A vault keeps CustomData
  twice: as a map, and as the blocks of XML items it was read from. The lemmas show that
  after a mutation the blocks spell exactly the new map again.
\<close>

section \<open>Readers of the blocks\<close>

definition all_items :: "custom_data_block list \<Rightarrow> custom_data_item list" where
  "all_items blocks = concat (map cb_items blocks)"

definition merge_custom_data_blocks :: "custom_data_block list \<Rightarrow> (string, string) btree" where
  "merge_custom_data_blocks blocks =
     bt_of_list (map (\<lambda>item. (cd_key item, cd_value item)) (all_items blocks))"

record canonical_item =
  cit_value :: string
  cit_last_modified :: "i64 option"

definition collect_custom_data_items ::
    "custom_data_block list \<Rightarrow> (string, canonical_item) btree" where
  "collect_custom_data_items blocks =
     bt_of_list (map (\<lambda>item. (cd_key item,
        \<lparr>cit_value = cd_value item, cit_last_modified = cd_last_modified item\<rparr>)) (all_items blocks))"

section \<open>Reconciliation\<close>

definition retarget_custom_data_anchor ::
    "anchor option \<Rightarrow> anchor option list \<Rightarrow> anchor option" where
  "retarget_custom_data_anchor anchor replacement_anchors =
     (case anchor of
        None \<Rightarrow> None
      | Some a \<Rightarrow>
          if an_element_name a \<noteq> ''CustomData'' then Some a
          else if an_occurrence a = 0 then Some a
          else if an_occurrence a - 1 < length replacement_anchors
               then replacement_anchors ! (an_occurrence a - 1)
               else Some a)"

record reconcile_state =
  rs_blocks :: "custom_data_block list"
  rs_retained :: "bool list"
  rs_anchors :: "anchor option list"

definition reconcile_block ::
    "(string, string) btree \<Rightarrow> reconcile_state \<Rightarrow> custom_data_block \<Rightarrow> reconcile_state" where
  "reconcile_block merged st block =
     (let was_empty = (cb_items block = []);
          items = filter (\<lambda>item. bt_contains merged (cd_key item)) (cb_items block);
          after = retarget_custom_data_anchor (cb_after block) (rs_anchors st)
      in if was_empty \<or> items \<noteq> [] then
           (let kept = rs_blocks st @ [\<lparr>cb_items = items, cb_after = after\<rparr>] in
            \<lparr>rs_blocks = kept, rs_retained = rs_retained st @ [True],
             rs_anchors = rs_anchors st @
               [Some \<lparr>an_element_name = ''CustomData'', an_occurrence = length kept\<rparr>]\<rparr>)
         else
           \<lparr>rs_blocks = rs_blocks st, rs_retained = rs_retained st @ [False],
            rs_anchors = rs_anchors st @ [after]\<rparr>)"

definition reconcile_blocks ::
    "(string, string) btree \<Rightarrow> custom_data_block list \<Rightarrow> reconcile_state" where
  "reconcile_blocks merged blocks =
     foldl (reconcile_block merged) \<lparr>rs_blocks = [], rs_retained = [], rs_anchors = []\<rparr> blocks"

text \<open>\<open>node_order.retain(..)\<close> with its running occurrence count.\<close>

fun retain_custom_data_nodes :: "bool list \<Rightarrow> nat \<Rightarrow> string list \<Rightarrow> string list" where
  "retain_custom_data_nodes retained occurrence [] = []"
| "retain_custom_data_nodes retained occurrence (name # names) =
     (if name \<noteq> ''CustomData'' then name # retain_custom_data_nodes retained occurrence names
      else if occurrence < length retained \<and> \<not> retained ! occurrence
           then retain_custom_data_nodes retained (Suc occurrence) names
           else name # retain_custom_data_nodes retained (Suc occurrence) names)"

text \<open>\<open>last_position_by_key\<close>: block and item index of the last item with each key.\<close>

fun item_positions :: "nat \<Rightarrow> custom_data_block list \<Rightarrow> (nat \<times> nat) list" where
  "item_positions block_index [] = []"
| "item_positions block_index (block # blocks) =
     map (\<lambda>item_index. (block_index, item_index)) [0..<length (cb_items block)] @
       item_positions (Suc block_index) blocks"

definition last_position_by_key :: "custom_data_block list \<Rightarrow> (string, nat \<times> nat) btree" where
  "last_position_by_key blocks =
     bt_of_list (zip (map cd_key (all_items blocks)) (item_positions 0 blocks))"

definition modify_item ::
    "(custom_data_item \<Rightarrow> custom_data_item) \<Rightarrow> nat \<times> nat \<Rightarrow> custom_data_block list \<Rightarrow>
     custom_data_block list" where
  "modify_item f pos blocks =
     (case pos of (b, i) \<Rightarrow>
        blocks[b := (blocks ! b)\<lparr>cb_items := (cb_items (blocks ! b))[i := f (cb_items (blocks ! b) ! i)]\<rparr>])"

definition write_item :: "(string \<times> i64 option) option \<Rightarrow> string \<Rightarrow> string \<Rightarrow>
    custom_data_item \<Rightarrow> custom_data_item" where
  "write_item updated_item key v item =
     (let item' = item\<lparr>cd_value := v\<rparr> in
      case updated_item of
        Some (updated_key, last_modified) \<Rightarrow>
          if updated_key = key then item'\<lparr>cd_last_modified := last_modified\<rparr> else item'
      | None \<Rightarrow> item')"

definition missing_item :: "(string \<times> i64 option) option \<Rightarrow> string \<Rightarrow> string \<Rightarrow> custom_data_item" where
  "missing_item updated_item key v =
     \<lparr>cd_key = key, cd_value = v,
      cd_last_modified =
        (case updated_item of
           Some (updated_key, last_modified) \<Rightarrow> if updated_key = key then last_modified else None
         | None \<Rightarrow> None)\<rparr>"

fun write_merged ::
    "(string, nat \<times> nat) btree \<Rightarrow> (string \<times> i64 option) option \<Rightarrow> (string \<times> string) list \<Rightarrow>
     custom_data_block list \<Rightarrow> custom_data_item list \<Rightarrow>
     custom_data_block list \<times> custom_data_item list" where
  "write_merged positions updated_item [] blocks missing = (blocks, missing)"
| "write_merged positions updated_item ((key, v) # merged) blocks missing =
     (case bt_get positions key of
        Some pos \<Rightarrow>
          write_merged positions updated_item merged
            (modify_item (write_item updated_item key v) pos blocks) missing
      | None \<Rightarrow>
          write_merged positions updated_item merged blocks
            (missing @ [missing_item updated_item key v]))"

definition append_missing ::
    "custom_data_block list \<Rightarrow> custom_data_item list \<Rightarrow> custom_data_block list" where
  "append_missing blocks missing =
     (if missing = [] then blocks
      else if blocks = [] then [\<lparr>cb_items = missing, cb_after = None\<rparr>]
      else butlast blocks @ [(last blocks)\<lparr>cb_items := cb_items (last blocks) @ missing\<rparr>])"

text \<open>The whole function returns the three things it mutates: the blocks, the opaque XML
  fragments and the node order.\<close>

definition reconcile_custom_data_blocks ::
    "custom_data_block list \<Rightarrow> fragment list \<Rightarrow> string list \<Rightarrow> (string, string) btree \<Rightarrow>
     (string \<times> i64 option) option \<Rightarrow> custom_data_block list \<times> fragment list \<times> string list" where
  "reconcile_custom_data_blocks blocks opaque_xml node_order merged updated_item =
     (let st = reconcile_blocks merged blocks;
          opaque = map (\<lambda>fragment. fragment\<lparr>fr_after :=
             retarget_custom_data_anchor (fr_after fragment) (rs_anchors st)\<rparr>) opaque_xml;
          order = retain_custom_data_nodes (rs_retained st) 0 node_order;
          (written, missing) = write_merged (last_position_by_key (rs_blocks st)) updated_item
             merged (rs_blocks st) []
      in (append_missing written missing, opaque, order))"

section \<open>Positions\<close>

lemma all_items_Nil [simp]: "all_items [] = []"
  by (simp add: all_items_def)

lemma all_items_Cons [simp]: "all_items (b # bs) = cb_items b @ all_items bs"
  by (simp add: all_items_def)

lemma all_items_append [simp]: "all_items (bs @ cs) = all_items bs @ all_items cs"
  by (simp add: all_items_def)

lemma length_item_positions [simp]: "length (item_positions b bs) = length (all_items bs)"
  by (induction bs arbitrary: b) auto

lemma item_positions_Suc:
  "item_positions (Suc b) bs = map (\<lambda>(x, y). (Suc x, y)) (item_positions b bs)"
  by (induction bs arbitrary: b) auto

text \<open>A recorded position is in range, and writing there writes the item it was recorded for.\<close>

lemma position_write:
  assumes "n < length (all_items bs)" and "item_positions 0 bs ! n = (b, i)"
  shows "b < length bs \<and> i < length (cb_items (bs ! b)) \<and>
    all_items (modify_item f (b, i) bs) = (all_items bs)[n := f (all_items bs ! n)]"
  using assms
proof (induction bs arbitrary: n b i)
  case (Cons x bs)
  show ?case
  proof (cases "n < length (cb_items x)")
    case True
    with Cons.prems show ?thesis
      by (auto simp: nth_append modify_item_def list_update_append)
  next
    case False
    let ?n = "n - length (cb_items x)"
    from False Cons.prems have n: "?n < length (all_items bs)" by auto
    obtain b' i' where pos: "item_positions 0 bs ! ?n = (b', i')" by fastforce
    with False Cons.prems n have bi: "b = Suc b'" "i = i'"
      by (auto simp: nth_append item_positions_Suc)
    from Cons.IH [OF n pos] False bi show ?thesis
      by (simp add: modify_item_def list_update_append nth_append)
  qed
qed simp

lemma map_of_rev_Some_nth:
  assumes "map_of (rev ps) k = Some v"
  obtains n where "n < length ps" "ps ! n = (k, v)" "\<And>m. n < m \<Longrightarrow> m < length ps \<Longrightarrow> fst (ps ! m) \<noteq> k"
  using assms
proof (induction ps arbitrary: thesis rule: rev_induct)
  case (snoc p ps)
  show ?case
  proof (cases "fst p = k")
    case True
    with snoc.prems(2) have "p = (k, v)" by (cases p) auto
    then show ?thesis by (intro snoc.prems(1) [of "length ps"]) auto
  next
    case False
    with snoc.prems(2) have "map_of (rev ps) k = Some v" by (cases p) auto
    then obtain n where n: "n < length ps" "ps ! n = (k, v)"
        "\<And>m. n < m \<Longrightarrow> m < length ps \<Longrightarrow> fst (ps ! m) \<noteq> k"
      using snoc.IH by blast
    show ?thesis
    proof (rule snoc.prems(1) [of n])
      show "fst ((ps @ [p]) ! m) \<noteq> k" if "n < m" "m < length (ps @ [p])" for m
        using that n(3) [of m] False by (cases "m < length ps") (auto simp: nth_append)
    qed (use n in \<open>auto simp: nth_append\<close>)
  qed
qed simp

section \<open>The blocks spell the map\<close>

text \<open>The last item with a key: the one a reader of the blocks takes.\<close>

definition last_item :: "custom_data_item list \<Rightarrow> string \<Rightarrow> custom_data_item option" where
  "last_item items = map_of (rev (map (\<lambda>item. (cd_key item, item)) items))"

lemma last_item_append: "last_item (xs @ ys) = last_item xs ++ last_item ys"
  by (simp add: last_item_def)

lemma last_item_snoc: "last_item (xs @ [x]) = (last_item xs)(cd_key x \<mapsto> x)"
  by (simp add: last_item_def)

lemma last_item_None_iff: "last_item items k = None \<longleftrightarrow> k \<notin> cd_key ` set items"
  by (auto simp: last_item_def map_of_eq_None_iff image_image)

lemma map_of_last_item:
  "map_of (rev (map (\<lambda>item. (cd_key item, g item)) items)) k = map_option g (last_item items k)"
  by (induction items rule: rev_induct) (simp_all add: last_item_def)

lemma merge_blocks_last_item:
  "map_of (merge_custom_data_blocks bs) k = map_option cd_value (last_item (all_items bs) k)"
  by (simp add: merge_custom_data_blocks_def bt_get_extend map_of_last_item)

lemma collect_items_last_item:
  "map_of (collect_custom_data_items bs) k =
     map_option (\<lambda>item. \<lparr>cit_value = cd_value item, cit_last_modified = cd_last_modified item\<rparr>)
       (last_item (all_items bs) k)"
  by (simp add: collect_custom_data_items_def bt_get_extend map_of_last_item)

lemma last_item_filter:
  "last_item (filter (\<lambda>item. P (cd_key item)) items) k = (if P k then last_item items k else None)"
  by (induction items rule: rev_induct) (auto simp: last_item_snoc, auto simp: last_item_def)

lemma last_item_update:
  assumes "n < length items" and "cd_key (items ! n) = k"
    and "\<And>m. n < m \<Longrightarrow> m < length items \<Longrightarrow> cd_key (items ! m) \<noteq> k"
    and "cd_key (f (items ! n)) = k"
  shows "last_item (items[n := f (items ! n)]) =
    (last_item items)(k := map_option f (last_item items k))"
proof -
  let ?a = "take n items" and ?c = "drop (Suc n) items"
  have split: "items = ?a @ items ! n # ?c" by (rule id_take_nth_drop [OF assms(1)])
  have upd: "items[n := f (items ! n)] = ?a @ f (items ! n) # ?c"
    by (rule upd_conv_take_nth_drop [OF assms(1)])
  have "k \<notin> cd_key ` set ?c"
  proof
    assume "k \<in> cd_key ` set ?c"
    then obtain x where "x \<in> set ?c" "cd_key x = k" by blast
    then obtain j where "Suc n + j < length items" "cd_key (items ! (Suc n + j)) = k"
      by (force simp: in_set_conv_nth)
    then show False using assms(3) [of "Suc n + j"] by simp
  qed
  then have c: "last_item ?c k = None" by (simp add: last_item_None_iff)
  have one: "last_item (x # ?c) = [cd_key x \<mapsto> x] ++ last_item ?c" for x
    using last_item_append [of "[x]" ?c] by (simp add: last_item_def)
  have "last_item (items[n := f (items ! n)]) =
      last_item ?a ++ ([k \<mapsto> f (items ! n)] ++ last_item ?c)"
    unfolding upd last_item_append one by (simp add: assms(4))
  moreover have "last_item items = last_item ?a ++ ([k \<mapsto> items ! n] ++ last_item ?c)"
    by (subst split, unfold last_item_append one) (simp add: assms(2))
  ultimately show ?thesis
    using c by (auto simp: fun_eq_iff map_add_def split: option.split)
qed

lemma write_item_fields [simp]:
  "cd_key (write_item u k v item) = cd_key item" "cd_value (write_item u k v item) = v"
  by (auto simp: write_item_def Let_def split: option.split)

lemma missing_item_fields [simp]:
  "cd_key (missing_item u k v) = k" "cd_value (missing_item u k v) = v"
  by (simp_all add: missing_item_def)

lemma last_position_get:
  "map_of (last_position_by_key bs) = map_of (rev (zip (map cd_key (all_items bs)) (item_positions 0 bs)))"
  by (simp add: last_position_by_key_def bt_get_extend)

lemma last_position_None_iff:
  "map_of (last_position_by_key bs) k = None \<longleftrightarrow> k \<notin> cd_key ` set (all_items bs)"
proof -
  have "fst ` set (zip (map cd_key (all_items bs)) (item_positions 0 bs)) = set (map cd_key (all_items bs))"
    unfolding set_map [symmetric] by (subst map_fst_zip) simp_all
  then show ?thesis by (simp add: last_position_get map_of_eq_None_iff)
qed

text \<open>Blocks of the same shape and keys have the same positions.\<close>

definition block_keys :: "custom_data_block list \<Rightarrow> string list list" where
  "block_keys bs = map (\<lambda>b. map cd_key (cb_items b)) bs"

lemma keys_of_block_keys: "map cd_key (all_items bs) = concat (block_keys bs)"
  by (induction bs) (auto simp: block_keys_def)

lemma positions_of_block_keys: "block_keys bs = block_keys cs \<Longrightarrow> item_positions n bs = item_positions n cs"
proof (induction bs arbitrary: cs n)
  case (Cons b bs)
  then obtain c cs' where "cs = c # cs'" by (cases cs) (auto simp: block_keys_def)
  with Cons show ?case
    by (auto simp: block_keys_def dest: map_eq_imp_length_eq)
qed (simp add: block_keys_def)

lemma last_position_block_keys:
  "block_keys bs = block_keys cs \<Longrightarrow> last_position_by_key bs = last_position_by_key cs"
  by (simp add: last_position_by_key_def keys_of_block_keys positions_of_block_keys [of bs cs 0])

lemma block_keys_modify:
  assumes "\<And>x. cd_key (f x) = cd_key x"
  shows "block_keys (modify_item f pos bs) = block_keys bs"
proof -
  obtain b i where pos: "pos = (b, i)" by (cases pos)
  have item: "(map cd_key (cb_items c))[i := cd_key (f (cb_items c ! i))] = map cd_key (cb_items c)" for c
    by (cases "i < length (cb_items c)") (simp_all add: assms list_update_beyond list_update_same_conv)
  show ?thesis
    by (cases "b < length bs")
      (simp_all add: pos modify_item_def block_keys_def map_update item list_update_beyond
        list_update_same_conv)
qed

text \<open>One write through a recorded position changes what readers see for that key only.\<close>

lemma position_item:
  assumes "bt_get (last_position_by_key bs) k = Some pos" and "\<And>x. cd_key (f x) = cd_key x"
  shows "last_item (all_items (modify_item f pos bs)) =
    (last_item (all_items bs))(k := map_option f (last_item (all_items bs) k))"
proof -
  let ?ps = "zip (map cd_key (all_items bs)) (item_positions 0 bs)"
  obtain n where n: "n < length ?ps" "?ps ! n = (k, pos)"
      "\<And>m. n < m \<Longrightarrow> m < length ?ps \<Longrightarrow> fst (?ps ! m) \<noteq> k"
    using map_of_rev_Some_nth [of ?ps k pos] assms(1) by (auto simp: last_position_get)
  obtain b i where pos: "pos = (b, i)" by (cases pos)
  have len: "n < length (all_items bs)" using n(1) by simp
  with n(2) pos have at: "item_positions 0 bs ! n = (b, i)" "cd_key (all_items bs ! n) = k"
    by auto
  have later: "cd_key (all_items bs ! m) \<noteq> k" if "n < m" "m < length (all_items bs)" for m
    using n(3) [of m] that by auto
  show ?thesis
    unfolding pos position_write [OF len at(1), THEN conjunct2, THEN conjunct2]
    by (rule last_item_update [OF len at(2) later]) (simp_all add: at assms(2))
qed

lemma write_position:
  assumes "map_of (last_position_by_key bs) k = Some pos"
  shows "last_item (all_items (modify_item (write_item u k v) pos bs)) =
    (last_item (all_items bs))(k := map_option (write_item u k v) (last_item (all_items bs) k))"
  using assms by (rule position_item) simp

definition rewritten_item :: "(string \<times> i64 option) option \<Rightarrow> (string, string) btree \<Rightarrow> string \<Rightarrow>
    custom_data_item \<Rightarrow> custom_data_item" where
  "rewritten_item u merged k item =
     (case map_of merged k of None \<Rightarrow> item | Some v \<Rightarrow> write_item u k v item)"

lemma write_merged_values:
  assumes "positions = last_position_by_key bs" and "distinct (map fst merged)"
    and "write_merged positions u merged bs missing = (bs', missing')"
  shows "block_keys bs' = block_keys bs \<and> map cb_after bs' = map cb_after bs \<and>
    (\<forall>k. last_item (all_items bs') k =
       map_option (rewritten_item u merged k) (last_item (all_items bs) k)) \<and>
    missing' = missing @ map (\<lambda>(k, v). missing_item u k v)
      (filter (\<lambda>(k, v). map_of positions k = None) merged)"
  using assms
proof (induction positions u merged bs missing rule: write_merged.induct)
  case (1 positions u bs missing)
  then show ?case by (simp add: rewritten_item_def option.map_id [unfolded id_def])
next
  case (2 positions u key v merged bs missing)
  have rewritten: "map_option (rewritten_item u merged k) x =
      map_option (rewritten_item u ((key, v) # merged) k) x" if "k \<noteq> key" for k x
    using that by (cases x) (simp_all add: rewritten_item_def)
  show ?case
  proof (cases "map_of positions key")
    case None
    have no_item: "last_item (all_items bs) key = None"
      using None "2.prems"(1) by (simp add: last_position_None_iff last_item_None_iff)
    have "block_keys bs' = block_keys bs \<and> map cb_after bs' = map cb_after bs \<and>
      (\<forall>k. last_item (all_items bs') k =
         map_option (rewritten_item u merged k) (last_item (all_items bs) k)) \<and>
      missing' = (missing @ [missing_item u key v]) @ map (\<lambda>(k, v). missing_item u k v)
        (filter (\<lambda>(k, v). map_of positions k = None) merged)"
      by (rule "2.IH"(1) [OF None "2.prems"(1)]) (use "2.prems"(2,3) None in simp_all)
    moreover have "map_option (rewritten_item u merged k) (last_item (all_items bs) k) =
        map_option (rewritten_item u ((key, v) # merged) k) (last_item (all_items bs) k)" for k
      using rewritten [of k] no_item by (cases "k = key") simp_all
    ultimately show ?thesis
      using None by simp
  next
    case (Some pos)
    let ?bs = "modify_item (write_item u key v) pos bs"
    have keys: "block_keys ?bs = block_keys bs" by (simp add: block_keys_modify)
    have after: "map cb_after ?bs = map cb_after bs"
      by (cases pos, cases "fst pos < length bs")
        (simp_all add: modify_item_def map_update list_update_same_conv list_update_beyond)
    have p: "positions = last_position_by_key ?bs"
      using "2.prems"(1) last_position_block_keys [OF keys] by simp
    have val: "last_item (all_items ?bs) =
        (last_item (all_items bs))(key := map_option (write_item u key v) (last_item (all_items bs) key))"
      using Some "2.prems"(1) by (simp add: write_position)
    have nk: "map_of merged key = None"
      using "2.prems"(2) by (simp add: map_of_eq_None_iff)
    have "block_keys bs' = block_keys ?bs \<and> map cb_after bs' = map cb_after ?bs \<and>
      (\<forall>k. last_item (all_items bs') k =
         map_option (rewritten_item u merged k) (last_item (all_items ?bs) k)) \<and>
      missing' = missing @ map (\<lambda>(k, v). missing_item u k v)
        (filter (\<lambda>(k, v). map_of positions k = None) merged)"
      by (rule "2.IH"(2) [OF Some p]) (use "2.prems"(2,3) Some in simp_all)
    moreover have "map_option (rewritten_item u merged k) (last_item (all_items ?bs) k) =
        map_option (rewritten_item u ((key, v) # merged) k) (last_item (all_items bs) k)" for k
      using rewritten [of k] nk
      by (cases "k = key"; cases "last_item (all_items bs) k") (simp_all add: val rewritten_item_def)
    ultimately show ?thesis
      using keys after Some by simp
  qed
qed

lemma reconcile_blocks_items:
  "all_items (rs_blocks (foldl (reconcile_block merged) st blocks)) =
     all_items (rs_blocks st) @ filter (\<lambda>item. bt_contains merged (cd_key item)) (all_items blocks)"
proof (induction blocks arbitrary: st)
  case (Cons b bs)
  then show ?case by (simp add: reconcile_block_def Let_def)
qed simp

lemma all_items_append_missing: "all_items (append_missing bs missing) = all_items bs @ missing"
proof (cases "bs = []")
  case False
  then have "all_items bs = all_items (butlast bs) @ cb_items (last bs)"
    by (metis all_items_Cons all_items_Nil all_items_append append_Nil2 append_butlast_last_id)
  then show ?thesis using False by (simp add: append_missing_def)
qed (simp add: append_missing_def)

lemma last_item_missing:
  "distinct (map fst m) \<Longrightarrow>
   last_item (map (\<lambda>(k, v). missing_item u k v) m) k = map_option (missing_item u k) (map_of m k)"
proof -
  have "last_item (map (\<lambda>(k, v). missing_item u k v) m) = map_of (rev (map (\<lambda>(k, v). (k, missing_item u k v)) m))"
    by (simp add: last_item_def comp_def case_prod_unfold)
  moreover assume "distinct (map fst m)"
  then have "distinct (map fst (map (\<lambda>(k, v). (k, missing_item u k v)) m))"
    by (simp add: comp_def case_prod_unfold)
  ultimately have "last_item (map (\<lambda>(k, v). missing_item u k v) m) k =
      map_of (map (\<lambda>(k, v). (k, missing_item u k v)) m) k"
    by (simp only: map_of_rev_distinct)
  moreover have "map_of (map (\<lambda>(k, v). (k, missing_item u k v)) m) k = map_option (missing_item u k) (map_of m k)"
    by (induction m) auto
  ultimately show ?thesis by simp
qed

text \<open>The map the blocks spell after a reconciliation, with the timestamps readers collect.\<close>

lemma reconciled_last_item:
  assumes "bt_wf merged"
  shows "last_item (all_items (fst (reconcile_custom_data_blocks blocks opaque order merged u))) k =
    (case map_of merged k of
       None \<Rightarrow> None
     | Some v \<Rightarrow> Some (case last_item (all_items blocks) k of
         None \<Rightarrow> missing_item u k v
       | Some item \<Rightarrow> write_item u k v item))"
proof -
  define st where "st = reconcile_blocks merged blocks"
  let ?pos = "last_position_by_key (rs_blocks st)"
  obtain written missing where w: "write_merged ?pos u merged (rs_blocks st) [] = (written, missing)"
    by fastforce
  have distinct: "distinct (map fst merged)" by (rule bt_wf_distinct [OF assms])
  note W = write_merged_values [OF refl distinct w]
  have kept: "last_item (all_items (rs_blocks st)) k =
      (if bt_contains merged k then last_item (all_items blocks) k else None)"
    by (simp add: st_def reconcile_blocks_def reconcile_blocks_items last_item_filter)
  have pos: "map_of ?pos k = None \<longleftrightarrow> last_item (all_items (rs_blocks st)) k = None"
    by (simp add: last_position_None_iff last_item_None_iff)
  have miss: "last_item missing k =
      (if map_of ?pos k = None then map_option (missing_item u k) (map_of merged k) else None)"
  proof -
    let ?m = "filter (\<lambda>p. map_of ?pos (fst p) = None) merged"
    have "missing = map (\<lambda>(k, v). missing_item u k v) ?m"
      using W by (simp add: case_prod_unfold del: split_paired_All)
    then have "last_item missing k = map_option (missing_item u k) (map_of ?m k)"
      using distinct by (simp only: last_item_missing distinct_map_filter)
    then show ?thesis
      by (simp add: map_of_filter_key [where P = "\<lambda>k. map_of ?pos k = None"])
  qed
  have "fst (reconcile_custom_data_blocks blocks opaque order merged u) = append_missing written missing"
    by (simp add: reconcile_custom_data_blocks_def Let_def st_def [symmetric] w)
  then have "last_item (all_items (fst (reconcile_custom_data_blocks blocks opaque order merged u))) k =
      (last_item (all_items written) ++ last_item missing) k"
    by (simp add: all_items_append_missing last_item_append)
  then show ?thesis
    using W kept pos miss
    by (simp add: map_add_def rewritten_item_def bt_contains_def split: option.splits if_splits)
qed

section \<open>Anchors and node order\<close>

text \<open>An anchor names the node an XML fragment follows. A \<open>CustomData\<close> anchor resolves when it
  names one of the first \<open>n\<close> blocks.\<close>

definition anchor_resolves :: "nat \<Rightarrow> anchor option \<Rightarrow> bool" where
  "anchor_resolves n anchor =
     (case anchor of None \<Rightarrow> True
      | Some a \<Rightarrow> an_element_name a = ''CustomData'' \<longrightarrow> 1 \<le> an_occurrence a \<and> an_occurrence a \<le> n)"

text \<open>Block anchors point backwards, fragment anchors at an existing block.\<close>

definition anchors_resolve :: "custom_data_block list \<Rightarrow> fragment list \<Rightarrow> bool" where
  "anchors_resolve blocks opaque \<longleftrightarrow>
     (\<forall>j < length blocks. anchor_resolves j (cb_after (blocks ! j))) \<and>
     (\<forall>fragment \<in> set opaque. anchor_resolves (length blocks) (fr_after fragment))"

lemma anchor_resolves_mono: "anchor_resolves m a \<Longrightarrow> m \<le> n \<Longrightarrow> anchor_resolves n a"
  by (auto simp: anchor_resolves_def split: option.splits)

lemma retarget_resolves:
  assumes "anchor_resolves (length anchors) a" and "\<forall>b \<in> set anchors. anchor_resolves n b"
  shows "anchor_resolves n (retarget_custom_data_anchor a anchors)"
proof (cases a)
  case None
  then show ?thesis by (simp add: retarget_custom_data_anchor_def anchor_resolves_def)
next
  case (Some b)
  show ?thesis
  proof (cases "an_element_name b = ''CustomData''")
    case True
    with assms(1) Some have range: "1 \<le> an_occurrence b" "an_occurrence b - 1 < length anchors"
      by (auto simp: anchor_resolves_def)
    then have "retarget_custom_data_anchor a anchors = anchors ! (an_occurrence b - 1)"
      using True Some by (simp add: retarget_custom_data_anchor_def)
    then show ?thesis using assms(2) range(2) by simp
  next
    case False
    with Some show ?thesis
      by (simp add: retarget_custom_data_anchor_def anchor_resolves_def)
  qed
qed

definition reconcile_inv :: "nat \<Rightarrow> reconcile_state \<Rightarrow> bool" where
  "reconcile_inv processed st \<longleftrightarrow>
     length (rs_anchors st) = processed \<and> length (rs_retained st) = processed \<and>
     length (rs_blocks st) = length (filter (\<lambda>b. b) (rs_retained st)) \<and>
     (\<forall>a \<in> set (rs_anchors st). anchor_resolves (length (rs_blocks st)) a) \<and>
     (\<forall>j < length (rs_blocks st). anchor_resolves j (cb_after (rs_blocks st ! j)))"

lemma reconcile_block_inv:
  assumes inv: "reconcile_inv n st" and a: "anchor_resolves n (cb_after b)"
  shows "reconcile_inv (Suc n) (reconcile_block merged st b)"
proof -
  have r: "anchor_resolves (length (rs_blocks st)) (retarget_custom_data_anchor (cb_after b) (rs_anchors st))"
    by (rule retarget_resolves) (use inv a in \<open>auto simp: reconcile_inv_def\<close>)
  show ?thesis
    using inv r
    by (auto simp: reconcile_inv_def reconcile_block_def Let_def nth_append less_Suc_eq
        anchor_resolves_def [of _ "Some _"] intro: anchor_resolves_mono [where m = "length (rs_blocks st)"])
qed

lemma reconcile_blocks_inv:
  assumes "\<forall>j < length blocks. anchor_resolves j (cb_after (blocks ! j))"
  shows "reconcile_inv (length blocks) (reconcile_blocks merged blocks)"
  using assms
proof (induction blocks rule: rev_induct)
  case Nil
  then show ?case by (simp add: reconcile_blocks_def reconcile_inv_def)
next
  case (snoc b bs)
  have "\<forall>j < length bs. anchor_resolves j (cb_after (bs ! j))"
  proof (intro allI impI)
    fix j assume "j < length bs"
    then show "anchor_resolves j (cb_after (bs ! j))"
      using snoc.prems [rule_format, of j] by (simp add: nth_append)
  qed
  with snoc.IH have "reconcile_inv (length bs) (reconcile_blocks merged bs)" .
  moreover have "anchor_resolves (length bs) (cb_after b)"
    using snoc.prems [rule_format, of "length bs"] by simp
  ultimately show ?case
    using reconcile_block_inv by (simp add: reconcile_blocks_def)
qed

lemma retained_count:
  "count_list names ''CustomData'' + occurrence = length retained \<Longrightarrow>
   count_list (retain_custom_data_nodes retained occurrence names) ''CustomData'' =
     length (filter (\<lambda>b. b) (drop occurrence retained))"
proof (induction retained occurrence names rule: retain_custom_data_nodes.induct)
  case (2 retained occurrence name names)
  show ?case
  proof (cases "name = ''CustomData''")
    case True
    with "2.prems" have "occurrence < length retained" by simp
    with True 2 show ?thesis by (simp add: Cons_nth_drop_Suc [symmetric])
  qed (use 2 in simp)
qed simp

lemma retain_others:
  "filter (\<lambda>name. name \<noteq> ''CustomData'') (retain_custom_data_nodes retained occurrence names) =
   filter (\<lambda>name. name \<noteq> ''CustomData'') names"
  by (induction retained occurrence names rule: retain_custom_data_nodes.induct) auto

lemma append_missing_after:
  "bs \<noteq> [] \<Longrightarrow> map cb_after (append_missing bs missing) = map cb_after bs"
proof -
  assume "bs \<noteq> []"
  then obtain cs c where "bs = cs @ [c]" by (cases bs rule: rev_cases) auto
  then show ?thesis by (simp add: append_missing_def)
qed

lemma reconciled_parts:
  assumes "bt_wf merged"
    and "reconcile_custom_data_blocks blocks opaque order merged u = (blocks', opaque', order')"
  obtains "rs_blocks (reconcile_blocks merged blocks) = []"
      "blocks' = [] \<or> (\<exists>items. items \<noteq> [] \<and> blocks' = [\<lparr>cb_items = items, cb_after = None\<rparr>])"
    | "rs_blocks (reconcile_blocks merged blocks) \<noteq> []"
      "map cb_after blocks' = map cb_after (rs_blocks (reconcile_blocks merged blocks))"
proof -
  define st where "st = reconcile_blocks merged blocks"
  obtain written missing where
    w: "write_merged (last_position_by_key (rs_blocks st)) u merged (rs_blocks st) [] = (written, missing)"
    by fastforce
  have after: "map cb_after written = map cb_after (rs_blocks st)"
    using write_merged_values [OF refl bt_wf_distinct [OF assms(1)] w] by simp
  have b: "blocks' = append_missing written missing"
    using assms(2) by (simp add: reconcile_custom_data_blocks_def Let_def st_def [symmetric] w)
  show thesis
  proof (cases "rs_blocks st = []")
    case True
    with after b show thesis
      by (intro that(1)) (auto simp: st_def append_missing_def)
  next
    case False
    with after have "written \<noteq> []" by auto
    with False after b show thesis
      by (intro that(2)) (auto simp: st_def append_missing_after)
  qed
qed

lemma reconciled_opaque:
  "fst (snd (reconcile_custom_data_blocks blocks opaque order merged u)) =
     map (\<lambda>fragment. fragment\<lparr>fr_after := retarget_custom_data_anchor (fr_after fragment)
       (rs_anchors (reconcile_blocks merged blocks))\<rparr>) opaque"
  and reconciled_order:
  "snd (snd (reconcile_custom_data_blocks blocks opaque order merged u)) =
     retain_custom_data_nodes (rs_retained (reconcile_blocks merged blocks)) 0 order"
  by (simp_all add: reconcile_custom_data_blocks_def Let_def split: prod.split)

section \<open>The map a reader gets back\<close>

lemma reconciled_spell:
  assumes "bt_wf merged"
  shows "merge_custom_data_blocks (fst (reconcile_custom_data_blocks blocks opaque order merged u)) = merged"
proof (rule bt_eqI)
  show "map_of (merge_custom_data_blocks (fst (reconcile_custom_data_blocks blocks opaque order merged u)))
      = map_of merged"
    by (rule ext) (simp add: merge_blocks_last_item reconciled_last_item [OF assms] split: option.split)
qed (use assms in \<open>simp_all add: merge_custom_data_blocks_def\<close>)

lemma reconciled_keys:
  assumes "bt_wf merged"
  shows "cd_key ` set (all_items (fst (reconcile_custom_data_blocks blocks opaque order merged u))) = fst ` set merged"
proof -
  have "k \<in> cd_key ` set (all_items (fst (reconcile_custom_data_blocks blocks opaque order merged u))) \<longleftrightarrow>
      k \<in> fst ` set merged" for k
    using last_item_None_iff [of "all_items (fst (reconcile_custom_data_blocks blocks opaque order merged u))" k]
      map_of_eq_None_iff [of merged k]
    by (auto simp: reconciled_last_item [OF assms] split: option.splits)
  then show ?thesis by blast
qed

text \<open>Timestamps: every item keeps its time, gets the given one or has none.\<close>

lemma items_of_modify: "set (all_items (modify_item f pos bs)) \<subseteq> set (all_items bs) \<union> f ` set (all_items bs)"
proof (cases pos)
  case (Pair b i)
  show ?thesis
  proof (cases "b < length bs \<and> i < length (cb_items (bs ! b))")
    case True
    then have "bs ! b \<in> set bs" by simp
    then have items: "set (cb_items (bs ! b)) \<subseteq> set (all_items bs)" by (auto simp: all_items_def)
    have "set (all_items (modify_item f pos bs)) \<subseteq> set (all_items bs) \<union>
        set ((cb_items (bs ! b))[i := f (cb_items (bs ! b) ! i)])"
      using set_update_subset_insert [of bs b "(bs ! b)\<lparr>cb_items := (cb_items (bs ! b))[i := f (cb_items (bs ! b) ! i)]\<rparr>"]
      by (force simp: Pair modify_item_def all_items_def)
    moreover have "set ((cb_items (bs ! b))[i := f (cb_items (bs ! b) ! i)]) \<subseteq>
        insert (f (cb_items (bs ! b) ! i)) (set (cb_items (bs ! b)))" by (rule set_update_subset_insert)
    moreover have "cb_items (bs ! b) ! i \<in> set (all_items bs)" using True items by auto
    ultimately show ?thesis using items by blast
  next
    case False
    then have "modify_item f pos bs = bs"
      by (auto simp: Pair modify_item_def list_update_beyond)
    then show ?thesis by simp
  qed
qed

lemma write_merged_items:
  assumes "write_merged positions u merged bs missing = (bs', missing')"
    and "\<And>item. item \<in> set (all_items bs) \<union> set missing \<Longrightarrow> P (cd_last_modified item)"
    and "P None" and "\<And>key t. u = Some (key, t) \<Longrightarrow> P t"
  shows "\<forall>item \<in> set (all_items bs') \<union> set missing'. P (cd_last_modified item)"
  using assms
proof (induction positions u merged bs missing rule: write_merged.induct)
  case (1 positions u bs missing)
  then show ?case by simp
next
  case (2 positions u key v merged bs missing)
  show ?case
  proof (cases "map_of positions key")
    case None
    have "P (cd_last_modified (missing_item u key v))"
      using "2.prems"(3,4) by (auto simp: missing_item_def split: option.split)
    then show ?thesis
      by (intro "2.IH"(1) [OF None]) (use "2.prems" None in auto)
  next
    case (Some pos)
    have "P (cd_last_modified (write_item u key v item))" if "P (cd_last_modified item)" for item
      using "2.prems"(3,4) that by (auto simp: write_item_def Let_def split: option.split)
    then have "P (cd_last_modified item)"
      if "item \<in> set (all_items (modify_item (write_item u key v) pos bs)) \<union> set missing" for item
      using that items_of_modify [of "write_item u key v" pos bs] "2.prems"(2) by blast
    then show ?thesis by (intro "2.IH"(2) [OF Some]) (use "2.prems" Some in auto)
  qed
qed

text \<open>The nodes left in the order are no more than the blocks.\<close>

lemma retained_count_le:
  "count_list names ''CustomData'' + occurrence \<le> length retained \<Longrightarrow>
   count_list (retain_custom_data_nodes retained occurrence names) ''CustomData'' \<le>
     length (filter (\<lambda>b. b) (drop occurrence retained))"
proof (induction retained occurrence names rule: retain_custom_data_nodes.induct)
  case (2 retained occurrence name names)
  show ?case
  proof (cases "name = ''CustomData''")
    case True
    with "2.prems" have "occurrence < length retained" by simp
    with True 2 show ?thesis by (simp add: Cons_nth_drop_Suc [symmetric])
  qed (use 2 in simp)
qed simp

lemma retained_flags:
  "length (rs_retained (reconcile_blocks merged blocks)) = length blocks"
  "length (rs_blocks (reconcile_blocks merged blocks)) = length (filter (\<lambda>b. b) (rs_retained (reconcile_blocks merged blocks)))"
proof -
  have "length (rs_retained (foldl (reconcile_block merged) st bs)) = length (rs_retained st) + length bs \<and>
      (length (rs_blocks st) = length (filter (\<lambda>b. b) (rs_retained st)) \<longrightarrow>
       length (rs_blocks (foldl (reconcile_block merged) st bs)) =
         length (filter (\<lambda>b. b) (rs_retained (foldl (reconcile_block merged) st bs))))" for st and bs :: "custom_data_block list"
    by (induction bs arbitrary: st) (auto simp: reconcile_block_def Let_def)
  from this [of "\<lparr>rs_blocks = [], rs_retained = [], rs_anchors = []\<rparr>" blocks]
  show "length (rs_retained (reconcile_blocks merged blocks)) = length blocks"
    "length (rs_blocks (reconcile_blocks merged blocks)) = length (filter (\<lambda>b. b) (rs_retained (reconcile_blocks merged blocks)))"
    by (simp_all add: reconcile_blocks_def)
qed

section \<open>Properties\<close>

text \<open>C9. After a mutation has changed the CustomData map of an entry, a group or the metadata,
  the reconciled fidelity blocks spell exactly the new map: a reader that folds the blocks
  (later items win) gets the map back, key by key and in order, whatever blocks, duplicate keys
  and empty blocks the document was loaded with.\<close>

theorem reconciled_blocks_spell_map:
  assumes "bt_wf merged"
  shows "merge_custom_data_blocks (fst (reconcile_custom_data_blocks blocks opaque order merged u)) = merged"
  by (rule reconciled_spell [OF assms])

definition example_blocks :: "custom_data_block list" where
  "example_blocks =
     [\<lparr>cb_items = [\<lparr>cd_key = ''a'', cd_value = ''1'', cd_last_modified = Some (i64_of_int 5)\<rparr>,
                   \<lparr>cd_key = ''b'', cd_value = ''2'', cd_last_modified = None\<rparr>], cb_after = None\<rparr>,
      \<lparr>cb_items = [\<lparr>cd_key = ''c'', cd_value = ''3'', cd_last_modified = None\<rparr>],
       cb_after = Some \<lparr>an_element_name = ''CustomData'', an_occurrence = 1\<rparr>\<rparr>,
      \<lparr>cb_items = [\<lparr>cd_key = ''a'', cd_value = ''4'', cd_last_modified = Some (i64_of_int 6)\<rparr>],
       cb_after = Some \<lparr>an_element_name = ''CustomData'', an_occurrence = 2\<rparr>\<rparr>]"

lemma example_map_wf: "bt_wf [(''a'', ''9''), (''d'', ''7'')]"
  by (simp add: bt_wf_Cons)

lemma reconciled_blocks_spell_map_witness:
  "merge_custom_data_blocks (fst (reconcile_custom_data_blocks example_blocks [] []
     [(''a'', ''9''), (''d'', ''7'')] (Some (''a'', Some (i64_of_int 8))))) = [(''a'', ''9''), (''d'', ''7'')]"
  by (rule reconciled_blocks_spell_map [OF example_map_wf])

text \<open>Reconciliation keeps the per-item timestamps: the item a reader takes for a key has the new
  value; its last-modification time is the given one for the updated key, the time it had for every
  other key that was already there, and none for a key that is new.\<close>

theorem reconciled_item_times:
  assumes "bt_wf merged"
  shows "map_of (collect_custom_data_items
      (fst (reconcile_custom_data_blocks blocks opaque order merged u))) k =
    map_option (\<lambda>v. \<lparr>cit_value = v,
      cit_last_modified =
        (if map_option fst u = Some k then snd (the u)
         else Option.bind (map_of (collect_custom_data_items blocks) k) cit_last_modified)\<rparr>)
      (map_of merged k)"
  by (auto simp: collect_items_last_item reconciled_last_item [OF assms] write_item_def missing_item_def
      Let_def split: option.splits)

lemma reconciled_item_times_witness:
  "map_of (collect_custom_data_items (fst (reconcile_custom_data_blocks example_blocks [] []
     [(''a'', ''9''), (''d'', ''7'')] (Some (''d'', Some (i64_of_int 8)))))) ''a'' =
   Some \<lparr>cit_value = ''9'', cit_last_modified = Some (i64_of_int 6)\<rparr>"
  unfolding reconciled_item_times [OF example_map_wf]
  by (simp add: collect_custom_data_items_def example_blocks_def bt_extend_Cons)

text \<open>Reconciliation keeps the document position data sound. When every CustomData anchor of
  the blocks points backwards at a block and every fragment's anchor at an existing one, the same
  holds afterwards although whole blocks may have been dropped; nodes of other names keep their
  order, and the node order lists one CustomData node per block (a block created for a map that had
  none is not listed yet).\<close>

theorem reconciled_anchors_resolve:
  assumes wf: "bt_wf merged" and anchors: "anchors_resolve blocks opaque"
    and count: "count_list order ''CustomData'' = length blocks"
    and res: "reconcile_custom_data_blocks blocks opaque order merged u = (blocks', opaque', order')"
  shows "anchors_resolve blocks' opaque' \<and>
    filter (\<lambda>name. name \<noteq> ''CustomData'') order' = filter (\<lambda>name. name \<noteq> ''CustomData'') order \<and>
    (count_list order' ''CustomData'' = length blocks' \<or>
     count_list order' ''CustomData'' = 0 \<and> length blocks' = 1)"
proof -
  let ?st = "reconcile_blocks merged blocks"
  have inv: "reconcile_inv (length blocks) ?st"
    using anchors by (intro reconcile_blocks_inv) (simp add: anchors_resolve_def)
  have opaque': "opaque' = map (\<lambda>fragment. fragment\<lparr>fr_after :=
      retarget_custom_data_anchor (fr_after fragment) (rs_anchors ?st)\<rparr>) opaque"
    using reconciled_opaque [of blocks opaque order merged u] res by simp
  have order': "order' = retain_custom_data_nodes (rs_retained ?st) 0 order"
    using reconciled_order [of blocks opaque order merged u] res by simp
  have fragments: "\<forall>fragment \<in> set opaque'. anchor_resolves (length (rs_blocks ?st)) (fr_after fragment)"
    using anchors inv unfolding opaque' anchors_resolve_def reconcile_inv_def
    by (auto intro!: retarget_resolves)
  have nodes: "count_list order' ''CustomData'' = length (rs_blocks ?st)"
    using retained_count [of order 0 "rs_retained ?st"] count inv
    by (simp add: order' reconcile_inv_def)
  have blocks': "length blocks' = length (rs_blocks ?st) \<or> rs_blocks ?st = [] \<and> length blocks' = 1"
    "\<forall>j < length blocks'. anchor_resolves j (cb_after (blocks' ! j))"
  proof -
    show "length blocks' = length (rs_blocks ?st) \<or> rs_blocks ?st = [] \<and> length blocks' = 1"
      by (rule reconciled_parts [OF wf res]) (auto dest: map_eq_imp_length_eq)
    show "\<forall>j < length blocks'. anchor_resolves j (cb_after (blocks' ! j))"
    proof (rule reconciled_parts [OF wf res])
      assume after: "map cb_after blocks' = map cb_after (rs_blocks ?st)"
      then have len: "length blocks' = length (rs_blocks ?st)" by (rule map_eq_imp_length_eq)
      then have "cb_after (blocks' ! j) = cb_after (rs_blocks ?st ! j)" if "j < length blocks'" for j
        using after that by (metis nth_map)
      then show ?thesis using inv len by (simp add: reconcile_inv_def)
    qed (auto simp: anchor_resolves_def)
  qed
  have "anchor_resolves (length blocks') (fr_after fragment)" if "fragment \<in> set opaque'" for fragment
    by (rule anchor_resolves_mono [where m = "length (rs_blocks ?st)"]) (use fragments that blocks'(1) in auto)
  then show ?thesis
    using blocks' nodes by (auto simp: anchors_resolve_def order' retain_others)
qed

lemma reconciled_anchors_resolve_witness:
  "(let (blocks', opaque', order') = reconcile_custom_data_blocks example_blocks
       [\<lparr>fr_xml = ''<x/>'', fr_after = Some \<lparr>an_element_name = ''CustomData'', an_occurrence = 2\<rparr>\<rparr>]
       [''CustomData'', ''Times'', ''CustomData'', ''CustomData'']
       [(''a'', ''9''), (''d'', ''7'')] None
    in anchors_resolve blocks' opaque' \<and> filter (\<lambda>name. name \<noteq> ''CustomData'') order' = [''Times''])"
proof -
  let ?opaque = "[\<lparr>fr_xml = ''<x/>'', fr_after = Some \<lparr>an_element_name = ''CustomData'', an_occurrence = 2\<rparr>\<rparr>]"
  let ?order = "[''CustomData'', ''Times'', ''CustomData'', ''CustomData'']"
  let ?res = "reconcile_custom_data_blocks example_blocks ?opaque ?order [(''a'', ''9''), (''d'', ''7'')] None"
  have "anchors_resolve example_blocks ?opaque"
    by (auto simp: anchors_resolve_def anchor_resolves_def example_blocks_def less_Suc_eq)
  moreover have "count_list ?order ''CustomData'' = length example_blocks"
    by (simp add: example_blocks_def)
  moreover obtain b f n where "?res = (b, f, n)" by (cases ?res) auto
  ultimately show ?thesis
    using reconciled_anchors_resolve [OF example_map_wf, of example_blocks ?opaque ?order None b f n]
    by simp
qed

end
