(* ===== verification/Canonical.thy ===== *)
theory Canonical
  imports Credentials CustomData
begin

text \<open>
  Canonical entry serialization (\<^verbatim>\<open>crates/vaultkern-model/src/canonical_serialization.rs\<close>): the
  \<open>Encoder\<close>, the reference record \<open>CanonicalEntryReference\<close> an entry is projected to, and
  \<open>canonical_entry_bytes_v1\<close> whose hash identifies the content of an entry. A writer is modelled
  by the bytes it appends, or the error it stops with. The locale \<open>prefix_code\<close> is what every
  writer promises; the lemmas build it up to the whole entry: the bytes determine the content.
\<close>

section \<open>The encoder\<close>

datatype canonical_error = ByteLengthOverflow nat | CollectionCountOverflow nat

type_synonym encoded = "canonical_error + bytes"

definition checked_byte_length :: "nat \<Rightarrow> canonical_error + u32" where
  "checked_byte_length n = (if int n < 2 ^ 32 then Inr (word_of_int (int n)) else Inl (ByteLengthOverflow n))"

definition checked_collection_count :: "nat \<Rightarrow> canonical_error + u32" where
  "checked_collection_count n =
     (if int n < 2 ^ 32 then Inr (word_of_int (int n)) else Inl (CollectionCountOverflow n))"

text \<open>One write after another.\<close>

definition enc_append :: "encoded \<Rightarrow> encoded \<Rightarrow> encoded" where
  "enc_append a b = and_then a (\<lambda>x. and_then b (\<lambda>y. Inr (x @ y)))"

definition write_raw :: "bytes \<Rightarrow> encoded" where
  "write_raw bs = Inr bs"

definition write_bool :: "bool \<Rightarrow> encoded" where
  "write_bool b = Inr [if b then 1 else 0]"

definition write_u32 :: "u32 \<Rightarrow> encoded" where
  "write_u32 v = write_raw (u32_le v)"

definition write_i32 :: "i32 \<Rightarrow> encoded" where
  "write_i32 v = write_raw (i32_le v)"

definition write_u64 :: "u64 \<Rightarrow> encoded" where
  "write_u64 v = write_raw (u64_le v)"

definition write_i64 :: "i64 \<Rightarrow> encoded" where
  "write_i64 v = write_raw (i64_le v)"

definition write_uuid :: "uuid \<Rightarrow> encoded" where
  "write_uuid v = write_raw (uuid_bytes v)"

definition write_byte_length :: "nat \<Rightarrow> encoded" where
  "write_byte_length n = and_then (checked_byte_length n) write_u32"

definition write_count :: "nat \<Rightarrow> encoded" where
  "write_count n = and_then (checked_collection_count n) write_u32"

definition write_bytes :: "bytes \<Rightarrow> encoded" where
  "write_bytes v = enc_append (write_byte_length (length v)) (write_raw v)"

definition write_text :: "string \<Rightarrow> encoded" where
  "write_text v = write_bytes (text_bytes v)"

definition write_option :: "('a \<Rightarrow> encoded) \<Rightarrow> 'a option \<Rightarrow> encoded" where
  "write_option w v =
     (case v of Some x \<Rightarrow> enc_append (write_raw [1]) (w x) | None \<Rightarrow> write_raw [0])"

fun write_each :: "('a \<Rightarrow> encoded) \<Rightarrow> 'a list \<Rightarrow> encoded" where
  "write_each w [] = Inr []"
| "write_each w (x # xs) = enc_append (w x) (write_each w xs)"

definition write_list :: "('a \<Rightarrow> encoded) \<Rightarrow> 'a list \<Rightarrow> encoded" where
  "write_list w xs = enc_append (write_count (length xs)) (write_each w xs)"

text \<open>A set is written as the sorted encodings of its elements.\<close>

definition write_set :: "('a \<Rightarrow> encoded) \<Rightarrow> 'a list \<Rightarrow> encoded" where
  "write_set w xs =
     enc_append (write_count (length xs))
       (and_then (try_map w xs) (\<lambda>encoded_values. write_each write_raw (sort encoded_values)))"

definition write_string_map :: "('v \<Rightarrow> encoded) \<Rightarrow> (string \<times> 'v) list \<Rightarrow> encoded" where
  "write_string_map w entries =
     enc_append (write_count (length entries))
       (write_each (\<lambda>(key, v). enc_append (write_text key) (w v)) (sort_key fst entries))"

section \<open>The canonical reference of an entry\<close>

record attachment_reference =
  ar_protect_in_memory :: bool
  ar_content_id :: content_id

definition content_id_bytes :: "content_id \<Rightarrow> bytes" where
  "content_id_bytes u = rev (le_digits 32 (uint u))"

definition write_attachment_map :: "(string \<times> attachment_reference) list \<Rightarrow> encoded" where
  "write_attachment_map entries =
     write_string_map (\<lambda>a. enc_append (write_bool (ar_protect_in_memory a))
       (write_raw (content_id_bytes (ar_content_id a)))) entries"

definition collect_attachment_references ::
    "(string \<times> 'v) list \<Rightarrow> ('v \<Rightarrow> attachment_reference) \<Rightarrow>
     canonical_error + (string \<times> attachment_reference) list" where
  "collect_attachment_references entries project =
     and_then (checked_collection_count (length entries)) (\<lambda>_.
       Inr (map (\<lambda>(key, attachment). (key, project attachment)) entries))"

record canonical_entry =
  cr_id :: uuid
  cr_title :: string
  cr_username :: string
  cr_password :: string
  cr_url :: string
  cr_notes :: string
  cr_field_protection :: field_protection
  cr_tags :: "string list"
  cr_attributes :: attributes
  cr_attachments :: "(string \<times> attachment_reference) list"
  cr_icon_id :: "u32 option"
  cr_custom_icon_id :: "uuid option"
  cr_foreground_color :: "string option"
  cr_background_color :: "string option"
  cr_override_url :: "string option"
  cr_created_at :: u64
  cr_modified_at :: u64
  cr_expires :: bool
  cr_expiry_time :: "i64 option"
  cr_last_accessed_at :: "u64 option"
  cr_usage_count :: "u64 option"
  cr_location_changed_at :: "u64 option"
  cr_previous_parent :: "uuid option"
  cr_auto_type :: "auto_type_config option"
  cr_custom_data :: "(string, string) btree"
  cr_custom_data_items :: "(string, canonical_item) btree"
  cr_exclude_from_reports :: bool

definition canonical_entry_reference :: "entry \<Rightarrow> canonical_error + canonical_entry" where
  "canonical_entry_reference entry =
     (let e = e_core entry in
      and_then (collect_attachment_references (e_attachments e)
        (\<lambda>a. \<lparr>ar_protect_in_memory = a_protect_in_memory a,
              ar_content_id = ac_id (a_data a)\<rparr>)) (\<lambda>attachments.
      Inr \<lparr>cr_id = e_id e, cr_title = e_title e, cr_username = e_username e,
           cr_password = e_password e, cr_url = e_url e, cr_notes = e_notes e,
           cr_field_protection = e_field_protection e, cr_tags = e_tags e,
           cr_attributes = mt_fields (materialize_entry_persistent_attributes e),
           cr_attachments = attachments, cr_icon_id = e_icon_id e,
           cr_custom_icon_id = e_custom_icon_id e, cr_foreground_color = e_foreground_color e,
           cr_background_color = e_background_color e, cr_override_url = e_override_url e,
           cr_created_at = e_created_at e, cr_modified_at = e_modified_at e,
           cr_expires = e_expires e, cr_expiry_time = e_expiry_time e,
           cr_last_accessed_at = e_last_accessed_at e, cr_usage_count = e_usage_count e,
           cr_location_changed_at = e_location_changed_at e,
           cr_previous_parent = e_previous_parent e, cr_auto_type = e_auto_type e,
           cr_custom_data = e_custom_data e,
           cr_custom_data_items = collect_custom_data_items (e_custom_data_blocks e),
           cr_exclude_from_reports = e_exclude_from_reports e\<rparr>))"

definition write_field_protection :: "field_protection \<Rightarrow> encoded" where
  "write_field_protection p =
     enc_append (write_bool (protect_title p)) (enc_append (write_bool (protect_username p))
      (enc_append (write_bool (protect_password p)) (enc_append (write_bool (protect_url p))
        (write_bool (protect_notes p)))))"

definition write_attribute :: "custom_field \<Rightarrow> encoded" where
  "write_attribute f = enc_append (write_text (cf_value f)) (write_bool (cf_protected f))"

definition write_association :: "auto_type_association \<Rightarrow> encoded" where
  "write_association a = enc_append (write_text (at_window a)) (write_text (at_sequence a))"

definition write_auto_type :: "auto_type_config \<Rightarrow> encoded" where
  "write_auto_type a =
     enc_append (write_option write_bool (at_enabled a))
      (enc_append (write_option write_i32 (at_obfuscation a))
        (enc_append (write_option write_text (at_default_sequence a))
          (write_list write_association (at_associations a))))"

definition write_custom_data_item :: "canonical_item \<Rightarrow> encoded" where
  "write_custom_data_item item =
     enc_append (write_text (cit_value item)) (write_option write_i64 (cit_last_modified item))"

text \<open>\<open>Encoder::with_v1_framing\<close>: the magic and the schema version.\<close>

definition canonical_framing :: bytes where
  "canonical_framing = text_bytes ''VKCS'' @ u32_le 1"

abbreviation enc_seq :: "encoded list \<Rightarrow> encoded" where
  "enc_seq ws \<equiv> foldr enc_append ws (write_raw [])"

definition canonical_entry_reference_bytes_v1 :: "canonical_entry \<Rightarrow> encoded" where
  "canonical_entry_reference_bytes_v1 entry = enc_seq
     [write_raw canonical_framing,
      write_uuid (cr_id entry),
      write_text (cr_title entry),
      write_text (cr_username entry),
      write_text (cr_password entry),
      write_text (cr_url entry),
      write_text (cr_notes entry),
      write_field_protection (cr_field_protection entry),
      write_set write_text (cr_tags entry),
      write_string_map write_attribute (cr_attributes entry),
      write_attachment_map (cr_attachments entry),
      write_option write_u32 (cr_icon_id entry),
      write_option write_uuid (cr_custom_icon_id entry),
      write_option write_text (cr_foreground_color entry),
      write_option write_text (cr_background_color entry),
      write_option write_text (cr_override_url entry),
      write_u64 (cr_created_at entry),
      write_u64 (cr_modified_at entry),
      write_bool (cr_expires entry),
      write_option write_i64 (cr_expiry_time entry),
      write_option write_u64 (cr_last_accessed_at entry),
      write_option write_u64 (cr_usage_count entry),
      write_option write_u64 (cr_location_changed_at entry),
      write_option write_uuid (cr_previous_parent entry),
      write_option write_auto_type (cr_auto_type entry),
      write_string_map write_text (cr_custom_data entry),
      write_string_map write_custom_data_item (cr_custom_data_items entry),
      write_bool (cr_exclude_from_reports entry)]"

definition canonical_entry_bytes_v1 :: "entry \<Rightarrow> encoded" where
  "canonical_entry_bytes_v1 entry =
     and_then (canonical_entry_reference entry) canonical_entry_reference_bytes_v1"

text \<open>The digest function of the crypto crate's dependency is a parameter.\<close>

definition canonical_entry_content_hash_v1 ::
    "(bytes \<Rightarrow> content_id) \<Rightarrow> entry \<Rightarrow> canonical_error + content_id" where
  "canonical_entry_content_hash_v1 sha256 entry =
     and_then (canonical_entry_bytes_v1 entry) (\<lambda>bs. Inr (sha256 bs))"

section \<open>Prefix codes\<close>

text \<open>
  What a writer promises: from its output, followed by anything, the view of the written value
  can be told, and where the output ends.
\<close>

locale prefix_code =
  fixes dom :: "'a \<Rightarrow> bool" and view :: "'a \<Rightarrow> 'v" and wr :: "'a \<Rightarrow> encoded"
  assumes unique: "dom x \<Longrightarrow> dom y \<Longrightarrow> wr x = Inr a \<Longrightarrow> wr y = Inr b \<Longrightarrow> a @ r = b @ s \<Longrightarrow>
    view x = view y \<and> a = b"
begin

lemma injective: "dom x \<Longrightarrow> dom y \<Longrightarrow> wr x = Inr a \<Longrightarrow> wr y = Inr a \<Longrightarrow> view x = view y"
  using unique [of x y a a "[]" "[]"] by simp

lemma field:
  assumes "\<And>x. D x \<Longrightarrow> dom (g x)"
  shows "prefix_code D (\<lambda>x. view (g x)) (\<lambda>x. wr (g x))"
  using unique assms by unfold_locales blast

text \<open>Sequences of equal length.\<close>

lemma each:
  assumes "length xs = length ys" and "\<forall>x \<in> set xs. dom x" and "\<forall>y \<in> set ys. dom y"
    and "write_each wr xs = Inr a" and "write_each wr ys = Inr b" and "a @ r = b @ s"
  shows "map view xs = map view ys \<and> a = b"
  using assms
proof (induction xs ys arbitrary: a b rule: list_induct2)
  case (Cons x xs y ys)
  from Cons.prems obtain a1 a2 b1 b2 where
    ab: "wr x = Inr a1" "write_each wr xs = Inr a2" "a = a1 @ a2"
      "wr y = Inr b1" "write_each wr ys = Inr b2" "b = b1 @ b2"
    by (auto simp: enc_append_def and_then_eq_Inr)
  with Cons.prems have "a1 @ (a2 @ r) = b1 @ (b2 @ s)" by simp
  with ab Cons.prems have 1: "view x = view y" "a1 = b1"
    using unique [of x y a1 b1 "a2 @ r" "b2 @ s"] by auto
  with ab Cons.prems have "map view xs = map view ys \<and> a2 = b2"
    by (intro Cons.IH) auto
  with 1 ab show ?case by simp
qed simp

text \<open>The outputs themselves form a prefix code.\<close>

lemma outputs:
  "prefix_code (\<lambda>bs. \<exists>x. dom x \<and> wr x = Inr bs) (\<lambda>bs. bs) write_raw"
proof
  fix p q a b r s
  assume "\<exists>x. dom x \<and> wr x = Inr p" "\<exists>x. dom x \<and> wr x = Inr q"
    and ab: "write_raw p = Inr a" "write_raw q = Inr b" "a @ r = b @ s"
  then obtain x y where "dom x" "wr x = Inr a" "dom y" "wr y = Inr b"
    by (auto simp: write_raw_def)
  with unique ab have "a = b" by blast
  with ab show "p = q \<and> a = b" by (simp add: write_raw_def)
qed

end

lemma prefix_code_append:
  assumes "prefix_code D v w" and "prefix_code D v' w'"
  shows "prefix_code D (\<lambda>x. (v x, v' x)) (\<lambda>x. enc_append (w x) (w' x))"
proof
  fix x y a b r s
  assume d: "D x" "D y" and ab: "enc_append (w x) (w' x) = Inr a" "enc_append (w y) (w' y) = Inr b"
    and eq: "a @ r = b @ s"
  from ab obtain a1 a2 b1 b2 where
    w: "w x = Inr a1" "w y = Inr b1" "w' x = Inr a2" "w' y = Inr b2" "a = a1 @ a2" "b = b1 @ b2"
    by (auto simp: enc_append_def and_then_eq_Inr)
  with eq have "v x = v y \<and> a1 = b1"
    using prefix_code.unique [OF assms(1) d w(1,2), of "a2 @ r" "b2 @ s"] by simp
  with eq w show "(v x, v' x) = (v y, v' y) \<and> a = b"
    using prefix_code.unique [OF assms(2) d w(3,4), of r s] by simp
qed

lemma prefix_code_const: "prefix_code D (\<lambda>_. ()) (\<lambda>_. write_raw bs)"
  by unfold_locales (simp add: write_raw_def)

lemma prefix_code_fixed:
  assumes "\<And>x. length (f x) = n" and "\<And>x y. f x = f y \<Longrightarrow> v x = v y"
  shows "prefix_code (\<lambda>_. True) v (\<lambda>x. write_raw (f x))"
proof
  fix x y a b r s
  assume "write_raw (f x) = Inr a" "write_raw (f y) = Inr b" and eq: "a @ r = b @ s"
  then have a: "a = f x" and b: "b = f y" by (simp_all add: write_raw_def)
  have "length a = length b" unfolding a b assms(1) ..
  with eq have "a = b" by simp
  with a b assms(2) [of x y] show "v x = v y \<and> a = b" by simp
qed

lemma prefix_code_view:
  assumes "prefix_code D v w" and "\<And>x. D' x \<Longrightarrow> D x"
    and "\<And>x y. D' x \<Longrightarrow> D' y \<Longrightarrow> v x = v y \<Longrightarrow> v' x = v' y"
  shows "prefix_code D' v' w"
proof
  fix x y a b r s
  assume d: "D' x" "D' y" and ab: "w x = Inr a" "w y = Inr b" "a @ r = b @ s"
  have "v x = v y \<and> a = b"
    by (rule prefix_code.unique [OF assms(1) assms(2) [OF d(1)] assms(2) [OF d(2)] ab])
  with assms(3) [OF d] show "v' x = v' y \<and> a = b" by simp
qed

lemma u32_le_inj: "u32_le a = u32_le b \<Longrightarrow> a = b"
  by (metis le_roundtrip(2))

lemma u64_le_inj: "u64_le a = u64_le b \<Longrightarrow> a = b"
  by (metis le_roundtrip(3))

lemma content_id_bytes_inj: "content_id_bytes a = content_id_bytes b \<Longrightarrow> a = b"
proof -
  assume "content_id_bytes a = content_id_bytes b"
  then have "le_value (le_digits 32 (uint a)) = le_value (le_digits 32 (uint b))"
    by (simp add: content_id_bytes_def)
  then show ?thesis
    using uint_lt2p [of a] uint_lt2p [of b] by (simp add: le_value_digits word_uint_eq_iff)
qed

text \<open>The writers of fixed width.\<close>

interpretation u32_code: prefix_code "\<lambda>_. True" "\<lambda>x. x" write_u32
  unfolding write_u32_def by (rule prefix_code_fixed) (auto dest: u32_le_inj)

interpretation u64_code: prefix_code "\<lambda>_. True" "\<lambda>x. x" write_u64
  unfolding write_u64_def by (rule prefix_code_fixed) (auto dest: u64_le_inj)

interpretation i32_code: prefix_code "\<lambda>_. True" "\<lambda>x. x" write_i32
  unfolding write_i32_def i32_le_def
  by (rule prefix_code_fixed) (auto dest: u32_le_inj intro: i32.expand)

interpretation i64_code: prefix_code "\<lambda>_. True" "\<lambda>x. x" write_i64
  unfolding write_i64_def i64_le_def
  by (rule prefix_code_fixed) (auto dest: u64_le_inj intro: i64.expand)

interpretation uuid_code: prefix_code "\<lambda>_. True" "\<lambda>x. x" write_uuid
  unfolding write_uuid_def by (rule prefix_code_fixed) (auto dest: uuid_bytes_inj)

interpretation content_id_code: prefix_code "\<lambda>_. True" "\<lambda>x. x" "\<lambda>x. write_raw (content_id_bytes x)"
  by (rule prefix_code_fixed [where n = 32]) (simp add: content_id_bytes_def, erule content_id_bytes_inj)

interpretation bool_code: prefix_code "\<lambda>_. True" "\<lambda>x. x" write_bool
  by unfold_locales (auto simp: write_bool_def split: if_splits)

text \<open>Length prefixes.\<close>

lemma byte_length_code: "prefix_code (\<lambda>_. True) (\<lambda>n. n) write_byte_length"
proof
  fix x y :: nat and a b r s
  assume a: "write_byte_length x = Inr a" "write_byte_length y = Inr b" and eq: "a @ r = b @ s"
  then have *: "int x < 2 ^ 32" "int y < 2 ^ 32"
    "a = u32_le (word_of_int (int x))" "b = u32_le (word_of_int (int y))"
    by (auto simp: write_byte_length_def checked_byte_length_def write_u32_def write_raw_def split: if_splits)
  with eq have "a = b" by (simp add: append_eq_append_conv)
  with * have "word_of_int (int x) = (word_of_int (int y) :: u32)" by (auto dest: u32_le_inj)
  then have "unat (word_of_nat x :: u32) = unat (word_of_nat y :: u32)" by simp
  then have "x = y" using *(1,2) by (simp add: unat_of_nat)
  with \<open>a = b\<close> show "x = y \<and> a = b" by simp
qed

lemma write_count_ok: "write_count n = Inr a \<Longrightarrow> write_byte_length n = Inr a"
  by (auto simp: write_count_def write_byte_length_def checked_collection_count_def
      checked_byte_length_def split: if_splits)

lemma count_code: "prefix_code (\<lambda>_. True) (\<lambda>n. n) write_count"
  using prefix_code.unique [OF byte_length_code] by unfold_locales (blast dest: write_count_ok)

interpretation text_code: prefix_code "\<lambda>_. True" "\<lambda>x. x" write_text
proof
  fix x y a b r s
  assume w: "write_text x = Inr a" "write_text y = Inr b" and eq: "a @ r = b @ s"
  from w obtain la lb where
    l: "write_byte_length (length x) = Inr la" "write_byte_length (length y) = Inr lb"
      "a = la @ text_bytes x" "b = lb @ text_bytes y"
    by (auto simp: write_text_def write_bytes_def enc_append_def write_raw_def and_then_eq_Inr)
  with eq have "length x = length y \<and> la = lb"
    using prefix_code.unique [OF byte_length_code _ _ l(1,2), of "text_bytes x @ r" "text_bytes y @ s"]
    by simp
  with l eq show "x = y \<and> a = b" by (auto dest: text_bytes_inj)
qed

section \<open>Combinators\<close>

lemma option_code:
  assumes "prefix_code D v w"
  shows "prefix_code (pred_option D) (map_option v) (write_option w)"
proof
  fix x y a b r s
  assume d: "pred_option D x" "pred_option D y"
    and w: "write_option w x = Inr a" "write_option w y = Inr b" and eq: "a @ r = b @ s"
  show "map_option v x = map_option v y \<and> a = b"
  proof (cases x)
    case None
    with w eq show ?thesis
      by (cases y) (auto simp: write_option_def enc_append_def write_raw_def and_then_eq_Inr)
  next
    case x: (Some x')
    with w obtain a' where a: "w x' = Inr a'" "a = 1 # a'"
      by (auto simp: write_option_def enc_append_def write_raw_def and_then_eq_Inr)
    show ?thesis
    proof (cases y)
      case None
      with w eq a show ?thesis by (auto simp: write_option_def write_raw_def)
    next
      case y: (Some y')
      with w obtain b' where b: "w y' = Inr b'" "b = 1 # b'"
        by (auto simp: write_option_def enc_append_def write_raw_def and_then_eq_Inr)
      with a eq d x y show ?thesis
        using prefix_code.unique [OF assms _ _ a(1) b(1), of r s] by simp
    qed
  qed
qed

lemma each_counted:
  assumes code: "prefix_code D v w" and d: "list_all D xs" "list_all D ys"
    and w: "enc_append (write_count (length xs)) (write_each w xs) = Inr a"
      "enc_append (write_count (length ys)) (write_each w ys) = Inr b"
    and eq: "a @ r = b @ s"
  shows "map v xs = map v ys \<and> a = b"
proof -
  from w obtain c1 a2 c2 b2 where
    l: "write_count (length xs) = Inr c1" "write_count (length ys) = Inr c2"
      "write_each w xs = Inr a2" "write_each w ys = Inr b2" "a = c1 @ a2" "b = c2 @ b2"
    by (auto simp: enc_append_def and_then_eq_Inr)
  with eq have c: "length xs = length ys \<and> c1 = c2"
    using prefix_code.unique [OF count_code _ _ l(1,2), of "a2 @ r" "b2 @ s"] by simp
  with eq l have "a2 @ r = b2 @ s" by simp
  with c d l show ?thesis
    using prefix_code.each [OF code, of xs ys a2 b2 r s] by (auto simp: list_all_iff)
qed

lemma list_code:
  assumes "prefix_code D v w"
  shows "prefix_code (list_all D) (map v) (write_list w)"
  unfolding write_list_def by unfold_locales (rule each_counted [OF assms])

text \<open>A set: the sorted encodings of the same elements are the same.\<close>

lemma try_map_outputs:
  assumes "list_all D xs" and "try_map w xs = Inr bs"
  shows "length bs = length xs" and "\<forall>b \<in> set bs. \<exists>x. D x \<and> w x = Inr b"
    and "x \<in> set xs \<longleftrightarrow> x \<in> set xs \<and> (\<exists>b \<in> set bs. w x = Inr b)"
    and "b \<in> set bs \<Longrightarrow> \<exists>x \<in> set xs. w x = Inr b"
proof -
  have all: "list_all2 (\<lambda>x b. w x = Inr b) xs bs" using assms(2) by (simp add: try_map_Inr_iff)
  then show len: "length bs = length xs" by (simp add: list_all2_lengthD)
  have nth: "w (xs ! i) = Inr (bs ! i)" if "i < length xs" for i
    using all that by (rule list_all2_nthD)
  then show out: "\<exists>x \<in> set xs. w x = Inr b" if "b \<in> set bs" for b
    using that len by (metis in_set_conv_nth)
  show "x \<in> set xs \<longleftrightarrow> x \<in> set xs \<and> (\<exists>b \<in> set bs. w x = Inr b)"
    using nth len by (metis in_set_conv_nth)
  show "\<forall>b \<in> set bs. \<exists>x. D x \<and> w x = Inr b"
    using out assms(1) by (auto simp: list_all_iff)
qed

lemma set_code_subset:
  assumes code: "prefix_code D (\<lambda>x. x) w" and d: "list_all D xs" "list_all D ys"
    and m: "try_map w xs = Inr es" "try_map w ys = Inr fs" and eq: "set es = set fs"
  shows "set xs \<subseteq> set ys"
proof
  fix x assume x: "x \<in> set xs"
  then obtain b where b: "b \<in> set es" "w x = Inr b" using try_map_outputs(3) [OF d(1) m(1)] by blast
  with eq obtain y where y: "y \<in> set ys" "w y = Inr b" using try_map_outputs(4) [OF d(2) m(2)] by blast
  have "x = y"
    by (rule prefix_code.injective [OF code _ _ b(2) y(2)]) (use d x y(1) in \<open>auto simp: list_all_iff\<close>)
  with y(1) show "x \<in> set ys" by simp
qed

lemma set_code:
  assumes code: "prefix_code D (\<lambda>x. x) w"
  shows "prefix_code (\<lambda>xs. bs_wf xs \<and> list_all D xs) (\<lambda>xs. xs) (write_set w)"
proof
  fix xs ys a b r s
  assume dx: "bs_wf xs \<and> list_all D xs" and dy: "bs_wf ys \<and> list_all D ys"
    and w: "write_set w xs = Inr a" "write_set w ys = Inr b" and eq: "a @ r = b @ s"
  from w obtain es fs where e: "try_map w xs = Inr es" "try_map w ys = Inr fs"
    by (auto simp: write_set_def enc_append_def and_then_eq_Inr)
  have X: "length es = length xs" "\<forall>b \<in> set es. \<exists>x. D x \<and> w x = Inr b"
    using try_map_outputs(1,2) [OF _ e(1)] dx by blast+
  have Y: "length fs = length ys" "\<forall>b \<in> set fs. \<exists>x. D x \<and> w x = Inr b"
    using try_map_outputs(1,2) [OF _ e(2)] dy by blast+
  have out: "enc_append (write_count (length (sort es))) (write_each write_raw (sort es)) = Inr a"
    "enc_append (write_count (length (sort fs))) (write_each write_raw (sort fs)) = Inr b"
    using w by (simp_all add: write_set_def e X(1) Y(1))
  have "map (\<lambda>bs. bs) (sort es) = map (\<lambda>bs. bs) (sort fs) \<and> a = b"
    by (rule each_counted [OF prefix_code.outputs [OF code] _ _ out eq])
       (use X Y in \<open>auto simp: list_all_iff\<close>)
  then have "set es = set fs" and ab: "a = b" by (simp_all, metis set_sort)
  then have "set xs = set ys"
    using set_code_subset [OF code _ _ e] set_code_subset [OF code _ _ e(2,1)] dx dy by blast
  with dx dy ab show "xs = ys \<and> a = b" by (auto intro: bs_eqI)
qed

text \<open>A map, written in key order.\<close>

lemma sort_key_wf: "bt_wf m \<Longrightarrow> sort_key fst m = m"
  by (rule sort_key_id_if_sorted) (simp add: bt_wf_def strict_sorted_iff)

lemma string_map_code:
  assumes code: "prefix_code D v w"
  shows "prefix_code (\<lambda>m. bt_wf m \<and> list_all D (bt_values m)) (map (map_prod (\<lambda>k. k) v))
    (write_string_map w)"
proof
  fix m n a b r s
  assume dm: "bt_wf m \<and> list_all D (bt_values m)" and dn: "bt_wf n \<and> list_all D (bt_values n)"
    and w: "write_string_map w m = Inr a" "write_string_map w n = Inr b" and eq: "a @ r = b @ s"
  let ?w = "\<lambda>p. enc_append (write_text (fst p)) (w (snd p))"
  have pair: "prefix_code (\<lambda>p. D (snd p)) (\<lambda>p. (fst p, v (snd p))) ?w"
    by (intro prefix_code_append text_code.field prefix_code.field [OF code]) simp_all
  have out: "enc_append (write_count (length m)) (write_each ?w m) = Inr a"
    "enc_append (write_count (length n)) (write_each ?w n) = Inr b"
    using w dm dn by (simp_all add: write_string_map_def sort_key_wf case_prod_unfold)
  have "map (\<lambda>p. (fst p, v (snd p))) m = map (\<lambda>p. (fst p, v (snd p))) n \<and> a = b"
    by (rule each_counted [OF pair _ _ out eq]) (use dm dn in \<open>auto simp: list_all_iff\<close>)
  then show "map (map_prod (\<lambda>k. k) v) m = map (map_prod (\<lambda>k. k) v) n \<and> a = b"
    by (simp add: map_prod_def case_prod_unfold)
qed

section \<open>The writers of an entry\<close>

lemma pred_option_True [simp]: "pred_option (\<lambda>_. True) x"
  by (cases x) simp_all

lemma list_all_True [simp]: "list_all (\<lambda>_. True) xs"
  by (induction xs) simp_all

lemma option_code_simple:
  "prefix_code (\<lambda>_. True) (\<lambda>x. x) w \<Longrightarrow> prefix_code (\<lambda>_. True) (\<lambda>x. x) (write_option w)"
  by (rule prefix_code_view [OF option_code]) (auto simp: option.map_ident)

interpretation u32_option_code: prefix_code "\<lambda>_. True" "\<lambda>x. x" "write_option write_u32"
  by (rule option_code_simple [OF u32_code.prefix_code_axioms])

interpretation u64_option_code: prefix_code "\<lambda>_. True" "\<lambda>x. x" "write_option write_u64"
  by (rule option_code_simple [OF u64_code.prefix_code_axioms])

interpretation i32_option_code: prefix_code "\<lambda>_. True" "\<lambda>x. x" "write_option write_i32"
  by (rule option_code_simple [OF i32_code.prefix_code_axioms])

interpretation i64_option_code: prefix_code "\<lambda>_. True" "\<lambda>x. x" "write_option write_i64"
  by (rule option_code_simple [OF i64_code.prefix_code_axioms])

interpretation uuid_option_code: prefix_code "\<lambda>_. True" "\<lambda>x. x" "write_option write_uuid"
  by (rule option_code_simple [OF uuid_code.prefix_code_axioms])

interpretation text_option_code: prefix_code "\<lambda>_. True" "\<lambda>x. x" "write_option write_text"
  by (rule option_code_simple [OF text_code.prefix_code_axioms])

interpretation bool_option_code: prefix_code "\<lambda>_. True" "\<lambda>x. x" "write_option write_bool"
  by (rule option_code_simple [OF bool_code.prefix_code_axioms])

lemmas scalar_fields =
  u32_code.field u64_code.field i64_code.field uuid_code.field text_code.field bool_code.field
  u32_option_code.field u64_option_code.field i32_option_code.field i64_option_code.field
  uuid_option_code.field text_option_code.field bool_option_code.field

interpretation field_protection_code: prefix_code "\<lambda>_. True" "\<lambda>x. x" write_field_protection
  unfolding write_field_protection_def
  by (rule prefix_code_view [where D = "\<lambda>_. True"], (rule prefix_code_append scalar_fields TrueI)+)
     simp_all

interpretation attribute_code: prefix_code "\<lambda>_. True" "\<lambda>x. x" write_attribute
  unfolding write_attribute_def
  by (rule prefix_code_view [where D = "\<lambda>_. True"], (rule prefix_code_append scalar_fields TrueI)+)
     simp_all

interpretation association_code: prefix_code "\<lambda>_. True" "\<lambda>x. x" write_association
  unfolding write_association_def
  by (rule prefix_code_view [where D = "\<lambda>_. True"], (rule prefix_code_append scalar_fields TrueI)+)
     simp_all

interpretation association_list_code: prefix_code "\<lambda>_. True" "\<lambda>x. x" "write_list write_association"
  by (rule prefix_code_view [OF list_code [OF association_code.prefix_code_axioms]]) simp_all

interpretation auto_type_code: prefix_code "\<lambda>_. True" "\<lambda>x. x" write_auto_type
  unfolding write_auto_type_def
  by (rule prefix_code_view [where D = "\<lambda>_. True"],
      (rule prefix_code_append scalar_fields association_list_code.field TrueI)+) simp_all

interpretation auto_type_option_code: prefix_code "\<lambda>_. True" "\<lambda>x. x" "write_option write_auto_type"
  by (rule option_code_simple [OF auto_type_code.prefix_code_axioms])

interpretation custom_data_item_code: prefix_code "\<lambda>_. True" "\<lambda>x. x" write_custom_data_item
  unfolding write_custom_data_item_def
  by (rule prefix_code_view [where D = "\<lambda>_. True"], (rule prefix_code_append scalar_fields TrueI)+)
     simp_all

interpretation attachment_reference_code: prefix_code "\<lambda>_. True" "\<lambda>x. x"
    "\<lambda>a :: attachment_reference. enc_append (write_bool (ar_protect_in_memory a)) (write_raw (content_id_bytes (ar_content_id a)))"
  by (rule prefix_code_view [where D = "\<lambda>_. True"],
      (rule prefix_code_append scalar_fields content_id_code.field TrueI)+)
     simp_all

lemma map_code_simple:
  assumes "prefix_code (\<lambda>_. True) (\<lambda>x. x) w"
  shows "prefix_code bt_wf (\<lambda>x. x) (write_string_map w)"
  by (rule prefix_code_view [OF string_map_code [OF assms]]) (simp_all add: map_prod_def case_prod_unfold)

interpretation tag_set_code: prefix_code bs_wf "\<lambda>x. x" "write_set write_text"
  by (rule prefix_code_view [OF set_code [OF text_code.prefix_code_axioms]]) simp_all

interpretation attribute_map_code: prefix_code bt_wf "\<lambda>x. x" "write_string_map write_attribute"
  by (rule map_code_simple [OF attribute_code.prefix_code_axioms])

interpretation attachment_map_code: prefix_code bt_wf "\<lambda>x. x" write_attachment_map
  unfolding write_attachment_map_def by (rule map_code_simple [OF attachment_reference_code.prefix_code_axioms])

interpretation text_map_code: prefix_code bt_wf "\<lambda>x. x" "write_string_map write_text"
  by (rule map_code_simple [OF text_code.prefix_code_axioms])

interpretation item_map_code: prefix_code bt_wf "\<lambda>x. x" "write_string_map write_custom_data_item"
  by (rule map_code_simple [OF custom_data_item_code.prefix_code_axioms])

definition canonical_entry_wf :: "canonical_entry \<Rightarrow> bool" where
  "canonical_entry_wf r \<longleftrightarrow> bs_wf (cr_tags r) \<and> bt_wf (cr_attributes r) \<and> bt_wf (cr_attachments r) \<and>
     bt_wf (cr_custom_data r) \<and> bt_wf (cr_custom_data_items r)"

interpretation canonical_entry_code: prefix_code canonical_entry_wf "\<lambda>x. x" canonical_entry_reference_bytes_v1
  unfolding canonical_entry_reference_bytes_v1_def foldr.simps comp_def id_def
  by (rule prefix_code_view [where D = canonical_entry_wf],
      (rule prefix_code_append prefix_code_const scalar_fields field_protection_code.field
        auto_type_option_code.field tag_set_code.field attribute_map_code.field
        attachment_map_code.field text_map_code.field item_map_code.field TrueI
       | simp add: canonical_entry_wf_def)+)

section \<open>Which entries can be written\<close>

text \<open>Every text and every collection has to fit a 32-bit length.\<close>

abbreviation fits :: "'a list \<Rightarrow> bool" where
  "fits xs \<equiv> int (length xs) < 2 ^ 32"

lemma is_ok_simps [simp]: "is_ok (Inr x)" "\<not> is_ok (Inl e)"
  by (simp_all add: is_ok_def)

lemma is_ok_append [simp]: "is_ok (enc_append a b) \<longleftrightarrow> is_ok a \<and> is_ok b"
  by (cases a; cases b) (simp_all add: enc_append_def)

lemma is_ok_scalars [simp]:
  "is_ok (write_raw bs)" "is_ok (write_bool b)" "is_ok (write_u32 v)" "is_ok (write_i32 i)"
  "is_ok (write_u64 w)" "is_ok (write_i64 j)" "is_ok (write_uuid u)"
  by (simp_all add: write_raw_def write_bool_def write_u32_def write_i32_def write_u64_def
      write_i64_def write_uuid_def)

lemma is_ok_count [simp]:
  "is_ok (write_byte_length n) \<longleftrightarrow> int n < 2 ^ 32" "is_ok (write_count n) \<longleftrightarrow> int n < 2 ^ 32"
  by (simp_all add: write_byte_length_def write_count_def checked_byte_length_def
      checked_collection_count_def)

lemma is_ok_text [simp]: "is_ok (write_text t) \<longleftrightarrow> fits t"
  by (simp add: write_text_def write_bytes_def)

lemma is_ok_option [simp]: "is_ok (write_option w v) \<longleftrightarrow> pred_option (\<lambda>x. is_ok (w x)) v"
  by (cases v) (simp_all add: write_option_def)

lemma is_ok_each [simp]: "is_ok (write_each w xs) \<longleftrightarrow> list_all (\<lambda>x. is_ok (w x)) xs"
  by (induction xs) simp_all

lemma is_ok_list [simp]: "is_ok (write_list w xs) \<longleftrightarrow> fits xs \<and> list_all (\<lambda>x. is_ok (w x)) xs"
  by (simp add: write_list_def)

lemma is_ok_try_map: "is_ok (try_map w xs) \<longleftrightarrow> list_all (\<lambda>x. is_ok (w x)) xs"
proof (induction xs)
  case (Cons x xs)
  then show ?case by (cases "w x"; cases "try_map w xs") simp_all
qed simp

lemma is_ok_set [simp]: "is_ok (write_set w xs) \<longleftrightarrow> fits xs \<and> list_all (\<lambda>x. is_ok (w x)) xs"
proof -
  have "is_ok (and_then (try_map w xs) (\<lambda>es. write_each write_raw (sort es))) \<longleftrightarrow> is_ok (try_map w xs)"
    by (cases "try_map w xs") simp_all
  then show ?thesis by (simp add: write_set_def is_ok_try_map)
qed

lemma is_ok_map [simp]:
  "is_ok (write_string_map w m) \<longleftrightarrow> fits m \<and> list_all (\<lambda>(k, v). fits k \<and> is_ok (w v)) m"
  by (auto simp: write_string_map_def list_all_iff)

definition auto_type_fits :: "auto_type_config \<Rightarrow> bool" where
  "auto_type_fits a \<longleftrightarrow> pred_option fits (at_default_sequence a) \<and> fits (at_associations a) \<and>
     list_all (\<lambda>x. fits (at_window x) \<and> fits (at_sequence x)) (at_associations a)"

definition canonical_entry_fits :: "canonical_entry \<Rightarrow> bool" where
  "canonical_entry_fits r \<longleftrightarrow>
     fits (cr_title r) \<and> fits (cr_username r) \<and> fits (cr_password r) \<and> fits (cr_url r) \<and>
     fits (cr_notes r) \<and> fits (cr_tags r) \<and> list_all fits (cr_tags r) \<and>
     fits (cr_attributes r) \<and> list_all (\<lambda>(k, f). fits k \<and> fits (cf_value f)) (cr_attributes r) \<and>
     fits (cr_attachments r) \<and> list_all (\<lambda>(k, _). fits k) (cr_attachments r) \<and>
     pred_option fits (cr_foreground_color r) \<and> pred_option fits (cr_background_color r) \<and>
     pred_option fits (cr_override_url r) \<and> pred_option auto_type_fits (cr_auto_type r) \<and>
     fits (cr_custom_data r) \<and> list_all (\<lambda>(k, v). fits k \<and> fits v) (cr_custom_data r) \<and>
     fits (cr_custom_data_items r) \<and>
     list_all (\<lambda>(k, item). fits k \<and> fits (cit_value item)) (cr_custom_data_items r)"

lemma is_ok_canonical: "is_ok (canonical_entry_reference_bytes_v1 r) \<longleftrightarrow> canonical_entry_fits r"
  by (auto simp: canonical_entry_reference_bytes_v1_def canonical_entry_fits_def auto_type_fits_def [abs_def]
      write_field_protection_def write_attachment_map_def write_attribute_def write_association_def
      write_auto_type_def write_custom_data_item_def case_prod_unfold)

section \<open>Properties\<close>

text \<open>\<open>BTreeMap\<close> and \<open>BTreeSet\<close> fields hold sorted keys.\<close>

definition entry_maps_wf :: "entry_core \<Rightarrow> bool" where
  "entry_maps_wf e \<longleftrightarrow> bs_wf (e_tags e) \<and> bt_wf (e_attributes e) \<and> bt_wf (e_attachments e) \<and>
     bt_wf (e_custom_data e)"

lemma reference_wf:
  assumes "entry_maps_wf (e_core e)" and "canonical_entry_reference e = Inr r"
  shows "canonical_entry_wf r"
proof -
  have "bt_wf (map (\<lambda>(k, a). (k, f a)) m)" if "bt_wf m" for f and m :: "(string, attachment) btree"
    using that by (simp add: bt_wf_def comp_def case_prod_unfold)
  then show ?thesis
    using assms
    by (auto simp: canonical_entry_reference_def collect_attachment_references_def and_then_eq_Inr
        canonical_entry_wf_def entry_maps_wf_def Let_def materialize_wf collect_custom_data_items_def)
qed

text \<open>C11. The canonical encoding identifies the content of an entry: two entries have the same
  canonical bytes exactly when they have the same canonical reference (every field of schema
  version 1, with attributes taken from the materialized view and attachments by content id).
  Reordered tags, moved CustomData blocks, history and XML state cannot make encodings collide or
  differ. Moreover no encoding is a proper prefix of another.\<close>

theorem canonical_bytes_identify_content:
  assumes "entry_maps_wf (e_core e)" and "entry_maps_wf (e_core e')"
    and "canonical_entry_bytes_v1 e = Inr b" and "canonical_entry_bytes_v1 e' = Inr b'"
  shows "(b = b') = (canonical_entry_reference e = canonical_entry_reference e') \<and>
    (\<forall>rest. b' = b @ rest \<longrightarrow> rest = [])"
proof -
  from assms(3,4) obtain r r' where
    r: "canonical_entry_reference e = Inr r" "canonical_entry_reference_bytes_v1 r = Inr b"
      "canonical_entry_reference e' = Inr r'" "canonical_entry_reference_bytes_v1 r' = Inr b'"
    by (auto simp: canonical_entry_bytes_v1_def and_then_eq_Inr)
  have "canonical_entry_wf r" "canonical_entry_wf r'"
    using assms(1,2) r(1,3) by (auto intro: reference_wf)
  note unique = canonical_entry_code.unique [OF this r(2,4)]
  show ?thesis
    using unique [of "[]" "[]"] unique [of _ "[]"] r by auto
qed

text \<open>Canonical encoding fails exactly on entries with a text or collection whose length does not
  fit 32 bits; every other entry, of any size the program can hold, has a canonical form.\<close>

theorem canonical_bytes_total:
  "is_ok (canonical_entry_bytes_v1 e) =
     (case canonical_entry_reference e of
        Inl err \<Rightarrow> False
      | Inr r \<Rightarrow> canonical_entry_fits r)"
  by (cases "canonical_entry_reference e") (simp_all add: canonical_entry_bytes_v1_def is_ok_canonical)

lemma canonical_example_wf: "entry_maps_wf credential_example"
  by (simp add: entry_maps_wf_def credential_example_def entry_new_def bt_wf_def bs_wf_def)

lemma canonical_bytes_identify_content_witness:
  "\<exists>b. canonical_entry_bytes_v1 (Entry credential_example []) = Inr b \<and>
    canonical_entry_bytes_v1 (Entry credential_example [Entry credential_example []]) = Inr b"
proof -
  let ?e = "Entry credential_example []" and ?f = "Entry credential_example [Entry credential_example []]"
  have "case canonical_entry_reference ?e of Inr r \<Rightarrow> canonical_entry_fits r | Inl _ \<Rightarrow> False"
    by (code_simp, simp add: auto_type_fits_def)
  then have "is_ok (canonical_entry_bytes_v1 ?e)"
    by (simp add: canonical_entry_bytes_v1_def is_ok_canonical split: sum.splits)
  moreover have "canonical_entry_bytes_v1 ?f = canonical_entry_bytes_v1 ?e"
    by (simp add: canonical_entry_bytes_v1_def canonical_entry_reference_def)
  ultimately obtain b b' where b: "canonical_entry_bytes_v1 ?e = Inr b" "canonical_entry_bytes_v1 ?f = Inr b'"
    by (auto simp: is_ok_def split: sum.splits)
  have wf: "entry_maps_wf (e_core ?e)" "entry_maps_wf (e_core ?f)" by (simp_all add: canonical_example_wf)
  have "canonical_entry_reference ?e = canonical_entry_reference ?f"
    by (simp add: canonical_entry_reference_def)
  with canonical_bytes_identify_content [OF wf b] b show ?thesis by simp
qed

lemma materialize_frame:
  "materialize_entry_persistent_attributes (e\<lparr>e_raw_state := raw, e_opaque_xml := opaque\<rparr>) =
   materialize_entry_persistent_attributes e"
proof -
  have "otpauth_label (e\<lparr>e_raw_state := raw, e_opaque_xml := opaque\<rparr>) = otpauth_label e"
    by (rule ext) (simp add: otpauth_label_def split: option.split)
  then have "overlay_totp_projection m (e\<lparr>e_raw_state := raw, e_opaque_xml := opaque\<rparr>) t =
      overlay_totp_projection m e t" for m t
    by (simp add: overlay_totp_projection_def totp_overlay_fields_def entry_otpauth_uri_def)
  then show ?thesis
    by (simp add: materialize_entry_persistent_attributes_def split: option.split)
qed

text \<open>The content hash sees content only: history, raw XML state and unknown XML do not enter it,
  and replacing the attributes by the materialized view, as a save and a load do, does not change
  it.\<close>

theorem content_hash_stable:
  assumes "bt_wf (e_attributes c)"
  shows "canonical_entry_content_hash_v1 sha256
      (Entry (c\<lparr>e_raw_state := raw, e_opaque_xml := opaque,
        e_attributes := mt_fields (materialize_entry_persistent_attributes c)\<rparr>) history) =
    canonical_entry_content_hash_v1 sha256 (Entry c history')"
proof -
  let ?m = "mt_fields (materialize_entry_persistent_attributes c)"
  have "c\<lparr>e_raw_state := raw, e_opaque_xml := opaque, e_attributes := ?m\<rparr> =
      (c\<lparr>e_attributes := ?m\<rparr>)\<lparr>e_raw_state := raw, e_opaque_xml := opaque\<rparr>"
    by (rule entry_core.equality) simp_all
  then have "materialize_entry_persistent_attributes
      (c\<lparr>e_raw_state := raw, e_opaque_xml := opaque, e_attributes := ?m\<rparr>) =
    materialize_entry_persistent_attributes ((c\<lparr>e_attributes := ?m\<rparr>)\<lparr>e_raw_state := raw, e_opaque_xml := opaque\<rparr>)"
    by (rule arg_cong)
  also have "\<dots> = materialize_entry_persistent_attributes c"
    unfolding materialize_frame by (rule materialize_remat [OF assms])
  finally show ?thesis
    by (simp add: canonical_entry_content_hash_v1_def canonical_entry_bytes_v1_def
        canonical_entry_reference_def)
qed

lemma content_hash_stable_witness:
  "canonical_entry_content_hash_v1 (\<lambda>bs. of_nat (length bs))
     (Entry (credential_example\<lparr>e_raw_state := e_raw_state credential_example,
        e_opaque_xml := [\<lparr>fr_xml = ''<x/>'', fr_after = None\<rparr>],
        e_attributes := mt_fields (materialize_entry_persistent_attributes credential_example)\<rparr>) []) =
   canonical_entry_content_hash_v1 (\<lambda>bs. of_nat (length bs)) (Entry credential_example [])"
proof -
  have "bt_wf (e_attributes credential_example)" using canonical_example_wf by (simp add: entry_maps_wf_def)
  then show ?thesis by (rule content_hash_stable)
qed

end
