(* ===== verification/Snapshot.thy ===== *)
theory Snapshot
  imports CustomData
begin

text \<open>
  History snapshots (\<^verbatim>\<open>crates/vaultkern-model/src/lib.rs\<close>): \<open>prepare_entry_history_snapshot\<close> and
  \<open>retarget_removed_entry_known_nodes\<close>, which takes the nodes of one name out of an entry's XML
  node order and moves the fragments that followed them. The lemmas show that every anchored
  fragment stays between the same remaining nodes.
\<close>

section \<open>Removing known nodes\<close>

record retarget_state =
  rt_counts :: "(string, nat) btree"
  rt_predecessor :: "anchor option"
  rt_replacements :: "anchor option list"

definition retarget_step :: "string \<Rightarrow> retarget_state \<Rightarrow> string \<Rightarrow> retarget_state" where
  "retarget_step element_name st name =
     (if name = element_name then
        st\<lparr>rt_replacements := rt_replacements st @ [rt_predecessor st]\<rparr>
      else
        (let occurrence = Suc (case bt_get (rt_counts st) name of Some n \<Rightarrow> n | None \<Rightarrow> 0) in
         st\<lparr>rt_counts := bt_insert name occurrence (rt_counts st),
            rt_predecessor := Some \<lparr>an_element_name = name, an_occurrence = occurrence\<rparr>\<rparr>))"

definition removed_node_replacements :: "string \<Rightarrow> string list \<Rightarrow> anchor option list" where
  "removed_node_replacements element_name original_order =
     rt_replacements (foldl (retarget_step element_name)
       \<lparr>rt_counts = [], rt_predecessor = None, rt_replacements = []\<rparr> original_order)"

text \<open>\<open>checked_sub(1).and_then(|index| replacements.get(index).cloned()).flatten()\<close>.\<close>

definition retarget_removed_anchor ::
    "string \<Rightarrow> anchor option list \<Rightarrow> anchor option \<Rightarrow> anchor option" where
  "retarget_removed_anchor element_name replacements anchor =
     (case anchor of
        None \<Rightarrow> None
      | Some existing \<Rightarrow>
          if an_element_name existing \<noteq> element_name then Some existing
          else if an_occurrence existing = 0 then None
          else if an_occurrence existing - 1 < length replacements
               then replacements ! (an_occurrence existing - 1)
               else None)"

definition retarget_removed_entry_known_nodes :: "string \<Rightarrow> entry_core \<Rightarrow> entry_core" where
  "retarget_removed_entry_known_nodes element_name entry =
     (let original_order = er_node_order (e_raw_state entry);
          replacements = removed_node_replacements element_name original_order
      in entry\<lparr>
        e_custom_data_blocks := map (\<lambda>block. block\<lparr>cb_after :=
          retarget_removed_anchor element_name replacements (cb_after block)\<rparr>)
          (e_custom_data_blocks entry),
        e_opaque_xml := map (\<lambda>fragment. fragment\<lparr>fr_after :=
          retarget_removed_anchor element_name replacements (fr_after fragment)\<rparr>)
          (e_opaque_xml entry),
        e_raw_state := (e_raw_state entry)\<lparr>er_node_order :=
          filter (\<lambda>name. name \<noteq> element_name) original_order\<rparr>\<rparr>)"

definition prepare_entry_history_snapshot :: "entry \<Rightarrow> entry" where
  "prepare_entry_history_snapshot entry =
     (let core = e_core entry;
          raw = e_raw_state core;
          core' = (if er_has_history_node raw \<or> ''History'' \<in> set (er_node_order raw)
                   then retarget_removed_entry_known_nodes ''History'' core else core)
      in Entry (core'\<lparr>e_raw_state := (e_raw_state core')\<lparr>er_has_history_node := False\<rparr>\<rparr>) [])"

section \<open>Where an anchor points\<close>

text \<open>The index of the \<open>k\<close>-th node with a name, counting from one.\<close>

fun nth_occurrence :: "string \<Rightarrow> nat \<Rightarrow> string list \<Rightarrow> nat option" where
  "nth_occurrence n k [] = None"
| "nth_occurrence n k (x # xs) =
     (if x = n \<and> k = 1 then Some 0
      else map_option Suc (nth_occurrence n (if x = n then k - 1 else k) xs))"

text \<open>The slot of a fragment: how many nodes precede it.\<close>

definition anchor_slot :: "string list \<Rightarrow> anchor option \<Rightarrow> nat option" where
  "anchor_slot order anchor =
     (case anchor of
        None \<Rightarrow> Some 0
      | Some a \<Rightarrow>
          if an_occurrence a = 0 then None
          else map_option Suc (nth_occurrence (an_element_name a) (an_occurrence a) order))"

lemma nth_occurrence_iff:
  "0 < k \<Longrightarrow> nth_occurrence n k xs = Some i \<longleftrightarrow>
     i < length xs \<and> xs ! i = n \<and> Suc (count_list (take i xs) n) = k"
proof (induction n k xs arbitrary: i rule: nth_occurrence.induct)
  case (2 n k x xs)
  show ?case
  proof (cases "x = n \<and> k = 1")
    case True
    then show ?thesis by (cases i) auto
  next
    case False
    then have k': "0 < (if x = n then k - 1 else k)" using "2.prems" by auto
    note IH = "2.IH" [OF False k']
    show ?thesis
    proof (cases i)
      case 0
      with False show ?thesis by auto
    next
      case (Suc j)
      with False have "nth_occurrence n k (x # xs) = Some i \<longleftrightarrow>
          nth_occurrence n (if x = n then k - 1 else k) xs = Some j" by auto
      also have "\<dots> \<longleftrightarrow> i < length (x # xs) \<and> (x # xs) ! i = n \<and>
          Suc (count_list (take i (x # xs)) n) = k"
        unfolding IH [of j] using Suc k' by auto
      finally show ?thesis .
    qed
  qed
qed simp

lemma count_list_filter: "P n \<Longrightarrow> count_list (filter P xs) n = count_list xs n"
  by (induction xs) auto

lemma nth_filter_take:
  "i < length xs \<Longrightarrow> P (xs ! i) \<Longrightarrow>
     length (filter P (take i xs)) < length (filter P xs) \<and>
     filter P xs ! length (filter P (take i xs)) = xs ! i \<and>
     take (length (filter P (take i xs))) (filter P xs) = filter P (take i xs)"
proof -
  assume i: "i < length xs" "P (xs ! i)"
  have "filter P xs = filter P (take i xs) @ filter P (drop i xs)"
    by (metis append_take_drop_id filter_append)
  moreover have "drop i xs = xs ! i # drop (Suc i) xs"
    using i(1) by (rule Cons_nth_drop_Suc [symmetric])
  ultimately show ?thesis using i(2) by simp
qed

lemma slot_of_retained:
  assumes "P n" and "0 < k" and "nth_occurrence n k order = Some i"
  shows "nth_occurrence n k (filter P order) = Some (length (filter P (take i order)))"
proof -
  have i: "i < length order" "order ! i = n" "Suc (count_list (take i order) n) = k"
    using assms by (auto simp: nth_occurrence_iff)
  with nth_filter_take [of i order P] assms(1) show ?thesis
    by (simp add: nth_occurrence_iff [OF assms(2)] count_list_filter)
qed

text \<open>The anchor of the last retained node of a prefix.\<close>

definition last_retained :: "string \<Rightarrow> string list \<Rightarrow> anchor option" where
  "last_retained element_name prefix =
     (let kept = filter (\<lambda>name. name \<noteq> element_name) prefix in
      if kept = [] then None
      else Some \<lparr>an_element_name = last kept, an_occurrence = count_list prefix (last kept)\<rparr>)"

lemma retarget_loop:
  "let st = foldl (retarget_step element_name)
       \<lparr>rt_counts = [], rt_predecessor = None, rt_replacements = []\<rparr> prefix
   in (\<forall>n. n \<noteq> element_name \<longrightarrow>
         (case bt_get (rt_counts st) n of Some c \<Rightarrow> c | None \<Rightarrow> 0) = count_list prefix n) \<and>
      rt_predecessor st = last_retained element_name prefix \<and>
      length (rt_replacements st) = count_list prefix element_name \<and>
      (\<forall>k i. 0 < k \<longrightarrow> nth_occurrence element_name k prefix = Some i \<longrightarrow>
         rt_replacements st ! (k - 1) = last_retained element_name (take i prefix))"
proof (induction prefix rule: rev_induct)
  case Nil
  then show ?case by (simp add: last_retained_def)
next
  case (snoc name prefix)
  let ?st = "foldl (retarget_step element_name)
     \<lparr>rt_counts = [], rt_predecessor = None, rt_replacements = []\<rparr> prefix"
  let ?st' = "retarget_step element_name ?st name"
  have IH: "\<forall>n. n \<noteq> element_name \<longrightarrow>
        (case bt_get (rt_counts ?st) n of Some c \<Rightarrow> c | None \<Rightarrow> 0) = count_list prefix n"
      "rt_predecessor ?st = last_retained element_name prefix"
      "length (rt_replacements ?st) = count_list prefix element_name"
    and old: "\<And>k i. 0 < k \<Longrightarrow> nth_occurrence element_name k prefix = Some i \<Longrightarrow>
        rt_replacements ?st ! (k - 1) = last_retained element_name (take i prefix)"
    using snoc.IH by (auto simp: Let_def)
  have repl: "rt_replacements ?st' ! (k - 1) = last_retained element_name (take i (prefix @ [name]))"
    if k: "0 < k" and occ: "nth_occurrence element_name k (prefix @ [name]) = Some i" for k i
  proof (cases "i < length prefix")
    case True
    with occ have "nth_occurrence element_name k prefix = Some i"
      by (simp add: nth_occurrence_iff [OF k] nth_append)
    moreover from this have "k - 1 < count_list prefix element_name"
    proof -
      from \<open>nth_occurrence element_name k prefix = Some i\<close>
      have i: "i < length prefix" "prefix ! i = element_name" "Suc (count_list (take i prefix) element_name) = k"
        by (simp_all add: nth_occurrence_iff [OF k])
      have "count_list prefix element_name =
          count_list (take i prefix) element_name + count_list (drop i prefix) element_name"
        by (metis append_take_drop_id count_list_append)
      moreover have "drop i prefix = element_name # drop (Suc i) prefix"
        using Cons_nth_drop_Suc [OF i(1)] i(2) by simp
      ultimately show ?thesis using i(3) by simp
    qed
    ultimately show ?thesis
      using old [OF k] IH(3) True by (simp add: retarget_step_def Let_def nth_append)
  next
    case False
    with occ have i: "i = length prefix" "name = element_name"
      and k': "k = Suc (count_list prefix element_name)"
      by (auto simp: nth_occurrence_iff [OF k] nth_append less_Suc_eq)
    then show ?thesis using IH by (simp add: k' i retarget_step_def nth_append)
  qed
  show ?case
    unfolding foldl_append foldl.simps Let_def
  proof (intro conjI allI impI)
    show "(case bt_get (rt_counts ?st') n of Some c \<Rightarrow> c | None \<Rightarrow> 0) = count_list (prefix @ [name]) n"
      if "n \<noteq> element_name" for n
      using that IH(1) by (simp add: retarget_step_def Let_def)
    show "rt_predecessor ?st' = last_retained element_name (prefix @ [name])"
    proof -
      have "filter (\<lambda>name. name \<noteq> element_name) prefix = [] \<or>
          last (filter (\<lambda>name. name \<noteq> element_name) prefix) \<noteq> element_name"
        using last_in_set [of "filter (\<lambda>name. name \<noteq> element_name) prefix"] by fastforce
      then show ?thesis
        using IH(1,2) by (auto simp: retarget_step_def last_retained_def Let_def)
    qed
    show "length (rt_replacements ?st') = count_list (prefix @ [name]) element_name"
      using IH(3) by (simp add: retarget_step_def Let_def)
  qed (rule repl)
qed

lemma replacement_at:
  assumes "0 < k" and "nth_occurrence element_name k order = Some i"
  shows "k - 1 < length (removed_node_replacements element_name order) \<and>
    removed_node_replacements element_name order ! (k - 1) = last_retained element_name (take i order)"
proof -
  have i: "i < length order" "order ! i = element_name" "Suc (count_list (take i order) element_name) = k"
    using assms by (auto simp: nth_occurrence_iff)
  then have "count_list (take (Suc i) order) element_name = k"
    by (simp add: take_Suc_conv_app_nth)
  moreover have "count_list order element_name =
      count_list (take (Suc i) order) element_name + count_list (drop (Suc i) order) element_name"
    by (metis append_take_drop_id count_list_append)
  ultimately show ?thesis
    using retarget_loop [of element_name order] assms
    by (auto simp: Let_def removed_node_replacements_def)
qed

lemma slot_of_last_retained:
  assumes "i < length order" and "order ! i = element_name"
  shows "anchor_slot (filter (\<lambda>name. name \<noteq> element_name) order) (last_retained element_name (take i order)) =
    Some (length (filter (\<lambda>name. name \<noteq> element_name) (take i order)))"
proof (cases "filter (\<lambda>name. name \<noteq> element_name) (take i order) = []")
  case True
  then show ?thesis by (simp add: last_retained_def anchor_slot_def)
next
  case False
  define P where "P = (\<lambda>name. name \<noteq> element_name)"
  define kept where "kept = filter P (take i order)"
  have split: "filter P order = kept @ filter P (drop i order)"
    by (metis append_take_drop_id filter_append kept_def)
  from False have ne: "kept \<noteq> []" by (simp add: kept_def P_def)
  then obtain ks x where ks: "kept = ks @ [x]" by (cases kept rule: rev_cases) auto
  have "x \<in> set kept" using ks by simp
  then have "P x" by (simp add: kept_def)
  then have "count_list (take i order) x = count_list kept x"
    by (simp add: kept_def count_list_filter)
  then have "nth_occurrence x (count_list (take i order) x) (filter P order) = Some (length ks)"
    unfolding split using ks by (subst nth_occurrence_iff) (simp_all add: nth_append)
  moreover have "last_retained element_name (take i order) =
      Some \<lparr>an_element_name = x, an_occurrence = count_list (take i order) x\<rparr>"
    using ne ks by (simp add: last_retained_def kept_def [symmetric] P_def [symmetric])
  moreover have "0 < count_list (take i order) x"
    using \<open>count_list (take i order) x = count_list kept x\<close> ks by simp
  ultimately show ?thesis
    using ks by (simp add: anchor_slot_def kept_def [symmetric] P_def [symmetric])
qed

lemma retargeted_slot:
  assumes "anchor_slot order anchor = Some p"
  shows "anchor_slot (filter (\<lambda>name. name \<noteq> element_name) order)
      (retarget_removed_anchor element_name (removed_node_replacements element_name order) anchor) =
    Some (length (filter (\<lambda>name. name \<noteq> element_name) (take p order)))"
proof (cases anchor)
  case None
  with assms show ?thesis by (simp add: anchor_slot_def retarget_removed_anchor_def)
next
  case (Some a)
  with assms obtain i where k: "0 < an_occurrence a"
    and occ: "nth_occurrence (an_element_name a) (an_occurrence a) order = Some i" and p: "p = Suc i"
    by (auto simp: anchor_slot_def split: if_splits)
  then have i: "i < length order" "order ! i = an_element_name a"
    by (simp_all add: nth_occurrence_iff)
  then have take_p: "take p order = take i order @ [an_element_name a]"
    by (simp add: p take_Suc_conv_app_nth)
  show ?thesis
  proof (cases "an_element_name a = element_name")
    case True
    with replacement_at [OF k occ [unfolded True]] slot_of_last_retained [OF i(1)] i(2) k Some take_p
    show ?thesis by (simp add: retarget_removed_anchor_def)
  next
    case False
    with slot_of_retained [of "\<lambda>name. name \<noteq> element_name", OF False k occ] k Some take_p
    show ?thesis by (simp add: retarget_removed_anchor_def anchor_slot_def)
  qed
qed

text \<open>C24. Turning an entry into a history snapshot drops its History node and history, and every
  CustomData block and opaque XML fragment whose anchor resolves stays in place: its new anchor
  resolves in the new node order, at the slot after exactly those remaining nodes that preceded it
  before.\<close>

theorem snapshot_keeps_slots:
  assumes "er_has_history_node (e_raw_state (e_core entry)) \<or>
      ''History'' \<in> set (er_node_order (e_raw_state (e_core entry)))"
  shows "let order = er_node_order (e_raw_state (e_core entry));
       core = e_core (prepare_entry_history_snapshot entry);
       order' = er_node_order (e_raw_state core)
     in e_history (prepare_entry_history_snapshot entry) = [] \<and>
        \<not> er_has_history_node (e_raw_state core) \<and>
        order' = filter (\<lambda>name. name \<noteq> ''History'') order \<and>
        list_all2 (\<lambda>anchor anchor'. \<forall>p. anchor_slot order anchor = Some p \<longrightarrow>
            anchor_slot order' anchor' = Some (length (filter (\<lambda>name. name \<noteq> ''History'') (take p order))))
          (map fr_after (e_opaque_xml (e_core entry)) @ map cb_after (e_custom_data_blocks (e_core entry)))
          (map fr_after (e_opaque_xml core) @ map cb_after (e_custom_data_blocks core))"
proof -
  have all2: "list_all2 R (map f xs @ map g ys) (map f' xs @ map g' ys)"
    if "\<And>x. R (f x) (f' x)" "\<And>y. R (g y) (g' y)" for R f f' g g' xs ys
    using that by (intro list_all2_appendI) (simp_all add: list_all2_map1 list_all2_map2 list_all2_same)
  show ?thesis
    using assms
    by (auto simp: prepare_entry_history_snapshot_def retarget_removed_entry_known_nodes_def Let_def
        comp_def retargeted_slot intro!: all2)
qed

definition snapshot_example :: entry where
  "snapshot_example = Entry ((e_core (entry_new 1 ''t''))
     \<lparr>e_raw_state := default_entry_raw_state\<lparr>er_node_order := [''Times'', ''History'', ''History'', ''Tags'']\<rparr>,
      e_opaque_xml := [\<lparr>fr_xml = ''<x/>'', fr_after = Some \<lparr>an_element_name = ''History'', an_occurrence = 2\<rparr>\<rparr>]\<rparr>)
     [entry_new 2 ''old'']"

lemma snapshot_keeps_slots_witness:
  "e_history (prepare_entry_history_snapshot snapshot_example) = [] \<and>
   er_node_order (e_raw_state (e_core (prepare_entry_history_snapshot snapshot_example))) = [''Times'', ''Tags''] \<and>
   map fr_after (e_opaque_xml (e_core (prepare_entry_history_snapshot snapshot_example))) =
     [Some \<lparr>an_element_name = ''Times'', an_occurrence = 1\<rparr>]"
proof -
  have "''History'' \<in> set (er_node_order (e_raw_state (e_core snapshot_example)))"
    by (simp add: snapshot_example_def)
  from snapshot_keeps_slots [OF disjI2 [OF this]]
  have "e_history (prepare_entry_history_snapshot snapshot_example) = []"
    "er_node_order (e_raw_state (e_core (prepare_entry_history_snapshot snapshot_example))) = [''Times'', ''Tags'']"
    by (simp_all add: Let_def snapshot_example_def)
  moreover have "map fr_after (e_opaque_xml (e_core (prepare_entry_history_snapshot snapshot_example))) =
     [Some \<lparr>an_element_name = ''Times'', an_occurrence = 1\<rparr>]" by code_simp
  ultimately show ?thesis by simp
qed

end
