(* ===== verification/Crypto.thy ===== *)
theory Crypto
  imports Model
begin

unbundle bit_operations_syntax

text \<open>
  The crypto crate (\<^verbatim>\<open>crates/vaultkern-crypto/src/lib.rs\<close>): composite keys, key files, TOTP codes
  and key derivation, and \<open>TotpSpec::generate_at\<close> of the model crate. The primitives the crate
  calls (digests, HMAC, block ciphers, Argon2, hex, base64 and XML decoding) are third-party: they are
  the fields of \<open>crypto_deps\<close>. What the code relies on of them are named hypotheses.
\<close>

section \<open>Dependencies\<close>

datatype crypto_error = CryptoUnimplemented | EmptyCompositeKey | InvalidKeyFile
  | KeyFileIntegrityMismatch | InvalidKdfParameters | InvalidTotpParameters
  | InvalidCipherParameters | DecryptionFailed

datatype otp_algorithm = OtpSha1 | OtpSha256 | OtpSha512

datatype argon2_variant = Argon2dVariant | Argon2idVariant

text \<open>The part of \<open>xmltree::Element\<close> that key files use.\<close>

datatype xml_element = XmlElement
    (xe_name: string) (xe_attributes: "(string \<times> string) list") (xe_children: "xml_node list")
  and xml_node = NodeElement xml_element | NodeText string | NodeOther

record crypto_deps =
  dep_sha256 :: "bytes \<Rightarrow> bytes"
  dep_hmac :: "otp_algorithm \<Rightarrow> bytes \<Rightarrow> bytes \<Rightarrow> bytes option"
  dep_hex_lower :: "bytes \<Rightarrow> bytes option"
  dep_hex_upper :: "bytes \<Rightarrow> bytes option"
  dep_hex_upper_encode :: "bytes \<Rightarrow> string"
  dep_base64 :: "bytes \<Rightarrow> bytes option"
  dep_base32_nopad :: "bytes \<Rightarrow> bytes option"
  dep_parse_xml :: "bytes \<Rightarrow> xml_element option"
  dep_get_text :: "xml_element \<Rightarrow> string option"
  dep_aes256_block :: "bytes \<Rightarrow> bytes \<Rightarrow> bytes"
  dep_argon2 :: "argon2_variant \<Rightarrow> u32 \<Rightarrow> u32 \<Rightarrow> u32 \<Rightarrow> bytes \<Rightarrow> bytes \<Rightarrow> bytes option"

section \<open>Composite keys\<close>

datatype key_component = Password bytes | KeyFile bytes | OpaqueProviderBytes bytes

type_synonym composite_key = "key_component list"

definition add_password_bytes :: "bytes \<Rightarrow> composite_key \<Rightarrow> composite_key" where
  "add_password_bytes password key = key @ [Password password]"

definition add_password :: "string \<Rightarrow> composite_key \<Rightarrow> composite_key" where
  "add_password password key = add_password_bytes (text_bytes password) key"

definition add_key_file :: "bytes \<Rightarrow> composite_key \<Rightarrow> composite_key" where
  "add_key_file bs key = key @ [KeyFile bs]"

definition add_provider_bytes :: "bytes \<Rightarrow> composite_key \<Rightarrow> composite_key" where
  "add_provider_bytes bs key = key @ [OpaqueProviderBytes bs]"

definition component_stream :: "crypto_deps \<Rightarrow> key_component \<Rightarrow> bytes" where
  "component_stream deps c =
     (case c of Password password \<Rightarrow> dep_sha256 deps password
      | KeyFile bs \<Rightarrow> bs | OpaqueProviderBytes bs \<Rightarrow> bs)"

definition raw_key :: "crypto_deps \<Rightarrow> composite_key \<Rightarrow> crypto_error + bytes" where
  "raw_key deps key = Inr (dep_sha256 deps (concat (map (component_stream deps) key)))"

section \<open>Key files\<close>

definition is_ascii_whitespace :: "u8 \<Rightarrow> bool" where
  "is_ascii_whitespace b \<longleftrightarrow> b \<in> {0x09, 0x0A, 0x0C, 0x0D, 0x20}"

definition is_ascii_hexdigit :: "u8 \<Rightarrow> bool" where
  "is_ascii_hexdigit b \<longleftrightarrow> (0x30 \<le> b \<and> b \<le> 0x39) \<or> (0x41 \<le> b \<and> b \<le> 0x46) \<or> (0x61 \<le> b \<and> b \<le> 0x66)"

fun looks_like_xml :: "bytes \<Rightarrow> bool" where
  "looks_like_xml [] = False"
| "looks_like_xml (b # bs) = (if is_ascii_whitespace b then looks_like_xml bs else b = 0x3C)"

definition strip_utf8_bom :: "bytes \<Rightarrow> bytes" where
  "strip_utf8_bom bs = (if take 3 bs = [0xEF, 0xBB, 0xBF] then drop 3 bs else bs)"

definition zeroizing_array_32 :: "bytes \<Rightarrow> crypto_error + bytes" where
  "zeroizing_array_32 bs = (if length bs \<noteq> 32 then Inl InvalidKeyFile else Inr bs)"

definition or_else :: "'a option \<Rightarrow> 'a option \<Rightarrow> 'a option" where
  "or_else a b = (case a of Some x \<Rightarrow> Some x | None \<Rightarrow> b)"

definition parse_binary_key_file :: "crypto_deps \<Rightarrow> bytes \<Rightarrow> crypto_error + bytes" where
  "parse_binary_key_file deps bs =
     (if length bs = 32 then Inr bs
      else (let compact_hex = filter (\<lambda>b. \<not> is_ascii_whitespace b) bs in
        if length compact_hex = 64 \<and> list_all is_ascii_hexdigit compact_hex then
          and_then (ok_or (or_else (dep_hex_lower deps compact_hex) (dep_hex_upper deps compact_hex))
            InvalidKeyFile) zeroizing_array_32
        else Inr (dep_sha256 deps bs)))"

text \<open>\<open>char::is_whitespace\<close> on UTF-8: the length of the whitespace character at the front, or 0.\<close>

definition unicode_space :: "bytes \<Rightarrow> nat" where
  "unicode_space s =
     (if s \<noteq> [] \<and> (hd s \<in> {0x09, 0x0A, 0x0B, 0x0C, 0x0D, 0x20}) then 1
      else if take 2 s \<in> {[0xC2, 0x85], [0xC2, 0xA0]} then 2
      else if take 3 s \<in> {[0xE1, 0x9A, 0x80], [0xE2, 0x80, 0x80], [0xE2, 0x80, 0x81], [0xE2, 0x80, 0x82],
          [0xE2, 0x80, 0x83], [0xE2, 0x80, 0x84], [0xE2, 0x80, 0x85], [0xE2, 0x80, 0x86],
          [0xE2, 0x80, 0x87], [0xE2, 0x80, 0x88], [0xE2, 0x80, 0x89], [0xE2, 0x80, 0x8A],
          [0xE2, 0x80, 0xA8], [0xE2, 0x80, 0xA9], [0xE2, 0x80, 0xAF], [0xE2, 0x81, 0x9F],
          [0xE3, 0x80, 0x80]} then 3
      else 0)"

function remove_whitespace :: "bytes \<Rightarrow> bytes" where
  "remove_whitespace [] = []"
| "remove_whitespace (b # bs) =
     (if 0 < unicode_space (b # bs) then remove_whitespace (drop (unicode_space (b # bs)) (b # bs))
      else b # remove_whitespace bs)"
  by pat_completeness auto
termination by (relation "measure length") auto

function trim_start :: "bytes \<Rightarrow> bytes" where
  "trim_start [] = []"
| "trim_start (b # bs) =
     (if 0 < unicode_space (b # bs) then trim_start (drop (unicode_space (b # bs)) (b # bs))
      else b # bs)"
  by pat_completeness auto
termination by (relation "measure length") auto

text \<open>Trimming at the end: the shortest prefix followed by whitespace only.\<close>

fun trim_end :: "bytes \<Rightarrow> bytes" where
  "trim_end [] = []"
| "trim_end (b # bs) = (if trim_start (b # bs) = [] then [] else b # trim_end bs)"

definition trim :: "bytes \<Rightarrow> bytes" where
  "trim s = trim_end (trim_start s)"

fun find_child :: "string \<Rightarrow> xml_node list \<Rightarrow> xml_element option" where
  "find_child name [] = None"
| "find_child name (NodeElement child # nodes) =
     (if xe_name child = name then Some child else find_child name nodes)"
| "find_child name (node # nodes) = find_child name nodes"

fun child_element :: "xml_element \<Rightarrow> string list \<Rightarrow> xml_element option" where
  "child_element element [] = Some element"
| "child_element element (name # path) =
     (case find_child name (xe_children element) of
        None \<Rightarrow> None | Some child \<Rightarrow> child_element child path)"

definition child_text :: "crypto_deps \<Rightarrow> xml_element \<Rightarrow> string list \<Rightarrow> string option" where
  "child_text deps element path =
     (case child_element element path of None \<Rightarrow> None | Some child \<Rightarrow> dep_get_text deps child)"

definition parse_xml_key_file_v1 :: "crypto_deps \<Rightarrow> xml_element \<Rightarrow> crypto_error + bytes" where
  "parse_xml_key_file_v1 deps root =
     and_then (ok_or (child_text deps root [''Key'', ''Data'']) InvalidKeyFile) (\<lambda>data.
     and_then (ok_or (dep_base64 deps (trim (text_bytes data))) InvalidKeyFile) zeroizing_array_32)"

definition parse_xml_key_file_v2 :: "crypto_deps \<Rightarrow> xml_element \<Rightarrow> crypto_error + bytes" where
  "parse_xml_key_file_v2 deps root =
     and_then (ok_or (child_element root [''Key'', ''Data'']) InvalidKeyFile) (\<lambda>data_element.
     and_then (ok_or (dep_get_text deps data_element) InvalidKeyFile) (\<lambda>data.
     (let hex_text = remove_whitespace (text_bytes data) in
     and_then (ok_or (or_else (dep_hex_upper deps hex_text) (dep_hex_lower deps hex_text)) InvalidKeyFile)
       (\<lambda>decoded0.
     and_then (zeroizing_array_32 decoded0) (\<lambda>decoded.
     (case map_of (xe_attributes data_element) ''Hash'' of
        None \<Rightarrow> Inr decoded
      | Some expected_hash \<Rightarrow>
          if eq_ignore_ascii_case expected_hash
               (dep_hex_upper_encode deps (take 4 (dep_sha256 deps decoded)))
          then Inr decoded else Inl KeyFileIntegrityMismatch))))))"

definition parse_xml_key_file :: "crypto_deps \<Rightarrow> bytes \<Rightarrow> crypto_error + bytes" where
  "parse_xml_key_file deps bs =
     and_then (ok_or (dep_parse_xml deps bs) InvalidKeyFile) (\<lambda>root.
     if xe_name root \<noteq> ''KeyFile'' then Inl InvalidKeyFile
     else and_then (ok_or (child_text deps root [''Meta'', ''Version'']) InvalidKeyFile) (\<lambda>version.
       if starts_with ''1'' version then parse_xml_key_file_v1 deps root
       else if starts_with ''2'' version then parse_xml_key_file_v2 deps root
       else Inl InvalidKeyFile))"

definition parse_key_file_bytes :: "crypto_deps \<Rightarrow> bytes \<Rightarrow> crypto_error + bytes" where
  "parse_key_file_bytes deps bs =
     (let trimmed = strip_utf8_bom bs in
      if looks_like_xml trimmed then parse_xml_key_file deps trimmed
      else parse_binary_key_file deps trimmed)"

definition add_key_file_content :: "crypto_deps \<Rightarrow> bytes \<Rightarrow> composite_key \<Rightarrow> crypto_error + composite_key" where
  "add_key_file_content deps bs key =
     and_then (parse_key_file_bytes deps bs) (\<lambda>contribution. Inr (add_key_file contribution key))"

section \<open>TOTP codes\<close>

text \<open>Indexing a digest that is too short would panic.\<close>

datatype 'a outcome = Value 'a | Panic

definition totp_truncate :: "bytes \<Rightarrow> u32 outcome" where
  "totp_truncate digest =
     (if digest = [] then Panic
      else (let offset = unat (last digest AND 0x0f) in
        if offset + 3 < length digest then
          Value ((push_bit 24 (ucast (digest ! offset) AND 0x7f)) OR
                 (push_bit 16 (ucast (digest ! (offset + 1)))) OR
                 (push_bit 8 (ucast (digest ! (offset + 2)))) OR
                 ucast (digest ! (offset + 3)))
        else Panic))"

definition pad_zeros :: "nat \<Rightarrow> string \<Rightarrow> string" where
  "pad_zeros width s = replicate (width - length s) CHR ''0'' @ s"

definition generate_totp ::
    "crypto_deps \<Rightarrow> bytes \<Rightarrow> otp_algorithm \<Rightarrow> u32 \<Rightarrow> u64 \<Rightarrow> u64 \<Rightarrow> (crypto_error + string) outcome" where
  "generate_totp deps secret algorithm digits period_seconds unix_time =
     (if secret = [] \<or> \<not> (1 \<le> digits \<and> digits \<le> 9) \<or> period_seconds = 0
      then Value (Inl InvalidTotpParameters)
      else (let counter = unix_time div period_seconds in
        case dep_hmac deps algorithm secret (u64_be counter) of
          None \<Rightarrow> Value (Inl InvalidTotpParameters)
        | Some digest \<Rightarrow>
            (case totp_truncate digest of
               Panic \<Rightarrow> Panic
             | Value code_word \<Rightarrow>
                 (let modulus = 10 ^ unat digits in
                  Value (Inr (pad_zeros (unat digits) (show_word (code_word mod modulus))))))))"

text \<open>\<open>TotpSpec::generate_at\<close> of the model crate.\<close>

definition generate_at :: "crypto_deps \<Rightarrow> totp_spec \<Rightarrow> u64 \<Rightarrow> (model_error + string) outcome" where
  "generate_at deps totp unix_time =
     (let algorithm = (case tp_algorithm totp of
            Sha1 \<Rightarrow> OtpSha1 | Sha256 \<Rightarrow> OtpSha256 | Sha512 \<Rightarrow> OtpSha512);
          normalized = to_ascii_uppercase (filter (\<lambda>c. c \<noteq> CHR ''='') (tp_secret_base32 totp))
      in case dep_base32_nopad deps (text_bytes normalized) of
           None \<Rightarrow> Value (Inl Unimplemented)
         | Some secret \<Rightarrow>
             (case generate_totp deps secret algorithm (tp_digits totp) (tp_period_seconds totp) unix_time of
                Panic \<Rightarrow> Panic
              | Value (Inl _) \<Rightarrow> Value (Inl Unimplemented)
              | Value (Inr otp) \<Rightarrow> Value (Inr otp)))"

section \<open>Key derivation\<close>

datatype kdf_profile =
    AesKdbx3 u64 bytes
  | AesKdbx4 u64 bytes
  | Argon2d u32 u32 u32 bytes
  | Argon2id u32 u32 u32 bytes

text \<open>The loop \<open>for _ in 0..rounds\<close>.\<close>

fun repeat_encrypt :: "crypto_deps \<Rightarrow> bytes \<Rightarrow> nat \<Rightarrow> bytes \<times> bytes \<Rightarrow> bytes \<times> bytes" where
  "repeat_encrypt deps salt 0 lr = lr"
| "repeat_encrypt deps salt (Suc n) (l, r) =
     repeat_encrypt deps salt n (dep_aes256_block deps salt l, dep_aes256_block deps salt r)"

definition derive_aes_kdf :: "crypto_deps \<Rightarrow> bytes \<Rightarrow> u64 \<Rightarrow> bytes \<Rightarrow> crypto_error + bytes" where
  "derive_aes_kdf deps raw rounds salt =
     (if length raw \<noteq> 32 then Inl InvalidKdfParameters
      else (case repeat_encrypt deps salt (unat rounds) (take 16 raw, drop 16 raw) of
        (l, r) \<Rightarrow> Inr (dep_sha256 deps (l @ r))))"

definition derive_argon2 ::
    "crypto_deps \<Rightarrow> bytes \<Rightarrow> argon2_variant \<Rightarrow> u32 \<Rightarrow> u32 \<Rightarrow> u32 \<Rightarrow> bytes \<Rightarrow> crypto_error + bytes" where
  "derive_argon2 deps raw variant iterations memory_kib parallelism salt =
     and_then (ok_or (dep_argon2 deps variant iterations memory_kib parallelism raw salt)
       InvalidKdfParameters) (\<lambda>output.
       if length output \<noteq> 32 then Inl InvalidKdfParameters else Inr output)"

definition derive_key :: "crypto_deps \<Rightarrow> kdf_profile \<Rightarrow> bytes \<Rightarrow> crypto_error + bytes" where
  "derive_key deps profile raw =
     (case profile of
        AesKdbx3 rounds salt \<Rightarrow> derive_aes_kdf deps raw rounds salt
      | AesKdbx4 rounds salt \<Rightarrow> derive_aes_kdf deps raw rounds salt
      | Argon2d iterations memory_kib parallelism salt \<Rightarrow>
          derive_argon2 deps raw Argon2dVariant iterations memory_kib parallelism salt
      | Argon2id iterations memory_kib parallelism salt \<Rightarrow>
          derive_argon2 deps raw Argon2idVariant iterations memory_kib parallelism salt)"

text \<open>\<open>random_bytes\<close>: the UUIDs the generator draws are a stream.\<close>

function random_fill :: "(nat \<Rightarrow> uuid) \<Rightarrow> nat \<Rightarrow> nat \<Rightarrow> bytes \<Rightarrow> bytes" where
  "random_fill draw i n acc =
     (if length acc < n then random_fill draw (Suc i) n (acc @ uuid_bytes (draw i)) else acc)"
  by pat_completeness auto
termination by (relation "measure (\<lambda>(draw, i, n, acc). n - length acc)") auto

definition random_bytes :: "(nat \<Rightarrow> uuid) \<Rightarrow> nat \<Rightarrow> bytes" where
  "random_bytes draw n = take n (random_fill draw 0 n [])"

section \<open>Truncation is the RFC 4226 one\<close>

text \<open>Dynamic truncation in arithmetic: four bytes at the offset, big-endian, without the top bit.\<close>

definition rfc4226_truncate :: "bytes \<Rightarrow> int" where
  "rfc4226_truncate digest =
     (let offset = unat (last digest mod 16) in
      le_value (rev (take 4 (drop offset digest))) mod 2 ^ 31)"

lemma or_push8: "0 \<le> b \<Longrightarrow> b < 256 \<Longrightarrow> push_bit 8 (a::int) OR b = 256 * a + b"
proof -
  assume "0 \<le> b" "b < 256"
  then have "take_bit 8 b = b" by (simp add: take_bit_int_eq_self)
  then have "push_bit 8 a OR b = concat_bit 8 b a" by (simp add: concat_bit_def ac_simps)
  also have "\<dots> = push_bit 8 a + b"
    using \<open>take_bit 8 b = b\<close> by (simp add: concat_bit_eq)
  finally show ?thesis by (simp add: push_bit_eq_mult)
qed

lemma uint_byte_word: "uint (ucast (b :: u8) :: u32) = uint b"
  by (simp add: unsigned_ucast_eq take_bit_int_eq_self order_less_le_trans [OF uint_lt2p])

lemma uint_push_byte:
  assumes "n \<le> 24" and "uint w < 256"
  shows "uint (push_bit n w :: u32) = push_bit n (uint w)"
proof -
  have "(2::int) ^ n \<le> 2 ^ 24" using assms(1) by (intro power_increasing) simp_all
  then have "uint w * 2 ^ n < 256 * 2 ^ 24"
    using assms(2) by (intro mult_less_le_imp_less) simp_all
  then show ?thesis
    unfolding unsigned_push_bit_eq by (simp add: push_bit_eq_mult take_bit_int_eq_self)
qed

lemma four_bytes:
  fixes a b c d :: u8
  shows "uint ((push_bit 24 (ucast a AND 0x7f)) OR (push_bit 16 (ucast b)) OR (push_bit 8 (ucast c)) OR
      ucast d :: u32) = (((uint a mod 128) * 256 + uint b) * 256 + uint c) * 256 + uint d"
proof -
  have bound: "0 \<le> uint x" "uint x < 256" for x :: u8
    using uint_lt2p [of x] by simp_all
  have a: "uint (ucast a AND 0x7f :: u32) = uint a mod 128"
  proof -
    have "x AND 127 = x mod 128" for x :: int
      using take_bit_eq_mask [of 7 x] by (simp add: take_bit_eq_mod mask_eq_exp_minus_1)
    then show ?thesis by (simp add: unsigned_and_eq uint_byte_word)
  qed
  have "uint (push_bit 24 (ucast a AND 0x7f) :: u32) = push_bit 24 (uint a mod 128)"
    by (subst uint_push_byte) (simp_all add: a)
  then have "uint ((push_bit 24 (ucast a AND 0x7f)) OR (push_bit 16 (ucast b)) OR (push_bit 8 (ucast c)) OR
      ucast d :: u32) =
    push_bit 8 (push_bit 8 (push_bit 8 (uint a mod 128) OR uint b) OR uint c) OR uint d"
    by (simp add: unsigned_or_eq uint_push_byte uint_byte_word bound push_bit_or push_bit_push_bit ac_simps)
  then show ?thesis by (simp add: or_push8 bound)
qed

lemma totp_truncate_rfc:
  assumes "20 \<le> length digest"
  shows "\<exists>w. totp_truncate digest = Value w \<and> uint w = rfc4226_truncate digest"
proof -
  let ?o = "unat (last digest AND 0x0f)"
  have "last digest AND 0x0f = take_bit 4 (last digest)"
    using take_bit_eq_mask [of 4 "last digest"] by (simp add: mask_eq_exp_minus_1)
  then have o: "last digest AND 0x0f = last digest mod 16" by (simp add: take_bit_eq_mod)
  have "last digest mod 16 < 16" by (rule word_mod_less_divisor) simp
  then have "?o < 16" unfolding o by (simp add: word_less_nat_alt)
  with assms have len: "?o + 3 < length digest" by linarith
  have four: "take 4 (drop ?o digest) = [digest ! ?o, digest ! (?o + 1), digest ! (?o + 2), digest ! (?o + 3)]"
    using len by (intro nth_equalityI) (auto simp: less_Suc_eq numeral_eq_Suc)
  have "rfc4226_truncate digest =
      (((uint (digest ! ?o) * 256 + uint (digest ! (?o + 1))) * 256 + uint (digest ! (?o + 2))) * 256 +
        uint (digest ! (?o + 3))) mod 2 ^ 31"
    unfolding rfc4226_truncate_def o [symmetric] Let_def four by (simp add: algebra_simps)
  moreover have "(((x * 256 + y) * 256 + z) * 256 + t) mod 2 ^ 31 =
      (((x mod 128) * 256 + y) * 256 + z) * 256 + t"
    if "0 \<le> y" "y < 256" "0 \<le> z" "z < 256" "0 \<le> t" "t < 256" for x y z t :: int
  proof -
    let ?w = "(((x mod 128) * 256 + y) * 256 + z) * 256 + t"
    have w: "0 \<le> ?w" "?w < 2 ^ 31"
      using that pos_mod_bound [of 128 x] pos_mod_sign [of 128 x] by simp_all
    have "x = x mod 128 + 128 * (x div 128)" by simp
    then have "((x * 256 + y) * 256 + z) * 256 + t = ?w + 2 ^ 31 * (x div 128)"
    proof -
      have "x * 16777216 = (x mod 128) * 16777216 + (x div 128) * 2147483648"
        using \<open>x = x mod 128 + 128 * (x div 128)\<close> by linarith
      then show ?thesis by (simp add: distrib_right)
    qed
    then have "(((x * 256 + y) * 256 + z) * 256 + t) mod 2 ^ 31 = ?w mod 2 ^ 31"
      by (simp only: mod_mult_self2)
    also have "\<dots> = ?w" by (rule mod_pos_pos_trivial [OF w])
    finally show ?thesis .
  qed
  moreover have "0 \<le> uint b" "uint b < 256" for b :: u8
    using uint_lt2p [of b] by simp_all
  ultimately have "rfc4226_truncate digest = (((uint (digest ! ?o) mod 128) * 256 +
      uint (digest ! (?o + 1))) * 256 + uint (digest ! (?o + 2))) * 256 + uint (digest ! (?o + 3))"
    by simp
  moreover have "digest \<noteq> []" using assms by auto
  ultimately show ?thesis
    using len four_bytes [of "digest ! ?o" "digest ! (?o + 1)" "digest ! (?o + 2)" "digest ! (?o + 3)"]
    by (simp add: totp_truncate_def Let_def)
qed

lemma length_show_dec: "0 \<le> x \<Longrightarrow> x < 10 ^ n \<Longrightarrow> 0 < n \<Longrightarrow> length (show_dec x) \<le> n"
proof (induction x arbitrary: n rule: show_dec.induct)
  case (1 x)
  show ?case
  proof (cases "x < 10")
    case False
    with "1.prems" obtain m where m: "n = Suc m" "0 < m"
      by (cases n) (auto, metis gr0I power_0 mult.right_neutral)
    with "1.prems" have "x div 10 < 10 ^ m" by simp
    with 1 m False have "length (show_dec (x div 10)) \<le> m" by simp
    with m False show ?thesis by (simp add: show_dec.simps [of x])
  qed (use "1.prems" in \<open>simp add: show_dec.simps [of x]\<close>)
qed

lemma padded_digits:
  assumes "0 \<le> x" and "x < 10 ^ n" and "0 < n"
  shows "length (pad_zeros n (show_dec x)) = n \<and>
    (\<forall>c \<in> set (pad_zeros n (show_dec x)). 48 \<le> code c \<and> code c \<le> 57)"
proof -
  have "48 \<le> code c \<and> code c \<le> 57" if "c \<in> set (show_dec x)" for c
  proof -
    have "48 \<le> (of_char c :: int)" "(of_char c :: int) \<le> 57"
      using show_dec_digits [OF assms(1) that] by simp_all
    moreover have "(of_char c :: int) = int (code c)" by (simp only: of_nat_of_char)
    ultimately show ?thesis by linarith
  qed
  then show ?thesis
    using length_show_dec [OF assms] by (auto simp: pad_zeros_def)
qed

lemma power_ten_word:
  assumes "1 \<le> n" and "n \<le> 9"
  shows "uint (10 ^ n :: u32) = 10 ^ n"
proof -
  from assms have "n \<in> {1, 2, 3, 4, 5, 6, 7, 8, 9}" by auto
  then show ?thesis by auto
qed

section \<open>Key files and hexadecimal case\<close>

definition hex_lower_byte :: "u8 \<Rightarrow> bool" where
  "hex_lower_byte b \<longleftrightarrow> (0x30 \<le> b \<and> b \<le> 0x39) \<or> (0x61 \<le> b \<and> b \<le> 0x66)"

definition hex_upper_byte :: "u8 \<Rightarrow> bool" where
  "hex_upper_byte b \<longleftrightarrow> (0x30 \<le> b \<and> b \<le> 0x39) \<or> (0x41 \<le> b \<and> b \<le> 0x46)"

text \<open>The documented behaviour of \<open>HEXLOWER\<close> and \<open>HEXUPPER\<close>: strict in the case of letters, and two
  digits to a byte.\<close>

definition strict_hex :: "crypto_deps \<Rightarrow> bool" where
  "strict_hex deps \<longleftrightarrow>
     (\<forall>s. (case dep_hex_lower deps s of
         None \<Rightarrow> odd (length s) \<or> \<not> list_all hex_lower_byte s
       | Some d \<Rightarrow> even (length s) \<and> list_all hex_lower_byte s \<and> 2 * length d = length s) \<and>
       (case dep_hex_upper deps s of
         None \<Rightarrow> odd (length s) \<or> \<not> list_all hex_upper_byte s
       | Some d \<Rightarrow> even (length s) \<and> list_all hex_upper_byte s \<and> 2 * length d = length s))"

text \<open>Digests are 32 bytes.\<close>

definition sha256_sized :: "crypto_deps \<Rightarrow> bool" where
  "sha256_sized deps \<longleftrightarrow> (\<forall>s. length (dep_sha256 deps s) = 32)"

lemma zeroizing_array_32_length: "zeroizing_array_32 bs = Inr k \<Longrightarrow> length k = 32"
  by (auto simp: zeroizing_array_32_def split: if_splits)

lemma parse_binary_length:
  "sha256_sized deps \<Longrightarrow> parse_binary_key_file deps bs = Inr k \<Longrightarrow> length k = 32"
  by (auto simp: parse_binary_key_file_def sha256_sized_def Let_def and_then_eq_Inr
      dest: zeroizing_array_32_length split: if_splits)

lemma parse_xml_length: "parse_xml_key_file deps bs = Inr k \<Longrightarrow> length k = 32"
  by (auto simp: parse_xml_key_file_def parse_xml_key_file_v1_def parse_xml_key_file_v2_def Let_def
      and_then_eq_Inr dest: zeroizing_array_32_length split: if_splits option.splits)

lemma hex_bytes_not_space: "is_ascii_hexdigit b \<Longrightarrow> \<not> is_ascii_whitespace b \<and> b \<noteq> 0x3C"
  by (auto simp: is_ascii_hexdigit_def is_ascii_whitespace_def)

section \<open>Properties\<close>

text \<open>C22. Generated codes. When HMAC digests have at least 20 bytes (SHA-1, the shortest, has 20), code
  generation never indexes out of the digest; it rejects exactly an empty secret, a digit count
  outside 1..9, a zero period, or a key the HMAC refuses, and otherwise returns exactly
  \<open>digits\<close> decimal digits spelling the RFC 4226 truncation modulo \<open>10 ^ digits\<close> of the digest of
  the time step.\<close>

theorem generated_code_is_rfc:
  assumes "\<forall>alg key msg d. dep_hmac deps alg key msg = Some d \<longrightarrow> 20 \<le> length d"
  shows "generate_totp deps secret alg digits period t =
      (if secret = [] \<or> digits = 0 \<or> 9 < digits \<or> period = 0 then Value (Inl InvalidTotpParameters)
       else case dep_hmac deps alg secret (u64_be (t div period)) of
           None \<Rightarrow> Value (Inl InvalidTotpParameters)
         | Some d \<Rightarrow> Value (Inr (pad_zeros (unat digits) (show_dec (rfc4226_truncate d mod 10 ^ unat digits))))) \<and>
    (\<forall>s. generate_totp deps secret alg digits period t = Value (Inr s) \<longrightarrow>
       length s = unat digits \<and> (\<forall>c \<in> set s. 48 \<le> code c \<and> code c \<le> 57))"
proof -
  let ?n = "unat digits"
  have guard: "(1 \<le> digits \<and> digits \<le> 9) = (\<not> (digits = 0 \<or> 9 < digits))"
    by (auto simp: word_le_nat_alt word_less_nat_alt unat_eq_zero Suc_le_eq unat_gt_0)
  have eq: "generate_totp deps secret alg digits period t =
      (if secret = [] \<or> digits = 0 \<or> 9 < digits \<or> period = 0 then Value (Inl InvalidTotpParameters)
       else case dep_hmac deps alg secret (u64_be (t div period)) of
           None \<Rightarrow> Value (Inl InvalidTotpParameters)
         | Some d \<Rightarrow> Value (Inr (pad_zeros ?n (show_dec (rfc4226_truncate d mod 10 ^ ?n)))))"
  proof (cases "secret = [] \<or> digits = 0 \<or> 9 < digits \<or> period = 0")
    case False
    then have "1 \<le> ?n" "?n \<le> 9" using guard by (simp_all add: word_le_nat_alt)
    note modulus = power_ten_word [OF this]
    show ?thesis
    proof (cases "dep_hmac deps alg secret (u64_be (t div period))")
      case (Some d)
      with assms obtain w where w: "totp_truncate d = Value w" "uint w = rfc4226_truncate d"
        using totp_truncate_rfc by blast
      have "show_word (w mod 10 ^ ?n) = show_dec (rfc4226_truncate d mod 10 ^ ?n)"
        by (simp add: show_word_def uint_mod modulus w)
      with False Some w(1) guard show ?thesis by (simp add: generate_totp_def Let_def)
    qed (use False guard in \<open>simp add: generate_totp_def Let_def\<close>)
  qed (use guard in \<open>auto simp: generate_totp_def\<close>)
  have "length s = ?n \<and> (\<forall>c \<in> set s. 48 \<le> code c \<and> code c \<le> 57)"
    if s: "generate_totp deps secret alg digits period t = Value (Inr s)" for s
  proof -
    from s eq have "0 < ?n" by (auto simp: unat_gt_0 split: if_splits)
    moreover from s eq obtain d where "s = pad_zeros ?n (show_dec (rfc4226_truncate d mod 10 ^ ?n))"
      by (auto split: if_splits option.splits)
    ultimately show ?thesis
      using padded_digits [of "rfc4226_truncate d mod 10 ^ ?n" ?n] by simp
  qed
  with eq show ?thesis by blast
qed

text \<open>A dependency record for examples: strict hexadecimal decoders, a digest that spells the length,
  and the HMAC digest of the worked example of RFC 4226.\<close>

definition hex_value :: "u8 \<Rightarrow> u8" where
  "hex_value b = (if b \<le> 0x39 then b - 0x30 else if b \<le> 0x46 then b - 0x37 else b - 0x57)"

fun hex_pairs :: "(u8 \<Rightarrow> bool) \<Rightarrow> bytes \<Rightarrow> bytes option" where
  "hex_pairs ok [] = Some []"
| "hex_pairs ok [b] = None"
| "hex_pairs ok (a # b # s) =
     (if ok a \<and> ok b then map_option (\<lambda>d. (16 * hex_value a + hex_value b) # d) (hex_pairs ok s) else None)"

definition example_deps :: crypto_deps where
  "example_deps =
     \<lparr>dep_sha256 = \<lambda>s. of_nat (length s) # replicate 31 0,
      dep_hmac = \<lambda>alg key msg. Some [0x1f, 0x86, 0x98, 0x69, 0x0e, 0x02, 0xca, 0x16, 0x61, 0x85,
        0x50, 0xef, 0x7f, 0x19, 0xda, 0x8e, 0x94, 0x5b, 0x55, 0x5a],
      dep_hex_lower = hex_pairs hex_lower_byte, dep_hex_upper = hex_pairs hex_upper_byte,
      dep_hex_upper_encode = \<lambda>s. [], dep_base64 = \<lambda>s. None, dep_base32_nopad = \<lambda>s. Some s,
      dep_parse_xml = \<lambda>s. None, dep_get_text = \<lambda>e. None, dep_aes256_block = \<lambda>k b. b,
      dep_argon2 = \<lambda>v i m p r s. None\<rparr>"

lemma hex_pairs_spec:
  "case hex_pairs ok s of
     None \<Rightarrow> odd (length s) \<or> \<not> list_all ok s
   | Some d \<Rightarrow> even (length s) \<and> list_all ok s \<and> 2 * length d = length s"
  by (induction ok s rule: hex_pairs.induct) (auto split: option.splits)

lemma example_deps_strict: "strict_hex example_deps"
  using hex_pairs_spec by (simp add: strict_hex_def example_deps_def)

lemma example_deps_sized: "sha256_sized example_deps"
  by (simp add: sha256_sized_def example_deps_def)

lemma generated_code_is_rfc_witness:
  "generate_totp example_deps [1] OtpSha1 6 30 59 = Value (Inr ''872921'')"
proof -
  have h: "\<forall>alg key msg d. dep_hmac example_deps alg key msg = Some d \<longrightarrow> 20 \<le> length d"
    by (auto simp: example_deps_def)
  have t: "rfc4226_truncate [0x1f, 0x86, 0x98, 0x69, 0x0e, 0x02, 0xca, 0x16, 0x61, 0x85,
        0x50, 0xef, 0x7f, 0x19, 0xda, 0x8e, 0x94, 0x5b, 0x55, 0x5a] = 1357872921"
    by (simp add: rfc4226_truncate_def)
  have "pad_zeros 6 (show_dec 872921) = ''872921''" by code_simp
  then show ?thesis
    unfolding generated_code_is_rfc [OF h, THEN conjunct1] by (simp add: example_deps_def t)
qed

text \<open>Every key-file contribution is exactly 32 bytes, whichever of the four formats was read.\<close>

theorem key_file_is_32_bytes:
  assumes "sha256_sized deps" and "parse_key_file_bytes deps bs = Inr k"
  shows "length k = 32"
  using assms
  by (auto simp: parse_key_file_bytes_def Let_def dest: parse_binary_length parse_xml_length split: if_splits)

lemma key_file_is_32_bytes_witness:
  "length (dep_sha256 example_deps [1, 2, 3]) = 32"
proof -
  have "parse_key_file_bytes example_deps [1, 2, 3] = Inr (dep_sha256 example_deps [1, 2, 3])"
    by (simp add: parse_key_file_bytes_def parse_binary_key_file_def strip_utf8_bom_def
        is_ascii_whitespace_def)
  with example_deps_sized show ?thesis by (rule key_file_is_32_bytes)
qed

text \<open>A key file of 64 hexadecimal digits (spaces aside) is a hexadecimal key when all its
  letters have one case. With letters of both cases neither decoder accepts it, and the parser
  reports an invalid key file although it has just recognised the digits; it does not fall back to
  the digest either.\<close>

theorem hex_key_file_case:
  assumes "strict_hex deps" and "length bs \<noteq> 32"
    and "hex = filter (\<lambda>b. \<not> is_ascii_whitespace b) bs"
    and "length hex = 64" and "list_all is_ascii_hexdigit hex"
  shows "parse_binary_key_file deps bs =
    (if list_all hex_lower_byte hex then Inr (the (dep_hex_lower deps hex))
     else if list_all hex_upper_byte hex then Inr (the (dep_hex_upper deps hex))
     else Inl InvalidKeyFile)"
proof -
  have lower: "case dep_hex_lower deps hex of
       None \<Rightarrow> \<not> list_all hex_lower_byte hex | Some d \<Rightarrow> list_all hex_lower_byte hex \<and> length d = 32"
    and upper: "case dep_hex_upper deps hex of
       None \<Rightarrow> \<not> list_all hex_upper_byte hex | Some d \<Rightarrow> list_all hex_upper_byte hex \<and> length d = 32"
    using assms(1) [unfolded strict_hex_def, rule_format, of hex] assms(4)
    by (simp_all split: option.splits)
  have "parse_binary_key_file deps bs =
      and_then (ok_or (or_else (dep_hex_lower deps hex) (dep_hex_upper deps hex)) InvalidKeyFile) zeroizing_array_32"
    using assms(2,4,5) by (simp add: parse_binary_key_file_def Let_def flip: assms(3))
  then show ?thesis
    using lower upper by (auto simp: or_else_def zeroizing_array_32_def split: option.splits)
qed

lemma hex_key_file_case_witness:
  "parse_binary_key_file example_deps (replicate 32 0x61 @ replicate 32 0x41) = Inl InvalidKeyFile"
proof -
  let ?bs = "replicate 32 0x61 @ replicate 32 0x41 :: bytes"
  have hex: "?bs = filter (\<lambda>b. \<not> is_ascii_whitespace b) ?bs"
    by (simp add: is_ascii_whitespace_def filter_replicate)
  have all: "list_all is_ascii_hexdigit ?bs" "\<not> list_all hex_lower_byte ?bs" "\<not> list_all hex_upper_byte ?bs"
    by (simp_all add: list_all_iff is_ascii_hexdigit_def hex_lower_byte_def hex_upper_byte_def)
  show ?thesis
    using hex_key_file_case [OF example_deps_strict _ hex _ all(1)] all(2,3) by simp
qed

lemma concat_blocks_inj:
  "concat xs = concat ys \<Longrightarrow> \<forall>s \<in> set xs \<union> set ys. length s = Suc n \<Longrightarrow> xs = ys"
proof (induction xs arbitrary: ys)
  case Nil
  then show ?case by (cases ys) auto
next
  case (Cons x xs)
  then have "concat ys \<noteq> []" by (metis append_is_Nil_conv concat.simps(2) length_0_conv list.set_intros(1) UnI1 nat.distinct(1))
  then obtain y ys' where ys: "ys = y # ys'" by (cases ys) auto
  with Cons.prems have "x = y \<and> concat xs = concat ys'" by (simp add: append_eq_append_conv)
  with Cons ys show ?case by simp
qed

text \<open>What a composite key hashes on the way to its raw key, and when two components contribute the same.\<close>

definition hashed_inputs :: "crypto_deps \<Rightarrow> composite_key \<Rightarrow> bytes set" where
  "hashed_inputs deps key = {p. Password p \<in> set key} \<union> {concat (map (component_stream deps) key)}"

definition same_contribution :: "crypto_deps \<Rightarrow> key_component \<Rightarrow> key_component \<Rightarrow> bool" where
  "same_contribution deps c c' \<longleftrightarrow>
     (case (c, c') of (Password p, Password q) \<Rightarrow> p = q | _ \<Rightarrow> component_stream deps c = component_stream deps c')"

lemma same_contribution_stream:
  assumes "inj_on (dep_sha256 deps) ({p. Password p \<in> {c, c'}} \<union> A)"
  shows "same_contribution deps c c' \<longleftrightarrow> component_stream deps c = component_stream deps c'"
  using assms by (cases c; cases c') (auto simp: same_contribution_def component_stream_def dest: inj_onD)

text \<open>C25. Composite keys have the same raw key exactly when they consist of the same contributions in the same order,
  as long as SHA-256 does not collide on the very inputs these two keys hash: the passwords of the two keys and the two
  concatenations of their contributions. Two passwords contribute the same when they are equal; a key file or a provider
  contributes its bytes, which are assumed to be 32, as those of a parsed key file are. So no component is left out, cut
  off, or moved across the border to the next one.\<close>

theorem raw_key_determines_contributions:
  assumes sized: "sha256_sized deps"
    and "\<forall>c \<in> set key \<union> set key'. case c of Password _ \<Rightarrow> True
      | KeyFile bs \<Rightarrow> length bs = 32 | OpaqueProviderBytes bs \<Rightarrow> length bs = 32"
    and inj: "inj_on (dep_sha256 deps) (hashed_inputs deps key \<union> hashed_inputs deps key')"
  shows "raw_key deps key = raw_key deps key' \<longleftrightarrow> list_all2 (same_contribution deps) key key'"
proof -
  let ?s = "component_stream deps"
  have sizes: "\<forall>s \<in> set (map ?s key) \<union> set (map ?s key'). length s = Suc 31"
  proof
    fix s assume "s \<in> set (map ?s key) \<union> set (map ?s key')"
    then obtain c where c: "c \<in> set key \<union> set key'" "s = ?s c" by auto
    from c(1) assms(2) have "case c of Password _ \<Rightarrow> True
      | KeyFile bs \<Rightarrow> length bs = 32 | OpaqueProviderBytes bs \<Rightarrow> length bs = 32" by (rule bspec [rotated])
    with c(2) sized show "length s = Suc 31" by (cases c) (simp_all add: component_stream_def sha256_sized_def)
  qed
  have "raw_key deps key = raw_key deps key' \<longleftrightarrow> concat (map ?s key) = concat (map ?s key')"
    using inj_on_eq_iff [OF inj, of "concat (map ?s key)" "concat (map ?s key')"] by (simp add: raw_key_def hashed_inputs_def)
  also have "\<dots> \<longleftrightarrow> map ?s key = map ?s key'" using concat_blocks_inj [OF _ sizes] by auto
  also have "\<dots> \<longleftrightarrow> list_all2 (\<lambda>c c'. ?s c = ?s c') key key'" by (simp add: list_all2_map1 list_all2_map2 flip: list.rel_eq)
  also have "\<dots> \<longleftrightarrow> list_all2 (same_contribution deps) key key'"
  proof (rule list.rel_cong [OF refl refl])
    fix c c' assume "c \<in> set key" "c' \<in> set key'"
    then have "{p. Password p \<in> {c, c'}} \<union> {} \<subseteq> hashed_inputs deps key \<union> hashed_inputs deps key'"
      by (auto simp: hashed_inputs_def)
    from same_contribution_stream [OF inj_on_subset [OF inj this]]
    show "(?s c = ?s c') = same_contribution deps c c'" by simp
  qed
  finally show ?thesis .
qed

definition summing_deps :: crypto_deps where
  "summing_deps = example_deps\<lparr>dep_sha256 := \<lambda>s. of_nat (length s) # sum_list s # replicate 30 0\<rparr>"

lemma raw_key_determines_contributions_witness:
  "raw_key summing_deps (add_password ''a'' []) \<noteq> raw_key summing_deps (add_password ''bb'' [])"
proof -
  have "sha256_sized summing_deps" by (simp add: sha256_sized_def summing_deps_def)
  moreover have "inj_on (dep_sha256 summing_deps)
      (hashed_inputs summing_deps (add_password ''a'' []) \<union> hashed_inputs summing_deps (add_password ''bb'' []))"
    by (simp add: hashed_inputs_def summing_deps_def add_password_def add_password_bytes_def component_stream_def
        text_bytes_def inj_on_def sum_list_replicate)
  ultimately show ?thesis
    using raw_key_determines_contributions [of summing_deps "add_password ''a'' []" "add_password ''bb'' []"]
    by (simp add: add_password_def add_password_bytes_def same_contribution_def text_bytes_def)
qed

end
