(* ===== verification/Slots.thy ===== *)
theory Slots
  imports Snapshot
begin

text \<open>
  Tracked node slots (\<^verbatim>\<open>crates/vaultkern-model/src/three_way_patch.rs\<close>, \<open>retain_tracked_slots\<close>): the
  XML node order of an entry or a group names its String, Binary, Entry and Group nodes in the order
  of a parallel list of identities. After a merge the slots of identities that are gone are removed.
  The lemmas show that both lists stay in step and that anchored fragments keep their place.
\<close>

section \<open>Retaining slots\<close>

record 'a slot_state =
  sl_nodes :: "string list"
  sl_tracked :: "'a list"
  sl_replacements :: "anchor option list"
  sl_retained :: "'a list"
  sl_counts :: "(string, nat) btree"
  sl_last_anchor :: "anchor option"
  sl_slot :: nat

definition slot_start :: "'a slot_state" where
  "slot_start = \<lparr>sl_nodes = [], sl_tracked = [], sl_replacements = [], sl_retained = [],
     sl_counts = [], sl_last_anchor = None, sl_slot = 0\<rparr>"

text \<open>\<open>node_order.push(name)\<close>, the occurrence count and \<open>last_anchor\<close>.\<close>

definition push_node :: "string \<Rightarrow> 'a slot_state \<Rightarrow> 'a slot_state" where
  "push_node name st =
     (let occurrence = Suc (case bt_get (sl_counts st) name of Some n \<Rightarrow> n | None \<Rightarrow> 0) in
      st\<lparr>sl_nodes := sl_nodes st @ [name], sl_counts := bt_insert name occurrence (sl_counts st),
         sl_last_anchor := Some \<lparr>an_element_name = name, an_occurrence = occurrence\<rparr>\<rparr>)"

definition slot_step ::
    "string \<Rightarrow> 'a::linorder list \<Rightarrow> 'a list \<Rightarrow> 'a slot_state \<Rightarrow> string \<Rightarrow> 'a slot_state" where
  "slot_step element original_tracked current st name =
     (if name = element then
        (let index = sl_slot st;
             st1 = st\<lparr>sl_slot := Suc index\<rparr>;
             st2 = (if index < length original_tracked \<and> original_tracked ! index \<in> set current \<and>
                       original_tracked ! index \<notin> set (sl_retained st1)
                    then (push_node name st1)\<lparr>
                           sl_tracked := sl_tracked st1 @ [original_tracked ! index],
                           sl_retained := bs_insert (original_tracked ! index) (sl_retained st1)\<rparr>
                    else st1)
         in st2\<lparr>sl_replacements := sl_replacements st2 @ [sl_last_anchor st2]\<rparr>)
      else push_node name st)"

definition slot_run :: "string \<Rightarrow> 'a::linorder list \<Rightarrow> 'a list \<Rightarrow> string list \<Rightarrow> 'a slot_state" where
  "slot_run element original_tracked current nodes =
     foldl (slot_step element original_tracked current) slot_start nodes"

definition retain_tracked_slots ::
    "string \<Rightarrow> string list \<Rightarrow> 'a::linorder list \<Rightarrow> 'a list \<Rightarrow> fragment list \<Rightarrow> custom_data_block list \<Rightarrow>
     string list \<times> 'a list \<times> fragment list \<times> custom_data_block list" where
  "retain_tracked_slots element node_order tracked current opaque_xml blocks =
     (let st = slot_run element tracked current node_order;
          retarget = retarget_removed_anchor element (sl_replacements st)
      in (sl_nodes st, sl_tracked st,
          map (\<lambda>fragment. fragment\<lparr>fr_after := retarget (fr_after fragment)\<rparr>) opaque_xml,
          map (\<lambda>block. block\<lparr>cb_after := retarget (cb_after block)\<rparr>) blocks))"

section \<open>The run\<close>

text \<open>The anchor after the last of some nodes.\<close>

definition end_anchor :: "string list \<Rightarrow> anchor option" where
  "end_anchor nodes =
     (if nodes = [] then None
      else Some \<lparr>an_element_name = last nodes, an_occurrence = count_list nodes (last nodes)\<rparr>)"

lemma end_anchor_slot: "anchor_slot (nodes @ rest) (end_anchor nodes) = Some (length nodes)"
proof (cases nodes rule: rev_cases)
  case (snoc ys x)
  then have "nth_occurrence x (Suc (count_list ys x)) (ys @ x # rest) = Some (length ys)"
    by (subst nth_occurrence_iff) (simp_all add: nth_append)
  with snoc show ?thesis by (simp add: end_anchor_def anchor_slot_def)
qed (simp add: end_anchor_def anchor_slot_def)

definition slot_inv :: "string \<Rightarrow> 'a::linorder list \<Rightarrow> 'a list \<Rightarrow> string list \<Rightarrow> 'a slot_state \<Rightarrow> bool" where
  "slot_inv element tracked current nodes st \<longleftrightarrow>
     sl_last_anchor st = end_anchor (sl_nodes st) \<and>
     (\<forall>n. (case bt_get (sl_counts st) n of Some c \<Rightarrow> c | None \<Rightarrow> 0) = count_list (sl_nodes st) n) \<and>
     sl_slot st = count_list nodes element \<and> length (sl_replacements st) = sl_slot st \<and>
     set (sl_retained st) = set (sl_tracked st) \<and> distinct (sl_tracked st) \<and>
     count_list (sl_nodes st) element = length (sl_tracked st) \<and>
     set (sl_tracked st) = set (take (sl_slot st) tracked) \<inter> set current \<and>
     filter (\<lambda>n. n \<noteq> element) (sl_nodes st) = filter (\<lambda>n. n \<noteq> element) nodes"

lemma slot_inv_push:
  assumes "slot_inv element tracked current nodes st" and "name \<noteq> element"
  shows "slot_inv element tracked current (nodes @ [name]) (push_node name st)"
  using assms by (simp add: slot_inv_def push_node_def Let_def end_anchor_def)

lemma slot_inv_step:
  assumes inv: "slot_inv element tracked current nodes st"
  shows "slot_inv element tracked current (nodes @ [name]) (slot_step element tracked current st name)"
proof (cases "name = element")
  case False
  then show ?thesis using slot_inv_push [OF inv] by (simp add: slot_step_def)
next
  case True
  let ?i = "sl_slot st"
  have take: "set (take (Suc ?i) tracked) =
      (if ?i < length tracked then insert (tracked ! ?i) (set (take ?i tracked)) else set (take ?i tracked))"
    by (simp add: take_Suc_conv_app_nth)
  show ?thesis
    using inv True take
    by (auto simp: slot_step_def Let_def slot_inv_def push_node_def end_anchor_def)
qed

lemma slot_run_inv: "slot_inv element tracked current nodes (slot_run element tracked current nodes)"
proof (induction nodes rule: rev_induct)
  case Nil
  then show ?case by (simp add: slot_inv_def slot_run_def slot_start_def end_anchor_def)
next
  case (snoc name nodes)
  from slot_inv_step [OF this] show ?case by (simp add: slot_run_def)
qed

lemma slot_run_append:
  "\<exists>more repl. sl_nodes (slot_run element tracked current (xs @ ys)) =
       sl_nodes (slot_run element tracked current xs) @ more \<and>
     sl_replacements (slot_run element tracked current (xs @ ys)) =
       sl_replacements (slot_run element tracked current xs) @ repl"
proof (induction ys rule: rev_induct)
  case (snoc y ys)
  have "\<exists>more repl. sl_nodes (slot_step element tracked current st name) = sl_nodes st @ more \<and>
      sl_replacements (slot_step element tracked current st name) = sl_replacements st @ repl"
    for st :: "'a slot_state" and name
    by (simp add: slot_step_def push_node_def Let_def)
  with snoc show ?case
    unfolding slot_run_def append_assoc [symmetric] by (simp, metis append_assoc)
qed simp

lemma slot_run_take:
  assumes "i < length nodes"
  shows "\<exists>more repl. sl_nodes (slot_run element tracked current nodes) =
       sl_nodes (slot_run element tracked current (take (Suc i) nodes)) @ more \<and>
     sl_replacements (slot_run element tracked current nodes) =
       sl_replacements (slot_run element tracked current (take (Suc i) nodes)) @ repl"
  using slot_run_append [of element tracked current "take (Suc i) nodes" "drop (Suc i) nodes"] by simp

lemma retained_slot:
  assumes "anchor_slot nodes anchor = Some p"
  shows "anchor_slot (sl_nodes (slot_run element tracked current nodes))
      (retarget_removed_anchor element (sl_replacements (slot_run element tracked current nodes)) anchor) =
    Some (length (sl_nodes (slot_run element tracked current (take p nodes))))"
proof (cases anchor)
  case None
  with assms show ?thesis
    by (simp add: anchor_slot_def retarget_removed_anchor_def slot_run_def slot_start_def)
next
  case (Some a)
  let ?n = "an_element_name a" and ?k = "an_occurrence a"
  from assms Some obtain i where k: "0 < ?k" and occ: "nth_occurrence ?n ?k nodes = Some i"
    and p: "p = Suc i"
    by (auto simp: anchor_slot_def split: if_splits)
  then have i: "i < length nodes" "nodes ! i = ?n" "Suc (count_list (take i nodes) ?n) = ?k"
    by (simp_all add: nth_occurrence_iff)
  let ?before = "slot_run element tracked current (take i nodes)"
  let ?upto = "slot_run element tracked current (take (Suc i) nodes)"
  have step: "?upto = slot_step element tracked current ?before ?n"
    using i by (simp add: slot_run_def take_Suc_conv_app_nth)
  note inv = slot_run_inv [of element tracked current "take i nodes"]
  note inv' = slot_run_inv [of element tracked current "take (Suc i) nodes"]
  obtain more repl where more:
    "sl_nodes (slot_run element tracked current nodes) = sl_nodes ?upto @ more"
    "sl_replacements (slot_run element tracked current nodes) = sl_replacements ?upto @ repl"
    using slot_run_take [OF i(1)] by blast
  show ?thesis
  proof (cases "?n = element")
    case True
    have len: "length (sl_replacements ?before) = ?k - 1"
      using inv i(3) True by (simp add: slot_inv_def)
    have repls: "sl_replacements ?upto = sl_replacements ?before @ [sl_last_anchor ?upto]"
      unfolding step using True by (simp add: slot_step_def Let_def push_node_def)
    have last: "sl_last_anchor ?upto = end_anchor (sl_nodes ?upto)"
      using inv' by (simp add: slot_inv_def)
    have "?k - 1 < length (sl_replacements ?upto @ repl)"
      unfolding repls using len by simp
    moreover have "(sl_replacements ?upto @ repl) ! (?k - 1) = end_anchor (sl_nodes ?upto)"
      unfolding repls last len [symmetric] by simp
    ultimately have "retarget_removed_anchor element (sl_replacements ?upto @ repl) (Some a) =
        end_anchor (sl_nodes ?upto)"
      using True k by (simp add: retarget_removed_anchor_def)
    then show ?thesis unfolding Some p more by (simp add: end_anchor_slot)
  next
    case False
    have upto: "sl_nodes ?upto = sl_nodes ?before @ [?n]"
      unfolding step using False by (simp add: slot_step_def push_node_def Let_def)
    have "count_list (filter (\<lambda>n. n \<noteq> element) (sl_nodes ?before)) ?n =
        count_list (filter (\<lambda>n. n \<noteq> element) (take i nodes)) ?n"
      using inv by (simp add: slot_inv_def)
    then have "count_list (sl_nodes ?before) ?n = count_list (take i nodes) ?n"
      using False by (simp add: count_list_filter)
    then have "nth_occurrence ?n ?k (sl_nodes ?before @ ?n # more) = Some (length (sl_nodes ?before))"
      unfolding nth_occurrence_iff [OF k] using i(3) by simp
    then have "anchor_slot (sl_nodes ?before @ ?n # more) (Some a) = Some (Suc (length (sl_nodes ?before)))"
      using k by (simp add: anchor_slot_def)
    moreover have "retarget_removed_anchor element repls (Some a) = Some a" for repls
      using False by (simp add: retarget_removed_anchor_def)
    ultimately show ?thesis unfolding Some p more(1) upto by simp
  qed
qed

text \<open>Slots name anchors: two anchors with the same slot are equal.\<close>

lemma anchor_slot_inj:
  assumes "anchor_slot nodes a = Some p" and "anchor_slot nodes b = Some p"
  shows "a = b"
proof -
  have key: "an_element_name x = nodes ! (p - 1) \<and> an_occurrence x = Suc (count_list (take (p - 1) nodes) (nodes ! (p - 1))) \<and> 0 < p"
    if "anchor_slot nodes (Some x) = Some p" for x
    using that by (auto simp: anchor_slot_def nth_occurrence_iff split: if_splits)
  show ?thesis
  proof (cases a)
    case None
    with assms have "p = 0" by (simp add: anchor_slot_def)
    with assms(2) key None show ?thesis by (cases b) auto
  next
    case (Some x)
    with assms(1) key have x: "an_element_name x = nodes ! (p - 1)" "0 < p"
      "an_occurrence x = Suc (count_list (take (p - 1) nodes) (nodes ! (p - 1)))" by blast+
    show ?thesis
    proof (cases b)
      case None
      with assms(2) x(2) show ?thesis by (simp add: anchor_slot_def)
    next
      case (Some y)
      with assms(2) key [of y] x have "x = y" by simp
      with Some \<open>a = Some x\<close> show ?thesis by simp
    qed
  qed
qed

text \<open>Slots that are in step with their identities stay as they are.\<close>

lemma slot_run_id:
  assumes "distinct tracked" and "set tracked \<subseteq> set current" and "count_list nodes element \<le> length tracked"
  shows "sl_nodes (slot_run element tracked current nodes) = nodes \<and>
    sl_tracked (slot_run element tracked current nodes) = take (count_list nodes element) tracked"
  using assms(3)
proof (induction nodes rule: rev_induct)
  case Nil
  then show ?case by (simp add: slot_run_def slot_start_def)
next
  case (snoc name nodes)
  let ?st = "slot_run element tracked current nodes"
  have step: "slot_run element tracked current (nodes @ [name]) = slot_step element tracked current ?st name"
    by (simp add: slot_run_def)
  have inv: "sl_slot ?st = count_list nodes element" "set (sl_retained ?st) = set (sl_tracked ?st)"
    using slot_run_inv [of element tracked current nodes] by (simp_all add: slot_inv_def)
  show ?case
  proof (cases "name = element")
    case True
    with snoc.prems have i: "count_list nodes element < length tracked" by simp
    then have "tracked ! count_list nodes element \<in> set current"
      using assms(2) nth_mem by blast
    moreover have "tracked ! count_list nodes element \<notin> set (take (count_list nodes element) tracked)"
      using assms(1) i by (auto simp: in_set_conv_nth nth_eq_iff_index_eq)
    ultimately show ?thesis
      unfolding step using snoc i inv True
      by (simp add: slot_step_def Let_def push_node_def take_Suc_conv_app_nth)
  next
    case False
    with snoc show ?thesis by (simp add: step slot_step_def push_node_def Let_def)
  qed
qed

lemma slots_in_step_unchanged:
  assumes "distinct tracked" and "set tracked \<subseteq> set current" and "count_list nodes element = length tracked"
    and "\<forall>fragment \<in> set opaque. anchor_slot nodes (fr_after fragment) \<noteq> None"
    and "\<forall>block \<in> set blocks. anchor_slot nodes (cb_after block) \<noteq> None"
  shows "retain_tracked_slots element nodes tracked current opaque blocks = (nodes, tracked, opaque, blocks)"
proof -
  let ?st = "slot_run element tracked current nodes"
  have id: "sl_nodes ?st = nodes" "sl_tracked ?st = tracked"
    using slot_run_id [OF assms(1,2), of nodes element] assms(3) by simp_all
  have anchor: "retarget_removed_anchor element (sl_replacements ?st) a = a" if a: "anchor_slot nodes a \<noteq> None" for a
  proof -
    obtain p where p: "anchor_slot nodes a = Some p" using a by auto
    have "p \<le> length nodes"
      using p by (auto simp: anchor_slot_def nth_occurrence_iff split: option.splits if_splits)
    moreover have "sl_nodes (slot_run element tracked current (take p nodes)) = take p nodes"
    proof -
      have "count_list (take p nodes) element \<le> count_list nodes element"
        by (metis append_take_drop_id count_list_append le_add1)
      then show ?thesis using slot_run_id [OF assms(1,2), of "take p nodes" element] assms(3) by simp
    qed
    ultimately have "anchor_slot nodes (retarget_removed_anchor element (sl_replacements ?st) a) = Some p"
      using retained_slot [OF p, of element tracked current] id(1) by simp
    then show ?thesis using p by (rule anchor_slot_inj)
  qed
  have "map (\<lambda>fragment. fragment\<lparr>fr_after := retarget_removed_anchor element (sl_replacements ?st) (fr_after fragment)\<rparr>) opaque = opaque"
    using assms(4) by (intro map_idI) (simp add: anchor)
  moreover have "map (\<lambda>block. block\<lparr>cb_after := retarget_removed_anchor element (sl_replacements ?st) (cb_after block)\<rparr>) blocks = blocks"
    using assms(5) by (intro map_idI) (simp add: anchor)
  ultimately show ?thesis by (simp add: retain_tracked_slots_def id Let_def)
qed

section \<open>Properties\<close>

text \<open>Removing slots keeps the node order and the identity list in step: afterwards there are as
  many nodes of the element as identities, the identities are distinct and are exactly the tracked ones
  that are still current, and nodes of other names are untouched and in order. Every fragment and
  CustomData block whose anchor resolved keeps its place: its new anchor resolves at the slot after the
  nodes kept from those that preceded it.\<close>

theorem retained_slots_in_step:
  "case retain_tracked_slots element nodes tracked current opaque blocks of
     (nodes', tracked', opaque', blocks') \<Rightarrow>
       count_list nodes' element = length tracked' \<and> distinct tracked' \<and>
       set tracked' = set (take (count_list nodes element) tracked) \<inter> set current \<and>
       filter (\<lambda>n. n \<noteq> element) nodes' = filter (\<lambda>n. n \<noteq> element) nodes \<and>
       list_all2 (\<lambda>anchor anchor'. \<forall>p. anchor_slot nodes anchor = Some p \<longrightarrow>
           anchor_slot nodes' anchor' =
             Some (length (fst (retain_tracked_slots element (take p nodes) tracked current [] []))))
         (map fr_after opaque @ map cb_after blocks) (map fr_after opaque' @ map cb_after blocks')"
proof -
  have all2: "list_all2 R (map f xs @ map g ys) (map f' xs @ map g' ys)"
    if "\<And>x. R (f x) (f' x)" "\<And>y. R (g y) (g' y)" for R f f' g g' xs ys
    using that by (intro list_all2_appendI) (simp_all add: list_all2_map1 list_all2_map2 list_all2_same)
  show ?thesis
    using slot_run_inv [of element tracked current nodes]
    by (auto simp: retain_tracked_slots_def Let_def slot_inv_def comp_def retained_slot intro!: all2)
qed

lemma retained_slots_in_step_witness:
  "retain_tracked_slots ''Entry'' [''Entry'', ''Notes'', ''Entry''] [1, 2 :: uuid] [2]
     [\<lparr>fr_xml = ''<x/>'', fr_after = Some \<lparr>an_element_name = ''Entry'', an_occurrence = 2\<rparr>\<rparr>] [] =
   ([''Notes'', ''Entry''], [2],
     [\<lparr>fr_xml = ''<x/>'', fr_after = Some \<lparr>an_element_name = ''Entry'', an_occurrence = 1\<rparr>\<rparr>], []) \<and>
   distinct [2 :: uuid]"
  using retained_slots_in_step [of "''Entry''" "[''Entry'', ''Notes'', ''Entry'']" "[1, 2 :: uuid]" "[2]"
     "[\<lparr>fr_xml = ''<x/>'', fr_after = Some \<lparr>an_element_name = ''Entry'', an_occurrence = 2\<rparr>\<rparr>]" "[]"]
  by (simp add: retain_tracked_slots_def slot_run_def slot_step_def push_node_def slot_start_def
      retarget_removed_anchor_def Let_def)

text \<open>Normalizing is stable: a node order that is in step with distinct, current identities, and
  whose anchors resolve, is returned unchanged, so repeated merges do not move unknown XML.\<close>

theorem retain_slots_stable:
  assumes "distinct tracked" and "set tracked \<subseteq> set current" and "count_list nodes element = length tracked"
    and "\<forall>fragment \<in> set opaque. anchor_slot nodes (fr_after fragment) \<noteq> None"
    and "\<forall>block \<in> set blocks. anchor_slot nodes (cb_after block) \<noteq> None"
  shows "retain_tracked_slots element nodes tracked current opaque blocks = (nodes, tracked, opaque, blocks)"
  using assms by (rule slots_in_step_unchanged)

lemma retain_slots_stable_witness:
  "retain_tracked_slots ''Entry'' [''Notes'', ''Entry''] [2 :: uuid] [2, 3]
     [\<lparr>fr_xml = ''<x/>'', fr_after = Some \<lparr>an_element_name = ''Entry'', an_occurrence = 1\<rparr>\<rparr>] [] =
   ([''Notes'', ''Entry''], [2],
     [\<lparr>fr_xml = ''<x/>'', fr_after = Some \<lparr>an_element_name = ''Entry'', an_occurrence = 1\<rparr>\<rparr>], [])"
  by (rule retain_slots_stable) (simp_all add: anchor_slot_def)

end
