(* ===== verification/AttachmentPool.thy ===== *)
theory AttachmentPool
  imports Model
begin

text \<open>
  The attachment content pool (\<^verbatim>\<open>crates/vaultkern-model/src/lib.rs\<close>, \<open>AttachmentContentPool\<close>).
  An \<open>Arc<AttachmentContentInner>\<close> is an address in an explicit store of the contents that still
  have an owner; the pool keeps \<open>Weak\<close> pointers, which upgrade only while the content lives. The
  digest of the crypto crate's dependency is the parameter \<open>sha256\<close>.
\<close>

section \<open>State and operations\<close>

record pool_state =
  ps_live :: "nat \<Rightarrow> attachment_content option"
  ps_next :: nat
  ps_contents :: "(content_id, nat) btree"

definition pool_start :: pool_state where
  "pool_start = \<lparr>ps_live = \<lambda>_. None, ps_next = 0, ps_contents = []\<rparr>"

text \<open>\<open>AttachmentContent::from_parts\<close>: a new allocation.\<close>

definition from_parts :: "content_id \<Rightarrow> bytes \<Rightarrow> pool_state \<Rightarrow> nat \<times> pool_state" where
  "from_parts content_id bs s =
     (ps_next s, s\<lparr>ps_live := (ps_live s)(ps_next s \<mapsto> \<lparr>ac_id = content_id, ac_bytes = bs\<rparr>),
                   ps_next := Suc (ps_next s)\<rparr>)"

definition from_bytes :: "(bytes \<Rightarrow> content_id) \<Rightarrow> bytes \<Rightarrow> pool_state \<Rightarrow> nat \<times> pool_state" where
  "from_bytes sha256 bs s = from_parts (sha256 bs) bs s"

text \<open>\<open>self.contents.get(&id).and_then(Weak::upgrade)\<close>.\<close>

definition pool_existing :: "pool_state \<Rightarrow> content_id \<Rightarrow> (nat \<times> attachment_content) option" where
  "pool_existing s content_id =
     (case bt_get (ps_contents s) content_id of
        None \<Rightarrow> None
      | Some a \<Rightarrow> (case ps_live s a of None \<Rightarrow> None | Some c \<Rightarrow> Some (a, c)))"

definition pool_remember :: "content_id \<Rightarrow> nat \<Rightarrow> pool_state \<Rightarrow> pool_state" where
  "pool_remember content_id a s = s\<lparr>ps_contents := bt_insert content_id a (ps_contents s)\<rparr>"

definition intern_with_id ::
    "content_id \<Rightarrow> bytes \<Rightarrow> pool_state \<Rightarrow> (model_error + nat) \<times> pool_state" where
  "intern_with_id content_id bs s =
     (case pool_existing s content_id of
        Some (a, existing) \<Rightarrow>
          if ac_bytes existing \<noteq> bs then (Inl AttachmentContentHashCollision, s) else (Inr a, s)
      | None \<Rightarrow> (let (a, s') = from_parts content_id bs s in (Inr a, pool_remember content_id a s')))"

definition intern :: "(bytes \<Rightarrow> content_id) \<Rightarrow> bytes \<Rightarrow> pool_state \<Rightarrow> (model_error + nat) \<times> pool_state" where
  "intern sha256 bs s = intern_with_id (sha256 bs) bs s"

text \<open>\<open>intern_vec\<close> has the same body with an owned buffer.\<close>

definition intern_vec :: "(bytes \<Rightarrow> content_id) \<Rightarrow> bytes \<Rightarrow> pool_state \<Rightarrow> (model_error + nat) \<times> pool_state" where
  "intern_vec sha256 bs s =
     (let content_id = sha256 bs in
      case pool_existing s content_id of
        Some (a, existing) \<Rightarrow>
          if ac_bytes existing \<noteq> bs then (Inl AttachmentContentHashCollision, s) else (Inr a, s)
      | None \<Rightarrow> (let (a, s') = from_parts content_id bs s in (Inr a, pool_remember content_id a s')))"

text \<open>\<open>intern_content\<close>: the caller owns \<open>content\<close>, so its address is live.\<close>

definition intern_content :: "nat \<Rightarrow> attachment_content \<Rightarrow> pool_state \<Rightarrow> (model_error + nat) \<times> pool_state" where
  "intern_content a content s =
     (case pool_existing s (ac_id content) of
        Some (b, existing) \<Rightarrow>
          if ac_bytes existing \<noteq> ac_bytes content then (Inl AttachmentContentHashCollision, s)
          else (Inr b, s)
      | None \<Rightarrow> (Inr a, pool_remember (ac_id content) a s))"

text \<open>The last owner of a content is dropped.\<close>

definition drop_content :: "nat \<Rightarrow> pool_state \<Rightarrow> pool_state" where
  "drop_content a s = s\<lparr>ps_live := (ps_live s)(a := None)\<rparr>"

inductive pool_step :: "(bytes \<Rightarrow> content_id) \<Rightarrow> pool_state \<Rightarrow> pool_state \<Rightarrow> bool"
  for sha256 :: "bytes \<Rightarrow> content_id" where
  step_new: "pool_step sha256 s (snd (from_bytes sha256 bs s))"
| step_intern: "pool_step sha256 s (snd (intern sha256 bs s))"
| step_intern_vec: "pool_step sha256 s (snd (intern_vec sha256 bs s))"
| step_intern_content: "ps_live s a = Some content \<Longrightarrow> pool_step sha256 s (snd (intern_content a content s))"
| step_drop: "pool_step sha256 s (drop_content a s)"

inductive_cases pool_stepE: "pool_step sha256 s s'"

section \<open>Invariant\<close>

definition pool_inv :: "(bytes \<Rightarrow> content_id) \<Rightarrow> pool_state \<Rightarrow> bool" where
  "pool_inv sha256 s \<longleftrightarrow>
     (\<forall>a c. ps_live s a = Some c \<longrightarrow> a < ps_next s \<and> ac_id c = sha256 (ac_bytes c)) \<and>
     (\<forall>i a. bt_get (ps_contents s) i = Some a \<longrightarrow>
        a < ps_next s \<and> (\<forall>c. ps_live s a = Some c \<longrightarrow> ac_id c = i))"

lemmas pool_ops = intern_def intern_vec_def intern_with_id_def intern_content_def from_bytes_def
  from_parts_def pool_remember_def pool_existing_def drop_content_def Let_def

lemma pool_inv_start: "pool_inv sha256 pool_start"
  by (simp add: pool_inv_def pool_start_def)

lemma pool_inv_parts: "pool_inv sha256 s \<Longrightarrow> pool_inv sha256 (snd (from_parts (sha256 bs) bs s))"
  by (auto simp: pool_inv_def from_parts_def less_Suc_eq)

lemma pool_inv_remember:
  "pool_inv sha256 s \<Longrightarrow> a < ps_next s \<Longrightarrow> (\<And>c. ps_live s a = Some c \<Longrightarrow> ac_id c = i) \<Longrightarrow>
   pool_inv sha256 (pool_remember i a s)"
  by (auto simp: pool_inv_def pool_remember_def)

lemma pool_inv_drop: "pool_inv sha256 s \<Longrightarrow> pool_inv sha256 (drop_content a s)"
  by (auto simp: pool_inv_def drop_content_def)

text \<open>The state after an interning: unchanged, or with a remembered new content.\<close>

lemma intern_state:
  "snd (intern sha256 bs s) = (if pool_existing s (sha256 bs) = None
     then pool_remember (sha256 bs) (ps_next s) (snd (from_parts (sha256 bs) bs s)) else s)"
  "intern_vec sha256 bs s = intern sha256 bs s"
  "snd (intern_content a content s) = (if pool_existing s (ac_id content) = None
     then pool_remember (ac_id content) a s else s)"
  by (auto simp: intern_def intern_with_id_def intern_vec_def intern_content_def from_parts_def Let_def
      split: option.split)

lemma pool_inv_intern: "pool_inv sha256 s \<Longrightarrow> pool_inv sha256 (snd (intern sha256 bs s))"
  by (auto simp: intern_state(1) intro!: pool_inv_remember pool_inv_parts)
     (auto simp: from_parts_def)

lemma pool_inv_step: "pool_step sha256 s s' \<Longrightarrow> pool_inv sha256 s \<Longrightarrow> pool_inv sha256 s'"
proof (induction rule: pool_step.induct)
  case (step_intern_content s a content)
  then show ?case
    by (auto simp: intern_state(3) pool_inv_def [of _ s] intro!: pool_inv_remember)
qed (simp_all add: from_bytes_def pool_inv_parts pool_inv_intern intern_state(2) pool_inv_drop)

lemma pool_reachable_inv:
  "(pool_step sha256)\<^sup>*\<^sup>* s s' \<Longrightarrow> pool_inv sha256 s \<Longrightarrow> pool_inv sha256 s'"
  by (induction rule: rtranclp_induct) (auto intro: pool_inv_step)

text \<open>A remembered address keeps its content until it is dropped, and is never used again.\<close>

definition remembered :: "nat \<Rightarrow> attachment_content \<Rightarrow> pool_state \<Rightarrow> bool" where
  "remembered a c s \<longleftrightarrow> a < ps_next s \<and>
     (ps_live s a = None \<or> ps_live s a = Some c \<and> bt_get (ps_contents s) (ac_id c) = Some a)"

lemma remembered_parts: "remembered a c s \<Longrightarrow> remembered a c (snd (from_parts i bs s))"
  by (auto simp: remembered_def from_parts_def)

lemma remembered_remember:
  "remembered a c s \<Longrightarrow> i \<noteq> ac_id c \<or> ps_live s a = None \<Longrightarrow> remembered a c (pool_remember i b s)"
  by (auto simp: remembered_def pool_remember_def)

lemma remembered_fresh:
  "remembered a c s \<Longrightarrow> pool_existing s i = None \<Longrightarrow> i \<noteq> ac_id c \<or> ps_live s a = None"
  by (auto simp: remembered_def pool_existing_def split: option.splits)

lemma remembered_intern: "remembered a c s \<Longrightarrow> remembered a c (snd (intern sha256 bs s))"
proof -
  assume r: "remembered a c s"
  then have "ps_live (snd (from_parts i bs s)) a = ps_live s a" for i
    by (auto simp: remembered_def from_parts_def)
  then show ?thesis
    using r remembered_fresh [OF r, of "sha256 bs"]
    by (auto simp: intern_state(1) intro!: remembered_remember remembered_parts)
qed

lemma remembered_step: "pool_step sha256 s s' \<Longrightarrow> remembered a c s \<Longrightarrow> remembered a c s'"
proof (induction rule: pool_step.induct)
  case (step_intern_content s b content)
  then show ?case
    using remembered_fresh [OF step_intern_content.prems, of "ac_id content"]
    by (auto simp: intern_state(3) intro!: remembered_remember)
next
  case (step_drop s b)
  then show ?case by (auto simp: remembered_def drop_content_def)
qed (simp_all add: from_bytes_def remembered_parts remembered_intern intern_state(2))

lemma remembered_steps:
  "(pool_step sha256)\<^sup>*\<^sup>* s s' \<Longrightarrow> remembered a c s \<Longrightarrow> remembered a c s'"
  by (induction rule: rtranclp_induct) (auto intro: remembered_step)

lemma intern_remembers:
  assumes "pool_inv sha256 s" and "intern sha256 bs s = (Inr a, s')"
  shows "ps_live s' a = Some \<lparr>ac_id = sha256 bs, ac_bytes = bs\<rparr> \<and>
    remembered a \<lparr>ac_id = sha256 bs, ac_bytes = bs\<rparr> s'"
  using assms
  by (fastforce simp: pool_inv_def remembered_def pool_ops split: option.splits if_splits)

lemma intern_again:
  assumes "remembered a \<lparr>ac_id = sha256 bs, ac_bytes = bs\<rparr> s" and "ps_live s a \<noteq> None"
  shows "intern sha256 bs s = (Inr a, s)"
  using assms by (auto simp: remembered_def pool_ops)

section \<open>Properties\<close>

text \<open>C23. In every reachable state, interning bytes returns a live content that holds exactly
  these bytes under their digest, or reports a collision, which it does only when a live pooled
  content with the same digest and different bytes exists; then the state is unchanged.\<close>

theorem intern_returns_content:
  assumes "(pool_step sha256)\<^sup>*\<^sup>* pool_start s"
  shows "case intern sha256 bs s of
      (Inr a, s') \<Rightarrow> ps_live s' a = Some \<lparr>ac_id = sha256 bs, ac_bytes = bs\<rparr>
    | (Inl e, s') \<Rightarrow> e = AttachmentContentHashCollision \<and> s' = s \<and>
        (\<exists>a c. ps_live s a = Some c \<and> sha256 (ac_bytes c) = sha256 bs \<and> ac_bytes c \<noteq> bs)"
proof -
  have inv: "pool_inv sha256 s" using assms by (rule pool_reachable_inv) (rule pool_inv_start)
  show ?thesis
  proof (cases "intern sha256 bs s")
    case (Pair r s')
    show ?thesis
    proof (cases r)
      case (Inr a)
      with Pair intern_remembers [OF inv] show ?thesis by simp
    next
      case (Inl e)
      with Pair inv show ?thesis
        by (fastforce simp: pool_inv_def pool_ops split: option.splits if_splits)
    qed
  qed
qed

definition pool_example :: pool_state where
  "pool_example = snd (intern (\<lambda>bs. of_nat (length bs)) [1, 2] pool_start)"

lemma pool_example_reachable: "(pool_step (\<lambda>bs. of_nat (length bs)))\<^sup>*\<^sup>* pool_start pool_example"
  unfolding pool_example_def by (intro r_into_rtranclp step_intern)

lemma intern_returns_content_witness:
  "fst (intern (\<lambda>bs. of_nat (length bs)) [3, 4] pool_example) = Inl AttachmentContentHashCollision \<and>
   (\<exists>a c. ps_live pool_example a = Some c \<and> ac_bytes c \<noteq> [3, 4])"
proof -
  have r: "intern (\<lambda>bs. of_nat (length bs)) [3, 4] pool_example = (Inl AttachmentContentHashCollision, pool_example)"
    by (simp add: pool_example_def pool_start_def pool_ops)
  with intern_returns_content [OF pool_example_reachable, of "[3, 4]"] show ?thesis
    by auto
qed

text \<open>Equal attachment bytes are stored once: while the content returned for some bytes has an
  owner, interning the same bytes again, after any other operations on the pool, returns the very
  same allocation and leaves the pool as it is.\<close>

theorem intern_shares:
  assumes "(pool_step sha256)\<^sup>*\<^sup>* pool_start s" and "intern sha256 bs s = (Inr a, s1)"
    and "(pool_step sha256)\<^sup>*\<^sup>* s1 s2" and "ps_live s2 a \<noteq> None"
  shows "intern sha256 bs s2 = (Inr a, s2)"
proof -
  have inv: "pool_inv sha256 s" using assms(1) by (rule pool_reachable_inv) (rule pool_inv_start)
  have "remembered a \<lparr>ac_id = sha256 bs, ac_bytes = bs\<rparr> s2"
    using intern_remembers [OF inv assms(2)] by (blast intro: remembered_steps [OF assms(3)])
  then show ?thesis using assms(4) by (rule intern_again)
qed

lemma intern_shares_witness:
  "intern (\<lambda>bs. of_nat (length bs)) [1, 2] (snd (intern (\<lambda>bs. of_nat (length bs)) [7] pool_example)) =
     (Inr 0, snd (intern (\<lambda>bs. of_nat (length bs)) [7] pool_example))"
proof (rule intern_shares [where s = pool_start and ?s1.0 = pool_example])
  show "intern (\<lambda>bs. of_nat (length bs)) [1, 2] pool_start = (Inr 0, pool_example)"
    by (simp add: pool_example_def pool_start_def pool_ops)
  show "(pool_step (\<lambda>bs. of_nat (length bs)))\<^sup>*\<^sup>* pool_example
      (snd (intern (\<lambda>bs. of_nat (length bs)) [7] pool_example))"
    by (intro r_into_rtranclp step_intern)
qed (simp_all add: pool_example_def pool_start_def pool_ops)

end
