(* ===== verification/Search.thy ===== *)
theory Search
  imports Model
begin

text \<open>
  Searching a vault (\<^verbatim>\<open>crates/vaultkern-model/src/lib.rs\<close>, \<open>Vault::search\<close> and \<open>collect_search\<close>),
  with its specification: the entries that match, in the order in which the group tree lists them.
\<close>

definition entry_haystacks :: "entry_core \<Rightarrow> string list" where
  "entry_haystacks e =
     [e_title e, e_username e, e_password e, e_url e, e_notes e] @ e_tags e @
       map cf_value (bt_values (e_attributes e))"

definition entry_matches :: "string \<Rightarrow> entry \<Rightarrow> bool" where
  "entry_matches needle entry \<longleftrightarrow>
     list_ex (\<lambda>v. str_contains (to_ascii_lowercase v) needle) (entry_haystacks (e_core entry))"

fun collect_entries :: "string \<Rightarrow> entry list \<Rightarrow> entry list \<Rightarrow> entry list" where
  "collect_entries needle [] matches = matches"
| "collect_entries needle (entry # es) matches =
     collect_entries needle es (if entry_matches needle entry then matches @ [entry] else matches)"

fun collect_search :: "string \<Rightarrow> vgroup \<Rightarrow> entry list \<Rightarrow> entry list"
  and collect_children :: "string \<Rightarrow> vgroup list \<Rightarrow> entry list \<Rightarrow> entry list" where
  "collect_search needle (Group g es children) matches =
     collect_children needle children (collect_entries needle es matches)"
| "collect_children needle [] matches = matches"
| "collect_children needle (child # children) matches =
     collect_children needle children (collect_search needle child matches)"

definition vault_search :: "vault \<Rightarrow> string \<Rightarrow> entry list" where
  "vault_search v term = collect_search (to_ascii_lowercase term) (v_root v) []"

text \<open>All entries of a group tree in document order.\<close>

fun group_entries :: "vgroup \<Rightarrow> entry list" where
  "group_entries (Group g es children) = es @ concat (map group_entries children)"

lemma collect_entries_filter: "collect_entries needle es ms = ms @ filter (entry_matches needle) es"
  by (induction es arbitrary: ms) simp_all

lemma collect_search_filter:
  "collect_search needle g ms = ms @ filter (entry_matches needle) (group_entries g)"
  "collect_children needle gs ms = ms @ filter (entry_matches needle) (concat (map group_entries gs))"
  by (induction needle g ms and needle gs ms rule: collect_search_collect_children.induct)
     (simp_all add: collect_entries_filter)

lemma ascii_lower_upper: "ascii_lower (ascii_upper c) = ascii_lower c"
proof (cases "97 \<le> code c \<and> code c \<le> 122")
  case True
  then have "(code c - 32) mod 256 = code c - 32" "65 \<le> code c - 32" "code c - 32 \<le> 90"
    by (intro mod_less, linarith+)
  with True show ?thesis by (simp add: ascii_lower_def ascii_upper_def)
qed (auto simp: ascii_lower_def ascii_upper_def)

text \<open>A search finds every matching entry of the whole group tree and nothing else, each as
  often as the tree holds it and in document order, and does not depend on the ASCII case of the
  term. An entry matches when a lowercased field, tag or attribute value contains the lowercased
  term.\<close>

theorem search_finds_matches:
  "vault_search v term =
     filter (\<lambda>entry. \<exists>hay \<in> set (entry_haystacks (e_core entry)). \<exists>pre post.
         to_ascii_lowercase hay = pre @ to_ascii_lowercase term @ post) (group_entries (v_root v)) \<and>
   vault_search v (to_ascii_uppercase term) = vault_search v term"
proof
  show "vault_search v term =
     filter (\<lambda>entry. \<exists>hay \<in> set (entry_haystacks (e_core entry)). \<exists>pre post.
         to_ascii_lowercase hay = pre @ to_ascii_lowercase term @ post) (group_entries (v_root v))"
    by (simp add: vault_search_def collect_search_filter entry_matches_def [abs_def] list_ex_iff
        str_contains_iff)
  have "to_ascii_lowercase (to_ascii_uppercase term) = to_ascii_lowercase term"
    by (simp add: to_ascii_lowercase_def to_ascii_uppercase_def ascii_lower_upper)
  then show "vault_search v (to_ascii_uppercase term) = vault_search v term"
    by (simp add: vault_search_def)
qed

end
