(* ===== verification/FieldMerge.thy ===== *)
theory FieldMerge
  imports Slots Credentials
begin

text \<open>
  Field merges of the three-way patch (\<^verbatim>\<open>crates/vaultkern-model/src/three_way_patch.rs\<close>): how one
  value, one timestamped value, one map, one location or the CustomData of an object is selected from
  the base, the local and the remote version, and how a conflict is recorded. The lemmas show the
  selection laws that every merge of entries, groups and metadata is built from.
\<close>

datatype patch_error =
    RootLineageMismatch
  | DuplicateEntry string uuid
  | DuplicateGroup string uuid
  | DuplicateCustomIcon string uuid
  | DuplicateDeletedObject string uuid
  | ConcurrentObjectAddition uuid
  | MissingParent uuid
  | GroupCycle uuid
  | FidelityConflict string "uuid option" string
  | SiblingOrderChange uuid string

section \<open>Values\<close>

record field_merge =
  fm_conflict :: bool
  fm_changed_from_remote :: bool

definition field_merge_start :: field_merge where
  "field_merge_start = \<lparr>fm_conflict = False, fm_changed_from_remote = False\<rparr>"

definition merge_value :: "'a \<Rightarrow> 'a \<Rightarrow> 'a \<Rightarrow> bool \<Rightarrow> field_merge \<Rightarrow> 'a \<times> field_merge" where
  "merge_value base local remote prefer_local state =
     (let (selected, state1) =
        (if local = base then (remote, state)
         else if remote = base then (local, state)
         else if local = remote then (remote, state)
         else (if prefer_local then local else remote, state\<lparr>fm_conflict := True\<rparr>))
      in (selected, if selected \<noteq> remote then state1\<lparr>fm_changed_from_remote := True\<rparr> else state1))"

definition merge_changed_at :: "i64 option \<Rightarrow> i64 option \<Rightarrow> i64 option \<Rightarrow> i64 option" where
  "merge_changed_at base local remote =
     (if local = base then remote else if remote = base then local else max local remote)"

definition unwrap_or :: "'a option \<Rightarrow> 'a \<Rightarrow> 'a" where
  "unwrap_or x d = (case x of Some v \<Rightarrow> v | None \<Rightarrow> d)"

definition merge_timestamped_value ::
    "'a \<Rightarrow> i64 option \<Rightarrow> 'a \<Rightarrow> i64 option \<Rightarrow> 'a \<Rightarrow> i64 option \<Rightarrow> field_merge \<Rightarrow>
     ('a \<times> i64 option) \<times> field_merge" where
  "merge_timestamped_value base_value base_changed_at local_value local_changed_at remote_value
     remote_changed_at state =
     (let (selected, state1) = merge_value base_value local_value remote_value
            (unwrap_or local_changed_at i64_min > unwrap_or remote_changed_at i64_min) state;
          base_matches = (base_value = selected);
          local_matches = (local_value = selected);
          remote_matches = (remote_value = selected);
          changed_at =
            (if base_matches \<and> local_matches \<and> remote_matches then
               merge_changed_at base_changed_at local_changed_at remote_changed_at
             else if local_matches \<and> remote_matches then max local_changed_at remote_changed_at
             else if local_matches then local_changed_at
             else if remote_matches then remote_changed_at
             else base_changed_at)
      in ((selected, changed_at),
          if changed_at \<noteq> remote_changed_at then state1\<lparr>fm_changed_from_remote := True\<rparr> else state1))"

section \<open>Maps\<close>

text \<open>One iteration of a loop over keys: \<open>if let Some(x) = select(key) { merged.insert(key, x); }\<close>.\<close>

definition merge_step ::
    "('k::linorder \<Rightarrow> field_merge \<Rightarrow> 'v option \<times> field_merge) \<Rightarrow> ('k, 'v) btree \<times> field_merge \<Rightarrow> 'k \<Rightarrow>
     ('k, 'v) btree \<times> field_merge" where
  "merge_step sel ms key =
     (case sel key (snd ms) of
        (Some x, st) \<Rightarrow> (bt_insert key x (fst ms), st)
      | (None, st) \<Rightarrow> (fst ms, st))"

definition merge_keyed_map_filtered ::
    "('k::linorder, 'v) btree \<Rightarrow> ('k, 'v) btree \<Rightarrow> ('k, 'v) btree \<Rightarrow> bool \<Rightarrow> ('k \<Rightarrow> bool) \<Rightarrow>
     field_merge \<Rightarrow> ('k, 'v) btree \<times> field_merge" where
  "merge_keyed_map_filtered base local remote prefer_local included state =
     foldl (merge_step (\<lambda>key st.
        if \<not> included key then (None, st)
        else merge_value (bt_get base key) (bt_get local key) (bt_get remote key) prefer_local st))
       ([], state) (union_keys3 base local remote)"

section \<open>Locations\<close>

definition merge_location ::
    "uuid \<Rightarrow> uuid \<Rightarrow> uuid \<Rightarrow> u64 option \<Rightarrow> u64 option \<Rightarrow> uuid \<times> u64 option \<times> bool \<times> bool" where
  "merge_location base local remote local_changed_at remote_changed_at =
     (let local_time = unwrap_or local_changed_at 0; remote_time = unwrap_or remote_changed_at 0 in
      if local = base then (remote, remote_changed_at, False, False)
      else if remote = base then (local, local_changed_at, False, True)
      else if local = remote then
        (remote, Some (max local_time remote_time), False, local_time > remote_time)
      else if local_time > remote_time then (local, local_changed_at, True, True)
      else (remote, remote_changed_at, True, False))"

section \<open>CustomData\<close>

record custom_data_unit =
  cu_value :: string
  cu_last_modified :: "i64 option"

definition custom_data_units ::
    "(string, string) btree \<Rightarrow> custom_data_block list \<Rightarrow> (string, custom_data_unit) btree" where
  "custom_data_units vals blocks =
     (let last_modified = bt_of_list (map (\<lambda>item. (cd_key item, cd_last_modified item)) (all_items blocks))
      in bt_of_list (map (\<lambda>(key, v). (key, \<lparr>cu_value = v,
           cu_last_modified = (case bt_get last_modified key of Some t \<Rightarrow> t | None \<Rightarrow> None)\<rparr>)) vals))"

definition apply_custom_data_last_modified ::
    "custom_data_block list \<Rightarrow> (string, custom_data_unit) btree \<Rightarrow> custom_data_block list" where
  "apply_custom_data_last_modified blocks units =
     foldl (\<lambda>bs (key, pos).
        (case bt_get units key of
           Some unit \<Rightarrow> modify_item (\<lambda>item. item\<lparr>cd_last_modified := cu_last_modified unit\<rparr>) pos bs
         | None \<Rightarrow> bs))
       blocks (last_position_by_key blocks)"

definition merge_custom_data_unit ::
    "custom_data_unit option \<Rightarrow> custom_data_unit option \<Rightarrow> custom_data_unit option \<Rightarrow> bool \<Rightarrow>
     field_merge \<Rightarrow> custom_data_unit option \<times> field_merge" where
  "merge_custom_data_unit base local remote prefer_local state =
     (let (selected_value, state1) = merge_value (map_option cu_value base) (map_option cu_value local)
            (map_option cu_value remote) prefer_local state;
          merged = map_option (\<lambda>v.
            (let timestamp = (\<lambda>side. case side of
                   Some unit \<Rightarrow> if cu_value unit = v then Some (cu_last_modified unit) else None
                 | None \<Rightarrow> None);
                 last_modified = (case (timestamp local, timestamp remote) of
                     (Some l, Some r) \<Rightarrow> max l r
                   | (Some l, None) \<Rightarrow> l
                   | (None, Some r) \<Rightarrow> r
                   | (None, None) \<Rightarrow> (case timestamp base of Some t \<Rightarrow> t | None \<Rightarrow> None))
             in \<lparr>cu_value = v, cu_last_modified = last_modified\<rparr>)) selected_value
      in (merged, if merged \<noteq> remote then state1\<lparr>fm_changed_from_remote := True\<rparr> else state1))"

text \<open>The loop over the local items of \<open>custom_data_blocks_are_replayable\<close>; \<open>None\<close> is its early
  \<open>return false\<close>.\<close>

fun replay_added ::
    "(string, string) btree \<Rightarrow> (string, string) btree \<Rightarrow> custom_data_item list \<Rightarrow>
     custom_data_block list \<Rightarrow> (string, string) btree \<Rightarrow> string list \<Rightarrow> custom_data_block list option" where
  "replay_added base local [] expected applied added = Some expected"
| "replay_added base local (item # items) expected applied added =
     (if bt_contains base (cd_key item) \<or> \<not> bt_contains local (cd_key item)
      then replay_added base local items expected applied added
      else if cd_key item \<in> set added then None
      else (let applied' = bt_insert (cd_key item) (cd_value item) applied;
                (expected', _, _) = reconcile_custom_data_blocks expected [] [] applied'
                  (Some (cd_key item, cd_last_modified item))
            in replay_added base local items expected' applied' (bs_insert (cd_key item) added)))"

definition custom_data_blocks_are_replayable ::
    "(string, string) btree \<Rightarrow> custom_data_block list \<Rightarrow> (string, string) btree \<Rightarrow>
     custom_data_block list \<Rightarrow> bool" where
  "custom_data_blocks_are_replayable base base_blocks local local_blocks \<longleftrightarrow>
     (let local_units = custom_data_units local local_blocks;
          applied = bt_of_list (filter (\<lambda>(key, _). bt_contains base key) local);
          (expected0, _, _) = reconcile_custom_data_blocks base_blocks [] [] applied None;
          expected1 = apply_custom_data_last_modified expected0 local_units
      in case replay_added base local (all_items local_blocks) expected1 applied [] of
           None \<Rightarrow> False
         | Some expected2 \<Rightarrow> apply_custom_data_last_modified expected2 local_units = local_blocks)"

text \<open>Returns the merged map, the merge state, the merged blocks, fragments and node order.\<close>

definition merge_custom_data_fields ::
    "(string, string) btree \<Rightarrow> custom_data_block list \<Rightarrow> (string, string) btree \<Rightarrow>
     custom_data_block list \<Rightarrow> (string, string) btree \<Rightarrow> custom_data_block list \<Rightarrow> bool \<Rightarrow>
     field_merge \<Rightarrow> fragment list \<Rightarrow> string list \<Rightarrow>
     (string, string) btree \<times> field_merge \<times> custom_data_block list \<times> fragment list \<times> string list" where
  "merge_custom_data_fields base base_blocks local local_blocks remote remote_blocks prefer_local
     state merged_opaque_xml merged_node_order =
     (let base_units = custom_data_units base base_blocks;
          local_units = custom_data_units local local_blocks;
          remote_units = custom_data_units remote remote_blocks;
          (merged_units, state1) = foldl (merge_step (\<lambda>key.
              merge_custom_data_unit (bt_get base_units key) (bt_get local_units key)
                (bt_get remote_units key) prefer_local))
            ([], state) (union_keys3 base_units local_units remote_units);
          local_fidelity_only = (local_blocks \<noteq> base_blocks \<and> remote_blocks = base_blocks \<and>
            \<not> custom_data_blocks_are_replayable base base_blocks local local_blocks);
          merged_blocks = (if local_fidelity_only then local_blocks else remote_blocks);
          merged = bt_of_list (map (\<lambda>(key, unit). (key, cu_value unit)) merged_units);
          (blocks1, opaque1, order1) =
            reconcile_custom_data_blocks merged_blocks merged_opaque_xml merged_node_order merged None
      in (merged, state1, apply_custom_data_last_modified blocks1 merged_units, opaque1, order1))"

section \<open>Group times, deleted objects, custom icons, history\<close>

definition group_times_have_equal_content :: "group_times \<Rightarrow> group_times \<Rightarrow> bool" where
  "group_times_have_equal_content l r \<longleftrightarrow>
     gt_created_at l = gt_created_at r \<and> gt_expires l = gt_expires r \<and>
     gt_expiry_time l = gt_expiry_time r \<and> gt_last_accessed_at l = gt_last_accessed_at r \<and>
     gt_usage_count l = gt_usage_count r"

text \<open>One \<open>field!(name)\<close> of the merge macros: select a field and store it in \<open>merged\<close>.\<close>

definition merge_field ::
    "('r \<Rightarrow> 'f) \<Rightarrow> (('f \<Rightarrow> 'f) \<Rightarrow> 'r \<Rightarrow> 'r) \<Rightarrow> 'r \<Rightarrow> 'r \<Rightarrow> 'r \<Rightarrow> bool \<Rightarrow> 'r \<times> field_merge \<Rightarrow>
     'r \<times> field_merge" where
  "merge_field get upd base local remote prefer_local ms =
     (let (v, st) = merge_value (get base) (get local) (get remote) prefer_local (snd ms)
      in (upd (\<lambda>_. v) (fst ms), st))"

abbreviation run_merges :: "('s \<Rightarrow> 's) list \<Rightarrow> 's \<Rightarrow> 's" where
  "run_merges steps s \<equiv> foldl (\<lambda>s f. f s) s steps"

definition merge_group_times ::
    "group_times option \<Rightarrow> group_times option \<Rightarrow> group_times option \<Rightarrow> bool \<Rightarrow> field_merge \<Rightarrow>
     group_times option \<times> field_merge" where
  "merge_group_times base local remote prefer_local state =
     (case (base, local, remote) of
        (Some b, Some l, Some r) \<Rightarrow>
          (let (m, st) = run_merges
                 [merge_field gt_created_at gt_created_at_update b l r prefer_local,
                  merge_field gt_expires gt_expires_update b l r prefer_local,
                  merge_field gt_expiry_time gt_expiry_time_update b l r prefer_local,
                  merge_field gt_last_accessed_at gt_last_accessed_at_update b l r prefer_local,
                  merge_field gt_usage_count gt_usage_count_update b l r prefer_local] (r, state);
               merged = m\<lparr>gt_modified_at := max (gt_modified_at l) (gt_modified_at r),
                         gt_location_changed_at := max (gt_location_changed_at l) (gt_location_changed_at r)\<rparr>
           in (Some merged, if merged \<noteq> r then st\<lparr>fm_changed_from_remote := True\<rparr> else st))
      | (None, Some l, Some r) \<Rightarrow>
          if group_times_have_equal_content l r then
            (let merged = r\<lparr>gt_modified_at := max (gt_modified_at l) (gt_modified_at r),
                            gt_location_changed_at := max (gt_location_changed_at l) (gt_location_changed_at r)\<rparr>
             in (Some merged, if merged \<noteq> r then state\<lparr>fm_changed_from_remote := True\<rparr> else state))
          else merge_value base local remote prefer_local state
      | _ \<Rightarrow> merge_value base local remote prefer_local state)"

definition merge_deleted_objects ::
    "deleted_object list \<Rightarrow> deleted_object list \<Rightarrow> deleted_object list \<Rightarrow> deleted_object list" where
  "merge_deleted_objects base local remote =
     (let to_map = (\<lambda>items. bt_of_list (map (\<lambda>item. (do_id item, item)) items));
          b = to_map base; l = to_map local; r = to_map remote
      in fst (foldl (\<lambda>(merged, st) key.
           (let prefer_local = unwrap_or (map_option do_deleted_at (bt_get l key)) i64_min >
                  unwrap_or (map_option do_deleted_at (bt_get r key)) i64_min;
                (v, st') = merge_value (bt_get b key) (bt_get l key) (bt_get r key) prefer_local st
            in (case v of Some x \<Rightarrow> merged @ [x] | None \<Rightarrow> merged, st')))
         ([], field_merge_start) (union_keys3 b l r)))"

definition custom_icons_have_equal_content :: "custom_icon \<Rightarrow> custom_icon \<Rightarrow> bool" where
  "custom_icons_have_equal_content l r \<longleftrightarrow>
     ci_id l = ci_id r \<and> ci_data l = ci_data r \<and> ci_name l = ci_name r"

definition max_option_list :: "'a::linorder list \<Rightarrow> 'a option" where
  "max_option_list xs = (case xs of [] \<Rightarrow> None | x # r \<Rightarrow> Some (foldl max x r))"

definition merge_custom_icon_timestamp ::
    "custom_icon \<Rightarrow> custom_icon option \<Rightarrow> custom_icon option \<Rightarrow> custom_icon option \<Rightarrow> custom_icon" where
  "merge_custom_icon_timestamp selected base local remote =
     selected\<lparr>ci_last_modified := max_option_list (List.map_filter ci_last_modified
       (filter (custom_icons_have_equal_content selected)
         (List.map_filter (\<lambda>x. x) [base, local, remote])))\<rparr>"

definition select_custom_icon ::
    "uuid \<Rightarrow> custom_icon option \<Rightarrow> custom_icon option \<Rightarrow> custom_icon option \<Rightarrow>
     patch_error + custom_icon option" where
  "select_custom_icon key base local remote =
     (case (base, local, remote) of
        (None, None, Some r) \<Rightarrow> Inr (Some r)
      | (None, Some l, None) \<Rightarrow> Inr (Some l)
      | (None, Some l, Some r) \<Rightarrow>
          if custom_icons_have_equal_content l r then Inr (Some r)
          else Inl (ConcurrentObjectAddition key)
      | (Some b, None, None) \<Rightarrow> Inr None
      | (Some b, None, Some r) \<Rightarrow>
          Inr (if \<not> custom_icons_have_equal_content b r then Some r else None)
      | (Some b, Some l, None) \<Rightarrow>
          Inr (if \<not> custom_icons_have_equal_content b l then Some l else None)
      | (Some b, Some l, Some r) \<Rightarrow>
          if custom_icons_have_equal_content l b then Inr (Some r)
          else if custom_icons_have_equal_content r b then Inr (Some l)
          else if custom_icons_have_equal_content l r then Inr (Some r)
          else Inl (FidelityConflict ''meta'' None ''custom icon'')
      | (None, None, None) \<Rightarrow> Inr None)"

definition merge_custom_icons ::
    "custom_icon list \<Rightarrow> custom_icon list \<Rightarrow> custom_icon list \<Rightarrow> patch_error + custom_icon list" where
  "merge_custom_icons base local remote =
     (let to_map = (\<lambda>items. bt_of_list (map (\<lambda>item. (ci_id item, item)) items));
          b = to_map base; l = to_map local; r = to_map remote
      in try_fold (\<lambda>merged key.
           and_then (select_custom_icon key (bt_get b key) (bt_get l key) (bt_get r key)) (\<lambda>selected.
             Inr (case selected of
                Some v \<Rightarrow> merged @ [merge_custom_icon_timestamp v (bt_get b key) (bt_get l key) (bt_get r key)]
              | None \<Rightarrow> merged)))
         [] (union_keys3 b l r))"

definition history_union :: "entry list \<Rightarrow> entry list \<Rightarrow> entry list \<Rightarrow> entry list" where
  "history_union base local remote =
     foldl (\<lambda>merged entry. if entry \<in> set merged then merged else merged @ [entry]) remote (base @ local)"

section \<open>Selection laws\<close>

text \<open>The selected value, independent of the recorded state.\<close>

definition select3 :: "'a \<Rightarrow> 'a \<Rightarrow> 'a \<Rightarrow> bool \<Rightarrow> 'a" where
  "select3 base local remote prefer_local =
     (if local = base then remote else if remote = base then local
      else if local = remote then remote else if prefer_local then local else remote)"

definition conflict3 :: "'a \<Rightarrow> 'a \<Rightarrow> 'a \<Rightarrow> bool" where
  "conflict3 base local remote \<longleftrightarrow> local \<noteq> base \<and> remote \<noteq> base \<and> local \<noteq> remote"

lemma merge_value_alt:
  "merge_value base local remote p st =
     (select3 base local remote p,
      \<lparr>fm_conflict = fm_conflict st \<or> conflict3 base local remote,
       fm_changed_from_remote = fm_changed_from_remote st \<or> select3 base local remote p \<noteq> remote\<rparr>)"
  by (cases st) (auto simp: merge_value_def select3_def conflict3_def Let_def)

lemma fst_merge_value [simp]: "fst (merge_value base local remote p st) = select3 base local remote p"
  by (simp add: merge_value_alt)

lemma select3_simps [simp]:
  "select3 x x r p = r" "select3 x l x p = l" "select3 b x x p = x"
  by (simp_all add: select3_def)

lemma select3_in: "select3 b l r p \<in> {l, r}"
  by (simp add: select3_def)

lemma select3_swap: "select3 b r l (\<not> p) = select3 b l r p"
  by (auto simp: select3_def)

lemma conflict3_swap: "conflict3 b r l = conflict3 b l r"
  by (auto simp: conflict3_def)

lemma select3_map: "inj f \<Longrightarrow> select3 (f b) (f l) (f r) p = f (select3 b l r p)"
  by (simp add: select3_def inj_eq)

section \<open>Merged maps\<close>

text \<open>A loop over distinct keys whose selections do not depend on the recorded state.\<close>

lemma merge_fold:
  assumes sel: "\<And>k st. fst (sel k st) = v k"
    and con: "\<And>k st. fm_conflict (snd (sel k st)) \<longleftrightarrow> fm_conflict st \<or> c k"
    and keys: "distinct keys" and wf: "bt_wf m" and new: "fst ` set m \<inter> set keys = {}"
  shows "bt_wf (fst (foldl (merge_step sel) (m, st) keys))"
    and "bt_get (fst (foldl (merge_step sel) (m, st) keys)) k = (if k \<in> set keys then v k else bt_get m k)"
    and "fm_conflict (snd (foldl (merge_step sel) (m, st) keys)) \<longleftrightarrow> fm_conflict st \<or> (\<exists>k \<in> set keys. c k)"
proof -
  have "bt_wf (fst (foldl (merge_step sel) (m, st) keys)) \<and>
      bt_get (fst (foldl (merge_step sel) (m, st) keys)) k = (if k \<in> set keys then v k else bt_get m k) \<and>
      (fm_conflict (snd (foldl (merge_step sel) (m, st) keys)) \<longleftrightarrow> fm_conflict st \<or> (\<exists>k \<in> set keys. c k))"
    using keys wf new
  proof (induction keys arbitrary: m st)
    case (Cons key keys)
    obtain st' where st': "sel key st = (v key, st')" using sel [of key st] by (cases "sel key st") auto
    define m' where "m' = (case v key of Some x \<Rightarrow> bt_insert key x m | None \<Rightarrow> m)"
    have step: "merge_step sel (m, st) key = (m', st')"
      by (simp add: merge_step_def st' m'_def split: option.split)
    have none: "bt_get m key = None" using Cons.prems by (simp add: map_of_eq_None_iff)
    have wf': "bt_wf m'" using Cons.prems(2) by (simp add: m'_def split: option.split)
    have new': "fst ` set m' \<inter> set keys = {}"
      using Cons.prems by (cases "v key") (auto simp: m'_def)
    have get: "bt_get m' k = (if k = key then v key else bt_get m k)"
      using none by (simp add: m'_def split: option.split)
    have "fm_conflict st' \<longleftrightarrow> fm_conflict st \<or> c key" using con [of key st] st' by simp
    then show ?case
      using Cons.IH [OF _ wf' new', of st'] Cons.prems(1) get step by (cases "k = key") simp_all
  qed simp
  note all = this
  show "bt_wf (fst (foldl (merge_step sel) (m, st) keys))" using all by (rule conjunct1)
  show "bt_get (fst (foldl (merge_step sel) (m, st) keys)) k = (if k \<in> set keys then v k else bt_get m k)"
    by (rule conjunct1 [OF conjunct2 [OF all]])
  show "fm_conflict (snd (foldl (merge_step sel) (m, st) keys)) \<longleftrightarrow> fm_conflict st \<or> (\<exists>k \<in> set keys. c k)"
    by (rule conjunct2 [OF conjunct2 [OF all]])
qed

lemma union_keys3_outside:
  "k \<notin> set (union_keys3 base local remote) \<Longrightarrow>
   bt_get base k = None \<and> bt_get local k = None \<and> bt_get remote k = None"
  by (simp add: set_union_keys3 map_of_eq_None_iff)

lemma distinct_union_keys3: "distinct (union_keys3 base local remote)"
  by (intro bs_wf_distinct wf_union_keys3)

lemma conflict3_same [simp]: "\<not> conflict3 x x x"
  by (simp add: conflict3_def)

lemma merged_map_get:
  "bt_wf (fst (merge_keyed_map_filtered base local remote p included st))"
  "bt_get (fst (merge_keyed_map_filtered base local remote p included st)) k =
     (if included k then select3 (bt_get base k) (bt_get local k) (bt_get remote k) p else None)"
  "fm_conflict (snd (merge_keyed_map_filtered base local remote p included st)) \<longleftrightarrow>
     fm_conflict st \<or> (\<exists>k. included k \<and> conflict3 (bt_get base k) (bt_get local k) (bt_get remote k))"
proof -
  let ?sel = "\<lambda>key st. if \<not> included key then (None, st)
    else merge_value (bt_get base key) (bt_get local key) (bt_get remote key) p st"
  let ?v = "\<lambda>k. if included k then select3 (bt_get base k) (bt_get local k) (bt_get remote k) p else None"
  let ?c = "\<lambda>k. included k \<and> conflict3 (bt_get base k) (bt_get local k) (bt_get remote k)"
  have v: "fst (?sel k st) = ?v k" and c: "fm_conflict (snd (?sel k st)) \<longleftrightarrow> fm_conflict st \<or> ?c k" for k st
    by (simp_all add: merge_value_alt)
  note F = merge_fold [of ?sel ?v ?c, OF v c distinct_union_keys3 [of base local remote] bt_wf_Nil]
  show "bt_wf (fst (merge_keyed_map_filtered base local remote p included st))"
    using F(1) by (simp add: merge_keyed_map_filtered_def)
  show "bt_get (fst (merge_keyed_map_filtered base local remote p included st)) k = ?v k"
    using F(2) union_keys3_outside [of k base local remote] by (simp add: merge_keyed_map_filtered_def)
  show "fm_conflict (snd (merge_keyed_map_filtered base local remote p included st)) \<longleftrightarrow>
      fm_conflict st \<or> (\<exists>k. ?c k)"
    using F(3) union_keys3_outside [of _ base local remote]
    by (simp add: merge_keyed_map_filtered_def) (metis conflict3_same)
qed

section \<open>Merged CustomData\<close>

text \<open>The timestamp rewrite changes only timestamps, of the items readers take.\<close>

definition stamp_item :: "(string, custom_data_unit) btree \<Rightarrow> string \<Rightarrow> custom_data_item \<Rightarrow> custom_data_item" where
  "stamp_item units k item =
     (case bt_get units k of Some unit \<Rightarrow> item\<lparr>cd_last_modified := cu_last_modified unit\<rparr> | None \<Rightarrow> item)"

lemma stamp_item_fields [simp]:
  "cd_key (stamp_item units k item) = cd_key item" "cd_value (stamp_item units k item) = cd_value item"
  by (simp_all add: stamp_item_def split: option.split)

lemma modify_item_id: "modify_item (\<lambda>x. x) pos bs = bs"
  by (cases pos) (simp add: modify_item_def)

lemma stamp_fold:
  assumes "\<forall>(k, pos) \<in> set ps. bt_get (last_position_by_key bs) k = Some pos" and "distinct (map fst ps)"
  shows "let bs' = foldl (\<lambda>bs (key, pos). modify_item (stamp_item units key) pos bs) bs ps in
    block_keys bs' = block_keys bs \<and> map cb_after bs' = map cb_after bs \<and>
    (\<forall>k. last_item (all_items bs') k =
       (if k \<in> fst ` set ps then map_option (stamp_item units k) (last_item (all_items bs) k)
        else last_item (all_items bs) k))"
  using assms
proof (induction ps arbitrary: bs)
  case (Cons p ps)
  obtain key pos where p: "p = (key, pos)" by (cases p)
  let ?bs = "modify_item (stamp_item units key) pos bs"
  have keys: "block_keys ?bs = block_keys bs" by (simp add: block_keys_modify)
  have after: "map cb_after ?bs = map cb_after bs"
    by (cases pos, cases "fst pos < length bs")
      (simp_all add: modify_item_def map_update list_update_same_conv list_update_beyond)
  have pos: "bt_get (last_position_by_key bs) key = Some pos" using Cons.prems(1) p by simp
  have val: "last_item (all_items ?bs) =
      (last_item (all_items bs))(key := map_option (stamp_item units key) (last_item (all_items bs) key))"
    using pos by (rule position_item) simp
  have hyp: "\<forall>(k, pos) \<in> set ps. bt_get (last_position_by_key ?bs) k = Some pos"
    using Cons.prems(1) last_position_block_keys [OF keys] by auto
  define F where "F = foldl (\<lambda>bs (key, pos). modify_item (stamp_item units key) pos bs) ?bs ps"
  have IH: "block_keys F = block_keys ?bs" "map cb_after F = map cb_after ?bs"
    "last_item (all_items F) k =
       (if k \<in> fst ` set ps then map_option (stamp_item units k) (last_item (all_items ?bs) k)
        else last_item (all_items ?bs) k)" for k
    using Cons.IH [OF hyp] Cons.prems(2) unfolding F_def by (simp_all add: Let_def)
  have "key \<notin> fst ` set ps" using Cons.prems(2) p by simp
  then show ?case
    using IH val keys after by (simp add: p F_def [symmetric] Let_def)
qed simp

lemma stamped_blocks:
  "block_keys (apply_custom_data_last_modified bs units) = block_keys bs \<and>
   map cb_after (apply_custom_data_last_modified bs units) = map cb_after bs \<and>
   last_item (all_items (apply_custom_data_last_modified bs units)) k =
     map_option (stamp_item units k) (last_item (all_items bs) k)"
proof -
  let ?ps = "last_position_by_key bs"
  have eq: "apply_custom_data_last_modified bs units =
      foldl (\<lambda>bs (key, pos). modify_item (stamp_item units key) pos bs) bs ?ps"
    unfolding apply_custom_data_last_modified_def
    by (intro foldl_cong refl) (auto simp: stamp_item_def [abs_def] modify_item_id split: option.split)
  have wf: "bt_wf ?ps" by (simp add: last_position_by_key_def)
  have "\<forall>(k, pos) \<in> set ?ps. bt_get ?ps k = Some pos"
    using bt_wf_distinct [OF wf] by auto
  note F = stamp_fold [OF this bt_wf_distinct [OF wf], of units, folded eq, unfolded Let_def]
  have "last_item (all_items bs) k = None" if "k \<notin> fst ` set ?ps"
    using that last_position_None_iff [of bs k] by (simp add: map_of_eq_None_iff last_item_None_iff)
  with F show ?thesis by auto
qed

text \<open>Units of an object: the values of its map with the timestamps readers collect.\<close>

lemma custom_data_units_get:
  assumes "distinct (map fst vals)"
  shows "bt_get (custom_data_units vals blocks) k =
    map_option (\<lambda>v. \<lparr>cu_value = v,
      cu_last_modified = Option.bind (last_item (all_items blocks) k) cd_last_modified\<rparr>) (bt_get vals k)"
proof -
  let ?lm = "bt_of_list (map (\<lambda>item. (cd_key item, cd_last_modified item)) (all_items blocks))"
  let ?f = "\<lambda>k v. \<lparr>cu_value = v, cu_last_modified = (case bt_get ?lm k of Some t \<Rightarrow> t | None \<Rightarrow> None)\<rparr>"
  have "distinct (map fst (map (\<lambda>(k, v). (k, ?f k v)) vals))"
    using assms by (simp add: comp_def case_prod_unfold)
  then have "bt_get (custom_data_units vals blocks) k = map_of (map (\<lambda>(k, v). (k, ?f k v)) vals) k"
    by (simp add: custom_data_units_def bt_get_extend map_of_rev_distinct)
  also have "\<dots> = map_option (?f k) (bt_get vals k)"
    by (induction vals) auto
  finally show ?thesis
    by (cases "last_item (all_items blocks) k") (simp_all add: bt_get_extend map_of_last_item)
qed

definition merged_unit ::
    "custom_data_unit option \<Rightarrow> custom_data_unit option \<Rightarrow> custom_data_unit option \<Rightarrow> bool \<Rightarrow>
     custom_data_unit option" where
  "merged_unit base local remote prefer_local =
     fst (merge_custom_data_unit base local remote prefer_local field_merge_start)"

lemma merge_custom_data_unit_state:
  "fst (merge_custom_data_unit b l r p st) = merged_unit b l r p"
  "fm_conflict (snd (merge_custom_data_unit b l r p st)) \<longleftrightarrow>
     fm_conflict st \<or> conflict3 (map_option cu_value b) (map_option cu_value l) (map_option cu_value r)"
  by (simp_all add: merged_unit_def merge_custom_data_unit_def merge_value_alt Let_def)

lemma merged_unit_value:
  "map_option cu_value (merged_unit b l r p) =
     select3 (map_option cu_value b) (map_option cu_value l) (map_option cu_value r) p"
  by (simp add: merged_unit_def merge_custom_data_unit_def merge_value_alt Let_def option.map_comp comp_def
      option.map_ident)

lemma cu_value_the_merged:
  "merged_unit b l r p = Some unit \<Longrightarrow>
   select3 (map_option cu_value b) (map_option cu_value l) (map_option cu_value r) p = Some (cu_value unit)"
  using merged_unit_value [of b l r p] by simp

text \<open>The three parts of a CustomData merge, with the units of the merged map named.\<close>

definition merged_units ::
    "(string, string) btree \<Rightarrow> custom_data_block list \<Rightarrow> (string, string) btree \<Rightarrow>
     custom_data_block list \<Rightarrow> (string, string) btree \<Rightarrow> custom_data_block list \<Rightarrow> bool \<Rightarrow>
     string \<Rightarrow> custom_data_unit option" where
  "merged_units base bb local lb remote rb p k =
     merged_unit (bt_get (custom_data_units base bb) k) (bt_get (custom_data_units local lb) k)
       (bt_get (custom_data_units remote rb) k) p"

lemma units_value:
  "bt_wf vals \<Longrightarrow> map_option cu_value (bt_get (custom_data_units vals blocks) k) = bt_get vals k"
  by (simp add: custom_data_units_get bt_wf_distinct option.map_comp comp_def option.map_ident)

lemma merged_units_value:
  assumes "bt_wf base" "bt_wf local" "bt_wf remote"
  shows "map_option cu_value (merged_units base bb local lb remote rb p k) =
    select3 (bt_get base k) (bt_get local k) (bt_get remote k) p"
  by (simp add: merged_units_def merged_unit_value units_value assms)

lemma merge_custom_data_fields_parts:
  obtains units st blocks where
    "bt_wf units" and "\<And>k. bt_get units k = merged_units base bb local lb remote rb p k"
    and "fm_conflict st \<longleftrightarrow> fm_conflict state \<or>
      (\<exists>k. conflict3 (map_option cu_value (bt_get (custom_data_units base bb) k))
         (map_option cu_value (bt_get (custom_data_units local lb) k))
         (map_option cu_value (bt_get (custom_data_units remote rb) k)))"
    and "merge_custom_data_fields base bb local lb remote rb p state opaque order =
      (let merged = bt_of_list (map (\<lambda>(key, unit). (key, cu_value unit)) units);
           (blocks1, opaque1, order1) = reconcile_custom_data_blocks blocks opaque order merged None
       in (merged, st, apply_custom_data_last_modified blocks1 units, opaque1, order1))"
proof -
  let ?b = "custom_data_units base bb" and ?l = "custom_data_units local lb"
  let ?r = "custom_data_units remote rb"
  let ?sel = "\<lambda>key. merge_custom_data_unit (bt_get ?b key) (bt_get ?l key) (bt_get ?r key) p"
  let ?c = "\<lambda>k. conflict3 (map_option cu_value (bt_get ?b k)) (map_option cu_value (bt_get ?l k))
    (map_option cu_value (bt_get ?r k))"
  let ?v = "merged_units base bb local lb remote rb p"
  define acc where "acc = foldl (merge_step ?sel) ([], state) (union_keys3 ?b ?l ?r)"
  have v: "fst (?sel k st) = ?v k" and c: "fm_conflict (snd (?sel k st)) \<longleftrightarrow> fm_conflict st \<or> ?c k" for k st
    by (simp_all add: merge_custom_data_unit_state merged_units_def)
  note F = merge_fold [of ?sel ?v ?c, OF v c distinct_union_keys3 [of ?b ?l ?r] bt_wf_Nil]
  have none: "k \<notin> set (union_keys3 ?b ?l ?r) \<Longrightarrow> ?v k = None \<and> \<not> ?c k" for k
    using union_keys3_outside [of k ?b ?l ?r] merged_unit_value [of None None None p]
    by (simp add: merged_units_def)
  show thesis
  proof (rule that [of "fst acc" "snd acc"])
    show "bt_wf (fst acc)" using F(1) by (simp add: acc_def)
    show "bt_get (fst acc) k = ?v k" for k using F(2) none [of k] by (simp add: acc_def)
    show "fm_conflict (snd acc) \<longleftrightarrow> fm_conflict state \<or> (\<exists>k. ?c k)"
      using F(3) none by (simp add: acc_def) blast
    show "merge_custom_data_fields base bb local lb remote rb p state opaque order =
      (let merged = bt_of_list (map (\<lambda>(key, unit). (key, cu_value unit)) (fst acc));
           (blocks1, opaque1, order1) = reconcile_custom_data_blocks
              (if lb \<noteq> bb \<and> rb = bb \<and> \<not> custom_data_blocks_are_replayable base bb local lb then lb else rb)
              opaque order merged None
       in (merged, snd acc, apply_custom_data_last_modified blocks1 (fst acc), opaque1, order1))"
      by (simp add: merge_custom_data_fields_def acc_def Let_def case_prod_unfold)
  qed
qed

text \<open>The three-way merge of a keyed map is decided key by key: an included key gets the value only
  one side changed, the value both sides agree on, or, when both sides changed it differently, the
  preferred side's; excluded keys are left out, the merged map is strictly ordered, and a conflict is
  recorded exactly when some included key was changed differently on both sides. Removal of a key is a
  change like any other.\<close>

theorem merged_map_is_pointwise:
  "bt_wf (fst (merge_keyed_map_filtered base local remote p included st)) \<and>
   bt_get (fst (merge_keyed_map_filtered base local remote p included st)) =
     (\<lambda>k. if included k then select3 (bt_get base k) (bt_get local k) (bt_get remote k) p else None) \<and>
   (fm_conflict (snd (merge_keyed_map_filtered base local remote p included st)) \<longleftrightarrow>
     fm_conflict st \<or>
     (\<exists>k. included k \<and> bt_get local k \<noteq> bt_get base k \<and> bt_get remote k \<noteq> bt_get base k \<and>
       bt_get local k \<noteq> bt_get remote k))"
  by (intro conjI ext) (simp_all add: merged_map_get conflict3_def)

lemma merge_custom_data_result:
  assumes "bt_wf base" "bt_wf local" "bt_wf remote"
    and merge: "merge_custom_data_fields base bb local lb remote rb p state opaque order =
      (merged, st, blocks, opaque1, order1)"
  shows "bt_get merged k = select3 (bt_get base k) (bt_get local k) (bt_get remote k) p"
    and "merge_custom_data_blocks blocks = merged"
    and "map_of (collect_custom_data_items blocks) k =
      map_option (\<lambda>unit. \<lparr>cit_value = cu_value unit, cit_last_modified = cu_last_modified unit\<rparr>)
        (fst (merge_custom_data_unit (bt_get (custom_data_units base bb) k)
          (bt_get (custom_data_units local lb) k) (bt_get (custom_data_units remote rb) k) p field_merge_start))"
    and "fm_conflict st \<longleftrightarrow>
      fm_conflict state \<or> (\<exists>k. conflict3 (bt_get base k) (bt_get local k) (bt_get remote k))"
proof -
  obtain units st' bs where units: "bt_wf units" "\<And>k. bt_get units k = merged_units base bb local lb remote rb p k"
    and con: "fm_conflict st' \<longleftrightarrow> fm_conflict state \<or>
      (\<exists>k. conflict3 (map_option cu_value (bt_get (custom_data_units base bb) k))
         (map_option cu_value (bt_get (custom_data_units local lb) k))
         (map_option cu_value (bt_get (custom_data_units remote rb) k)))"
    and res: "merge_custom_data_fields base bb local lb remote rb p state opaque order =
      (let merged = bt_of_list (map (\<lambda>(key, unit). (key, cu_value unit)) units);
           (blocks1, opaque1, order1) = reconcile_custom_data_blocks bs opaque order merged None
       in (merged, st', apply_custom_data_last_modified blocks1 units, opaque1, order1))"
    by (rule merge_custom_data_fields_parts [of base bb local lb remote rb p state opaque order]) (rule that)
  define m where "m = bt_of_list (map (\<lambda>(key, unit). (key, cu_value unit)) units)"
  let ?bs = "fst (reconcile_custom_data_blocks bs opaque order m None)"
  have parts: "merged = m" "st = st'" "blocks = apply_custom_data_last_modified ?bs units"
    using res merge by (auto simp: m_def Let_def case_prod_unfold)
  show "fm_conflict st \<longleftrightarrow>
      fm_conflict state \<or> (\<exists>k. conflict3 (bt_get base k) (bt_get local k) (bt_get remote k))"
    by (simp add: parts(2) con units_value assms(1-3))
  have m_wf: "bt_wf m" by (simp add: m_def)
  have "distinct (map fst (map (\<lambda>(key, unit). (key, cu_value unit)) units))"
    using bt_wf_distinct [OF units(1)] by (simp add: comp_def case_prod_unfold)
  then have get: "bt_get m k = map_option cu_value (bt_get units k)" for k
    by (simp add: m_def bt_get_extend map_of_rev_distinct map_of_map)
  show "bt_get merged k = select3 (bt_get base k) (bt_get local k) (bt_get remote k) p"
    using get units(2) merged_units_value [OF assms(1-3)] parts(1) by simp
  have item: "last_item (all_items blocks) k = map_option (stamp_item units k) (last_item (all_items ?bs) k)" for k
    using stamped_blocks parts(3) by blast
  show "merge_custom_data_blocks blocks = merged"
  proof (rule bt_eqI)
    show "map_of (merge_custom_data_blocks blocks) = map_of merged"
      by (rule ext) (simp add: merge_blocks_last_item item option.map_comp comp_def parts(1)
          reconciled_last_item [OF m_wf] split: option.split)
  qed (use m_wf parts(1) in \<open>simp_all add: merge_custom_data_blocks_def\<close>)
  show "map_of (collect_custom_data_items blocks) k =
      map_option (\<lambda>unit. \<lparr>cit_value = cu_value unit, cit_last_modified = cu_last_modified unit\<rparr>)
        (fst (merge_custom_data_unit (bt_get (custom_data_units base bb) k)
          (bt_get (custom_data_units local lb) k) (bt_get (custom_data_units remote rb) k) p field_merge_start))"
    using units(2) [of k] get [of k]
    by (cases "bt_get units k") (auto simp: collect_items_last_item item reconciled_last_item [OF m_wf]
        merged_units_def merge_custom_data_unit_state stamp_item_def split: option.split)
qed

text \<open>C20. Merging the CustomData of an object keeps its two representations in step: the merged map is
  selected key by key from the three maps; the merged fidelity blocks spell exactly that map; and every
  item readers take carries the timestamp of the merged unit, the newest one recorded by a side that has
  the selected value. The document's own blocks may hold duplicate keys and stale values.\<close>

theorem merged_custom_data_in_step:
  assumes "bt_wf base" "bt_wf local" "bt_wf remote"
    and merge: "merge_custom_data_fields base bb local lb remote rb p state opaque order =
      (merged, st, blocks, opaque1, order1)"
  shows "bt_get merged k = select3 (bt_get base k) (bt_get local k) (bt_get remote k) p \<and>
    merge_custom_data_blocks blocks = merged \<and>
    map_of (collect_custom_data_items blocks) k =
      map_option (\<lambda>unit. \<lparr>cit_value = cu_value unit, cit_last_modified = cu_last_modified unit\<rparr>)
        (fst (merge_custom_data_unit (bt_get (custom_data_units base bb) k)
          (bt_get (custom_data_units local lb) k) (bt_get (custom_data_units remote rb) k) p field_merge_start)) \<and>
    (fm_conflict st \<longleftrightarrow>
      fm_conflict state \<or> (\<exists>k. conflict3 (bt_get base k) (bt_get local k) (bt_get remote k)))"
  by (intro conjI) (rule merge_custom_data_result [OF assms])+

lemma merged_custom_data_in_step_witness:
  "\<exists>merged st blocks opaque1 order1.
     merge_custom_data_fields [(''a'', ''1'')] [] [(''a'', ''9''), (''d'', ''7'')] example_blocks [] [] True
       field_merge_start [] [] = (merged, st, blocks, opaque1, order1) \<and>
     bt_get merged ''a'' = Some ''9'' \<and> bt_get merged ''d'' = Some ''7'' \<and>
     merge_custom_data_blocks blocks = merged"
proof -
  obtain merged st blocks opaque1 order1 where m:
    "merge_custom_data_fields [(''a'', ''1'')] [] [(''a'', ''9''), (''d'', ''7'')] example_blocks [] [] True
       field_merge_start [] [] = (merged, st, blocks, opaque1, order1)"
    by (rule prod_cases5)
  have wf: "bt_wf [(''a'', ''1'')]" "bt_wf ([] :: (string, string) btree)" by (simp_all add: bt_wf_Cons)
  note F = merged_custom_data_in_step [OF wf(1) example_map_wf wf(2) m]
  show ?thesis
    using m F [of "''a''"] F [of "''d''"] by (auto simp: select3_def)
qed

end
