(* ===== verification/Hierarchy.thy ===== *)
theory Hierarchy
  imports FieldMerge "HOL-Library.Multiset"
begin

text \<open>
  The group hierarchy during a three-way patch (\<^verbatim>\<open>crates/vaultkern-model/src/three_way_patch.rs\<close>): a
  vault is flattened to maps from identifiers to entries and groups with their parents, the maps are
  merged, the merged parents are validated, sibling orders are rebased, and the tree is rebuilt. The
  lemmas relate the loops that walk up the parents to reachability in the parent relation, show that
  flattening and rebuilding are inverse up to slot normalization, and that rebuilding a validated
  hierarchy loses nothing.
\<close>

section \<open>Flat vaults\<close>

record flat_entry =
  fe_value :: entry
  fe_parent :: uuid
  fe_order :: nat

record flat_group =
  fg_value :: vgroup
  fg_parent :: "uuid option"
  fg_order :: nat

record flat_vault =
  fv_root_id :: uuid
  fv_entries :: "(uuid, flat_entry) btree"
  fv_groups :: "(uuid, flat_group) btree"

abbreviation entry_id :: "entry \<Rightarrow> uuid" where "entry_id e \<equiv> e_id (e_core e)"
abbreviation group_id :: "vgroup \<Rightarrow> uuid" where "group_id g \<equiv> g_id (g_core g)"

text \<open>The loop over the entries of a group in \<open>flatten_group\<close>.\<close>

fun flatten_entries :: "entry list \<Rightarrow> uuid \<Rightarrow> nat \<Rightarrow> string \<Rightarrow> flat_vault \<Rightarrow> patch_error + flat_vault" where
  "flatten_entries [] parent n side flat = Inr flat"
| "flatten_entries (e # es) parent n side flat =
     (if bt_contains (fv_entries flat) (entry_id e) then Inl (DuplicateEntry side (entry_id e))
      else flatten_entries es parent (Suc n) side
        (flat\<lparr>fv_entries := bt_insert (entry_id e)
           \<lparr>fe_value = e, fe_parent = parent, fe_order = n\<rparr> (fv_entries flat)\<rparr>))"

fun flatten_group :: "vgroup \<Rightarrow> uuid option \<Rightarrow> nat \<Rightarrow> string \<Rightarrow> flat_vault \<Rightarrow> patch_error + flat_vault"
  and flatten_children :: "vgroup list \<Rightarrow> uuid \<Rightarrow> nat \<Rightarrow> string \<Rightarrow> flat_vault \<Rightarrow> patch_error + flat_vault" where
  "flatten_group (Group core entries children) parent order side flat =
     (if bt_contains (fv_groups flat) (g_id core) then Inl (DuplicateGroup side (g_id core))
      else and_then (flatten_entries entries (g_id core) 0 side
          (flat\<lparr>fv_groups := bt_insert (g_id core)
             \<lparr>fg_value = Group core [] [], fg_parent = parent, fg_order = order\<rparr> (fv_groups flat)\<rparr>))
        (flatten_children children (g_id core) 0 side))"
| "flatten_children [] parent n side flat = Inr flat"
| "flatten_children (c # cs) parent n side flat =
     and_then (flatten_group c (Some parent) n side flat) (flatten_children cs parent (Suc n) side)"

definition flatten_vault :: "vault \<Rightarrow> string \<Rightarrow> patch_error + flat_vault" where
  "flatten_vault vault side =
     flatten_group (v_root vault) None 0 side
       \<lparr>fv_root_id = group_id (v_root vault), fv_entries = [], fv_groups = []\<rparr>"

section \<open>Walking up the parents\<close>

definition parent_of :: "(uuid, flat_group) btree \<Rightarrow> uuid \<Rightarrow> uuid option" where
  "parent_of groups gid = Option.bind (bt_get groups gid) fg_parent"

text \<open>A walk over keys of a map visits each at most once.\<close>

lemma unvisited_decreases:
  assumes "bt_get m c = Some x" and "c \<notin> set visited"
  shows "card (fst ` set m - insert c (set visited)) < card (fst ` set m - set visited)"
proof (rule psubset_card_mono)
  have "c \<in> fst ` set m" using assms(1) by (metis fst_conv image_eqI map_of_SomeD)
  then show "fst ` set m - insert c (set visited) \<subset> fst ` set m - set visited"
    using assms(2) by auto
qed simp

function below_loop :: "(uuid, flat_group) btree \<Rightarrow> uuid list \<Rightarrow> uuid \<Rightarrow> uuid \<Rightarrow> bool" where
  "below_loop groups visited candidate ancestor =
     (if candidate = ancestor then True
      else if candidate \<in> set visited then False
      else case parent_of groups candidate of
          None \<Rightarrow> False
        | Some parent \<Rightarrow> below_loop groups (bs_insert candidate visited) parent ancestor)"
  by pat_completeness auto
termination
  by (relation "measure (\<lambda>(groups, visited, _, _). card (fst ` set groups - set visited))")
    (auto simp: parent_of_def bind_eq_Some_conv intro!: unvisited_decreases)

definition group_is_below_or_same :: "flat_vault \<Rightarrow> uuid \<Rightarrow> uuid \<Rightarrow> bool" where
  "group_is_below_or_same flat candidate ancestor = below_loop (fv_groups flat) [] candidate ancestor"

definition group_is_below :: "flat_vault \<Rightarrow> uuid \<Rightarrow> uuid \<Rightarrow> bool" where
  "group_is_below flat candidate ancestor \<longleftrightarrow>
     candidate \<noteq> ancestor \<and> group_is_below_or_same flat candidate ancestor"

text \<open>The walk of \<open>validate_group_hierarchy\<close> from one group.\<close>

function validate_walk ::
    "uuid \<Rightarrow> (uuid, flat_group) btree \<Rightarrow> uuid \<Rightarrow> uuid list \<Rightarrow> uuid \<Rightarrow> patch_error + unit" where
  "validate_walk root_id groups start visited current =
     (if current \<in> set visited then Inl (GroupCycle current)
      else case bt_get groups current of
          None \<Rightarrow> Inl (MissingParent current)
        | Some grp \<Rightarrow> (case fg_parent grp of
              Some parent \<Rightarrow> validate_walk root_id groups start (bs_insert current visited) parent
            | None \<Rightarrow> if current = root_id then Inr () else Inl (MissingParent start)))"
  by pat_completeness auto
termination
  by (relation "measure (\<lambda>(_, groups, _, visited, _). card (fst ` set groups - set visited))")
    (auto intro!: unvisited_decreases)

definition validate_group_hierarchy :: "uuid \<Rightarrow> (uuid, flat_group) btree \<Rightarrow> patch_error + unit" where
  "validate_group_hierarchy root_id groups =
     and_then (ok_or (bt_get groups root_id) (MissingParent root_id)) (\<lambda>root.
       if fg_parent root \<noteq> None then Inl RootLineageMismatch
       else try_fold (\<lambda>_ gid. validate_walk root_id groups gid [] gid) () (bt_keys groups))"

declare below_loop.simps [simp del] validate_walk.simps [simp del]

section \<open>Subtrees\<close>

definition same_entry_record :: "flat_entry \<Rightarrow> flat_entry \<Rightarrow> bool" where
  "same_entry_record l r \<longleftrightarrow> fe_parent l = fe_parent r \<and> fe_value l = fe_value r"

definition same_group_record :: "flat_group \<Rightarrow> flat_group \<Rightarrow> bool" where
  "same_group_record l r \<longleftrightarrow> fg_parent l = fg_parent r \<and> fg_value l = fg_value r"

text \<open>\<open>is_none_or\<close> of \<^verbatim>\<open>Option\<close>.\<close>

definition none_or :: "'a option \<Rightarrow> ('a \<Rightarrow> bool) \<Rightarrow> bool" where
  "none_or x P = (case x of None \<Rightarrow> True | Some v \<Rightarrow> P v)"

definition subtree_changed :: "flat_vault \<Rightarrow> flat_vault \<Rightarrow> uuid \<Rightarrow> bool" where
  "subtree_changed base side root =
     (case bt_get (fv_groups base) root of
        None \<Rightarrow> True
      | Some base_root \<Rightarrow>
          if none_or (bt_get (fv_groups side) root) (\<lambda>group. \<not> same_group_record base_root group) then True
          else if list_ex (\<lambda>(gid, group). gid \<noteq> root \<and> group_is_below base gid root \<and>
                   none_or (bt_get (fv_groups side) gid) (\<lambda>candidate. \<not> same_group_record group candidate))
                 (fv_groups base) then True
          else if list_ex (\<lambda>(eid, entry). group_is_below_or_same base (fe_parent entry) root \<and>
                   none_or (bt_get (fv_entries side) eid) (\<lambda>candidate. \<not> same_entry_record entry candidate))
                 (fv_entries base) then True
          else list_ex (\<lambda>(gid, group). group_is_below_or_same side gid root \<and>
                   none_or (bt_get (fv_groups base) gid) (\<lambda>base_group. \<not> same_group_record base_group group))
                 (fv_groups side) \<or>
               list_ex (\<lambda>(eid, entry). group_is_below_or_same side (fe_parent entry) root \<and>
                   none_or (bt_get (fv_entries base) eid) (\<lambda>base_entry. \<not> same_entry_record base_entry entry))
                 (fv_entries side))"

definition changed_subtrees_deleted_from_other :: "flat_vault \<Rightarrow> flat_vault \<Rightarrow> flat_vault \<Rightarrow> uuid list" where
  "changed_subtrees_deleted_from_other base survivor other =
     bs_of_list (filter (\<lambda>gid. bt_contains (fv_groups survivor) gid \<and> \<not> bt_contains (fv_groups other) gid \<and>
       subtree_changed base survivor gid) (bt_keys (fv_groups base)))"

definition belongs_to_preserved_subtree :: "uuid \<Rightarrow> flat_vault \<Rightarrow> uuid list \<Rightarrow> bool" where
  "belongs_to_preserved_subtree gid survivor preserved_subtrees =
     list_ex (\<lambda>root. group_is_below_or_same survivor gid root) preserved_subtrees"

definition subtrees_equal :: "flat_vault \<Rightarrow> flat_vault \<Rightarrow> uuid \<Rightarrow> bool" where
  "subtrees_equal left right root \<longleftrightarrow>
     (let groups_of = (\<lambda>flat. map (\<lambda>(gid, group). (gid, fg_parent group, fg_value group))
            (filter (\<lambda>(gid, _). group_is_below_or_same flat gid root) (fv_groups flat)));
          entries_of = (\<lambda>flat. map (\<lambda>(eid, entry). (eid, fe_parent entry, fe_value entry))
            (filter (\<lambda>(_, entry). group_is_below_or_same flat (fe_parent entry) root) (fv_entries flat)))
      in groups_of left = groups_of right \<and> entries_of left = entries_of right)"

section \<open>Sibling orders\<close>

record sibling_order_maps =
  so_entries :: "(uuid, uuid list) btree"
  so_groups :: "(uuid, uuid list) btree"

text \<open>\<open>orders.entry(parent).or_default().push(sibling)\<close>.\<close>

definition push_sibling :: "uuid \<Rightarrow> nat \<times> uuid \<Rightarrow> (uuid, (nat \<times> uuid) list) btree \<Rightarrow>
    (uuid, (nat \<times> uuid) list) btree" where
  "push_sibling parent sibling orders =
     bt_insert parent (unwrap_or (bt_get orders parent) [] @ [sibling]) orders"

definition sorted_ids :: "(uuid, (nat \<times> uuid) list) btree \<Rightarrow> (uuid, uuid list) btree" where
  "sorted_ids orders = bt_of_list (map (\<lambda>(parent, siblings). (parent, map snd (sort siblings))) orders)"

definition sibling_orders :: "flat_vault \<Rightarrow> sibling_order_maps" where
  "sibling_orders flat =
     \<lparr>so_entries = sorted_ids (foldl (\<lambda>m (eid, entry). push_sibling (fe_parent entry) (fe_order entry, eid) m)
        [] (fv_entries flat)),
      so_groups = sorted_ids (foldl (\<lambda>m (gid, group). (case fg_parent group of
          Some parent \<Rightarrow> push_sibling parent (fg_order group, gid) m | None \<Rightarrow> m)) [] (fv_groups flat))\<rparr>"

definition ensure_local_sibling_order ::
    "uuid \<Rightarrow> string \<Rightarrow> uuid list option \<Rightarrow> uuid list option \<Rightarrow> uuid list option \<Rightarrow> patch_error + unit" where
  "ensure_local_sibling_order parent object base_ids local_ids remote_ids =
     (let base = unwrap_or base_ids []; local = unwrap_or local_ids []; remote = unwrap_or remote_ids [];
          shared = bs_of_list (filter (\<lambda>x. x \<in> set local \<and> x \<in> set remote) base);
          retain_shared = filter (\<lambda>x. x \<in> set shared)
      in if retain_shared local \<noteq> retain_shared base \<and> retain_shared local \<noteq> retain_shared remote
         then Inl (SiblingOrderChange parent object) else Inr ())"

definition ensure_local_sibling_order_representable ::
    "flat_vault \<Rightarrow> flat_vault \<Rightarrow> flat_vault \<Rightarrow> patch_error + unit" where
  "ensure_local_sibling_order_representable base local remote =
     (let base_orders = sibling_orders base; local_orders = sibling_orders local;
          remote_orders = sibling_orders remote
      in try_fold (\<lambda>_ parent.
           and_then (ensure_local_sibling_order parent ''entry'' (bt_get (so_entries base_orders) parent)
             (bt_get (so_entries local_orders) parent) (bt_get (so_entries remote_orders) parent)) (\<lambda>_.
           ensure_local_sibling_order parent ''group'' (bt_get (so_groups base_orders) parent)
             (bt_get (so_groups local_orders) parent) (bt_get (so_groups remote_orders) parent)))
         () (bt_keys (fv_groups base)))"

definition ordered_entry_ids :: "(uuid, flat_entry) btree \<Rightarrow> uuid \<Rightarrow> uuid list \<Rightarrow> uuid list" where
  "ordered_entry_ids entries parent incl =
     map snd (sort (map (\<lambda>(eid, entry). (fe_order entry, eid))
       (filter (\<lambda>(eid, entry). fe_parent entry = parent \<and> eid \<in> set incl) entries)))"

definition ordered_group_ids :: "(uuid, flat_group) btree \<Rightarrow> uuid \<Rightarrow> uuid list \<Rightarrow> uuid list" where
  "ordered_group_ids groups parent incl =
     map snd (sort (map (\<lambda>(gid, group). (fg_order group, gid))
       (filter (\<lambda>(gid, group). fg_parent group = Some parent \<and> gid \<in> set incl) groups)))"

definition location_prefers_local :: "uuid \<times> u64 option \<times> bool \<times> bool \<Rightarrow> bool" where
  "location_prefers_local location = snd (snd (snd location))"

definition entry_order_prefers_local ::
    "uuid \<Rightarrow> flat_vault \<Rightarrow> flat_vault \<Rightarrow> flat_vault \<Rightarrow> (uuid, flat_entry) btree \<Rightarrow> bool" where
  "entry_order_prefers_local eid base local remote merged =
     (case (bt_get (fv_entries local) eid, bt_get merged eid) of
        (Some l, Some m) \<Rightarrow>
          if fe_parent l \<noteq> fe_parent m then False
          else (case bt_get (fv_entries remote) eid of
              None \<Rightarrow> True
            | Some r \<Rightarrow> (case bt_get (fv_entries base) eid of
                  None \<Rightarrow> False
                | Some b \<Rightarrow> location_prefers_local (merge_location (fe_parent b) (fe_parent l) (fe_parent r)
                    (e_location_changed_at (e_core (fe_value l))) (e_location_changed_at (e_core (fe_value r))))))
      | _ \<Rightarrow> False)"

definition group_modified_at :: "vgroup \<Rightarrow> u64" where
  "group_modified_at grp = unwrap_or (map_option gt_modified_at (g_times (g_core grp))) 0"

definition group_location_changed_at :: "vgroup \<Rightarrow> u64 option" where
  "group_location_changed_at grp = Option.bind (g_times (g_core grp)) gt_location_changed_at"

definition set_group_location_changed_at :: "u64 option \<Rightarrow> vgroup \<Rightarrow> vgroup" where
  "set_group_location_changed_at t grp =
     Group ((g_core grp)\<lparr>g_times := map_option (\<lambda>times. times\<lparr>gt_location_changed_at := t\<rparr>)
       (g_times (g_core grp))\<rparr>) (g_entries grp) (g_children grp)"

definition group_order_prefers_local ::
    "uuid \<Rightarrow> flat_vault \<Rightarrow> flat_vault \<Rightarrow> flat_vault \<Rightarrow> (uuid, flat_group) btree \<Rightarrow> bool" where
  "group_order_prefers_local gid base local remote merged =
     (case (bt_get (fv_groups local) gid, bt_get merged gid) of
        (Some l, Some m) \<Rightarrow>
          if fg_parent l \<noteq> fg_parent m then False
          else (case bt_get (fv_groups remote) gid of
              None \<Rightarrow> True
            | Some r \<Rightarrow> (case bt_get (fv_groups base) gid of
                  None \<Rightarrow> False
                | Some b \<Rightarrow> (case (fg_parent b, fg_parent l, fg_parent r) of
                      (Some bp, Some lp, Some rp) \<Rightarrow> location_prefers_local (merge_location bp lp rp
                        (group_location_changed_at (fg_value l)) (group_location_changed_at (fg_value r)))
                    | _ \<Rightarrow> False)))
      | _ \<Rightarrow> False)"

text \<open>One iteration of the loop over \<open>local_order\<close>: \<open>order.splice(anchor..anchor, pending.drain(..))\<close>
  inserts the pending identifiers before the anchor.\<close>

definition splice_step :: "uuid list \<Rightarrow> uuid list \<times> uuid list \<Rightarrow> uuid \<Rightarrow> uuid list \<times> uuid list" where
  "splice_step prefer_local op x =
     (let (order, pending) = op in
      if x \<in> set prefer_local then (order, pending @ [x])
      else if x \<in> set order then
        (takeWhile (\<lambda>y. y \<noteq> x) order @ pending @ dropWhile (\<lambda>y. y \<noteq> x) order, [])
      else (order, pending))"

fun pairs :: "'a list \<Rightarrow> ('a \<times> 'a) list" where
  "pairs (x # y # xs) = (x, y) # pairs (y # xs)"
| "pairs _ = []"

text \<open>\<open>positions[&id]\<close> panics for an identifier that is not in the order; \<open>position_in\<close> is then the
  length of the order. Every identifier looked up is in the order, as the lemmas below show.\<close>

definition position_in :: "uuid list \<Rightarrow> uuid \<Rightarrow> nat" where
  "position_in order x = length (takeWhile (\<lambda>y. y \<noteq> x) order)"

definition rebase_sibling_order ::
    "uuid \<Rightarrow> string \<Rightarrow> uuid list \<Rightarrow> uuid list \<Rightarrow> uuid list \<Rightarrow> uuid list \<Rightarrow> patch_error + uuid list" where
  "rebase_sibling_order parent object final_ids local_order remote_order prefer_local =
     (let (order0, pending) = foldl (splice_step prefer_local)
            (filter (\<lambda>x. x \<notin> set prefer_local) remote_order, []) local_order;
          order = order0 @ pending
      in if length order \<noteq> length final_ids \<or> bs_of_list order \<noteq> final_ids
         then Inl (SiblingOrderChange parent object)
         else if list_ex (\<lambda>(x, y). (x \<in> set prefer_local \<or> y \<in> set prefer_local) \<and>
                position_in order x \<ge> position_in order y) (pairs local_order)
         then Inl (SiblingOrderChange parent object)
         else Inr order)"

text \<open>\<open>merged.get_mut(&id).order = index\<close> for the ids of a reconciled order.\<close>

definition bt_modify :: "'k \<Rightarrow> ('v \<Rightarrow> 'v) \<Rightarrow> ('k, 'v) btree \<Rightarrow> ('k, 'v) btree" where
  "bt_modify k f m = map (\<lambda>(k', v). (k', if k' = k then f v else v)) m"

definition reconcile_entry_sibling_orders ::
    "flat_vault \<Rightarrow> flat_vault \<Rightarrow> flat_vault \<Rightarrow> (uuid, flat_entry) btree \<Rightarrow>
     patch_error + (uuid, flat_entry) btree" where
  "reconcile_entry_sibling_orders base local remote merged0 =
     try_fold (\<lambda>merged parent.
       (let final_ids = bs_of_list (map fst (filter (\<lambda>(_, entry). fe_parent entry = parent) merged));
            local_order = ordered_entry_ids (fv_entries local) parent final_ids;
            remote_order = ordered_entry_ids (fv_entries remote) parent final_ids;
            prefer_local = bs_of_list (filter (\<lambda>eid. entry_order_prefers_local eid base local remote merged) final_ids)
        in and_then (rebase_sibling_order parent ''entry'' final_ids local_order remote_order prefer_local)
             (\<lambda>order. Inr (foldl (\<lambda>m (index, eid). bt_modify eid (\<lambda>entry. entry\<lparr>fe_order := index\<rparr>) m)
                merged (enumerate 0 order)))))
       merged0 (bs_of_list (map (\<lambda>(_, entry). fe_parent entry) merged0))"

definition reconcile_group_sibling_orders ::
    "flat_vault \<Rightarrow> flat_vault \<Rightarrow> flat_vault \<Rightarrow> (uuid, flat_group) btree \<Rightarrow>
     patch_error + (uuid, flat_group) btree" where
  "reconcile_group_sibling_orders base local remote merged0 =
     try_fold (\<lambda>merged parent.
       (let final_ids = bs_of_list (map fst (filter (\<lambda>(_, group). fg_parent group = Some parent) merged));
            local_order = ordered_group_ids (fv_groups local) parent final_ids;
            remote_order = ordered_group_ids (fv_groups remote) parent final_ids;
            prefer_local = bs_of_list (filter (\<lambda>gid. group_order_prefers_local gid base local remote merged) final_ids)
        in and_then (rebase_sibling_order parent ''group'' final_ids local_order remote_order prefer_local)
             (\<lambda>order. Inr (foldl (\<lambda>m (index, gid). bt_modify gid (\<lambda>group. group\<lparr>fg_order := index\<rparr>) m)
                merged (enumerate 0 order)))))
       merged0 (bs_of_list (List.map_filter (\<lambda>(_, group). fg_parent group) merged0))"

section \<open>Rebuilding the tree\<close>

definition normalize_group_slots :: "vgroup \<Rightarrow> vgroup" where
  "normalize_group_slots grp =
     (let core = g_core grp; raw = g_raw_state core;
          (nodes1, entry_order1, opaque1, blocks1) = retain_tracked_slots ''Entry'' (gr_node_order raw)
            (gr_entry_order raw) (bs_of_list (map entry_id (g_entries grp))) (g_opaque_xml core)
            (g_custom_data_blocks core);
          (nodes2, group_order2, opaque2, blocks2) = retain_tracked_slots ''Group'' nodes1
            (gr_group_order raw) (bs_of_list (map group_id (g_children grp))) opaque1 blocks1
      in Group (core\<lparr>g_raw_state := raw\<lparr>gr_node_order := nodes2, gr_entry_order := entry_order1,
                   gr_group_order := group_order2\<rparr>, g_opaque_xml := opaque2, g_custom_data_blocks := blocks2\<rparr>)
           (g_entries grp) (g_children grp))"

text \<open>\<open>visiting\<close> holds the groups on the path from the root: the code removes a group from the set
  when its subtree is done, so each call receives it as an argument.\<close>

definition child_groups_of :: "uuid \<Rightarrow> (uuid, flat_group) btree \<Rightarrow> uuid list" where
  "child_groups_of gid groups =
     map fst (sort_key (\<lambda>(cid, child). (fg_order child, cid))
       (filter (\<lambda>(_, child). fg_parent child = Some gid) groups))"

definition entries_of_group :: "uuid \<Rightarrow> (uuid, flat_entry) btree \<Rightarrow> entry list" where
  "entries_of_group gid entries =
     map (\<lambda>(_, entry). fe_value entry) (sort_key (\<lambda>(eid, entry). (fe_order entry, eid))
       (filter (\<lambda>(_, entry). fe_parent entry = gid) entries))"

function rebuild_tree ::
    "uuid \<Rightarrow> (uuid, flat_group) btree \<Rightarrow> (uuid, flat_entry) btree \<Rightarrow> uuid list \<Rightarrow> patch_error + vgroup" where
  "rebuild_tree gid groups entries visiting =
     (if gid \<in> set visiting then Inl (GroupCycle gid)
      else case bt_get groups gid of
          None \<Rightarrow> Inl (MissingParent gid)
        | Some record \<Rightarrow>
            and_then (try_map (\<lambda>cid. rebuild_tree cid groups entries (bs_insert gid visiting))
              (child_groups_of gid groups)) (\<lambda>children.
            Inr (normalize_group_slots
              (Group (g_core (fg_value record)) (entries_of_group gid entries) children))))"
  by pat_completeness auto
termination
  by (relation "measure (\<lambda>(_, groups, _, visiting). card (fst ` set groups - set visiting))")
    (auto intro!: unvisited_decreases)

declare rebuild_tree.simps [simp del]

section \<open>The parent relation\<close>

definition parent_rel :: "(uuid, flat_group) btree \<Rightarrow> (uuid \<times> uuid) set" where
  "parent_rel groups = {(x, y). parent_of groups x = Some y}"

lemma parent_rel_iff: "(x, y) \<in> parent_rel groups \<longleftrightarrow> parent_of groups x = Some y"
  by (simp add: parent_rel_def)

lemma parent_rel_fun: "(x, y) \<in> parent_rel groups \<Longrightarrow> (x, z) \<in> parent_rel groups \<Longrightarrow> y = z"
  by (simp add: parent_rel_def)

lemma below_loop_iff:
  assumes "\<forall>v \<in> set visited. v \<noteq> ancestor \<and> (\<exists>w. parent_of groups v = Some w \<and> w \<in> insert candidate (set visited))"
  shows "below_loop groups visited candidate ancestor \<longleftrightarrow> (candidate, ancestor) \<in> (parent_rel groups)\<^sup>*"
  using assms
proof (induction groups visited candidate ancestor rule: below_loop.induct)
  case (1 groups visited candidate ancestor)
  consider "candidate = ancestor" | (seen) "candidate \<noteq> ancestor" "candidate \<in> set visited"
    | (orphan) "candidate \<noteq> ancestor" "candidate \<notin> set visited" "parent_of groups candidate = None"
    | (up) parent where "candidate \<noteq> ancestor" "candidate \<notin> set visited"
      "parent_of groups candidate = Some parent" by fastforce
  then show ?case
  proof cases
    case seen
    have "y \<in> set visited" if "(candidate, y) \<in> (parent_rel groups)\<^sup>*" for y
      using that seen(2) 1(2)
      by (induction rule: rtrancl_induct) (auto simp: parent_rel_iff dest!: bspec)
    with seen 1(2) show ?thesis by (auto simp: below_loop.simps)
  next
    case orphan
    then show ?thesis
      by (auto simp: below_loop.simps parent_rel_iff elim: converse_rtranclE)
  next
    case up
    have "below_loop groups (bs_insert candidate visited) parent ancestor \<longleftrightarrow>
        (parent, ancestor) \<in> (parent_rel groups)\<^sup>*"
      using up 1(2) by (intro 1(1)) auto
    moreover have "(candidate, ancestor) \<in> (parent_rel groups)\<^sup>* \<longleftrightarrow> (parent, ancestor) \<in> (parent_rel groups)\<^sup>*"
      using up by (metis converse_rtranclE converse_rtrancl_into_rtrancl parent_rel_fun parent_rel_iff)
    ultimately show ?thesis
      using up by (simp add: below_loop.simps [of groups visited candidate])
  qed (simp add: below_loop.simps)
qed

lemma below_iff:
  "group_is_below_or_same flat x y \<longleftrightarrow> (x, y) \<in> (parent_rel (fv_groups flat))\<^sup>*"
  by (simp add: group_is_below_or_same_def below_loop_iff)

text \<open>A group whose parents lead to a root without a parent is on no cycle.\<close>

lemma no_cycle_below_root:
  assumes "(x, root) \<in> (parent_rel groups)\<^sup>*" and "parent_of groups root = None"
  shows "(x, x) \<notin> (parent_rel groups)\<^sup>+"
  using assms(1)
proof (induction rule: converse_rtrancl_induct)
  case base
  show ?case using assms(2) by (auto simp: parent_rel_iff dest: tranclD)
next
  case (step x y)
  show ?case
  proof
    assume "(x, x) \<in> (parent_rel groups)\<^sup>+"
    then obtain z where "(x, z) \<in> parent_rel groups" "(z, x) \<in> (parent_rel groups)\<^sup>*" by (metis tranclD)
    then have "(y, x) \<in> (parent_rel groups)\<^sup>*" using step(1) parent_rel_fun by metis
    with step show False by (metis rtrancl_into_trancl1)
  qed
qed

lemma validate_walk_reaches:
  "validate_walk root groups start visited current = Inr () \<Longrightarrow>
   (current, root) \<in> (parent_rel groups)\<^sup>* \<and> root \<in> fst ` set groups"
proof (induction root groups start visited current rule: validate_walk.induct)
  case (1 root groups start visited current)
  from 1(2) obtain grp where fresh: "current \<notin> set visited" and grp: "bt_get groups current = Some grp"
    by (auto simp: validate_walk.simps [of _ _ _ _ current] split: if_splits option.splits)
  show ?case
  proof (cases "fg_parent grp")
    case None
    then have "current = root"
      using 1(2) fresh grp by (simp add: validate_walk.simps [of _ _ _ _ current] split: if_splits)
    then show ?thesis using grp by (metis fst_conv image_eqI map_of_SomeD rtrancl.rtrancl_refl)
  next
    case (Some parent)
    then have "(parent, root) \<in> (parent_rel groups)\<^sup>* \<and> root \<in> fst ` set groups"
      using 1 fresh grp by (simp add: validate_walk.simps [of _ _ _ _ current])
    moreover have "(current, parent) \<in> parent_rel groups"
      using grp Some by (simp add: parent_rel_iff parent_of_def)
    ultimately show ?thesis by (meson converse_rtrancl_into_rtrancl)
  qed
qed

lemma reaching_walk_validates:
  assumes "(current, root) \<in> (parent_rel groups)\<^sup>*" and "bt_get groups root = Some r" "fg_parent r = None"
    and "\<forall>v \<in> set visited. (v, current) \<in> (parent_rel groups)\<^sup>+"
  shows "validate_walk root groups start visited current = Inr ()"
  using assms
proof (induction root groups start visited current rule: validate_walk.induct)
  case (1 root groups start visited current)
  have "parent_of groups root = None" using 1(3,4) by (simp add: parent_of_def)
  then have fresh: "current \<notin> set visited"
    using no_cycle_below_root [OF 1(2)] 1(5) by blast
  show ?case
  proof (cases "parent_of groups current")
    case None
    then have "current = root" using 1(2) by (auto simp: parent_rel_iff elim: converse_rtranclE)
    then show ?thesis using fresh 1(3,4) by (subst validate_walk.simps) simp
  next
    case (Some parent)
    then obtain grp where grp: "bt_get groups current = Some grp" "fg_parent grp = Some parent"
      by (auto simp: parent_of_def bind_eq_Some_conv)
    have step: "(current, parent) \<in> parent_rel groups" using Some by (simp add: parent_rel_iff)
    have "current \<noteq> root" using grp 1(3,4) by auto
    then have up: "(parent, root) \<in> (parent_rel groups)\<^sup>*"
      using 1(2) step by (metis converse_rtranclE parent_rel_fun)
    have "\<forall>v \<in> set (bs_insert current visited). (v, parent) \<in> (parent_rel groups)\<^sup>+"
      using 1(5) step by (auto intro: trancl_into_trancl)
    then have "validate_walk root groups start (bs_insert current visited) parent = Inr ()"
      using 1(1) fresh grp up 1(3,4) by blast
    then show ?thesis using fresh grp by (simp add: validate_walk.simps [of _ _ _ _ current])
  qed
qed

lemma try_fold_unit:
  "try_fold (\<lambda>_ x. f x) () xs = Inr () \<longleftrightarrow> (\<forall>x \<in> set xs. f x = Inr ())"
proof (induction xs)
  case (Cons x xs)
  then show ?case by (cases "f x") auto
qed simp

definition rooted :: "uuid \<Rightarrow> (uuid, flat_group) btree \<Rightarrow> bool" where
  "rooted root groups \<longleftrightarrow> (\<exists>r. bt_get groups root = Some r \<and> fg_parent r = None) \<and>
     fst ` set groups \<subseteq> {x. (x, root) \<in> (parent_rel groups)\<^sup>*}"

lemma validate_iff: "validate_group_hierarchy root groups = Inr () \<longleftrightarrow> rooted root groups"
proof (cases "bt_get groups root")
  case (Some r)
  have "validate_walk root groups x [] x = Inr () \<longleftrightarrow> (x, root) \<in> (parent_rel groups)\<^sup>*"
    if "fg_parent r = None" for x
    using validate_walk_reaches [of root groups x "[]" x] reaching_walk_validates [OF _ Some that, of x "[]"]
    by auto
  then show ?thesis
    using Some by (auto simp: validate_group_hierarchy_def rooted_def try_fold_unit)
qed (simp add: validate_group_hierarchy_def rooted_def)

section \<open>Rebuilt trees\<close>

text \<open>Where the entries and groups of a tree are.\<close>

fun entry_places :: "vgroup \<Rightarrow> (uuid \<times> entry) list" where
  "entry_places (Group core entries children) =
     map (Pair (g_id core)) entries @ concat (map entry_places children)"

fun group_places :: "uuid option \<Rightarrow> vgroup \<Rightarrow> (uuid option \<times> uuid) list" where
  "group_places parent (Group core entries children) =
     (parent, g_id core) # concat (map (group_places (Some (g_id core))) children)"

lemma normalized_group [simp]:
  "g_entries (normalize_group_slots g) = g_entries g" "g_children (normalize_group_slots g) = g_children g"
  "group_id (normalize_group_slots g) = group_id g"
  by (simp_all add: normalize_group_slots_def Let_def case_prod_unfold)

lemma places_normalized [simp]:
  "entry_places (normalize_group_slots g) = entry_places g"
  "group_places p (normalize_group_slots g) = group_places p g"
  by (cases g; cases "normalize_group_slots g"; use normalized_group [of g] in simp)+

definition keyed_groups :: "(uuid, flat_group) btree \<Rightarrow> bool" where
  "keyed_groups groups \<longleftrightarrow> distinct (map fst groups) \<and> (\<forall>(x, r) \<in> set groups. group_id (fg_value r) = x)"

lemma set_child_groups:
  "distinct (map fst groups) \<Longrightarrow> set (child_groups_of gid groups) = {x. (x, gid) \<in> parent_rel groups}"
  by (force simp: child_groups_of_def parent_rel_def parent_of_def bind_eq_Some_conv)

lemma set_entries_of_group:
  "set (entries_of_group gid entries) = {fe_value e | eid e. (eid, e) \<in> set entries \<and> fe_parent e = gid}"
  by (force simp: entries_of_group_def)

lemma rebuild_tree_ok:
  assumes "rooted root groups" and "keyed_groups groups"
    and "gid \<in> fst ` set groups" and "\<forall>v \<in> set visiting. (gid, v) \<in> (parent_rel groups)\<^sup>+"
  shows "\<exists>g. rebuild_tree gid groups entries visiting = Inr g \<and> group_id g = gid \<and>
    set (entry_places g) = {(fe_parent e, fe_value e) | eid e.
      (eid, e) \<in> set entries \<and> (fe_parent e, gid) \<in> (parent_rel groups)\<^sup>*} \<and>
    (\<forall>p. set (group_places p g) = insert (p, gid)
      {(Some y, x) | x y. (x, y) \<in> parent_rel groups \<and> (x, gid) \<in> (parent_rel groups)\<^sup>+})"
  using assms
proof (induction gid groups entries visiting rule: rebuild_tree.induct)
  case (1 gid groups entries visiting)
  let ?R = "parent_rel groups"
  obtain rc where rc: "bt_get groups gid = Some rc"
    using 1(4) by (metis domIff dom_map_of_conv_image_fst not_Some_eq)
  have root: "parent_of groups root = None"
    using 1(2) by (auto simp: rooted_def parent_of_def)
  have acyclic: "(x, x) \<notin> ?R\<^sup>+" if "x \<in> fst ` set groups" for x
    using no_cycle_below_root [OF _ root] 1(2) that by (auto simp: rooted_def)
  have fresh: "gid \<notin> set visiting" using acyclic [OF 1(4)] 1(5) by blast
  have gid: "group_id (fg_value rc) = gid" using 1(3) rc by (auto simp: keyed_groups_def dest: map_of_SomeD)
  let ?cs = "child_groups_of gid groups"
  let ?sub = "\<lambda>c. rebuild_tree c groups entries (bs_insert gid visiting)"
  have cs: "set ?cs = {x. (x, gid) \<in> ?R}" using 1(3) by (simp add: set_child_groups keyed_groups_def)
  let ?Q = "\<lambda>c g. group_id g = c \<and> set (entry_places g) = {(fe_parent e, fe_value e) | eid e.
      (eid, e) \<in> set entries \<and> (fe_parent e, c) \<in> ?R\<^sup>*} \<and>
    (\<forall>p. set (group_places p g) = insert (p, c) {(Some y, x) | x y. (x, y) \<in> ?R \<and> (x, c) \<in> ?R\<^sup>+})"
  have "\<forall>c \<in> set ?cs. \<exists>g. ?sub c = Inr g \<and> ?Q c g"
  proof
    fix c assume c: "c \<in> set ?cs"
    then have step: "(c, gid) \<in> ?R" by (simp add: cs)
    then have key: "c \<in> fst ` set groups"
      by (metis bind_eq_Some_conv domI dom_map_of_conv_image_fst parent_of_def parent_rel_iff)
    have above: "\<forall>v \<in> set (bs_insert gid visiting). (c, v) \<in> ?R\<^sup>+"
      using step 1(5) by (auto intro: trancl_into_trancl2)
    show "\<exists>g. ?sub c = Inr g \<and> ?Q c g"
      by (rule 1(1) [OF fresh rc c 1(2,3) key above])
  qed
  from bchoice [OF this] obtain sub where all: "\<forall>c \<in> set ?cs. ?sub c = Inr (sub c) \<and> ?Q c (sub c)" by blast
  have sub: "?sub c = Inr (sub c)"
    and places: "set (entry_places (sub c)) = {(fe_parent e, fe_value e) | eid e.
        (eid, e) \<in> set entries \<and> (fe_parent e, c) \<in> ?R\<^sup>*}"
      "set (group_places p (sub c)) = insert (p, c) {(Some y, x) | x y. (x, y) \<in> ?R \<and> (x, c) \<in> ?R\<^sup>+}"
    if "c \<in> set ?cs" for c p
    using bspec [OF all that] by simp_all
  have "try_map ?sub ?cs = Inr (map sub ?cs)"
    using sub by (simp add: try_map_Inr_iff list_all2_map2 list.rel_refl_strong)
  then have res: "rebuild_tree gid groups entries visiting = Inr (normalize_group_slots
      (Group (g_core (fg_value rc)) (entries_of_group gid entries) (map sub ?cs)))"
    using fresh rc by (subst rebuild_tree.simps) simp
  have star: "(x, gid) \<in> ?R\<^sup>* \<longleftrightarrow> x = gid \<or> (\<exists>c \<in> set ?cs. (x, c) \<in> ?R\<^sup>*)" for x
    unfolding cs by (auto elim: rtranclE intro: rtrancl_into_rtrancl)
  have plus: "(x, gid) \<in> ?R\<^sup>+ \<longleftrightarrow> x \<in> set ?cs \<or> (\<exists>c \<in> set ?cs. (x, c) \<in> ?R\<^sup>+)" for x
    unfolding cs by (auto elim: tranclE intro: trancl_into_trancl)
  have "set (entry_places (Group (g_core (fg_value rc)) (entries_of_group gid entries) (map sub ?cs))) =
      {(fe_parent e, fe_value e) | eid e. (eid, e) \<in> set entries \<and> (fe_parent e, gid) \<in> ?R\<^sup>*}"
    by (simp add: star gid set_entries_of_group places(1)) blast
  moreover have "set (group_places p (Group (g_core (fg_value rc)) (entries_of_group gid entries) (map sub ?cs))) =
      insert (p, gid) {(Some y, x) | x y. (x, y) \<in> ?R \<and> (x, gid) \<in> ?R\<^sup>+}" for p
    by (simp add: plus gid places(2)) (auto simp: cs dest: parent_rel_fun)
  ultimately show ?case by (simp add: res gid)
qed

section \<open>Flattened trees\<close>

text \<open>The rows a tree contributes to the flat maps, in document order.\<close>

fun group_rows :: "uuid option \<Rightarrow> nat \<Rightarrow> vgroup \<Rightarrow> (uuid \<times> flat_group) list"
  and children_rows :: "uuid \<Rightarrow> nat \<Rightarrow> vgroup list \<Rightarrow> (uuid \<times> flat_group) list" where
  "group_rows parent n (Group core entries children) =
     (g_id core, \<lparr>fg_value = Group core [] [], fg_parent = parent, fg_order = n\<rparr>) #
       children_rows (g_id core) 0 children"
| "children_rows parent n [] = []"
| "children_rows parent n (c # cs) = group_rows (Some parent) n c @ children_rows parent (Suc n) cs"

definition local_rows :: "uuid \<Rightarrow> nat \<Rightarrow> entry list \<Rightarrow> (uuid \<times> flat_entry) list" where
  "local_rows parent n es = map (\<lambda>(i, e). (entry_id e, \<lparr>fe_value = e, fe_parent = parent, fe_order = i\<rparr>))
     (enumerate n es)"

fun entry_rows :: "vgroup \<Rightarrow> (uuid \<times> flat_entry) list" where
  "entry_rows (Group core entries children) =
     local_rows (g_id core) 0 entries @ concat (map entry_rows children)"

fun tree_ids :: "vgroup \<Rightarrow> uuid list" where
  "tree_ids (Group core entries children) = g_id core # concat (map tree_ids children)"

lemma map_fst_rows:
  "map fst (group_rows p n g) = tree_ids g"
  "map fst (children_rows q n cs) = concat (map tree_ids cs)"
  by (induction p n g and q n cs rule: group_rows_children_rows.induct) simp_all

lemma local_rows_Cons: "local_rows parent n (e # es) =
    (entry_id e, \<lparr>fe_value = e, fe_parent = parent, fe_order = n\<rparr>) # local_rows parent (Suc n) es"
  by (simp add: local_rows_def)

lemma local_rows_Nil [simp]: "local_rows parent n [] = []"
  by (simp add: local_rows_def)

text \<open>\<open>m'\<close> is \<open>m\<close> with new distinct rows inserted.\<close>

definition grows :: "('k::linorder, 'v) btree \<Rightarrow> ('k \<times> 'v) list \<Rightarrow> ('k, 'v) btree \<Rightarrow> bool" where
  "grows m rows m' \<longleftrightarrow> m' = bt_extend m rows \<and> distinct (map fst rows) \<and> fst ` set m \<inter> fst ` set rows = {}"

lemma grows_Nil [simp]: "grows m [] m' \<longleftrightarrow> m' = m"
  by (auto simp: grows_def)

lemma grows_append: "grows m (xs @ ys) m'' \<longleftrightarrow> (\<exists>m'. grows m xs m' \<and> grows m' ys m'')"
  by (auto simp: grows_def bt_extend_append fst_set_bt_extend)

lemma grows_Cons: "grows m ((k, v) # ys) m'' \<longleftrightarrow> \<not> bt_contains m k \<and> grows (bt_insert k v m) ys m''"
  by (auto simp: grows_def bt_extend_Cons bt_contains_iff)

lemma flatten_entries_rows:
  "flatten_entries es parent n side flat = Inr flat' \<longleftrightarrow>
    (\<exists>m. grows (fv_entries flat) (local_rows parent n es) m \<and> flat' = flat\<lparr>fv_entries := m\<rparr>)"
proof (induction es arbitrary: n flat)
  case Nil
  show ?case by auto
next
  case (Cons e es)
  then show ?case by (auto simp: local_rows_Cons grows_Cons)
qed

lemma flatten_group_rows:
  "flatten_group g parent n side flat = Inr flat' \<longleftrightarrow>
    (\<exists>gm em. grows (fv_groups flat) (group_rows parent n g) gm \<and> grows (fv_entries flat) (entry_rows g) em \<and>
      flat' = flat\<lparr>fv_groups := gm, fv_entries := em\<rparr>)"
  "flatten_children cs q n side flat = Inr flat' \<longleftrightarrow>
    (\<exists>gm em. grows (fv_groups flat) (children_rows q n cs) gm \<and>
      grows (fv_entries flat) (concat (map entry_rows cs)) em \<and>
      flat' = flat\<lparr>fv_groups := gm, fv_entries := em\<rparr>)"
proof (induction g parent n side flat and cs q n side flat arbitrary: flat' and flat'
    rule: flatten_group_flatten_children.induct)
  case (1 core entries children parent order side flat)
  show ?case
  proof (cases "bt_contains (fv_groups flat) (g_id core)")
    case False
    let ?flat = "\<lambda>m. flat\<lparr>fv_groups := bt_insert (g_id core) \<lparr>fg_value = Group core [] [], fg_parent = parent,
      fg_order = order\<rparr> (fv_groups flat), fv_entries := m\<rparr>"
    have sub: "flatten_children children (g_id core) 0 side (?flat m) = Inr flat' \<longleftrightarrow>
        (\<exists>gm em. grows (fv_groups (?flat m)) (children_rows (g_id core) 0 children) gm \<and>
          grows m (concat (map entry_rows children)) em \<and>
          flat' = (?flat m)\<lparr>fv_groups := gm, fv_entries := em\<rparr>)"
      if "grows (fv_entries flat) (local_rows (g_id core) 0 entries) m" for m
    proof -
      have "flatten_entries entries (g_id core) 0 side (flat\<lparr>fv_groups := bt_insert (g_id core)
          \<lparr>fg_value = Group core [] [], fg_parent = parent, fg_order = order\<rparr> (fv_groups flat)\<rparr>) = Inr (?flat m)"
        using that unfolding flatten_entries_rows by auto
      from 1 [OF False this, of flat'] show ?thesis by simp
    qed
    have "flatten_group (Group core entries children) parent order side flat = Inr flat' \<longleftrightarrow>
        (\<exists>m. grows (fv_entries flat) (local_rows (g_id core) 0 entries) m \<and>
          flatten_children children (g_id core) 0 side (?flat m) = Inr flat')"
      using False by (simp add: and_then_eq_Inr flatten_entries_rows) blast
    also have "\<dots> \<longleftrightarrow> (\<exists>m gm em. grows (fv_entries flat) (local_rows (g_id core) 0 entries) m \<and>
        grows (fv_groups (?flat m)) (children_rows (g_id core) 0 children) gm \<and>
        grows m (concat (map entry_rows children)) em \<and>
        flat' = (?flat m)\<lparr>fv_groups := gm, fv_entries := em\<rparr>)"
      using sub by blast
    also have "\<dots> \<longleftrightarrow> (\<exists>gm em. grows (fv_groups flat) (group_rows parent order (Group core entries children)) gm \<and>
        grows (fv_entries flat) (entry_rows (Group core entries children)) em \<and>
        flat' = flat\<lparr>fv_groups := gm, fv_entries := em\<rparr>)"
      using False by (simp add: grows_Cons grows_append) blast
    finally show ?thesis .
  qed (simp add: grows_Cons)
next
  case (2 parent n side flat)
  show ?case by auto
next
  case (3 c cs parent n side flat)
  let ?flat = "\<lambda>gm em. flat\<lparr>fv_groups := gm, fv_entries := em\<rparr>"
  have sub: "flatten_children cs parent (Suc n) side (?flat gm em) = Inr flat' \<longleftrightarrow>
      (\<exists>gm' em'. grows gm (children_rows parent (Suc n) cs) gm' \<and> grows em (concat (map entry_rows cs)) em' \<and>
        flat' = (?flat gm em)\<lparr>fv_groups := gm', fv_entries := em'\<rparr>)"
    if "grows (fv_groups flat) (group_rows (Some parent) n c) gm" "grows (fv_entries flat) (entry_rows c) em"
    for gm em
  proof -
    have "flatten_group c (Some parent) n side flat = Inr (?flat gm em)"
      using that unfolding 3(1) by auto
    from 3(2) [OF this, of flat'] show ?thesis by simp
  qed
  have "flatten_children (c # cs) parent n side flat = Inr flat' \<longleftrightarrow>
      (\<exists>gm em. grows (fv_groups flat) (group_rows (Some parent) n c) gm \<and> grows (fv_entries flat) (entry_rows c) em \<and>
        flatten_children cs parent (Suc n) side (?flat gm em) = Inr flat')"
    by (simp add: and_then_eq_Inr 3(1)) blast
  also have "\<dots> \<longleftrightarrow> (\<exists>gm em gm' em'. grows (fv_groups flat) (group_rows (Some parent) n c) gm \<and>
      grows (fv_entries flat) (entry_rows c) em \<and> grows gm (children_rows parent (Suc n) cs) gm' \<and>
      grows em (concat (map entry_rows cs)) em' \<and> flat' = (?flat gm em)\<lparr>fv_groups := gm', fv_entries := em'\<rparr>)"
    using sub by blast
  also have "\<dots> \<longleftrightarrow> (\<exists>gm em. grows (fv_groups flat) (children_rows parent n (c # cs)) gm \<and>
      grows (fv_entries flat) (concat (map entry_rows (c # cs))) em \<and> flat' = ?flat gm em)"
    by (simp add: grows_append) blast
  finally show ?case .
qed

text \<open>The rows of the children of a group, found by their parent.\<close>

fun subtrees :: "vgroup \<Rightarrow> vgroup list" where
  "subtrees (Group core entries children) = Group core entries children # concat (map subtrees children)"

lemma ids_of_subtrees: "tree_ids g = map group_id (subtrees g)"
  by (induction g) (simp add: map_concat comp_def cong: map_cong)

lemma self_in_subtrees: "g \<in> set (subtrees g)"
  by (cases g) simp

definition child_heads :: "uuid \<Rightarrow> nat \<Rightarrow> vgroup list \<Rightarrow> (uuid \<times> flat_group) list" where
  "child_heads q n cs = map (\<lambda>(i, c). (group_id c,
     \<lparr>fg_value = Group (g_core c) [] [], fg_parent = Some q, fg_order = i\<rparr>)) (enumerate n cs)"

abbreviation under :: "uuid \<Rightarrow> (uuid \<times> flat_group) list \<Rightarrow> (uuid \<times> flat_group) list" where
  "under q \<equiv> filter (\<lambda>(_, r). fg_parent r = Some q)"

abbreviation entries_under :: "uuid \<Rightarrow> (uuid \<times> flat_entry) list \<Rightarrow> (uuid \<times> flat_entry) list" where
  "entries_under q \<equiv> filter (\<lambda>(_, r). fe_parent r = q)"

lemma under_outside:
  "q \<notin> set (tree_ids g) \<Longrightarrow> p \<noteq> Some q \<Longrightarrow> under q (group_rows p n g) = []"
  "q \<notin> set (concat (map tree_ids cs)) \<Longrightarrow> q' \<noteq> q \<Longrightarrow> under q (children_rows q' n cs) = []"
  by (induction p n g and q' n cs rule: group_rows_children_rows.induct) auto

lemma under_own:
  "q \<notin> set (concat (map tree_ids cs)) \<Longrightarrow> under q (children_rows q n cs) = child_heads q n cs"
proof (induction cs arbitrary: n)
  case (Cons c cs)
  obtain core es gs where c: "c = Group core es gs" by (cases c)
  have "under q (children_rows (g_id core) 0 gs) = []"
    using Cons.prems c by (intro under_outside(2)) auto
  then show ?case using Cons c by (simp add: child_heads_def)
qed (simp add: child_heads_def)

lemma under_subtree:
  assumes "distinct (tree_ids g)" and "s \<in> set (subtrees g)" and "p \<notin> Some ` set (tree_ids g)"
  shows "under (group_id s) (group_rows p n g) = child_heads (group_id s) 0 (g_children s)"
  using assms
proof (induction g arbitrary: p n)
  case (Group core es cs)
  let ?q = "group_id s"
  show ?case
  proof (cases "s = Group core es cs")
    case True
    then show ?thesis using Group.prems by (auto simp: under_own)
  next
    case False
    then have "\<exists>c \<in> set cs. s \<in> set (subtrees c)" using Group.prems(2) by auto
    moreover have "distinct (concat (map tree_ids cs))" "g_id core \<notin> set (concat (map tree_ids cs))"
      using Group.prems(1) by simp_all
    ultimately have "under ?q (children_rows (g_id core) m cs) = child_heads ?q 0 (g_children s)" for m
      using Group.IH
    proof (induction cs arbitrary: m)
      case (Cons c cs)
      have id_in: "s \<in> set (subtrees d) \<Longrightarrow> ?q \<in> set (tree_ids d)" for d by (simp add: ids_of_subtrees)
      show ?case
      proof (cases "s \<in> set (subtrees c)")
        case True
        have "under ?q (group_rows (Some (g_id core)) m c) = child_heads ?q 0 (g_children s)"
          using Cons.prems True by (intro Cons.prems(4)) auto
        moreover have "under ?q (children_rows (g_id core) (Suc m) cs) = []"
          using Cons.prems(2,3) id_in [OF True] by (intro under_outside(2)) auto
        ultimately show ?thesis by simp
      next
        case False
        then obtain d where d: "d \<in> set cs" "s \<in> set (subtrees d)" using Cons.prems(1) by auto
        have "under ?q (children_rows (g_id core) (Suc m) cs) = child_heads ?q 0 (g_children s)"
          using Cons.prems d by (intro Cons.IH) auto
        moreover have "under ?q (group_rows (Some (g_id core)) m c) = []"
          using Cons.prems(2,3) d id_in [OF d(2)] by (intro under_outside(1)) auto
        ultimately show ?thesis by simp
      qed
    qed simp
    moreover have "p \<noteq> Some ?q"
      using Group.prems(2,3) by (auto simp: ids_of_subtrees simp del: subtrees.simps tree_ids.simps)
    ultimately show ?thesis by simp
  qed
qed

lemma entries_under_local:
  "entries_under q (local_rows q' n es) = (if q = q' then local_rows q' n es else [])"
  by (induction es arbitrary: n) (auto simp: local_rows_Cons)

lemma entries_under_outside:
  "q \<notin> set (tree_ids g) \<Longrightarrow> entries_under q (entry_rows g) = []"
proof (induction g)
  case (Group core es cs)
  then have "entries_under q (concat (map entry_rows cs)) = []" by (auto simp: filter_concat)
  with Group.prems show ?case by (simp add: entries_under_local)
qed

lemma entries_under_subtree:
  assumes "distinct (tree_ids g)" and "s \<in> set (subtrees g)"
  shows "entries_under (group_id s) (entry_rows g) = local_rows (group_id s) 0 (g_entries s)"
  using assms
proof (induction g)
  case (Group core es cs)
  let ?q = "group_id s"
  show ?case
  proof (cases "s = Group core es cs")
    case True
    have "entries_under (g_id core) (concat (map entry_rows cs)) = []"
      using Group.prems(1) by (auto simp: filter_concat intro!: entries_under_outside [simplified])
    then show ?thesis using True by (simp add: entries_under_local)
  next
    case False
    then have "\<exists>c \<in> set cs. s \<in> set (subtrees c)" using Group.prems(2) by auto
    moreover have "distinct (concat (map tree_ids cs))" "g_id core \<notin> set (concat (map tree_ids cs))"
      using Group.prems(1) by simp_all
    ultimately have "entries_under ?q (concat (map entry_rows cs)) = local_rows ?q 0 (g_entries s) \<and>
        ?q \<noteq> g_id core"
      using Group.IH
    proof (induction cs)
      case (Cons c cs)
      have id_in: "s \<in> set (subtrees d) \<Longrightarrow> ?q \<in> set (tree_ids d)" for d by (simp add: ids_of_subtrees)
      show ?case
      proof (cases "s \<in> set (subtrees c)")
        case True
        have "entries_under ?q (concat (map entry_rows cs)) = []"
          using Cons.prems(2) id_in [OF True] by (auto simp: filter_concat intro!: entries_under_outside)
        then show ?thesis using Cons.prems True id_in [OF True] by auto
      next
        case False
        then obtain d where d: "d \<in> set cs" "s \<in> set (subtrees d)" using Cons.prems(1) by auto
        have "entries_under ?q (entry_rows c) = []"
          using Cons.prems(2) d id_in [OF d(2)] by (intro entries_under_outside) auto
        then show ?thesis using Cons d by auto
      qed
    qed simp
    then show ?thesis by (simp add: entries_under_local)
  qed
qed

section \<open>Rebuilding a flattened tree\<close>

lemma sort_key_unique:
  assumes "distinct xs" "distinct ys" "set xs = set ys" "inj_on k (set ys)" "sorted (map k ys)"
  shows "sort_key k xs = ys"
proof (rule sort_key_inj_key_eq)
  show "mset xs = mset ys" using assms(1-3) by (simp add: set_eq_iff_mset_eq_distinct)
qed (use assms in simp_all)

lemma bt_of_list_distinct:
  assumes "distinct (map fst rows)"
  shows "set (bt_of_list rows) = set rows" and "distinct (bt_of_list rows)"
proof -
  have wf: "distinct (map fst (bt_of_list rows))" by (intro bt_wf_distinct) simp
  show "distinct (bt_of_list rows)" using wf by (simp add: distinct_map)
  have "map_of (bt_of_list rows) = map_of rows"
    using assms by (simp add: bt_get_extend map_of_rev_distinct)
  then show "set (bt_of_list rows) = set rows"
    using wf assms by (metis graph_map_of_if_distinct_dom)
qed

definition flat_of :: "vault \<Rightarrow> flat_vault" where
  "flat_of v = \<lparr>fv_root_id = group_id (v_root v), fv_entries = bt_of_list (entry_rows (v_root v)),
     fv_groups = bt_of_list (group_rows None 0 (v_root v))\<rparr>"

definition unique_ids :: "vault \<Rightarrow> bool" where
  "unique_ids v \<longleftrightarrow> distinct (tree_ids (v_root v)) \<and> distinct (map fst (entry_rows (v_root v)))"

lemma flatten_vault_iff:
  "flatten_vault v side = Inr flat \<longleftrightarrow> unique_ids v \<and> flat = flat_of v"
  by (auto simp: flatten_vault_def flatten_group_rows grows_def unique_ids_def flat_of_def map_fst_rows)

lemma child_groups_flat:
  assumes u: "unique_ids v" and s: "s \<in> set (subtrees (v_root v))"
  shows "child_groups_of (group_id s) (fv_groups (flat_of v)) = map group_id (g_children s)"
proof -
  let ?rows = "group_rows None 0 (v_root v)" and ?q = "group_id s"
  let ?heads = "child_heads ?q 0 (g_children s)"
  have dist: "distinct (map fst ?rows)" using u by (simp add: unique_ids_def map_fst_rows)
  have heads: "under ?q ?rows = ?heads"
    using u s by (intro under_subtree) (simp_all add: unique_ids_def)
  have fst_heads: "map fst ?heads = map group_id (g_children s)"
    by (rule nth_equalityI) (simp_all add: child_heads_def nth_enumerate_eq)
  have "sort_key (\<lambda>(cid, child). (fg_order child, cid)) (under ?q (bt_of_list ?rows)) = ?heads"
  proof (rule sort_key_unique)
    show "distinct (under ?q (bt_of_list ?rows))" using dist by (simp add: bt_of_list_distinct)
    have "distinct (under ?q ?rows)" using dist by (simp add: distinct_map)
    then show "distinct ?heads" by (simp only: heads)
    show "set (under ?q (bt_of_list ?rows)) = set ?heads"
      unfolding heads [symmetric] using dist by (simp add: bt_of_list_distinct)
    have order: "map (\<lambda>(cid, child). (fg_order child, cid)) ?heads =
        map (\<lambda>(i, c). (i, group_id c)) (enumerate 0 (g_children s))"
      by (simp add: child_heads_def comp_def case_prod_unfold)
    have "sorted_wrt (<) (map (\<lambda>(i, c). (i, group_id c)) (enumerate 0 (g_children s)))"
      by (simp add: sorted_wrt_iff_nth_less nth_enumerate_eq)
    then have strict: "sorted_wrt (<) (map (\<lambda>(cid, child). (fg_order child, cid)) ?heads)"
      by (simp only: order)
    show "sorted (map (\<lambda>(cid, child). (fg_order child, cid)) ?heads)"
      using strict by (rule strict_sorted_imp_sorted)
    have "distinct (map (\<lambda>(cid, child). (fg_order child, cid)) ?heads)"
      using strict by (simp add: strict_sorted_iff)
    then show "inj_on (\<lambda>(cid, child). (fg_order child, cid)) (set ?heads)"
      by (simp only: distinct_map)
  qed
  then show ?thesis by (simp add: child_groups_of_def flat_of_def fst_heads)
qed

lemma entries_of_group_flat:
  assumes u: "unique_ids v" and s: "s \<in> set (subtrees (v_root v))"
  shows "entries_of_group (group_id s) (fv_entries (flat_of v)) = g_entries s"
proof -
  let ?rows = "entry_rows (v_root v)" and ?q = "group_id s"
  let ?own = "local_rows ?q 0 (g_entries s)"
  let ?key = "\<lambda>(eid :: uuid, entry :: flat_entry). (fe_order entry, eid)"
  have dist: "distinct (map fst ?rows)" using u by (simp add: unique_ids_def)
  have own: "entries_under ?q ?rows = ?own"
    using u s by (intro entries_under_subtree) (simp_all add: unique_ids_def)
  have vals: "map (\<lambda>(_, entry). fe_value entry) ?own = g_entries s"
    by (rule nth_equalityI) (simp_all add: local_rows_def nth_enumerate_eq)
  have "sort_key ?key (entries_under ?q (bt_of_list ?rows)) = ?own"
  proof (rule sort_key_unique)
    show "distinct (entries_under ?q (bt_of_list ?rows))" using dist by (simp add: bt_of_list_distinct)
    have "distinct (entries_under ?q ?rows)" using dist by (simp add: distinct_map)
    then show "distinct ?own" by (simp only: own)
    show "set (entries_under ?q (bt_of_list ?rows)) = set ?own"
      unfolding own [symmetric] using dist by (simp add: bt_of_list_distinct)
    have strict: "sorted_wrt (<) (map ?key ?own)"
      by (simp add: local_rows_def sorted_wrt_iff_nth_less nth_enumerate_eq)
    show "sorted (map ?key ?own)" using strict by (rule strict_sorted_imp_sorted)
    have "distinct (map ?key ?own)" using strict by (simp add: strict_sorted_iff)
    then show "inj_on ?key (set ?own)" by (simp only: distinct_map)
  qed
  then show ?thesis by (simp add: entries_of_group_def flat_of_def vals)
qed

fun norm_tree :: "vgroup \<Rightarrow> vgroup" where
  "norm_tree (Group core entries children) =
     normalize_group_slots (Group core entries (map norm_tree children))"

lemma rows_of_subtree:
  "s \<in> set (subtrees g) \<Longrightarrow> \<exists>r. (group_id s, r) \<in> set (group_rows p n g) \<and> g_core (fg_value r) = g_core s"
proof (induction g arbitrary: p n)
  case (Group core es cs)
  have "\<exists>r. (group_id s, r) \<in> set (children_rows q m cs) \<and> g_core (fg_value r) = g_core s"
    if "s \<in> set (concat (map subtrees cs))" for q m
    using that Group.IH by (induction cs arbitrary: m) (fastforce simp: image_iff)+
  then show ?case using Group.prems by auto
qed

lemma subtrees_trans: "s \<in> set (subtrees t) \<Longrightarrow> t \<in> set (subtrees g) \<Longrightarrow> s \<in> set (subtrees g)"
  by (induction g) auto

lemma rebuild_subtree:
  assumes u: "unique_ids v" and "s \<in> set (subtrees (v_root v))" and "distinct (tree_ids s)"
    and "set visiting \<inter> set (tree_ids s) = {}"
  shows "rebuild_tree (group_id s) (fv_groups (flat_of v)) (fv_entries (flat_of v)) visiting = Inr (norm_tree s)"
  using assms(2-)
proof (induction s arbitrary: visiting)
  case (Group core es cs)
  let ?groups = "fv_groups (flat_of v)" and ?entries = "fv_entries (flat_of v)"
  have "\<exists>r. (g_id core, r) \<in> set (group_rows None 0 (v_root v)) \<and> g_core (fg_value r) = core"
    using rows_of_subtree [OF Group.prems(1), of None 0] by simp
  then obtain r where "(g_id core, r) \<in> set ?groups" and r: "g_core (fg_value r) = core"
    using u by (auto simp: flat_of_def unique_ids_def bt_of_list_distinct map_fst_rows)
  then have get: "bt_get ?groups (g_id core) = Some r"
    by (intro map_of_is_SomeI) (simp_all add: flat_of_def bt_wf_distinct)
  have sub: "rebuild_tree (group_id c) ?groups ?entries (bs_insert (g_id core) visiting) = Inr (norm_tree c)"
    if c: "c \<in> set cs" for c
  proof (rule Group.IH [OF c])
    show "c \<in> set (subtrees (v_root v))"
      by (rule subtrees_trans [OF _ Group.prems(1)]) (use c self_in_subtrees in auto)
    show "distinct (tree_ids c)" using Group.prems(2) c by (auto simp: distinct_concat_iff)
    show "set (bs_insert (g_id core) visiting) \<inter> set (tree_ids c) = {}"
      using Group.prems(2,3) c by auto
  qed
  have "try_map (\<lambda>cid. rebuild_tree cid ?groups ?entries (bs_insert (g_id core) visiting)) (map group_id cs) =
      Inr (map norm_tree cs)"
    using sub by (simp add: try_map_Inr_iff list_all2_map1 list_all2_map2 list.rel_refl_strong)
  then show ?case
    using get r Group.prems(3) child_groups_flat [OF u Group.prems(1)] entries_of_group_flat [OF u Group.prems(1)]
    by (subst rebuild_tree.simps) simp
qed

section \<open>Rebased sibling orders\<close>

lemma splice_keeps_remote:
  "filter (\<lambda>x. x \<notin> set prefer) (fst op) = rem \<Longrightarrow> set (snd op) \<subseteq> set prefer \<Longrightarrow>
   filter (\<lambda>x. x \<notin> set prefer) (fst (splice_step prefer op y)) = rem \<and>
   set (snd (splice_step prefer op y)) \<subseteq> set prefer"
proof -
  assume h: "filter (\<lambda>x. x \<notin> set prefer) (fst op) = rem" "set (snd op) \<subseteq> set prefer"
  have "filter (\<lambda>x. x \<notin> set prefer) (takeWhile (\<lambda>z. z \<noteq> y) xs) @
      filter (\<lambda>x. x \<notin> set prefer) (dropWhile (\<lambda>z. z \<noteq> y) xs) = filter (\<lambda>x. x \<notin> set prefer) xs" for xs
    by (metis filter_append takeWhile_dropWhile_id)
  moreover have "filter (\<lambda>x. x \<notin> set prefer) (snd op) = []" using h(2) by (auto simp: filter_empty_conv)
  ultimately show ?thesis using h by (cases op) (auto simp: splice_step_def)
qed

lemma splice_fold:
  "filter (\<lambda>x. x \<notin> set prefer) (fst op) = rem \<Longrightarrow> set (snd op) \<subseteq> set prefer \<Longrightarrow>
   filter (\<lambda>x. x \<notin> set prefer) (fst (foldl (splice_step prefer) op ys)) = rem \<and>
   set (snd (foldl (splice_step prefer) op ys)) \<subseteq> set prefer"
proof (induction ys arbitrary: op)
  case (Cons y ys)
  from splice_keeps_remote [OF Cons.prems, of y] Cons.IH [of "splice_step prefer op y"] show ?case by simp
qed simp

lemma rebase_result:
  assumes "rebase_sibling_order parent object final_ids local_order remote_order prefer = Inr order"
  shows "distinct order" and "set order = set final_ids"
    and "filter (\<lambda>x. x \<notin> set prefer) order = filter (\<lambda>x. x \<notin> set prefer) remote_order"
    and "list_all (\<lambda>(x, y). x \<in> set prefer \<or> y \<in> set prefer \<longrightarrow> position_in order x < position_in order y)
      (pairs local_order)"
proof -
  obtain order0 pending where run: "foldl (splice_step prefer)
      (filter (\<lambda>x. x \<notin> set prefer) remote_order, []) local_order = (order0, pending)" by fastforce
  with assms have order: "order = order0 @ pending" and len: "length order = length final_ids"
    and ids: "bs_of_list order = final_ids"
    and pos: "\<not> list_ex (\<lambda>(x, y). (x \<in> set prefer \<or> y \<in> set prefer) \<and>
      position_in order x \<ge> position_in order y) (pairs local_order)"
    by (auto simp: rebase_sibling_order_def Let_def split: if_splits)
  show set: "set order = set final_ids" by (simp flip: ids)
  have "card (set order) = length order"
    using len set ids by (metis bs_wf_distinct bs_wf_of_list distinct_card)
  then show "distinct order" by (rule card_distinct)
  show "filter (\<lambda>x. x \<notin> set prefer) order = filter (\<lambda>x. x \<notin> set prefer) remote_order"
    using splice_fold [of "prefer" "(filter (\<lambda>x. x \<notin> set prefer) remote_order, [])" _ local_order] run order
    by (auto simp: filter_empty_conv)
  show "list_all (\<lambda>(x, y). x \<in> set prefer \<or> y \<in> set prefer \<longrightarrow> position_in order x < position_in order y)
      (pairs local_order)"
    using pos by (auto simp: list_all_iff list_ex_iff)
qed

lemma bt_modify_simps [simp]:
  "map fst (bt_modify k f m) = map fst m"
  "map_of (bt_modify k f m) x = (if x = k then map_option f (map_of m x) else map_of m x)"
  by (induction m) (auto simp: bt_modify_def)

definition same_but_order :: "(uuid, flat_entry) btree \<Rightarrow> (uuid, flat_entry) btree \<Rightarrow> bool" where
  "same_but_order m m' \<longleftrightarrow> map (\<lambda>(k, e). (k, fe_value e, fe_parent e)) m = map (\<lambda>(k, e). (k, fe_value e, fe_parent e)) m'"

definition same_groups_but_order :: "(uuid, flat_group) btree \<Rightarrow> (uuid, flat_group) btree \<Rightarrow> bool" where
  "same_groups_but_order m m' \<longleftrightarrow>
     map (\<lambda>(k, g). (k, fg_value g, fg_parent g)) m = map (\<lambda>(k, g). (k, fg_value g, fg_parent g)) m'"

lemma set_orders_same:
  "same_but_order m (foldl (\<lambda>m (i, x). bt_modify x (\<lambda>e. e\<lparr>fe_order := i\<rparr>) m) m ps) \<and>
   same_groups_but_order gm (foldl (\<lambda>m (i, x). bt_modify x (\<lambda>g. g\<lparr>fg_order := i\<rparr>) m) gm ps)"
proof (induction ps arbitrary: m gm)
  case (Cons p ps)
  obtain i x where p: "p = (i, x)" by (cases p)
  have "same_but_order m (bt_modify x (\<lambda>e. e\<lparr>fe_order := i\<rparr>) m)"
    "same_groups_but_order gm (bt_modify x (\<lambda>g. g\<lparr>fg_order := i\<rparr>) gm)"
    by (auto simp: same_but_order_def same_groups_but_order_def bt_modify_def)
  with Cons.IH [of "bt_modify x (\<lambda>e. e\<lparr>fe_order := i\<rparr>) m" "bt_modify x (\<lambda>g. g\<lparr>fg_order := i\<rparr>) gm"]
  show ?case by (simp add: p same_but_order_def same_groups_but_order_def)
qed (simp_all add: same_but_order_def same_groups_but_order_def)

lemma reconcile_entries_same:
  assumes "reconcile_entry_sibling_orders base local remote m = Inr m'"
  shows "same_but_order m m'"
  using assms unfolding reconcile_entry_sibling_orders_def
proof (rule try_fold_invariant [where P = "same_but_order m"])
  show "same_but_order m s'"
    if "same_but_order m s" and "(let final_ids = bs_of_list (map fst (filter (\<lambda>(_, entry). fe_parent entry = p) s));
        local_order = ordered_entry_ids (fv_entries local) p final_ids;
        remote_order = ordered_entry_ids (fv_entries remote) p final_ids;
        prefer_local = bs_of_list (filter (\<lambda>eid. entry_order_prefers_local eid base local remote s) final_ids)
      in and_then (rebase_sibling_order p ''entry'' final_ids local_order remote_order prefer_local)
           (\<lambda>order. Inr (foldl (\<lambda>m (index, eid). bt_modify eid (\<lambda>entry. entry\<lparr>fe_order := index\<rparr>) m)
              s (enumerate 0 order)))) = Inr s'" for s p s'
    using that set_orders_same [of s] by (auto simp: Let_def and_then_eq_Inr same_but_order_def)
qed (simp add: same_but_order_def)

lemma reconcile_groups_same:
  assumes "reconcile_group_sibling_orders base local remote m = Inr m'"
  shows "same_groups_but_order m m'"
  using assms unfolding reconcile_group_sibling_orders_def
proof (rule try_fold_invariant [where P = "same_groups_but_order m"])
  show "same_groups_but_order m s'"
    if "same_groups_but_order m s" and "(let final_ids = bs_of_list (map fst (filter (\<lambda>(_, grp). fg_parent grp = Some p) s));
        local_order = ordered_group_ids (fv_groups local) p final_ids;
        remote_order = ordered_group_ids (fv_groups remote) p final_ids;
        prefer_local = bs_of_list (filter (\<lambda>gid. group_order_prefers_local gid base local remote s) final_ids)
      in and_then (rebase_sibling_order p ''group'' final_ids local_order remote_order prefer_local)
           (\<lambda>order. Inr (foldl (\<lambda>m (index, gid). bt_modify gid (\<lambda>grp. grp\<lparr>fg_order := index\<rparr>) m)
              s (enumerate 0 order)))) = Inr s'" for s p s'
    using that set_orders_same [of _ _ s] by (auto simp: Let_def and_then_eq_Inr same_groups_but_order_def)
qed (simp add: same_groups_but_order_def)

section \<open>Properties\<close>

text \<open>C40. The loop of \<open>group_is_below_or_same\<close> ends and decides reachability: it returns true exactly when
  the candidate is the ancestor or one of its parents, parents of parents and so on is, also in maps
  whose parents form a cycle or name missing groups.\<close>

theorem below_is_reachability:
  "group_is_below_or_same flat candidate ancestor \<longleftrightarrow>
     (candidate, ancestor) \<in> {(x, y). parent_of (fv_groups flat) x = Some y}\<^sup>*"
  using below_iff by (simp add: parent_rel_def)

text \<open>C21. Validation accepts exactly the hierarchies that are a tree below the root: the root group is
  there and has no parent, and from every group the parents lead to the root, so that there is neither
  a cycle nor a missing parent.\<close>

theorem validation_accepts_trees:
  "validate_group_hierarchy root_id groups = Inr () \<longleftrightarrow>
     (\<exists>r. bt_get groups root_id = Some r \<and> fg_parent r = None) \<and>
     fst ` set groups \<subseteq> {x. (x, root_id) \<in> {(x, y). parent_of groups x = Some y}\<^sup>*}"
  by (simp add: validate_iff rooted_def parent_rel_def)

lemma rebuild_complete:
  assumes "validate_group_hierarchy root_id groups = Inr ()"
    and keys: "distinct (map fst groups)" "\<forall>(x, r) \<in> set groups. group_id (fg_value r) = x"
    and parents: "fe_parent ` snd ` set entries \<subseteq> fst ` set groups"
  shows "\<exists>g. rebuild_tree root_id groups entries [] = Inr g \<and>
    set (entry_places g) = (\<lambda>(_, e). (fe_parent e, fe_value e)) ` set entries \<and>
    set (group_places None g) = (\<lambda>(x, r). (fg_parent r, x)) ` set groups"
proof -
  have rooted: "rooted root_id groups" using assms(1) by (simp add: validate_iff)
  have keyed: "keyed_groups groups" using keys by (simp add: keyed_groups_def)
  obtain r where r: "bt_get groups root_id = Some r" "fg_parent r = None" using rooted by (auto simp: rooted_def)
  have root: "root_id \<in> fst ` set groups" using r(1) by (metis domI dom_map_of_conv_image_fst)
  obtain g where g: "rebuild_tree root_id groups entries [] = Inr g"
    "set (entry_places g) = {(fe_parent e, fe_value e) | eid e.
      (eid, e) \<in> set entries \<and> (fe_parent e, root_id) \<in> (parent_rel groups)\<^sup>*}"
    "set (group_places None g) = insert (None, root_id)
      {(Some y, x) | x y. (x, y) \<in> parent_rel groups \<and> (x, root_id) \<in> (parent_rel groups)\<^sup>+}"
    using rebuild_tree_ok [OF rooted keyed root, of "[]" entries] by auto
  have up: "(x, root_id) \<in> (parent_rel groups)\<^sup>*" if "x \<in> fst ` set groups" for x
    using rooted that by (auto simp: rooted_def)
  have rows: "(x, s) \<in> set groups \<longleftrightarrow> bt_get groups x = Some s" for x s using keys(1) by simp
  have "set (entry_places g) = (\<lambda>(_, e). (fe_parent e, fe_value e)) ` set entries"
  proof -
    have "(fe_parent e, root_id) \<in> (parent_rel groups)\<^sup>*" if "(eid, e) \<in> set entries" for eid e
    proof (rule up)
      have "fe_parent e \<in> fe_parent ` snd ` set entries" using that by (metis image_eqI snd_conv)
      then show "fe_parent e \<in> fst ` set groups" using parents by blast
    qed
    then have "{(fe_parent e, fe_value e) | eid e. (eid, e) \<in> set entries \<and>
        (fe_parent e, root_id) \<in> (parent_rel groups)\<^sup>*} =
        {(fe_parent e, fe_value e) | eid e. (eid, e) \<in> set entries}" by blast
    also have "\<dots> = (\<lambda>(_, e). (fe_parent e, fe_value e)) ` set entries" by force
    finally show ?thesis using g(2) by simp
  qed
  moreover have "set (group_places None g) = (\<lambda>(x, r). (fg_parent r, x)) ` set groups"
  proof
    show "set (group_places None g) \<subseteq> (\<lambda>(x, r). (fg_parent r, x)) ` set groups"
    proof
      fix q assume "q \<in> set (group_places None g)"
      then have "q = (None, root_id) \<or> (\<exists>x y. q = (Some y, x) \<and> parent_of groups x = Some y)"
        by (auto simp: g(3) parent_rel_iff)
      then have "\<exists>x s. q = (fg_parent s, x) \<and> bt_get groups x = Some s"
        using r by (auto simp: parent_of_def bind_eq_Some_conv intro: sym)
      then obtain x s where "q = (fg_parent s, x)" "bt_get groups x = Some s" by blast
      then show "q \<in> (\<lambda>(x, r). (fg_parent r, x)) ` set groups"
        by (intro image_eqI [of _ _ "(x, s)"]) (simp_all add: rows)
    qed
    show "(\<lambda>(x, r). (fg_parent r, x)) ` set groups \<subseteq> set (group_places None g)"
    proof clarify
      fix x s assume xs: "(x, s) \<in> set groups"
      have star: "(x, root_id) \<in> (parent_rel groups)\<^sup>*" using up xs by force
      show "(fg_parent s, x) \<in> set (group_places None g)"
      proof (cases "fg_parent s")
        case None
        then have "x = root_id"
          using star xs by (auto simp: rows parent_rel_iff parent_of_def elim: converse_rtranclE)
        with None show ?thesis by (simp add: g(3))
      next
        case (Some y)
        then have "x \<noteq> root_id" "(x, y) \<in> parent_rel groups"
          using xs r by (auto simp: rows parent_rel_iff parent_of_def)
        with star Some show ?thesis by (auto simp: g(3) rtrancl_eq_or_trancl)
      qed
    qed
  qed
  ultimately show ?thesis using g(1) by blast
qed

text \<open>C12. Rebuilding a validated hierarchy succeeds and loses nothing: the tree has exactly the given
  entries, each in the group that is its parent, and exactly the given groups, each below its parent.\<close>

theorem rebuilt_tree_is_complete:
  assumes "validate_group_hierarchy root_id groups = Inr ()"
    and keys: "distinct (map fst groups)" "\<forall>(x, r) \<in> set groups. group_id (fg_value r) = x"
    and parents: "fe_parent ` snd ` set entries \<subseteq> fst ` set groups"
  shows "\<exists>g. rebuild_tree root_id groups entries [] = Inr g \<and>
    set (entry_places g) = (\<lambda>(_, e). (fe_parent e, fe_value e)) ` set entries \<and>
    set (group_places None g) = (\<lambda>(x, r). (fg_parent r, x)) ` set groups"
  by (rule rebuild_complete [OF assms])

text \<open>A root with a sub-group and an entry in each.\<close>

definition example_tree :: vgroup where
  "example_tree = Group (g_core (group_new 1 ''root'')) [entry_new 10 ''a'']
     [Group (g_core (group_new 2 ''sub'')) [entry_new 11 ''b'', entry_new 12 ''c''] []]"

definition example_vault :: vault where
  "example_vault = (vault_empty 1 ''root'')\<lparr>v_root := example_tree\<rparr>"

lemma example_flat:
  "flatten_vault example_vault ''base'' = Inr (flat_of example_vault)"
  by (simp add: flatten_vault_iff unique_ids_def example_vault_def example_tree_def local_rows_def
      group_new_def entry_new_def)

lemma rebuilt_tree_is_complete_witness:
  "\<exists>g. rebuild_tree 1 (fv_groups (flat_of example_vault)) (fv_entries (flat_of example_vault)) [] = Inr g \<and>
    (2, entry_new 12 ''c'') \<in> set (entry_places g)"
proof -
  let ?groups = "fv_groups (flat_of example_vault)" and ?entries = "fv_entries (flat_of example_vault)"
  have g: "?groups = [(1, \<lparr>fg_value = Group (g_core (group_new 1 ''root'')) [] [], fg_parent = None, fg_order = 0\<rparr>),
      (2, \<lparr>fg_value = Group (g_core (group_new 2 ''sub'')) [] [], fg_parent = Some 1, fg_order = 0\<rparr>)]"
    and e: "?entries = [(10, \<lparr>fe_value = entry_new 10 ''a'', fe_parent = 1, fe_order = 0\<rparr>),
      (11, \<lparr>fe_value = entry_new 11 ''b'', fe_parent = 2, fe_order = 0\<rparr>),
      (12, \<lparr>fe_value = entry_new 12 ''c'', fe_parent = 2, fe_order = 1\<rparr>)]"
    by (simp_all add: flat_of_def example_vault_def example_tree_def local_rows_def bt_extend_Cons
        group_new_def entry_new_def)
  have "validate_group_hierarchy 1 ?groups = Inr ()"
    by (simp add: g validate_group_hierarchy_def validate_walk.simps)
  moreover have "distinct (map fst ?groups)" "\<forall>(x, r) \<in> set ?groups. group_id (fg_value r) = x"
    by (simp_all add: g group_new_def)
  moreover have "fe_parent ` snd ` set ?entries \<subseteq> fst ` set ?groups" by (simp add: g e)
  ultimately have "\<exists>t. rebuild_tree 1 ?groups ?entries [] = Inr t \<and>
    set (entry_places t) = (\<lambda>(_, e). (fe_parent e, fe_value e)) ` set ?entries \<and>
    set (group_places None t) = (\<lambda>(x, r). (fg_parent r, x)) ` set ?groups"
    by (rule rebuilt_tree_is_complete)
  then show ?thesis by (auto simp: e)
qed

text \<open>C15. Rebuilding what flattening a vault gives returns the vault's own tree, every group with its
  entries and sub-groups in their order, up to the normalization of the slots in the XML node order.\<close>

theorem flatten_rebuild_roundtrip:
  assumes "flatten_vault v side = Inr flat"
  shows "rebuild_tree (fv_root_id flat) (fv_groups flat) (fv_entries flat) [] = Inr (norm_tree (v_root v))"
proof -
  have u: "unique_ids v" and flat: "flat = flat_of v" using assms by (simp_all add: flatten_vault_iff)
  have "rebuild_tree (group_id (v_root v)) (fv_groups (flat_of v)) (fv_entries (flat_of v)) [] =
      Inr (norm_tree (v_root v))"
    by (rule rebuild_subtree [OF u self_in_subtrees]) (use u in \<open>simp_all add: unique_ids_def\<close>)
  then show ?thesis by (simp add: flat) (simp add: flat_of_def)
qed

lemma flatten_rebuild_roundtrip_witness:
  "\<exists>flat. flatten_vault example_vault ''base'' = Inr flat \<and>
    rebuild_tree (fv_root_id flat) (fv_groups flat) (fv_entries flat) [] = Inr (norm_tree example_tree)"
  using flatten_rebuild_roundtrip [OF example_flat] example_flat by (auto simp: example_vault_def)

text \<open>Flattening fails exactly when the vault holds two groups or two entries with one identifier.\<close>

theorem flatten_rejects_duplicates:
  "(\<exists>flat. flatten_vault v side = Inr flat) \<longleftrightarrow>
     distinct (map snd (group_places None (v_root v))) \<and>
     distinct (map (\<lambda>(_, e). entry_id e) (entry_places (v_root v)))"
proof -
  have "map snd (group_places p g) = tree_ids g" for p g
    by (induction g arbitrary: p) (simp add: map_concat comp_def cong: map_cong)
  moreover have "map (\<lambda>(_, e). entry_id e) (entry_places g) = map fst (entry_rows g)" for g
  proof (induction g)
    case (Group core es cs)
    have "map fst (local_rows q n es) = map entry_id es" for q n
      by (rule nth_equalityI) (simp_all add: local_rows_def nth_enumerate_eq)
    then show ?case using Group.IH by (simp add: map_concat comp_def cong: map_cong)
  qed
  ultimately show ?thesis by (simp add: flatten_vault_iff unique_ids_def)
qed

text \<open>A rebased sibling order, when one is returned, is an order of exactly the merged siblings without
  repetition; the siblings not taken from the local side keep the remote side's order; and every two
  neighbours of the local order of which one is taken from the local side keep their order.\<close>

theorem rebased_order_respects_both:
  assumes "rebase_sibling_order parent object final_ids local_order remote_order prefer_local = Inr order"
  shows "distinct order \<and> set order = set final_ids \<and>
    filter (\<lambda>x. x \<notin> set prefer_local) order = filter (\<lambda>x. x \<notin> set prefer_local) remote_order \<and>
    list_all (\<lambda>(x, y). x \<in> set prefer_local \<or> y \<in> set prefer_local \<longrightarrow>
      position_in order x < position_in order y) (pairs local_order)"
  using rebase_result [OF assms] by blast

lemma rebased_order_respects_both_witness:
  "filter (\<lambda>x. x \<notin> set [4]) [1, 4, 3, 2] = filter (\<lambda>x. x \<notin> set [4]) [1, 3, 2 :: uuid]"
proof -
  have "rebase_sibling_order 9 ''entry'' [1, 2, 3, 4] [1, 4, 3] [1, 3, 2] [4] = Inr [1, 4, 3, 2]"
    by (simp add: rebase_sibling_order_def splice_step_def position_in_def bs_of_list_def)
  from rebased_order_respects_both [OF this] show ?thesis by blast
qed

end
