(* ===== verification/EntryMerge.thy ===== *)
theory EntryMerge
  imports Hierarchy
begin

text \<open>
  Merging one entry, one group and the metadata (\<^verbatim>\<open>crates/vaultkern-model/src/three_way_patch.rs\<close>,
  \<open>merge_entry\<close>, \<open>merge_group_fields\<close>, \<open>merge_meta\<close>). The lemmas show how every field is
  selected, that credentials are selected as units, and that an entry conflict keeps the losing version
  in the history and in the list of snapshots the caller must find in the saved vault.
\<close>

section \<open>Report and snapshots\<close>

record patch_report =
  rp_merged_entries :: nat
  rp_merged_groups :: nat
  rp_history_snapshots_added :: nat
  rp_meta_conflicts_resolved :: u32
  rp_icon_conflicts_resolved :: u32

record recovery_snapshot =
  sn_entry_id :: uuid
  sn_snapshot :: entry

text \<open>\<open>report\<close> and \<open>required_history_snapshots\<close>, threaded through the merges.\<close>

record patch_log =
  pl_report :: patch_report
  pl_required :: "recovery_snapshot list"

definition patch_log_start :: patch_log where
  "patch_log_start = \<lparr>pl_report = \<lparr>rp_merged_entries = 0, rp_merged_groups = 0,
     rp_history_snapshots_added = 0, rp_meta_conflicts_resolved = 0, rp_icon_conflicts_resolved = 0\<rparr>,
     pl_required = []\<rparr>"

definition add_losing_history_snapshot :: "entry \<Rightarrow> entry \<Rightarrow> patch_log \<Rightarrow> entry \<times> patch_log" where
  "add_losing_history_snapshot merged losing log =
     (let snapshot = prepare_entry_history_snapshot losing;
          required = \<lparr>sn_entry_id = entry_id merged, sn_snapshot = snapshot\<rparr>;
          log1 = (if required \<in> set (pl_required log) then log
                  else log\<lparr>pl_required := pl_required log @ [required]\<rparr>)
      in if snapshot \<in> set (e_history merged) then (merged, log1)
         else (set_history (e_history merged @ [snapshot]) merged,
               log1\<lparr>pl_report := (pl_report log1)
                 \<lparr>rp_history_snapshots_added := Suc (rp_history_snapshots_added (pl_report log1))\<rparr>\<rparr>))"

section \<open>Credential units\<close>

record totp_unit =
  tu_projected :: "totp_spec option"
  tu_attributes :: attributes

record passkey_unit =
  pu_projected :: "passkey_record option"
  pu_attributes :: attributes

definition totp_unit_of :: "entry_core \<Rightarrow> totp_unit" where
  "totp_unit_of entry = \<lparr>tu_projected = e_totp entry,
     tu_attributes = filter (\<lambda>(key, _). is_totp_persistent_attribute_key key) (e_attributes entry)\<rparr>"

definition passkey_unit_of :: "entry_core \<Rightarrow> passkey_unit" where
  "passkey_unit_of entry = \<lparr>pu_projected = e_passkey entry,
     pu_attributes = filter (\<lambda>(key, _). is_passkey_persistent_attribute_key key) (e_attributes entry)\<rparr>"

definition is_reserved_credential_attribute :: "string \<Rightarrow> bool" where
  "is_reserved_credential_attribute key \<longleftrightarrow>
     is_totp_persistent_attribute_key key \<or> is_passkey_persistent_attribute_key key"

definition attachment_map :: "(string, attachment) btree \<Rightarrow> (string, attachment) btree" where
  "attachment_map vals = foldl (\<lambda>attachments (name, attachment). bt_insert name attachment attachments) [] vals"

section \<open>Slots of an entry\<close>

definition normalize_entry_slots :: "entry \<Rightarrow> entry" where
  "normalize_entry_slots entry =
     (let core = e_core entry; raw = e_raw_state core;
          string_keys = bs_of_list ([''Title'', ''UserName'', ''Password'', ''URL'', ''Notes''] @
            bt_keys (mt_fields (materialize_entry_persistent_attributes core)));
          (nodes1, strings1, opaque1, blocks1) = retain_tracked_slots ''String'' (er_node_order raw)
            (er_string_order raw) string_keys (e_opaque_xml core) (e_custom_data_blocks core);
          binary_names = bs_of_list (bt_keys (e_attachments core));
          (nodes2, binaries2, opaque2, blocks2) = retain_tracked_slots ''Binary'' nodes1
            (er_binary_order raw) binary_names opaque1 blocks1
      in Entry (core\<lparr>e_raw_state := raw\<lparr>er_node_order := nodes2, er_string_order := strings1,
             er_binary_order := binaries2\<rparr>, e_opaque_xml := opaque2, e_custom_data_blocks := blocks2\<rparr>)
           (e_history entry))"

section \<open>Entries\<close>

text \<open>The field merges of \<open>merge_entry\<close>, in the order of the code.\<close>

definition entry_merge_steps ::
    "entry_core \<Rightarrow> entry_core \<Rightarrow> entry_core \<Rightarrow> bool \<Rightarrow>
     (entry_core \<times> field_merge \<Rightarrow> entry_core \<times> field_merge) list" where
  "entry_merge_steps b l r p =
     [merge_field e_title e_title_update b l r p,
      merge_field e_username e_username_update b l r p,
      merge_field e_password e_password_update b l r p,
      merge_field e_url e_url_update b l r p,
      merge_field e_notes e_notes_update b l r p,
      merge_field e_tags e_tags_update b l r p,
      merge_field e_foreground_color e_foreground_color_update b l r p,
      merge_field e_background_color e_background_color_update b l r p,
      merge_field e_override_url e_override_url_update b l r p,
      merge_field e_created_at e_created_at_update b l r p,
      merge_field e_expires e_expires_update b l r p,
      merge_field e_expiry_time e_expiry_time_update b l r p,
      merge_field e_last_accessed_at e_last_accessed_at_update b l r p,
      merge_field e_usage_count e_usage_count_update b l r p,
      merge_field e_auto_type e_auto_type_update b l r p,
      merge_field e_previous_parent e_previous_parent_update b l r p,
      merge_field e_exclude_from_reports e_exclude_from_reports_update b l r p,
      merge_field e_raw_state e_raw_state_update b l r p,
      merge_field e_opaque_xml e_opaque_xml_update b l r p,
      merge_field (\<lambda>e. protect_title (e_field_protection e))
        (\<lambda>f. e_field_protection_update (protect_title_update f)) b l r p,
      merge_field (\<lambda>e. protect_username (e_field_protection e))
        (\<lambda>f. e_field_protection_update (protect_username_update f)) b l r p,
      merge_field (\<lambda>e. protect_password (e_field_protection e))
        (\<lambda>f. e_field_protection_update (protect_password_update f)) b l r p,
      merge_field (\<lambda>e. protect_url (e_field_protection e))
        (\<lambda>f. e_field_protection_update (protect_url_update f)) b l r p,
      merge_field (\<lambda>e. protect_notes (e_field_protection e))
        (\<lambda>f. e_field_protection_update (protect_notes_update f)) b l r p,
      merge_field (\<lambda>e. (e_icon_id e, e_custom_icon_id e))
        (\<lambda>f e. let v = f (e_icon_id e, e_custom_icon_id e) in
           e\<lparr>e_icon_id := fst v, e_custom_icon_id := snd v\<rparr>) b l r p]"

definition merge_entry :: "entry \<Rightarrow> entry \<Rightarrow> entry \<Rightarrow> patch_log \<Rightarrow> (entry \<times> bool) \<times> patch_log" where
  "merge_entry base local remote log =
     (let b = e_core base; l = e_core local; r = e_core remote;
          prefer_local = e_modified_at l > e_modified_at r;
          (m, st) = run_merges (entry_merge_steps b l r prefer_local) (r, field_merge_start);
          (attributes0, st1) = merge_keyed_map_filtered (e_attributes b) (e_attributes l) (e_attributes r)
            prefer_local (\<lambda>key. \<not> is_reserved_credential_attribute key) st;
          (totp, st2) = merge_value (totp_unit_of b) (totp_unit_of l) (totp_unit_of r) prefer_local st1;
          attributes1 = bt_extend attributes0 (tu_attributes totp);
          (passkey, st3) = merge_value (passkey_unit_of b) (passkey_unit_of l) (passkey_unit_of r)
            prefer_local st2;
          attributes2 = bt_extend attributes1 (pu_attributes passkey);
          (attachments, st4) = merge_keyed_map_filtered (e_attachments b) (e_attachments l) (e_attachments r)
            prefer_local (\<lambda>_. True) st3;
          (custom_data, st5, blocks, opaque, node_order) = merge_custom_data_fields
            (e_custom_data b) (e_custom_data_blocks b) (e_custom_data l) (e_custom_data_blocks l)
            (e_custom_data r) (e_custom_data_blocks r) prefer_local st4 (e_opaque_xml m)
            (er_node_order (e_raw_state m));
          m1 = m\<lparr>e_totp := tu_projected totp, e_passkey := pu_projected passkey,
                 e_attributes := attributes2, e_attachments := attachment_map attachments,
                 e_custom_data_blocks := blocks, e_opaque_xml := opaque,
                 e_raw_state := (e_raw_state m)\<lparr>er_node_order := node_order\<rparr>,
                 e_custom_data := custom_data,
                 e_modified_at := max (e_modified_at l) (e_modified_at r)\<rparr>;
          merged = Entry m1 (history_union (e_history base) (e_history local) (e_history remote));
          (merged1, log1) = (if fm_conflict st5
             then add_losing_history_snapshot merged (if prefer_local then remote else local) log
             else (merged, log))
      in ((normalize_entry_slots merged1, fm_changed_from_remote st5 \<or> fm_conflict st5), log1))"

section \<open>Groups\<close>

definition group_merge_steps ::
    "group_core \<Rightarrow> group_core \<Rightarrow> group_core \<Rightarrow> bool \<Rightarrow>
     (group_core \<times> field_merge \<Rightarrow> group_core \<times> field_merge) list" where
  "group_merge_steps b l r p =
     [merge_field g_title g_title_update b l r p,
      merge_field g_notes g_notes_update b l r p,
      merge_field g_tags g_tags_update b l r p,
      (\<lambda>(m, st). let (times, st') = merge_group_times (g_times b) (g_times l) (g_times r) p st
         in (m\<lparr>g_times := times\<rparr>, st')),
      merge_field g_flags g_flags_update b l r p,
      merge_field g_default_auto_type_sequence g_default_auto_type_sequence_update b l r p,
      merge_field g_last_top_visible_entry g_last_top_visible_entry_update b l r p,
      merge_field g_previous_parent g_previous_parent_update b l r p,
      merge_field g_raw_state g_raw_state_update b l r p,
      merge_field g_opaque_xml g_opaque_xml_update b l r p,
      merge_field (\<lambda>g. (g_icon_id g, g_custom_icon_id g))
        (\<lambda>f g. let v = f (g_icon_id g, g_custom_icon_id g) in
           g\<lparr>g_icon_id := fst v, g_custom_icon_id := snd v\<rparr>) b l r p]"

definition merge_group_fields :: "uuid \<Rightarrow> vgroup \<Rightarrow> vgroup \<Rightarrow> vgroup \<Rightarrow> bool \<Rightarrow> patch_error + vgroup \<times> bool" where
  "merge_group_fields gid base local remote prefer_local =
     (let b = g_core base; l = g_core local; r = g_core remote;
          (m, st) = run_merges (group_merge_steps b l r prefer_local) (r, field_merge_start);
          (custom_data, st1, blocks, opaque, node_order) = merge_custom_data_fields
            (g_custom_data b) (g_custom_data_blocks b) (g_custom_data l) (g_custom_data_blocks l)
            (g_custom_data r) (g_custom_data_blocks r) prefer_local st (g_opaque_xml m)
            (gr_node_order (g_raw_state m));
          merged = Group (m\<lparr>g_custom_data_blocks := blocks, g_opaque_xml := opaque,
             g_raw_state := (g_raw_state m)\<lparr>gr_node_order := node_order\<rparr>, g_custom_data := custom_data\<rparr>) [] []
      in if fm_conflict st1 then Inl (FidelityConflict ''group'' (Some gid) ''modeled field'')
         else Inr (merged, fm_changed_from_remote st1))"

section \<open>Metadata\<close>

text \<open>A value with its own change time.\<close>

definition merge_timestamped_field ::
    "('r \<Rightarrow> 'f \<times> i64 option) \<Rightarrow> ('f \<times> i64 option \<Rightarrow> 'r \<Rightarrow> 'r) \<Rightarrow> 'r \<Rightarrow> 'r \<Rightarrow> 'r \<Rightarrow>
     'r \<times> field_merge \<Rightarrow> 'r \<times> field_merge" where
  "merge_timestamped_field get put base local remote ms =
     (let (v, st) = merge_timestamped_value (fst (get base)) (snd (get base)) (fst (get local))
            (snd (get local)) (fst (get remote)) (snd (get remote)) (snd ms)
      in (put v (fst ms), st))"

definition merge_changed_field ::
    "('r \<Rightarrow> i64 option) \<Rightarrow> ((i64 option \<Rightarrow> i64 option) \<Rightarrow> 'r \<Rightarrow> 'r) \<Rightarrow> 'r \<Rightarrow> 'r \<Rightarrow> 'r \<Rightarrow>
     'r \<times> field_merge \<Rightarrow> 'r \<times> field_merge" where
  "merge_changed_field get upd base local remote ms =
     (upd (\<lambda>_. merge_changed_at (get base) (get local) (get remote)) (fst ms), snd ms)"

definition meta_merge_steps ::
    "vault \<Rightarrow> vault \<Rightarrow> vault \<Rightarrow> bool \<Rightarrow> (vault \<times> field_merge \<Rightarrow> vault \<times> field_merge) list" where
  "meta_merge_steps b l r p =
     [merge_timestamped_field (\<lambda>v. (v_name v, v_database_name_changed v))
        (\<lambda>(x, t) v. v\<lparr>v_name := x, v_database_name_changed := t\<rparr>) b l r,
      merge_timestamped_field (\<lambda>v. (v_description v, v_description_changed v))
        (\<lambda>(x, t) v. v\<lparr>v_description := x, v_description_changed := t\<rparr>) b l r,
      merge_timestamped_field (\<lambda>v. (v_default_username v, v_default_username_changed v))
        (\<lambda>(x, t) v. v\<lparr>v_default_username := x, v_default_username_changed := t\<rparr>) b l r,
      merge_field v_generator v_generator_update b l r p,
      merge_changed_field v_settings_changed v_settings_changed_update b l r,
      merge_field v_meta_raw_state v_meta_raw_state_update b l r p,
      merge_field v_root_raw_state v_root_raw_state_update b l r p,
      merge_field v_public_custom_data v_public_custom_data_update b l r p,
      merge_field v_maintenance_history_days v_maintenance_history_days_update b l r p,
      merge_field v_color v_color_update b l r p,
      merge_changed_field v_master_key_changed v_master_key_changed_update b l r,
      merge_field v_master_key_change_rec v_master_key_change_rec_update b l r p,
      merge_field v_master_key_change_force v_master_key_change_force_update b l r p,
      merge_field v_master_key_change_force_once v_master_key_change_force_once_update b l r p,
      merge_field v_history_max_items v_history_max_items_update b l r p,
      merge_field v_history_max_size v_history_max_size_update b l r p,
      merge_field v_last_selected_group v_last_selected_group_update b l r p,
      merge_field v_last_top_visible_group v_last_top_visible_group_update b l r p,
      merge_field v_memory_protection v_memory_protection_update b l r p,
      merge_field v_recycle_bin_enabled v_recycle_bin_enabled_update b l r p,
      merge_field v_recycle_bin_group v_recycle_bin_group_update b l r p,
      merge_changed_field v_recycle_bin_changed v_recycle_bin_changed_update b l r,
      merge_field v_entry_templates_group v_entry_templates_group_update b l r p,
      merge_changed_field v_entry_templates_group_changed v_entry_templates_group_changed_update b l r,
      merge_field v_meta_opaque_xml v_meta_opaque_xml_update b l r p,
      merge_field v_root_opaque_xml v_root_opaque_xml_update b l r p]"

definition merge_meta :: "vault \<Rightarrow> vault \<Rightarrow> vault \<Rightarrow> patch_error + vault" where
  "merge_meta base local remote =
     (let prefer_local = unwrap_or (v_settings_changed local) (i64_of_int 0) >
            unwrap_or (v_settings_changed remote) (i64_of_int 0);
          (m, st) = run_merges (meta_merge_steps base local remote prefer_local) (remote, field_merge_start);
          m1 = m\<lparr>v_kdf_parameters := v_kdf_parameters remote\<rparr>;
          (custom_data, st1, blocks, opaque, node_order) = merge_custom_data_fields
            (v_meta_custom_data base) (v_meta_custom_data_blocks base) (v_meta_custom_data local)
            (v_meta_custom_data_blocks local) (v_meta_custom_data remote) (v_meta_custom_data_blocks remote)
            prefer_local st (v_meta_opaque_xml m1) (mr_node_order (v_meta_raw_state m1));
          m2 = m1\<lparr>v_meta_custom_data_blocks := blocks, v_meta_opaque_xml := opaque,
             v_meta_raw_state := (v_meta_raw_state m1)\<lparr>mr_node_order := node_order\<rparr>,
             v_meta_custom_data := custom_data,
             v_deleted_objects := merge_deleted_objects (v_deleted_objects base) (v_deleted_objects local)
               (v_deleted_objects remote)\<rparr>
      in and_then (merge_custom_icons (v_custom_icons base) (v_custom_icons local) (v_custom_icons remote))
           (\<lambda>icons. if fm_conflict st1 then Inl (FidelityConflict ''meta'' None ''modeled field'')
              else Inr (m2\<lparr>v_custom_icons := icons\<rparr>)))"

section \<open>Selected fields\<close>

lemma merge_field_alt:
  "merge_field get upd b l r p (m, st) = (upd (\<lambda>_. select3 (get b) (get l) (get r) p) m,
     \<lparr>fm_conflict = fm_conflict st \<or> conflict3 (get b) (get l) (get r),
      fm_changed_from_remote = fm_changed_from_remote st \<or> select3 (get b) (get l) (get r) p \<noteq> get r\<rparr>)"
  by (simp add: merge_field_def merge_value_alt)

definition entry_scalar_conflict :: "entry_core \<Rightarrow> entry_core \<Rightarrow> entry_core \<Rightarrow> bool" where
  "entry_scalar_conflict b l r \<longleftrightarrow>
     conflict3 (e_title b) (e_title l) (e_title r) \<or>
     conflict3 (e_username b) (e_username l) (e_username r) \<or>
     conflict3 (e_password b) (e_password l) (e_password r) \<or>
     conflict3 (e_url b) (e_url l) (e_url r) \<or>
     conflict3 (e_notes b) (e_notes l) (e_notes r) \<or>
     conflict3 (e_tags b) (e_tags l) (e_tags r) \<or>
     conflict3 (e_foreground_color b) (e_foreground_color l) (e_foreground_color r) \<or>
     conflict3 (e_background_color b) (e_background_color l) (e_background_color r) \<or>
     conflict3 (e_override_url b) (e_override_url l) (e_override_url r) \<or>
     conflict3 (e_created_at b) (e_created_at l) (e_created_at r) \<or>
     conflict3 (e_expires b) (e_expires l) (e_expires r) \<or>
     conflict3 (e_expiry_time b) (e_expiry_time l) (e_expiry_time r) \<or>
     conflict3 (e_last_accessed_at b) (e_last_accessed_at l) (e_last_accessed_at r) \<or>
     conflict3 (e_usage_count b) (e_usage_count l) (e_usage_count r) \<or>
     conflict3 (e_auto_type b) (e_auto_type l) (e_auto_type r) \<or>
     conflict3 (e_previous_parent b) (e_previous_parent l) (e_previous_parent r) \<or>
     conflict3 (e_exclude_from_reports b) (e_exclude_from_reports l) (e_exclude_from_reports r) \<or>
     conflict3 (e_raw_state b) (e_raw_state l) (e_raw_state r) \<or>
     conflict3 (e_opaque_xml b) (e_opaque_xml l) (e_opaque_xml r) \<or>
     conflict3 (protect_title (e_field_protection b)) (protect_title (e_field_protection l)) (protect_title (e_field_protection r)) \<or>
     conflict3 (protect_username (e_field_protection b)) (protect_username (e_field_protection l)) (protect_username (e_field_protection r)) \<or>
     conflict3 (protect_password (e_field_protection b)) (protect_password (e_field_protection l)) (protect_password (e_field_protection r)) \<or>
     conflict3 (protect_url (e_field_protection b)) (protect_url (e_field_protection l)) (protect_url (e_field_protection r)) \<or>
     conflict3 (protect_notes (e_field_protection b)) (protect_notes (e_field_protection l)) (protect_notes (e_field_protection r)) \<or>
     conflict3 (e_icon_id b, e_custom_icon_id b) (e_icon_id l, e_custom_icon_id l) (e_icon_id r, e_custom_icon_id r)"

lemma entry_steps_core:
  "fst (run_merges (entry_merge_steps b l r p) (r, st)) = r\<lparr>
     e_title := select3 (e_title b) (e_title l) (e_title r) p,
     e_username := select3 (e_username b) (e_username l) (e_username r) p,
     e_password := select3 (e_password b) (e_password l) (e_password r) p,
     e_url := select3 (e_url b) (e_url l) (e_url r) p,
     e_notes := select3 (e_notes b) (e_notes l) (e_notes r) p,
     e_tags := select3 (e_tags b) (e_tags l) (e_tags r) p,
     e_foreground_color := select3 (e_foreground_color b) (e_foreground_color l) (e_foreground_color r) p,
     e_background_color := select3 (e_background_color b) (e_background_color l) (e_background_color r) p,
     e_override_url := select3 (e_override_url b) (e_override_url l) (e_override_url r) p,
     e_created_at := select3 (e_created_at b) (e_created_at l) (e_created_at r) p,
     e_expires := select3 (e_expires b) (e_expires l) (e_expires r) p,
     e_expiry_time := select3 (e_expiry_time b) (e_expiry_time l) (e_expiry_time r) p,
     e_last_accessed_at := select3 (e_last_accessed_at b) (e_last_accessed_at l) (e_last_accessed_at r) p,
     e_usage_count := select3 (e_usage_count b) (e_usage_count l) (e_usage_count r) p,
     e_auto_type := select3 (e_auto_type b) (e_auto_type l) (e_auto_type r) p,
     e_previous_parent := select3 (e_previous_parent b) (e_previous_parent l) (e_previous_parent r) p,
     e_exclude_from_reports := select3 (e_exclude_from_reports b) (e_exclude_from_reports l) (e_exclude_from_reports r) p,
     e_raw_state := select3 (e_raw_state b) (e_raw_state l) (e_raw_state r) p,
     e_opaque_xml := select3 (e_opaque_xml b) (e_opaque_xml l) (e_opaque_xml r) p,
     e_field_protection := \<lparr>protect_title = select3 (protect_title (e_field_protection b)) (protect_title (e_field_protection l)) (protect_title (e_field_protection r)) p,
        protect_username = select3 (protect_username (e_field_protection b)) (protect_username (e_field_protection l)) (protect_username (e_field_protection r)) p,
        protect_password = select3 (protect_password (e_field_protection b)) (protect_password (e_field_protection l)) (protect_password (e_field_protection r)) p,
        protect_url = select3 (protect_url (e_field_protection b)) (protect_url (e_field_protection l)) (protect_url (e_field_protection r)) p,
        protect_notes = select3 (protect_notes (e_field_protection b)) (protect_notes (e_field_protection l)) (protect_notes (e_field_protection r)) p\<rparr>,
     e_icon_id := fst (select3 (e_icon_id b, e_custom_icon_id b) (e_icon_id l, e_custom_icon_id l) (e_icon_id r, e_custom_icon_id r) p),
     e_custom_icon_id := snd (select3 (e_icon_id b, e_custom_icon_id b) (e_icon_id l, e_custom_icon_id l) (e_icon_id r, e_custom_icon_id r) p)\<rparr>"
  by (simp add: entry_merge_steps_def merge_field_alt Let_def)

lemma entry_steps_conflict:
  "fm_conflict (snd (run_merges (entry_merge_steps b l r p) (r, st))) \<longleftrightarrow>
     fm_conflict st \<or> entry_scalar_conflict b l r"
  by (simp add: entry_merge_steps_def merge_field_alt entry_scalar_conflict_def disj_assoc)

lemma normalized_entry [simp]:
  "e_history (normalize_entry_slots e) = e_history e"
  "e_id (e_core (normalize_entry_slots e)) = e_id (e_core e)"
  "e_title (e_core (normalize_entry_slots e)) = e_title (e_core e)"
  "e_username (e_core (normalize_entry_slots e)) = e_username (e_core e)"
  "e_password (e_core (normalize_entry_slots e)) = e_password (e_core e)"
  "e_url (e_core (normalize_entry_slots e)) = e_url (e_core e)"
  "e_notes (e_core (normalize_entry_slots e)) = e_notes (e_core e)"
  "e_field_protection (e_core (normalize_entry_slots e)) = e_field_protection (e_core e)"
  "e_tags (e_core (normalize_entry_slots e)) = e_tags (e_core e)"
  "e_attributes (e_core (normalize_entry_slots e)) = e_attributes (e_core e)"
  "e_attachments (e_core (normalize_entry_slots e)) = e_attachments (e_core e)"
  "e_totp (e_core (normalize_entry_slots e)) = e_totp (e_core e)"
  "e_passkey (e_core (normalize_entry_slots e)) = e_passkey (e_core e)"
  "e_icon_id (e_core (normalize_entry_slots e)) = e_icon_id (e_core e)"
  "e_custom_icon_id (e_core (normalize_entry_slots e)) = e_custom_icon_id (e_core e)"
  "e_foreground_color (e_core (normalize_entry_slots e)) = e_foreground_color (e_core e)"
  "e_background_color (e_core (normalize_entry_slots e)) = e_background_color (e_core e)"
  "e_override_url (e_core (normalize_entry_slots e)) = e_override_url (e_core e)"
  "e_created_at (e_core (normalize_entry_slots e)) = e_created_at (e_core e)"
  "e_modified_at (e_core (normalize_entry_slots e)) = e_modified_at (e_core e)"
  "e_expires (e_core (normalize_entry_slots e)) = e_expires (e_core e)"
  "e_expiry_time (e_core (normalize_entry_slots e)) = e_expiry_time (e_core e)"
  "e_last_accessed_at (e_core (normalize_entry_slots e)) = e_last_accessed_at (e_core e)"
  "e_usage_count (e_core (normalize_entry_slots e)) = e_usage_count (e_core e)"
  "e_location_changed_at (e_core (normalize_entry_slots e)) = e_location_changed_at (e_core e)"
  "e_auto_type (e_core (normalize_entry_slots e)) = e_auto_type (e_core e)"
  "e_custom_data (e_core (normalize_entry_slots e)) = e_custom_data (e_core e)"
  "e_previous_parent (e_core (normalize_entry_slots e)) = e_previous_parent (e_core e)"
  "e_exclude_from_reports (e_core (normalize_entry_slots e)) = e_exclude_from_reports (e_core e)"
  by (simp_all add: normalize_entry_slots_def Let_def case_prod_unfold)

text \<open>What normalizing changes: the anchors, and the orders of the slots.\<close>

lemma retained_rest:
  assumes "retain_tracked_slots element nodes tracked current opaque blocks = (nodes', tracked', opaque', blocks')"
  shows "map fr_xml opaque' = map fr_xml opaque" "map cb_items blocks' = map cb_items blocks"
    "set tracked' \<subseteq> set tracked \<inter> set current"
proof -
  show "map fr_xml opaque' = map fr_xml opaque" "map cb_items blocks' = map cb_items blocks"
    using assms by (auto simp: retain_tracked_slots_def Let_def)
  have "set tracked' = set (take (count_list nodes element) tracked) \<inter> set current"
    using retained_slots_in_step [of element nodes tracked current opaque blocks] by (simp add: assms)
  then show "set tracked' \<subseteq> set tracked \<inter> set current" by (auto dest: in_set_takeD)
qed

definition unordered :: "entry_raw_state \<Rightarrow> entry_raw_state" where
  "unordered raw = raw\<lparr>er_node_order := [], er_string_order := [], er_binary_order := []\<rparr>"

lemma normalized_rest:
  "map fr_xml (e_opaque_xml (e_core (normalize_entry_slots e))) = map fr_xml (e_opaque_xml (e_core e))"
  "map cb_items (e_custom_data_blocks (e_core (normalize_entry_slots e))) = map cb_items (e_custom_data_blocks (e_core e))"
  "unordered (e_raw_state (e_core (normalize_entry_slots e))) = unordered (e_raw_state (e_core e))"
  "set (er_string_order (e_raw_state (e_core (normalize_entry_slots e)))) \<subseteq> set (er_string_order (e_raw_state (e_core e)))"
  "set (er_binary_order (e_raw_state (e_core (normalize_entry_slots e))))
     \<subseteq> set (er_binary_order (e_raw_state (e_core e))) \<inter> fst ` set (e_attachments (e_core e))"
proof -
  let ?c = "e_core e"
  let ?keys = "bs_of_list ([''Title'', ''UserName'', ''Password'', ''URL'', ''Notes''] @
    bt_keys (mt_fields (materialize_entry_persistent_attributes ?c)))"
  obtain n1 t1 o1 k1 where one: "retain_tracked_slots ''String'' (er_node_order (e_raw_state ?c)) (er_string_order (e_raw_state ?c))
      ?keys (e_opaque_xml ?c) (e_custom_data_blocks ?c) = (n1, t1, o1, k1)" by (rule prod_cases4)
  obtain n2 t2 o2 k2 where two: "retain_tracked_slots ''Binary'' n1 (er_binary_order (e_raw_state ?c))
      (bs_of_list (bt_keys (e_attachments ?c))) o1 k1 = (n2, t2, o2, k2)" by (rule prod_cases4)
  have core: "e_core (normalize_entry_slots e) = ?c\<lparr>e_raw_state := (e_raw_state ?c)\<lparr>er_node_order := n2, er_string_order := t1,
      er_binary_order := t2\<rparr>, e_opaque_xml := o2, e_custom_data_blocks := k2\<rparr>"
    by (simp add: normalize_entry_slots_def Let_def one [unfolded append_Cons append_Nil] two)
  note r = retained_rest [OF one] retained_rest [OF two]
  show "map fr_xml (e_opaque_xml (e_core (normalize_entry_slots e))) = map fr_xml (e_opaque_xml ?c)"
    "map cb_items (e_custom_data_blocks (e_core (normalize_entry_slots e))) = map cb_items (e_custom_data_blocks ?c)"
    "unordered (e_raw_state (e_core (normalize_entry_slots e))) = unordered (e_raw_state ?c)"
    using r by (simp_all add: core unordered_def)
  show "set (er_string_order (e_raw_state (e_core (normalize_entry_slots e)))) \<subseteq> set (er_string_order (e_raw_state ?c))"
    using r(3) by (simp add: core)
  show "set (er_binary_order (e_raw_state (e_core (normalize_entry_slots e))))
     \<subseteq> set (er_binary_order (e_raw_state ?c)) \<inter> fst ` set (e_attachments ?c)"
    using r(6) by (simp add: core)
qed

text \<open>Every conflict an entry merge records.\<close>

definition entry_conflict :: "entry_core \<Rightarrow> entry_core \<Rightarrow> entry_core \<Rightarrow> bool" where
  "entry_conflict b l r \<longleftrightarrow>
     entry_scalar_conflict b l r \<or>
     (\<exists>k. \<not> is_reserved_credential_attribute k \<and>
       conflict3 (bt_get (e_attributes b) k) (bt_get (e_attributes l) k) (bt_get (e_attributes r) k)) \<or>
     conflict3 (totp_unit_of b) (totp_unit_of l) (totp_unit_of r) \<or>
     conflict3 (passkey_unit_of b) (passkey_unit_of l) (passkey_unit_of r) \<or>
     (\<exists>k. conflict3 (bt_get (e_attachments b) k) (bt_get (e_attachments l) k) (bt_get (e_attachments r) k)) \<or>
     (\<exists>k. conflict3 (bt_get (e_custom_data b) k) (bt_get (e_custom_data l) k) (bt_get (e_custom_data r) k))"

lemma losing_core [simp]:
  "e_core (fst (add_losing_history_snapshot m x log)) = e_core m"
  by (simp add: add_losing_history_snapshot_def Let_def)

lemma logged_core [simp]:
  "e_core (fst (if c then add_losing_history_snapshot m x log else (m, log))) = e_core m"
  by simp

lemma losing_history:
  "e_history (fst (add_losing_history_snapshot m x log)) =
     (if prepare_entry_history_snapshot x \<in> set (e_history m) then e_history m
      else e_history m @ [prepare_entry_history_snapshot x])"
  "\<lparr>sn_entry_id = entry_id m, sn_snapshot = prepare_entry_history_snapshot x\<rparr> \<in>
     set (pl_required (snd (add_losing_history_snapshot m x log)))"
  "set (pl_required log) \<subseteq> set (pl_required (snd (add_losing_history_snapshot m x log)))"
  by (auto simp: add_losing_history_snapshot_def Let_def)

lemma set_history_union: "set (history_union base local remote) = set base \<union> set local \<union> set remote"
proof -
  have "set (foldl (\<lambda>merged x. if x \<in> set merged then merged else merged @ [x]) acc xs) = set acc \<union> set xs"
    for acc xs :: "entry list"
    by (induction xs arbitrary: acc) auto
  then show ?thesis by (auto simp: history_union_def)
qed

lemma attachment_map_id: "bt_wf m \<Longrightarrow> attachment_map m = m"
proof -
  have "foldl (\<lambda>a (n, x). bt_insert n x a) acc xs = bt_extend acc xs" for acc xs :: "(string, attachment) btree"
    by (induction xs arbitrary: acc) (auto simp: bt_extend_Cons)
  then show "bt_wf m \<Longrightarrow> attachment_map m = m" by (simp add: attachment_map_def bt_of_list_id)
qed

text \<open>The CustomData part of a merge, projected.\<close>

lemma merge_custom_data_projected:
  assumes "bt_wf base" "bt_wf local" "bt_wf remote"
  shows "bt_get (fst (merge_custom_data_fields base bb local lb remote rb p state opaque order)) k =
      select3 (bt_get base k) (bt_get local k) (bt_get remote k) p"
    and "fm_conflict (fst (snd (merge_custom_data_fields base bb local lb remote rb p state opaque order))) \<longleftrightarrow>
      fm_conflict state \<or> (\<exists>k. conflict3 (bt_get base k) (bt_get local k) (bt_get remote k))"
proof -
  obtain merged st blocks opaque1 order1 where
    m: "merge_custom_data_fields base bb local lb remote rb p state opaque order =
      (merged, st, blocks, opaque1, order1)" by (rule prod_cases5)
  show "bt_get (fst (merge_custom_data_fields base bb local lb remote rb p state opaque order)) k =
      select3 (bt_get base k) (bt_get local k) (bt_get remote k) p"
    "fm_conflict (fst (snd (merge_custom_data_fields base bb local lb remote rb p state opaque order))) \<longleftrightarrow>
      fm_conflict state \<or> (\<exists>k. conflict3 (bt_get base k) (bt_get local k) (bt_get remote k))"
    using merge_custom_data_result(1,4) [OF assms m] by (simp_all add: m)
qed

lemma merge_custom_data_opaque:
  "map fr_xml (fst (snd (snd (snd (merge_custom_data_fields base bb local lb remote rb p state opaque order))))) = map fr_xml opaque"
  by (simp add: merge_custom_data_fields_def reconcile_custom_data_blocks_def Let_def case_prod_unfold)

lemma merge_custom_data_spelled:
  assumes "bt_wf base" "bt_wf local" "bt_wf remote"
  shows "merge_custom_data_blocks (fst (snd (snd (merge_custom_data_fields base bb local lb remote rb p state opaque order)))) =
    fst (merge_custom_data_fields base bb local lb remote rb p state opaque order)"
proof -
  obtain merged st blocks opaque1 order1 where
    m: "merge_custom_data_fields base bb local lb remote rb p state opaque order =
      (merged, st, blocks, opaque1, order1)" by (rule prod_cases5)
  from merge_custom_data_result(2) [OF assms m] show ?thesis by (simp add: m)
qed

text \<open>The parts of a merged entry.\<close>

definition merged_core :: "entry_core \<Rightarrow> entry_core \<Rightarrow> entry_core \<Rightarrow> entry_core \<Rightarrow> bool" where
  "merged_core b l r m \<longleftrightarrow>
     (let p = e_modified_at l > e_modified_at r;
          t = select3 (totp_unit_of b) (totp_unit_of l) (totp_unit_of r) p;
          k = select3 (passkey_unit_of b) (passkey_unit_of l) (passkey_unit_of r) p
      in (\<exists>s st. m = (fst (run_merges (entry_merge_steps b l r p) (r, s)))
          \<lparr>e_totp := tu_projected t, e_passkey := pu_projected k,
           e_attributes := bt_extend (bt_extend (fst (merge_keyed_map_filtered (e_attributes b) (e_attributes l)
             (e_attributes r) p (\<lambda>key. \<not> is_reserved_credential_attribute key) st)) (tu_attributes t)) (pu_attributes k),
           e_attachments := e_attachments m, e_custom_data_blocks := e_custom_data_blocks m,
           e_opaque_xml := e_opaque_xml m, e_raw_state := e_raw_state m, e_custom_data := e_custom_data m,
           e_modified_at := max (e_modified_at l) (e_modified_at r)\<rparr>) \<and>
        (\<forall>x. bt_get (e_attachments m) x =
           select3 (bt_get (e_attachments b) x) (bt_get (e_attachments l) x) (bt_get (e_attachments r) x) p) \<and>
        (\<forall>x. bt_get (e_custom_data m) x =
           select3 (bt_get (e_custom_data b) x) (bt_get (e_custom_data l) x) (bt_get (e_custom_data r) x) p) \<and>
        merge_custom_data_blocks (e_custom_data_blocks m) = e_custom_data m \<and>
        map fr_xml (e_opaque_xml m) = map fr_xml (select3 (e_opaque_xml b) (e_opaque_xml l) (e_opaque_xml r) p) \<and>
        (\<exists>order. e_raw_state m = (select3 (e_raw_state b) (e_raw_state l) (e_raw_state r) p)\<lparr>er_node_order := order\<rparr>))"

lemma merge_entry_split:
  assumes "merge_entry base local remote log = ((m, changed), log')"
    and "bt_wf (e_custom_data (e_core base))" "bt_wf (e_custom_data (e_core local))"
      "bt_wf (e_custom_data (e_core remote))"
  obtains merged where
    "entry_id merged = entry_id remote"
    and "e_history merged = history_union (e_history base) (e_history local) (e_history remote)"
    and "merged_core (e_core base) (e_core local) (e_core remote) (e_core merged)"
    and "(m, log') = (\<lambda>(e, lg). (normalize_entry_slots e, lg))
      (if entry_conflict (e_core base) (e_core local) (e_core remote)
       then add_losing_history_snapshot merged
         (if e_modified_at (e_core local) > e_modified_at (e_core remote) then remote else local) log
       else (merged, log))"
proof -
  let ?b = "e_core base" and ?l = "e_core local" and ?r = "e_core remote"
  let ?p = "e_modified_at ?l > e_modified_at ?r"
  let ?s0 = "run_merges (entry_merge_steps ?b ?l ?r ?p) (?r, field_merge_start)"
  let ?a = "merge_keyed_map_filtered (e_attributes ?b) (e_attributes ?l) (e_attributes ?r) ?p
    (\<lambda>key. \<not> is_reserved_credential_attribute key) (snd ?s0)"
  let ?t = "merge_value (totp_unit_of ?b) (totp_unit_of ?l) (totp_unit_of ?r) ?p (snd ?a)"
  let ?k = "merge_value (passkey_unit_of ?b) (passkey_unit_of ?l) (passkey_unit_of ?r) ?p (snd ?t)"
  let ?x = "merge_keyed_map_filtered (e_attachments ?b) (e_attachments ?l) (e_attachments ?r) ?p
    (\<lambda>_. True) (snd ?k)"
  let ?c = "merge_custom_data_fields (e_custom_data ?b) (e_custom_data_blocks ?b) (e_custom_data ?l)
    (e_custom_data_blocks ?l) (e_custom_data ?r) (e_custom_data_blocks ?r) ?p (snd ?x)
    (e_opaque_xml (fst ?s0)) (er_node_order (e_raw_state (fst ?s0)))"
  define merged where "merged = Entry ((fst ?s0)\<lparr>e_totp := tu_projected (fst ?t),
    e_passkey := pu_projected (fst ?k),
    e_attributes := bt_extend (bt_extend (fst ?a) (tu_attributes (fst ?t))) (pu_attributes (fst ?k)),
    e_attachments := attachment_map (fst ?x),
    e_custom_data_blocks := fst (snd (snd ?c)), e_opaque_xml := fst (snd (snd (snd ?c))),
    e_raw_state := (e_raw_state (fst ?s0))\<lparr>er_node_order := snd (snd (snd (snd ?c)))\<rparr>,
    e_custom_data := fst ?c, e_modified_at := max (e_modified_at ?l) (e_modified_at ?r)\<rparr>)
    (history_union (e_history base) (e_history local) (e_history remote))"
  have con: "fm_conflict (fst (snd ?c)) \<longleftrightarrow> entry_conflict ?b ?l ?r"
    by (simp add: merge_custom_data_projected(2) [OF assms(2-4)] merged_map_get(3) merge_value_alt
        entry_steps_conflict field_merge_start_def entry_conflict_def disj_assoc)
  show thesis
  proof (rule that [of merged])
    show "entry_id merged = entry_id remote" by (simp add: merged_def entry_steps_core)
    show "e_history merged = history_union (e_history base) (e_history local) (e_history remote)"
      by (simp add: merged_def)
    show "merged_core ?b ?l ?r (e_core merged)"
      unfolding merged_core_def Let_def
    proof (intro conjI exI allI)
      show "e_core merged = (fst ?s0)\<lparr>e_totp := tu_projected (select3 (totp_unit_of ?b) (totp_unit_of ?l) (totp_unit_of ?r) ?p),
           e_passkey := pu_projected (select3 (passkey_unit_of ?b) (passkey_unit_of ?l) (passkey_unit_of ?r) ?p),
           e_attributes := bt_extend (bt_extend (fst ?a)
             (tu_attributes (select3 (totp_unit_of ?b) (totp_unit_of ?l) (totp_unit_of ?r) ?p)))
             (pu_attributes (select3 (passkey_unit_of ?b) (passkey_unit_of ?l) (passkey_unit_of ?r) ?p)),
           e_attachments := e_attachments (e_core merged),
           e_custom_data_blocks := e_custom_data_blocks (e_core merged),
           e_opaque_xml := e_opaque_xml (e_core merged), e_raw_state := e_raw_state (e_core merged),
           e_custom_data := e_custom_data (e_core merged),
           e_modified_at := max (e_modified_at ?l) (e_modified_at ?r)\<rparr>"
        by (simp add: merged_def)
      show "bt_get (e_attachments (e_core merged)) x = select3 (bt_get (e_attachments ?b) x)
          (bt_get (e_attachments ?l) x) (bt_get (e_attachments ?r) x) ?p" for x
        by (simp add: merged_def attachment_map_id merged_map_get)
      show "bt_get (e_custom_data (e_core merged)) x = select3 (bt_get (e_custom_data ?b) x)
          (bt_get (e_custom_data ?l) x) (bt_get (e_custom_data ?r) x) ?p" for x
        by (simp add: merged_def merge_custom_data_projected(1) [OF assms(2-4)])
      show "merge_custom_data_blocks (e_custom_data_blocks (e_core merged)) = e_custom_data (e_core merged)"
        by (simp add: merged_def merge_custom_data_spelled [OF assms(2-4)])
      show "map fr_xml (e_opaque_xml (e_core merged)) =
          map fr_xml (select3 (e_opaque_xml ?b) (e_opaque_xml ?l) (e_opaque_xml ?r) ?p)"
        by (simp add: merged_def merge_custom_data_opaque entry_steps_core)
      show "e_raw_state (e_core merged) = (select3 (e_raw_state ?b) (e_raw_state ?l) (e_raw_state ?r) ?p)
          \<lparr>er_node_order := snd (snd (snd (snd ?c)))\<rparr>"
        by (simp add: merged_def entry_steps_core)
    qed
    have "merge_entry base local remote log = (let (e, lg) = (if fm_conflict (fst (snd ?c))
        then add_losing_history_snapshot merged (if ?p then remote else local) log else (merged, log))
      in ((normalize_entry_slots e, fm_changed_from_remote (fst (snd ?c)) \<or> fm_conflict (fst (snd ?c))), lg))"
      by (simp only: merge_entry_def Let_def case_prod_unfold fst_conv snd_conv merged_def)
    then show "(m, log') = (\<lambda>(e, lg). (normalize_entry_slots e, lg))
      (if entry_conflict ?b ?l ?r then add_losing_history_snapshot merged (if ?p then remote else local) log
       else (merged, log))"
      using assms(1) unfolding con by (auto simp: Let_def split: prod.splits)
  qed
qed

text \<open>Attributes: credential keys come from the selected unit.\<close>

lemma keys_disjoint: "is_totp_persistent_attribute_key k \<Longrightarrow> \<not> is_passkey_persistent_attribute_key k"
  by (auto simp: is_totp_persistent_attribute_key_def is_passkey_persistent_attribute_key_def
      totp_keys_def passkey_keys_def)

definition unit_entry :: "entry_core \<Rightarrow> entry_core \<Rightarrow> entry_core \<Rightarrow> bool \<Rightarrow> (entry_core \<Rightarrow> 'u) \<Rightarrow> entry_core" where
  "unit_entry b l r p u = (if u l = u b then r else if u r = u b then l else if u l = u r then r
     else if p then l else r)"

lemma select3_unit: "select3 (u b) (u l) (u r) p = u (unit_entry b l r p u)"
  by (simp add: select3_def unit_entry_def)

lemma unit_entry_wf:
  "bt_wf (e_attributes l) \<Longrightarrow> bt_wf (e_attributes r) \<Longrightarrow> bt_wf (e_attributes (unit_entry b l r p u))"
  by (simp add: unit_entry_def)

lemma extended_units:
  assumes "bt_wf (e_attributes t)" "bt_wf (e_attributes k)"
  shows "bt_get (bt_extend (bt_extend m (tu_attributes (totp_unit_of t))) (pu_attributes (passkey_unit_of k))) key =
    (if is_passkey_persistent_attribute_key key \<and> bt_contains (e_attributes k) key
       then bt_get (e_attributes k) key
     else if is_totp_persistent_attribute_key key \<and> bt_contains (e_attributes t) key
       then bt_get (e_attributes t) key
     else bt_get m key)"
proof -
  have f: "map_of (rev (filter (\<lambda>(x, _). P x) xs)) key = (if P key then map_of xs key else None)"
    if "bt_wf xs" for P :: "string \<Rightarrow> bool" and xs :: attributes
  proof -
    have "distinct (map fst (filter (\<lambda>(x, _). P x) xs))" using that by (intro bt_wf_distinct) simp
    then show ?thesis using map_of_filter_key [of P xs key]
      by (simp add: map_of_rev_distinct case_prod_unfold)
  qed
  show ?thesis
    using keys_disjoint [of key]
    by (auto simp: bt_get_extend totp_unit_of_def passkey_unit_of_def f assms map_add_def bt_contains_iff
        map_of_eq_None_iff split: option.splits) (auto simp flip: map_of_eq_None_iff)
qed

section \<open>Properties\<close>

text \<open>C7. Merging an entry never loses a version. The merged entry is the remote entry's successor and its
  history holds every version of the three histories. When some field, attribute, credential unit,
  attachment or CustomData item was changed differently on both sides, the version of the side that was
  not preferred is also in the history, and it is required of the saved vault; without such a conflict
  no snapshot is required and the history holds nothing else.\<close>

theorem losing_version_kept:
  assumes "merge_entry base local remote log = ((m, changed), log')"
    and "bt_wf (e_custom_data (e_core base))" "bt_wf (e_custom_data (e_core local))"
      "bt_wf (e_custom_data (e_core remote))"
  shows "entry_id m = entry_id remote \<and>
    set (e_history base) \<union> set (e_history local) \<union> set (e_history remote) \<subseteq> set (e_history m) \<and>
    (let loser = prepare_entry_history_snapshot
           (if e_modified_at (e_core local) > e_modified_at (e_core remote) then remote else local)
     in if entry_conflict (e_core base) (e_core local) (e_core remote)
        then loser \<in> set (e_history m) \<and>
          \<lparr>sn_entry_id = entry_id m, sn_snapshot = loser\<rparr> \<in> set (pl_required log') \<and>
          set (pl_required log) \<subseteq> set (pl_required log')
        else log' = log \<and>
          set (e_history m) = set (e_history base) \<union> set (e_history local) \<union> set (e_history remote))"
proof -
  obtain merged where id: "entry_id merged = entry_id remote"
    and hist: "e_history merged = history_union (e_history base) (e_history local) (e_history remote)"
    and "merged_core (e_core base) (e_core local) (e_core remote) (e_core merged)"
    and res: "(m, log') = (\<lambda>(e, lg). (normalize_entry_slots e, lg))
      (if entry_conflict (e_core base) (e_core local) (e_core remote)
       then add_losing_history_snapshot merged
         (if e_modified_at (e_core local) > e_modified_at (e_core remote) then remote else local) log
       else (merged, log))"
    by (rule merge_entry_split [OF assms]) (rule that)
  let ?x = "if e_modified_at (e_core local) > e_modified_at (e_core remote) then remote else local"
  show ?thesis
  proof (cases "entry_conflict (e_core base) (e_core local) (e_core remote)")
    case True
    then have "m = normalize_entry_slots (fst (add_losing_history_snapshot merged ?x log))"
      "log' = snd (add_losing_history_snapshot merged ?x log)"
      using res by (simp_all add: case_prod_unfold)
    then show ?thesis
      using True losing_history [where m = merged and x = ?x and log = log] by (auto simp: Let_def hist set_history_union id)
  next
    case False
    then show ?thesis using res by (simp add: hist set_history_union id)
  qed
qed

definition example_entry :: "string \<Rightarrow> string \<Rightarrow> u64 \<Rightarrow> entry_core" where
  "example_entry password url modified = (e_core (entry_new 10 ''mail''))
     \<lparr>e_password := password, e_url := url, e_modified_at := modified\<rparr>"

lemma losing_version_kept_witness:
  "\<exists>m changed log'. merge_entry (Entry (example_entry ''p0'' ''u0'' 1) []) (Entry (example_entry ''p1'' ''u0'' 5) [])
     (Entry (example_entry ''p2'' ''u0'' 3) []) patch_log_start = ((m, changed), log') \<and>
   Entry (example_entry ''p2'' ''u0'' 3) [] \<in> set (e_history m)"
proof -
  let ?b = "example_entry ''p0'' ''u0'' 1" and ?l = "example_entry ''p1'' ''u0'' 5"
    and ?r = "example_entry ''p2'' ''u0'' 3"
  obtain m changed log' where m:
    "merge_entry (Entry ?b []) (Entry ?l []) (Entry ?r []) patch_log_start = ((m, changed), log')"
    by (metis surj_pair)
  have conflict: "entry_conflict ?b ?l ?r"
    by (simp add: entry_conflict_def entry_scalar_conflict_def conflict3_def example_entry_def entry_new_def)
  have snapshot: "prepare_entry_history_snapshot (Entry ?r []) = Entry ?r []"
    by (simp add: prepare_entry_history_snapshot_def example_entry_def entry_new_def default_entry_raw_state_def)
  have "e_modified_at ?l > e_modified_at ?r" by (simp add: example_entry_def)
  then have "Entry ?r [] \<in> set (e_history m)"
    using losing_version_kept [OF m] conflict snapshot by (simp add: example_entry_def entry_new_def Let_def)
  with m show ?thesis by blast
qed

text \<open>A field of a merged entry that is selected three-way.\<close>

definition selects :: "entry_core \<Rightarrow> entry_core \<Rightarrow> entry_core \<Rightarrow> entry_core \<Rightarrow> (entry_core \<Rightarrow> 'a) \<Rightarrow> bool" where
  "selects b l r m field \<longleftrightarrow>
     field m = select3 (field b) (field l) (field r) (e_modified_at l > e_modified_at r)"

lemma selected_fields:
  fixes b l r :: entry_core
  assumes "merged_core b l r m"
  defines "p \<equiv> e_modified_at l > e_modified_at r"
  shows "selects b l r m e_title" "selects b l r m e_username" "selects b l r m e_password" "selects b l r m e_url"
    "selects b l r m e_notes" "selects b l r m e_tags" "selects b l r m e_foreground_color"
    "selects b l r m e_background_color" "selects b l r m e_override_url" "selects b l r m e_created_at"
    "selects b l r m e_expires" "selects b l r m e_expiry_time" "selects b l r m e_last_accessed_at"
    "selects b l r m e_usage_count" "selects b l r m e_auto_type" "selects b l r m e_previous_parent"
    "selects b l r m e_exclude_from_reports"
    "selects b l r m (\<lambda>e. protect_title (e_field_protection e))" "selects b l r m (\<lambda>e. protect_username (e_field_protection e))"
    "selects b l r m (\<lambda>e. protect_password (e_field_protection e))" "selects b l r m (\<lambda>e. protect_url (e_field_protection e))"
    "selects b l r m (\<lambda>e. protect_notes (e_field_protection e))" "selects b l r m (\<lambda>e. (e_icon_id e, e_custom_icon_id e))"
    "e_id m = e_id r" "e_location_changed_at m = e_location_changed_at r"
    "e_modified_at m = max (e_modified_at l) (e_modified_at r)"
    "e_totp m = e_totp (unit_entry b l r p totp_unit_of)" "e_passkey m = e_passkey (unit_entry b l r p passkey_unit_of)"
proof -
  obtain s st where c: "m = (fst (run_merges (entry_merge_steps b l r p) (r, s)))
      \<lparr>e_totp := tu_projected (select3 (totp_unit_of b) (totp_unit_of l) (totp_unit_of r) p),
       e_passkey := pu_projected (select3 (passkey_unit_of b) (passkey_unit_of l) (passkey_unit_of r) p),
       e_attributes := bt_extend (bt_extend (fst (merge_keyed_map_filtered (e_attributes b) (e_attributes l)
         (e_attributes r) p (\<lambda>key. \<not> is_reserved_credential_attribute key) st))
         (tu_attributes (select3 (totp_unit_of b) (totp_unit_of l) (totp_unit_of r) p)))
         (pu_attributes (select3 (passkey_unit_of b) (passkey_unit_of l) (passkey_unit_of r) p)),
       e_attachments := e_attachments m, e_custom_data_blocks := e_custom_data_blocks m,
       e_opaque_xml := e_opaque_xml m, e_raw_state := e_raw_state m,
       e_custom_data := e_custom_data m, e_modified_at := max (e_modified_at l) (e_modified_at r)\<rparr>"
    using assms(1) unfolding merged_core_def Let_def p_def by blast
  have units: "tu_projected (select3 (totp_unit_of b) (totp_unit_of l) (totp_unit_of r) p) = e_totp (unit_entry b l r p totp_unit_of)"
    "pu_projected (select3 (passkey_unit_of b) (passkey_unit_of l) (passkey_unit_of r) p) = e_passkey (unit_entry b l r p passkey_unit_of)"
    unfolding select3_unit [of totp_unit_of] select3_unit [of passkey_unit_of]
    by (simp_all add: totp_unit_of_def passkey_unit_of_def)
  show "selects b l r m e_title" "selects b l r m e_username" "selects b l r m e_password" "selects b l r m e_url"
    "selects b l r m e_notes" "selects b l r m e_tags" "selects b l r m e_foreground_color"
    "selects b l r m e_background_color" "selects b l r m e_override_url" "selects b l r m e_created_at"
    "selects b l r m e_expires" "selects b l r m e_expiry_time" "selects b l r m e_last_accessed_at"
    "selects b l r m e_usage_count" "selects b l r m e_auto_type" "selects b l r m e_previous_parent"
    "selects b l r m e_exclude_from_reports"
    "selects b l r m (\<lambda>e. protect_title (e_field_protection e))" "selects b l r m (\<lambda>e. protect_username (e_field_protection e))"
    "selects b l r m (\<lambda>e. protect_password (e_field_protection e))" "selects b l r m (\<lambda>e. protect_url (e_field_protection e))"
    "selects b l r m (\<lambda>e. protect_notes (e_field_protection e))" "selects b l r m (\<lambda>e. (e_icon_id e, e_custom_icon_id e))"
    unfolding selects_def p_def [symmetric] by (subst c, simp add: entry_steps_core)+
  show "e_id m = e_id r" "e_location_changed_at m = e_location_changed_at r"
    "e_modified_at m = max (e_modified_at l) (e_modified_at r)"
    "e_totp m = e_totp (unit_entry b l r p totp_unit_of)" "e_passkey m = e_passkey (unit_entry b l r p passkey_unit_of)"
    by (subst c, simp add: entry_steps_core units)+
qed

lemma merged_attributes:
  fixes b l r :: entry_core
  assumes "bt_wf (e_attributes l)" "bt_wf (e_attributes r)" and "merged_core b l r m"
  defines "p \<equiv> e_modified_at l > e_modified_at r"
  shows "bt_get (e_attributes m) key =
    (if is_passkey_persistent_attribute_key key then bt_get (e_attributes (unit_entry b l r p passkey_unit_of)) key
     else if is_totp_persistent_attribute_key key then bt_get (e_attributes (unit_entry b l r p totp_unit_of)) key
     else select3 (bt_get (e_attributes b) key) (bt_get (e_attributes l) key) (bt_get (e_attributes r) key) p)"
proof -
  let ?t = "unit_entry b l r p totp_unit_of" and ?k = "unit_entry b l r p passkey_unit_of"
  have wf: "bt_wf (e_attributes ?t)" "bt_wf (e_attributes ?k)" by (intro unit_entry_wf assms)+
  obtain s st where c: "m = (fst (run_merges (entry_merge_steps b l r p) (r, s)))
      \<lparr>e_totp := tu_projected (totp_unit_of ?t), e_passkey := pu_projected (passkey_unit_of ?k),
       e_attributes := bt_extend (bt_extend (fst (merge_keyed_map_filtered (e_attributes b) (e_attributes l)
         (e_attributes r) p (\<lambda>key. \<not> is_reserved_credential_attribute key) st)) (tu_attributes (totp_unit_of ?t)))
         (pu_attributes (passkey_unit_of ?k)),
       e_attachments := e_attachments m, e_custom_data_blocks := e_custom_data_blocks m,
       e_opaque_xml := e_opaque_xml m, e_raw_state := e_raw_state m,
       e_custom_data := e_custom_data m, e_modified_at := max (e_modified_at l) (e_modified_at r)\<rparr>"
    using assms(3) unfolding merged_core_def Let_def p_def select3_unit [of totp_unit_of] select3_unit [of passkey_unit_of] by blast
  have none: "\<not> bt_contains m k \<Longrightarrow> map_of m k = None" for m :: attributes and k
    by (simp add: bt_contains_iff map_of_eq_None_iff)
  show ?thesis
    by (subst c) (use keys_disjoint [of key] none in \<open>simp add: extended_units [OF wf] merged_map_get
      is_reserved_credential_attribute_def\<close>)
qed

text \<open>C8. Every field of a merged entry, all of the record \<open>Entry\<close> but the history. The scalar fields, the
  five protection flags each for itself, and the two icons as a pair are selected three-way: the value only one side
  changed, the value both agree on, or, where both changed it, the value of the side modified last (the remote one on a
  tie). Attributes, attachments and CustomData are selected key by key, and the CustomData blocks spell the
  merged map. The TOTP and the passkey are selected as units of the projected record and its attributes, so
  that no merge mixes two versions of a credential. The raw state and the opaque fragments are selected whole, but for
  the positions in the document: the anchors and the three slot orders follow what is in the merged entry, so no
  slot is named that the selected state had not, and none for an attachment that is gone. The id and the time of
  the last move stay those of the remote entry, whose place the merged entry takes, and the modification time is the
  later one. The maps of the three entries are assumed to be sorted, as a \<open>BTreeMap\<close> is.\<close>

theorem merged_entry_selects:
  assumes "bt_wf (e_attributes b)" "bt_wf (e_attributes l)" "bt_wf (e_attributes r)"
    and "bt_wf (e_custom_data b)" "bt_wf (e_custom_data l)" "bt_wf (e_custom_data r)"
  shows "let m = e_core (fst (fst (merge_entry (Entry b hb) (Entry l hl) (Entry r hr) log)));
             p = (e_modified_at l > e_modified_at r);
             totp_from = unit_entry b l r p totp_unit_of;
             passkey_from = unit_entry b l r p passkey_unit_of;
             raw = select3 (e_raw_state b) (e_raw_state l) (e_raw_state r) p
    in selects b l r m e_title \<and> selects b l r m e_username \<and> selects b l r m e_password \<and>
       selects b l r m e_url \<and> selects b l r m e_notes \<and> selects b l r m e_tags \<and>
       selects b l r m e_foreground_color \<and> selects b l r m e_background_color \<and> selects b l r m e_override_url \<and>
       selects b l r m e_created_at \<and> selects b l r m e_expires \<and> selects b l r m e_expiry_time \<and>
       selects b l r m e_last_accessed_at \<and> selects b l r m e_usage_count \<and> selects b l r m e_auto_type \<and>
       selects b l r m e_previous_parent \<and> selects b l r m e_exclude_from_reports \<and>
       selects b l r m (\<lambda>e. protect_title (e_field_protection e)) \<and>
       selects b l r m (\<lambda>e. protect_username (e_field_protection e)) \<and>
       selects b l r m (\<lambda>e. protect_password (e_field_protection e)) \<and>
       selects b l r m (\<lambda>e. protect_url (e_field_protection e)) \<and>
       selects b l r m (\<lambda>e. protect_notes (e_field_protection e)) \<and>
       selects b l r m (\<lambda>e. (e_icon_id e, e_custom_icon_id e)) \<and>
       selects b l r m (\<lambda>e. bt_get (e_attachments e) key) \<and> selects b l r m (\<lambda>e. bt_get (e_custom_data e) key) \<and>
       e_totp m = e_totp totp_from \<and> e_passkey m = e_passkey passkey_from \<and>
       bt_get (e_attributes m) key =
         (if is_passkey_persistent_attribute_key key then bt_get (e_attributes passkey_from) key
          else if is_totp_persistent_attribute_key key then bt_get (e_attributes totp_from) key
          else select3 (bt_get (e_attributes b) key) (bt_get (e_attributes l) key)
            (bt_get (e_attributes r) key) p) \<and>
       merge_custom_data_blocks (e_custom_data_blocks m) = e_custom_data m \<and>
       map fr_xml (e_opaque_xml m) = map fr_xml (select3 (e_opaque_xml b) (e_opaque_xml l) (e_opaque_xml r) p) \<and>
       unordered (e_raw_state m) = unordered raw \<and>
       set (er_string_order (e_raw_state m)) \<subseteq> set (er_string_order raw) \<and>
       set (er_binary_order (e_raw_state m)) \<subseteq> set (er_binary_order raw) \<inter> fst ` set (e_attachments m) \<and>
       e_id m = e_id r \<and> e_location_changed_at m = e_location_changed_at r \<and>
       e_modified_at m = max (e_modified_at l) (e_modified_at r)"
proof -
  let ?p = "e_modified_at l > e_modified_at r"
  obtain m changed log' where m: "merge_entry (Entry b hb) (Entry l hl) (Entry r hr) log = ((m, changed), log')"
    by (metis surj_pair)
  obtain merged where core: "merged_core b l r (e_core merged)"
    and res: "(m, log') = (\<lambda>(e, lg). (normalize_entry_slots e, lg))
      (if entry_conflict b l r then add_losing_history_snapshot merged (if ?p then Entry r hr else Entry l hl) log
       else (merged, log))"
    by (rule merge_entry_split [OF m]) (use assms in simp_all)
  obtain x where x: "m = normalize_entry_slots x" "e_core x = e_core merged"
    using res by (cases "entry_conflict b l r") (auto simp: case_prod_unfold)
  have rest: "merge_custom_data_blocks (e_custom_data_blocks (e_core merged)) = e_custom_data (e_core merged)"
      "map fr_xml (e_opaque_xml (e_core merged)) = map fr_xml (select3 (e_opaque_xml b) (e_opaque_xml l) (e_opaque_xml r) ?p)"
      "\<And>k. bt_get (e_attachments (e_core merged)) k = select3 (bt_get (e_attachments b) k) (bt_get (e_attachments l) k)
        (bt_get (e_attachments r) k) ?p"
      "\<And>k. bt_get (e_custom_data (e_core merged)) k = select3 (bt_get (e_custom_data b) k) (bt_get (e_custom_data l) k)
        (bt_get (e_custom_data r) k) ?p"
    and "\<exists>order. e_raw_state (e_core merged) = (select3 (e_raw_state b) (e_raw_state l) (e_raw_state r) ?p)\<lparr>er_node_order := order\<rparr>"
    using core unfolding merged_core_def Let_def by blast+
  then obtain order where raw: "e_raw_state (e_core merged) =
      (select3 (e_raw_state b) (e_raw_state l) (e_raw_state r) ?p)\<lparr>er_node_order := order\<rparr>" by blast
  have same_items: "merge_custom_data_blocks bs = merge_custom_data_blocks cs" if "map cb_items bs = map cb_items cs" for bs cs
    using that by (simp add: merge_custom_data_blocks_def all_items_def)
  note n = normalized_rest [of x, folded x(1), unfolded x(2)]
  have blocks: "merge_custom_data_blocks (e_custom_data_blocks (e_core m)) = e_custom_data (e_core m)"
    using same_items [OF n(2)] rest(1) by (simp add: x)
  have orders: "unordered (e_raw_state (e_core m)) = unordered (select3 (e_raw_state b) (e_raw_state l) (e_raw_state r) ?p)"
    "set (er_string_order (e_raw_state (e_core m))) \<subseteq> set (er_string_order (select3 (e_raw_state b) (e_raw_state l) (e_raw_state r) ?p))"
    "set (er_binary_order (e_raw_state (e_core m))) \<subseteq>
       set (er_binary_order (select3 (e_raw_state b) (e_raw_state l) (e_raw_state r) ?p)) \<inter> fst ` set (e_attachments (e_core m))"
    using n(3-5) by (simp_all add: raw x unordered_def)
  note same = normalized_entry [of x, folded x(1), unfolded x(2)]
  note fields = selected_fields [OF core]
  have "selects b l r (e_core m) (\<lambda>e. bt_get (e_attachments e) key)" "selects b l r (e_core m) (\<lambda>e. bt_get (e_custom_data e) key)"
    unfolding selects_def same by (rule rest)+
  moreover note blocks trans [OF n(1) rest(2)] orders merged_attributes [OF assms(2,3) core, of key]
  ultimately show ?thesis
    using fields unfolding Let_def m fst_conv selects_def same by (intro conjI)
qed

lemma merged_entry_selects_witness:
  "let m = e_core (fst (fst (merge_entry (Entry (example_entry ''p0'' ''u0'' 1) [])
     (Entry (example_entry ''p1'' ''u0'' 5) []) (Entry (example_entry ''p0'' ''u2'' 3) []) patch_log_start)))
   in e_password m = ''p1'' \<and> e_url m = ''u2'' \<and> \<not> e_expires m"
proof -
  have "bt_wf (e_attributes (example_entry x y z))" "bt_wf (e_custom_data (example_entry x y z))" for x y z
    by (simp_all add: example_entry_def entry_new_def)
  then show ?thesis
    using merged_entry_selects [of "example_entry ''p0'' ''u0'' 1" "example_entry ''p1'' ''u0'' 5"
      "example_entry ''p0'' ''u2'' 3" "[]" "[]" "[]" patch_log_start]
    unfolding Let_def selects_def by (simp add: example_entry_def select3_def entry_new_def)
qed

end
