(* ===== verification/ThreeWay.thy ===== *)
theory ThreeWay
  imports EntryMerge
begin

text \<open>
  The three-way patch of a vault (\<^verbatim>\<open>crates/vaultkern-model/src/three_way_patch.rs\<close>,
  \<open>three_way_field_patch\<close>): the checks that a patch can be represented, the merge of all groups and
  entries, and the assembly of the patched vault. The lemmas lead to the promises the caller relies on:
  no edit is lost, every snapshot the result requires is in the patched vault, and no live object is
  listed as deleted.
\<close>

section \<open>Checks before the merge\<close>

definition insert_unique :: "('a \<Rightarrow> uuid) \<Rightarrow> (uuid \<Rightarrow> patch_error) \<Rightarrow> uuid list \<Rightarrow> 'a \<Rightarrow> patch_error + uuid list" where
  "insert_unique id_of err ids x =
     (if id_of x \<in> set ids then Inl (err (id_of x)) else Inr (bs_insert (id_of x) ids))"

definition ensure_unique_modeled_meta_ids :: "vault \<Rightarrow> string \<Rightarrow> patch_error + unit" where
  "ensure_unique_modeled_meta_ids vault side =
     and_then (try_fold (insert_unique ci_id (DuplicateCustomIcon side)) [] (v_custom_icons vault)) (\<lambda>_.
     and_then (try_fold (insert_unique do_id (DuplicateDeletedObject side)) [] (v_deleted_objects vault)) (\<lambda>_.
     Inr ()))"

definition ensure_fidelity_field :: "'a \<Rightarrow> 'a \<Rightarrow> 'a \<Rightarrow> string \<Rightarrow> uuid option \<Rightarrow> string \<Rightarrow> patch_error + unit" where
  "ensure_fidelity_field base local remote object oid field =
     (if local \<noteq> base \<and> remote \<noteq> base \<and> local \<noteq> remote then Inl (FidelityConflict object oid field)
      else Inr ())"

definition ensure_custom_data_rebase_representable ::
    "(string, string) btree \<Rightarrow> custom_data_block list \<Rightarrow> (string, string) btree \<Rightarrow> custom_data_block list \<Rightarrow>
     custom_data_block list \<Rightarrow> string \<Rightarrow> uuid option \<Rightarrow> patch_error + unit" where
  "ensure_custom_data_rebase_representable base base_blocks local local_blocks remote_blocks object oid =
     (if local_blocks = base_blocks \<or> remote_blocks = base_blocks \<or> local_blocks = remote_blocks \<or>
         custom_data_blocks_are_replayable base base_blocks local local_blocks
      then Inr ()
      else Inl (FidelityConflict object oid ''CustomData fidelity''))"

definition ensure_entry_representable :: "flat_vault \<Rightarrow> flat_vault \<Rightarrow> uuid \<times> flat_entry \<Rightarrow> patch_error + unit" where
  "ensure_entry_representable local_flat remote_flat ie =
     (let (eid, base_entry) = ie in
      case (bt_get (fv_entries local_flat) eid, bt_get (fv_entries remote_flat) eid) of
        (Some local_entry, Some remote_entry) \<Rightarrow>
          (let b = e_core (fe_value base_entry); l = e_core (fe_value local_entry);
               r = e_core (fe_value remote_entry)
           in and_then (ensure_fidelity_field (e_opaque_xml b) (e_opaque_xml l) (e_opaque_xml r)
                  ''entry'' (Some eid) ''opaque XML'') (\<lambda>_.
              ensure_custom_data_rebase_representable (e_custom_data b) (e_custom_data_blocks b)
                (e_custom_data l) (e_custom_data_blocks l) (e_custom_data_blocks r) ''entry'' (Some eid)))
      | _ \<Rightarrow> Inr ())"

definition ensure_group_representable :: "flat_vault \<Rightarrow> flat_vault \<Rightarrow> uuid \<times> flat_group \<Rightarrow> patch_error + unit" where
  "ensure_group_representable local_flat remote_flat ig =
     (let (gid, base_group) = ig in
      case (bt_get (fv_groups local_flat) gid, bt_get (fv_groups remote_flat) gid) of
        (Some local_group, Some remote_group) \<Rightarrow>
          (let b = g_core (fg_value base_group); l = g_core (fg_value local_group);
               r = g_core (fg_value remote_group)
           in and_then (ensure_fidelity_field (g_opaque_xml b) (g_opaque_xml l) (g_opaque_xml r)
                  ''group'' (Some gid) ''opaque XML'') (\<lambda>_.
              ensure_custom_data_rebase_representable (g_custom_data b) (g_custom_data_blocks b)
                (g_custom_data l) (g_custom_data_blocks l) (g_custom_data_blocks r) ''group'' (Some gid)))
      | _ \<Rightarrow> Inr ())"

definition ensure_fidelity_conflicts_representable ::
    "vault \<Rightarrow> vault \<Rightarrow> vault \<Rightarrow> flat_vault \<Rightarrow> flat_vault \<Rightarrow> flat_vault \<Rightarrow> patch_error + unit" where
  "ensure_fidelity_conflicts_representable base local remote base_flat local_flat remote_flat =
     and_then (ensure_fidelity_field (v_meta_opaque_xml base) (v_meta_opaque_xml local) (v_meta_opaque_xml remote)
        ''meta'' None ''opaque XML'') (\<lambda>_.
     and_then (ensure_fidelity_field (v_root_opaque_xml base) (v_root_opaque_xml local) (v_root_opaque_xml remote)
        ''root'' None ''opaque XML'') (\<lambda>_.
     and_then (ensure_custom_data_rebase_representable (v_meta_custom_data base) (v_meta_custom_data_blocks base)
        (v_meta_custom_data local) (v_meta_custom_data_blocks local) (v_meta_custom_data_blocks remote)
        ''meta'' None) (\<lambda>_.
     and_then (try_fold (\<lambda>_. ensure_entry_representable local_flat remote_flat) () (fv_entries base_flat)) (\<lambda>_.
     try_fold (\<lambda>_. ensure_group_representable local_flat remote_flat) () (fv_groups base_flat)))))"

section \<open>All entries\<close>

text \<open>The \<open>match\<close> of \<open>merge_entries\<close> for one identifier. The case of three absent entries is
  \<open>unreachable!()\<close> there; the identifiers come from the three maps.\<close>

definition select_entry ::
    "flat_vault \<Rightarrow> flat_vault \<Rightarrow> flat_vault \<Rightarrow> uuid list \<Rightarrow> uuid list \<Rightarrow> uuid \<Rightarrow> patch_log \<Rightarrow>
     patch_error + flat_entry option \<times> patch_log" where
  "select_entry base local remote locally_preserved remotely_preserved eid log =
     (case (bt_get (fv_entries base) eid, bt_get (fv_entries local) eid, bt_get (fv_entries remote) eid) of
        (None, None, Some r) \<Rightarrow> Inr (Some r, log)
      | (None, Some l, None) \<Rightarrow> Inr (Some l, log)
      | (None, Some l, Some r) \<Rightarrow>
          if same_entry_record l r then Inr (Some r, log) else Inl (ConcurrentObjectAddition eid)
      | (Some b, None, None) \<Rightarrow> Inr (None, log)
      | (Some b, Some l, None) \<Rightarrow>
          Inr (if \<not> same_entry_record b l \<or> belongs_to_preserved_subtree (fe_parent l) local locally_preserved
               then Some l else None, log)
      | (Some b, None, Some r) \<Rightarrow>
          Inr (if \<not> same_entry_record b r \<or> belongs_to_preserved_subtree (fe_parent r) remote remotely_preserved
               then Some r else None, log)
      | (Some b, Some l, Some r) \<Rightarrow>
          (let ((merged, changed), log1) = merge_entry (fe_value b) (fe_value l) (fe_value r) log;
               (parent, location_changed_at, location_conflict, prefers_local) =
                 merge_location (fe_parent b) (fe_parent l) (fe_parent r)
                   (e_location_changed_at (e_core (fe_value l))) (e_location_changed_at (e_core (fe_value r)));
               located = upd_entry (e_location_changed_at_update (\<lambda>_. location_changed_at)) merged;
               (final, log2) = (if location_conflict
                 then add_losing_history_snapshot located
                   (if prefers_local then fe_value r else fe_value l) log1
                 else (located, log1));
               log3 = (if changed \<or> parent \<noteq> fe_parent r \<or> final \<noteq> fe_value r
                 then log2\<lparr>pl_report := (pl_report log2)
                   \<lparr>rp_merged_entries := Suc (rp_merged_entries (pl_report log2))\<rparr>\<rparr>
                 else log2)
           in Inr (Some \<lparr>fe_value = final, fe_parent = parent,
                 fe_order = (if prefers_local then fe_order l else fe_order r)\<rparr>, log3))
      | (None, None, None) \<Rightarrow> Inr (None, log))"

definition merge_entries ::
    "flat_vault \<Rightarrow> flat_vault \<Rightarrow> flat_vault \<Rightarrow> (uuid, flat_group) btree \<Rightarrow> uuid list \<Rightarrow> uuid list \<Rightarrow>
     patch_log \<Rightarrow> patch_error + (uuid, flat_entry) btree \<times> patch_log" where
  "merge_entries base local remote groups locally_preserved remotely_preserved log =
     try_fold (\<lambda>(merged, lg) eid.
       and_then (select_entry base local remote locally_preserved remotely_preserved eid lg) (\<lambda>(result, lg').
         case result of
           None \<Rightarrow> Inr (merged, lg')
         | Some entry \<Rightarrow>
             if \<not> bt_contains groups (fe_parent entry) then Inl (MissingParent (fe_parent entry))
             else Inr (bt_insert eid entry merged, lg')))
       ([], log) (union_keys3 (fv_entries base) (fv_entries local) (fv_entries remote))"

section \<open>All groups\<close>

definition merge_group_location ::
    "flat_group \<Rightarrow> flat_group \<Rightarrow> flat_group \<Rightarrow> vgroup \<Rightarrow>
     patch_error + uuid option \<times> u64 option \<times> bool \<times> bool" where
  "merge_group_location b l r merged =
     (case (fg_parent b, fg_parent l, fg_parent r) of
        (None, None, None) \<Rightarrow> Inr (None, group_location_changed_at merged, False, False)
      | (Some bp, Some lp, Some rp) \<Rightarrow>
          (let (parent, changed_at, conflict, prefers_local) = merge_location bp lp rp
                 (group_location_changed_at (fg_value l)) (group_location_changed_at (fg_value r))
           in Inr (Some parent, changed_at, conflict, prefers_local))
      | _ \<Rightarrow> Inl RootLineageMismatch)"

definition select_group ::
    "flat_vault \<Rightarrow> flat_vault \<Rightarrow> flat_vault \<Rightarrow> uuid list \<Rightarrow> uuid list \<Rightarrow> uuid \<Rightarrow> patch_log \<Rightarrow>
     patch_error + flat_group option \<times> patch_log" where
  "select_group base local remote locally_preserved remotely_preserved gid log =
     (case (bt_get (fv_groups base) gid, bt_get (fv_groups local) gid, bt_get (fv_groups remote) gid) of
        (None, None, Some r) \<Rightarrow> Inr (Some r, log)
      | (None, Some l, None) \<Rightarrow> Inr (Some l, log)
      | (None, Some l, Some r) \<Rightarrow>
          if subtrees_equal local remote gid then Inr (Some r, log) else Inl (ConcurrentObjectAddition gid)
      | (Some b, None, None) \<Rightarrow> Inr (None, log)
      | (Some b, Some l, None) \<Rightarrow>
          Inr (if belongs_to_preserved_subtree gid local locally_preserved then Some l else None, log)
      | (Some b, None, Some r) \<Rightarrow>
          Inr (if belongs_to_preserved_subtree gid remote remotely_preserved then Some r else None, log)
      | (Some b, Some l, Some r) \<Rightarrow>
          and_then (merge_group_fields gid (fg_value b) (fg_value l) (fg_value r)
            (group_modified_at (fg_value l) > group_modified_at (fg_value r))) (\<lambda>(merged, changed).
          and_then (merge_group_location b l r merged) (\<lambda>(parent, location_changed_at, _, prefers_local).
            (let located = set_group_location_changed_at location_changed_at merged;
                 log1 = (if changed \<or> parent \<noteq> fg_parent r \<or> located \<noteq> fg_value r
                   then log\<lparr>pl_report := (pl_report log)
                     \<lparr>rp_merged_groups := Suc (rp_merged_groups (pl_report log))\<rparr>\<rparr>
                   else log)
             in Inr (Some \<lparr>fg_value = located, fg_parent = parent,
                   fg_order = (if prefers_local then fg_order l else fg_order r)\<rparr>, log1))))
      | (None, None, None) \<Rightarrow> Inr (None, log))"

definition merge_groups ::
    "flat_vault \<Rightarrow> flat_vault \<Rightarrow> flat_vault \<Rightarrow> uuid list \<Rightarrow> uuid list \<Rightarrow> patch_log \<Rightarrow>
     patch_error + (uuid, flat_group) btree \<times> patch_log" where
  "merge_groups base local remote locally_preserved remotely_preserved log =
     and_then (try_fold (\<lambda>(merged, lg) gid.
         and_then (select_group base local remote locally_preserved remotely_preserved gid lg) (\<lambda>(result, lg').
           Inr (case result of None \<Rightarrow> merged | Some grp \<Rightarrow> bt_insert gid grp merged, lg')))
       ([], log) (union_keys3 (fv_groups base) (fv_groups local) (fv_groups remote))) (\<lambda>(merged, lg).
     and_then (try_fold (\<lambda>_ (gid, grp). (case fg_parent grp of
           Some parent \<Rightarrow> if \<not> bt_contains merged parent then Inl (MissingParent gid) else Inr ()
         | None \<Rightarrow> Inr ())) () merged) (\<lambda>_.
     Inr (merged, lg)))"

section \<open>Attachment contents of the result\<close>

text \<open>\<open>normalize_group_attachment_content\<close> interns every attachment of the result in one pool. An
  interned content stays alive, for the result owns it, so here the pool holds the contents themselves.\<close>

type_synonym content_pool = "(content_id, attachment_content) btree"

definition intern_pooled :: "attachment_content \<Rightarrow> content_pool \<Rightarrow> (model_error + attachment_content) \<times> content_pool" where
  "intern_pooled content pool =
     (case bt_get pool (ac_id content) of
        Some existing \<Rightarrow>
          if ac_bytes existing \<noteq> ac_bytes content then (Inl AttachmentContentHashCollision, pool)
          else (Inr existing, pool)
      | None \<Rightarrow> (Inr content, bt_insert (ac_id content) content pool))"

fun normalize_attachments ::
    "(string, attachment) btree \<Rightarrow> content_pool \<Rightarrow> (string, attachment) btree \<times> content_pool" where
  "normalize_attachments [] pool = ([], pool)"
| "normalize_attachments ((name, attachment) # rest) pool =
     (let (res, pool1) = intern_pooled (a_data attachment) pool;
          attachment1 = (case res of Inr content \<Rightarrow> attachment\<lparr>a_data := content\<rparr> | Inl _ \<Rightarrow> attachment);
          (rest1, pool2) = normalize_attachments rest pool1
      in ((name, attachment1) # rest1, pool2))"

fun normalize_entry_attachment_content :: "entry \<Rightarrow> content_pool \<Rightarrow> entry \<times> content_pool"
  and normalize_entries_attachment_content :: "entry list \<Rightarrow> content_pool \<Rightarrow> entry list \<times> content_pool" where
  "normalize_entry_attachment_content (Entry core history) pool =
     (let (attachments, pool1) = normalize_attachments (e_attachments core) pool;
          (history1, pool2) = normalize_entries_attachment_content history pool1
      in (Entry (core\<lparr>e_attachments := attachments\<rparr>) history1, pool2))"
| "normalize_entries_attachment_content [] pool = ([], pool)"
| "normalize_entries_attachment_content (e # es) pool =
     (let (e1, pool1) = normalize_entry_attachment_content e pool;
          (es1, pool2) = normalize_entries_attachment_content es pool1
      in (e1 # es1, pool2))"

fun normalize_group_contents :: "vgroup \<Rightarrow> content_pool \<Rightarrow> vgroup \<times> content_pool"
  and normalize_groups_contents :: "vgroup list \<Rightarrow> content_pool \<Rightarrow> vgroup list \<times> content_pool" where
  "normalize_group_contents (Group core entries children) pool =
     (let (entries1, pool1) = normalize_entries_attachment_content entries pool;
          (children1, pool2) = normalize_groups_contents children pool1
      in (Group core entries1 children1, pool2))"
| "normalize_groups_contents [] pool = ([], pool)"
| "normalize_groups_contents (g # gs) pool =
     (let (g1, pool1) = normalize_group_contents g pool;
          (gs1, pool2) = normalize_groups_contents gs pool1
      in (g1 # gs1, pool2))"

definition normalize_group_attachment_content :: "vgroup \<Rightarrow> vgroup" where
  "normalize_group_attachment_content grp = fst (normalize_group_contents grp [])"

section \<open>The patch\<close>

record patch_result =
  pr_vault :: vault
  pr_report :: patch_report
  pr_required_history_snapshots :: "recovery_snapshot list"

definition three_way_field_patch :: "vault \<Rightarrow> vault \<Rightarrow> vault \<Rightarrow> patch_error + patch_result" where
  "three_way_field_patch base local remote =
     and_then (flatten_vault base ''base'') (\<lambda>base_flat.
     and_then (flatten_vault local ''local'') (\<lambda>local_flat.
     and_then (flatten_vault remote ''remote'') (\<lambda>remote_flat.
     if fv_root_id base_flat \<noteq> fv_root_id local_flat \<or> fv_root_id base_flat \<noteq> fv_root_id remote_flat
     then Inl RootLineageMismatch
     else
     and_then (ensure_unique_modeled_meta_ids base ''base'') (\<lambda>_.
     and_then (ensure_unique_modeled_meta_ids local ''local'') (\<lambda>_.
     and_then (ensure_unique_modeled_meta_ids remote ''remote'') (\<lambda>_.
     and_then (ensure_fidelity_conflicts_representable base local remote base_flat local_flat remote_flat) (\<lambda>_.
     and_then (ensure_local_sibling_order_representable base_flat local_flat remote_flat) (\<lambda>_.
     let locally_preserved = changed_subtrees_deleted_from_other base_flat local_flat remote_flat;
         remotely_preserved = changed_subtrees_deleted_from_other base_flat remote_flat local_flat in
     and_then (merge_groups base_flat local_flat remote_flat locally_preserved remotely_preserved
       patch_log_start) (\<lambda>(groups0, log0).
     and_then (reconcile_group_sibling_orders base_flat local_flat remote_flat groups0) (\<lambda>groups.
     and_then (validate_group_hierarchy (fv_root_id base_flat) groups) (\<lambda>_.
     and_then (merge_entries base_flat local_flat remote_flat groups locally_preserved remotely_preserved
       log0) (\<lambda>(entries0, log1).
     and_then (reconcile_entry_sibling_orders base_flat local_flat remote_flat entries0) (\<lambda>entries.
     and_then (rebuild_tree (fv_root_id base_flat) groups entries []) (\<lambda>root.
     and_then (merge_meta base local remote) (\<lambda>vault.
     Inr \<lparr>pr_vault = vault\<lparr>v_deleted_objects := filter (\<lambda>deleted. \<not> bt_contains groups (do_id deleted) \<and>
              \<not> bt_contains entries (do_id deleted)) (v_deleted_objects vault),
            v_root := normalize_group_attachment_content root\<rparr>,
          pr_report = pl_report log1,
          pr_required_history_snapshots = pl_required log1\<rparr>)))))))))))))))"

section \<open>Contents are unchanged by value\<close>

text \<open>A pool holds, under each digest, a content with that digest.\<close>

definition pool_ok :: "content_pool \<Rightarrow> bool" where
  "pool_ok pool \<longleftrightarrow> (\<forall>i c. bt_get pool i = Some c \<longrightarrow> ac_id c = i)"

lemma intern_pooled_ok:
  assumes "pool_ok pool"
  shows "pool_ok (snd (intern_pooled c pool))"
    and "(case fst (intern_pooled c pool) of Inr c' \<Rightarrow> c' | Inl _ \<Rightarrow> c) = c"
proof -
  show "pool_ok (snd (intern_pooled c pool))"
    using assms by (auto simp: pool_ok_def intern_pooled_def split: option.split)
  show "(case fst (intern_pooled c pool) of Inr c' \<Rightarrow> c' | Inl _ \<Rightarrow> c) = c"
    using assms by (auto simp: pool_ok_def intern_pooled_def split: option.split
        intro: attachment_content.equality)
qed

lemma normalize_attachments_id:
  "pool_ok pool \<Longrightarrow> fst (normalize_attachments as pool) = as \<and> pool_ok (snd (normalize_attachments as pool))"
proof (induction "as" pool rule: normalize_attachments.induct)
  case (2 name attachment rest pool)
  obtain res pool1 where r: "intern_pooled (a_data attachment) pool = (res, pool1)" by fastforce
  then have ok: "pool_ok pool1" and same: "(case res of Inr c' \<Rightarrow> c' | Inl _ \<Rightarrow> a_data attachment) = a_data attachment"
    using intern_pooled_ok [OF 2(2), of "a_data attachment"] by simp_all
  then have "(case res of Inr content \<Rightarrow> attachment\<lparr>a_data := content\<rparr> | Inl _ \<Rightarrow> attachment) = attachment"
    by (cases res) auto
  with ok 2(1) [OF r [symmetric] refl refl ok] r show ?case
    by (auto simp: Let_def case_prod_unfold)
qed simp

lemma normalize_entry_contents_id:
  "pool_ok pool \<Longrightarrow> fst (normalize_entry_attachment_content e pool) = e \<and>
     pool_ok (snd (normalize_entry_attachment_content e pool))"
  "pool_ok pool \<Longrightarrow> fst (normalize_entries_attachment_content es pool) = es \<and>
     pool_ok (snd (normalize_entries_attachment_content es pool))"
proof (induction e pool and es pool rule: normalize_entry_attachment_content_normalize_entries_attachment_content.induct)
  case (1 core history pool)
  obtain as pool1 where a: "normalize_attachments (e_attachments core) pool = (as, pool1)" by fastforce
  with normalize_attachments_id [OF 1(2), of "e_attachments core"] have "as = e_attachments core" "pool_ok pool1"
    by simp_all
  with 1(1) [OF a [symmetric] refl] a show ?case by (simp add: case_prod_unfold)
next
  case (3 e es pool)
  obtain e1 pool1 where e: "normalize_entry_attachment_content e pool = (e1, pool1)" by fastforce
  with 3(1) [OF 3(3)] have "e1 = e" "pool_ok pool1" by simp_all
  with 3(2) [OF e [symmetric] refl] e show ?case by (simp add: case_prod_unfold)
qed simp

lemma normalize_group_contents_id:
  "pool_ok pool \<Longrightarrow> fst (normalize_group_contents g pool) = g \<and> pool_ok (snd (normalize_group_contents g pool))"
  "pool_ok pool \<Longrightarrow> fst (normalize_groups_contents gs pool) = gs \<and> pool_ok (snd (normalize_groups_contents gs pool))"
proof (induction g pool and gs pool rule: normalize_group_contents_normalize_groups_contents.induct)
  case (1 core entries children pool)
  obtain es pool1 where e: "normalize_entries_attachment_content entries pool = (es, pool1)" by fastforce
  with normalize_entry_contents_id(2) [OF 1(2), of entries] have "es = entries" "pool_ok pool1" by simp_all
  with 1(1) [OF e [symmetric] refl] e show ?case by (simp add: case_prod_unfold)
next
  case (3 g gs pool)
  obtain g1 pool1 where g: "normalize_group_contents g pool = (g1, pool1)" by fastforce
  with 3(1) [OF 3(3)] have "g1 = g" "pool_ok pool1" by simp_all
  with 3(2) [OF g [symmetric] refl] g show ?case by (simp add: case_prod_unfold)
qed simp

lemma normalize_content_id [simp]: "normalize_group_attachment_content g = g"
  using normalize_group_contents_id(1) [of "[]" g] by (simp add: normalize_group_attachment_content_def pool_ok_def)

section \<open>Folds over identifiers\<close>

lemma try_fold_prefix:
  assumes "try_fold f s xs = Inr s'" and "P [] s"
    and "\<And>ys x zs s s'. xs = ys @ x # zs \<Longrightarrow> P ys s \<Longrightarrow> f s x = Inr s' \<Longrightarrow> P (ys @ [x]) s'"
  shows "P xs s'"
  using assms
proof (induction xs arbitrary: s' rule: rev_induct)
  case (snoc x xs)
  from snoc.prems(1) obtain t where t: "try_fold f s xs = Inr t" "f t x = Inr s'"
    by (auto simp: try_fold_append and_then_eq_Inr)
  have "P xs t"
  proof (rule snoc.IH [OF t(1) snoc.prems(2)])
    fix ys y zs u u' assume "xs = ys @ y # zs" "P ys u" "f u y = Inr u'"
    then show "P (ys @ [y]) u'" using snoc.prems(3) [of ys y "zs @ [x]"] by simp
  qed
  then show ?case using snoc.prems(3) [of xs x "[]"] t(2) by simp
qed simp

section \<open>Selected entries\<close>

definition keyed_entries :: "(uuid, flat_entry) btree \<Rightarrow> bool" where
  "keyed_entries entries \<longleftrightarrow> (\<forall>x e. bt_get entries x = Some e \<longrightarrow> entry_id (fe_value e) = x)"

definition histories_kept :: "entry \<Rightarrow> entry \<Rightarrow> bool" where
  "histories_kept old new \<longleftrightarrow> set (e_history old) \<subseteq> set (e_history new)"

text \<open>A merged entry, its location snapshot included.\<close>

lemma merge_entry_shape:
  "\<exists>merged x c f. merge_entry base local remote log =
     (let elg = (if c then add_losing_history_snapshot merged x log else (merged, log))
      in ((normalize_entry_slots (fst elg), f), snd elg)) \<and>
     entry_id merged = entry_id remote \<and>
     e_history merged = history_union (e_history base) (e_history local) (e_history remote)"
  unfolding merge_entry_def Let_def case_prod_unfold
  by (intro exI conjI, rule refl) (simp_all add: entry_steps_core)

lemma losing_required:
  "sn \<in> set (pl_required (snd (add_losing_history_snapshot m x log))) \<Longrightarrow>
   sn \<in> set (pl_required log) \<or>
   sn_entry_id sn = entry_id m \<and> sn_snapshot sn \<in> set (e_history (fst (add_losing_history_snapshot m x log)))"
  by (auto simp: add_losing_history_snapshot_def Let_def split: if_splits)

lemma merge_entry_keeps:
  assumes "merge_entry base local remote log = ((m, changed), log')"
  shows "entry_id m = entry_id remote"
    and "set (e_history base) \<union> set (e_history local) \<union> set (e_history remote) \<subseteq> set (e_history m)"
    and "sn \<in> set (pl_required log') \<Longrightarrow> sn \<in> set (pl_required log) \<or>
      sn_entry_id sn = entry_id remote \<and> sn_snapshot sn \<in> set (e_history m)"
proof -
  obtain merged x c f where shape: "merge_entry base local remote log =
     (let elg = (if c then add_losing_history_snapshot merged x log else (merged, log))
      in ((normalize_entry_slots (fst elg), f), snd elg))"
    and id: "entry_id merged = entry_id remote"
    and hist: "e_history merged = history_union (e_history base) (e_history local) (e_history remote)"
    using merge_entry_shape by blast
  have m: "m = normalize_entry_slots (fst (if c then add_losing_history_snapshot merged x log else (merged, log)))"
    and log': "log' = snd (if c then add_losing_history_snapshot merged x log else (merged, log))"
    using assms shape by (simp_all add: Let_def)
  show "entry_id m = entry_id remote" by (simp add: m id)
  show "set (e_history base) \<union> set (e_history local) \<union> set (e_history remote) \<subseteq> set (e_history m)"
    by (auto simp: m hist set_history_union losing_history(1))
  show "sn \<in> set (pl_required log') \<Longrightarrow> sn \<in> set (pl_required log) \<or>
      sn_entry_id sn = entry_id remote \<and> sn_snapshot sn \<in> set (e_history m)"
    using losing_required [of sn merged x log] id by (auto simp: m log' split: if_splits)
qed

text \<open>What a selected entry owes to the versions it comes from.\<close>

definition entry_survives ::
    "flat_vault \<Rightarrow> flat_vault \<Rightarrow> uuid \<Rightarrow> flat_entry \<Rightarrow> bool" where
  "entry_survives base side eid e \<longleftrightarrow> bt_get (fv_entries side) eid = Some e \<and>
     (case bt_get (fv_entries base) eid of None \<Rightarrow> True | Some b \<Rightarrow> \<not> same_entry_record b e)"

lemma select_entry_facts:
  assumes sel: "select_entry base local remote lp rp eid log = Inr (res, log')"
    and keyed: "keyed_entries (fv_entries local)" "keyed_entries (fv_entries remote)"
  shows "res = Some x \<Longrightarrow> entry_id (fe_value x) = eid"
    and "entry_survives base local eid e \<or> entry_survives base remote eid e \<Longrightarrow>
      \<exists>x. res = Some x \<and> set (e_history (fe_value e)) \<subseteq> set (e_history (fe_value x))"
    and "sn \<in> set (pl_required log') \<Longrightarrow> sn \<in> set (pl_required log) \<or>
      sn_entry_id sn = eid \<and> (\<exists>x. res = Some x \<and> sn_snapshot sn \<in> set (e_history (fe_value x)))"
proof -
  let ?b = "bt_get (fv_entries base) eid" and ?l = "bt_get (fv_entries local) eid"
  let ?r = "bt_get (fv_entries remote) eid"
  have "(\<forall>x. res = Some x \<longrightarrow> entry_id (fe_value x) = eid) \<and>
    (\<forall>e. entry_survives base local eid e \<or> entry_survives base remote eid e \<longrightarrow>
      (\<exists>x. res = Some x \<and> set (e_history (fe_value e)) \<subseteq> set (e_history (fe_value x)))) \<and>
    (\<forall>sn. sn \<in> set (pl_required log') \<longrightarrow> sn \<in> set (pl_required log) \<or>
      sn_entry_id sn = eid \<and> (\<exists>x. res = Some x \<and> sn_snapshot sn \<in> set (e_history (fe_value x))))"
  proof (cases "\<exists>b l r. ?b = Some b \<and> ?l = Some l \<and> ?r = Some r")
    case False
    then show ?thesis
      using sel keyed
      by (cases ?b; cases ?l; cases ?r) (auto simp: select_entry_def entry_survives_def keyed_entries_def
          same_entry_record_def split: if_splits dest: sym [of "Some _"])
  next
    case True
    then obtain b l r where some: "?b = Some b" "?l = Some l" "?r = Some r" by blast
    obtain merged changed log1 where m: "merge_entry (fe_value b) (fe_value l) (fe_value r) log =
        ((merged, changed), log1)" by (metis surj_pair)
    obtain parent t conflict pl where loc: "merge_location (fe_parent b) (fe_parent l) (fe_parent r)
        (e_location_changed_at (e_core (fe_value l))) (e_location_changed_at (e_core (fe_value r))) =
        (parent, t, conflict, pl)" by (rule prod_cases4)
    define located where "located = upd_entry (e_location_changed_at_update (\<lambda>_. t)) merged"
    define step where "step = (if conflict
      then add_losing_history_snapshot located (if pl then fe_value r else fe_value l) log1 else (located, log1))"
    have res: "res = Some \<lparr>fe_value = fst step, fe_parent = parent, fe_order = (if pl then fe_order l else fe_order r)\<rparr>"
      and req: "pl_required log' = pl_required (snd step)"
      using sel by (auto simp: select_entry_def some m loc located_def step_def Let_def case_prod_unfold
          split: if_splits)
    have core: "entry_id (fst step) = eid"
      using merge_entry_keeps(1) [OF m] some(3) keyed(2)
      by (auto simp: step_def located_def keyed_entries_def)
    have hist: "set (e_history merged) \<subseteq> set (e_history (fst step))"
      by (auto simp: step_def located_def losing_history(1))
    have snaps: "sn \<in> set (pl_required log) \<or> sn_entry_id sn = eid \<and> sn_snapshot sn \<in> set (e_history (fst step))"
      if "sn \<in> set (pl_required log')" for sn
    proof -
      have id: "entry_id located = eid" using core by (simp add: step_def split: if_splits)
      have "sn \<in> set (pl_required log1) \<or> sn_entry_id sn = eid \<and> sn_snapshot sn \<in> set (e_history (fst step))"
        using that id losing_required [of sn located "if pl then fe_value r else fe_value l" log1]
        by (auto simp: req step_def split: if_splits)
      moreover have "entry_id (fe_value r) = eid" using some(3) keyed(2) by (simp add: keyed_entries_def)
      ultimately show ?thesis using merge_entry_keeps(3) [OF m, of sn] hist by auto
    qed
    show ?thesis
      using core hist snaps merge_entry_keeps(2) [OF m] some by (auto simp: res entry_survives_def)
  qed
  then show "res = Some x \<Longrightarrow> entry_id (fe_value x) = eid"
    "entry_survives base local eid e \<or> entry_survives base remote eid e \<Longrightarrow>
      \<exists>x. res = Some x \<and> set (e_history (fe_value e)) \<subseteq> set (e_history (fe_value x))"
    "sn \<in> set (pl_required log') \<Longrightarrow> sn \<in> set (pl_required log) \<or>
      sn_entry_id sn = eid \<and> (\<exists>x. res = Some x \<and> sn_snapshot sn \<in> set (e_history (fe_value x)))"
    by blast+
qed

lemma merge_entries_facts:
  assumes merge: "merge_entries base local remote groups lp rp log = Inr (merged, log')"
    and keyed: "keyed_entries (fv_entries local)" "keyed_entries (fv_entries remote)"
  shows "bt_wf merged \<and> keyed_entries merged \<and> fe_parent ` snd ` set merged \<subseteq> fst ` set groups"
    and "entry_survives base local eid e \<or> entry_survives base remote eid e \<Longrightarrow>
      \<exists>x. bt_get merged eid = Some x \<and> set (e_history (fe_value e)) \<subseteq> set (e_history (fe_value x))"
    and "sn \<in> set (pl_required log') \<Longrightarrow> sn \<in> set (pl_required log) \<or>
      (\<exists>x. bt_get merged (sn_entry_id sn) = Some x \<and> sn_snapshot sn \<in> set (e_history (fe_value x)))"
proof -
  let ?keys = "union_keys3 (fv_entries base) (fv_entries local) (fv_entries remote)"
  let ?P = "\<lambda>done (m, lg). bt_wf m \<and> keyed_entries m \<and> fe_parent ` snd ` set m \<subseteq> fst ` set groups \<and>
    fst ` set m \<subseteq> set done \<and>
    (\<forall>eid e. eid \<in> set done \<longrightarrow> entry_survives base local eid e \<or> entry_survives base remote eid e \<longrightarrow>
      (\<exists>x. bt_get m eid = Some x \<and> set (e_history (fe_value e)) \<subseteq> set (e_history (fe_value x)))) \<and>
    (\<forall>sn. sn \<in> set (pl_required lg) \<longrightarrow> sn \<in> set (pl_required log) \<or>
      (\<exists>x. bt_get m (sn_entry_id sn) = Some x \<and> sn_snapshot sn \<in> set (e_history (fe_value x))))"
  have all: "?P ?keys (merged, log')"
  proof (rule try_fold_prefix [OF merge [unfolded merge_entries_def], where P = ?P])
    show "?P [] ([], log)" by (simp add: keyed_entries_def)
  next
    fix ys x zs s s'
    assume keys: "?keys = ys @ x # zs" and P: "?P ys s"
      and step: "(case s of (merged, lg) \<Rightarrow> \<lambda>eid.
        and_then (select_entry base local remote lp rp eid lg) (\<lambda>(result, lg').
          case result of None \<Rightarrow> Inr (merged, lg')
          | Some entry \<Rightarrow> if \<not> bt_contains groups (fe_parent entry) then Inl (MissingParent (fe_parent entry))
              else Inr (bt_insert eid entry merged, lg'))) x = Inr s'"
    obtain m lg where s: "s = (m, lg)" by (cases s)
    obtain res lg' where sel: "select_entry base local remote lp rp x lg = Inr (res, lg')"
      using step by (cases "select_entry base local remote lp rp x lg") (auto simp: s)
    then have s': "s' = (case res of None \<Rightarrow> m | Some e \<Rightarrow> bt_insert x e m, lg')"
      and par: "case res of None \<Rightarrow> True | Some e \<Rightarrow> bt_contains groups (fe_parent e)"
      using step by (auto simp: s split: option.splits if_splits)
    have "x \<notin> set ys" using keys distinct_union_keys3 [of "fv_entries base" "fv_entries local" "fv_entries remote"]
      by simp
    then have new: "x \<notin> fst ` set m" using P s by auto
    then have none: "bt_get m x = None" by (simp add: map_of_eq_None_iff)
    note F = select_entry_facts [OF sel keyed]
    show "?P (ys @ [x]) s'"
    proof (cases res)
      case None
      then show ?thesis using P F(2,3) none by (auto simp: s s')
    next
      case (Some e)
      have sub: "set (bt_insert x e m) \<subseteq> insert (x, e) (set m)" by (rule set_bt_insert_subset)
      have parents: "fe_parent ` snd ` set (bt_insert x e m) \<subseteq> fst ` set groups"
      proof -
        have "fe_parent ` snd ` set (bt_insert x e m) \<subseteq> fe_parent ` snd ` insert (x, e) (set m)"
          using sub by (intro image_mono)
        also have "\<dots> \<subseteq> fst ` set groups" using P par Some s by (simp add: bt_contains_iff)
        finally show ?thesis .
      qed
      have snaps: "sn \<in> set (pl_required log) \<or> (\<exists>y. bt_get (bt_insert x e m) (sn_entry_id sn) = Some y \<and>
          sn_snapshot sn \<in> set (e_history (fe_value y)))" if "sn \<in> set (pl_required lg')" for sn
      proof (cases "sn \<in> set (pl_required lg)")
        case True
        then consider "sn \<in> set (pl_required log)" | y where "bt_get m (sn_entry_id sn) = Some y"
          "sn_snapshot sn \<in> set (e_history (fe_value y))" using P s by auto
        then show ?thesis using none by cases auto
      next
        case False
        then show ?thesis using F(3) [OF that] Some by auto
      qed
      show ?thesis
        using P F(1,2) Some snaps parents by (auto simp: s s' keyed_entries_def)
    qed
  qed
  then show "bt_wf merged \<and> keyed_entries merged \<and> fe_parent ` snd ` set merged \<subseteq> fst ` set groups" by simp
  show "\<exists>x. bt_get merged eid = Some x \<and> set (e_history (fe_value e)) \<subseteq> set (e_history (fe_value x))"
    if h: "entry_survives base local eid e \<or> entry_survives base remote eid e"
  proof -
    have "eid \<in> set ?keys" using h
      union_keys3_outside [of eid "fv_entries base" "fv_entries local" "fv_entries remote"]
      by (intro ccontr [of "eid \<in> _"]) (auto simp: entry_survives_def)
    with all h show ?thesis by auto
  qed
  show "sn \<in> set (pl_required log') \<Longrightarrow> sn \<in> set (pl_required log) \<or>
      (\<exists>x. bt_get merged (sn_entry_id sn) = Some x \<and> sn_snapshot sn \<in> set (e_history (fe_value x)))"
    using all by auto
qed

section \<open>Merged groups\<close>

lemma group_steps_id: "g_id (fst (run_merges (group_merge_steps b l r p) (m, st))) = g_id m"
  by (simp add: group_merge_steps_def merge_field_alt case_prod_unfold Let_def)

lemma merge_group_fields_id:
  "merge_group_fields gid base local remote p = Inr (g, c) \<Longrightarrow> group_id g = group_id remote"
  by (auto simp: merge_group_fields_def Let_def case_prod_unfold group_steps_id split: if_splits)

lemma set_location_id [simp]: "group_id (set_group_location_changed_at t g) = group_id g"
  by (simp add: set_group_location_changed_at_def)

lemma select_group_facts:
  assumes "select_group base local remote lp rp gid log = Inr (res, log')"
    and "keyed_groups (fv_groups local)" "keyed_groups (fv_groups remote)"
  shows "(\<forall>x. res = Some x \<longrightarrow> group_id (fg_value x) = gid) \<and> pl_required log' = pl_required log"
proof -
  have "group_id (fg_value x) = gid"
    if "bt_get (fv_groups local) gid = Some x \<or> bt_get (fv_groups remote) gid = Some x" for x
    using that assms(2,3) by (auto simp: keyed_groups_def dest: map_of_SomeD)
  note ids = this
  let ?b = "bt_get (fv_groups base) gid" and ?l = "bt_get (fv_groups local) gid"
  let ?r = "bt_get (fv_groups remote) gid"
  show ?thesis
  proof (cases "\<exists>b l r. ?b = Some b \<and> ?l = Some l \<and> ?r = Some r")
    case False
    then show ?thesis using assms(1) ids
      by (cases ?b; cases ?l; cases ?r) (auto simp: select_group_def split: if_splits dest: sym [of "Some _"])
  next
    case True
    then obtain b l r where some: "?b = Some b" "?l = Some l" "?r = Some r" by blast
    from assms(1) obtain m changed where m: "merge_group_fields gid (fg_value b) (fg_value l) (fg_value r)
        (group_modified_at (fg_value l) > group_modified_at (fg_value r)) = Inr (m, changed)"
      by (cases "merge_group_fields gid (fg_value b) (fg_value l) (fg_value r)
        (group_modified_at (fg_value l) > group_modified_at (fg_value r))") (auto simp: select_group_def some)
    from assms(1) obtain parent t conflict pl where loc: "merge_group_location b l r m = Inr (parent, t, conflict, pl)"
      by (cases "merge_group_location b l r m") (auto simp: select_group_def some m)
    have "group_id m = gid" using merge_group_fields_id [OF m] ids some(3) by simp
    then show ?thesis using assms(1) by (auto simp: select_group_def some m loc Let_def)
  qed
qed

lemma merge_groups_facts:
  assumes merge: "merge_groups base local remote lp rp log = Inr (merged, log')"
    and keyed: "keyed_groups (fv_groups local)" "keyed_groups (fv_groups remote)"
  shows "bt_wf merged \<and> keyed_groups merged \<and> pl_required log' = pl_required log"
proof -
  let ?step = "\<lambda>(merged, lg) gid.
    and_then (select_group base local remote lp rp gid lg) (\<lambda>(result, lg').
      Inr (case result of None \<Rightarrow> merged | Some grp \<Rightarrow> bt_insert gid grp merged, lg'))"
  let ?P = "\<lambda>(m, lg). bt_wf m \<and> (\<forall>(x, r) \<in> set m. group_id (fg_value r) = x) \<and> pl_required lg = pl_required log"
  have fold: "try_fold ?step ([], log) (union_keys3 (fv_groups base) (fv_groups local) (fv_groups remote)) =
      Inr (merged, log')"
    using merge by (auto simp: merge_groups_def and_then_eq_Inr)
  have "?P (merged, log')"
  proof (rule try_fold_invariant [OF fold, where P = ?P])
    show "?P ([], log)" by simp
  next
    fix s x s' assume P: "?P s" and step: "?step s x = Inr s'"
    obtain m lg where s: "s = (m, lg)" by (cases s)
    obtain res lg' where sel: "select_group base local remote lp rp x lg = Inr (res, lg')"
      and s': "s' = (case res of None \<Rightarrow> m | Some grp \<Rightarrow> bt_insert x grp m, lg')"
      using step by (auto simp: s and_then_eq_Inr)
    show "?P s'"
      using P select_group_facts [OF sel keyed] set_bt_insert_subset [of x _ m]
      by (cases res) (auto simp: s s' dest!: subsetD)
  qed
  then show ?thesis by (auto simp: keyed_groups_def bt_wf_distinct)
qed

section \<open>The patched vault\<close>

lemma entry_rows_places:
  "set (entry_places g) = (\<lambda>(_, r). (fe_parent r, fe_value r)) ` set (entry_rows g)"
  "(x, r) \<in> set (entry_rows g) \<Longrightarrow> entry_id (fe_value r) = x"
proof (induction g)
  case (Group core es cs)
  have own: "set (local_rows q n es) = (\<lambda>(i, e). (entry_id e, \<lparr>fe_value = e, fe_parent = q, fe_order = i\<rparr>)) `
      set (enumerate n es)" for q n
    by (simp add: local_rows_def)
  have vals: "snd ` set (enumerate n es) = set es" for n
    by (metis list.set_map map_snd_enumerate)
  {
    case 1
    have "(\<lambda>(_, r). (fe_parent r, fe_value r)) ` set (local_rows q n es) = Pair q ` set es" for q n
      unfolding own vals [symmetric, of n] by (simp add: image_image case_prod_unfold)
    then show ?case using Group.IH(1) by (simp add: image_Un image_UN)
  next
    case 2
    then show ?case using Group.IH(2) by (auto simp: own)
  }
qed

lemma group_rows_keyed:
  "(x, r) \<in> set (group_rows p n g) \<Longrightarrow> group_id (fg_value r) = x"
  "(x, r) \<in> set (children_rows q n cs) \<Longrightarrow> group_id (fg_value r) = x"
  by (induction p n g and q n cs rule: group_rows_children_rows.induct) auto

lemma flat_of_facts:
  assumes "unique_ids v"
  shows "keyed_entries (fv_entries (flat_of v))" and "keyed_groups (fv_groups (flat_of v))"
    and "set (entry_places (v_root v)) = (\<lambda>(_, r). (fe_parent r, fe_value r)) ` set (fv_entries (flat_of v))"
    and "distinct (map fst (fv_entries (flat_of v)))"
proof -
  have e: "set (fv_entries (flat_of v)) = set (entry_rows (v_root v))"
    and g: "set (fv_groups (flat_of v)) = set (group_rows None 0 (v_root v))"
    using assms by (simp_all add: flat_of_def unique_ids_def bt_of_list_distinct map_fst_rows)
  show dist: "distinct (map fst (fv_entries (flat_of v)))"
    by (simp add: flat_of_def bt_wf_distinct)
  show "keyed_entries (fv_entries (flat_of v))"
    using e entry_rows_places(2) dist by (auto simp: keyed_entries_def)
  show "keyed_groups (fv_groups (flat_of v))"
    unfolding keyed_groups_def using g group_rows_keyed(1)
    by (auto simp: flat_of_def bt_wf_distinct)
  show "set (entry_places (v_root v)) = (\<lambda>(_, r). (fe_parent r, fe_value r)) ` set (fv_entries (flat_of v))"
    by (simp add: e entry_rows_places(1))
qed

lemma same_but_orderD:
  assumes "same_but_order m m'"
  shows "map fst m' = map fst m"
    and "(\<lambda>(_, r). (fe_parent r, fe_value r)) ` set m' = (\<lambda>(_, r). (fe_parent r, fe_value r)) ` set m"
    and "map_option (\<lambda>e. (fe_value e, fe_parent e)) (bt_get m' x) = map_option (\<lambda>e. (fe_value e, fe_parent e)) (bt_get m x)"
proof -
  let ?f = "map (\<lambda>(k, e). (k, fe_value e, fe_parent e))"
  have eq: "?f m' = ?f m" using assms by (simp add: same_but_order_def)
  from arg_cong [OF eq, of "map fst"] show "map fst m' = map fst m"
    by (simp add: comp_def case_prod_unfold)
  from arg_cong [OF eq, of "\<lambda>xs. (\<lambda>(_, v, p). (p, v)) ` set xs"]
  show "(\<lambda>(_, r). (fe_parent r, fe_value r)) ` set m' = (\<lambda>(_, r). (fe_parent r, fe_value r)) ` set m"
    by (simp add: image_image case_prod_unfold)
  have "map_of (?f xs) x = map_option (\<lambda>e. (fe_value e, fe_parent e)) (map_of xs x)"
    for xs :: "(uuid, flat_entry) btree"
    by (induction xs) auto
  with arg_cong [OF eq, of "\<lambda>xs. map_of xs x"] show "map_option (\<lambda>e. (fe_value e, fe_parent e)) (bt_get m' x) =
      map_option (\<lambda>e. (fe_value e, fe_parent e)) (bt_get m x)" by simp
qed

lemma same_groups_keyed:
  assumes "same_groups_but_order m m'" and "keyed_groups m"
  shows "keyed_groups m'"
proof -
  let ?f = "map (\<lambda>(k, g). (k, fg_value g, fg_parent g))"
  have eq: "?f m' = ?f m" using assms(1) by (simp add: same_groups_but_order_def)
  from arg_cong [OF eq, of "map fst"] have keys: "map fst m' = map fst m"
    by (simp add: comp_def case_prod_unfold)
  from arg_cong [OF eq, of "\<lambda>xs. (\<lambda>(x, v, _). (x, v)) ` set xs"]
  have "(\<lambda>(x, r). (x, fg_value r)) ` set m' = (\<lambda>(x, r). (x, fg_value r)) ` set m"
    by (simp add: image_image case_prod_unfold)
  then have vals: "\<exists>s. (x, s) \<in> set m \<and> fg_value s = fg_value r" if "(x, r) \<in> set m'" for x r
  proof -
    have "(\<lambda>(x, r). (x, fg_value r)) (x, r) \<in> (\<lambda>(x, r). (x, fg_value r)) ` set m'" using that by (rule imageI)
    then have "(x, fg_value r) \<in> (\<lambda>(x, r). (x, fg_value r)) ` set m"
      using \<open>(\<lambda>(x, r). (x, fg_value r)) ` set m' = (\<lambda>(x, r). (x, fg_value r)) ` set m\<close> by simp
    then show ?thesis by auto
  qed
  show ?thesis unfolding keyed_groups_def
  proof (intro conjI ballI)
    show "distinct (map fst m')" using assms(2) keys by (simp add: keyed_groups_def)
    show "case z of (x, r) \<Rightarrow> group_id (fg_value r) = x" if z: "z \<in> set m'" for z
    proof -
      obtain x r where x: "z = (x, r)" by (cases z)
      with z vals obtain s where s: "(x, s) \<in> set m" "fg_value s = fg_value r" by blast
      then have "group_id (fg_value s) = x" using assms(2) by (auto simp: keyed_groups_def)
      then show ?thesis using s(2) x by simp
    qed
  qed
qed

text \<open>A successful patch, taken apart.\<close>

lemma patch_parts:
  assumes patch: "three_way_field_patch base local remote = Inr res"
  obtains entries :: "(uuid, flat_entry) btree" and groups :: "(uuid, flat_group) btree" where
    "unique_ids base" "unique_ids local" "unique_ids remote"
    and "set (entry_places (v_root (pr_vault res))) = (\<lambda>(_, e). (fe_parent e, fe_value e)) ` set entries"
    and "set (group_places None (v_root (pr_vault res))) = (\<lambda>(x, r). (fg_parent r, x)) ` set groups"
    and "distinct (map fst entries)" "keyed_entries entries"
    and "\<And>eid e. entry_survives (flat_of base) (flat_of local) eid e \<or>
        entry_survives (flat_of base) (flat_of remote) eid e \<Longrightarrow>
      \<exists>x. bt_get entries eid = Some x \<and> set (e_history (fe_value e)) \<subseteq> set (e_history (fe_value x))"
    and "\<And>sn. sn \<in> set (pr_required_history_snapshots res) \<Longrightarrow>
      \<exists>x. bt_get entries (sn_entry_id sn) = Some x \<and> sn_snapshot sn \<in> set (e_history (fe_value x))"
    and "do_id ` set (v_deleted_objects (pr_vault res)) \<inter> (fst ` set groups \<union> fst ` set entries) = {}"
proof -
  let ?b = "flat_of base" and ?l = "flat_of local" and ?r = "flat_of remote"
  obtain lp rp groups0 log0 groups entries0 log1 entries root meta where
    u: "unique_ids base" "unique_ids local" "unique_ids remote"
    and g0: "merge_groups ?b ?l ?r lp rp patch_log_start = Inr (groups0, log0)"
    and g: "reconcile_group_sibling_orders ?b ?l ?r groups0 = Inr groups"
    and v: "validate_group_hierarchy (fv_root_id ?b) groups = Inr ()"
    and e0: "merge_entries ?b ?l ?r groups lp rp log0 = Inr (entries0, log1)"
    and e: "reconcile_entry_sibling_orders ?b ?l ?r entries0 = Inr entries"
    and root: "rebuild_tree (fv_root_id ?b) groups entries [] = Inr root"
    and res: "res = \<lparr>pr_vault = meta\<lparr>v_deleted_objects := filter (\<lambda>deleted. \<not> bt_contains groups (do_id deleted) \<and>
              \<not> bt_contains entries (do_id deleted)) (v_deleted_objects meta),
            v_root := normalize_group_attachment_content root\<rparr>,
          pr_report = pl_report log1, pr_required_history_snapshots = pl_required log1\<rparr>"
    using patch
    by (auto simp: three_way_field_patch_def and_then_eq_Inr flatten_vault_iff Let_def split: if_splits)
  note local = flat_of_facts [OF u(2)] and remote = flat_of_facts [OF u(3)]
  have groups: "keyed_groups groups" and req0: "pl_required log0 = []"
    using merge_groups_facts [OF g0 local(2) remote(2)] same_groups_keyed [OF reconcile_groups_same [OF g]]
    by (simp_all add: patch_log_start_def)
  note E = merge_entries_facts [OF e0 local(1) remote(1)] and S = same_but_orderD [OF reconcile_entries_same [OF e]]
  have dist: "distinct (map fst entries)" using E(1) S(1) bt_wf_distinct by auto
  have get: "\<exists>y. bt_get entries x = Some y \<and> fe_value y = fe_value z" if "bt_get entries0 x = Some z" for x z
    using S(3) [of x] that by (cases "bt_get entries x") simp_all
  have get': "\<exists>y. bt_get entries0 x = Some y \<and> fe_value y = fe_value z" if "bt_get entries x = Some z" for x z
    using S(3) [of x] that by (cases "bt_get entries0 x") simp_all
  have par: "fe_parent ` snd ` set entries \<subseteq> fst ` set groups"
  proof -
    from arg_cong [OF S(2), of "image fst"] have "fe_parent ` snd ` set entries = fe_parent ` snd ` set entries0"
      by (simp add: image_image case_prod_unfold)
    then show ?thesis using E(1) by simp
  qed
  obtain t where t: "rebuild_tree (fv_root_id ?b) groups entries [] = Inr t"
    "set (entry_places t) = (\<lambda>(_, e). (fe_parent e, fe_value e)) ` set entries"
    "set (group_places None t) = (\<lambda>(x, r). (fg_parent r, x)) ` set groups"
    using rebuild_complete [OF v _ _ par] groups by (auto simp: keyed_groups_def)
  show thesis
  proof (rule that [OF u, of entries groups])
    show "set (entry_places (v_root (pr_vault res))) = (\<lambda>(_, e). (fe_parent e, fe_value e)) ` set entries"
      "set (group_places None (v_root (pr_vault res))) = (\<lambda>(x, r). (fg_parent r, x)) ` set groups"
      using t root by (simp_all add: res)
    show "distinct (map fst entries)" by (rule dist)
    show "keyed_entries entries" using E(1) get' by (fastforce simp: keyed_entries_def)
    show "\<exists>x. bt_get entries eid = Some x \<and> set (e_history (fe_value e)) \<subseteq> set (e_history (fe_value x))"
      if "entry_survives ?b ?l eid e \<or> entry_survives ?b ?r eid e" for eid e
      using E(2) [OF that] get by fastforce
    show "\<exists>x. bt_get entries (sn_entry_id sn) = Some x \<and> sn_snapshot sn \<in> set (e_history (fe_value x))"
      if "sn \<in> set (pr_required_history_snapshots res)" for sn
      using E(3) [of sn] that get req0 by (fastforce simp: res)
    show "do_id ` set (v_deleted_objects (pr_vault res)) \<inter> (fst ` set groups \<union> fst ` set entries) = {}"
      by (auto simp: res bt_contains_iff)
  qed
qed

section \<open>Properties\<close>

text \<open>C5. A successful patch loses no edit of either side: an entry that one side added, changed or moved
  since the base (the same entry at the same place is not in the base) is in the patched vault under its
  identifier, with every version of its history. In particular an entry edited on one side and deleted
  on the other survives.\<close>

theorem edits_survive_patch:
  assumes "three_way_field_patch base local remote = Inr res"
    and "(p, e) \<in> set (entry_places (v_root local)) \<union> set (entry_places (v_root remote))"
    and "(p, e) \<notin> set (entry_places (v_root base))"
  shows "\<exists>q e'. (q, e') \<in> set (entry_places (v_root (pr_vault res))) \<and> entry_id e' = entry_id e \<and>
    set (e_history e) \<subseteq> set (e_history e')"
proof -
  obtain entries :: "(uuid, flat_entry) btree" and groups :: "(uuid, flat_group) btree" where
    u: "unique_ids base" "unique_ids local" "unique_ids remote"
    and places: "set (entry_places (v_root (pr_vault res))) = (\<lambda>(_, e). (fe_parent e, fe_value e)) ` set entries"
    and keyed: "keyed_entries entries"
    and survive: "\<And>eid e. entry_survives (flat_of base) (flat_of local) eid e \<or>
        entry_survives (flat_of base) (flat_of remote) eid e \<Longrightarrow>
      \<exists>x. bt_get entries eid = Some x \<and> set (e_history (fe_value e)) \<subseteq> set (e_history (fe_value x))"
    by (rule patch_parts [OF assms(1)]) (rule that)
  have row: "\<exists>f. entry_survives (flat_of base) (flat_of side) (entry_id e) f \<and> fe_value f = e"
    if side: "unique_ids side" "(p, e) \<in> set (entry_places (v_root side))" for side
  proof -
    note F = flat_of_facts [OF side(1)] and B = flat_of_facts [OF u(1)]
    obtain x f where f: "(x, f) \<in> set (fv_entries (flat_of side))" "fe_parent f = p" "fe_value f = e"
      using side(2) unfolding F(3) by auto
    have get: "bt_get (fv_entries (flat_of side)) x = Some f" using f(1) F(4) by simp
    have x: "x = entry_id e" using get F(1) f(3) by (auto simp: keyed_entries_def)
    have "\<not> same_entry_record b f" if "bt_get (fv_entries (flat_of base)) x = Some b" for b
    proof
      assume "same_entry_record b f"
      then have "(fe_parent b, fe_value b) = (p, e)" using f by (simp add: same_entry_record_def)
      moreover have "(x, b) \<in> set (fv_entries (flat_of base))" using that by (rule map_of_SomeD)
      ultimately have "(p, e) \<in> set (entry_places (v_root base))" unfolding B(3) by force
      with assms(3) show False ..
    qed
    with get x f(3) show ?thesis by (auto simp: entry_survives_def split: option.split)
  qed
  then obtain f where f: "entry_survives (flat_of base) (flat_of local) (entry_id e) f \<or>
      entry_survives (flat_of base) (flat_of remote) (entry_id e) f" "fe_value f = e"
    using assms(2) u by blast
  from survive [OF f(1)] obtain x where x: "bt_get entries (entry_id e) = Some x"
    "set (e_history e) \<subseteq> set (e_history (fe_value x))" using f(2) by auto
  have "(fe_parent x, fe_value x) \<in> set (entry_places (v_root (pr_vault res)))"
    unfolding places using map_of_SomeD [OF x(1)] by force
  moreover have "entry_id (fe_value x) = entry_id e" using keyed x(1) by (simp add: keyed_entries_def)
  ultimately show ?thesis using x(2) by blast
qed

text \<open>C6. Every history snapshot that the result tells its caller to look for is in the patched vault, in the
  history of the entry it is required of.\<close>

theorem required_snapshots_present:
  assumes "three_way_field_patch base local remote = Inr res"
    and "sn \<in> set (pr_required_history_snapshots res)"
  shows "\<exists>q e. (q, e) \<in> set (entry_places (v_root (pr_vault res))) \<and> entry_id e = sn_entry_id sn \<and>
    sn_snapshot sn \<in> set (e_history e)"
proof -
  obtain entries :: "(uuid, flat_entry) btree" and groups :: "(uuid, flat_group) btree" where
    places: "set (entry_places (v_root (pr_vault res))) = (\<lambda>(_, e). (fe_parent e, fe_value e)) ` set entries"
    and keyed: "keyed_entries entries"
    and req: "\<And>sn. sn \<in> set (pr_required_history_snapshots res) \<Longrightarrow>
      \<exists>x. bt_get entries (sn_entry_id sn) = Some x \<and> sn_snapshot sn \<in> set (e_history (fe_value x))"
    by (rule patch_parts [OF assms(1)]) (rule that)
  from req [OF assms(2)] obtain x where x: "bt_get entries (sn_entry_id sn) = Some x"
    "sn_snapshot sn \<in> set (e_history (fe_value x))" by blast
  have "(fe_parent x, fe_value x) \<in> set (entry_places (v_root (pr_vault res)))"
    unfolding places using map_of_SomeD [OF x(1)] by force
  moreover have "entry_id (fe_value x) = sn_entry_id sn" using keyed x(1) by (simp add: keyed_entries_def)
  ultimately show ?thesis using x(2) by blast
qed

text \<open>C16. The patched vault lists no live object as deleted: no deleted-object record names an entry or a
  group that is in its tree.\<close>

theorem live_objects_not_deleted:
  assumes "three_way_field_patch base local remote = Inr res"
  shows "do_id ` set (v_deleted_objects (pr_vault res)) \<inter>
    ((\<lambda>(_, e). entry_id e) ` set (entry_places (v_root (pr_vault res))) \<union>
     snd ` set (group_places None (v_root (pr_vault res)))) = {}"
proof -
  obtain entries :: "(uuid, flat_entry) btree" and groups :: "(uuid, flat_group) btree" where
    places: "set (entry_places (v_root (pr_vault res))) = (\<lambda>(_, e). (fe_parent e, fe_value e)) ` set entries"
      "set (group_places None (v_root (pr_vault res))) = (\<lambda>(x, r). (fg_parent r, x)) ` set groups"
    and keyed: "distinct (map fst entries)" "keyed_entries entries"
    and del: "do_id ` set (v_deleted_objects (pr_vault res)) \<inter> (fst ` set groups \<union> fst ` set entries) = {}"
    by (rule patch_parts [OF assms]) (rule that)
  have "entry_id (fe_value r) = x" if "(x, r) \<in> set entries" for x r
    using that keyed by (simp add: keyed_entries_def)
  then have "(\<lambda>(_, e). entry_id e) ` set (entry_places (v_root (pr_vault res))) = fst ` set entries"
    unfolding places(1) by (force simp: image_image)
  moreover have "snd ` set (group_places None (v_root (pr_vault res))) = fst ` set groups"
    unfolding places(2) by (simp add: image_image case_prod_unfold)
  ultimately show ?thesis using del by auto
qed

definition example_local :: vault where
  "example_local = example_vault\<lparr>v_root := Group (g_core (group_new 1 ''root'')) [entry_new 10 ''a'']
     [Group (g_core (group_new 2 ''sub'')) [Entry ((e_core (entry_new 11 ''b''))\<lparr>e_password := ''p1'',
        e_modified_at := 5\<rparr>) [], entry_new 12 ''c''] []]\<rparr>"

definition example_remote :: vault where
  "example_remote = example_vault\<lparr>v_root := Group (g_core (group_new 1 ''root'')) []
     [Group (g_core (group_new 2 ''sub'')) [Entry ((e_core (entry_new 11 ''b''))\<lparr>e_password := ''p2'',
        e_modified_at := 3\<rparr>) [], entry_new 12 ''c''] []],
     v_deleted_objects := [\<lparr>do_id = 10, do_deleted_at = i64_of_int 7\<rparr>]\<rparr>"

lemma example_patch_run:
  "case three_way_field_patch example_vault example_local example_remote of
     Inl _ \<Rightarrow> False | Inr res \<Rightarrow> map sn_entry_id (pr_required_history_snapshots res) = [11]"
  by code_simp

lemma example_patch:
  obtains res sn where "three_way_field_patch example_vault example_local example_remote = Inr res"
    and "sn \<in> set (pr_required_history_snapshots res)" and "sn_entry_id sn = 11"
proof (cases "three_way_field_patch example_vault example_local example_remote")
  case (Inr res)
  then have "map sn_entry_id (pr_required_history_snapshots res) = [11]" using example_patch_run by simp
  then obtain sn where "sn \<in> set (pr_required_history_snapshots res)" "sn_entry_id sn = 11"
    by (cases "pr_required_history_snapshots res") auto
  with Inr show ?thesis by (rule that)
qed (use example_patch_run in simp)

lemma edits_survive_patch_witness:
  "\<exists>res q e'. three_way_field_patch example_vault example_local example_remote = Inr res \<and>
    (q, e') \<in> set (entry_places (v_root (pr_vault res))) \<and> entry_id e' = 11"
proof -
  let ?e = "Entry ((e_core (entry_new 11 ''b''))\<lparr>e_password := ''p1'', e_modified_at := 5\<rparr>) []"
  obtain res sn where res: "three_way_field_patch example_vault example_local example_remote = Inr res"
    and "sn \<in> set (pr_required_history_snapshots res)" "sn_entry_id sn = 11" by (rule example_patch)
  have "(2, ?e) \<in> set (entry_places (v_root example_local)) \<union> set (entry_places (v_root example_remote))"
    by (simp add: example_local_def group_new_def)
  moreover have "(2, ?e) \<notin> set (entry_places (v_root example_vault))"
    by (simp add: example_vault_def example_tree_def group_new_def entry_new_def)
  ultimately have "\<exists>q e'. (q, e') \<in> set (entry_places (v_root (pr_vault res))) \<and> entry_id e' = entry_id ?e \<and>
      set (e_history ?e) \<subseteq> set (e_history e')"
    by (rule edits_survive_patch [OF res])
  moreover have "entry_id ?e = 11" by (simp add: entry_new_def)
  ultimately show ?thesis using res by auto
qed

lemma required_snapshots_present_witness:
  "\<exists>res sn q e. three_way_field_patch example_vault example_local example_remote = Inr res \<and>
    sn \<in> set (pr_required_history_snapshots res) \<and> (q, e) \<in> set (entry_places (v_root (pr_vault res))) \<and>
    entry_id e = 11 \<and> sn_snapshot sn \<in> set (e_history e)"
proof -
  obtain res sn where res: "three_way_field_patch example_vault example_local example_remote = Inr res"
    and sn: "sn \<in> set (pr_required_history_snapshots res)" "sn_entry_id sn = 11" by (rule example_patch)
  show ?thesis using required_snapshots_present [OF res sn(1)] res sn by auto
qed

lemma live_objects_not_deleted_witness:
  "\<exists>res. three_way_field_patch example_vault example_local example_remote = Inr res \<and>
    do_id ` set (v_deleted_objects (pr_vault res)) \<inter>
      snd ` set (group_places None (v_root (pr_vault res))) = {}"
proof -
  obtain res sn where res: "three_way_field_patch example_vault example_local example_remote = Inr res"
    and "sn \<in> set (pr_required_history_snapshots res)" "sn_entry_id sn = 11" by (rule example_patch)
  show ?thesis using live_objects_not_deleted [OF res] res by blast
qed

end
