(* ===== verification/Commands.thy ===== *)
theory Commands
  imports Text
begin

text \<open>
  The commands of the runtime protocol (\<^verbatim>\<open>crates/vaultkern-runtime-protocol/src/lib.rs\<close>):
  \<open>RuntimeCommand\<close> and the records its fields carry.
\<close>

section \<open>Commands\<close>

text \<open>\<open>SensitiveString\<close> holds the string it wraps; its wiping on drop has no value semantics.\<close>

datatype resident_app_route = Route_Unlock | Route_Vaults | Route_Settings
datatype verification_method = MasterPassword | QuickUnlock
datatype verification_requirement = Discouraged | Preferred | Required
datatype ceremony_kind = Ceremony_Get | Ceremony_Create
datatype frame_kind = Frame_Top | Frame_Subframe
datatype ceremony_phase = PreAuthorization | UserAuthorization | NetworkValidation | CredentialResolution
  | UserSelection | CompletionAndMutation | ClosedAborted | ClosedDelivered | ClosedFailed

record entry_custom_field =
  ecf_key :: string
  ecf_value :: string
  ecf_protected :: bool

record entry_fields =
  ef_title :: string
  ef_username :: string
  ef_password :: string
  ef_url :: string
  ef_notes :: string
  ef_totp_uri :: "string option"
  ef_custom_fields :: "entry_custom_field list"

record autofill_update_fields =
  af_username :: string
  af_password :: string
  af_url :: string

datatype autofill_persist_plan =
    Plan_Update string autofill_update_fields autofill_update_fields
  | Plan_Create string string "string list" entry_fields

record entry_passkey_update =
  epu_username :: string
  epu_credential_id :: string
  epu_generated_user_id :: "string option"
  epu_relying_party :: string
  epu_user_handle :: "string option"
  epu_backup_eligible :: bool
  epu_backup_state :: bool

datatype 'a optional_setting_update = Unchanged | Clear | Set_to 'a

record database_metadata_settings =
  dms_name :: string
  dms_description :: "string option"
  dms_default_username :: "string option"

record database_public_metadata_settings =
  dps_display_name :: "string option"
  dps_color :: "string option"
  dps_icon :: "string option"

record database_history_settings =
  dhs_max_items_per_entry :: "i32 option"
  dhs_max_total_size_bytes :: "i64 option"

record database_recycle_bin_settings =
  drs_enabled :: bool

record database_kdf_settings =
  dks_algorithm :: string
  dks_transform_rounds :: "u64 option"
  dks_iterations :: "u32 option"
  dks_memory_kib :: "u32 option"
  dks_parallelism :: "u32 option"

record database_encryption_settings =
  des_compression :: string
  des_cipher :: string
  des_kdf :: database_kdf_settings

record database_credentials_update =
  dcu_new_password :: "string option"
  dcu_remove_password :: bool

record database_settings_update =
  dsu_metadata :: "database_metadata_settings option"
  dsu_public_metadata :: "database_public_metadata_settings option"
  dsu_history :: "database_history_settings option"
  dsu_recycle_bin :: "database_recycle_bin_settings option"
  dsu_encryption :: "database_encryption_settings option"
  dsu_credentials :: "database_credentials_update option"
  dsu_autosave_delay_seconds :: "u32 optional_setting_update"

datatype (plugins only: lifting) runtime_command =
    Handshake u32 "string list"
  | GetSessionState
  | GetBrowserIntegrationSettings
  | ActivateResidentApp resident_app_route
  | ListRecentVaults
  | PreloadCurrentVault
  | AddLocalVaultReference "string option"
  | BeginOneDriveLogin
  | CompletePendingOneDriveLogin
  | ListOneDriveChildren "string option"
  | AddOneDriveVaultReference string string
  | SetCurrentVault string
  | RetryVaultSourceSync string
  | DeleteVaultReference string
  | DeleteVaultReferenceIfNotCurrent string
  | UnlockCurrentVaultWithPassword string
  | UnlockCurrentVault "string option" "string option"
  | EnableQuickUnlockForCurrentVault "string option" "string option"
  | UnlockCurrentVaultWithQuickUnlock
  | DisableQuickUnlockForCurrentVault
  | OpenLocalVault string
  | LockSession
  | RecordUserActivity
  | UnlockWithPassword string string
  | UnlockVault string "string option" "string option"
  | ListGroups string
  | ListEntries string
  | GetEntryDetail string string
  | ListEntryHistory string string
  | GetEntryHistoryDetail string string nat
  | CreateEntry string string "string option" string string string string string "string option"
  | UpdateEntryFields string string string string string string string "string option" "entry_custom_field list"
  | CompareAndUpdateEntryFields string string entry_fields entry_fields
  | PersistAutofillMutation string string string autofill_persist_plan
  | ClearEntryTotp string string
  | SetEntryPasskey string string entry_passkey_update
  | ClearEntryPasskey string string
  | GetPasskeyUserVerificationCapability
  | VerifyPasskeyUser string ceremony_phase string verification_method "string option"
  | ListPasskeyCredentials string ceremony_phase string string
  | RegisterPasskeyCeremony string string string "string option" "string list" string ceremony_kind bool verification_requirement string i64 i64 i64 frame_kind u64 u64
  | AdvancePasskeyCeremonyPhase string ceremony_phase ceremony_phase bool
  | BindPasskeyCeremonyVault string ceremony_phase string
  | QueryPasskeyCeremonyLedger string
  | ReconcilePasskeyCeremonyLedger string
  | MarkPasskeyCeremonyUnknownDelivery string ceremony_phase
  | CreatePasskeyAssertion string ceremony_phase string string string "string option" bool bool bool string
  | CreatePasskeyRegistration string ceremony_phase string string string string "string option" string i32 bool string
  | SavePasskeyRegistration string ceremony_phase string
  | AbortPasskeyRegistration string ceremony_phase ceremony_phase
  | CommitPasskeyRegistration string ceremony_phase string string string
  | PasskeyCredentialStatus string ceremony_phase string string string
  | PasskeyCredentialStatusBatch string ceremony_phase string "string list" string
  | DeleteEntry string string
  | GetEntryAttachmentContent string string string
  | AddEntryAttachment string string string string bool
  | UpdateEntryAttachmentMetadata string string string string bool
  | ReplaceEntryAttachmentContent string string string string
  | DeleteEntryAttachment string string string
  | UpdateEntry string string string string string string string
  | SaveVault string
  | GetDatabaseSettings string
  | UpdateDatabaseSettings string database_settings_update
  | FindFillCandidates string string
  | GetAutofillCredential string string string
  | GetAutofillEntryFields string string string
  | GetAutofillCreateContext string
  | FindExactMatchingEntryIds string entry_fields

end
