(* ===== verification/Protocol.thy ===== *)
theory Protocol
  imports Commands
begin

text \<open>
  Protocol sessions (\<^verbatim>\<open>tools/vaultkern-runtime/src/protocol_session.rs\<close>): which command of a client
  is dispatched. A session is a state machine driven by commands; the lemmas show what a client can
  make the runtime do, whatever it sends and in whatever order.
\<close>

section \<open>Capabilities\<close>

text \<open>A \<open>matches!\<close> on a command is a case distinction that ignores the fields.\<close>

definition command_requires_passkey_capability :: "runtime_command \<Rightarrow> bool" where
  "command_requires_passkey_capability command =
     (case command of
        SetEntryPasskey _ _ _ \<Rightarrow> True
      | ClearEntryPasskey _ _ \<Rightarrow> True
      | GetPasskeyUserVerificationCapability \<Rightarrow> True
      | VerifyPasskeyUser _ _ _ _ _ \<Rightarrow> True
      | ListPasskeyCredentials _ _ _ _ \<Rightarrow> True
      | RegisterPasskeyCeremony _ _ _ _ _ _ _ _ _ _ _ _ _ _ _ _ \<Rightarrow> True
      | AdvancePasskeyCeremonyPhase _ _ _ _ \<Rightarrow> True
      | BindPasskeyCeremonyVault _ _ _ \<Rightarrow> True
      | QueryPasskeyCeremonyLedger _ \<Rightarrow> True
      | ReconcilePasskeyCeremonyLedger _ \<Rightarrow> True
      | MarkPasskeyCeremonyUnknownDelivery _ _ \<Rightarrow> True
      | CreatePasskeyAssertion _ _ _ _ _ _ _ _ _ _ \<Rightarrow> True
      | CreatePasskeyRegistration _ _ _ _ _ _ _ _ _ _ _ \<Rightarrow> True
      | SavePasskeyRegistration _ _ _ \<Rightarrow> True
      | AbortPasskeyRegistration _ _ _ \<Rightarrow> True
      | CommitPasskeyRegistration _ _ _ _ _ \<Rightarrow> True
      | PasskeyCredentialStatus _ _ _ _ _ \<Rightarrow> True
      | PasskeyCredentialStatusBatch _ _ _ _ _ \<Rightarrow> True
      | _ \<Rightarrow> False)"

definition required_command_capabilities :: "runtime_command \<Rightarrow> string list" where
  "required_command_capabilities command =
     [''runtime-core''] @
     (case command of
        FindFillCandidates _ _ \<Rightarrow> [''browser-autofill'']
      | GetAutofillCredential _ _ _ \<Rightarrow> [''browser-autofill'']
      | GetAutofillEntryFields _ _ _ \<Rightarrow> [''browser-autofill'']
      | GetAutofillCreateContext _ \<Rightarrow> [''browser-autofill'']
      | FindExactMatchingEntryIds _ _ \<Rightarrow> [''browser-autofill'']
      | PersistAutofillMutation _ _ _ _ \<Rightarrow> [''browser-autofill'']
      | _ \<Rightarrow> []) @
     (case command of
        BeginOneDriveLogin \<Rightarrow> [''one-drive'']
      | CompletePendingOneDriveLogin \<Rightarrow> [''one-drive'']
      | ListOneDriveChildren _ \<Rightarrow> [''one-drive'']
      | AddOneDriveVaultReference _ _ \<Rightarrow> [''one-drive'']
      | RetryVaultSourceSync _ \<Rightarrow> [''one-drive'']
      | _ \<Rightarrow> []) @
     (if command_requires_passkey_capability command then [''passkey-ceremonies''] else []) @
     (case command of
        EnableQuickUnlockForCurrentVault _ _ \<Rightarrow> [''quick-unlock'']
      | UnlockCurrentVaultWithQuickUnlock \<Rightarrow> [''quick-unlock'']
      | DisableQuickUnlockForCurrentVault \<Rightarrow> [''quick-unlock'']
      | _ \<Rightarrow> []) @
     (case command of
        GetDatabaseSettings _ \<Rightarrow> [''database-settings'']
      | UpdateDatabaseSettings _ _ \<Rightarrow> [''database-settings'']
      | _ \<Rightarrow> [])"

definition browser_command_allowed :: "runtime_command \<Rightarrow> bool" where
  "browser_command_allowed command \<longleftrightarrow>
     (case command of
        GetSessionState \<Rightarrow> True
      | GetBrowserIntegrationSettings \<Rightarrow> True
      | ActivateResidentApp _ \<Rightarrow> True
      | RecordUserActivity \<Rightarrow> True
      | FindFillCandidates _ _ \<Rightarrow> True
      | GetAutofillCredential _ _ _ \<Rightarrow> True
      | GetAutofillEntryFields _ _ _ \<Rightarrow> True
      | GetAutofillCreateContext _ \<Rightarrow> True
      | FindExactMatchingEntryIds _ _ \<Rightarrow> True
      | PersistAutofillMutation _ _ _ _ \<Rightarrow> True
      | _ \<Rightarrow> False) \<or>
     (case command of
        VerifyPasskeyUser _ _ _ method password \<Rightarrow> method = QuickUnlock \<and> password = None
      | _ \<Rightarrow> False) \<or>
     (command_requires_passkey_capability command \<and>
      \<not> (case command of
           SetEntryPasskey _ _ _ \<Rightarrow> True
         | ClearEntryPasskey _ _ \<Rightarrow> True
         | VerifyPasskeyUser _ _ _ _ _ \<Rightarrow> True
         | _ \<Rightarrow> False))"

section \<open>Sessions\<close>

text \<open>The responses a session itself gives; every other response comes from the runtime.\<close>

datatype session_response =
    HandshakeResponse u32 "string list"
  | ErrorResponse string string

datatype protocol_dispatch = Respond session_response | Dispatch runtime_command

record protocol_session =
  px_client_capability :: string
  px_supported_capabilities :: "string list"
  px_negotiated_capabilities :: "string list option"

definition protocol_version :: u32 where "protocol_version = 2"

definition new_session :: "string \<Rightarrow> string list \<Rightarrow> protocol_session" where
  "new_session client_capability supported =
     \<lparr>px_client_capability = client_capability, px_supported_capabilities = bs_of_list supported,
      px_negotiated_capabilities = None\<rparr>"

definition resident_app :: protocol_session where
  "resident_app = new_session ''resident-app''
     [''runtime-core'', ''resident-app'', ''database-settings'', ''one-drive'', ''passkey-ceremonies'',
      ''quick-unlock'']"

definition browser_extension :: protocol_session where
  "browser_extension = new_session ''browser-extension''
     [''runtime-core'', ''browser-extension'', ''browser-autofill'', ''passkey-ceremonies'']"

definition legacy_native_host :: protocol_session where
  "legacy_native_host = browser_extension
     \<lparr>px_negotiated_capabilities := Some (px_supported_capabilities browser_extension)\<rparr>"

definition session_error :: "string \<Rightarrow> string \<Rightarrow> protocol_dispatch" where
  "session_error err message = Respond (ErrorResponse err message)"

definition authorize :: "protocol_session \<Rightarrow> runtime_command \<Rightarrow> protocol_dispatch" where
  "authorize s command =
     (case px_negotiated_capabilities s of
        None \<Rightarrow> session_error ''protocol_handshake_required''
                 ''runtime protocol handshake is required before business commands''
      | Some capabilities \<Rightarrow>
          if px_client_capability s = ''browser-extension'' \<and> \<not> browser_command_allowed command
          then session_error ''browser_command_forbidden'' ''browser clients cannot unlock or manage the vault''
          else (case List.find (\<lambda>capability. capability \<notin> set capabilities)
                       (px_client_capability s # required_command_capabilities command) of
              Some capability \<Rightarrow> session_error ''capability_not_negotiated''
                (''runtime command requires negotiated capability: '' @ capability)
            | None \<Rightarrow> Dispatch command))"

definition accept :: "protocol_session \<Rightarrow> runtime_command \<Rightarrow> protocol_dispatch \<times> protocol_session" where
  "accept s command =
     (case command of
        Handshake version capabilities \<Rightarrow>
          if version \<noteq> protocol_version
          then (session_error ''unsupported_version''
                  (''unsupported runtime protocol version: '' @ show_word version), s)
          else (let agreed = bs_of_list (filter (\<lambda>c. c \<in> set (px_supported_capabilities s)) capabilities)
                in (Respond (HandshakeResponse protocol_version agreed),
                    s\<lparr>px_negotiated_capabilities := Some agreed\<rparr>))
      | _ \<Rightarrow> (authorize s command, s))"

section \<open>Reachable sessions\<close>

inductive protocol_reaches :: "protocol_session \<Rightarrow> protocol_session \<Rightarrow> bool" where
  start: "protocol_reaches s s"
| step: "protocol_reaches s t \<Longrightarrow> accept t command = (d, u) \<Longrightarrow> protocol_reaches s u"

definition is_handshake :: "runtime_command \<Rightarrow> bool" where
  "is_handshake command = (case command of Handshake _ _ \<Rightarrow> True | _ \<Rightarrow> False)"

lemma accept_command: "\<not> is_handshake command \<Longrightarrow> accept s command = (authorize s command, s)"
  by (simp add: accept_def is_handshake_def split: runtime_command.splits)

lemma accept_handshake: "accept s (Handshake version capabilities) =
    (if version \<noteq> protocol_version
     then (session_error ''unsupported_version''
             (''unsupported runtime protocol version: '' @ show_word version), s)
     else (let agreed = bs_of_list (filter (\<lambda>c. c \<in> set (px_supported_capabilities s)) capabilities)
           in (Respond (HandshakeResponse protocol_version agreed), s\<lparr>px_negotiated_capabilities := Some agreed\<rparr>)))"
  by (simp add: accept_def)

lemma is_handshakeE:
  assumes "is_handshake command"
  obtains version capabilities where "command = Handshake version capabilities"
  using assms by (cases command) (simp_all add: is_handshake_def)

text \<open>What never changes, and that only supported capabilities are ever agreed.\<close>

lemma reaches_invariant:
  assumes "protocol_reaches s t"
  shows "px_client_capability t = px_client_capability s \<and>
    px_supported_capabilities t = px_supported_capabilities s \<and>
    (px_negotiated_capabilities t = px_negotiated_capabilities s \<or>
     (\<exists>agreed. px_negotiated_capabilities t = Some agreed \<and> set agreed \<subseteq> set (px_supported_capabilities s)))"
  using assms
proof induction
  case (step s t command d u)
  show ?case
  proof (cases "is_handshake command")
    case True
    then obtain version capabilities where "command = Handshake version capabilities" by (rule is_handshakeE)
    with step show ?thesis by (auto simp: accept_handshake Let_def split: if_splits)
  next
    case False
    with step show ?thesis by (simp add: accept_command)
  qed
qed simp

lemma dispatched:
  "authorize s command = Dispatch c \<longleftrightarrow> c = command \<and>
     (\<exists>capabilities. px_negotiated_capabilities s = Some capabilities \<and>
       (px_client_capability s = ''browser-extension'' \<longrightarrow> browser_command_allowed command) \<and>
       insert (px_client_capability s) (set (required_command_capabilities command)) \<subseteq> set capabilities)"
  by (auto simp: authorize_def session_error_def find_None_iff find_Some_iff subset_iff split: option.splits
      intro: nth_mem)

section \<open>Properties\<close>

text \<open>C38. A command gets through exactly when it should. From a fresh session, some sequence of commands
  makes the session dispatch a given command if and only if the command is not a handshake, the client's
  own capability and every capability the command requires are supported, and, for a browser client, the
  command is on the browser's list. A handshake that asks for everything supported is then enough.\<close>

theorem dispatchable_iff_supported:
  assumes "px_negotiated_capabilities s = None"
  shows "(\<exists>t u. protocol_reaches s t \<and> accept t command = (Dispatch command, u)) \<longleftrightarrow>
    \<not> is_handshake command \<and>
    insert (px_client_capability s) (set (required_command_capabilities command)) \<subseteq>
      set (px_supported_capabilities s) \<and>
    (if px_client_capability s = ''browser-extension'' then browser_command_allowed command else True)"
proof
  assume "\<exists>t u. protocol_reaches s t \<and> accept t command = (Dispatch command, u)"
  then obtain t u where t: "protocol_reaches s t" "accept t command = (Dispatch command, u)" by blast
  have no_handshake: "\<not> is_handshake command"
    using t(2) by (auto elim!: is_handshakeE simp: accept_handshake session_error_def Let_def split: if_splits)
  then have "authorize t command = Dispatch command" using t(2) accept_command by force
  then show "\<not> is_handshake command \<and>
    insert (px_client_capability s) (set (required_command_capabilities command)) \<subseteq>
      set (px_supported_capabilities s) \<and>
    (if px_client_capability s = ''browser-extension'' then browser_command_allowed command else True)"
    using reaches_invariant [OF t(1)] no_handshake assms by (auto simp: dispatched; blast)
next
  assume h: "\<not> is_handshake command \<and>
    insert (px_client_capability s) (set (required_command_capabilities command)) \<subseteq>
      set (px_supported_capabilities s) \<and>
    (if px_client_capability s = ''browser-extension'' then browser_command_allowed command else True)"
  let ?all = "px_supported_capabilities s"
  let ?t = "s\<lparr>px_negotiated_capabilities := Some (bs_of_list ?all)\<rparr>"
  have "accept s (Handshake protocol_version ?all) =
      (Respond (HandshakeResponse protocol_version (bs_of_list ?all)), ?t)"
    by (simp add: accept_handshake Let_def cong: filter_cong)
  then have "protocol_reaches s ?t" by (rule protocol_reaches.step [OF protocol_reaches.start])
  moreover have "accept ?t command = (Dispatch command, ?t)"
    using h by (auto simp: accept_command dispatched split: if_splits)
  ultimately show "\<exists>t u. protocol_reaches s t \<and> accept t command = (Dispatch command, u)" by blast
qed

lemma dispatchable_iff_supported_witness:
  "\<exists>t u. protocol_reaches resident_app t \<and> accept t LockSession = (Dispatch LockSession, u)"
  by (subst dispatchable_iff_supported)
    (simp_all add: resident_app_def new_session_def is_handshake_def required_command_capabilities_def
      command_requires_passkey_capability_def)

text \<open>C39. A browser client is confined in every reachable state, also a legacy host that starts with its
  capabilities agreed: the session only ever dispatches the very command that was sent, only commands
  on the browser's list, and it stays as it is. So a browser never gets a command dispatched that unlocks with a password
  or a key file, enrols or uses quick unlock of the vault, browses or edits the tree, its entries or attachments other than
  through the autofill and passkey commands listed, sets or clears a stored passkey, or verifies the user with the
  master password.\<close>

theorem browser_client_confined:
  assumes "protocol_reaches browser_extension s \<or> protocol_reaches legacy_native_host s"
    and "accept s command = (Dispatch dispatched_command, t)"
  shows "dispatched_command = command \<and> t = s \<and>
    set (required_command_capabilities command) \<subseteq> {''runtime-core'', ''browser-autofill'', ''passkey-ceremonies''} \<and>
    (case command of
       GetSessionState \<Rightarrow> True | GetBrowserIntegrationSettings \<Rightarrow> True | ActivateResidentApp _ \<Rightarrow> True
     | RecordUserActivity \<Rightarrow> True | FindFillCandidates _ _ \<Rightarrow> True | GetAutofillCredential _ _ _ \<Rightarrow> True
     | GetAutofillEntryFields _ _ _ \<Rightarrow> True | GetAutofillCreateContext _ \<Rightarrow> True
     | FindExactMatchingEntryIds _ _ \<Rightarrow> True | PersistAutofillMutation _ _ _ _ \<Rightarrow> True
     | GetPasskeyUserVerificationCapability \<Rightarrow> True
     | VerifyPasskeyUser _ _ _ method password \<Rightarrow> method = QuickUnlock \<and> password = None
     | ListPasskeyCredentials _ _ _ _ \<Rightarrow> True
     | RegisterPasskeyCeremony _ _ _ _ _ _ _ _ _ _ _ _ _ _ _ _ \<Rightarrow> True
     | AdvancePasskeyCeremonyPhase _ _ _ _ \<Rightarrow> True | BindPasskeyCeremonyVault _ _ _ \<Rightarrow> True
     | QueryPasskeyCeremonyLedger _ \<Rightarrow> True | ReconcilePasskeyCeremonyLedger _ \<Rightarrow> True
     | MarkPasskeyCeremonyUnknownDelivery _ _ \<Rightarrow> True | CreatePasskeyAssertion _ _ _ _ _ _ _ _ _ _ \<Rightarrow> True
     | CreatePasskeyRegistration _ _ _ _ _ _ _ _ _ _ _ \<Rightarrow> True | SavePasskeyRegistration _ _ _ \<Rightarrow> True
     | AbortPasskeyRegistration _ _ _ \<Rightarrow> True | CommitPasskeyRegistration _ _ _ _ _ \<Rightarrow> True
     | PasskeyCredentialStatus _ _ _ _ _ \<Rightarrow> True | PasskeyCredentialStatusBatch _ _ _ _ _ \<Rightarrow> True
     | _ \<Rightarrow> False)"
proof -
  have client: "px_client_capability s = ''browser-extension''"
    using assms(1) reaches_invariant by (auto simp: legacy_native_host_def browser_extension_def new_session_def)
  have no_handshake: "\<not> is_handshake command"
    using assms(2) by (auto elim!: is_handshakeE simp: accept_handshake session_error_def Let_def split: if_splits)
  then have auth: "authorize s command = Dispatch dispatched_command" "t = s"
    using assms(2) accept_command by force+
  then have allowed: "browser_command_allowed command" "dispatched_command = command"
    using client by (auto simp: dispatched)
  then show ?thesis using auth(2)
    by (cases command) (simp_all add: browser_command_allowed_def required_command_capabilities_def
        command_requires_passkey_capability_def)
qed

lemma browser_client_confined_witness:
  "\<exists>t. accept legacy_native_host RecordUserActivity = (Dispatch RecordUserActivity, t) \<and> t = legacy_native_host"
proof -
  have run: "accept legacy_native_host RecordUserActivity = (Dispatch RecordUserActivity, legacy_native_host)"
    by (simp add: accept_command is_handshake_def dispatched legacy_native_host_def browser_extension_def
        new_session_def browser_command_allowed_def required_command_capabilities_def
        command_requires_passkey_capability_def)
  have "protocol_reaches browser_extension legacy_native_host \<or> protocol_reaches legacy_native_host legacy_native_host"
    by (simp add: protocol_reaches.start)
  from browser_client_confined [OF this run] run show ?thesis by blast
qed

end
