(* ===== verification/Dictionary.thy ===== *)
theory Dictionary
  imports Crypto
begin

text \<open>
  Reading and writing the binary KDBX container (\<^verbatim>\<open>crates/vaultkern-kdbx/src/lib.rs\<close>): the errors of
  the crate, the \<open>Cursor\<close> over the input, and the \<open>VariantDictionary\<close> of typed parameters. The
  locale \<open>reader\<close> is the contract between a read operation and the bytes a writer appends; it is
  interpreted for each of them, and a loop over fields is proved against the contract.
\<close>

section \<open>Errors\<close>

datatype kdf_algorithm = Kdf_AesKdbx3 | Kdf_AesKdbx4 | Kdf_Argon2d | Kdf_Argon2id
datatype kdf_parameter = Kdf_Rounds | Kdf_Iterations | Kdf_MemoryBytes | Kdf_Parallelism
datatype kdf_decision = Allow | Confirm u64 | Refuse u64 | Forbid

datatype kdbx_error =
    UnexpectedEof
  | InvalidValue
  | InvalidXmlModel string string
  | HeaderHashMismatch
  | HeaderHmacMismatch
  | PayloadHmacMismatch
  | PayloadHashMismatch
  | UnsupportedVersion
  | UnsupportedKdf
  | UnsupportedInnerStream
  | InvalidKdfParameter kdf_algorithm kdf_parameter u64
  | ExternalKdfPolicyError kdf_algorithm u64 kdf_decision
  | XmlError string
  | CryptoFailure crypto_error
  | ModelFailure model_error

section \<open>The cursor\<close>

text \<open>\<open>read_exact\<close> fails with the same error when the end overflows a \<open>usize\<close> and when it is past
  the input; a slice is shorter than \<open>2 ^ 63\<close>, so the second test covers the first.\<close>

record cursor =
  cu_bytes :: bytes
  cu_position :: nat

definition new_cursor :: "bytes \<Rightarrow> cursor" where
  "new_cursor bs = \<lparr>cu_bytes = bs, cu_position = 0\<rparr>"

definition read_exact :: "nat \<Rightarrow> cursor \<Rightarrow> kdbx_error + bytes \<times> cursor" where
  "read_exact len c =
     (let stop = cu_position c + len in
      if length (cu_bytes c) < stop then Inl UnexpectedEof
      else Inr (take len (drop (cu_position c) (cu_bytes c)), c\<lparr>cu_position := stop\<rparr>))"

definition read_u8 :: "cursor \<Rightarrow> kdbx_error + u8 \<times> cursor" where
  "read_u8 c = and_then (read_exact 1 c) (\<lambda>(bs, c1).
     case bs of [] \<Rightarrow> Inl UnexpectedEof | b # _ \<Rightarrow> Inr (b, c1))"

definition read_u16 :: "cursor \<Rightarrow> kdbx_error + u16 \<times> cursor" where
  "read_u16 c = and_then (read_exact 2 c) (\<lambda>(bs, c1). Inr (word_from_le bs, c1))"

definition read_u32 :: "cursor \<Rightarrow> kdbx_error + u32 \<times> cursor" where
  "read_u32 c = and_then (read_exact 4 c) (\<lambda>(bs, c1). Inr (word_from_le bs, c1))"

definition read_i32 :: "cursor \<Rightarrow> kdbx_error + i32 \<times> cursor" where
  "read_i32 c = and_then (read_exact 4 c) (\<lambda>(bs, c1). Inr (I32 (word_from_le bs), c1))"

definition read_remaining :: "cursor \<Rightarrow> bytes \<times> cursor" where
  "read_remaining c = (drop (cu_position c) (cu_bytes c), c\<lparr>cu_position := length (cu_bytes c)\<rparr>)"

text \<open>The casts \<open>usize as i32\<close>, which keeps the low bits, and \<open>i32 as usize\<close>, which extends the sign
  to 64 bits. A length survives both when it is below \<open>2 ^ 31\<close>.\<close>

definition i32_of_usize :: "nat \<Rightarrow> i32" where
  "i32_of_usize n = I32 (word_of_int (int n))"

definition usize_of_i32 :: "i32 \<Rightarrow> nat" where
  "usize_of_i32 n = nat (sint (i32_bits n) mod 2 ^ 64)"

definition fits_i32 :: "nat \<Rightarrow> bool" where
  "fits_i32 n \<longleftrightarrow> usize_of_i32 (i32_of_usize n) = n"

text \<open>\<open>let len = cursor.read_i32()? as usize; cursor.read_exact(len)?\<close>, and what a writer puts there.\<close>

definition read_sized :: "cursor \<Rightarrow> kdbx_error + bytes \<times> cursor" where
  "read_sized c = and_then (read_i32 c) (\<lambda>(len, c1). read_exact (usize_of_i32 len) c1)"

definition write_sized :: "bytes \<Rightarrow> bytes" where
  "write_sized data = i32_le (i32_of_usize (length data)) @ data"

lemma i32_of_usize_back: "i32_of_usize (usize_of_i32 n) = n"
proof (cases n)
  case (I32 w)
  have "(2::int) ^ 32 dvd 2 ^ 64" by (rule le_imp_power_dvd) simp
  then have "(sint w mod 2 ^ 64) mod 2 ^ 32 = sint w mod 2 ^ 32" by (rule mod_mod_cancel)
  then have "(word_of_int (sint w mod 2 ^ 64) :: u32) = word_of_int (sint w)"
    unfolding word_of_int_eq_iff take_bit_eq_mod by simp
  then show ?thesis using I32 by (simp add: i32_of_usize_def usize_of_i32_def)
qed

lemma fits_i32_small: "n < 2 ^ 31 \<Longrightarrow> fits_i32 n"
proof -
  assume n: "n < 2 ^ 31"
  have "sint (word_of_int (int n) :: u32) = int n"
    by (subst int_word_sint) (use n in simp)
  with n show ?thesis by (simp only: fits_i32_def usize_of_i32_def i32_of_usize_def i32.sel) simp
qed

lemma fits_i32_usize [simp]: "fits_i32 (usize_of_i32 n)"
  by (simp add: fits_i32_def i32_of_usize_back)

section \<open>What a read promises\<close>

definition cursor_at :: "bytes \<Rightarrow> bytes \<Rightarrow> cursor" where
  "cursor_at pre rest = \<lparr>cu_bytes = pre @ rest, cu_position = length pre\<rparr>"

lemma new_cursor_at: "new_cursor bs = cursor_at [] bs"
  by (simp add: new_cursor_def cursor_at_def)

lemma cursor_at_eq [simp]: "cursor_at pre rest = cursor_at pre' rest' \<longleftrightarrow> pre = pre' \<and> rest = rest'"
  by (auto simp: cursor_at_def)

lemma cursor_at_position [simp]: "cu_position (cursor_at pre rest) = length pre"
  by (simp add: cursor_at_def)

lemma read_remaining_at: "read_remaining (cursor_at pre rest) = (rest, cursor_at (pre @ rest) [])"
  by (simp add: read_remaining_def cursor_at_def)

text \<open>A read succeeds exactly when a written value is at the front of the remaining input, returns that
  value, and leaves the cursor behind it.\<close>

locale reader =
  fixes read :: "cursor \<Rightarrow> kdbx_error + 'a \<times> cursor"
    and wr :: "'a \<Rightarrow> bytes"
    and ok :: "'a \<Rightarrow> bool"
  assumes read_iff: "read (cursor_at pre rest) = Inr (x, c) \<longleftrightarrow>
      ok x \<and> (\<exists>post. rest = wr x @ post \<and> c = cursor_at (pre @ wr x) post)"
begin

lemma read_written: "ok x \<Longrightarrow> read (cursor_at pre (wr x @ post)) = Inr (x, cursor_at (pre @ wr x) post)"
  by (simp add: read_iff)

lemma written_unique:
  assumes "ok x" and "ok y" and "wr x @ p = wr y @ q"
  shows "x = y \<and> p = q"
proof -
  have "read (cursor_at [] (wr x @ p)) = Inr (x, cursor_at (wr x) p)"
    using read_written [OF assms(1), of "[]" p] by simp
  moreover have "read (cursor_at [] (wr x @ p)) = Inr (y, cursor_at (wr y) q)"
    unfolding assms(3) using read_written [OF assms(2), of "[]" q] by simp
  ultimately show ?thesis by simp
qed

lemma written_list_unique:
  assumes "\<And>x. ok x \<Longrightarrow> wr x \<noteq> []"
  shows "list_all ok xs \<Longrightarrow> list_all ok ys \<Longrightarrow> concat (map wr xs) = concat (map wr ys) \<Longrightarrow> xs = ys"
proof (induction xs arbitrary: ys)
  case Nil
  then show ?case using assms by (cases ys) auto
next
  case (Cons x xs)
  then obtain y ys' where ys: "ys = y # ys'" using assms by (cases ys) auto
  with Cons.prems have "x = y \<and> concat (map wr xs) = concat (map wr ys')"
    by (intro written_unique) simp_all
  with Cons ys show ?case by simp
qed

end

text \<open>Two reads one after the other.\<close>

locale reader_pair = one: reader read1 wr1 ok1 + two: reader read2 wr2 ok2
  for read1 :: "cursor \<Rightarrow> kdbx_error + 'a \<times> cursor" and wr1 ok1
    and read2 :: "cursor \<Rightarrow> kdbx_error + 'b \<times> cursor" and wr2 ok2

sublocale reader_pair \<subseteq> both: reader
  "\<lambda>c. and_then (read1 c) (\<lambda>(x, c1). and_then (read2 c1) (\<lambda>(y, c2). Inr ((x, y), c2)))"
  "\<lambda>(x, y). wr1 x @ wr2 y" "\<lambda>(x, y). ok1 x \<and> ok2 y"
  by unfold_locales (force simp: and_then_eq_Inr one.read_iff two.read_iff)

lemma read_exact_iff: "read_exact n (cursor_at pre rest) = Inr (x, c) \<longleftrightarrow>
    length x = n \<and> (\<exists>post. rest = x @ post \<and> c = cursor_at (pre @ x) post)"
proof
  assume "read_exact n (cursor_at pre rest) = Inr (x, c)"
  then have "x = take n rest" "n \<le> length rest" "c = cursor_at (pre @ take n rest) (drop n rest)"
    by (auto simp: read_exact_def cursor_at_def Let_def split: if_splits)
  then show "length x = n \<and> (\<exists>post. rest = x @ post \<and> c = cursor_at (pre @ x) post)"
    by (intro conjI exI [of _ "drop n rest"]) simp_all
qed (auto simp: read_exact_def cursor_at_def Let_def)

lemma word_from_le_inverse:
  "length bs = 2 \<Longrightarrow> u16_le (word_from_le bs) = bs"
  "length bs = 4 \<Longrightarrow> u32_le (word_from_le bs) = bs"
  "length bs = 8 \<Longrightarrow> u64_le (word_from_le bs) = bs"
proof -
  have w: "le_digits n (uint (word_of_int (le_value bs) :: 'a::len word)) = bs"
    if "length bs = n" "LENGTH('a) = 8 * n" for n
  proof -
    have "le_value bs < 2 ^ LENGTH('a)"
      using le_value_bound [of bs] that by (simp add: power_mult)
    then have "uint (word_of_int (le_value bs) :: 'a word) = le_value bs"
      by (simp add: uint_word_of_int le_value_nonneg)
    then show ?thesis using le_digits_value [of bs] that(1) by simp
  qed
  show "length bs = 2 \<Longrightarrow> u16_le (word_from_le bs) = bs"
    "length bs = 4 \<Longrightarrow> u32_le (word_from_le bs) = bs"
    "length bs = 8 \<Longrightarrow> u64_le (word_from_le bs) = bs"
    unfolding u16_le_def u32_le_def u64_le_def word_from_le_def by (rule w; simp)+
qed

interpretation raw: reader "read_exact n" "\<lambda>x. x" "\<lambda>x. length x = n" for n
  by unfold_locales (rule read_exact_iff)

interpretation r8: reader read_u8 "\<lambda>x. [x]" "\<lambda>_. True"
  by unfold_locales (auto simp: read_u8_def and_then_eq_Inr read_exact_iff length_Suc_conv split: list.splits)

interpretation r16: reader read_u16 u16_le "\<lambda>_. True"
  by unfold_locales (auto simp: read_u16_def and_then_eq_Inr read_exact_iff word_from_le_inverse(1))

interpretation r32: reader read_u32 u32_le "\<lambda>_. True"
  by unfold_locales (auto simp: read_u32_def and_then_eq_Inr read_exact_iff word_from_le_inverse(2))

interpretation ri32: reader read_i32 i32_le "\<lambda>_. True"
  by unfold_locales
    (force simp: read_i32_def and_then_eq_Inr read_exact_iff i32_le_def word_from_le_inverse(2))

interpretation sized: reader read_sized write_sized "\<lambda>x. fits_i32 (length x)"
proof unfold_locales
  fix pre rest x c
  show "read_sized (cursor_at pre rest) = Inr (x, c) \<longleftrightarrow> fits_i32 (length x) \<and>
      (\<exists>post. rest = write_sized x @ post \<and> c = cursor_at (pre @ write_sized x) post)"
    by (auto simp: read_sized_def and_then_eq_Inr ri32.read_iff read_exact_iff write_sized_def
        i32_of_usize_back fits_i32_def intro!: exI [of _ "i32_of_usize (length x)"])
qed

section \<open>Variant dictionaries\<close>

datatype variant_value =
    V_UInt32 u32
  | V_UInt64 u64
  | V_Bool bool
  | V_Int32 i32
  | V_Int64 i64
  | V_String string
  | V_Bytes bytes
  | V_Unknown u8 bytes

record variant_dictionary =
  vd_items :: "(string, variant_value) btree"
  vd_loaded_encoding :: "bytes option"

definition default_dictionary :: variant_dictionary where
  "default_dictionary = \<lparr>vd_items = [], vd_loaded_encoding = None\<rparr>"

definition vd_insert :: "string \<Rightarrow> variant_value \<Rightarrow> variant_dictionary \<Rightarrow> variant_dictionary" where
  "vd_insert key v d = d\<lparr>vd_items := bt_insert key v (vd_items d)\<rparr>"

definition vd_get :: "variant_dictionary \<Rightarrow> string \<Rightarrow> variant_value option" where
  "vd_get d key = bt_get (vd_items d) key"

text \<open>\<open>PartialEq\<close> compares the items only.\<close>

definition same_dictionary :: "variant_dictionary \<Rightarrow> variant_dictionary \<Rightarrow> bool" where
  "same_dictionary d d' \<longleftrightarrow> vd_items d = vd_items d'"

definition encode_variant_value :: "variant_value \<Rightarrow> u8 \<times> bytes" where
  "encode_variant_value v =
     (case v of
        V_UInt32 w \<Rightarrow> (0x04, u32_le w)
      | V_UInt64 w \<Rightarrow> (0x05, u64_le w)
      | V_Bool b \<Rightarrow> (0x08, [if b then 1 else 0])
      | V_Int32 i \<Rightarrow> (0x0C, i32_le i)
      | V_Int64 i \<Rightarrow> (0x0D, i64_le i)
      | V_String s \<Rightarrow> (0x18, text_bytes s)
      | V_Bytes bs \<Rightarrow> (0x42, bs)
      | V_Unknown type_tag bs \<Rightarrow> (type_tag, bs))"

text \<open>\<open>T::from_le_bytes(bytes.try_into().map_err(..)?)\<close>.\<close>

definition le_array :: "nat \<Rightarrow> bytes \<Rightarrow> kdbx_error + bytes" where
  "le_array n bs = (if length bs = n then Inr bs else Inl InvalidValue)"

definition decode_utf8 :: "bytes \<Rightarrow> kdbx_error + string" where
  "decode_utf8 bs = (if utf8_valid (text_of_bytes bs) then Inr (text_of_bytes bs) else Inl InvalidValue)"

definition decode_variant_value :: "u8 \<Rightarrow> bytes \<Rightarrow> kdbx_error + variant_value" where
  "decode_variant_value kind bs =
     (if kind = 0x04 then and_then (le_array 4 bs) (\<lambda>a. Inr (V_UInt32 (word_from_le a)))
      else if kind = 0x05 then and_then (le_array 8 bs) (\<lambda>a. Inr (V_UInt64 (word_from_le a)))
      else if kind = 0x08 then (case bs of [] \<Rightarrow> Inl UnexpectedEof | b # _ \<Rightarrow> Inr (V_Bool (b \<noteq> 0)))
      else if kind = 0x0C then and_then (le_array 4 bs) (\<lambda>a. Inr (V_Int32 (I32 (word_from_le a))))
      else if kind = 0x0D then and_then (le_array 8 bs) (\<lambda>a. Inr (V_Int64 (I64 (word_from_le a))))
      else if kind = 0x18 then and_then (decode_utf8 bs) (\<lambda>s. Inr (V_String s))
      else if kind = 0x42 then Inr (V_Bytes bs)
      else Inr (V_Unknown kind bs))"

definition dictionary_version :: u16 where "dictionary_version = 0x0100"

definition remaining :: "cursor \<Rightarrow> nat" where
  "remaining c = length (cu_bytes c) - cu_position c"

definition get_ok :: "'e + 'a \<Rightarrow> 'a" where
  "get_ok r = (case r of Inr x \<Rightarrow> x)"

lemma get_ok_Inr [simp]: "get_ok (Inr x) = x" by (simp add: get_ok_def)

lemma read_exact_remaining:
  "read_exact n c = Inr (x, c') \<Longrightarrow> remaining c' = remaining c - n \<and> n \<le> remaining c"
  by (auto simp: read_exact_def remaining_def Let_def split: if_splits)

lemma read_sized_remaining: "read_sized c = Inr (x, c') \<Longrightarrow> remaining c' < remaining c"
  by (auto simp: read_sized_def read_i32_def and_then_eq_Inr dest!: read_exact_remaining)

lemma read_u8_remaining: "read_u8 c = Inr (x, c') \<Longrightarrow> remaining c' < remaining c"
  by (cases "read_exact 1 c") (auto simp: read_u8_def split: list.split_asm dest!: read_exact_remaining)

text \<open>The loop over the items of \<open>decode_items\<close>.\<close>

function decode_item_loop ::
    "cursor \<Rightarrow> (string, variant_value) btree \<Rightarrow> kdbx_error + (string, variant_value) btree" where
  "decode_item_loop c items =
     and_then (read_u8 c) (\<lambda>(kind, c1).
       if kind = 0 then Inr items
       else and_then (read_sized c1) (\<lambda>(name_bytes, c2).
         and_then (decode_utf8 name_bytes) (\<lambda>name.
         and_then (read_sized c2) (\<lambda>(value_bytes, c3).
         and_then (decode_variant_value kind value_bytes) (\<lambda>v.
           decode_item_loop c3 (bt_insert name v items))))))"
  by pat_completeness auto
termination
  by (relation "measure (\<lambda>(c, items). remaining c)")
     (auto dest!: read_u8_remaining read_sized_remaining)

declare decode_item_loop.simps [simp del]

definition decode_items :: "bytes \<Rightarrow> kdbx_error + (string, variant_value) btree" where
  "decode_items bs =
     and_then (read_u16 (new_cursor bs)) (\<lambda>(version, c).
       if version \<noteq> dictionary_version then Inl InvalidValue else decode_item_loop c [])"

definition vd_decode :: "bytes \<Rightarrow> kdbx_error + variant_dictionary" where
  "vd_decode bs = and_then (decode_items bs) (\<lambda>items.
     Inr \<lparr>vd_items = items, vd_loaded_encoding = Some bs\<rparr>)"

definition encode_item :: "string \<times> variant_value \<Rightarrow> bytes" where
  "encode_item item =
     (let (key, v) = item; (kind, value_bytes) = encode_variant_value v
      in [kind] @ write_sized (text_bytes key) @ write_sized value_bytes)"

definition encode_items :: "(string, variant_value) btree \<Rightarrow> bytes" where
  "encode_items items = u16_le dictionary_version @ concat (map encode_item items) @ [0]"

definition vd_encode :: "variant_dictionary \<Rightarrow> kdbx_error + bytes" where
  "vd_encode d =
     (case vd_loaded_encoding d of
        None \<Rightarrow> Inr (encode_items (vd_items d))
      | Some encoded \<Rightarrow> and_then (decode_items encoded) (\<lambda>items.
          if items = vd_items d then Inr encoded else Inr (encode_items (vd_items d))))"

section \<open>What a dictionary decodes to\<close>

text \<open>An item on the wire: its type tag, the bytes of its name and the bytes of its value.\<close>

definition wire_item :: "u8 \<times> bytes \<times> bytes \<Rightarrow> bytes" where
  "wire_item w = (case w of (kind, name, v) \<Rightarrow> [kind] @ write_sized name @ write_sized v)"

definition wire_ok :: "u8 \<times> bytes \<times> bytes \<Rightarrow> bool" where
  "wire_ok w = (case w of (kind, name, v) \<Rightarrow> kind \<noteq> 0 \<and> fits_i32 (length name) \<and> fits_i32 (length v) \<and>
     is_ok (decode_utf8 name) \<and> is_ok (decode_variant_value kind v))"

definition wire_meaning :: "u8 \<times> bytes \<times> bytes \<Rightarrow> string \<times> variant_value" where
  "wire_meaning w = (case w of (kind, name, v) \<Rightarrow> (get_ok (decode_utf8 name), get_ok (decode_variant_value kind v)))"

lemma wire_item_triple [simp]: "wire_item (kind, name, v) = [kind] @ write_sized name @ write_sized v"
  by (simp add: wire_item_def)

lemma wire_ok_triple [simp]: "wire_ok (kind, name, v) \<longleftrightarrow> kind \<noteq> 0 \<and> fits_i32 (length name) \<and>
    fits_i32 (length v) \<and> is_ok (decode_utf8 name) \<and> is_ok (decode_variant_value kind v)"
  by (simp add: wire_ok_def)

lemma wire_meaning_triple [simp]: "wire_meaning (kind, name, v) =
    (get_ok (decode_utf8 name), get_ok (decode_variant_value kind v))"
  by (simp add: wire_meaning_def)

lemma is_ok_Inr [simp]: "is_ok (Inr x)" "\<not> is_ok (Inl e)"
  by (simp_all add: is_ok_def)

lemma is_ok_iff: "is_ok r \<longleftrightarrow> (\<exists>x. r = Inr x)"
  by (cases r) simp_all

lemma decode_item_loop_sound:
  "decode_item_loop (cursor_at pre rest) acc = Inr items \<Longrightarrow>
   \<exists>ws post. rest = concat (map wire_item ws) @ [0] @ post \<and> list_all wire_ok ws \<and>
     items = bt_extend acc (map wire_meaning ws)"
proof (induction "length rest" arbitrary: pre rest acc rule: less_induct)
  case less
  from less.prems obtain kind c1 where k: "read_u8 (cursor_at pre rest) = Inr (kind, c1)"
    and r: "(if kind = 0 then Inr acc
       else and_then (read_sized c1) (\<lambda>(name_bytes, c2).
         and_then (decode_utf8 name_bytes) (\<lambda>name.
         and_then (read_sized c2) (\<lambda>(value_bytes, c3).
         and_then (decode_variant_value kind value_bytes) (\<lambda>v.
           decode_item_loop c3 (bt_insert name v acc)))))) = Inr items"
    by (subst (asm) decode_item_loop.simps) (auto simp: and_then_eq_Inr)
  from k obtain rest1 where rest1: "rest = [kind] @ rest1" "c1 = cursor_at (pre @ [kind]) rest1"
    unfolding r8.read_iff by blast
  show ?case
  proof (cases "kind = 0")
    case True
    with r rest1 show ?thesis by (intro exI [of _ "[]"] exI [of _ rest1]) simp
  next
    case False
    with r obtain name_bytes c2 name value_bytes c3 v where
      n: "read_sized c1 = Inr (name_bytes, c2)" "decode_utf8 name_bytes = Inr name"
      and v: "read_sized c2 = Inr (value_bytes, c3)" "decode_variant_value kind value_bytes = Inr v"
      and loop: "decode_item_loop c3 (bt_insert name v acc) = Inr items"
      by (auto simp: and_then_eq_Inr)
    from n(1) rest1(2) obtain rest2 where rest2: "fits_i32 (length name_bytes)"
      "rest1 = write_sized name_bytes @ rest2" "c2 = cursor_at ((pre @ [kind]) @ write_sized name_bytes) rest2"
      by (auto simp: sized.read_iff)
    from v(1) rest2(3) obtain rest3 where rest3: "fits_i32 (length value_bytes)"
      "rest2 = write_sized value_bytes @ rest3"
      "c3 = cursor_at (((pre @ [kind]) @ write_sized name_bytes) @ write_sized value_bytes) rest3"
      by (auto simp: sized.read_iff)
    have "length rest3 < length rest" using rest1(1) rest2(2) rest3(2) by simp
    from less.hyps [OF this loop [unfolded rest3(3)]] obtain ws post where
      "rest3 = concat (map wire_item ws) @ [0] @ post" "list_all wire_ok ws"
      "items = bt_extend (bt_insert name v acc) (map wire_meaning ws)" by blast
    then show ?thesis
      using rest1 rest2 rest3 n(2) v(2) False
      by (intro exI [of _ "(kind, name_bytes, value_bytes) # ws"] exI [of _ post])
        (simp add: bt_extend_Cons)
  qed
qed

lemma decode_item_loop_complete:
  "list_all wire_ok ws \<Longrightarrow>
   decode_item_loop (cursor_at pre (concat (map wire_item ws) @ [0] @ post)) acc =
     Inr (bt_extend acc (map wire_meaning ws))"
proof (induction ws arbitrary: pre acc)
  case Nil
  have "read_u8 (cursor_at pre ([0] @ post)) = Inr (0, cursor_at (pre @ [0]) post)"
    by (rule r8.read_written) simp
  then show ?case by (subst decode_item_loop.simps) simp
next
  case (Cons w ws)
  obtain kind name_bytes value_bytes where w: "w = (kind, name_bytes, value_bytes)" by (cases w) auto
  let ?rest = "concat (map wire_item ws) @ [0] @ post"
  from Cons.prems w obtain name v where ok: "kind \<noteq> 0" "fits_i32 (length name_bytes)"
    "fits_i32 (length value_bytes)" "decode_utf8 name_bytes = Inr name"
    "decode_variant_value kind value_bytes = Inr v"
    by (auto simp: is_ok_iff)
  let ?p1 = "pre @ [kind]" and ?p2 = "(pre @ [kind]) @ write_sized name_bytes"
  have "read_u8 (cursor_at pre ([kind] @ write_sized name_bytes @ write_sized value_bytes @ ?rest)) =
      Inr (kind, cursor_at ?p1 (write_sized name_bytes @ write_sized value_bytes @ ?rest))"
    by (rule r8.read_written) simp
  moreover have "read_sized (cursor_at ?p1 (write_sized name_bytes @ write_sized value_bytes @ ?rest)) =
      Inr (name_bytes, cursor_at ?p2 (write_sized value_bytes @ ?rest))"
    by (rule sized.read_written) (rule ok(2))
  moreover have "read_sized (cursor_at ?p2 (write_sized value_bytes @ ?rest)) =
      Inr (value_bytes, cursor_at (?p2 @ write_sized value_bytes) ?rest)"
    by (rule sized.read_written) (rule ok(3))
  ultimately show ?case
    using Cons.IH [of "?p2 @ write_sized value_bytes" "bt_insert name v acc"] Cons.prems ok w
    by (subst decode_item_loop.simps) (simp add: bt_extend_Cons)
qed

lemma decode_items_iff:
  "decode_items bs = Inr items \<longleftrightarrow> (\<exists>ws post. bs = u16_le dictionary_version @ concat (map wire_item ws) @ [0] @ post \<and>
     list_all wire_ok ws \<and> items = bt_of_list (map wire_meaning ws))"
proof
  assume "decode_items bs = Inr items"
  then obtain c where c: "read_u16 (cursor_at [] bs) = Inr (dictionary_version, c)" "decode_item_loop c [] = Inr items"
    by (auto simp: decode_items_def and_then_eq_Inr new_cursor_at split: if_splits)
  then obtain rest where rest: "bs = u16_le dictionary_version @ rest" "c = cursor_at (u16_le dictionary_version) rest"
    by (auto simp: r16.read_iff)
  with decode_item_loop_sound [OF c(2) [unfolded rest(2)]]
  show "\<exists>ws post. bs = u16_le dictionary_version @ concat (map wire_item ws) @ [0] @ post \<and>
     list_all wire_ok ws \<and> items = bt_of_list (map wire_meaning ws)" by auto
next
  assume "\<exists>ws post. bs = u16_le dictionary_version @ concat (map wire_item ws) @ [0] @ post \<and>
     list_all wire_ok ws \<and> items = bt_of_list (map wire_meaning ws)"
  then obtain ws post where ws: "bs = u16_le dictionary_version @ concat (map wire_item ws) @ [0] @ post"
    "list_all wire_ok ws" "items = bt_of_list (map wire_meaning ws)" by blast
  have "read_u16 (cursor_at [] bs) = Inr (dictionary_version,
      cursor_at (u16_le dictionary_version) (concat (map wire_item ws) @ [0] @ post))"
    unfolding ws(1) using r16.read_written [of "[]" dictionary_version] by simp
  with decode_item_loop_complete [OF ws(2), of "u16_le dictionary_version" post "[]"] ws(3)
  show "decode_items bs = Inr items" by (simp add: decode_items_def new_cursor_at)
qed

text \<open>The items a writer may put in a dictionary: \<open>str\<close> values, no type tag that means something else,
  lengths that survive the cast to \<open>i32\<close>.\<close>

definition variant_ok :: "variant_value \<Rightarrow> bool" where
  "variant_ok v \<longleftrightarrow> fits_i32 (length (snd (encode_variant_value v))) \<and>
     (case v of V_String s \<Rightarrow> utf8_valid s
      | V_Unknown type_tag bs \<Rightarrow> type_tag \<notin> {0, 0x04, 0x05, 0x08, 0x0C, 0x0D, 0x18, 0x42}
      | _ \<Rightarrow> True)"

definition item_ok :: "string \<times> variant_value \<Rightarrow> bool" where
  "item_ok item \<longleftrightarrow> utf8_valid (fst item) \<and> fits_i32 (length (fst item)) \<and> variant_ok (snd item)"

definition dictionary_ok :: "variant_dictionary \<Rightarrow> bool" where
  "dictionary_ok d \<longleftrightarrow> bt_wf (vd_items d) \<and> list_all item_ok (vd_items d) \<and>
     (case vd_loaded_encoding d of None \<Rightarrow> True | Some bs \<Rightarrow> is_ok (decode_items bs))"

lemma text_of_bytes_inverse [simp]: "text_of_bytes (text_bytes s) = s"
  by (simp add: text_of_bytes_def text_bytes_def comp_def)

lemma text_bytes_inverse [simp]: "text_bytes (text_of_bytes bs) = bs"
proof (induction bs)
  case (Cons b bs)
  have "unat b < 256" using unsigned_less [where 'a = nat, of b] by simp
  then have "of_char (char_of (unat b) :: char) = b"
    by (metis of_char_of mod_less unat_of_char word_unat_eq_iff)
  with Cons show ?case by (simp add: text_of_bytes_def text_bytes_def)
qed (simp add: text_of_bytes_def text_bytes_def)

lemma decode_utf8_text: "utf8_valid s \<Longrightarrow> decode_utf8 (text_bytes s) = Inr s"
  by (simp add: decode_utf8_def)

lemma decode_encode_variant:
  assumes "variant_ok v"
  shows "decode_variant_value (fst (encode_variant_value v)) (snd (encode_variant_value v)) = Inr v"
    and "fst (encode_variant_value v) \<noteq> 0"
  using assms
  by (cases v; simp add: variant_ok_def encode_variant_value_def decode_variant_value_def le_array_def
      decode_utf8_text i32_le_def i64_le_def)+

lemma decode_variant_ok:
  assumes "decode_variant_value kind bs = Inr v" and "kind \<noteq> 0" and "fits_i32 (length bs)"
  shows "variant_ok v"
proof -
  have "fits_i32 1" "fits_i32 4" "fits_i32 8" by (simp_all add: fits_i32_small)
  then show ?thesis
    using assms
    by (auto simp: variant_ok_def encode_variant_value_def decode_variant_value_def and_then_eq_Inr
        decode_utf8_def le_array_def split: if_split_asm list.split_asm)
qed

definition wire_of :: "string \<times> variant_value \<Rightarrow> u8 \<times> bytes \<times> bytes" where
  "wire_of item = (fst (encode_variant_value (snd item)), text_bytes (fst item), snd (encode_variant_value (snd item)))"

lemma wire_of_item:
  assumes "item_ok item"
  shows "wire_item (wire_of item) = encode_item item \<and> wire_ok (wire_of item) \<and>
    wire_meaning (wire_of item) = item"
proof -
  obtain key v where item: "item = (key, v)" by (cases item)
  moreover obtain kind bs where "encode_variant_value v = (kind, bs)" by fastforce
  ultimately have item: "item = (key, v)" "encode_variant_value v = (kind, bs)" by simp_all
  with assms have "variant_ok v" "utf8_valid key" "fits_i32 (length key)" "fits_i32 (length bs)"
    by (simp_all add: item_ok_def variant_ok_def)
  with item decode_encode_variant [of v] show ?thesis
    by (simp add: wire_of_def encode_item_def decode_utf8_text)
qed

lemma decode_encode_items:
  assumes "bt_wf items" and "list_all item_ok items"
  shows "decode_items (encode_items items) = Inr items"
proof -
  have "map wire_item (map wire_of items) = map encode_item items \<and>
      list_all wire_ok (map wire_of items) \<and> map wire_meaning (map wire_of items) = items"
    using assms(2) wire_of_item by (induction items) auto
  moreover have "bt_of_list items = items" using assms(1) by (rule bt_of_list_id)
  ultimately show ?thesis
    unfolding decode_items_iff encode_items_def
    by (intro exI [of _ "map wire_of items"] exI [of _ "[]"]) (simp del: map_map)
qed

lemma wire_meaning_ok: "wire_ok w \<Longrightarrow> item_ok (wire_meaning w)"
  by (cases w) (auto simp: item_ok_def is_ok_iff decode_utf8_def text_of_bytes_def
      dest: decode_variant_ok split: if_splits)

lemma decode_items_ok:
  assumes "decode_items bs = Inr items"
  shows "bt_wf items \<and> list_all item_ok items"
proof -
  obtain ws where ws: "list_all wire_ok ws" "items = bt_of_list (map wire_meaning ws)"
    using assms by (auto simp: decode_items_iff)
  have "set (bt_extend m ps) \<subseteq> set m \<union> set ps" for m and ps :: "(string \<times> variant_value) list"
  proof (induction ps arbitrary: m)
    case (Cons p ps)
    show ?case
      using Cons [of "bt_insert (fst p) (snd p) m"] set_bt_insert_subset [of "fst p" "snd p" m]
      by (cases p) (auto simp: bt_extend_Cons)
  qed simp
  then have "set items \<subseteq> wire_meaning ` set ws" using ws(2) by fastforce
  then have "list_all item_ok items"
    using ws(1) wire_meaning_ok by (auto simp: list_all_iff dest!: subsetD)
  then show ?thesis using ws(2) by simp
qed

lemma dictionary_ok_default [simp]: "dictionary_ok default_dictionary"
  by (simp add: dictionary_ok_def default_dictionary_def)

lemma dictionary_ok_insert:
  assumes "dictionary_ok d" and "item_ok (key, v)"
  shows "dictionary_ok (vd_insert key v d)"
proof -
  have "list_all item_ok (bt_insert key v (vd_items d))"
    using assms set_bt_insert_subset [of key v "vd_items d"] by (auto simp: dictionary_ok_def list_all_iff)
  with assms(1) show ?thesis by (simp add: dictionary_ok_def vd_insert_def)
qed

lemma dictionary_ok_decode: "vd_decode bs = Inr d \<Longrightarrow> dictionary_ok d"
  using decode_items_ok by (auto simp: vd_decode_def and_then_eq_Inr dictionary_ok_def)

text \<open>A loaded dictionary is written back byte for byte, and any well-formed dictionary reads back
  with the same items.\<close>

lemma encode_loaded: "vd_decode bs = Inr d \<Longrightarrow> vd_encode d = Inr bs"
  by (auto simp: vd_decode_def vd_encode_def and_then_eq_Inr)

lemma dictionary_roundtrip:
  assumes "dictionary_ok d"
  shows "\<exists>bs. vd_encode d = Inr bs \<and> vd_decode bs = Inr \<lparr>vd_items = vd_items d, vd_loaded_encoding = Some bs\<rparr>"
proof -
  have fresh: "vd_decode (encode_items (vd_items d)) =
      Inr \<lparr>vd_items = vd_items d, vd_loaded_encoding = Some (encode_items (vd_items d))\<rparr>"
    using assms decode_encode_items by (simp add: vd_decode_def dictionary_ok_def)
  show ?thesis
  proof (cases "vd_loaded_encoding d")
    case None
    with fresh show ?thesis by (simp add: vd_encode_def)
  next
    case (Some bs)
    with assms obtain items where "decode_items bs = Inr items"
      by (auto simp: dictionary_ok_def is_ok_iff)
    with Some fresh show ?thesis by (auto simp: vd_encode_def vd_decode_def)
  qed
qed

end
