(* ===== verification/Headers.thy ===== *)
theory Headers
  imports Dictionary
begin

text \<open>
  The KDBX file headers (\<^verbatim>\<open>crates/vaultkern-kdbx/src/lib.rs\<close>): versions, ciphers, the outer headers of
  KDBX 4 and KDBX 3, and the inner header with the attachment binaries. The lemmas say which bytes
  each decoder accepts and that a written header reads back.
\<close>

section \<open>Versions, ciphers, compression\<close>

datatype kdbx_version = V2_0 | V3_0 | V3_1 | V4_0 | V4_1
datatype kdbx_cipher = Aes256 | ChaCha20 | Twofish
datatype kdbx_compression = No_Compression | Gzip

definition version_to_u32 :: "kdbx_version \<Rightarrow> u32" where
  "version_to_u32 version =
     (case version of V2_0 \<Rightarrow> 0x00020004 | V3_0 \<Rightarrow> 0x00030000 | V3_1 \<Rightarrow> 0x00030001
      | V4_0 \<Rightarrow> 0x00040000 | V4_1 \<Rightarrow> 0x00040001)"

definition u32_to_version :: "u32 \<Rightarrow> kdbx_error + kdbx_version" where
  "u32_to_version version =
     (if version = 0x00020000 then Inr V2_0
      else if version = 0x00020004 then Inr V2_0
      else if version = 0x00030000 then Inr V3_0
      else if version = 0x00030001 then Inr V3_1
      else if version = 0x00040000 then Inr V4_0
      else if version = 0x00040001 then Inr V4_1
      else Inl InvalidValue)"

definition AES256_UUID :: uuid where "AES256_UUID = 0x31C1F2E6BF714350BE5805216AFC5AFF"
definition CHACHA20_UUID :: uuid where "CHACHA20_UUID = 0xD6038A2B8B6F4CB5A524339A31DBB59A"
definition TWOFISH_UUID :: uuid where "TWOFISH_UUID = 0xAD68F29F576F4BB9A36AD47AF965346C"

definition cipher_uuid :: "kdbx_cipher \<Rightarrow> uuid" where
  "cipher_uuid cipher =
     (case cipher of Aes256 \<Rightarrow> AES256_UUID | ChaCha20 \<Rightarrow> CHACHA20_UUID | Twofish \<Rightarrow> TWOFISH_UUID)"

definition uuid_to_cipher :: "uuid \<Rightarrow> kdbx_error + kdbx_cipher" where
  "uuid_to_cipher u =
     (if u = AES256_UUID then Inr Aes256
      else if u = CHACHA20_UUID then Inr ChaCha20
      else if u = TWOFISH_UUID then Inr Twofish
      else Inl InvalidValue)"

text \<open>\<open>Uuid::from_slice\<close>.\<close>

definition uuid_from_slice :: "bytes \<Rightarrow> kdbx_error + uuid" where
  "uuid_from_slice bs = (if length bs = 16 then Inr (word_from_le (rev bs)) else Inl InvalidValue)"

lemma uuid_from_slice_bytes [simp]: "uuid_from_slice (uuid_bytes u) = Inr u"
  using uint_lt2p [of u]
  by (simp add: uuid_from_slice_def uuid_bytes_def word_from_le_def le_value_digits)

lemma version_roundtrip [simp]: "u32_to_version (version_to_u32 version) = Inr version"
  by (cases version) (simp_all add: version_to_u32_def u32_to_version_def)

lemma cipher_roundtrip [simp]: "uuid_to_cipher (cipher_uuid cipher) = Inr cipher"
  by (cases cipher)
    (simp_all add: cipher_uuid_def uuid_to_cipher_def AES256_UUID_def CHACHA20_UUID_def TWOFISH_UUID_def)

definition compression_code :: "kdbx_compression \<Rightarrow> u32" where
  "compression_code compression = (case compression of No_Compression \<Rightarrow> 0 | Gzip \<Rightarrow> 1)"

text \<open>The fields 2 and 3 of both headers.\<close>

definition decode_cipher_field :: "bytes \<Rightarrow> kdbx_error + kdbx_cipher" where
  "decode_cipher_field data = and_then (uuid_from_slice data) uuid_to_cipher"

definition decode_compression_field :: "bytes \<Rightarrow> kdbx_error + kdbx_compression" where
  "decode_compression_field data =
     and_then (le_array 4 data) (\<lambda>a.
       let v = (word_from_le a :: u32) in
       if v = 0 then Inr No_Compression else if v = 1 then Inr Gzip else Inl InvalidValue)"

lemma decode_cipher_field_written [simp]: "decode_cipher_field (uuid_bytes (cipher_uuid cipher)) = Inr cipher"
  by (simp add: decode_cipher_field_def)

lemma decode_compression_field_written [simp]:
  "decode_compression_field (u32_le (compression_code compression)) = Inr compression"
  by (cases compression) (simp_all add: decode_compression_field_def le_array_def compression_code_def Let_def)

section \<open>Fields\<close>

text \<open>The outer header of KDBX 4 and the inner header give the length of a field as an \<open>i32\<close> (wide), the
  header of KDBX 3 as a \<open>u16\<close>. All three are read by the same loop: a field id, the sized data, stop at
  id 0, otherwise the field's effect on the header read so far.\<close>

definition read_data :: "bool \<Rightarrow> cursor \<Rightarrow> kdbx_error + bytes \<times> cursor" where
  "read_data wide c =
     (if wide then read_sized c else and_then (read_u16 c) (\<lambda>(len, c1). read_exact (unat len) c1))"

lemma read_data_remaining: "read_data wide c = Inr (x, c') \<Longrightarrow> remaining c' < remaining c"
  by (auto simp: read_data_def read_u16_def and_then_eq_Inr dest: read_sized_remaining
      dest!: read_exact_remaining split: if_splits)

function field_loop ::
    "bool \<Rightarrow> (u8 \<Rightarrow> bytes \<Rightarrow> 's \<Rightarrow> kdbx_error + 's) \<Rightarrow> cursor \<Rightarrow> 's \<Rightarrow> kdbx_error + 's \<times> cursor" where
  "field_loop wide f c s =
     and_then (read_u8 c) (\<lambda>(field_id, c1).
     and_then (read_data wide c1) (\<lambda>(data, c2).
       if field_id = 0 then Inr (s, c2)
       else and_then (f field_id data s) (\<lambda>s'. field_loop wide f c2 s')))"
  by pat_completeness auto
termination
  by (relation "measure (\<lambda>(wide, f, c, s). remaining c)")
     (auto dest!: read_u8_remaining read_data_remaining)

declare field_loop.simps [simp del]

definition write_data :: "bool \<Rightarrow> bytes \<Rightarrow> bytes" where
  "write_data wide data =
     (if wide then write_sized data else u16_le (word_of_nat (length data)) @ data)"

definition data_fits :: "bool \<Rightarrow> bytes \<Rightarrow> bool" where
  "data_fits wide data \<longleftrightarrow> (if wide then fits_i32 (length data) else length data < 2 ^ 16)"

interpretation data: reader "read_data wide" "write_data wide" "data_fits wide" for wide
proof unfold_locales
  fix pre rest x c
  show "read_data wide (cursor_at pre rest) = Inr (x, c) \<longleftrightarrow> data_fits wide x \<and>
      (\<exists>post. rest = write_data wide x @ post \<and> c = cursor_at (pre @ write_data wide x) post)"
  proof (cases wide)
    case True
    then show ?thesis by (simp add: read_data_def write_data_def data_fits_def sized.read_iff)
  next
    case False
    have len: "length x = unat (w :: u16) \<longleftrightarrow> length x < 2 ^ 16 \<and> word_of_nat (length x) = w" for w
      using unsigned_less [where 'a = nat, of w]
      by (auto simp: unat_of_nat intro: word_of_nat_eq_iff [THEN iffD2])
    show ?thesis using False
      by (auto simp: read_data_def write_data_def data_fits_def and_then_eq_Inr r16.read_iff read_exact_iff len)
  qed
qed

definition wire_field :: "bool \<Rightarrow> u8 \<times> bytes \<Rightarrow> bytes" where
  "wire_field wide field = [fst field] @ write_data wide (snd field)"

definition field_ok :: "bool \<Rightarrow> u8 \<times> bytes \<Rightarrow> bool" where
  "field_ok wide field \<longleftrightarrow> fst field \<noteq> 0 \<and> data_fits wide (snd field)"

lemma wire_field_pair [simp]: "wire_field wide (field_id, data) = field_id # write_data wide data"
  by (simp add: wire_field_def)

lemma field_ok_pair [simp]: "field_ok wide (field_id, data) \<longleftrightarrow> field_id \<noteq> 0 \<and> data_fits wide data"
  by (simp add: field_ok_def)

definition apply_fields :: "(u8 \<Rightarrow> bytes \<Rightarrow> 's \<Rightarrow> kdbx_error + 's) \<Rightarrow> 's \<Rightarrow> (u8 \<times> bytes) list \<Rightarrow> kdbx_error + 's" where
  "apply_fields f s fds = try_fold (\<lambda>s field. f (fst field) (snd field) s) s fds"

lemma apply_fields_simps [simp]:
  "apply_fields f s [] = Inr s"
  "apply_fields f s (field # fds) = and_then (f (fst field) (snd field) s) (\<lambda>s'. apply_fields f s' fds)"
  by (simp_all add: apply_fields_def)

lemma field_loop_sound:
  "field_loop wide f (cursor_at pre rest) s = Inr (s', c) \<Longrightarrow>
   \<exists>fds stop post. rest = concat (map (wire_field wide) fds) @ wire_field wide (0, stop) @ post \<and>
     list_all (field_ok wide) fds \<and> data_fits wide stop \<and> apply_fields f s fds = Inr s' \<and>
     c = cursor_at (pre @ concat (map (wire_field wide) fds) @ wire_field wide (0, stop)) post"
proof (induction "length rest" arbitrary: pre rest s rule: less_induct)
  case less
  from less.prems obtain field_id c1 data c2 where i: "read_u8 (cursor_at pre rest) = Inr (field_id, c1)"
    and d: "read_data wide c1 = Inr (data, c2)"
    and r: "(if field_id = 0 then Inr (s, c2)
       else and_then (f field_id data s) (\<lambda>s'. field_loop wide f c2 s')) = Inr (s', c)"
    by (subst (asm) field_loop.simps) (auto simp: and_then_eq_Inr)
  from i obtain rest1 where rest1: "rest = [field_id] @ rest1" "c1 = cursor_at (pre @ [field_id]) rest1"
    unfolding r8.read_iff by blast
  from d rest1(2) obtain rest2 where rest2: "data_fits wide data" "rest1 = write_data wide data @ rest2"
    "c2 = cursor_at ((pre @ [field_id]) @ write_data wide data) rest2"
    by (auto simp: data.read_iff)
  show ?case
  proof (cases "field_id = 0")
    case True
    with r rest1 rest2 show ?thesis
      by (intro exI [of _ "[]"] exI [of _ data] exI [of _ rest2]) simp
  next
    case False
    with r obtain s1 where s1: "f field_id data s = Inr s1" "field_loop wide f c2 s1 = Inr (s', c)"
      by (auto simp: and_then_eq_Inr)
    have "length rest2 < length rest" using rest1(1) rest2(2) by simp
    from less.hyps [OF this s1(2) [unfolded rest2(3)]] obtain fds stop post where
      "rest2 = concat (map (wire_field wide) fds) @ wire_field wide (0, stop) @ post"
      "list_all (field_ok wide) fds" "data_fits wide stop" "apply_fields f s1 fds = Inr s'"
      "c = cursor_at (((pre @ [field_id]) @ write_data wide data) @ concat (map (wire_field wide) fds) @
         wire_field wide (0, stop)) post" by blast
    then show ?thesis
      using rest1 rest2 s1(1) False
      by (intro exI [of _ "(field_id, data) # fds"] exI [of _ stop] exI [of _ post])
        simp
  qed
qed

lemma field_loop_complete:
  "list_all (field_ok wide) fds \<Longrightarrow> data_fits wide stop \<Longrightarrow> apply_fields f s fds = Inr s' \<Longrightarrow>
   field_loop wide f (cursor_at pre (concat (map (wire_field wide) fds) @ wire_field wide (0, stop) @ post)) s =
     Inr (s', cursor_at (pre @ concat (map (wire_field wide) fds) @ wire_field wide (0, stop)) post)"
proof (induction fds arbitrary: pre s)
  case Nil
  have "read_u8 (cursor_at pre ([0] @ write_data wide stop @ post)) =
      Inr (0, cursor_at (pre @ [0]) (write_data wide stop @ post))" by (rule r8.read_written) simp
  moreover have "read_data wide (cursor_at (pre @ [0]) (write_data wide stop @ post)) =
      Inr (stop, cursor_at ((pre @ [0]) @ write_data wide stop) post)"
    by (rule data.read_written) (rule Nil.prems(2))
  ultimately show ?case using Nil.prems(3) by (subst field_loop.simps) simp
next
  case (Cons field fds)
  obtain field_id data where field: "field = (field_id, data)" by (cases field)
  let ?rest = "concat (map (wire_field wide) fds) @ wire_field wide (0, stop) @ post"
  from Cons.prems field obtain s1 where s1: "f field_id data s = Inr s1" "apply_fields f s1 fds = Inr s'"
    and ok: "field_id \<noteq> 0" "data_fits wide data"
    by (auto simp: and_then_eq_Inr)
  have "read_u8 (cursor_at pre ([field_id] @ write_data wide data @ ?rest)) =
      Inr (field_id, cursor_at (pre @ [field_id]) (write_data wide data @ ?rest))" by (rule r8.read_written) simp
  moreover have "read_data wide (cursor_at (pre @ [field_id]) (write_data wide data @ ?rest)) =
      Inr (data, cursor_at ((pre @ [field_id]) @ write_data wide data) ?rest)"
    by (rule data.read_written) (rule ok(2))
  ultimately show ?case
    using Cons.IH [OF _ Cons.prems(2) s1(2), of "(pre @ [field_id]) @ write_data wide data"] Cons.prems(1) s1(1) ok field
    by (subst field_loop.simps) simp
qed

section \<open>The KDBX 4 header\<close>

record unknown_header_field =
  uh_id :: u8
  uh_data :: bytes

record kdbx_header =
  kh_version :: kdbx_version
  kh_cipher :: kdbx_cipher
  kh_compression :: kdbx_compression
  kh_master_seed :: bytes
  kh_encryption_iv :: bytes
  kh_kdf_parameters :: variant_dictionary
  kh_public_custom_data :: variant_dictionary
  kh_unknown_fields :: "unknown_header_field list"

definition new_header :: "kdbx_version \<Rightarrow> kdbx_cipher \<Rightarrow> kdbx_header" where
  "new_header version cipher =
     \<lparr>kh_version = version, kh_cipher = cipher, kh_compression = Gzip, kh_master_seed = replicate 32 0,
      kh_encryption_iv = [], kh_kdf_parameters = default_dictionary,
      kh_public_custom_data = default_dictionary, kh_unknown_fields = []\<rparr>"

definition signature_1 :: u32 where "signature_1 = 0x9AA2D903"
definition signature_2 :: u32 where "signature_2 = 0xB54BFB67"

definition write_field :: "u8 \<Rightarrow> bytes \<Rightarrow> bytes" where
  "write_field field_id data = [field_id] @ write_sized data"

definition header_encode :: "kdbx_header \<Rightarrow> kdbx_error + bytes" where
  "header_encode h =
     (let prefix_bytes = u32_le signature_1 @ u32_le signature_2 @ u32_le (version_to_u32 (kh_version h)) @
          write_field 2 (uuid_bytes (cipher_uuid (kh_cipher h))) @
          write_field 3 (u32_le (compression_code (kh_compression h))) @
          write_field 4 (kh_master_seed h) @
          write_field 7 (kh_encryption_iv h) in
      and_then (vd_encode (kh_kdf_parameters h)) (\<lambda>kdf.
      and_then (vd_encode (kh_public_custom_data h)) (\<lambda>custom.
        Inr (prefix_bytes @ write_field 11 kdf @ write_field 12 custom @
          concat (map (\<lambda>f. write_field (uh_id f) (uh_data f)) (kh_unknown_fields h)) @
          write_field 0 [0x0D, 0x0A, 0x0D, 0x0A]))))"

text \<open>\<open>data.try_into()\<close> for the 32 bytes of a seed.\<close>

definition header_field :: "u8 \<Rightarrow> bytes \<Rightarrow> kdbx_header \<Rightarrow> kdbx_error + kdbx_header" where
  "header_field field_id data h =
     (if field_id = 2 then and_then (decode_cipher_field data) (\<lambda>c. Inr (h\<lparr>kh_cipher := c\<rparr>))
      else if field_id = 3 then and_then (decode_compression_field data) (\<lambda>c. Inr (h\<lparr>kh_compression := c\<rparr>))
      else if field_id = 4 then and_then (le_array 32 data) (\<lambda>a. Inr (h\<lparr>kh_master_seed := a\<rparr>))
      else if field_id = 7 then Inr (h\<lparr>kh_encryption_iv := data\<rparr>)
      else if field_id = 11 then and_then (vd_decode data) (\<lambda>d. Inr (h\<lparr>kh_kdf_parameters := d\<rparr>))
      else if field_id = 12 then and_then (vd_decode data) (\<lambda>d. Inr (h\<lparr>kh_public_custom_data := d\<rparr>))
      else Inr (h\<lparr>kh_unknown_fields := kh_unknown_fields h @ [\<lparr>uh_id = field_id, uh_data = data\<rparr>]\<rparr>))"

definition header_decode_with_consumed :: "bytes \<Rightarrow> kdbx_error + kdbx_header \<times> nat" where
  "header_decode_with_consumed bs =
     and_then (read_u32 (new_cursor bs)) (\<lambda>(sig1, c1).
     and_then (read_u32 c1) (\<lambda>(sig2, c2).
       if sig1 \<noteq> signature_1 \<or> sig2 \<noteq> signature_2 then Inl InvalidValue
       else and_then (read_u32 c2) (\<lambda>(v, c3).
            and_then (u32_to_version v) (\<lambda>version.
              if version \<noteq> V4_1 \<and> version \<noteq> V4_0 then Inl UnsupportedVersion
              else and_then (field_loop True header_field c3 (new_header version Aes256)) (\<lambda>(h, c4).
                Inr (h, cu_position c4))))))"

definition header_decode :: "bytes \<Rightarrow> kdbx_error + kdbx_header" where
  "header_decode bs = and_then (header_decode_with_consumed bs) (\<lambda>(h, _). Inr h)"

section \<open>A written header reads back\<close>

definition dictionary_fits :: "variant_dictionary \<Rightarrow> bool" where
  "dictionary_fits d \<longleftrightarrow> dictionary_ok d \<and> (\<forall>bs. vd_encode d = Inr bs \<longrightarrow> fits_i32 (length bs))"

definition known_header_ids :: "u8 set" where "known_header_ids = {0, 2, 3, 4, 7, 11, 12}"

definition unknown_ok :: "unknown_header_field \<Rightarrow> bool" where
  "unknown_ok f \<longleftrightarrow> uh_id f \<notin> known_header_ids \<and> fits_i32 (length (uh_data f))"

definition header_ok :: "kdbx_header \<Rightarrow> bool" where
  "header_ok h \<longleftrightarrow> kh_version h \<in> {V4_0, V4_1} \<and> length (kh_master_seed h) = 32 \<and>
     fits_i32 (length (kh_encryption_iv h)) \<and> dictionary_fits (kh_kdf_parameters h) \<and>
     dictionary_fits (kh_public_custom_data h) \<and> list_all unknown_ok (kh_unknown_fields h)"

text \<open>The derived \<open>PartialEq\<close>, which compares dictionaries by their items.\<close>

definition same_header :: "kdbx_header \<Rightarrow> kdbx_header \<Rightarrow> bool" where
  "same_header h h' \<longleftrightarrow> kh_version h = kh_version h' \<and> kh_cipher h = kh_cipher h' \<and>
     kh_compression h = kh_compression h' \<and> kh_master_seed h = kh_master_seed h' \<and>
     kh_encryption_iv h = kh_encryption_iv h' \<and>
     same_dictionary (kh_kdf_parameters h) (kh_kdf_parameters h') \<and>
     same_dictionary (kh_public_custom_data h) (kh_public_custom_data h') \<and>
     kh_unknown_fields h = kh_unknown_fields h'"

lemma fits_constant [simp]: "fits_i32 0" "fits_i32 (Suc 0)" "fits_i32 4" "fits_i32 16" "fits_i32 32" "fits_i32 64"
  by (simp_all add: fits_i32_small)

lemma write_sized_field: "write_field field_id data = wire_field True (field_id, data)"
  by (simp add: write_field_def wire_field_def write_data_def)

lemma data_fits_wide [simp]: "data_fits True data \<longleftrightarrow> fits_i32 (length data)"
  by (simp add: data_fits_def)

definition header_prefix :: "kdbx_version \<Rightarrow> bytes" where
  "header_prefix version = u32_le signature_1 @ u32_le signature_2 @ u32_le (version_to_u32 version)"

definition written_fields :: "kdbx_header \<Rightarrow> bytes \<Rightarrow> bytes \<Rightarrow> (u8 \<times> bytes) list" where
  "written_fields h kdf custom =
     [(2, uuid_bytes (cipher_uuid (kh_cipher h))), (3, u32_le (compression_code (kh_compression h))),
      (4, kh_master_seed h), (7, kh_encryption_iv h), (11, kdf), (12, custom)] @
     map (\<lambda>f. (uh_id f, uh_data f)) (kh_unknown_fields h)"

lemma header_encode_fields:
  "vd_encode (kh_kdf_parameters h) = Inr kdf \<Longrightarrow> vd_encode (kh_public_custom_data h) = Inr custom \<Longrightarrow>
   header_encode h = Inr (header_prefix (kh_version h) @
     concat (map (wire_field True) (written_fields h kdf custom)) @ wire_field True (0, [0x0D, 0x0A, 0x0D, 0x0A]))"
  by (simp add: header_encode_def header_prefix_def written_fields_def write_sized_field Let_def comp_def)

lemma read_header_prefix:
  "header_decode_with_consumed bs = Inr (h, n) \<longleftrightarrow>
     (\<exists>version v rest c. version \<in> {V4_0, V4_1} \<and> u32_to_version v = Inr version \<and>
        bs = (u32_le signature_1 @ u32_le signature_2 @ u32_le v) @ rest \<and>
        field_loop True header_field (cursor_at (u32_le signature_1 @ u32_le signature_2 @ u32_le v) rest)
          (new_header version Aes256) = Inr (h, c) \<and> n = cu_position c)"
  by (auto simp: header_decode_with_consumed_def new_cursor_at and_then_eq_Inr r32.read_iff split: if_split_asm)
    blast+

lemma apply_unknown:
  "list_all unknown_ok us \<Longrightarrow> apply_fields header_field h (map (\<lambda>f. (uh_id f, uh_data f)) us) =
     Inr (h\<lparr>kh_unknown_fields := kh_unknown_fields h @ us\<rparr>)"
  by (induction us arbitrary: h) (simp_all add: unknown_ok_def known_header_ids_def header_field_def)

lemma apply_written:
  assumes "header_ok h" and "vd_decode kdf = Inr kdf_d" and "vd_decode custom = Inr custom_d"
  shows "apply_fields header_field (new_header (kh_version h) Aes256) (written_fields h kdf custom) =
     Inr (h\<lparr>kh_kdf_parameters := kdf_d, kh_public_custom_data := custom_d\<rparr>)"
proof -
  let ?base = "(new_header (kh_version h) Aes256)\<lparr>kh_cipher := kh_cipher h, kh_compression := kh_compression h,
     kh_master_seed := kh_master_seed h, kh_encryption_iv := kh_encryption_iv h,
     kh_kdf_parameters := kdf_d, kh_public_custom_data := custom_d\<rparr>"
  have "apply_fields header_field (new_header (kh_version h) Aes256) (written_fields h kdf custom) =
      apply_fields header_field ?base (map (\<lambda>f. (uh_id f, uh_data f)) (kh_unknown_fields h))"
    using assms by (simp add: written_fields_def header_field_def header_ok_def le_array_def)
  also have "\<dots> = Inr (?base\<lparr>kh_unknown_fields := kh_unknown_fields ?base @ kh_unknown_fields h\<rparr>)"
    using assms(1) by (intro apply_unknown) (simp add: header_ok_def)
  finally show ?thesis by (simp add: new_header_def)
qed

lemma header_roundtrip:
  assumes "header_ok h"
  shows "\<exists>bs h'. header_encode h = Inr bs \<and> same_header h h' \<and>
    (\<forall>rest. header_decode_with_consumed (bs @ rest) = Inr (h', length bs))"
proof -
  have d: "dictionary_ok (kh_kdf_parameters h)" "dictionary_ok (kh_public_custom_data h)"
    using assms by (simp_all add: header_ok_def dictionary_fits_def)
  from dictionary_roundtrip [OF d(1)] obtain kdf where kdf: "vd_encode (kh_kdf_parameters h) = Inr kdf"
      "vd_decode kdf = Inr \<lparr>vd_items = vd_items (kh_kdf_parameters h), vd_loaded_encoding = Some kdf\<rparr>"
    by blast
  from dictionary_roundtrip [OF d(2)] obtain custom where custom: "vd_encode (kh_public_custom_data h) = Inr custom"
      "vd_decode custom = Inr \<lparr>vd_items = vd_items (kh_public_custom_data h), vd_loaded_encoding = Some custom\<rparr>"
    by blast
  let ?fields = "written_fields h kdf custom" and ?stop = "[0x0D, 0x0A, 0x0D, 0x0A]" and ?p = "header_prefix (kh_version h)"
  let ?body = "concat (map (wire_field True) ?fields) @ wire_field True (0, ?stop)"
  let ?h' = "h\<lparr>kh_kdf_parameters := \<lparr>vd_items = vd_items (kh_kdf_parameters h), vd_loaded_encoding = Some kdf\<rparr>,
      kh_public_custom_data := \<lparr>vd_items = vd_items (kh_public_custom_data h), vd_loaded_encoding = Some custom\<rparr>\<rparr>"
  have ok: "list_all (field_ok True) ?fields" "data_fits True ?stop"
    using assms kdf(1) custom(1)
    by (auto simp: written_fields_def header_ok_def dictionary_fits_def list_all_iff unknown_ok_def
        known_header_ids_def fits_i32_small)
  have "field_loop True header_field (cursor_at ?p (?body @ rest)) (new_header (kh_version h) Aes256) =
      Inr (?h', cursor_at (?p @ ?body) rest)" for rest
    using field_loop_complete [OF ok apply_written [OF assms kdf(2) custom(2)], of ?p rest] by simp
  then have "header_decode_with_consumed ((?p @ ?body) @ rest) = Inr (?h', length (?p @ ?body))" for rest
    unfolding read_header_prefix using assms
    by (intro exI [of _ "kh_version h"] exI [of _ "version_to_u32 (kh_version h)"] exI [of _ "?body @ rest"]
        exI [of _ "cursor_at (?p @ ?body) rest"])
      (simp add: header_prefix_def header_ok_def)
  moreover have "header_encode h = Inr (?p @ ?body)" by (rule header_encode_fields [OF kdf(1) custom(1)])
  moreover have "same_header h ?h'" by (simp add: same_header_def same_dictionary_def)
  ultimately show ?thesis by blast
qed

text \<open>Conversely, what the decoder returns is well formed, so it can be written and read again; the bytes
  it consumed are a prefix of the file.\<close>

lemma dictionary_fits_decode: "vd_decode data = Inr d \<Longrightarrow> fits_i32 (length data) \<Longrightarrow> dictionary_fits d"
  by (simp add: dictionary_fits_def dictionary_ok_decode encode_loaded)

lemma dictionary_fits_default [simp]: "dictionary_fits default_dictionary"
  by (simp add: dictionary_fits_def)
    (simp add: vd_encode_def encode_items_def default_dictionary_def fits_i32_small)

lemma header_field_ok:
  assumes "header_ok h" and "field_ok True (field_id, data)" and "header_field field_id data h = Inr h'"
  shows "header_ok h'"
  using assms
  by (auto simp: header_field_def header_ok_def and_then_eq_Inr le_array_def unknown_ok_def known_header_ids_def
      intro: dictionary_fits_decode split: if_split_asm)

lemma apply_fields_invariant:
  assumes "apply_fields f s fds = Inr s'" and "P s" and "list_all (field_ok wide) fds"
    and "\<And>s field_id data s'. P s \<Longrightarrow> field_ok wide (field_id, data) \<Longrightarrow> f field_id data s = Inr s' \<Longrightarrow> P s'"
  shows "P s'"
proof -
  have "try_fold (\<lambda>s field. f (fst field) (snd field) s) s fds = Inr s'"
    using assms(1) by (simp add: apply_fields_def)
  then show ?thesis
  proof (rule try_fold_invariant [where P = P])
    show "P s" by (rule assms(2))
    fix s x s' assume "P s" "x \<in> set fds" "f (fst x) (snd x) s = Inr s'"
    with assms(3,4) show "P s'" by (cases x) (auto simp: list_all_iff)
  qed
qed

lemma decoded_header_ok:
  assumes "header_decode_with_consumed bs = Inr (h, n)"
  shows "header_ok h \<and> (\<exists>rest. bs = take n bs @ rest) \<and> n \<le> length bs"
proof -
  from assms obtain version v rest c where version: "version \<in> {V4_0, V4_1}"
    and bs: "bs = (u32_le signature_1 @ u32_le signature_2 @ u32_le v) @ rest"
    and loop: "field_loop True header_field (cursor_at (u32_le signature_1 @ u32_le signature_2 @ u32_le v) rest)
          (new_header version Aes256) = Inr (h, c)" and n: "n = cu_position c"
    unfolding read_header_prefix by blast
  from field_loop_sound [OF loop] obtain fds stop post where
    fds: "rest = concat (map (wire_field True) fds) @ wire_field True (0, stop) @ post"
      "list_all (field_ok True) fds" "apply_fields header_field (new_header version Aes256) fds = Inr h"
      "c = cursor_at ((u32_le signature_1 @ u32_le signature_2 @ u32_le v) @
         concat (map (wire_field True) fds) @ wire_field True (0, stop)) post" by blast
  have "header_ok (new_header version Aes256)"
    using version by (auto simp: header_ok_def new_header_def)
  then have "header_ok h"
    using fds(2,3) header_field_ok by (blast intro: apply_fields_invariant)
  moreover have "n \<le> length bs" using n fds(1,4) bs by simp
  ultimately show ?thesis by (metis append_take_drop_id)
qed

text \<open>C34. Loading and rewriting a KDBX 4 header loses nothing: whatever header a file is accepted with can be
  written again, unknown fields in their order and parameter dictionaries included, and what is written
  reads back, whatever follows it, as the same header with exactly the written bytes consumed.\<close>

theorem header_rewrite_lossless:
  assumes "header_decode_with_consumed bs = Inr (h, n)"
  shows "n \<le> length bs \<and> (\<exists>written h'. header_encode h = Inr written \<and> same_header h h' \<and>
    (\<forall>rest. header_decode_with_consumed (written @ rest) = Inr (h', length written)))"
proof -
  have "header_ok h" "n \<le> length bs" using decoded_header_ok [OF assms] by blast+
  with header_roundtrip show ?thesis by blast
qed

lemma header_rewrite_lossless_witness:
  "\<exists>bs h n written h'. header_decode_with_consumed bs = Inr (h, n) \<and>
     kh_unknown_fields h = [\<lparr>uh_id = 99, uh_data = [1, 2]\<rparr>] \<and> header_encode h = Inr written \<and>
     header_decode_with_consumed written = Inr (h', length written) \<and> same_header h h'"
proof -
  let ?h = "(new_header V4_1 Twofish)\<lparr>kh_unknown_fields := [\<lparr>uh_id = 99, uh_data = [1, 2]\<rparr>]\<rparr>"
  have "header_ok ?h"
    by (simp add: header_ok_def new_header_def unknown_ok_def known_header_ids_def fits_i32_small)
  from header_roundtrip [OF this] obtain bs h where bs: "header_decode_with_consumed (bs @ []) = Inr (h, length bs)"
    "same_header ?h h" by blast
  from header_rewrite_lossless [OF bs(1)] obtain written h' where "header_encode h = Inr written" "same_header h h'"
    "header_decode_with_consumed (written @ []) = Inr (h', length written)" by blast
  moreover have "kh_unknown_fields h = [\<lparr>uh_id = 99, uh_data = [1, 2]\<rparr>]" using bs(2) by (simp add: same_header_def)
  ultimately show ?thesis using bs(1) by auto
qed

section \<open>The KDBX 3 header\<close>

record kdbx3_header =
  k3_version :: kdbx_version
  k3_cipher :: kdbx_cipher
  k3_compression :: kdbx_compression
  k3_master_seed :: bytes
  k3_transform_seed :: bytes
  k3_transform_rounds :: u64
  k3_encryption_iv :: bytes
  k3_protected_stream_key :: bytes
  k3_stream_start_bytes :: bytes
  k3_inner_random_stream_id :: u32
  k3_unknown_fields :: "unknown_header_field list"

definition new_kdbx3_header :: "kdbx_version \<Rightarrow> kdbx3_header" where
  "new_kdbx3_header version =
     \<lparr>k3_version = version, k3_cipher = Aes256, k3_compression = Gzip, k3_master_seed = replicate 32 0,
      k3_transform_seed = replicate 32 0, k3_transform_rounds = 0, k3_encryption_iv = [],
      k3_protected_stream_key = [], k3_stream_start_bytes = [], k3_inner_random_stream_id = 0,
      k3_unknown_fields = []\<rparr>"

definition kdbx3_field :: "u8 \<Rightarrow> bytes \<Rightarrow> kdbx3_header \<Rightarrow> kdbx_error + kdbx3_header" where
  "kdbx3_field field_id data h =
     (if field_id = 2 then and_then (decode_cipher_field data) (\<lambda>c. Inr (h\<lparr>k3_cipher := c\<rparr>))
      else if field_id = 3 then and_then (decode_compression_field data) (\<lambda>c. Inr (h\<lparr>k3_compression := c\<rparr>))
      else if field_id = 4 then and_then (le_array 32 data) (\<lambda>a. Inr (h\<lparr>k3_master_seed := a\<rparr>))
      else if field_id = 5 then and_then (le_array 32 data) (\<lambda>a. Inr (h\<lparr>k3_transform_seed := a\<rparr>))
      else if field_id = 6 then and_then (le_array 8 data) (\<lambda>a. Inr (h\<lparr>k3_transform_rounds := word_from_le a\<rparr>))
      else if field_id = 7 then Inr (h\<lparr>k3_encryption_iv := data\<rparr>)
      else if field_id = 8 then Inr (h\<lparr>k3_protected_stream_key := data\<rparr>)
      else if field_id = 9 then Inr (h\<lparr>k3_stream_start_bytes := data\<rparr>)
      else if field_id = 10 then and_then (le_array 4 data) (\<lambda>a. Inr (h\<lparr>k3_inner_random_stream_id := word_from_le a\<rparr>))
      else Inr (h\<lparr>k3_unknown_fields := k3_unknown_fields h @ [\<lparr>uh_id = field_id, uh_data = data\<rparr>]\<rparr>))"

definition decode_kdbx3_header :: "bytes \<Rightarrow> kdbx_error + kdbx3_header \<times> nat" where
  "decode_kdbx3_header bs =
     and_then (read_u32 (new_cursor bs)) (\<lambda>(sig1, c1).
     and_then (read_u32 c1) (\<lambda>(sig2, c2).
       if sig1 \<noteq> signature_1 \<or> sig2 \<noteq> signature_2 then Inl InvalidValue
       else and_then (read_u32 c2) (\<lambda>(v, c3).
            and_then (u32_to_version v) (\<lambda>version.
              if version \<noteq> V2_0 \<and> version \<noteq> V3_0 \<and> version \<noteq> V3_1 then Inl UnsupportedVersion
              else and_then (field_loop False kdbx3_field c3 (new_kdbx3_header version)) (\<lambda>(h, c4).
                Inr (h, cu_position c4))))))"

definition detect_file_version :: "bytes \<Rightarrow> kdbx_error + kdbx_version" where
  "detect_file_version bs =
     and_then (read_u32 (new_cursor bs)) (\<lambda>(sig1, c1).
     and_then (read_u32 c1) (\<lambda>(sig2, c2).
       if sig1 \<noteq> signature_1 \<or> sig2 \<noteq> signature_2 then Inl InvalidValue
       else and_then (read_u32 c2) (\<lambda>(v, _). u32_to_version v)))"

record header_summary =
  hs_version :: kdbx_version
  hs_cipher :: kdbx_cipher
  hs_compression :: kdbx_compression
  hs_public_custom_data :: "(string, bytes) btree"

fun summary_bytes :: "string \<times> variant_value \<Rightarrow> (string \<times> bytes) option" where
  "summary_bytes (key, V_Bytes bs) = Some (key, bs)"
| "summary_bytes (key, v) = None"

definition inspect_kdbx_header :: "bytes \<Rightarrow> kdbx_error + header_summary" where
  "inspect_kdbx_header bs =
     and_then (detect_file_version bs) (\<lambda>version.
       if version = V2_0 \<or> version = V3_0 \<or> version = V3_1 then
         and_then (decode_kdbx3_header bs) (\<lambda>(h, _).
           Inr \<lparr>hs_version = k3_version h, hs_cipher = k3_cipher h, hs_compression = k3_compression h,
                hs_public_custom_data = []\<rparr>)
       else
         and_then (header_decode_with_consumed bs) (\<lambda>(h, _).
           Inr \<lparr>hs_version = kh_version h, hs_cipher = kh_cipher h, hs_compression = kh_compression h,
                hs_public_custom_data =
                  bt_of_list (List.map_filter summary_bytes (vd_items (kh_public_custom_data h)))\<rparr>))"

section \<open>The inner header\<close>

record inner_binary =
  ib_protect_in_memory :: bool
  ib_data :: attachment_content

text \<open>The pool of the parser: the contents it holds are alive, because the binaries read so far own them.\<close>

type_synonym inner_pool = "(content_id, attachment_content) btree"

definition intern_bytes :: "(bytes \<Rightarrow> content_id) \<Rightarrow> bytes \<Rightarrow> inner_pool \<Rightarrow> kdbx_error + attachment_content \<times> inner_pool" where
  "intern_bytes content_hash bs pool =
     (case bt_get pool (content_hash bs) of
        Some existing \<Rightarrow> if ac_bytes existing \<noteq> bs then Inl (ModelFailure AttachmentContentHashCollision)
                         else Inr (existing, pool)
      | None \<Rightarrow> (let content = \<lparr>ac_id = content_hash bs, ac_bytes = bs\<rparr>
                 in Inr (content, bt_insert (content_hash bs) content pool)))"

record inner_header =
  ih_algorithm :: u32
  ih_key :: "bytes option"
  ih_binaries :: "inner_binary list"
  ih_pool :: inner_pool

definition inner_header_start :: inner_header where
  "inner_header_start = \<lparr>ih_algorithm = 3, ih_key = None, ih_binaries = [], ih_pool = []\<rparr>"

definition inner_field :: "(bytes \<Rightarrow> content_id) \<Rightarrow> u8 \<Rightarrow> bytes \<Rightarrow> inner_header \<Rightarrow> kdbx_error + inner_header" where
  "inner_field content_hash field_id data h =
     (if field_id = 1 then
        and_then (le_array 4 data) (\<lambda>a.
          let h' = h\<lparr>ih_algorithm := word_from_le a\<rparr> in
          if ih_algorithm h' \<noteq> 2 \<and> ih_algorithm h' \<noteq> 3 then Inl UnsupportedInnerStream else Inr h')
      else if field_id = 2 then Inr (h\<lparr>ih_key := Some data\<rparr>)
      else if field_id = 3 then
        (case data of
           [] \<Rightarrow> Inl InvalidValue
         | flag # bs \<Rightarrow>
             if flag AND NOT 0x01 \<noteq> 0 then Inl InvalidValue
             else and_then (intern_bytes content_hash bs (ih_pool h)) (\<lambda>(content, pool).
               Inr (h\<lparr>ih_binaries := ih_binaries h @
                        [\<lparr>ib_protect_in_memory = (flag AND 0x01 = 0x01), ib_data = content\<rparr>],
                      ih_pool := pool\<rparr>)))
      else Inr h)"

definition parse_inner_header ::
    "(bytes \<Rightarrow> content_id) \<Rightarrow> bytes \<Rightarrow> kdbx_error + u32 \<times> bytes \<times> inner_binary list \<times> nat" where
  "parse_inner_header content_hash payload =
     and_then (field_loop True (inner_field content_hash) (new_cursor payload) inner_header_start) (\<lambda>(h, c).
     and_then (ok_or (ih_key h) InvalidValue) (\<lambda>key.
       Inr (ih_algorithm h, key, ih_binaries h, cu_position c)))"

definition binary_payload :: "inner_binary \<Rightarrow> bytes" where
  "binary_payload b = [if ib_protect_in_memory b then 0x01 else 0x00] @ ac_bytes (ib_data b)"

definition build_inner_header :: "bytes \<Rightarrow> inner_binary list \<Rightarrow> bytes" where
  "build_inner_header inner_key binaries =
     write_field 1 (i32_le (I32 3)) @ write_field 2 inner_key @
     concat (map (\<lambda>b. write_field 3 (binary_payload b)) binaries) @ write_field 0 []"

text \<open>The attachments a vault writes: every content carries its own digest, no two of them collide, and
  their payloads have lengths that survive the cast.\<close>

definition contents_ok :: "(bytes \<Rightarrow> content_id) \<Rightarrow> attachment_content set \<Rightarrow> bool" where
  "contents_ok content_hash S \<longleftrightarrow> (\<forall>c \<in> S. ac_id c = content_hash (ac_bytes c)) \<and>
     (\<forall>c \<in> S. \<forall>d \<in> S. content_hash (ac_bytes c) = content_hash (ac_bytes d) \<longrightarrow> ac_bytes c = ac_bytes d)"

definition binaries_ok :: "(bytes \<Rightarrow> content_id) \<Rightarrow> inner_binary list \<Rightarrow> bool" where
  "binaries_ok content_hash binaries \<longleftrightarrow> contents_ok content_hash (ib_data ` set binaries) \<and>
     (\<forall>b \<in> set binaries. fits_i32 (length (binary_payload b)))"

lemma inner_field_binary:
  assumes S: "contents_ok content_hash S" "ib_data b \<in> S"
    and pool: "\<forall>i c. bt_get (ih_pool h) i = Some c \<longrightarrow> c \<in> S \<and> i = ac_id c"
  shows "\<exists>pool. inner_field content_hash 3 (binary_payload b) h =
      Inr (h\<lparr>ih_binaries := ih_binaries h @ [b], ih_pool := pool\<rparr>) \<and>
    (\<forall>i c. bt_get pool i = Some c \<longrightarrow> c \<in> S \<and> i = ac_id c)"
proof -
  have id: "ac_id (ib_data b) = content_hash (ac_bytes (ib_data b))"
    using S by (auto simp: contents_ok_def)
  have same: "c = ib_data b" if "bt_get (ih_pool h) (content_hash (ac_bytes (ib_data b))) = Some c" for c
  proof -
    from that pool have c: "c \<in> S" "ac_id c = ac_id (ib_data b)" by (auto simp: id)
    with S have "ac_bytes c = ac_bytes (ib_data b)" unfolding contents_ok_def by metis
    with c(2) show ?thesis by (intro attachment_content.equality) simp_all
  qed
  have new: "\<lparr>ac_id = content_hash (ac_bytes (ib_data b)), ac_bytes = ac_bytes (ib_data b)\<rparr> = ib_data b"
    by (intro attachment_content.equality) (simp_all add: id)
  have "\<exists>pool. intern_bytes content_hash (ac_bytes (ib_data b)) (ih_pool h) = Inr (ib_data b, pool) \<and>
      (\<forall>i c. bt_get pool i = Some c \<longrightarrow> c \<in> S \<and> i = ac_id c)"
    using same pool S(2)
    by (auto simp: intern_bytes_def new Let_def id split: option.split)
  then obtain pool' where p: "intern_bytes content_hash (ac_bytes (ib_data b)) (ih_pool h) = Inr (ib_data b, pool')"
    and inv: "\<forall>i c. bt_get pool' i = Some c \<longrightarrow> c \<in> S \<and> i = ac_id c" by blast
  have "inner_field content_hash 3 (binary_payload b) h =
      Inr (h\<lparr>ih_binaries := ih_binaries h @ [b], ih_pool := pool'\<rparr>)"
    using p by (cases b) (simp add: inner_field_def binary_payload_def)
  with inv show ?thesis by blast
qed

lemma apply_binaries:
  assumes "contents_ok content_hash S"
  shows "ib_data ` set bs \<subseteq> S \<Longrightarrow> \<forall>i c. bt_get (ih_pool h) i = Some c \<longrightarrow> c \<in> S \<and> i = ac_id c \<Longrightarrow>
    \<exists>pool. apply_fields (inner_field content_hash) h (map (\<lambda>b. (3, binary_payload b)) bs) =
      Inr (h\<lparr>ih_binaries := ih_binaries h @ bs, ih_pool := pool\<rparr>)"
proof (induction bs arbitrary: h)
  case Nil
  show ?case by (intro exI [of _ "ih_pool h"]) simp
next
  case (Cons b bs)
  have "ib_data b \<in> S" using Cons.prems(1) by simp
  from inner_field_binary [OF assms this Cons.prems(2)] obtain pool where
    step: "inner_field content_hash 3 (binary_payload b) h =
      Inr (h\<lparr>ih_binaries := ih_binaries h @ [b], ih_pool := pool\<rparr>)"
    and inv: "\<forall>i c. bt_get pool i = Some c \<longrightarrow> c \<in> S \<and> i = ac_id c" by blast
  have "\<exists>pool'. apply_fields (inner_field content_hash) (h\<lparr>ih_binaries := ih_binaries h @ [b], ih_pool := pool\<rparr>)
      (map (\<lambda>b. (3, binary_payload b)) bs) =
      Inr (h\<lparr>ih_binaries := ih_binaries h @ [b] @ bs, ih_pool := pool'\<rparr>)"
    using Cons.IH [of "h\<lparr>ih_binaries := ih_binaries h @ [b], ih_pool := pool\<rparr>"] Cons.prems(1) inv by simp
  with step show ?case by simp
qed

lemma inner_header_roundtrip:
  assumes "binaries_ok content_hash binaries" and "fits_i32 (length inner_key)"
  shows "parse_inner_header content_hash (build_inner_header inner_key binaries @ rest) =
    Inr (3, inner_key, binaries, length (build_inner_header inner_key binaries))"
proof -
  let ?fds = "[(1, i32_le (I32 3)), (2, inner_key)] @ map (\<lambda>b. (3, binary_payload b)) binaries"
  let ?start = "inner_header_start\<lparr>ih_key := Some inner_key\<rparr>"
  have "build_inner_header inner_key binaries =
      concat (map (wire_field True) ?fds) @ wire_field True (0, [])"
    by (simp add: build_inner_header_def write_sized_field comp_def)
  moreover have "list_all (field_ok True) ?fds"
    using assms by (auto simp: binaries_ok_def list_all_iff fits_i32_small)
  moreover obtain pool where "apply_fields (inner_field content_hash) ?start (map (\<lambda>b. (3, binary_payload b)) binaries) =
      Inr (?start\<lparr>ih_binaries := ih_binaries ?start @ binaries, ih_pool := pool\<rparr>)"
    using apply_binaries [of content_hash "ib_data ` set binaries" binaries ?start] assms(1)
    by (auto simp: binaries_ok_def inner_header_start_def)
  then have "apply_fields (inner_field content_hash) inner_header_start ?fds =
      Inr (?start\<lparr>ih_binaries := binaries, ih_pool := pool\<rparr>)"
    by (simp add: inner_field_def le_array_def i32_le_def inner_header_start_def)
  ultimately show ?thesis
    using field_loop_complete [of True ?fds "[]" "inner_field content_hash" inner_header_start _ "[]" rest]
    by (simp add: parse_inner_header_def new_cursor_at inner_header_start_def)
qed

end
