(* ===== verification/Blocks.thy ===== *)
theory Blocks
  imports Headers
begin

text \<open>
  Authenticated payloads (\<^verbatim>\<open>crates/vaultkern-kdbx/src/lib.rs\<close>): the keys derived from the master seed and
  the transformed key, the HMAC block stream of KDBX 4, the hashed block stream of KDBX 3, payload
  encryption and the stream that protects values inside the XML. The primitives of the crypto crate's
  dependencies are the fields of \<open>kdbx_deps\<close>.
\<close>

section \<open>Dependencies\<close>

text \<open>CBC with PKCS#7 padding (\<open>encrypt_padded_mut\<close> and \<open>decrypt_padded_mut\<close>), key streams byte by byte,
  and gzip, beside the dependencies of the crypto crate.\<close>

datatype cbc_block = Block_Aes256 | Block_Twofish

record kdbx_deps =
  kd_crypto :: crypto_deps
  kd_sha512 :: "bytes \<Rightarrow> bytes"
  kd_cbc_encrypt :: "cbc_block \<Rightarrow> bytes \<Rightarrow> bytes \<Rightarrow> bytes \<Rightarrow> bytes option"
  kd_cbc_decrypt :: "cbc_block \<Rightarrow> bytes \<Rightarrow> bytes \<Rightarrow> bytes \<Rightarrow> bytes option"
  kd_chacha20 :: "bytes \<Rightarrow> bytes \<Rightarrow> nat \<Rightarrow> u8"
  kd_salsa20 :: "bytes \<Rightarrow> bytes \<Rightarrow> nat \<Rightarrow> u8"
  kd_gzip :: "bytes \<Rightarrow> bytes option"
  kd_gunzip :: "bytes \<Rightarrow> bytes option"

definition sha256_bytes :: "kdbx_deps \<Rightarrow> bytes \<Rightarrow> bytes" where
  "sha256_bytes deps = dep_sha256 (kd_crypto deps)"

definition hmac_sha256 :: "kdbx_deps \<Rightarrow> bytes \<Rightarrow> bytes \<Rightarrow> crypto_error + bytes" where
  "hmac_sha256 deps key data = ok_or (dep_hmac (kd_crypto deps) OtpSha256 key data) InvalidCipherParameters"

text \<open>\<open>KdbxError::from\<close>.\<close>

definition from_crypto :: "crypto_error + 'a \<Rightarrow> kdbx_error + 'a" where
  "from_crypto r = (case r of Inl e \<Rightarrow> Inl (CryptoFailure e) | Inr x \<Rightarrow> Inr x)"

lemma from_crypto_simps [simp]: "from_crypto (Inl e) = Inl (CryptoFailure e)" "from_crypto (Inr x) = Inr x"
  by (simp_all add: from_crypto_def)

lemma from_crypto_Inr: "from_crypto r = Inr x \<longleftrightarrow> r = Inr x"
  by (cases r) simp_all

section \<open>Derived keys\<close>

definition block_hmac_key :: "kdbx_deps \<Rightarrow> bytes \<Rightarrow> u64 \<Rightarrow> bytes" where
  "block_hmac_key deps seed index = kd_sha512 deps (u64_le index @ seed)"

definition header_hmac :: "kdbx_deps \<Rightarrow> bytes \<Rightarrow> bytes \<Rightarrow> kdbx_error + bytes" where
  "header_hmac deps seed header_bytes =
     (let key = kd_sha512 deps (rev (replicate 8 0xFF) @ seed)
      in from_crypto (hmac_sha256 deps key header_bytes))"

definition mac_seed :: "kdbx_deps \<Rightarrow> bytes \<Rightarrow> bytes \<Rightarrow> bytes" where
  "mac_seed deps master_seed transformed = kd_sha512 deps (master_seed @ transformed @ [0x01])"

definition sha256_seeded :: "kdbx_deps \<Rightarrow> bytes \<Rightarrow> bytes \<Rightarrow> bytes" where
  "sha256_seeded deps master_seed transformed = sha256_bytes deps (master_seed @ transformed)"

definition derive_chacha20_inner_stream_key :: "kdbx_deps \<Rightarrow> bytes \<Rightarrow> kdbx_error + bytes \<times> bytes" where
  "derive_chacha20_inner_stream_key deps inner_key =
     (if length inner_key < 32 then Inl InvalidValue
      else (let digest = kd_sha512 deps inner_key in Inr (take 32 digest, take 12 (drop 32 digest))))"

definition derive_salsa20_inner_stream_key :: "kdbx_deps \<Rightarrow> bytes \<Rightarrow> bytes" where
  "derive_salsa20_inner_stream_key deps inner_key = sha256_bytes deps inner_key"

section \<open>The protected stream\<close>

text \<open>A stream cipher is its key stream and the number of bytes already used.\<close>

datatype stream_cipher = Plain | Keyed "nat \<Rightarrow> u8"

record protected_stream =
  pst_cipher :: stream_cipher
  pst_position :: nat

definition from_stream :: "kdbx_deps \<Rightarrow> u32 \<Rightarrow> bytes \<Rightarrow> kdbx_error + protected_stream" where
  "from_stream deps stream_id inner_key =
     (if stream_id = 0 then Inr \<lparr>pst_cipher = Plain, pst_position = 0\<rparr>
      else if stream_id = 2 then
        Inr \<lparr>pst_cipher = Keyed (kd_salsa20 deps (derive_salsa20_inner_stream_key deps inner_key)
               [0xE8, 0x30, 0x09, 0x4B, 0x97, 0x20, 0x5D, 0x2A]), pst_position = 0\<rparr>
      else if stream_id = 3 then
        and_then (derive_chacha20_inner_stream_key deps inner_key) (\<lambda>(key, nonce).
          Inr \<lparr>pst_cipher = Keyed (kd_chacha20 deps key nonce), pst_position = 0\<rparr>)
      else Inl UnsupportedInnerStream)"

definition apply_keystream :: "(nat \<Rightarrow> u8) \<Rightarrow> nat \<Rightarrow> bytes \<Rightarrow> bytes" where
  "apply_keystream ks position bs = map2 (XOR) bs (map ks [position ..< position + length bs])"

definition apply_stream :: "protected_stream \<Rightarrow> bytes \<Rightarrow> bytes \<times> protected_stream" where
  "apply_stream s bs =
     (case pst_cipher s of
        Plain \<Rightarrow> (bs, s)
      | Keyed ks \<Rightarrow> (apply_keystream ks (pst_position s) bs, s\<lparr>pst_position := pst_position s + length bs\<rparr>))"

lemma length_apply_keystream [simp]: "length (apply_keystream ks n bs) = length bs"
  by (simp add: apply_keystream_def)

lemma apply_keystream_twice [simp]: "apply_keystream ks n (apply_keystream ks n bs) = bs"
proof (rule nth_equalityI)
  fix i assume "i < length (apply_keystream ks n (apply_keystream ks n bs))"
  then show "apply_keystream ks n (apply_keystream ks n bs) ! i = bs ! i"
    by (simp add: apply_keystream_def xor.assoc)
qed simp

text \<open>Values are unprotected by the stream that protected them, in the same order.\<close>

fun apply_all :: "protected_stream \<Rightarrow> bytes list \<Rightarrow> bytes list" where
  "apply_all s [] = []"
| "apply_all s (v # vs) = (let (w, s') = apply_stream s v in w # apply_all s' vs)"

lemma protected_values_roundtrip: "apply_all s (apply_all s vs) = vs"
proof (induction vs arbitrary: s)
  case (Cons v vs)
  then show ?case by (cases "pst_cipher s") (simp_all add: apply_stream_def)
qed simp

section \<open>Payload encryption\<close>

definition iv_array :: "nat \<Rightarrow> bytes \<Rightarrow> kdbx_error + bytes" where
  "iv_array n iv = le_array n iv"

definition encrypt_payload :: "kdbx_deps \<Rightarrow> kdbx_cipher \<Rightarrow> bytes \<Rightarrow> bytes \<Rightarrow> bytes \<Rightarrow> kdbx_error + bytes" where
  "encrypt_payload deps cipher key iv payload =
     (case cipher of
        Aes256 \<Rightarrow> and_then (iv_array 16 iv) (\<lambda>iv.
          from_crypto (ok_or (kd_cbc_encrypt deps Block_Aes256 key iv payload) InvalidCipherParameters))
      | Twofish \<Rightarrow> and_then (iv_array 16 iv) (\<lambda>iv.
          from_crypto (ok_or (kd_cbc_encrypt deps Block_Twofish key iv payload) InvalidCipherParameters))
      | ChaCha20 \<Rightarrow> and_then (iv_array 12 iv) (\<lambda>iv. Inr (apply_keystream (kd_chacha20 deps key iv) 0 payload)))"

definition decrypt_payload :: "kdbx_deps \<Rightarrow> kdbx_cipher \<Rightarrow> bytes \<Rightarrow> bytes \<Rightarrow> bytes \<Rightarrow> kdbx_error + bytes" where
  "decrypt_payload deps cipher key iv payload =
     (case cipher of
        Aes256 \<Rightarrow> and_then (iv_array 16 iv) (\<lambda>iv.
          from_crypto (ok_or (kd_cbc_decrypt deps Block_Aes256 key iv payload) DecryptionFailed))
      | Twofish \<Rightarrow> and_then (iv_array 16 iv) (\<lambda>iv.
          from_crypto (ok_or (kd_cbc_decrypt deps Block_Twofish key iv payload) DecryptionFailed))
      | ChaCha20 \<Rightarrow> and_then (iv_array 12 iv) (\<lambda>iv. Inr (apply_keystream (kd_chacha20 deps key iv) 0 payload)))"

definition gzip_compress :: "kdbx_deps \<Rightarrow> bytes \<Rightarrow> kdbx_error + bytes" where
  "gzip_compress deps bs = ok_or (kd_gzip deps bs) InvalidValue"

definition gzip_decompress :: "kdbx_deps \<Rightarrow> bytes \<Rightarrow> kdbx_error + bytes" where
  "gzip_decompress deps bs = ok_or (kd_gunzip deps bs) InvalidValue"

text \<open>What the code relies on: digests and MACs have 32 bytes, HMAC takes any key, padded CBC and gzip are
  total and inverted by their counterparts.\<close>

definition deps_ok :: "kdbx_deps \<Rightarrow> bool" where
  "deps_ok deps \<longleftrightarrow>
     (\<forall>bs. length (sha256_bytes deps bs) = 32) \<and>
     (\<forall>key bs. \<exists>mac. dep_hmac (kd_crypto deps) OtpSha256 key bs = Some mac \<and> length mac = 32) \<and>
     (\<forall>block key iv bs. \<exists>ct. kd_cbc_encrypt deps block key iv bs = Some ct \<and> kd_cbc_decrypt deps block key iv ct = Some bs) \<and>
     (\<forall>bs. \<exists>z. kd_gzip deps bs = Some z \<and> kd_gunzip deps z = Some bs)"

lemma deps_sha256: "deps_ok deps \<Longrightarrow> length (sha256_bytes deps bs) = 32"
  and deps_hmac: "deps_ok deps \<Longrightarrow> \<exists>mac. dep_hmac (kd_crypto deps) OtpSha256 key bs = Some mac \<and> length mac = 32"
  and deps_cbc: "deps_ok deps \<Longrightarrow>
    \<exists>ct. kd_cbc_encrypt deps block key iv bs = Some ct \<and> kd_cbc_decrypt deps block key iv ct = Some bs"
  and deps_gzip: "deps_ok deps \<Longrightarrow> \<exists>z. kd_gzip deps bs = Some z \<and> kd_gunzip deps z = Some bs"
  unfolding deps_ok_def by blast+

definition iv_ok :: "kdbx_cipher \<Rightarrow> bytes \<Rightarrow> bool" where
  "iv_ok cipher iv \<longleftrightarrow> length iv = (case cipher of ChaCha20 \<Rightarrow> 12 | _ \<Rightarrow> 16)"

lemma payload_roundtrip:
  assumes "deps_ok deps" and "iv_ok cipher iv"
  shows "\<exists>ct. encrypt_payload deps cipher key iv bs = Inr ct \<and> decrypt_payload deps cipher key iv ct = Inr bs"
proof (cases cipher)
  case Aes256
  obtain ct where "kd_cbc_encrypt deps Block_Aes256 key iv bs = Some ct" "kd_cbc_decrypt deps Block_Aes256 key iv ct = Some bs"
    using deps_cbc [OF assms(1)] by blast
  with Aes256 assms(2) show ?thesis
    by (simp add: encrypt_payload_def decrypt_payload_def iv_array_def le_array_def iv_ok_def)
next
  case Twofish
  obtain ct where "kd_cbc_encrypt deps Block_Twofish key iv bs = Some ct" "kd_cbc_decrypt deps Block_Twofish key iv ct = Some bs"
    using deps_cbc [OF assms(1)] by blast
  with Twofish assms(2) show ?thesis
    by (simp add: encrypt_payload_def decrypt_payload_def iv_array_def le_array_def iv_ok_def)
next
  case ChaCha20
  with assms(2) show ?thesis
    by (simp add: encrypt_payload_def decrypt_payload_def iv_array_def le_array_def iv_ok_def)
qed

section \<open>The block stream of KDBX 4\<close>

text \<open>The MAC of a block covers its index, its size and its bytes.\<close>

definition block_mac :: "kdbx_deps \<Rightarrow> bytes \<Rightarrow> u64 \<Rightarrow> i32 \<Rightarrow> bytes \<Rightarrow> kdbx_error + bytes" where
  "block_mac deps seed index blen chunk =
     from_crypto (hmac_sha256 deps (block_hmac_key deps seed index) (u64_le index @ i32_le blen @ chunk))"

function chunks :: "nat \<Rightarrow> bytes \<Rightarrow> bytes list" where
  "chunks n bs = (if bs = [] \<or> n = 0 then [] else take n bs # chunks n (drop n bs))"
  by pat_completeness auto
termination by (relation "measure (\<lambda>(n, bs). length bs)") auto

declare chunks.simps [simp del]

definition block_size :: nat where "block_size = 1024 * 1024"

fun encode_blocks :: "kdbx_deps \<Rightarrow> bytes \<Rightarrow> u64 \<Rightarrow> bytes list \<Rightarrow> kdbx_error + bytes" where
  "encode_blocks deps seed index [] = Inr []"
| "encode_blocks deps seed index (chunk # rest) =
     and_then (block_mac deps seed index (i32_of_usize (length chunk)) chunk) (\<lambda>mac.
     and_then (encode_blocks deps seed (index + 1) rest) (\<lambda>more.
       Inr (mac @ i32_le (i32_of_usize (length chunk)) @ chunk @ more)))"

definition encode_block_stream :: "kdbx_deps \<Rightarrow> bytes \<Rightarrow> bytes \<Rightarrow> kdbx_error + bytes" where
  "encode_block_stream deps seed payload =
     and_then (encode_blocks deps seed 0 (chunks block_size payload)) (\<lambda>bs.
     and_then (block_mac deps seed (of_nat (length (chunks block_size payload))) (I32 0) []) (\<lambda>mac.
       Inr (bs @ mac @ i32_le (I32 0))))"

text \<open>The index never wraps: a file has fewer than \<open>2 ^ 64\<close> bytes.\<close>

function decode_block_loop :: "kdbx_deps \<Rightarrow> bytes \<Rightarrow> cursor \<Rightarrow> u64 \<Rightarrow> bytes \<Rightarrow> kdbx_error + bytes" where
  "decode_block_loop deps seed c index plaintext =
     and_then (read_exact 32 c) (\<lambda>(mac, c1).
     and_then (read_i32 c1) (\<lambda>(blen, c2).
       if blen < I32 0 then Inl InvalidValue
       else and_then (read_exact (usize_of_i32 blen) c2) (\<lambda>(chunk, c3).
            and_then (block_mac deps seed index blen chunk) (\<lambda>expected.
              if expected \<noteq> mac then Inl PayloadHmacMismatch
              else if blen = I32 0 then Inr plaintext
              else decode_block_loop deps seed c3 (index + 1) (plaintext @ chunk)))))"
  by pat_completeness auto
termination
  by (relation "measure (\<lambda>(deps, seed, c, index, plaintext). remaining c)")
     (auto simp: read_i32_def and_then_eq_Inr dest!: read_exact_remaining)

declare decode_block_loop.simps [simp del]

definition decode_block_stream :: "kdbx_deps \<Rightarrow> bytes \<Rightarrow> bytes \<Rightarrow> kdbx_error + bytes" where
  "decode_block_stream deps seed bs = decode_block_loop deps seed (new_cursor bs) 0 []"

text \<open>The hashed blocks of KDBX 3, with a saturating index.\<close>

function decode_legacy_loop :: "kdbx_deps \<Rightarrow> cursor \<Rightarrow> u32 \<Rightarrow> bytes \<Rightarrow> kdbx_error + bytes" where
  "decode_legacy_loop deps c index plaintext =
     and_then (read_u32 c) (\<lambda>(block_index, c1).
     and_then (read_exact 32 c1) (\<lambda>(block_hash, c2).
     and_then (read_u32 c2) (\<lambda>(blen, c3).
       if block_index \<noteq> index then Inl InvalidValue
       else if blen = 0 then Inr plaintext
       else and_then (read_exact (unat blen) c3) (\<lambda>(block, c4).
              if sha256_bytes deps block \<noteq> block_hash then Inl PayloadHashMismatch
              else decode_legacy_loop deps c4 (if index = - 1 then index else index + 1) (plaintext @ block)))))"
  by pat_completeness auto
termination
  by (relation "measure (\<lambda>(deps, c, index, plaintext). remaining c)")
     (auto simp: read_u32_def and_then_eq_Inr dest!: read_exact_remaining)

declare decode_legacy_loop.simps [simp del]

definition decode_legacy_block_stream :: "kdbx_deps \<Rightarrow> bytes \<Rightarrow> kdbx_error + bytes" where
  "decode_legacy_block_stream deps bs = decode_legacy_loop deps (new_cursor bs) 0 []"

section \<open>What the block stream accepts\<close>

text \<open>Blocks as they must lie in a file, closed by an empty block.\<close>

fun framed :: "kdbx_deps \<Rightarrow> bytes \<Rightarrow> u64 \<Rightarrow> bytes list \<Rightarrow> kdbx_error + bytes" where
  "framed deps seed index [] =
     and_then (block_mac deps seed index (I32 0) []) (\<lambda>mac. Inr (mac @ i32_le (I32 0)))"
| "framed deps seed index (chunk # rest) =
     and_then (block_mac deps seed index (i32_of_usize (length chunk)) chunk) (\<lambda>mac.
     and_then (framed deps seed (index + 1) rest) (\<lambda>more.
       Inr (mac @ i32_le (i32_of_usize (length chunk)) @ chunk @ more)))"

definition chunk_ok :: "bytes \<Rightarrow> bool" where
  "chunk_ok chunk \<longleftrightarrow> chunk \<noteq> [] \<and> length chunk < 2 ^ 31"

lemma and_then_assoc: "and_then (and_then r f) g = and_then r (\<lambda>x. and_then (f x) g)"
  by (cases r) simp_all

lemma encode_blocks_framed:
  "and_then (encode_blocks deps seed index cs) (\<lambda>bs.
     and_then (block_mac deps seed (index + of_nat (length cs)) (I32 0) []) (\<lambda>mac. Inr (bs @ mac @ i32_le (I32 0)))) =
   framed deps seed index cs"
proof (induction cs arbitrary: index)
  case (Cons c cs)
  show ?case
    using Cons [of "index + 1", symmetric] by (simp add: and_then_assoc add.assoc)
qed simp

lemma concat_chunks: "0 < n \<Longrightarrow> concat (chunks n bs) = bs"
proof (induction n bs rule: chunks.induct)
  case (1 n bs)
  then show ?case by (subst chunks.simps) simp
qed

lemma chunks_ok: "0 < n \<Longrightarrow> n < 2 ^ 31 \<Longrightarrow> list_all chunk_ok (chunks n bs)"
proof (induction n bs rule: chunks.induct)
  case (1 n bs)
  show ?case
  proof (cases "bs = []")
    case False
    with 1 have "list_all chunk_ok (chunks n (drop n bs))" by simp
    with False 1(2,3) show ?thesis by (subst chunks.simps) (simp add: chunk_ok_def)
  qed (simp add: chunks.simps)
qed

lemma encode_block_stream_framed:
  "encode_block_stream deps seed payload = framed deps seed 0 (chunks block_size payload)"
  using encode_blocks_framed [of deps seed 0 "chunks block_size payload"] by (simp add: encode_block_stream_def)

lemma framed_total:
  assumes "deps_ok deps"
  shows "\<exists>bs. framed deps seed index cs = Inr bs"
proof (induction cs arbitrary: index)
  have mac: "\<exists>mac. block_mac deps seed i n chunk = Inr mac" for i n chunk
  proof -
    obtain m where "dep_hmac (kd_crypto deps) OtpSha256 (block_hmac_key deps seed i) (u64_le i @ i32_le n @ chunk) = Some m"
      using deps_hmac [OF assms] by blast
    then show ?thesis by (simp add: block_mac_def hmac_sha256_def)
  qed
  {
    case Nil
    show ?case using mac by (auto simp: and_then_eq_Inr)
  next
    case (Cons c cs)
    obtain m more where "block_mac deps seed index (i32_of_usize (length c)) c = Inr m"
      "framed deps seed (index + 1) cs = Inr more" using mac Cons.IH by blast
    then show ?case by simp
  }
qed

lemma block_mac_length:
  assumes "deps_ok deps" and "block_mac deps seed i n chunk = Inr mac"
  shows "length mac = 32"
proof -
  obtain m where "dep_hmac (kd_crypto deps) OtpSha256 (block_hmac_key deps seed i) (u64_le i @ i32_le n @ chunk) = Some m"
    "length m = 32" using deps_hmac [OF assms(1)] by blast
  with assms(2) show ?thesis by (simp add: block_mac_def hmac_sha256_def)
qed

text \<open>A size that is not negative is the length of a chunk.\<close>

lemma size_of_chunk:
  assumes "\<not> n < I32 0" and "length chunk = usize_of_i32 n"
  shows "n = i32_of_usize (length chunk)" and "length chunk < 2 ^ 31" and "n = I32 0 \<longleftrightarrow> chunk = []"
proof -
  show n: "n = i32_of_usize (length chunk)" by (simp add: assms(2) i32_of_usize_back)
  obtain w where w: "n = I32 w" by (cases n)
  then have nonneg: "0 \<le> sint w" using assms(1) by (simp add: less_i32_def)
  moreover have "sint w < 2 ^ 31" using sint_lt [of w] by simp
  ultimately have len: "int (length chunk) = sint w" using assms(2) w by (simp add: usize_of_i32_def)
  then show "length chunk < 2 ^ 31" using \<open>sint w < 2 ^ 31\<close> by simp
  have "sint w = 0 \<longleftrightarrow> w = 0" using sint_inj [of w 0] by auto
  then show "n = I32 0 \<longleftrightarrow> chunk = []" using len w by (metis i32.inject length_0_conv of_nat_0 of_nat_eq_0_iff)
qed

lemma chunk_size:
  assumes "length chunk < 2 ^ 31"
  shows "\<not> i32_of_usize (length chunk) < I32 0" and "usize_of_i32 (i32_of_usize (length chunk)) = length chunk"
proof -
  show "usize_of_i32 (i32_of_usize (length chunk)) = length chunk"
    using fits_i32_small [OF assms] by (simp add: fits_i32_def)
  have "sint (word_of_int (int (length chunk)) :: u32) = int (length chunk)"
    by (subst int_word_sint) (use assms in simp)
  then show "\<not> i32_of_usize (length chunk) < I32 0"
    by (simp only: i32_of_usize_def less_i32_def i32.sel) simp
qed

lemma decode_loop_sound:
  "decode_block_loop deps seed (cursor_at pre rest) index acc = Inr out \<Longrightarrow>
   \<exists>cs enc post. list_all chunk_ok cs \<and> framed deps seed index cs = Inr enc \<and> rest = enc @ post \<and> out = acc @ concat cs"
proof (induction "length rest" arbitrary: pre rest index acc rule: less_induct)
  case less
  from less.prems obtain mac c1 n c2 chunk c3 where
    m: "read_exact 32 (cursor_at pre rest) = Inr (mac, c1)" and n: "read_i32 c1 = Inr (n, c2)"
    and nonneg: "\<not> n < I32 0" and c: "read_exact (usize_of_i32 n) c2 = Inr (chunk, c3)"
    and ok: "block_mac deps seed index n chunk = Inr mac"
    and r: "(if n = I32 0 then Inr acc else decode_block_loop deps seed c3 (index + 1) (acc @ chunk)) = Inr out"
    by (subst (asm) decode_block_loop.simps) (auto simp: and_then_eq_Inr split: if_split_asm)
  from m obtain rest1 where rest1: "rest = mac @ rest1" "c1 = cursor_at (pre @ mac) rest1" "length mac = 32"
    by (auto simp: read_exact_iff)
  from n rest1(2) obtain rest2 where rest2: "rest1 = i32_le n @ rest2" "c2 = cursor_at ((pre @ mac) @ i32_le n) rest2"
    by (auto simp: ri32.read_iff)
  from c rest2(2) obtain rest3 where rest3: "length chunk = usize_of_i32 n" "rest2 = chunk @ rest3"
    "c3 = cursor_at (((pre @ mac) @ i32_le n) @ chunk) rest3"
    by (auto simp: read_exact_iff)
  note size = size_of_chunk [OF nonneg rest3(1)]
  show ?case
  proof (cases "n = I32 0")
    case True
    with r ok rest1 rest2 rest3 size(3) show ?thesis
      by (intro exI [of _ "[]"] exI [of _ "mac @ i32_le (I32 0)"] exI [of _ rest3]) simp
  next
    case False
    with r have loop: "decode_block_loop deps seed c3 (index + 1) (acc @ chunk) = Inr out" by simp
    have "length rest3 < length rest" using rest1(1) rest2(1) rest3(2) by simp
    from less.hyps [OF this loop [unfolded rest3(3)]] obtain cs enc post where
      "list_all chunk_ok cs" "framed deps seed (index + 1) cs = Inr enc" "rest3 = enc @ post"
      "out = (acc @ chunk) @ concat cs" by blast
    moreover have "chunk_ok chunk" using size(2,3) False by (simp add: chunk_ok_def)
    moreover have "framed deps seed index (chunk # cs) = Inr (mac @ i32_le n @ chunk @ enc)"
      using calculation(2) ok by (simp only: framed.simps size(1) [symmetric] and_then.simps)
    ultimately show ?thesis
      using rest1(1) rest2(1) rest3(2)
      by (intro exI [of _ "chunk # cs"] exI [of _ "mac @ i32_le n @ chunk @ enc"] exI [of _ post]) simp
  qed
qed

lemma decode_loop_complete:
  assumes "deps_ok deps"
  shows "list_all chunk_ok cs \<Longrightarrow> framed deps seed index cs = Inr enc \<Longrightarrow>
    decode_block_loop deps seed (cursor_at pre (enc @ post)) index acc = Inr (acc @ concat cs)"
proof (induction cs arbitrary: index enc pre acc)
  case Nil
  then obtain mac where mac: "block_mac deps seed index (I32 0) [] = Inr mac" "enc = mac @ i32_le (I32 0)"
    by (auto simp: and_then_eq_Inr)
  have len: "length mac = 32" by (rule block_mac_length [OF assms mac(1)])
  have "read_exact 32 (cursor_at pre (mac @ i32_le (I32 0) @ post)) = Inr (mac, cursor_at (pre @ mac) (i32_le (I32 0) @ post))"
    by (rule raw.read_written) (rule len)
  moreover have "read_i32 (cursor_at (pre @ mac) (i32_le (I32 0) @ post)) =
      Inr (I32 0, cursor_at ((pre @ mac) @ i32_le (I32 0)) post)" by (rule ri32.read_written) simp
  moreover have "read_exact 0 (cursor_at ((pre @ mac) @ i32_le (I32 0)) ([] @ post)) =
      Inr ([], cursor_at (((pre @ mac) @ i32_le (I32 0)) @ []) post)" by (rule raw.read_written) simp
  ultimately show ?case
    using mac by (subst decode_block_loop.simps) (simp add: usize_of_i32_def)
next
  case (Cons chunk cs)
  let ?n = "i32_of_usize (length chunk)"
  from Cons.prems obtain mac more where mac: "block_mac deps seed index ?n chunk = Inr mac"
    "framed deps seed (index + 1) cs = Inr more" "enc = mac @ i32_le ?n @ chunk @ more"
    by (auto simp: and_then_eq_Inr)
  have len: "length mac = 32" by (rule block_mac_length [OF assms mac(1)])
  have chunk: "chunk \<noteq> []" "length chunk < 2 ^ 31" using Cons.prems(1) by (simp_all add: chunk_ok_def)
  note size = chunk_size [OF chunk(2)]
  have nonzero: "?n \<noteq> I32 0" using size_of_chunk(3) [of ?n chunk] size chunk(1) by simp
  let ?p1 = "pre @ mac" and ?p2 = "(pre @ mac) @ i32_le ?n"
  have "read_exact 32 (cursor_at pre (mac @ i32_le ?n @ chunk @ more @ post)) =
      Inr (mac, cursor_at ?p1 (i32_le ?n @ chunk @ more @ post))" by (rule raw.read_written) (rule len)
  moreover have "read_i32 (cursor_at ?p1 (i32_le ?n @ chunk @ more @ post)) =
      Inr (?n, cursor_at ?p2 (chunk @ more @ post))" by (rule ri32.read_written) simp
  moreover have "read_exact (length chunk) (cursor_at ?p2 (chunk @ more @ post)) =
      Inr (chunk, cursor_at (?p2 @ chunk) (more @ post))" by (rule raw.read_written) simp
  ultimately have "decode_block_loop deps seed (cursor_at pre (enc @ post)) index acc =
      decode_block_loop deps seed (cursor_at (?p2 @ chunk) (more @ post)) (index + 1) (acc @ chunk)"
    using mac size nonzero by (subst decode_block_loop.simps) simp
  also have "\<dots> = Inr ((acc @ chunk) @ concat cs)"
    by (rule Cons.IH) (use Cons.prems(1) mac(2) in simp_all)
  finally show ?case by simp
qed

lemma decode_block_stream_iff:
  assumes "deps_ok deps"
  shows "decode_block_stream deps seed bs = Inr p \<longleftrightarrow>
    (\<exists>cs enc rest. list_all chunk_ok cs \<and> framed deps seed 0 cs = Inr enc \<and> bs = enc @ rest \<and> p = concat cs)"
proof
  assume "decode_block_stream deps seed bs = Inr p"
  then have "decode_block_loop deps seed (cursor_at [] bs) 0 [] = Inr p"
    by (simp add: decode_block_stream_def new_cursor_at)
  from decode_loop_sound [OF this] show "\<exists>cs enc rest. list_all chunk_ok cs \<and> framed deps seed 0 cs = Inr enc \<and>
      bs = enc @ rest \<and> p = concat cs" by simp
next
  assume "\<exists>cs enc rest. list_all chunk_ok cs \<and> framed deps seed 0 cs = Inr enc \<and> bs = enc @ rest \<and> p = concat cs"
  then obtain cs enc rest where "list_all chunk_ok cs" "framed deps seed 0 cs = Inr enc" "bs = enc @ rest" "p = concat cs"
    by blast
  with decode_loop_complete [OF assms, of cs seed 0 enc "[]" rest "[]"]
  show "decode_block_stream deps seed bs = Inr p" by (simp add: decode_block_stream_def new_cursor_at)
qed

lemma block_stream_roundtrip:
  assumes "deps_ok deps"
  shows "\<exists>enc. encode_block_stream deps seed payload = Inr enc \<and> decode_block_stream deps seed (enc @ rest) = Inr payload"
proof -
  obtain enc where enc: "framed deps seed 0 (chunks block_size payload) = Inr enc" using framed_total [OF assms] by blast
  have "list_all chunk_ok (chunks block_size payload)" "concat (chunks block_size payload) = payload"
    by (simp_all add: chunks_ok concat_chunks block_size_def)
  with enc show ?thesis
    unfolding encode_block_stream_framed decode_block_stream_iff [OF assms] by metis
qed

end
