(* ===== verification/Kdf.thy ===== *)
theory Kdf
  imports Headers
begin

text \<open>
  Key derivation parameters of a file (\<^verbatim>\<open>crates/vaultkern-kdbx/src/external_kdf.rs\<close>,
  \<^verbatim>\<open>kdf_generation.rs\<close> and the save side of \<^verbatim>\<open>lib.rs\<close>): decoding with validation, the policy
  that bounds the work a file may ask for, the parameters written on save, and the generation that
  identifies them.
\<close>

section \<open>Policy\<close>

definition DESKTOP_ARGON2_CONFIRM_BYTES :: u64 where "DESKTOP_ARGON2_CONFIRM_BYTES = 268435456"
definition DESKTOP_ARGON2_REFUSE_BYTES :: u64 where "DESKTOP_ARGON2_REFUSE_BYTES = 1073741824"
definition MOBILE_ARGON2_REFUSE_BYTES :: u64 where "MOBILE_ARGON2_REFUSE_BYTES = 134217728"
definition DESKTOP_AES_CONFIRM_ROUNDS :: u64 where "DESKTOP_AES_CONFIRM_ROUNDS = 600000000"
definition DESKTOP_AES_REFUSE_ROUNDS :: u64 where "DESKTOP_AES_REFUSE_ROUNDS = 6000000000"
definition MOBILE_AES_REFUSE_ROUNDS :: u64 where "MOBILE_AES_REFUSE_ROUNDS = 600000000"

lemmas policy_limits = DESKTOP_ARGON2_CONFIRM_BYTES_def DESKTOP_ARGON2_REFUSE_BYTES_def
  MOBILE_ARGON2_REFUSE_BYTES_def DESKTOP_AES_CONFIRM_ROUNDS_def DESKTOP_AES_REFUSE_ROUNDS_def
  MOBILE_AES_REFUSE_ROUNDS_def

datatype kdf_resource = Res_Rounds | Res_MemoryBytes

record kdf_request =
  kr_algorithm :: kdf_algorithm
  kr_resource :: kdf_resource
  kr_observed :: u64

datatype kdf_confirmation = Unconfirmed | Confirmed

datatype kdf_policy = Desktop | Mobile | Extension

text \<open>The match on the policy and the resource, with its guards in the source's order.\<close>

definition evaluate :: "kdf_policy \<Rightarrow> kdf_request \<Rightarrow> kdf_decision" where
  "evaluate policy request =
     (if policy = Extension then Forbid
      else if policy = Desktop \<and> kr_resource request = Res_MemoryBytes \<and>
              kr_observed request > DESKTOP_ARGON2_REFUSE_BYTES then Refuse DESKTOP_ARGON2_REFUSE_BYTES
      else if policy = Desktop \<and> kr_resource request = Res_MemoryBytes \<and>
              kr_observed request > DESKTOP_ARGON2_CONFIRM_BYTES then Confirm DESKTOP_ARGON2_CONFIRM_BYTES
      else if policy = Mobile \<and> kr_resource request = Res_MemoryBytes \<and>
              kr_observed request > MOBILE_ARGON2_REFUSE_BYTES then Refuse MOBILE_ARGON2_REFUSE_BYTES
      else if policy = Desktop \<and> kr_resource request = Res_Rounds \<and>
              kr_observed request > DESKTOP_AES_REFUSE_ROUNDS then Refuse DESKTOP_AES_REFUSE_ROUNDS
      else if policy = Desktop \<and> kr_resource request = Res_Rounds \<and>
              kr_observed request > DESKTOP_AES_CONFIRM_ROUNDS then Confirm DESKTOP_AES_CONFIRM_ROUNDS
      else if policy = Mobile \<and> kr_resource request = Res_Rounds \<and>
              kr_observed request > MOBILE_AES_REFUSE_ROUNDS then Refuse MOBILE_AES_REFUSE_ROUNDS
      else Allow)"

section \<open>Parameters\<close>

datatype kdf_material =
    Mat_Aes u64 bytes
  | Mat_Argon2 u32 u32 u32 bytes

record kdf_parameters =
  kp_algorithm :: kdf_algorithm
  kp_material :: kdf_material

definition KDF_AES_KDBX4_UUID :: uuid where "KDF_AES_KDBX4_UUID = 0x7C02BB8279A74AC0927D114A00692EB7"
definition KDF_AES_KDBX3_UUID :: uuid where "KDF_AES_KDBX3_UUID = 0xC9D9F39A628A4460BF740D08C18A4FEA"
definition KDF_ARGON2D_UUID :: uuid where "KDF_ARGON2D_UUID = 0xEF636DDF8C29444B91F7A9A403E30A0C"
definition KDF_ARGON2ID_UUID :: uuid where "KDF_ARGON2ID_UUID = 0x9E298B1956DB4773B23DFC3EC6F0A1E6"

lemmas kdf_uuids = KDF_AES_KDBX4_UUID_def KDF_AES_KDBX3_UUID_def KDF_ARGON2D_UUID_def KDF_ARGON2ID_UUID_def

definition required_u64 :: "variant_dictionary \<Rightarrow> string \<Rightarrow> kdbx_error + u64" where
  "required_u64 dict key = (case vd_get dict key of Some (V_UInt64 v) \<Rightarrow> Inr v | _ \<Rightarrow> Inl UnsupportedKdf)"

definition required_bytes :: "variant_dictionary \<Rightarrow> string \<Rightarrow> kdbx_error + bytes" where
  "required_bytes dict key = (case vd_get dict key of Some (V_Bytes v) \<Rightarrow> Inr v | _ \<Rightarrow> Inl UnsupportedKdf)"

definition try_u32 :: "u64 \<Rightarrow> u32 option" where
  "try_u32 v = (if v \<le> 0xFFFFFFFF then Some (ucast v) else None)"

definition checked_u32 :: "kdf_algorithm \<Rightarrow> kdf_parameter \<Rightarrow> u64 \<Rightarrow> kdbx_error + u32" where
  "checked_u32 algorithm parameter v =
     (if v = 0 then Inl (InvalidKdfParameter algorithm parameter v)
      else ok_or (try_u32 v) (InvalidKdfParameter algorithm parameter v))"

definition validate_nonzero_bounded :: "kdf_algorithm \<Rightarrow> kdf_parameter \<Rightarrow> u64 \<Rightarrow> kdbx_error + unit" where
  "validate_nonzero_bounded algorithm parameter v =
     (if v = 0 \<or> v = - 1 then Inl (InvalidKdfParameter algorithm parameter v) else Inr ())"

definition decode_parallelism :: "kdf_algorithm \<Rightarrow> variant_dictionary \<Rightarrow> kdbx_error + u32" where
  "decode_parallelism algorithm dict =
     (case vd_get dict ''P'' of
        Some (V_UInt32 v) \<Rightarrow>
          if v \<noteq> 0 then Inr v else Inl (InvalidKdfParameter algorithm Kdf_Parallelism (ucast v))
      | _ \<Rightarrow> Inl UnsupportedKdf)"

definition decode_kdbx4 :: "variant_dictionary \<Rightarrow> kdbx_error + kdf_parameters" where
  "decode_kdbx4 dict =
     and_then (case vd_get dict ''$UUID'' of Some (V_Bytes bs) \<Rightarrow> uuid_from_slice bs | _ \<Rightarrow> Inl UnsupportedKdf) (\<lambda>u.
       if u = KDF_AES_KDBX4_UUID \<or> u = KDF_AES_KDBX3_UUID then
         and_then (required_u64 dict ''R'') (\<lambda>rounds.
         and_then (validate_nonzero_bounded Kdf_AesKdbx4 Kdf_Rounds rounds) (\<lambda>_.
         and_then (required_bytes dict ''S'') (\<lambda>salt_bytes.
         and_then (le_array 32 salt_bytes) (\<lambda>salt.
           Inr \<lparr>kp_algorithm = Kdf_AesKdbx4, kp_material = Mat_Aes rounds salt\<rparr>))))
       else if u = KDF_ARGON2D_UUID \<or> u = KDF_ARGON2ID_UUID then
         (let algorithm = (if u = KDF_ARGON2D_UUID then Kdf_Argon2d else Kdf_Argon2id) in
          and_then (required_u64 dict ''I'') (\<lambda>raw_iterations.
          and_then (checked_u32 algorithm Kdf_Iterations raw_iterations) (\<lambda>iterations.
          and_then (required_u64 dict ''M'') (\<lambda>memory_bytes.
            if memory_bytes = 0 \<or> memory_bytes mod 1024 \<noteq> 0
            then Inl (InvalidKdfParameter algorithm Kdf_MemoryBytes memory_bytes)
            else and_then (ok_or (try_u32 (memory_bytes div 1024))
                   (InvalidKdfParameter algorithm Kdf_MemoryBytes memory_bytes)) (\<lambda>memory_kib.
                 and_then (decode_parallelism algorithm dict) (\<lambda>parallelism.
                 and_then (required_bytes dict ''S'') (\<lambda>salt.
                   Inr \<lparr>kp_algorithm = algorithm,
                        kp_material = Mat_Argon2 iterations memory_kib parallelism salt\<rparr>)))))))
       else Inl UnsupportedKdf)"

definition decode_kdbx3 :: "u64 \<Rightarrow> bytes \<Rightarrow> kdbx_error + kdf_parameters" where
  "decode_kdbx3 rounds salt =
     and_then (validate_nonzero_bounded Kdf_AesKdbx3 Kdf_Rounds rounds) (\<lambda>_.
       Inr \<lparr>kp_algorithm = Kdf_AesKdbx3, kp_material = Mat_Aes rounds salt\<rparr>)"

definition kdf_request_of :: "kdf_parameters \<Rightarrow> kdf_request" where
  "kdf_request_of p =
     (let (resource, observed) =
        (case kp_material p of
           Mat_Aes rounds _ \<Rightarrow> (Res_Rounds, rounds)
         | Mat_Argon2 _ memory_kib _ _ \<Rightarrow> (Res_MemoryBytes, ucast memory_kib * 1024))
      in \<lparr>kr_algorithm = kp_algorithm p, kr_resource = resource, kr_observed = observed\<rparr>)"

definition kdf_rounds :: "kdf_parameters \<Rightarrow> u64 option" where
  "kdf_rounds p = (case kp_material p of Mat_Aes rounds _ \<Rightarrow> Some rounds | Mat_Argon2 _ _ _ _ \<Rightarrow> None)"

definition argon2_work_factors :: "kdf_parameters \<Rightarrow> (u32 \<times> u32 \<times> u32) option" where
  "argon2_work_factors p =
     (case kp_material p of
        Mat_Argon2 iterations memory_kib parallelism _ \<Rightarrow> Some (iterations, memory_kib, parallelism)
      | Mat_Aes _ _ \<Rightarrow> None)"

text \<open>\<open>None\<close> is the \<open>unreachable!\<close> arm; \<open>decoded_profile\<close> below shows it is unreachable.\<close>

definition into_profile :: "kdf_parameters \<Rightarrow> kdf_profile option" where
  "into_profile p =
     (case (kp_algorithm p, kp_material p) of
        (Kdf_AesKdbx3, Mat_Aes rounds salt) \<Rightarrow> Some (AesKdbx3 rounds salt)
      | (Kdf_AesKdbx4, Mat_Aes rounds salt) \<Rightarrow> Some (AesKdbx4 rounds salt)
      | (Kdf_Argon2d, Mat_Argon2 iterations memory_kib parallelism salt) \<Rightarrow>
          Some (Argon2d iterations memory_kib parallelism salt)
      | (Kdf_Argon2id, Mat_Argon2 iterations memory_kib parallelism salt) \<Rightarrow>
          Some (Argon2id iterations memory_kib parallelism salt)
      | _ \<Rightarrow> None)"

definition enforce_external_kdf_policy ::
    "kdf_parameters \<Rightarrow> (kdf_request \<Rightarrow> kdf_decision) \<Rightarrow> kdf_confirmation \<Rightarrow> kdbx_error + unit" where
  "enforce_external_kdf_policy p evaluator confirmation =
     (let request = kdf_request_of p; decision = evaluator request in
      case (decision, confirmation) of
        (Allow, _) \<Rightarrow> Inr ()
      | (Confirm _, Confirmed) \<Rightarrow> Inr ()
      | _ \<Rightarrow> Inl (ExternalKdfPolicyError (kr_algorithm request) (kr_observed request) decision))"

section \<open>Saving\<close>

datatype save_kdf = Save_AesKdbx4 u64 | Save_Argon2d u32 u32 u32 | Save_Argon2id u32 u32 u32

definition recommended_save_kdf :: save_kdf where
  "recommended_save_kdf = Save_Argon2id 2 (64 * 1024) 1"

record save_profile =
  sp_version :: kdbx_version
  sp_cipher :: kdbx_cipher
  sp_compression :: kdbx_compression
  sp_kdf :: "save_kdf option"

definition recommended_profile :: save_profile where
  "recommended_profile = \<lparr>sp_version = V4_1, sp_cipher = Aes256, sp_compression = Gzip, sp_kdf = None\<rparr>"

text \<open>The UUIDs behind the random salt are the parameter \<open>draw\<close>.\<close>

definition build_kdf_profile :: "(nat \<Rightarrow> uuid) \<Rightarrow> save_kdf \<Rightarrow> kdf_profile" where
  "build_kdf_profile draw kdf =
     (case kdf of
        Save_AesKdbx4 rounds \<Rightarrow> AesKdbx4 rounds (random_bytes draw 32)
      | Save_Argon2d iterations memory_kib parallelism \<Rightarrow>
          Argon2d iterations memory_kib parallelism (random_bytes draw 32)
      | Save_Argon2id iterations memory_kib parallelism \<Rightarrow>
          Argon2id iterations memory_kib parallelism (random_bytes draw 32))"

definition argon2_dict :: "uuid \<Rightarrow> u32 \<Rightarrow> u32 \<Rightarrow> u32 \<Rightarrow> bytes \<Rightarrow> variant_dictionary" where
  "argon2_dict u iterations memory_kib parallelism salt =
     vd_insert ''S'' (V_Bytes salt)
       (vd_insert ''P'' (V_UInt32 parallelism)
       (vd_insert ''M'' (V_UInt64 (ucast memory_kib * 1024))
       (vd_insert ''I'' (V_UInt64 (ucast iterations))
       (vd_insert ''V'' (V_UInt32 0x13)
       (vd_insert ''$UUID'' (V_Bytes (uuid_bytes u)) default_dictionary)))))"

definition kdf_to_variant_dict :: "kdf_profile \<Rightarrow> variant_dictionary" where
  "kdf_to_variant_dict kdf =
     (case kdf of
        AesKdbx4 rounds salt \<Rightarrow>
          vd_insert ''S'' (V_Bytes salt)
            (vd_insert ''R'' (V_UInt64 rounds)
            (vd_insert ''$UUID'' (V_Bytes (uuid_bytes KDF_AES_KDBX4_UUID)) default_dictionary))
      | Argon2d iterations memory_kib parallelism salt \<Rightarrow>
          argon2_dict KDF_ARGON2D_UUID iterations memory_kib parallelism salt
      | Argon2id iterations memory_kib parallelism salt \<Rightarrow>
          argon2_dict KDF_ARGON2ID_UUID iterations memory_kib parallelism salt
      | AesKdbx3 _ _ \<Rightarrow> default_dictionary)"

text \<open>\<open>encoded\<close> is the field \<open>kdf_parameters\<close> of the vault.\<close>

definition retained_or_recommended_save_kdf :: "bytes option \<Rightarrow> kdbx_error + save_kdf" where
  "retained_or_recommended_save_kdf encoded =
     (case encoded of
        None \<Rightarrow> Inr recommended_save_kdf
      | Some bs \<Rightarrow>
          and_then (vd_decode bs) (\<lambda>dict.
          and_then (decode_kdbx4 dict) (\<lambda>p.
            if kp_algorithm p = Kdf_AesKdbx3 \<or> kp_algorithm p = Kdf_AesKdbx4 then
              and_then (ok_or (kdf_rounds p) UnsupportedKdf) (\<lambda>rounds. Inr (Save_AesKdbx4 rounds))
            else
              and_then (ok_or (argon2_work_factors p) UnsupportedKdf) (\<lambda>(iterations, memory_kib, parallelism).
                if kp_algorithm p = Kdf_Argon2d then Inr (Save_Argon2d iterations memory_kib parallelism)
                else Inr (Save_Argon2id iterations memory_kib parallelism)))))"

text \<open>The profile is \<open>None\<close> where \<open>into_profile\<close> would panic.\<close>

definition save_kdf_state ::
    "(nat \<Rightarrow> uuid) \<Rightarrow> bytes option \<Rightarrow> save_kdf option \<Rightarrow> kdbx_error + kdf_profile option \<times> variant_dictionary" where
  "save_kdf_state draw encoded requested =
     (case requested of
        Some kdf \<Rightarrow> (let profile = build_kdf_profile draw kdf in Inr (Some profile, kdf_to_variant_dict profile))
      | None \<Rightarrow>
          (case encoded of
             Some bs \<Rightarrow>
               and_then (vd_decode bs) (\<lambda>parameters.
               and_then (decode_kdbx4 parameters) (\<lambda>p. Inr (into_profile p, parameters)))
           | None \<Rightarrow>
               (let profile = build_kdf_profile draw recommended_save_kdf
                in Inr (Some profile, kdf_to_variant_dict profile))))"

section \<open>Generations\<close>

text \<open>\<open>len as u32\<close> keeps the low 32 bits.\<close>

definition sized_u32 :: "bytes \<Rightarrow> bytes" where
  "sized_u32 bs = u32_le (word_of_nat (length bs)) @ bs"

definition canonical_kdf_entries :: "(string \<times> u8 \<times> bytes) list \<Rightarrow> bytes" where
  "canonical_kdf_entries entries =
     concat (map (\<lambda>(key, tag, v). sized_u32 (text_bytes key) @ [tag] @ sized_u32 v) entries)"

definition canonical_kdf_params :: "variant_dictionary \<Rightarrow> bytes" where
  "canonical_kdf_params params =
     canonical_kdf_entries (map (\<lambda>(key, v). (key, encode_variant_value v)) (vd_items params))"

definition kdf_generation :: "crypto_deps \<Rightarrow> variant_dictionary \<Rightarrow> bytes" where
  "kdf_generation deps params = dep_sha256 deps (canonical_kdf_params params)"

definition hex_digit_lower :: "nat \<Rightarrow> char" where
  "hex_digit_lower n = (if n < 10 then char_of (48 + n) else char_of (87 + n))"

definition kdf_generation_hex :: "crypto_deps \<Rightarrow> variant_dictionary \<Rightarrow> string" where
  "kdf_generation_hex deps params =
     concat (map (\<lambda>b. [hex_digit_lower (unat b div 16), hex_digit_lower (unat b mod 16)]) (kdf_generation deps params))"

definition kdbx3_canonical_kdf_params :: "bytes \<Rightarrow> u64 \<Rightarrow> variant_dictionary" where
  "kdbx3_canonical_kdf_params transform_seed transform_rounds =
     vd_insert ''S'' (V_Bytes transform_seed)
       (vd_insert ''R'' (V_UInt64 transform_rounds)
       (vd_insert ''$UUID'' (V_Bytes (uuid_bytes KDF_AES_KDBX3_UUID)) default_dictionary))"

section \<open>What decoding accepts\<close>

lemma vd_get_insert [simp]: "vd_get (vd_insert k v d) k' = (if k' = k then Some v else vd_get d k')"
  by (simp add: vd_get_def vd_insert_def)

lemma vd_get_default [simp]: "vd_get default_dictionary k = None"
  by (simp add: vd_get_def default_dictionary_def)

text \<open>The profile a dictionary stands for, read off its entries.\<close>

definition profile_matches :: "variant_dictionary \<Rightarrow> kdf_profile \<Rightarrow> bool" where
  "profile_matches dict profile \<longleftrightarrow>
     (case profile of
        AesKdbx4 rounds salt \<Rightarrow> vd_get dict ''R'' = Some (V_UInt64 rounds) \<and> vd_get dict ''S'' = Some (V_Bytes salt) \<and>
          rounds \<noteq> 0 \<and> length salt = 32
      | Argon2d i m p salt \<Rightarrow> vd_get dict ''$UUID'' = Some (V_Bytes (uuid_bytes KDF_ARGON2D_UUID)) \<and>
          vd_get dict ''I'' = Some (V_UInt64 (ucast i)) \<and> vd_get dict ''M'' = Some (V_UInt64 (ucast m * 1024)) \<and>
          vd_get dict ''P'' = Some (V_UInt32 p) \<and> vd_get dict ''S'' = Some (V_Bytes salt) \<and> i \<noteq> 0 \<and> m \<noteq> 0 \<and> p \<noteq> 0
      | Argon2id i m p salt \<Rightarrow> vd_get dict ''$UUID'' = Some (V_Bytes (uuid_bytes KDF_ARGON2ID_UUID)) \<and>
          vd_get dict ''I'' = Some (V_UInt64 (ucast i)) \<and> vd_get dict ''M'' = Some (V_UInt64 (ucast m * 1024)) \<and>
          vd_get dict ''P'' = Some (V_UInt32 p) \<and> vd_get dict ''S'' = Some (V_Bytes salt) \<and> i \<noteq> 0 \<and> m \<noteq> 0 \<and> p \<noteq> 0
      | AesKdbx3 _ _ \<Rightarrow> False)"

lemma try_u32_Some: "try_u32 v = Some w \<longleftrightarrow> v = ucast w"
proof
  assume "try_u32 v = Some w"
  then have v: "v \<le> 0xFFFFFFFF" and w: "w = ucast v" by (auto simp: try_u32_def split: if_splits)
  have "uint v \<le> 0xFFFFFFFF" using v by (simp add: word_le_def)
  then have "uint (ucast (ucast v :: u32) :: u64) = uint v"
    by (simp add: unsigned_ucast_eq take_bit_eq_mod uint_mod)
  then show "v = ucast w" unfolding w by (simp add: word_uint_eq_iff)
next
  assume v: "v = ucast w"
  have "uint (ucast w :: u64) \<le> 0xFFFFFFFF" using uint_lt2p [of w] by (simp add: unsigned_ucast_eq take_bit_eq_mod)
  then have "(ucast w :: u64) \<le> 0xFFFFFFFF" by (simp add: word_le_def)
  moreover have "(ucast (ucast w :: u64) :: u32) = w"
    by (rule ucast_up_ucast_id) (simp add: is_up)
  ultimately show "try_u32 v = Some w" using v by (simp add: try_u32_def)
qed

lemma uuid_from_slice_iff: "uuid_from_slice bs = Inr u \<longleftrightarrow> bs = uuid_bytes u"
proof
  assume "uuid_from_slice bs = Inr u"
  then have len: "length bs = 16" and u: "u = word_from_le (rev bs)"
    by (auto simp: uuid_from_slice_def split: if_splits)
  have "le_value (rev bs) < 2 ^ 128" using le_value_bound [of "rev bs"] len by simp
  then have "uint u = le_value (rev bs)"
    by (simp add: u word_from_le_def uint_word_of_int le_value_nonneg)
  then show "bs = uuid_bytes u" using le_digits_value [of "rev bs"] len by (simp add: uuid_bytes_def)
qed simp

lemma required_u64_iff: "required_u64 dict key = Inr v \<longleftrightarrow> vd_get dict key = Some (V_UInt64 v)"
  by (auto simp: required_u64_def split: option.split variant_value.split)

lemma required_bytes_iff: "required_bytes dict key = Inr v \<longleftrightarrow> vd_get dict key = Some (V_Bytes v)"
  by (auto simp: required_bytes_def split: option.split variant_value.split)

lemma ucast_inj_32 [simp]: "(ucast (a :: u32) :: u64) = ucast b \<longleftrightarrow> a = b"
  using try_u32_Some [of "ucast a" a] try_u32_Some [of "ucast a" b] by auto

lemma ucast_zero_32 [simp]: "(ucast (a :: u32) :: u64) = 0 \<longleftrightarrow> a = 0"
  using ucast_inj_32 [of a 0] by simp

lemma checked_u32_iff: "checked_u32 algorithm parameter v = Inr w \<longleftrightarrow> v = ucast w \<and> w \<noteq> 0"
proof (cases "v = 0")
  case True
  then show ?thesis using ucast_zero_32 [of w] by (auto simp: checked_u32_def)
next
  case False
  have "ok_or (try_u32 v) e = Inr w \<longleftrightarrow> v = ucast w" for e :: kdbx_error
    using try_u32_Some [of v w] by (cases "try_u32 v") auto
  with False show ?thesis by (auto simp: checked_u32_def)
qed

lemma decode_parallelism_iff:
  "decode_parallelism algorithm dict = Inr v \<longleftrightarrow> vd_get dict ''P'' = Some (V_UInt32 v) \<and> v \<noteq> 0"
  by (auto simp: decode_parallelism_def split: option.split variant_value.split)

lemma valid_parameters_iff: "validate_nonzero_bounded algorithm parameter v = Inr u \<longleftrightarrow> v \<noteq> 0 \<and> v \<noteq> - 1"
  by (auto simp: validate_nonzero_bounded_def)

text \<open>The memory in bytes never overflows.\<close>

lemma uint_memory: "uint (ucast (k :: u32) * 1024 :: u64) = uint k * 1024"
proof -
  have "uint k < 2 ^ 32" using uint_lt2p [of k] by simp
  moreover have "0 \<le> uint k" by simp
  moreover have "uint (ucast k :: u64) = uint k"
    using \<open>uint k < 2 ^ 32\<close> by (simp add: unsigned_ucast_eq take_bit_eq_mod)
  ultimately show ?thesis by (simp add: uint_word_ariths)
qed

lemma memory_bytes_iff:
  "(m :: u64) \<noteq> 0 \<and> m mod 1024 = 0 \<and> m div 1024 = ucast (k :: u32) \<longleftrightarrow> k \<noteq> 0 \<and> m = ucast k * 1024"
proof
  assume m: "m \<noteq> 0 \<and> m mod 1024 = 0 \<and> m div 1024 = ucast k"
  then have "m = ucast k * 1024" using div_mult_mod_eq [of m 1024] by simp
  with m show "k \<noteq> 0 \<and> m = ucast k * 1024" by auto
next
  assume k: "k \<noteq> 0 \<and> m = ucast k * 1024"
  then have u: "uint m = uint k * 1024" by (simp add: uint_memory)
  have "uint (ucast k :: u64) = uint k"
    using uint_lt2p [of k] by (simp add: unsigned_ucast_eq take_bit_eq_mod)
  then have "m div 1024 = ucast k" using u by (simp add: word_uint_eq_iff uint_div)
  moreover have "m mod 1024 = 0" using u by (simp add: word_uint_eq_iff uint_mod)
  moreover have "m \<noteq> 0" using u k by (auto simp: word_uint_eq_iff)
  ultimately show "m \<noteq> 0 \<and> m mod 1024 = 0 \<and> m div 1024 = ucast k" by simp
qed

lemmas decode_iffs = required_u64_iff required_bytes_iff checked_u32_iff decode_parallelism_iff
  valid_parameters_iff uuid_from_slice_iff try_u32_Some

text \<open>The two branches of \<open>decode_kdbx4\<close>.\<close>

lemma ok_or_Inr: "ok_or r e = Inr w \<longleftrightarrow> r = Some w"
  by (cases r) auto

lemma decode_kdbx4_aes:
  "vd_get dict ''$UUID'' = Some (V_Bytes (uuid_bytes u)) \<Longrightarrow> u = KDF_AES_KDBX4_UUID \<or> u = KDF_AES_KDBX3_UUID \<Longrightarrow>
   decode_kdbx4 dict = Inr p \<longleftrightarrow> (\<exists>rounds salt. vd_get dict ''R'' = Some (V_UInt64 rounds) \<and> rounds \<noteq> 0 \<and>
     rounds \<noteq> - 1 \<and> vd_get dict ''S'' = Some (V_Bytes salt) \<and> length salt = 32 \<and>
     p = \<lparr>kp_algorithm = Kdf_AesKdbx4, kp_material = Mat_Aes rounds salt\<rparr>)"
  by (simp add: decode_kdbx4_def and_then_eq_Inr decode_iffs le_array_def) fastforce

lemma decode_kdbx4_argon2:
  assumes "vd_get dict ''$UUID'' = Some (V_Bytes (uuid_bytes u))"
    and "\<not> (u = KDF_AES_KDBX4_UUID \<or> u = KDF_AES_KDBX3_UUID)" and "u = KDF_ARGON2D_UUID \<or> u = KDF_ARGON2ID_UUID"
  shows "decode_kdbx4 dict = Inr p \<longleftrightarrow> (\<exists>i k par salt.
     vd_get dict ''I'' = Some (V_UInt64 (ucast i)) \<and> i \<noteq> 0 \<and>
     vd_get dict ''M'' = Some (V_UInt64 (ucast k * 1024)) \<and> k \<noteq> 0 \<and>
     vd_get dict ''P'' = Some (V_UInt32 par) \<and> par \<noteq> 0 \<and> vd_get dict ''S'' = Some (V_Bytes salt) \<and>
     p = \<lparr>kp_algorithm = (if u = KDF_ARGON2D_UUID then Kdf_Argon2d else Kdf_Argon2id),
          kp_material = Mat_Argon2 i k par salt\<rparr>)"
proof -
  have mem: "(if m = 0 \<or> m mod 1024 \<noteq> 0 then Inl e1 else and_then (ok_or (try_u32 (m div 1024)) e2) f) = Inr p \<longleftrightarrow>
      (\<exists>k. k \<noteq> 0 \<and> m = ucast k * 1024 \<and> f k = Inr p)"
    for m :: u64 and e1 e2 :: kdbx_error and f :: "u32 \<Rightarrow> kdbx_error + kdf_parameters"
  proof (cases "m = 0 \<or> m mod 1024 \<noteq> 0")
    case True
    then have "\<not> (k \<noteq> 0 \<and> m = ucast k * 1024)" for k :: u32
      using memory_bytes_iff [of m k] by blast
    then show ?thesis unfolding if_P [OF True] by blast
  next
    case False
    then have "m div 1024 = ucast k \<longleftrightarrow> k \<noteq> 0 \<and> m = ucast k * 1024" for k :: u32
      using memory_bytes_iff [of m k] by argo
    then show ?thesis unfolding if_not_P [OF False] and_then_eq_Inr ok_or_Inr try_u32_Some by blast
  qed
  have not_aes: "u \<noteq> KDF_AES_KDBX4_UUID" "u \<noteq> KDF_AES_KDBX3_UUID" using assms(2) by simp_all
  have "decode_kdbx4 dict = Inr p \<longleftrightarrow> (\<exists>x i. vd_get dict ''I'' = Some (V_UInt64 x) \<and> x = ucast i \<and> i \<noteq> 0 \<and>
     (\<exists>m k. vd_get dict ''M'' = Some (V_UInt64 m) \<and> k \<noteq> 0 \<and> m = ucast k * 1024 \<and>
     (\<exists>par. vd_get dict ''P'' = Some (V_UInt32 par) \<and> par \<noteq> 0 \<and>
     (\<exists>salt. vd_get dict ''S'' = Some (V_Bytes salt) \<and>
     \<lparr>kp_algorithm = (if u = KDF_ARGON2D_UUID then Kdf_Argon2d else Kdf_Argon2id),
          kp_material = Mat_Argon2 i k par salt\<rparr> = p))))"
    unfolding decode_kdbx4_def Let_def using assms(1,3) not_aes
    by (simp only: option.case variant_value.case uuid_from_slice_bytes and_then.simps if_False simp_thms
        and_then_eq_Inr mem decode_iffs sum.inject if_True) blast
  then show ?thesis by blast
qed

lemma decode_kdbx4_uuid:
  assumes "decode_kdbx4 dict = Inr p"
  shows "\<exists>u. vd_get dict ''$UUID'' = Some (V_Bytes (uuid_bytes u))"
proof -
  from iffD1 [OF and_then_eq_Inr assms [unfolded decode_kdbx4_def]] obtain u where
    "(case vd_get dict ''$UUID'' of Some (V_Bytes bs) \<Rightarrow> uuid_from_slice bs | _ \<Rightarrow> Inl UnsupportedKdf) = Inr u"
    by (elim exE conjE) (rule that)
  then show ?thesis by (auto simp: uuid_from_slice_iff split: option.split_asm variant_value.split_asm)
qed

lemma decode_kdbx4_known:
  assumes "decode_kdbx4 dict = Inr p" and "vd_get dict ''$UUID'' = Some (V_Bytes (uuid_bytes u))"
  shows "u = KDF_AES_KDBX4_UUID \<or> u = KDF_AES_KDBX3_UUID \<or> u = KDF_ARGON2D_UUID \<or> u = KDF_ARGON2ID_UUID"
proof (rule ccontr)
  assume "\<not> ?thesis"
  with assms show False by (simp add: decode_kdbx4_def)
qed

lemma decoded_profile:
  assumes "decode_kdbx4 dict = Inr p"
  shows "\<exists>profile. into_profile p = Some profile \<and> profile_matches dict profile"
proof -
  obtain u where u: "vd_get dict ''$UUID'' = Some (V_Bytes (uuid_bytes u))"
    using decode_kdbx4_uuid [OF assms] by blast
  show ?thesis
  proof (cases "u = KDF_AES_KDBX4_UUID \<or> u = KDF_AES_KDBX3_UUID")
    case True
    then obtain rounds salt where "vd_get dict ''R'' = Some (V_UInt64 rounds)" "rounds \<noteq> 0"
      "vd_get dict ''S'' = Some (V_Bytes salt)" "length salt = 32"
      "p = \<lparr>kp_algorithm = Kdf_AesKdbx4, kp_material = Mat_Aes rounds salt\<rparr>"
      using assms decode_kdbx4_aes [OF u True] by blast
    then show ?thesis
      by (intro exI [of _ "AesKdbx4 rounds salt"]) (simp add: into_profile_def profile_matches_def)
  next
    case False
    then have argon2: "u = KDF_ARGON2D_UUID \<or> u = KDF_ARGON2ID_UUID"
      using decode_kdbx4_known [OF assms u] by blast
    then obtain i k par salt where get: "vd_get dict ''I'' = Some (V_UInt64 (ucast i))" "i \<noteq> 0"
      "vd_get dict ''M'' = Some (V_UInt64 (ucast k * 1024))" "k \<noteq> 0"
      "vd_get dict ''P'' = Some (V_UInt32 par)" "par \<noteq> 0" "vd_get dict ''S'' = Some (V_Bytes salt)"
      and p: "p = \<lparr>kp_algorithm = (if u = KDF_ARGON2D_UUID then Kdf_Argon2d else Kdf_Argon2id),
          kp_material = Mat_Argon2 i k par salt\<rparr>"
      using assms decode_kdbx4_argon2 [OF u False argon2] by blast
    show ?thesis
    proof (cases "u = KDF_ARGON2D_UUID")
      case True
      with get p u show ?thesis
        by (intro exI [of _ "Argon2d i k par salt"]) (simp add: into_profile_def profile_matches_def)
    next
      case False
      with get p u argon2 show ?thesis
        by (intro exI [of _ "Argon2id i k par salt"]) (simp add: into_profile_def profile_matches_def)
    qed
  qed
qed

section \<open>Properties\<close>

text \<open>The most work each policy lets a file ask for.\<close>

definition rounds_limit :: "kdf_policy \<Rightarrow> kdf_confirmation \<Rightarrow> int" where
  "rounds_limit policy confirmation =
     (case policy of Desktop \<Rightarrow> (if confirmation = Confirmed then 6000000000 else 600000000)
      | Mobile \<Rightarrow> 600000000 | Extension \<Rightarrow> - 1)"

definition memory_limit :: "kdf_policy \<Rightarrow> kdf_confirmation \<Rightarrow> int" where
  "memory_limit policy confirmation =
     (case policy of Desktop \<Rightarrow> (if confirmation = Confirmed then 1073741824 else 268435456)
      | Mobile \<Rightarrow> 134217728 | Extension \<Rightarrow> - 1)"

definition within_limits :: "kdf_policy \<Rightarrow> kdf_confirmation \<Rightarrow> kdf_profile \<Rightarrow> bool" where
  "within_limits policy confirmation profile \<longleftrightarrow>
     (case profile of
        AesKdbx3 rounds _ \<Rightarrow> uint rounds \<le> rounds_limit policy confirmation
      | AesKdbx4 rounds _ \<Rightarrow> uint rounds \<le> rounds_limit policy confirmation
      | Argon2d _ memory_kib _ _ \<Rightarrow> uint memory_kib * 1024 \<le> memory_limit policy confirmation
      | Argon2id _ memory_kib _ _ \<Rightarrow> uint memory_kib * 1024 \<le> memory_limit policy confirmation)"

lemma enforce_within:
  assumes "into_profile p = Some profile"
  shows "enforce_external_kdf_policy p (evaluate policy) confirmation = Inr () \<longleftrightarrow> within_limits policy confirmation profile"
proof -
  have ge: "\<not> uint w \<le> - 1" "\<not> uint k * 1024 \<le> - 1" for w :: u64 and k :: u32
    using uint_ge_0 [of w] uint_ge_0 [of k] by linarith+
  have lim: "(6000000000 :: u64) < w \<longleftrightarrow> 6000000000 < uint w" "(600000000 :: u64) < w \<longleftrightarrow> 600000000 < uint w"
    "(1073741824 :: u64) < w \<longleftrightarrow> 1073741824 < uint w" "(268435456 :: u64) < w \<longleftrightarrow> 268435456 < uint w"
    "(134217728 :: u64) < w \<longleftrightarrow> 134217728 < uint w" for w
    by (simp_all add: word_less_def)
  show ?thesis
    using assms ge
    by (cases policy; cases confirmation)
      (auto simp: into_profile_def within_limits_def enforce_external_kdf_policy_def kdf_request_of_def evaluate_def
        rounds_limit_def memory_limit_def policy_limits lim uint_memory Let_def
        split: kdf_algorithm.splits kdf_material.splits if_split_asm)
qed

text \<open>C35. The parameters a KDBX 4 file may ask for are exactly those its dictionary states, with no zero work
  factor and a memory size that never overflows, and the policy lets them through exactly when they are
  within its limits: nothing for the browser extension, 128 MiB or 600 million rounds on mobile, 256 MiB or
  600 million rounds on desktop, and 1 GiB or 6 billion rounds there once the user has confirmed.\<close>

theorem external_kdf_bounded:
  assumes "decode_kdbx4 dict = Inr p"
  shows "\<exists>profile. into_profile p = Some profile \<and> profile_matches dict profile \<and>
    (enforce_external_kdf_policy p (evaluate policy) confirmation = Inr () \<longleftrightarrow> within_limits policy confirmation profile)"
  using decoded_profile [OF assms] enforce_within by blast

lemma external_kdf_bounded_witness:
  "\<exists>p profile. decode_kdbx4 (kdf_to_variant_dict (Argon2id 2 65536 1 [7])) = Inr p \<and> into_profile p = Some profile \<and>
     (enforce_external_kdf_policy p (evaluate Mobile) Unconfirmed = Inr () \<longleftrightarrow> within_limits Mobile Unconfirmed profile)"
proof -
  have "decode_kdbx4 (kdf_to_variant_dict (Argon2id 2 65536 1 [7])) =
      Inr \<lparr>kp_algorithm = Kdf_Argon2id, kp_material = Mat_Argon2 2 65536 1 [7]\<rparr>"
    by (subst decode_kdbx4_argon2 [where u = KDF_ARGON2ID_UUID])
      (simp_all add: kdf_to_variant_dict_def argon2_dict_def kdf_uuids)
  with external_kdf_bounded [OF this, of Mobile Unconfirmed] show ?thesis by blast
qed

text \<open>Work factors a file can be opened with again.\<close>

definition loadable :: "save_kdf \<Rightarrow> bool" where
  "loadable kdf \<longleftrightarrow>
     (case kdf of
        Save_AesKdbx4 rounds \<Rightarrow> rounds \<noteq> 0 \<and> rounds \<noteq> - 1
      | Save_Argon2d iterations memory_kib parallelism \<Rightarrow> iterations \<noteq> 0 \<and> memory_kib \<noteq> 0 \<and> parallelism \<noteq> 0
      | Save_Argon2id iterations memory_kib parallelism \<Rightarrow> iterations \<noteq> 0 \<and> memory_kib \<noteq> 0 \<and> parallelism \<noteq> 0)"

definition saved_parameters :: "kdf_profile \<Rightarrow> kdf_parameters option" where
  "saved_parameters profile =
     (case profile of
        AesKdbx3 _ _ \<Rightarrow> None
      | AesKdbx4 rounds salt \<Rightarrow> Some \<lparr>kp_algorithm = Kdf_AesKdbx4, kp_material = Mat_Aes rounds salt\<rparr>
      | Argon2d i m p salt \<Rightarrow> Some \<lparr>kp_algorithm = Kdf_Argon2d, kp_material = Mat_Argon2 i m p salt\<rparr>
      | Argon2id i m p salt \<Rightarrow> Some \<lparr>kp_algorithm = Kdf_Argon2id, kp_material = Mat_Argon2 i m p salt\<rparr>)"

lemma random_fill_length: "n \<le> length (random_fill draw i n acc)"
  by (induction draw i n acc rule: random_fill.induct) (subst random_fill.simps, auto)

lemma length_random_bytes [simp]: "length (random_bytes draw n) = n"
  using random_fill_length [of n draw 0 "[]"] by (simp add: random_bytes_def del: random_fill.simps)

lemma argon2_dict_get:
  "vd_get (argon2_dict u i m p salt) key =
    (if key = ''S'' then Some (V_Bytes salt) else if key = ''P'' then Some (V_UInt32 p)
     else if key = ''M'' then Some (V_UInt64 (ucast m * 1024)) else if key = ''I'' then Some (V_UInt64 (ucast i))
     else if key = ''V'' then Some (V_UInt32 0x13) else if key = ''$UUID'' then Some (V_Bytes (uuid_bytes u)) else None)"
  by (simp add: argon2_dict_def)

lemma decode_argon2_dict:
  assumes "u \<in> {KDF_ARGON2D_UUID, KDF_ARGON2ID_UUID}"
  shows "decode_kdbx4 (argon2_dict u i m p salt) = Inr q \<longleftrightarrow> i \<noteq> 0 \<and> m \<noteq> 0 \<and> p \<noteq> 0 \<and>
    q = \<lparr>kp_algorithm = (if u = KDF_ARGON2D_UUID then Kdf_Argon2d else Kdf_Argon2id), kp_material = Mat_Argon2 i m p salt\<rparr>"
proof -
  have mem: "ucast (a :: u32) * 1024 = (ucast b * 1024 :: u64) \<longleftrightarrow> a = b" for a b
    using uint_memory [of a] uint_memory [of b] by (auto simp: word_uint_eq_iff)
  have not_aes: "\<not> (u = KDF_AES_KDBX4_UUID \<or> u = KDF_AES_KDBX3_UUID)" and argon2: "u = KDF_ARGON2D_UUID \<or> u = KDF_ARGON2ID_UUID"
    using assms by (auto simp: kdf_uuids)
  show ?thesis
    by (subst decode_kdbx4_argon2 [OF _ not_aes argon2])
      (simp add: argon2_dict_get, auto simp: argon2_dict_get mem)
qed

lemma decode_saved:
  "decode_kdbx4 (kdf_to_variant_dict (build_kdf_profile draw kdf)) = Inr q \<longleftrightarrow>
     loadable kdf \<and> saved_parameters (build_kdf_profile draw kdf) = Some q"
proof (cases kdf)
  case (Save_AesKdbx4 rounds)
  have "decode_kdbx4 (kdf_to_variant_dict (AesKdbx4 rounds (random_bytes draw 32))) = Inr q \<longleftrightarrow>
      rounds \<noteq> 0 \<and> rounds \<noteq> - 1 \<and> q = \<lparr>kp_algorithm = Kdf_AesKdbx4, kp_material = Mat_Aes rounds (random_bytes draw 32)\<rparr>"
    by (subst decode_kdbx4_aes [where u = KDF_AES_KDBX4_UUID]) (auto simp: kdf_to_variant_dict_def)
  then show ?thesis
    unfolding Save_AesKdbx4 build_kdf_profile_def loadable_def saved_parameters_def
    by (simp only: save_kdf.case kdf_profile.case option.inject) blast
next
  case (Save_Argon2d i m p)
  then show ?thesis
    by (simp add: build_kdf_profile_def kdf_to_variant_dict_def decode_argon2_dict loadable_def saved_parameters_def)
      blast
next
  case (Save_Argon2id i m p)
  have "KDF_ARGON2ID_UUID \<noteq> KDF_ARGON2D_UUID" by (simp add: kdf_uuids)
  with Save_Argon2id show ?thesis
    by (simp add: build_kdf_profile_def kdf_to_variant_dict_def decode_argon2_dict loadable_def saved_parameters_def)
      blast
qed

lemma saved_profile: "saved_parameters profile = Some q \<Longrightarrow> into_profile q = Some profile"
  by (cases profile) (auto simp: saved_parameters_def into_profile_def)

lemma dictionary_ok_saved: "dictionary_ok (kdf_to_variant_dict (build_kdf_profile draw kdf))"
proof -
  have items: "item_ok (''$UUID'', V_Bytes (uuid_bytes u))" "item_ok (''R'', V_UInt64 r)" "item_ok (''V'', V_UInt32 w)"
    "item_ok (''I'', V_UInt64 r)" "item_ok (''M'', V_UInt64 r)" "item_ok (''P'', V_UInt32 w)"
    "item_ok (''S'', V_Bytes (random_bytes draw 32))" for u r w
    by (simp_all add: item_ok_def variant_ok_def encode_variant_value_def fits_i32_small)
  show ?thesis
    by (cases kdf) (simp_all add: build_kdf_profile_def kdf_to_variant_dict_def argon2_dict_def
        dictionary_ok_insert items)
qed

lemma decode_kdbx4_cong:
  assumes "vd_items d = vd_items d'"
  shows "decode_kdbx4 d = decode_kdbx4 d'"
proof -
  have get: "vd_get d = vd_get d'" by (rule ext) (simp add: vd_get_def assms)
  then have req: "required_u64 d = required_u64 d'" "required_bytes d = required_bytes d'"
    by (simp_all add: fun_eq_iff required_u64_def required_bytes_def)
  have "decode_parallelism a d = decode_parallelism a d'" for a by (simp add: decode_parallelism_def get)
  then show ?thesis unfolding decode_kdbx4_def by (simp only: get req)
qed

text \<open>C36. Key derivation parameters survive a save: the bytes written for a requested derivation read back,
  on the next save without a request, as exactly the profile that was written, salt included, and the work
  factors shown to the user are the requested ones. This is so exactly when no work factor is zero and the
  rounds are not \<open>u64::MAX\<close>; otherwise the file just written is refused when it is opened.\<close>

theorem saved_kdf_reloads:
  "\<exists>bs. vd_encode (kdf_to_variant_dict (build_kdf_profile draw kdf)) = Inr bs \<and>
    (if loadable kdf
     then save_kdf_state draw' (Some bs) None = Inr (Some (build_kdf_profile draw kdf),
            \<lparr>vd_items = vd_items (kdf_to_variant_dict (build_kdf_profile draw kdf)), vd_loaded_encoding = Some bs\<rparr>) \<and>
          retained_or_recommended_save_kdf (Some bs) = Inr kdf
     else \<not> is_ok (save_kdf_state draw' (Some bs) None) \<and> \<not> is_ok (retained_or_recommended_save_kdf (Some bs)))"
proof -
  let ?profile = "build_kdf_profile draw kdf"
  let ?dict = "kdf_to_variant_dict ?profile"
  obtain bs where bs: "vd_encode ?dict = Inr bs"
    "vd_decode bs = Inr \<lparr>vd_items = vd_items ?dict, vd_loaded_encoding = Some bs\<rparr>"
    using dictionary_roundtrip [OF dictionary_ok_saved] by blast
  have same: "decode_kdbx4 \<lparr>vd_items = vd_items ?dict, vd_loaded_encoding = Some bs\<rparr> = decode_kdbx4 ?dict"
    by (rule decode_kdbx4_cong) simp
  show ?thesis
  proof (cases "loadable kdf")
    case True
    obtain q where q: "saved_parameters ?profile = Some q"
      by (cases kdf) (simp_all add: build_kdf_profile_def saved_parameters_def)
    with True have "decode_kdbx4 ?dict = Inr q" by (simp add: decode_saved)
    with True q bs same show ?thesis
      by (cases kdf) (auto simp: save_kdf_state_def retained_or_recommended_save_kdf_def saved_profile
          build_kdf_profile_def saved_parameters_def kdf_rounds_def argon2_work_factors_def)
  next
    case False
    then have "decode_kdbx4 ?dict \<noteq> Inr q" for q by (simp add: decode_saved)
    then obtain e where "decode_kdbx4 ?dict = Inl e" by (cases "decode_kdbx4 ?dict") auto
    with False bs same show ?thesis
      by (auto simp: save_kdf_state_def retained_or_recommended_save_kdf_def)
  qed
qed

section \<open>Generations identify the parameters\<close>

text \<open>The reader a canonical entry would have.\<close>

definition read_len32 :: "cursor \<Rightarrow> kdbx_error + bytes \<times> cursor" where
  "read_len32 c = and_then (read_u32 c) (\<lambda>(n, c1). read_exact (unat n) c1)"

interpretation len32: reader read_len32 sized_u32 "\<lambda>x. length x < 2 ^ 32"
proof unfold_locales
  fix pre rest x :: bytes and c
  have len: "length x = unat (w :: u32) \<longleftrightarrow> length x < 2 ^ 32 \<and> word_of_nat (length x) = w" for w
    using unsigned_less [where 'a = nat, of w]
    by (auto simp: unat_of_nat intro: word_of_nat_eq_iff [THEN iffD2])
  show "read_len32 (cursor_at pre rest) = Inr (x, c) \<longleftrightarrow> length x < 2 ^ 32 \<and>
      (\<exists>post. rest = sized_u32 x @ post \<and> c = cursor_at (pre @ sized_u32 x) post)"
    by (auto simp: read_len32_def sized_u32_def and_then_eq_Inr r32.read_iff read_exact_iff len)
qed

interpretation tagged: reader_pair read_u8 "\<lambda>x. [x]" "\<lambda>_. True" read_len32 sized_u32 "\<lambda>x. length x < 2 ^ 32"
  by unfold_locales

interpretation canonical: reader_pair read_len32 sized_u32 "\<lambda>x. length x < 2 ^ 32"
  "\<lambda>c. and_then (read_u8 c) (\<lambda>(x, c1). and_then (read_len32 c1) (\<lambda>(y, c2). Inr ((x, y), c2)))"
  "\<lambda>(x, y). [x] @ sized_u32 y" "\<lambda>(x, y). True \<and> length y < 2 ^ 32"
  by unfold_locales

definition generation_ok :: "variant_dictionary \<Rightarrow> bool" where
  "generation_ok d \<longleftrightarrow> dictionary_ok d \<and>
     (\<forall>(key, v) \<in> set (vd_items d). length key < 2 ^ 32 \<and> length (snd (encode_variant_value v)) < 2 ^ 32)"

definition raw_entry :: "string \<times> variant_value \<Rightarrow> bytes \<times> u8 \<times> bytes" where
  "raw_entry item = (text_bytes (fst item), encode_variant_value (snd item))"

lemma canonical_raw:
  "canonical_kdf_params d = concat (map (\<lambda>(x, y). sized_u32 x @ (case y of (x, y) \<Rightarrow> [x] @ sized_u32 y)) (map raw_entry (vd_items d)))"
  by (simp add: canonical_kdf_params_def canonical_kdf_entries_def raw_entry_def comp_def case_prod_unfold)

lemma raw_entry_inj: "item_ok a \<Longrightarrow> item_ok b \<Longrightarrow> raw_entry a = raw_entry b \<Longrightarrow> a = b"
proof -
  assume ok: "item_ok a" "item_ok b" and eq: "raw_entry a = raw_entry b"
  then have "fst a = fst b" "encode_variant_value (snd a) = encode_variant_value (snd b)"
    by (auto simp: raw_entry_def dest: text_bytes_inj)
  moreover have "decode_variant_value (fst (encode_variant_value (snd a))) (snd (encode_variant_value (snd a))) = Inr (snd a)"
    "decode_variant_value (fst (encode_variant_value (snd b))) (snd (encode_variant_value (snd b))) = Inr (snd b)"
    using ok by (simp_all only: item_ok_def decode_encode_variant(1))
  ultimately have "fst a = fst b" "Inr (snd a) = (Inr (snd b) :: kdbx_error + variant_value)" by metis+
  then show "a = b" by (simp add: prod_eq_iff)
qed

lemma raw_entries_inj:
  "list_all item_ok xs \<Longrightarrow> list_all item_ok ys \<Longrightarrow> map raw_entry xs = map raw_entry ys \<Longrightarrow> xs = ys"
proof (induction xs arbitrary: ys)
  case (Cons x xs)
  then obtain y ys' where ys: "ys = y # ys'" "raw_entry x = raw_entry y" "map raw_entry xs = map raw_entry ys'"
    by (cases ys) simp_all
  then have ok: "item_ok x" "item_ok y" "list_all item_ok xs" "list_all item_ok ys'" using Cons.prems by simp_all
  from raw_entry_inj [OF ok(1,2) ys(2)] Cons.IH [OF ok(3,4) ys(3)] show ?case unfolding ys(1) by simp
qed simp

lemma canonical_params_iff:
  assumes "generation_ok d" and "generation_ok d'"
  shows "canonical_kdf_params d = canonical_kdf_params d' \<longleftrightarrow> same_dictionary d d'"
proof
  assume eq: "canonical_kdf_params d = canonical_kdf_params d'"
  let ?ok = "\<lambda>(x, y). length x < 2 ^ 32 \<and> (case y of (x, y) \<Rightarrow> True \<and> length y < 2 ^ 32)"
  have ok: "list_all ?ok (map raw_entry (vd_items e))" if "generation_ok e" for e
    using that by (auto simp: generation_ok_def raw_entry_def list_all_iff case_prod_unfold)
  have "map raw_entry (vd_items d) = map raw_entry (vd_items d')"
    by (rule canonical.both.written_list_unique [OF _ ok [OF assms(1)] ok [OF assms(2)] eq [unfolded canonical_raw]])
      (auto simp: sized_u32_def)
  then show "same_dictionary d d'"
    using assms raw_entries_inj by (auto simp: generation_ok_def dictionary_ok_def same_dictionary_def)
qed (simp add: canonical_kdf_params_def same_dictionary_def)

text \<open>C37. The generation that decides whether a quick-unlock enrolment is still valid identifies the key
  derivation parameters: two dictionaries have the same canonical bytes exactly when they have the same
  entries, so they have the same generation exactly when the entries agree, unless SHA-256 collides on the
  two canonical encodings.\<close>

theorem kdf_generation_faithful:
  assumes "generation_ok d" and "generation_ok d'"
  shows "kdf_generation deps d = kdf_generation deps d' \<longleftrightarrow>
    same_dictionary d d' \<or>
    canonical_kdf_params d \<noteq> canonical_kdf_params d' \<and>
      dep_sha256 deps (canonical_kdf_params d) = dep_sha256 deps (canonical_kdf_params d')"
  using canonical_params_iff [OF assms] by (auto simp: kdf_generation_def)

lemma kdf_generation_faithful_witness:
  "kdf_generation example_deps (vd_insert ''R'' (V_UInt64 6) default_dictionary) \<noteq>
   kdf_generation example_deps (vd_insert ''R'' (V_UInt32 6) default_dictionary)"
proof -
  have ok: "generation_ok (vd_insert ''R'' (V_UInt64 6) default_dictionary)"
    "generation_ok (vd_insert ''R'' (V_UInt32 6) default_dictionary)"
    by (simp_all add: generation_ok_def dictionary_ok_insert item_ok_def variant_ok_def encode_variant_value_def
        fits_i32_small) (simp_all add: vd_insert_def default_dictionary_def)
  show ?thesis
    unfolding kdf_generation_faithful [OF ok]
    by (simp add: same_dictionary_def vd_insert_def default_dictionary_def canonical_kdf_params_def
        canonical_kdf_entries_def encode_variant_value_def sized_u32_def example_deps_def text_bytes_def)
qed

text \<open>Different bytes of the same entries have the same generation: any non-zero byte is the truth value
  \<open>true\<close>.\<close>

lemma bool_bytes_same_items:
  assumes "b \<noteq> 0"
  shows "decode_items (u16_le dictionary_version @ wire_item (8, text_bytes ''X'', [b]) @ [0]) = Inr [(''X'', V_Bool True)]"
proof -
  have "decode_utf8 (text_bytes ''X'') = Inr ''X''" by (rule decode_utf8_text) simp
  then show ?thesis
    unfolding decode_items_iff using assms
    by (intro exI [of _ "[(8, text_bytes ''X'', [b])]"] exI [of _ "[]"])
      (simp add: decode_variant_value_def bt_extend_Cons)
qed

end
