(* ===== verification/Container.thy ===== *)
theory Container
  imports Blocks Kdf
begin

text \<open>
  Opening and sealing a KDBX file (\<^verbatim>\<open>crates/vaultkern-kdbx/src/lib.rs\<close>): deriving the transformed key
  under the policy, the authenticated stages of loading up to the inner XML document, and the writer
  from the XML document to the sealed. Parsing and building the XML document itself lies outside: the
  loader returns it, the writer is given it. The properties say that what was sealed opens again, and
  that what opens was authenticated in every byte that matters.
\<close>

section \<open>Opening\<close>

definition content_hash :: "kdbx_deps \<Rightarrow> bytes \<Rightarrow> content_id" where
  "content_hash deps bs = word_from_le (rev (sha256_bytes deps bs))"

text \<open>\<open>the (into_profile p)\<close> is never taken at \<open>None\<close>, by \<open>decoded_profile\<close>.\<close>

definition derive_transformed_key_with_policy ::
    "kdbx_deps \<Rightarrow> bytes \<Rightarrow> composite_key \<Rightarrow> (kdf_request \<Rightarrow> kdf_decision) \<Rightarrow> kdf_confirmation \<Rightarrow> kdbx_error + bytes" where
  "derive_transformed_key_with_policy deps bs key policy confirmation =
     and_then (detect_file_version bs) (\<lambda>version.
       if version \<noteq> V4_0 \<and> version \<noteq> V4_1 then Inl UnsupportedVersion
       else and_then (header_decode_with_consumed bs) (\<lambda>(h, header_len).
            and_then (read_exact 32 (new_cursor (drop header_len bs))) (\<lambda>(stored_header_hash, _).
              if sha256_bytes deps (take header_len bs) \<noteq> stored_header_hash then Inl HeaderHashMismatch
              else and_then (decode_kdbx4 (kh_kdf_parameters h)) (\<lambda>parameters.
                   and_then (enforce_external_kdf_policy parameters policy confirmation) (\<lambda>_.
                   and_then (from_crypto (raw_key (kd_crypto deps) key)) (\<lambda>raw.
                     from_crypto (derive_key (kd_crypto deps) (the (into_profile parameters)) raw)))))))"

definition derive_transformed_key :: "kdbx_deps \<Rightarrow> bytes \<Rightarrow> composite_key \<Rightarrow> kdbx_error + bytes" where
  "derive_transformed_key deps bs key =
     derive_transformed_key_with_policy deps bs key (evaluate Mobile) Unconfirmed"

datatype kdbx_load_stage = Stage_Header | Stage_HeaderAuthentication | Stage_PayloadBlocks
  | Stage_Decryption | Stage_Decompression | Stage_InnerHeader | Stage_XmlDocument | Stage_XmlShape
  | Stage_XmlProjection

definition load_stage :: "kdbx_load_stage \<Rightarrow> kdbx_error + 'a \<Rightarrow> kdbx_load_stage \<times> kdbx_error + 'a" where
  "load_stage stage r = (case r of Inl e \<Rightarrow> Inl (stage, e) | Inr x \<Rightarrow> Inr x)"

lemma load_stage_Inr: "load_stage stage r = Inr x \<longleftrightarrow> r = Inr x"
  by (cases r) (simp_all add: load_stage_def)

lemma load_stage_ok [simp]: "load_stage stage (Inr x) = Inr x"
  by (simp add: load_stage_def)

record opened_container =
  oc_header :: kdbx_header
  oc_inner_algorithm :: u32
  oc_inner_key :: bytes
  oc_binaries :: "inner_binary list"
  oc_xml :: bytes

definition read_outer :: "bytes \<Rightarrow> kdbx_error + kdbx_header \<times> nat \<times> bytes \<times> bytes \<times> bytes" where
  "read_outer bs =
     and_then (detect_file_version bs) (\<lambda>version.
       if version \<noteq> V4_0 \<and> version \<noteq> V4_1 then Inl UnsupportedVersion
       else and_then (header_decode_with_consumed bs) (\<lambda>(h, header_len).
            and_then (read_exact 32 (new_cursor (drop header_len bs))) (\<lambda>(stored_header_hash, c1).
            and_then (read_exact 32 c1) (\<lambda>(stored_header_hmac, c2).
              Inr (h, header_len, stored_header_hash, stored_header_hmac, fst (read_remaining c2))))))"

definition authenticate_header ::
    "kdbx_deps \<Rightarrow> kdbx_header \<Rightarrow> bytes \<Rightarrow> bytes \<Rightarrow> bytes \<Rightarrow> bytes \<Rightarrow> kdbx_error + unit" where
  "authenticate_header deps h transformed header_bytes stored_header_hash stored_header_hmac =
     (if sha256_bytes deps header_bytes \<noteq> stored_header_hash then Inl HeaderHashMismatch
      else and_then (header_hmac deps (mac_seed deps (kh_master_seed h) transformed) header_bytes) (\<lambda>mac.
             if mac \<noteq> stored_header_hmac then Inl HeaderHmacMismatch else Inr ()))"

definition decompress_payload ::
    "kdbx_deps \<Rightarrow> kdbx_header \<Rightarrow> bytes \<Rightarrow> kdbx_load_stage \<times> kdbx_error + bytes" where
  "decompress_payload deps h payload =
     (case kh_compression h of
        No_Compression \<Rightarrow> Inr payload
      | Gzip \<Rightarrow> load_stage Stage_Decompression (gzip_decompress deps payload))"

definition open_with_transformed_key ::
    "kdbx_deps \<Rightarrow> bytes \<Rightarrow> bytes \<Rightarrow> kdbx_load_stage \<times> kdbx_error + opened_container" where
  "open_with_transformed_key deps bs transformed =
     and_then (load_stage Stage_Header (read_outer bs))
       (\<lambda>(h, header_len, stored_header_hash, stored_header_hmac, payload_bytes).
     and_then (load_stage Stage_HeaderAuthentication
         (authenticate_header deps h transformed (take header_len bs) stored_header_hash stored_header_hmac)) (\<lambda>_.
       let encryption_key = sha256_seeded deps (kh_master_seed h) transformed;
           seed = mac_seed deps (kh_master_seed h) transformed in
       and_then (load_stage Stage_PayloadBlocks (decode_block_stream deps seed payload_bytes)) (\<lambda>encrypted_payload.
       and_then (load_stage Stage_Decryption
           (decrypt_payload deps (kh_cipher h) encryption_key (kh_encryption_iv h) encrypted_payload)) (\<lambda>compressed.
       and_then (decompress_payload deps h compressed) (\<lambda>payload.
       and_then (load_stage Stage_InnerHeader (parse_inner_header (content_hash deps) payload))
         (\<lambda>(inner_algorithm, inner_key, binaries, consumed).
         Inr \<lparr>oc_header = h, oc_inner_algorithm = inner_algorithm, oc_inner_key = inner_key,
              oc_binaries = binaries, oc_xml = drop consumed payload\<rparr>))))))"

text \<open>KDBX 3: the policy is applied, the payload decrypted, its start bytes and block hashes checked; the
  XML parser is given the document, the header bytes, the protected stream's key and its id.\<close>

definition open_kdbx3 ::
    "kdbx_deps \<Rightarrow> bytes \<Rightarrow> composite_key \<Rightarrow> (kdf_request \<Rightarrow> kdf_decision) \<Rightarrow> kdf_confirmation \<Rightarrow>
     kdbx_error + bytes \<times> bytes \<times> bytes \<times> u32" where
  "open_kdbx3 deps bs key policy confirmation =
     and_then (decode_kdbx3_header bs) (\<lambda>(h, header_len).
     and_then (decode_kdbx3 (k3_transform_rounds h) (k3_transform_seed h)) (\<lambda>parameters.
     and_then (enforce_external_kdf_policy parameters policy confirmation) (\<lambda>_.
     and_then (from_crypto (raw_key (kd_crypto deps) key)) (\<lambda>raw.
     and_then (from_crypto (derive_key (kd_crypto deps) (the (into_profile parameters)) raw)) (\<lambda>transformed.
       let encryption_key = sha256_seeded deps (k3_master_seed h) transformed in
       and_then (decrypt_payload deps (k3_cipher h) encryption_key (k3_encryption_iv h) (drop header_len bs)) (\<lambda>payload.
         let n = length (k3_stream_start_bytes h) in
         if length payload < n \<or> take n payload \<noteq> k3_stream_start_bytes h then Inl HeaderHashMismatch
         else and_then (decode_legacy_block_stream deps (drop n payload)) (\<lambda>block_payload.
              and_then (case k3_compression h of No_Compression \<Rightarrow> Inr block_payload
                        | Gzip \<Rightarrow> gzip_decompress deps block_payload) (\<lambda>xml.
                Inr (xml, take header_len bs, k3_protected_stream_key h, k3_inner_random_stream_id h)))))))))"

section \<open>Sealing\<close>

definition random_iv :: "(nat \<Rightarrow> uuid) \<Rightarrow> kdbx_cipher \<Rightarrow> bytes" where
  "random_iv draw cipher =
     (case cipher of Aes256 \<Rightarrow> random_bytes draw 16 | Twofish \<Rightarrow> random_bytes draw 16 | ChaCha20 \<Rightarrow> random_bytes draw 12)"

text \<open>The randomness is drawn in three places; \<open>validated\<close> is the result of \<open>validate_vault_model\<close> and
  \<open>required\<close> that of \<open>required_version\<close>.\<close>

definition prepare_save ::
    "(nat \<Rightarrow> uuid) \<Rightarrow> (nat \<Rightarrow> uuid) \<Rightarrow> (nat \<Rightarrow> uuid) \<Rightarrow> kdbx_error + unit \<Rightarrow> kdbx_version \<Rightarrow> bytes option \<Rightarrow>
     (string, bytes) btree \<Rightarrow> save_profile \<Rightarrow> kdbx_error + kdbx_header \<times> kdf_profile option" where
  "prepare_save draw_seed draw_iv draw_salt validated required kdf_bytes public_data profile =
     (if sp_version profile \<noteq> V4_0 \<and> sp_version profile \<noteq> V4_1 then Inl UnsupportedVersion
      else and_then validated (\<lambda>_.
        if required = V4_1 \<and> sp_version profile \<noteq> V4_1 then Inl UnsupportedVersion
        else and_then (save_kdf_state draw_salt kdf_bytes (sp_kdf profile)) (\<lambda>(kdf, parameters).
          let h = (new_header (sp_version profile) (sp_cipher profile))
                \<lparr>kh_compression := sp_compression profile,
                 kh_master_seed := random_bytes draw_seed 32,
                 kh_encryption_iv := random_iv draw_iv (sp_cipher profile),
                 kh_kdf_parameters := parameters\<rparr>
          in Inr (h\<lparr>kh_public_custom_data :=
                fold (\<lambda>(key, v). vd_insert key (V_Bytes v)) public_data (kh_public_custom_data h)\<rparr>, kdf))))"

definition seal_container ::
    "kdbx_deps \<Rightarrow> save_profile \<Rightarrow> kdbx_header \<Rightarrow> bytes \<Rightarrow> bytes \<Rightarrow> inner_binary list \<Rightarrow> bytes \<Rightarrow> kdbx_error + bytes" where
  "seal_container deps profile h transformed inner_key binaries xml =
     (let encryption_key = sha256_seeded deps (kh_master_seed h) transformed;
          seed = mac_seed deps (kh_master_seed h) transformed;
          payload = build_inner_header inner_key binaries @ xml in
      and_then (case sp_compression profile of No_Compression \<Rightarrow> Inr payload | Gzip \<Rightarrow> gzip_compress deps payload) (\<lambda>payload.
      and_then (encrypt_payload deps (sp_cipher profile) encryption_key (kh_encryption_iv h) payload) (\<lambda>encrypted_payload.
      and_then (encode_block_stream deps seed encrypted_payload) (\<lambda>block_stream.
      and_then (header_encode h) (\<lambda>header_bytes.
      and_then (header_hmac deps seed header_bytes) (\<lambda>mac.
        Inr (header_bytes @ sha256_bytes deps header_bytes @ mac @ block_stream)))))))"

section \<open>Prepared headers\<close>

definition public_data_ok :: "(string, bytes) btree \<Rightarrow> bool" where
  "public_data_ok public_data \<longleftrightarrow> bt_wf public_data \<and>
     (\<forall>(key, v) \<in> set public_data. utf8_valid key \<and> fits_i32 (length key) \<and> fits_i32 (length v))"

lemma public_dictionary_ok:
  assumes "\<forall>(key, v) \<in> set public_data. utf8_valid key \<and> fits_i32 (length key) \<and> fits_i32 (length v)"
    and "dictionary_ok d"
  shows "dictionary_ok (fold (\<lambda>(key, v). vd_insert key (V_Bytes v)) public_data d)"
  using assms
proof (induction public_data arbitrary: d)
  case (Cons item public_data)
  obtain key v where item: "item = (key, v)" by (cases item)
  have "item_ok (key, V_Bytes v)" using Cons.prems(1) item
    by (simp add: item_ok_def variant_ok_def encode_variant_value_def)
  then show ?case using Cons item by (simp add: dictionary_ok_insert)
qed simp

lemma save_kdf_state_ok:
  assumes "save_kdf_state draw kdf_bytes requested = Inr (kdf, parameters)"
  shows "dictionary_ok parameters"
  using assms dictionary_ok_decode
  by (auto simp: save_kdf_state_def and_then_eq_Inr Let_def dictionary_ok_saved split: option.split_asm)

text \<open>A prepared header is well formed as soon as its two dictionaries fit the length fields.\<close>

lemma prepared_header_ok:
  assumes "prepare_save draw_seed draw_iv draw_salt validated required kdf_bytes public_data profile = Inr (h, kdf)"
    and "public_data_ok public_data"
    and "\<forall>bs. vd_encode (kh_kdf_parameters h) = Inr bs \<or> vd_encode (kh_public_custom_data h) = Inr bs \<longrightarrow> fits_i32 (length bs)"
  shows "header_ok h \<and> iv_ok (kh_cipher h) (kh_encryption_iv h) \<and> kh_cipher h = sp_cipher profile \<and>
    kh_compression h = sp_compression profile \<and> kh_version h = sp_version profile"
proof -
  obtain parameters where k: "save_kdf_state draw_salt kdf_bytes (sp_kdf profile) = Inr (kdf, parameters)"
    and v: "sp_version profile = V4_0 \<or> sp_version profile = V4_1"
    and h: "h = (new_header (sp_version profile) (sp_cipher profile))
                \<lparr>kh_compression := sp_compression profile,
                 kh_master_seed := random_bytes draw_seed 32,
                 kh_encryption_iv := random_iv draw_iv (sp_cipher profile),
                 kh_kdf_parameters := parameters,
                 kh_public_custom_data := fold (\<lambda>(key, v). vd_insert key (V_Bytes v)) public_data default_dictionary\<rparr>"
    using assms(1) by (auto simp: prepare_save_def and_then_eq_Inr new_header_def Let_def split: if_split_asm)
  have "dictionary_ok parameters" using k by (rule save_kdf_state_ok)
  moreover have "dictionary_ok (fold (\<lambda>(key, v). vd_insert key (V_Bytes v)) public_data default_dictionary)"
    using assms(2) by (intro public_dictionary_ok) (simp_all add: public_data_ok_def)
  ultimately show ?thesis
    using assms(3) v unfolding h
    by (cases "sp_cipher profile")
      (auto simp: header_ok_def dictionary_fits_def new_header_def random_iv_def iv_ok_def fits_i32_small)
qed

section \<open>Properties\<close>

lemma same_header_seed:
  "same_header h h' \<Longrightarrow> kh_master_seed h' = kh_master_seed h \<and> kh_cipher h' = kh_cipher h \<and>
    kh_encryption_iv h' = kh_encryption_iv h \<and> kh_compression h' = kh_compression h \<and> kh_version h' = kh_version h"
  by (simp add: same_header_def)

lemma detect_version_written:
  assumes "header_decode_with_consumed bs = Inr (h, n)"
  shows "\<exists>version. detect_file_version bs = Inr version \<and> (version = V4_0 \<or> version = V4_1)"
proof -
  from assms obtain version v rest where "version \<in> {V4_0, V4_1}" "u32_to_version v = Inr version"
    "bs = u32_le signature_1 @ u32_le signature_2 @ u32_le v @ rest"
    unfolding read_header_prefix by auto
  moreover have "read_u32 (cursor_at [] (u32_le signature_1 @ u32_le signature_2 @ u32_le v @ rest)) =
      Inr (signature_1, cursor_at ([] @ u32_le signature_1) (u32_le signature_2 @ u32_le v @ rest))"
    by (rule r32.read_written) simp
  moreover have "read_u32 (cursor_at ([] @ u32_le signature_1) (u32_le signature_2 @ u32_le v @ rest)) =
      Inr (signature_2, cursor_at (([] @ u32_le signature_1) @ u32_le signature_2) (u32_le v @ rest))"
    by (rule r32.read_written) simp
  moreover have "read_u32 (cursor_at (([] @ u32_le signature_1) @ u32_le signature_2) (u32_le v @ rest)) =
      Inr (v, cursor_at ((([] @ u32_le signature_1) @ u32_le signature_2) @ u32_le v) rest)"
    by (rule r32.read_written) simp
  ultimately show ?thesis by (auto simp: detect_file_version_def new_cursor_at)
qed

lemma read_outer_iff:
  "read_outer bs = Inr (h, n, hash, mac, payload) \<longleftrightarrow>
     header_decode_with_consumed bs = Inr (h, n) \<and> length hash = 32 \<and> length mac = 32 \<and>
     bs = take n bs @ hash @ mac @ payload"
proof
  assume "read_outer bs = Inr (h, n, hash, mac, payload)"
  then obtain c1 c2 where r: "header_decode_with_consumed bs = Inr (h, n)"
    "read_exact 32 (cursor_at [] (drop n bs)) = Inr (hash, c1)" "read_exact 32 c1 = Inr (mac, c2)"
    "payload = fst (read_remaining c2)"
    by (auto simp: read_outer_def new_cursor_at and_then_eq_Inr split: if_split_asm)
  from r(2) obtain rest where "length hash = 32" "drop n bs = hash @ rest" "c1 = cursor_at hash rest"
    by (auto simp: read_exact_iff)
  with r(3,4) show "header_decode_with_consumed bs = Inr (h, n) \<and> length hash = 32 \<and> length mac = 32 \<and>
     bs = take n bs @ hash @ mac @ payload"
    using r(1) append_take_drop_id [of n bs] by (auto simp: read_exact_iff read_remaining_at)
next
  assume a: "header_decode_with_consumed bs = Inr (h, n) \<and> length hash = 32 \<and> length mac = 32 \<and>
     bs = take n bs @ hash @ mac @ payload"
  then have "drop n bs = hash @ mac @ payload" by (metis append_take_drop_id same_append_eq)
  moreover have "read_exact 32 (cursor_at [] (hash @ mac @ payload)) = Inr (hash, cursor_at ([] @ hash) (mac @ payload))"
    by (rule raw.read_written) (use a in simp)
  moreover have "read_exact 32 (cursor_at ([] @ hash) (mac @ payload)) = Inr (mac, cursor_at (([] @ hash) @ mac) payload)"
    by (rule raw.read_written) (use a in simp)
  moreover obtain version where "detect_file_version bs = Inr version" "version = V4_0 \<or> version = V4_1"
    using a detect_version_written by blast
  ultimately show "read_outer bs = Inr (h, n, hash, mac, payload)"
    using a by (auto simp: read_outer_def new_cursor_at read_remaining_at)
qed

lemma header_hmac_length:
  assumes "deps_ok deps" and "header_hmac deps seed hb = Inr mac"
  shows "length mac = 32"
proof -
  obtain m where "dep_hmac (kd_crypto deps) OtpSha256 (kd_sha512 deps (rev (replicate 8 0xFF) @ seed)) hb = Some m" "length m = 32"
    using deps_hmac [OF assms(1)] by blast
  with assms(2) show ?thesis by (simp add: header_hmac_def hmac_sha256_def Let_def)
qed

lemma authenticate_iff:
  "authenticate_header deps h transformed hb hash mac = Inr u \<longleftrightarrow>
     hash = sha256_bytes deps hb \<and> header_hmac deps (mac_seed deps (kh_master_seed h) transformed) hb = Inr mac"
  by (auto simp: authenticate_header_def and_then_eq_Inr)

text \<open>The parts of an opened file. What the loader accepts is determined by its authenticated parts.\<close>

definition authentic :: "kdbx_deps \<Rightarrow> bytes \<Rightarrow> bytes \<Rightarrow> opened_container \<Rightarrow> bytes \<Rightarrow> bytes \<Rightarrow> bytes list \<Rightarrow> bytes \<Rightarrow> bytes \<Rightarrow> bool" where
  "authentic deps bs transformed oc header_bytes mac cs enc rest \<longleftrightarrow>
     (let h = oc_header oc; seed = mac_seed deps (kh_master_seed h) transformed in
      bs = header_bytes @ sha256_bytes deps header_bytes @ mac @ enc @ rest \<and>
      header_decode_with_consumed bs = Inr (h, length header_bytes) \<and>
      header_hmac deps seed header_bytes = Inr mac \<and>
      list_all chunk_ok cs \<and> framed deps seed 0 cs = Inr enc \<and>
      (\<exists>compressed payload n.
         decrypt_payload deps (kh_cipher h) (sha256_seeded deps (kh_master_seed h) transformed)
           (kh_encryption_iv h) (concat cs) = Inr compressed \<and>
         decompress_payload deps h compressed = Inr payload \<and>
         parse_inner_header (content_hash deps) payload =
           Inr (oc_inner_algorithm oc, oc_inner_key oc, oc_binaries oc, n) \<and>
         oc_xml oc = drop n payload))"

lemma open_authentic:
  assumes "deps_ok deps"
  shows "open_with_transformed_key deps bs transformed = Inr oc \<longleftrightarrow>
    (\<exists>header_bytes mac cs enc rest. authentic deps bs transformed oc header_bytes mac cs enc rest)"
proof
  assume "open_with_transformed_key deps bs transformed = Inr oc"
  then obtain h n hash mac payload_bytes encrypted compressed payload alg key bins k where
    o: "read_outer bs = Inr (h, n, hash, mac, payload_bytes)"
    and a: "authenticate_header deps h transformed (take n bs) hash mac = Inr ()"
    and b: "decode_block_stream deps (mac_seed deps (kh_master_seed h) transformed) payload_bytes = Inr encrypted"
    and d: "decrypt_payload deps (kh_cipher h) (sha256_seeded deps (kh_master_seed h) transformed)
           (kh_encryption_iv h) encrypted = Inr compressed"
    and z: "decompress_payload deps h compressed = Inr payload"
    and i: "parse_inner_header (content_hash deps) payload = Inr (alg, key, bins, k)"
    and oc: "oc = \<lparr>oc_header = h, oc_inner_algorithm = alg, oc_inner_key = key, oc_binaries = bins, oc_xml = drop k payload\<rparr>"
    by (auto simp: open_with_transformed_key_def and_then_eq_Inr load_stage_Inr Let_def)
  from o have r: "header_decode_with_consumed bs = Inr (h, n)" "bs = take n bs @ hash @ mac @ payload_bytes"
    by (auto simp: read_outer_iff)
  then have n: "length (take n bs) = n" using decoded_header_ok by fastforce
  from b obtain cs enc rest where "list_all chunk_ok cs"
    "framed deps (mac_seed deps (kh_master_seed h) transformed) 0 cs = Inr enc" "payload_bytes = enc @ rest" "encrypted = concat cs"
    by (auto simp: decode_block_stream_iff [OF assms])
  then have "authentic deps bs transformed oc (take n bs) mac cs enc rest"
    using r n a d z i unfolding authentic_def Let_def oc authenticate_iff by auto
  then show "\<exists>header_bytes mac cs enc rest. authentic deps bs transformed oc header_bytes mac cs enc rest" by blast
next
  assume "\<exists>header_bytes mac cs enc rest. authentic deps bs transformed oc header_bytes mac cs enc rest"
  then obtain hb mac cs enc rest where au: "authentic deps bs transformed oc hb mac cs enc rest" by blast
  let ?h = "oc_header oc"
  let ?seed = "mac_seed deps (kh_master_seed ?h) transformed"
  from au have parts: "bs = hb @ sha256_bytes deps hb @ mac @ enc @ rest"
      "header_decode_with_consumed bs = Inr (?h, length hb)" "header_hmac deps ?seed hb = Inr mac"
      "list_all chunk_ok cs" "framed deps ?seed 0 cs = Inr enc"
    unfolding authentic_def Let_def by blast+
  note bs = parts(1) and dec = parts(2) and mac = parts(3) and cs = parts(4,5)
  from au obtain compressed payload n where
    d: "decrypt_payload deps (kh_cipher ?h) (sha256_seeded deps (kh_master_seed ?h) transformed)
           (kh_encryption_iv ?h) (concat cs) = Inr compressed"
    and z: "decompress_payload deps ?h compressed = Inr payload"
    and i: "parse_inner_header (content_hash deps) payload =
           Inr (oc_inner_algorithm oc, oc_inner_key oc, oc_binaries oc, n)" "oc_xml oc = drop n payload"
    by (auto simp: authentic_def Let_def)
  have take: "take (length hb) bs = hb" using bs by simp
  have "read_outer bs = Inr (?h, length hb, sha256_bytes deps hb, mac, enc @ rest)"
    unfolding read_outer_iff take
    using dec bs deps_sha256 [OF assms] header_hmac_length [OF assms mac] by simp
  moreover have "authenticate_header deps ?h transformed hb (sha256_bytes deps hb) mac = Inr ()"
    using mac by (simp add: authenticate_iff)
  moreover have "decode_block_stream deps ?seed (enc @ rest) = Inr (concat cs)"
    using cs decode_block_stream_iff [OF assms] by blast
  ultimately show "open_with_transformed_key deps bs transformed = Inr oc"
    using d z i by (simp add: open_with_transformed_key_def Let_def take)
qed

lemma sealed_file:
  assumes deps: "deps_ok deps" and h: "header_ok h" "iv_ok (kh_cipher h) (kh_encryption_iv h)"
    "kh_cipher h = sp_cipher profile" "kh_compression h = sp_compression profile"
    and inner: "binaries_ok (content_hash deps) binaries" "fits_i32 (length inner_key)"
  shows "\<exists>sealed h' hb rest. seal_container deps profile h transformed inner_key binaries xml = Inr sealed \<and>
    same_header h h' \<and> sealed = hb @ sha256_bytes deps hb @ rest \<and>
    header_decode_with_consumed sealed = Inr (h', length hb) \<and>
    open_with_transformed_key deps sealed transformed =
      Inr \<lparr>oc_header = h', oc_inner_algorithm = 3, oc_inner_key = inner_key, oc_binaries = binaries, oc_xml = xml\<rparr>"
proof -
  let ?payload = "build_inner_header inner_key binaries @ xml"
  let ?key = "sha256_seeded deps (kh_master_seed h) transformed"
  let ?seed = "mac_seed deps (kh_master_seed h) transformed"
  obtain hb h' where hb: "header_encode h = Inr hb" "same_header h h'"
    "\<And>rest. header_decode_with_consumed (hb @ rest) = Inr (h', length hb)"
    using header_roundtrip [OF h(1)] by blast
  note same = same_header_seed [OF hb(2)]
  obtain z where z: "(case sp_compression profile of No_Compression \<Rightarrow> Inr ?payload | Gzip \<Rightarrow> gzip_compress deps ?payload) = Inr z"
    "decompress_payload deps h' z = Inr ?payload"
  proof (cases "sp_compression profile")
    case No_Compression
    with that [of ?payload] same h(4) show thesis by (simp add: decompress_payload_def)
  next
    case Gzip
    obtain z where "kd_gzip deps ?payload = Some z" "kd_gunzip deps z = Some ?payload" using deps_gzip [OF deps] by blast
    with that [of z] same h(4) Gzip show thesis
      by (simp add: decompress_payload_def gzip_compress_def gzip_decompress_def)
  qed
  obtain ct where ct: "encrypt_payload deps (kh_cipher h) ?key (kh_encryption_iv h) z = Inr ct"
    "decrypt_payload deps (kh_cipher h) ?key (kh_encryption_iv h) ct = Inr z"
    using payload_roundtrip [OF deps h(2)] by blast
  let ?cs = "chunks block_size ct"
  obtain enc where enc: "framed deps ?seed 0 ?cs = Inr enc" using framed_total [OF deps] by blast
  have cs: "list_all chunk_ok ?cs" "concat ?cs = ct" by (simp_all add: chunks_ok concat_chunks block_size_def)
  obtain mac where mac: "header_hmac deps ?seed hb = Inr mac"
    using deps_hmac [OF deps, of "kd_sha512 deps (rev (replicate 8 0xFF) @ ?seed)" hb]
    by (auto simp: header_hmac_def hmac_sha256_def Let_def)
  let ?sealed = "hb @ sha256_bytes deps hb @ mac @ enc"
  let ?oc = "\<lparr>oc_header = h', oc_inner_algorithm = 3, oc_inner_key = inner_key, oc_binaries = binaries, oc_xml = xml\<rparr>"
  have "seal_container deps profile h transformed inner_key binaries xml = Inr ?sealed"
    using z(1) ct(1) enc hb(1) mac h(3) by (simp add: seal_container_def encode_block_stream_framed Let_def)
  moreover have "authentic deps ?sealed transformed ?oc hb mac ?cs enc []"
    unfolding authentic_def Let_def
    using hb(3) mac cs enc z(2) ct(2) inner_header_roundtrip [OF inner, of xml] same by simp
  then have "open_with_transformed_key deps ?sealed transformed = Inr ?oc"
    using open_authentic [OF deps] by blast
  moreover have "header_decode_with_consumed ?sealed = Inr (h', length hb)" by (rule hb(3))
  ultimately show ?thesis using hb(2) by blast
qed

section \<open>Example\<close>

definition example_kdbx :: kdbx_deps where
  "example_kdbx =
     \<lparr>kd_crypto = example_deps\<lparr>dep_hmac := \<lambda>_ _ _. Some (replicate 32 7)\<rparr>, kd_sha512 = \<lambda>_. replicate 64 1,
      kd_cbc_encrypt = \<lambda>_ _ _ bs. Some bs, kd_cbc_decrypt = \<lambda>_ _ _ bs. Some bs,
      kd_chacha20 = \<lambda>_ _ n. of_nat n, kd_salsa20 = \<lambda>_ _ n. of_nat n, kd_gzip = Some, kd_gunzip = Some\<rparr>"

lemma example_kdbx_ok: "deps_ok example_kdbx"
  by (simp add: deps_ok_def example_kdbx_def sha256_bytes_def example_deps_def)

definition example_binary :: inner_binary where
  "example_binary = \<lparr>ib_protect_in_memory = True, ib_data = \<lparr>ac_id = content_hash example_kdbx [9], ac_bytes = [9]\<rparr>\<rparr>"

lemma example_binary_ok: "binaries_ok (content_hash example_kdbx) [example_binary]"
  by (simp add: binaries_ok_def contents_ok_def example_binary_def binary_payload_def fits_i32_small)

definition example_header :: kdbx_header where
  "example_header = (new_header V4_1 Aes256)\<lparr>kh_master_seed := random_bytes (\<lambda>_. 0) 32,
     kh_encryption_iv := random_bytes (\<lambda>_. 0) 16,
     kh_kdf_parameters := kdf_to_variant_dict (build_kdf_profile (\<lambda>_. 0) recommended_save_kdf)\<rparr>"

lemma example_prepared:
  "prepare_save (\<lambda>_. 0) (\<lambda>_. 0) (\<lambda>_. 0) (Inr ()) V4_0 None [] recommended_profile =
     Inr (example_header, Some (build_kdf_profile (\<lambda>_. 0) recommended_save_kdf))"
  by (simp add: prepare_save_def recommended_profile_def save_kdf_state_def example_header_def new_header_def
      random_iv_def Let_def)

lemma example_sizes:
  "\<forall>bs. vd_encode (kh_kdf_parameters example_header) = Inr bs \<or> vd_encode (kh_public_custom_data example_header) = Inr bs \<longrightarrow>
     fits_i32 (length bs)"
  by (auto simp: example_header_def new_header_def vd_encode_def vd_insert_def default_dictionary_def
      build_kdf_profile_def recommended_save_kdf_def kdf_to_variant_dict_def argon2_dict_def encode_items_def
      encode_item_def encode_variant_value_def write_sized_def fits_i32_small simp del: random_fill.simps)

text \<open>C2. A file opens under a transformed key exactly when every part of it is authentic: it starts with a
  header that decodes, followed by the header's own digest and its HMAC under that key, followed by a
  sequence of non-empty blocks each carrying the HMAC of its position, its size and its bytes, closed by an
  authenticated empty block; the decrypted and decompressed blocks start with an inner header, and the
  loader returns exactly what these parts hold. So blocks cannot be changed, dropped, reordered, repeated
  or cut off without a forged HMAC; only bytes after the closing block are ignored.\<close>

theorem opened_file_authentic:
  assumes "deps_ok deps"
  shows "open_with_transformed_key deps bs transformed = Inr oc \<longleftrightarrow>
    (\<exists>header_bytes mac cs enc rest. authentic deps bs transformed oc header_bytes mac cs enc rest)"
  using assms by (rule open_authentic)

lemma opened_file_authentic_witness:
  "\<exists>bs oc header_bytes mac cs enc rest. open_with_transformed_key example_kdbx bs [1] = Inr oc \<and>
     authentic example_kdbx bs [1] oc header_bytes mac cs enc rest \<and> oc_binaries oc = [example_binary]"
proof -
  have none: "public_data_ok []" by (simp add: public_data_ok_def)
  have "header_ok example_header" "iv_ok (kh_cipher example_header) (kh_encryption_iv example_header)"
    "kh_cipher example_header = sp_cipher recommended_profile" "kh_compression example_header = sp_compression recommended_profile"
    using prepared_header_ok [OF example_prepared none example_sizes] by blast+
  from sealed_file [OF example_kdbx_ok this example_binary_ok, of "[]" "[1]" "[60]"]
  obtain bs oc where "open_with_transformed_key example_kdbx bs [1] = Inr oc" "oc_binaries oc = [example_binary]" by auto
  with opened_file_authentic [OF example_kdbx_ok, of bs "[1]" oc] show ?thesis by blast
qed

text \<open>The profile prepared for a save is the one the file's dictionary stands for.\<close>

lemma prepared_kdf:
  assumes "save_kdf_state draw encoded requested = Inr (kdf, parameters)"
    and "case requested of None \<Rightarrow> True | Some k \<Rightarrow> loadable k"
  shows "\<exists>p profile. decode_kdbx4 parameters = Inr p \<and> into_profile p = Some profile \<and> kdf = Some profile"
proof -
  have fresh: "\<exists>p profile. decode_kdbx4 (kdf_to_variant_dict (build_kdf_profile draw k)) = Inr p \<and>
      into_profile p = Some profile \<and> Some (build_kdf_profile draw k) = Some profile" if "loadable k" for k
  proof -
    obtain q where q: "saved_parameters (build_kdf_profile draw k) = Some q"
      by (cases k) (simp_all add: build_kdf_profile_def saved_parameters_def)
    then have "decode_kdbx4 (kdf_to_variant_dict (build_kdf_profile draw k)) = Inr q" using that by (simp add: decode_saved)
    with saved_profile [OF q] show ?thesis by blast
  qed
  have rec: "loadable recommended_save_kdf" by (simp add: loadable_def recommended_save_kdf_def)
  show ?thesis
  proof (cases requested)
    case (Some k)
    with assms fresh [of k] show ?thesis by (simp add: save_kdf_state_def Let_def)
  next
    case None
    show ?thesis
    proof (cases encoded)
      case (Some bs)
      with None assms(1) obtain p where "decode_kdbx4 parameters = Inr p" "kdf = into_profile p"
        by (auto simp: save_kdf_state_def and_then_eq_Inr)
      with decoded_profile [of parameters p] show ?thesis by auto
    next
      case n: None
      with None assms(1) have "kdf = Some (build_kdf_profile draw recommended_save_kdf)"
        "parameters = kdf_to_variant_dict (build_kdf_profile draw recommended_save_kdf)"
        by (simp_all add: save_kdf_state_def Let_def)
      with fresh [OF rec] show ?thesis by simp
    qed
  qed
qed

text \<open>The key of a sealed file, derived from a composite key.\<close>

lemma sealed_key_derived:
  assumes deps: "deps_ok deps"
    and prepared: "prepare_save draw_seed draw_iv draw_salt validated required kdf_bytes public_data profile = Inr (h, Some kdf)"
    and f: "same_header h h'" "sealed = hb @ sha256_bytes deps hb @ rest" "header_decode_with_consumed sealed = Inr (h', length hb)"
    and request: "case sp_kdf profile of None \<Rightarrow> True | Some k \<Rightarrow> loadable k"
    and policy: "within_limits policy confirmation kdf"
  shows "derive_transformed_key_with_policy deps sealed key (evaluate policy) confirmation =
    and_then (from_crypto (raw_key (kd_crypto deps) key)) (\<lambda>raw. from_crypto (derive_key (kd_crypto deps) kdf raw))"
proof -
  obtain parameters where k: "save_kdf_state draw_salt kdf_bytes (sp_kdf profile) = Inr (Some kdf, parameters)"
    "kh_kdf_parameters h = parameters"
    using prepared by (auto simp: prepare_save_def and_then_eq_Inr Let_def split: if_split_asm)
  from prepared_kdf [OF k(1) request] obtain p where p: "decode_kdbx4 parameters = Inr p" "into_profile p = Some kdf"
    by auto
  have "decode_kdbx4 (kh_kdf_parameters h') = Inr p"
    using p(1) k(2) decode_kdbx4_cong [of "kh_kdf_parameters h" "kh_kdf_parameters h'"] f(1)
    by (simp add: same_header_def same_dictionary_def)
  moreover have "enforce_external_kdf_policy p (evaluate policy) confirmation = Inr ()"
    using enforce_within [OF p(2)] policy by simp
  moreover have "read_exact 32 (cursor_at [] (sha256_bytes deps hb @ rest)) =
      Inr (sha256_bytes deps hb, cursor_at ([] @ sha256_bytes deps hb) rest)"
    by (rule raw.read_written) (rule deps_sha256 [OF deps])
  moreover have "take (length hb) sealed = hb" "drop (length hb) sealed = sha256_bytes deps hb @ rest" using f(2) by simp_all
  moreover obtain version where "detect_file_version sealed = Inr version" "version = V4_0 \<or> version = V4_1"
    using detect_version_written [OF f(3)] by blast
  ultimately show ?thesis
    using f(3) p(2) by (auto simp: derive_transformed_key_with_policy_def new_cursor_at)
qed

text \<open>C3. A saved file opens again. Suppose a save was prepared, that is, the header \<open>h\<close> and the derivation \<open>kdf\<close> are those
  of the profile, and that the lengths the format stores fit their fields: the public CustomData and the two dictionaries
  of the header, the attachments, whose digests do not collide, and the inner key. Then, for any transformed key and XML
  document, sealing succeeds, and opening the file under the same transformed key returns the same header, inner key,
  attachments and document, whatever work the save requested. The key itself is derived from the file, from any
  composite key, exactly as the save derives it, if the work factors the profile requests can be loaded (none zero, no
  AES rounds of \<open>u64::MAX\<close>; \<open>prepare_save\<close> accepts them without a check, and such a file is refused when its key is to be
  derived) and the derivation is within the limits of the policy of the client that opens it.\<close>

theorem saved_file_opens:
  assumes deps: "deps_ok deps"
    and prepared: "prepare_save draw_seed draw_iv draw_salt validated required kdf_bytes public_data profile = Inr (h, Some kdf)"
    and sizes: "public_data_ok public_data"
      "\<forall>bs. vd_encode (kh_kdf_parameters h) = Inr bs \<or> vd_encode (kh_public_custom_data h) = Inr bs \<longrightarrow> fits_i32 (length bs)"
      "binaries_ok (content_hash deps) binaries" "fits_i32 (length inner_key)"
  shows "\<exists>sealed h'. seal_container deps profile h transformed inner_key binaries xml = Inr sealed \<and> same_header h h' \<and>
    open_with_transformed_key deps sealed transformed =
      Inr \<lparr>oc_header = h', oc_inner_algorithm = 3, oc_inner_key = inner_key, oc_binaries = binaries, oc_xml = xml\<rparr> \<and>
    ((case sp_kdf profile of None \<Rightarrow> True | Some k \<Rightarrow> loadable k) \<and> within_limits policy confirmation kdf \<longrightarrow>
     derive_transformed_key_with_policy deps sealed key (evaluate policy) confirmation =
       and_then (from_crypto (raw_key (kd_crypto deps) key)) (\<lambda>raw. from_crypto (derive_key (kd_crypto deps) kdf raw)))"
proof -
  note ok = prepared_header_ok [OF prepared sizes(1,2)]
  obtain sealed h' hb rest where f: "seal_container deps profile h transformed inner_key binaries xml = Inr sealed"
    "same_header h h'" "sealed = hb @ sha256_bytes deps hb @ rest" "header_decode_with_consumed sealed = Inr (h', length hb)"
    "open_with_transformed_key deps sealed transformed =
      Inr \<lparr>oc_header = h', oc_inner_algorithm = 3, oc_inner_key = inner_key, oc_binaries = binaries, oc_xml = xml\<rparr>"
    using sealed_file [OF deps _ _ _ _ sizes(3,4), of h profile transformed xml] ok by auto
  have "derive_transformed_key_with_policy deps sealed key (evaluate policy) confirmation =
      and_then (from_crypto (raw_key (kd_crypto deps) key)) (\<lambda>raw. from_crypto (derive_key (kd_crypto deps) kdf raw))"
    if request: "case sp_kdf profile of None \<Rightarrow> True | Some k \<Rightarrow> loadable k" and policy: "within_limits policy confirmation kdf"
    by (rule sealed_key_derived [OF deps prepared f(2-4) request policy])
  with f(1,2,5) show ?thesis by blast
qed

lemma saved_file_opens_witness:
  "\<exists>sealed h'. seal_container example_kdbx recommended_profile example_header [1] [2] [example_binary] [60] = Inr sealed \<and>
     open_with_transformed_key example_kdbx sealed [1] =
       Inr \<lparr>oc_header = h', oc_inner_algorithm = 3, oc_inner_key = [2], oc_binaries = [example_binary], oc_xml = [60]\<rparr> \<and>
     derive_transformed_key_with_policy example_kdbx sealed [] (evaluate Mobile) Unconfirmed =
       and_then (from_crypto (raw_key (kd_crypto example_kdbx) [])) (\<lambda>raw.
         from_crypto (derive_key (kd_crypto example_kdbx) (build_kdf_profile (\<lambda>_. 0) recommended_save_kdf) raw))"
proof -
  have "public_data_ok []" by (simp add: public_data_ok_def)
  moreover have "fits_i32 (length [2 :: u8])" by simp
  moreover have "case sp_kdf recommended_profile of None \<Rightarrow> True | Some k \<Rightarrow> loadable k"
    by (simp add: recommended_profile_def)
  moreover have "within_limits Mobile Unconfirmed (build_kdf_profile (\<lambda>_. 0) recommended_save_kdf)"
    by (simp add: within_limits_def build_kdf_profile_def recommended_save_kdf_def memory_limit_def)
  ultimately show ?thesis
    using saved_file_opens [OF example_kdbx_ok example_prepared _ example_sizes example_binary_ok, of "[2]" "[1]" "[60]" Mobile Unconfirmed "[]"]
    by blast
qed

end
