(* ===== verification/CoreView.thy ===== *)
theory CoreView
  imports Credentials CustomData
begin

text \<open>
  What the embedding API of \<^verbatim>\<open>crates/vaultkern-core/src/lib.rs\<close> shows of a vault: the view structs and
  the projections that fill them. The \<open>uuid\<close> crate, the clock and SHA-256 lie outside the source; the
  record \<open>core_env\<close> carries what the code calls of them.
\<close>

section \<open>Environment\<close>

text \<open>\<open>ce_clock k\<close> is what the clock shows at the \<open>k\<close>-th place of a call that reads it, in seconds since
  the epoch, or \<open>None\<close> before it; \<open>ce_new_v4\<close> lists the random UUIDs.\<close>

record core_env =
  ce_uuid_text :: "uuid \<Rightarrow> string"
  ce_parse_uuid :: "string \<Rightarrow> uuid option"
  ce_new_v4 :: "nat \<Rightarrow> uuid"
  ce_clock :: "nat \<Rightarrow> u64 option"
  ce_content_id :: "bytes \<Rightarrow> content_id"

text \<open>The canonical text of a UUID parses back to it, so that ids are told apart by their text.\<close>

definition uuid_text_ok :: "core_env \<Rightarrow> bool" where
  "uuid_text_ok env \<longleftrightarrow> (\<forall>u. ce_parse_uuid env (ce_uuid_text env u) = Some u)"

lemma uuid_text_inj [simp]:
  assumes "uuid_text_ok env"
  shows "ce_uuid_text env a = ce_uuid_text env b \<longleftrightarrow> a = b"
  using assms by (metis option.inject uuid_text_ok_def)

abbreviation opt_text :: "core_env \<Rightarrow> uuid option \<Rightarrow> string option" where
  "opt_text env \<equiv> map_option (ce_uuid_text env)"

section \<open>Entries\<close>

definition is_reserved_entry_custom_field_key :: "string \<Rightarrow> bool" where
  "is_reserved_entry_custom_field_key key \<longleftrightarrow>
     key \<in> {''Title'', ''UserName'', ''Password'', ''URL'', ''Notes''} \<or>
     is_totp_persistent_attribute_key key \<or> starts_with ''KPEX_PASSKEY_'' key"

definition visible_custom_field_count :: "entry_core \<Rightarrow> nat" where
  "visible_custom_field_count e =
     length (filter (\<lambda>key. \<not> is_reserved_entry_custom_field_key key) (bt_keys (e_attributes e)))"

record entry_view =
  ev_id :: string
  ev_title :: string
  ev_username :: string
  ev_url :: string
  ev_icon_id :: "u32 option"
  ev_custom_icon_id :: "string option"
  ev_tags :: "string list"
  ev_attachment_count :: nat
  ev_custom_field_count :: nat
  ev_history_count :: nat
  ev_has_totp :: bool
  ev_has_passkey :: bool
  ev_expires :: bool
  ev_field_protection :: field_protection

definition project_entry :: "core_env \<Rightarrow> entry \<Rightarrow> entry_view" where
  "project_entry env entry =
     (let e = e_core entry in
      \<lparr>ev_id = ce_uuid_text env (e_id e), ev_title = e_title e, ev_username = e_username e,
       ev_url = e_url e, ev_icon_id = e_icon_id e, ev_custom_icon_id = opt_text env (e_custom_icon_id e),
       ev_tags = e_tags e, ev_attachment_count = length (e_attachments e),
       ev_custom_field_count = visible_custom_field_count e,
       ev_history_count = length (e_history entry), ev_has_totp = (e_totp e \<noteq> None),
       ev_has_passkey = (e_passkey e \<noteq> None), ev_expires = e_expires e,
       ev_field_protection = e_field_protection e\<rparr>)"

record entry_detail_view =
  ed_id :: string
  ed_title :: string
  ed_icon_id :: "u32 option"
  ed_username :: string
  ed_password :: string
  ed_url :: string
  ed_notes :: string
  ed_modified_at :: u64
  ed_custom_icon_id :: "string option"
  ed_tags :: "string list"
  ed_field_protection :: field_protection

definition project_entry_detail :: "core_env \<Rightarrow> entry_core \<Rightarrow> entry_detail_view" where
  "project_entry_detail env e =
     \<lparr>ed_id = ce_uuid_text env (e_id e), ed_title = e_title e, ed_icon_id = e_icon_id e,
      ed_username = e_username e, ed_password = e_password e, ed_url = e_url e, ed_notes = e_notes e,
      ed_modified_at = e_modified_at e, ed_custom_icon_id = opt_text env (e_custom_icon_id e),
      ed_tags = e_tags e, ed_field_protection = e_field_protection e\<rparr>"

record entry_history_detail_view =
  hd_title :: string
  hd_icon_id :: "u32 option"
  hd_username :: string
  hd_password :: string
  hd_url :: string
  hd_notes :: string
  hd_modified_at :: u64
  hd_custom_icon_id :: "string option"
  hd_tags :: "string list"

definition project_entry_history_detail :: "core_env \<Rightarrow> entry_core \<Rightarrow> entry_history_detail_view" where
  "project_entry_history_detail env e =
     \<lparr>hd_title = e_title e, hd_icon_id = e_icon_id e, hd_username = e_username e,
      hd_password = e_password e, hd_url = e_url e, hd_notes = e_notes e,
      hd_modified_at = e_modified_at e, hd_custom_icon_id = opt_text env (e_custom_icon_id e),
      hd_tags = e_tags e\<rparr>"

record entry_history_item_view =
  hi_title :: string
  hi_username :: string
  hi_modified_at :: u64
  hi_attachment_count :: nat
  hi_custom_field_count :: nat

definition project_history_item :: "entry_core \<Rightarrow> entry_history_item_view" where
  "project_history_item e =
     \<lparr>hi_title = e_title e, hi_username = e_username e, hi_modified_at = e_modified_at e,
      hi_attachment_count = length (e_attachments e),
      hi_custom_field_count = visible_custom_field_count e\<rparr>"

record entry_presentation_view =
  ep_icon_id :: "u32 option"
  ep_foreground_color :: "string option"
  ep_background_color :: "string option"
  ep_override_url :: "string option"

definition project_entry_presentation_metadata :: "entry_core \<Rightarrow> entry_presentation_view" where
  "project_entry_presentation_metadata e =
     \<lparr>ep_icon_id = e_icon_id e, ep_foreground_color = e_foreground_color e,
      ep_background_color = e_background_color e, ep_override_url = e_override_url e\<rparr>"

record entry_lineage_view =
  el_previous_parent_id :: "string option"
  el_exclude_from_reports :: bool

definition project_entry_lineage_report_metadata :: "core_env \<Rightarrow> entry_core \<Rightarrow> entry_lineage_view" where
  "project_entry_lineage_report_metadata env e =
     \<lparr>el_previous_parent_id = opt_text env (e_previous_parent e),
      el_exclude_from_reports = e_exclude_from_reports e\<rparr>"

text \<open>\<open>EntryTotpView\<close> repeats the fields of \<open>TotpSpec\<close>; \<open>EntryPasskeyView\<close> leaves the private key out.\<close>

record entry_totp_view =
  tv_secret_base32 :: string
  tv_algorithm :: totp_algorithm
  tv_digits :: u32
  tv_period_seconds :: u64
  tv_issuer :: "string option"
  tv_account_name :: "string option"

definition project_entry_totp :: "totp_spec \<Rightarrow> entry_totp_view" where
  "project_entry_totp t =
     \<lparr>tv_secret_base32 = tp_secret_base32 t, tv_algorithm = tp_algorithm t, tv_digits = tp_digits t,
      tv_period_seconds = tp_period_seconds t, tv_issuer = tp_issuer t,
      tv_account_name = tp_account_name t\<rparr>"

record entry_passkey_view =
  pv_username :: string
  pv_credential_id :: string
  pv_generated_user_id :: "string option"
  pv_relying_party :: string
  pv_user_handle :: "string option"
  pv_backup_eligible :: bool
  pv_backup_state :: bool

definition project_entry_passkey :: "passkey_record \<Rightarrow> entry_passkey_view" where
  "project_entry_passkey p =
     \<lparr>pv_username = pk_username p, pv_credential_id = pk_credential_id p,
      pv_generated_user_id = pk_generated_user_id p, pv_relying_party = pk_relying_party p,
      pv_user_handle = pk_user_handle p, pv_backup_eligible = pk_backup_eligible p,
      pv_backup_state = pk_backup_state p\<rparr>"

record custom_field_view =
  fv_key :: string
  fv_value :: string
  fv_protected :: bool

definition project_entry_custom_fields :: "attributes \<Rightarrow> custom_field_view list" where
  "project_entry_custom_fields items =
     map (\<lambda>(key, field). \<lparr>fv_key = key, fv_value = cf_value field, fv_protected = cf_protected field\<rparr>)
       (filter (\<lambda>(key, _). \<not> is_reserved_entry_custom_field_key key) items)"

text \<open>\<open>EntryAutoTypeView\<close> has the fields of \<open>AutoTypeConfig\<close>, with empty defaults without one.\<close>

definition project_entry_auto_type :: "entry_core \<Rightarrow> auto_type_config" where
  "project_entry_auto_type e =
     (case e_auto_type e of
        Some a \<Rightarrow> a
      | None \<Rightarrow> \<lparr>at_enabled = None, at_obfuscation = None, at_default_sequence = None, at_associations = []\<rparr>)"

record entry_times_view =
  et_created_at :: u64
  et_modified_at :: u64
  et_last_accessed_at :: "u64 option"
  et_usage_count :: "u64 option"
  et_location_changed_at :: "u64 option"

definition project_entry_times :: "entry_core \<Rightarrow> entry_times_view" where
  "project_entry_times e =
     \<lparr>et_created_at = e_created_at e, et_modified_at = e_modified_at e,
      et_last_accessed_at = e_last_accessed_at e, et_usage_count = e_usage_count e,
      et_location_changed_at = e_location_changed_at e\<rparr>"

record attachment_view =
  av_name :: string
  av_size :: nat
  av_protect_in_memory :: bool

definition project_attachment_items :: "(string, attachment) btree \<Rightarrow> attachment_view list" where
  "project_attachment_items attachments =
     map (\<lambda>a. \<lparr>av_name = a_name a, av_size = length (ac_bytes (a_data a)),
              av_protect_in_memory = a_protect_in_memory a\<rparr>) (bt_values attachments)"

section \<open>Custom data\<close>

text \<open>\<open>CustomDataItemView\<close> is a key and its value. The detail views of vault, group and entry take the
  items of the blocks, the last one of a key winning, and add the map's items that no block has.\<close>

definition project_custom_data_items :: "(string, string) btree \<Rightarrow> (string \<times> string) list" where
  "project_custom_data_items items = items"

definition project_detail_items ::
    "custom_data_block list \<Rightarrow> (string, string) btree \<Rightarrow> custom_data_item list" where
  "project_detail_items blocks merged =
     (let projected = bt_of_list (map (\<lambda>item. (cd_key item, item)) (all_items blocks)) in
      bt_values (bt_extend projected
        (map (\<lambda>(key, v). (key, \<lparr>cd_key = key, cd_value = v, cd_last_modified = None\<rparr>))
          (filter (\<lambda>(key, _). \<not> bt_contains projected key) merged))))"

definition project_vault_custom_data_items :: "vault \<Rightarrow> custom_data_item list" where
  "project_vault_custom_data_items v = project_detail_items (v_meta_custom_data_blocks v) (v_meta_custom_data v)"

definition project_group_custom_data_items :: "group_core \<Rightarrow> custom_data_item list" where
  "project_group_custom_data_items g = project_detail_items (g_custom_data_blocks g) (g_custom_data g)"

definition project_entry_custom_data_items :: "entry_core \<Rightarrow> custom_data_item list" where
  "project_entry_custom_data_items e = project_detail_items (e_custom_data_blocks e) (e_custom_data e)"

definition project_public_custom_data_items :: "(string, bytes) btree \<Rightarrow> (string \<times> bytes) list" where
  "project_public_custom_data_items items = items"

section \<open>Groups\<close>

text \<open>\<open>GroupView\<close> contains the views of the children, so it is a datatype.\<close>

record group_view_core =
  gv_id :: string
  gv_title :: string
  gv_icon_id :: "u32 option"
  gv_custom_icon_id :: "string option"
  gv_entry_count :: nat
  gv_child_count :: nat
  gv_entries :: "entry_view list"

datatype group_view = Group_View (gv_core: group_view_core) (gv_children: "group_view list")

fun project_group :: "core_env \<Rightarrow> vgroup \<Rightarrow> group_view" where
  "project_group env (Group g es children) = Group_View
     \<lparr>gv_id = ce_uuid_text env (g_id g), gv_title = g_title g, gv_icon_id = g_icon_id g,
      gv_custom_icon_id = opt_text env (g_custom_icon_id g), gv_entry_count = length es,
      gv_child_count = length children, gv_entries = map (project_entry env) es\<rparr>
     (map (project_group env) children)"

record group_detail_view =
  gd_id :: string
  gd_title :: string
  gd_icon_id :: "u32 option"
  gd_notes :: string
  gd_custom_icon_id :: "string option"
  gd_tags :: "string list"

definition project_group_detail :: "core_env \<Rightarrow> group_core \<Rightarrow> group_detail_view" where
  "project_group_detail env g =
     \<lparr>gd_id = ce_uuid_text env (g_id g), gd_title = g_title g, gd_icon_id = g_icon_id g,
      gd_notes = g_notes g, gd_custom_icon_id = opt_text env (g_custom_icon_id g), gd_tags = g_tags g\<rparr>"

record group_behavior_view =
  gb_default_auto_type_sequence :: "string option"
  gb_last_top_visible_entry_id :: "string option"
  gb_enable_auto_type :: "bool option"
  gb_enable_searching :: "bool option"

definition project_group_behavior_metadata :: "core_env \<Rightarrow> group_core \<Rightarrow> group_behavior_view" where
  "project_group_behavior_metadata env g =
     \<lparr>gb_default_auto_type_sequence = g_default_auto_type_sequence g,
      gb_last_top_visible_entry_id = opt_text env (g_last_top_visible_entry g),
      gb_enable_auto_type = gf_enable_auto_type (g_flags g),
      gb_enable_searching = gf_enable_searching (g_flags g)\<rparr>"

record group_lineage_view =
  gl_tags :: "string list"
  gl_previous_parent_id :: "string option"

definition project_group_lineage_tag_metadata :: "core_env \<Rightarrow> group_core \<Rightarrow> group_lineage_view" where
  "project_group_lineage_tag_metadata env g =
     \<lparr>gl_tags = g_tags g, gl_previous_parent_id = opt_text env (g_previous_parent g)\<rparr>"

record group_times_view =
  gtv_created_at :: "u64 option"
  gtv_modified_at :: "u64 option"
  gtv_last_accessed_at :: "u64 option"
  gtv_usage_count :: "u64 option"
  gtv_location_changed_at :: "u64 option"

definition project_group_times :: "group_core \<Rightarrow> group_times_view" where
  "project_group_times g =
     (case g_times g of
        Some t \<Rightarrow>
          \<lparr>gtv_created_at = Some (gt_created_at t), gtv_modified_at = Some (gt_modified_at t),
           gtv_last_accessed_at = gt_last_accessed_at t, gtv_usage_count = gt_usage_count t,
           gtv_location_changed_at = gt_location_changed_at t\<rparr>
      | None \<Rightarrow>
          \<lparr>gtv_created_at = None, gtv_modified_at = None, gtv_last_accessed_at = None,
           gtv_usage_count = None, gtv_location_changed_at = None\<rparr>)"

record group_expiry_view =
  gx_expires :: "bool option"
  gx_expiry_time :: "i64 option"

definition project_group_expiry :: "group_core \<Rightarrow> group_expiry_view" where
  "project_group_expiry g =
     (case g_times g of
        Some t \<Rightarrow> \<lparr>gx_expires = Some (gt_expires t), gx_expiry_time = gt_expiry_time t\<rparr>
      | None \<Rightarrow> \<lparr>gx_expires = None, gx_expiry_time = None\<rparr>)"

section \<open>Vaults\<close>

record vault_summary =
  vs_name :: string
  vs_root_title :: string
  vs_groups :: nat
  vs_entries :: nat
  vs_attachments :: nat
  vs_deleted_objects :: nat
  vs_custom_data_items :: nat

text \<open>\<open>walk\<close> with its four running counts: groups, entries, attachments, custom data items.\<close>

type_synonym counts = "nat \<times> nat \<times> nat \<times> nat"

fun count_entry :: "counts \<Rightarrow> entry \<Rightarrow> counts" where
  "count_entry (gs, es, ats, ds) e =
     (gs, es + 1, ats + length (e_attachments (e_core e)), ds + length (e_custom_data (e_core e)))"

definition count_group :: "counts \<Rightarrow> counts" where
  "count_group = (\<lambda>(gs, es, ats, ds). (gs + 1, es, ats, ds))"

definition count_data :: "group_core \<Rightarrow> counts \<Rightarrow> counts" where
  "count_data g = (\<lambda>(gs, es, ats, ds). (gs, es, ats, ds + length (g_custom_data g)))"

fun summary_walk :: "vgroup \<Rightarrow> counts \<Rightarrow> counts"
  and summary_children :: "vgroup list \<Rightarrow> counts \<Rightarrow> counts" where
  "summary_walk (Group g es children) c =
     summary_children children (foldl count_entry (count_data g c) es)"
| "summary_children [] c = c"
| "summary_children (child # children) c = summary_children children (summary_walk child (count_group c))"

definition summarize_vault :: "vault \<Rightarrow> vault_summary" where
  "summarize_vault v =
     (let (groups, entries, attachments, items) =
        summary_walk (v_root v) (1, 0, 0, length (v_meta_custom_data v) + length (v_public_custom_data v))
      in \<lparr>vs_name = v_name v, vs_root_title = g_title (g_core (v_root v)), vs_groups = groups,
          vs_entries = entries, vs_attachments = attachments,
          vs_deleted_objects = length (v_deleted_objects v), vs_custom_data_items = items\<rparr>)"

record vault_view =
  vv_summary :: vault_summary
  vv_root :: group_view
  vv_deleted_objects :: nat
  vv_recycle_bin_enabled :: "bool option"
  vv_recycle_bin_group_id :: "string option"
  vv_entry_templates_group_id :: "string option"

definition project_vault :: "core_env \<Rightarrow> vault \<Rightarrow> vault_view" where
  "project_vault env v =
     \<lparr>vv_summary = summarize_vault v, vv_root = project_group env (v_root v),
      vv_deleted_objects = length (v_deleted_objects v), vv_recycle_bin_enabled = v_recycle_bin_enabled v,
      vv_recycle_bin_group_id = opt_text env (v_recycle_bin_group v),
      vv_entry_templates_group_id = opt_text env (v_entry_templates_group v)\<rparr>"

record vault_metadata_view =
  vm_description :: "string option"
  vm_default_username :: "string option"
  vm_color :: "string option"
  vm_history_max_items :: "i32 option"
  vm_history_max_size :: "i64 option"
  vm_memory_protection :: "memory_protection option"

definition project_vault_metadata :: "vault \<Rightarrow> vault_metadata_view" where
  "project_vault_metadata v =
     \<lparr>vm_description = v_description v, vm_default_username = v_default_username v, vm_color = v_color v,
      vm_history_max_items = v_history_max_items v, vm_history_max_size = v_history_max_size v,
      vm_memory_protection = v_memory_protection v\<rparr>"

record vault_selection_view =
  vsel_last_selected_group_id :: "string option"
  vsel_last_top_visible_group_id :: "string option"

definition project_vault_selection_metadata :: "core_env \<Rightarrow> vault \<Rightarrow> vault_selection_view" where
  "project_vault_selection_metadata env v =
     \<lparr>vsel_last_selected_group_id = opt_text env (v_last_selected_group v),
      vsel_last_top_visible_group_id = opt_text env (v_last_top_visible_group v)\<rparr>"

record vault_lifecycle_view =
  vl_settings_changed :: "i64 option"
  vl_maintenance_history_days :: "i32 option"
  vl_master_key_changed :: "i64 option"
  vl_master_key_change_rec :: "i64 option"
  vl_master_key_change_force :: "i64 option"
  vl_master_key_change_force_once :: "bool option"

definition project_vault_lifecycle_metadata :: "vault \<Rightarrow> vault_lifecycle_view" where
  "project_vault_lifecycle_metadata v =
     \<lparr>vl_settings_changed = v_settings_changed v,
      vl_maintenance_history_days = v_maintenance_history_days v,
      vl_master_key_changed = v_master_key_changed v,
      vl_master_key_change_rec = v_master_key_change_rec v,
      vl_master_key_change_force = v_master_key_change_force v,
      vl_master_key_change_force_once = v_master_key_change_force_once v\<rparr>"

record vault_bin_template_view =
  vb_recycle_bin_enabled :: "bool option"
  vb_recycle_bin_group_id :: "string option"
  vb_recycle_bin_changed :: "i64 option"
  vb_entry_templates_group_id :: "string option"
  vb_entry_templates_group_changed :: "i64 option"

definition project_vault_bin_template_metadata :: "core_env \<Rightarrow> vault \<Rightarrow> vault_bin_template_view" where
  "project_vault_bin_template_metadata env v =
     \<lparr>vb_recycle_bin_enabled = v_recycle_bin_enabled v,
      vb_recycle_bin_group_id = opt_text env (v_recycle_bin_group v),
      vb_recycle_bin_changed = v_recycle_bin_changed v,
      vb_entry_templates_group_id = opt_text env (v_entry_templates_group v),
      vb_entry_templates_group_changed = v_entry_templates_group_changed v\<rparr>"

record vault_identity_view =
  vi_name :: string
  vi_generator :: "string option"
  vi_database_name_changed :: "i64 option"
  vi_description_changed :: "i64 option"
  vi_default_username_changed :: "i64 option"

definition project_vault_identity_metadata :: "vault \<Rightarrow> vault_identity_view" where
  "project_vault_identity_metadata v =
     \<lparr>vi_name = v_name v, vi_generator = v_generator v,
      vi_database_name_changed = v_database_name_changed v,
      vi_description_changed = v_description_changed v,
      vi_default_username_changed = v_default_username_changed v\<rparr>"

record vault_custom_data_semantic_view =
  vc_last_modified :: "string option"
  vc_fdo_secrets_exposed_group_id :: "string option"
  vc_keepassxc_browser_items :: "(string \<times> string) list"

definition project_vault_custom_data_semantics :: "vault \<Rightarrow> vault_custom_data_semantic_view" where
  "project_vault_custom_data_semantics v =
     \<lparr>vc_last_modified = bt_get (v_meta_custom_data v) ''_LAST_MODIFIED'',
      vc_fdo_secrets_exposed_group_id = bt_get (v_meta_custom_data v) ''FDO_SECRETS_EXPOSED_GROUP'',
      vc_keepassxc_browser_items =
        filter (\<lambda>(key, _). starts_with ''KPXC_BROWSER_'' key) (v_meta_custom_data v)\<rparr>"

record custom_icon_view =
  cv_id :: string
  cv_data :: bytes
  cv_name :: "string option"
  cv_last_modified :: "i64 option"

definition project_custom_icon :: "core_env \<Rightarrow> custom_icon \<Rightarrow> custom_icon_view" where
  "project_custom_icon env icon =
     \<lparr>cv_id = ce_uuid_text env (ci_id icon), cv_data = ci_data icon, cv_name = ci_name icon,
      cv_last_modified = ci_last_modified icon\<rparr>"

end
