(* ===== verification/XmlText.thy ===== *)
theory XmlText
  imports Model
begin

text \<open>
  Characters of a \<open>str\<close>: decoding its UTF-8 bytes, the character classes of XML 1.0
  (\<^verbatim>\<open>crates/vaultkern-kdbx/src/lib.rs\<close>, \<open>is_xml_10_text\<close>) and of \<open>str::trim\<close>, and the values a tag may
  have. A \<open>str\<close> is valid UTF-8, so every lead byte has its continuation bytes.
\<close>

text \<open>\<open>str::chars\<close>: the bytes of each character, and its scalar value.\<close>

definition char_width :: "char \<Rightarrow> nat" where
  "char_width a = (if code a < 128 then 1 else if code a < 224 then 2 else if code a < 240 then 3 else 4)"

fun char_chunks :: "string \<Rightarrow> string list" where
  "char_chunks [] = []"
| "char_chunks (a # s) = (a # take (char_width a - 1) s) # char_chunks (drop (char_width a - 1) s)"

fun scalar :: "string \<Rightarrow> nat" where
  "scalar [a] = code a"
| "scalar [a, b] = (code a - 192) * 64 + (code b - 128)"
| "scalar [a, b, c] = (code a - 224) * 4096 + (code b - 128) * 64 + (code c - 128)"
| "scalar [a, b, c, d] =
     (code a - 240) * 262144 + (code b - 128) * 4096 + (code c - 128) * 64 + (code d - 128)"
| "scalar _ = 0"

definition is_xml_10_character :: "nat \<Rightarrow> bool" where
  "is_xml_10_character c \<longleftrightarrow>
     c = 0x9 \<or> c = 0xA \<or> c = 0xD \<or> (0x20 \<le> c \<and> c \<le> 0xD7FF) \<or> (0xE000 \<le> c \<and> c \<le> 0xFFFD) \<or>
     (0x10000 \<le> c \<and> c \<le> 0x10FFFF)"

definition is_xml_10_text :: "string \<Rightarrow> bool" where
  "is_xml_10_text v \<longleftrightarrow> list_all (\<lambda>c. is_xml_10_character (scalar c)) (char_chunks v)"

text \<open>\<open>char::is_whitespace\<close>: the Unicode property \<open>White_Space\<close>.\<close>

definition is_whitespace :: "nat \<Rightarrow> bool" where
  "is_whitespace c \<longleftrightarrow>
     (0x9 \<le> c \<and> c \<le> 0xD) \<or> c = 0x20 \<or> c = 0x85 \<or> c = 0xA0 \<or> c = 0x1680 \<or>
     (0x2000 \<le> c \<and> c \<le> 0x200A) \<or> c = 0x2028 \<or> c = 0x2029 \<or> c = 0x202F \<or> c = 0x205F \<or> c = 0x3000"

definition str_trim :: "string \<Rightarrow> string" where
  "str_trim s =
     (let blank = (\<lambda>c. is_whitespace (scalar c)) in
      concat (rev (dropWhile blank (rev (dropWhile blank (char_chunks s))))))"

definition tag_ambiguous :: "string \<Rightarrow> bool" where
  "tag_ambiguous tag \<longleftrightarrow> tag = [] \<or> str_trim tag \<noteq> tag \<or> CHR '','' \<in> set tag \<or> CHR '';'' \<in> set tag"

text \<open>\<open>validate_kdbx4_timestamp\<close>: seconds since year one, not negative and within \<open>i64\<close>.\<close>

definition KDBX4_TIME_OFFSET :: int where "KDBX4_TIME_OFFSET = 62135596800"

definition kdbx4_time_ok :: "i64 \<Rightarrow> bool" where
  "kdbx4_time_ok t \<longleftrightarrow>
     (let encoded = sint (i64_bits t) + KDBX4_TIME_OFFSET in encoded < 2 ^ 63 \<and> \<not> encoded < 0)"

definition kdbx4_unsigned_time_ok :: "u64 \<Rightarrow> bool" where
  "kdbx4_unsigned_time_ok t \<longleftrightarrow> uint t < 2 ^ 63 \<and> kdbx4_time_ok (I64 t)"

end
