(* ===== verification/CoreTree.thy ===== *)
theory CoreTree
  imports CoreView XmlText
begin

text \<open>
  The group tree under mutation (\<^verbatim>\<open>crates/vaultkern-core/src/lib.rs\<close>): finding groups and entries by the
  text of their id, changing them in place, taking them out, and moving the anchors of the XML fidelity
  data when a node disappears.

  A function that the code gives a \<open>&mut\<close> to the first match returns here the tree with that match
  changed by a function \<open>f\<close>, together with what \<open>f\<close> computed.
\<close>

section \<open>Errors and validation\<close>

text \<open>The text of \<open>InvalidEntryValue\<close> is represented by what it is made from.\<close>

datatype value_error =
    Forbidden_Character string
  | Ambiguous_Tag string
  | Empty_Key string
  | Outside_Time_Domain
  | Cannot_Be_Cleared
  | Expiry_Time_Required
  | Totp_Account_Empty
  | Totp_Secret_Empty
  | Totp_Issuer_Required

datatype mutation_error =
    Err_GroupNotFound string
  | Err_EntryNotFound string
  | Err_HistoryIndexOutOfBounds nat
  | Err_CustomFieldNotFound string
  | Err_ReservedCustomFieldKey string
  | Err_InvalidEntryValue value_error
  | Err_AttachmentNotFound string
  | Err_AttachmentAlreadyExists string
  | Err_AttachmentContentHashCollision
  | Err_CustomDataNotFound string
  | Err_CustomIconNotFound string
  | Err_InvalidUuid string
  | Err_UuidCollision string
  | Err_CannotDeleteRootGroup
  | Err_CannotMoveRootGroup
  | Err_CannotMoveGroupIntoDescendant

definition validate_persistent_tags :: "string list \<Rightarrow> mutation_error + unit" where
  "validate_persistent_tags tags =
     (case find (\<lambda>tag. tag_ambiguous tag \<or> \<not> is_xml_10_text tag) tags of
        Some tag \<Rightarrow> Inl (Err_InvalidEntryValue (Ambiguous_Tag tag))
      | None \<Rightarrow> Inr ())"

definition validate_unprotected_xml_text :: "string \<Rightarrow> string \<Rightarrow> mutation_error + unit" where
  "validate_unprotected_xml_text v kind =
     (if \<not> is_xml_10_text v then Inl (Err_InvalidEntryValue (Forbidden_Character kind)) else Inr ())"

definition validate_xml_text_with_protection :: "string \<Rightarrow> bool \<Rightarrow> string \<Rightarrow> mutation_error + unit" where
  "validate_xml_text_with_protection v protected kind =
     (if protected then Inr () else validate_unprotected_xml_text v kind)"

definition validate_non_empty_key :: "string \<Rightarrow> string \<Rightarrow> mutation_error + unit" where
  "validate_non_empty_key key kind =
     (if key = [] then Inl (Err_InvalidEntryValue (Empty_Key kind)) else Inr ())"

definition validate_persistent_timestamp :: "i64 \<Rightarrow> mutation_error + unit" where
  "validate_persistent_timestamp t =
     (if kdbx4_time_ok t then Inr () else Inl (Err_InvalidEntryValue Outside_Time_Domain))"

definition validate_persistent_unsigned_timestamp :: "u64 \<Rightarrow> mutation_error + unit" where
  "validate_persistent_unsigned_timestamp t =
     (if kdbx4_unsigned_time_ok t then Inr () else Inl (Err_InvalidEntryValue Outside_Time_Domain))"

text \<open>\<open>for x in xs { check(x)?; }\<close>\<close>

definition check_all :: "('a \<Rightarrow> 'e + unit) \<Rightarrow> 'a list \<Rightarrow> 'e + unit" where
  "check_all check xs = try_fold (\<lambda>_. check) () xs"

definition check_some :: "('a \<Rightarrow> 'e + unit) \<Rightarrow> 'a option \<Rightarrow> 'e + unit" where
  "check_some check x = (case x of None \<Rightarrow> Inr () | Some v \<Rightarrow> check v)"

definition parse_uuid :: "core_env \<Rightarrow> string \<Rightarrow> mutation_error + uuid" where
  "parse_uuid env v =
     (case ce_parse_uuid env v of
        None \<Rightarrow> Inl (Err_InvalidUuid v)
      | Some u \<Rightarrow> if u = 0 then Inl (Err_InvalidUuid v) else Inr u)"

section \<open>Clock\<close>

definition current_unix_timestamp :: "core_env \<Rightarrow> nat \<Rightarrow> i64" where
  "current_unix_timestamp env k = (case ce_clock env k of Some seconds \<Rightarrow> I64 seconds | None \<Rightarrow> I64 0)"

text \<open>\<open>current_unix_timestamp().max(0) as u64\<close>.\<close>

definition clock_u64 :: "core_env \<Rightarrow> nat \<Rightarrow> u64" where
  "clock_u64 env k = i64_bits (max (current_unix_timestamp env k) (I64 0))"

definition saturating_add_one :: "u64 \<Rightarrow> u64" where
  "saturating_add_one x = (if x = - 1 then x else x + 1)"

definition next_entry_location_timestamp :: "core_env \<Rightarrow> nat \<Rightarrow> u64 option \<Rightarrow> mutation_error + u64" where
  "next_entry_location_timestamp env k previous =
     (let next_time = max (clock_u64 env k) (saturating_add_one (case previous of Some p \<Rightarrow> p | None \<Rightarrow> 0)) in
      and_then (validate_persistent_unsigned_timestamp next_time) (\<lambda>_. Inr next_time))"

section \<open>Anchors of removed nodes\<close>

fun position :: "('a \<Rightarrow> bool) \<Rightarrow> 'a list \<Rightarrow> nat option" where
  "position p [] = None"
| "position p (x # xs) = (if p x then Some 0 else map_option Suc (position p xs))"

text \<open>\<open>slice.get(i).cloned().flatten()\<close>.\<close>

definition get_flat :: "'a option list \<Rightarrow> nat \<Rightarrow> 'a option" where
  "get_flat xs i = (if i < length xs then xs ! i else None)"

text \<open>The index of the \<open>k\<close>-th node with a name, counted by the closure of \<open>position\<close>.\<close>

fun occurrence_index :: "string \<Rightarrow> nat \<Rightarrow> nat \<Rightarrow> string list \<Rightarrow> nat option" where
  "occurrence_index name k occurrence [] = None"
| "occurrence_index name k occurrence (x # xs) =
     (if x \<noteq> name then map_option Suc (occurrence_index name k occurrence xs)
      else if Suc occurrence = k then Some 0
      else map_option Suc (occurrence_index name k (Suc occurrence) xs))"

definition keyed_predecessor_anchor :: "string list \<Rightarrow> string \<Rightarrow> nat \<Rightarrow> anchor option list \<Rightarrow> anchor option" where
  "keyed_predecessor_anchor node_order name old_occurrence replacement_anchors =
     (case occurrence_index name old_occurrence 0 node_order of
        None \<Rightarrow> if old_occurrence < 2 then None else get_flat replacement_anchors (old_occurrence - 2)
      | Some 0 \<Rightarrow> None
      | Some (Suc index) \<Rightarrow>
          (let found = node_order ! index;
               occurrence = count_list (take (Suc index) node_order) found in
           if found = name then get_flat replacement_anchors (occurrence - 1)
           else Some \<lparr>an_element_name = found, an_occurrence = occurrence\<rparr>))"

definition renamed_identity :: "('a \<times> 'a) list \<Rightarrow> 'a \<Rightarrow> 'a" where
  "renamed_identity renames old =
     (case find (\<lambda>(o', _). o' = old) renames of Some (_, new) \<Rightarrow> new | None \<Rightarrow> old)"

definition retained_identity :: "('a \<times> 'a) list \<Rightarrow> 'a list \<Rightarrow> 'a \<Rightarrow> 'a option" where
  "retained_identity renames new old =
     (let identity = renamed_identity renames old in
      if identity \<in> set new then Some identity else None)"

abbreviation somes :: "'a option list \<Rightarrow> 'a list" where
  "somes \<equiv> List.map_filter (\<lambda>x. x)"

definition effective_identities :: "'a option list \<Rightarrow> 'a list \<Rightarrow> 'a list" where
  "effective_identities tracked_mapping new =
     somes tracked_mapping @ filter (\<lambda>identity. identity \<notin> set (somes tracked_mapping)) new"

definition keyed_replacement ::
    "string list \<Rightarrow> string \<Rightarrow> 'a list \<Rightarrow> anchor option list \<Rightarrow> 'a option \<Rightarrow> anchor option" where
  "keyed_replacement node_order name effective replacements mapped =
     (case mapped of
        None \<Rightarrow> keyed_predecessor_anchor node_order name (Suc (length replacements)) replacements
      | Some identity \<Rightarrow>
          (case position (\<lambda>candidate. candidate = identity) effective of
             Some i \<Rightarrow> Some \<lparr>an_element_name = name, an_occurrence = Suc i\<rparr>
           | None \<Rightarrow> None))"

text \<open>The inner \<open>None\<close> is the \<open>expect\<close>, which a mapped identity never meets: it is in \<open>effective\<close>.\<close>

definition keyed_replacements :: "string list \<Rightarrow> string \<Rightarrow> 'a list \<Rightarrow> 'a option list \<Rightarrow> anchor option list" where
  "keyed_replacements node_order name effective mapped =
     foldl (\<lambda>replacements m. replacements @ [keyed_replacement node_order name effective replacements m]) [] mapped"

text \<open>An anchor without replacement is first emptied, then every anchor with an empty name is dropped.\<close>

definition retarget_keyed_anchor :: "string \<Rightarrow> anchor option list \<Rightarrow> anchor \<Rightarrow> anchor" where
  "retarget_keyed_anchor name replacements a =
     (if an_element_name a \<noteq> name \<or> an_occurrence a = 0 \<or> \<not> an_occurrence a - 1 < length replacements then a
      else case replacements ! (an_occurrence a - 1) of
             Some r \<Rightarrow> r
           | None \<Rightarrow> \<lparr>an_element_name = [], an_occurrence = 0\<rparr>)"

definition retarget_keyed_after :: "string \<Rightarrow> anchor option list \<Rightarrow> anchor option \<Rightarrow> anchor option" where
  "retarget_keyed_after name replacements after =
     (case map_option (retarget_keyed_anchor name replacements) after of
        Some a \<Rightarrow> if an_element_name a = [] then None else Some a
      | None \<Rightarrow> None)"

fun retain_keyed_nodes :: "string \<Rightarrow> 'a option list \<Rightarrow> nat \<Rightarrow> string list \<Rightarrow> string list" where
  "retain_keyed_nodes name tracked occurrence [] = []"
| "retain_keyed_nodes name tracked occurrence (x # xs) =
     (if x \<noteq> name then x # retain_keyed_nodes name tracked occurrence xs
      else if occurrence < length tracked \<and> tracked ! occurrence = None
           then retain_keyed_nodes name tracked (Suc occurrence) xs
           else x # retain_keyed_nodes name tracked (Suc occurrence) xs)"

record 'a fidelity =
  fi_node_order :: "string list"
  fi_tracked :: "'a list"
  fi_opaque_xml :: "fragment list"
  fi_blocks :: "custom_data_block list"

definition retarget_keyed_known_nodes ::
    "string \<Rightarrow> 'a list \<Rightarrow> 'a list \<Rightarrow> ('a \<times> 'a) list \<Rightarrow> 'a fidelity \<Rightarrow> 'a fidelity" where
  "retarget_keyed_known_nodes name old new renames s =
     (let tracked_mapping = map (retained_identity renames new) (fi_tracked s);
          effective = effective_identities tracked_mapping new;
          mapped = map (retained_identity renames effective) old;
          replacements = keyed_replacements (fi_node_order s) name effective mapped
      in \<lparr>fi_node_order = retain_keyed_nodes name tracked_mapping 0 (fi_node_order s),
          fi_tracked = somes tracked_mapping,
          fi_opaque_xml = map (\<lambda>f. f\<lparr>fr_after := retarget_keyed_after name replacements (fr_after f)\<rparr>) (fi_opaque_xml s),
          fi_blocks = map (\<lambda>b. b\<lparr>cb_after := retarget_keyed_after name replacements (cb_after b)\<rparr>) (fi_blocks s)\<rparr>)"

text \<open>A single node is tracked by \<open>()\<close>, and every one of its slots goes.\<close>

definition retarget_removed_known_node ::
    "string \<Rightarrow> string list \<Rightarrow> fragment list \<Rightarrow> custom_data_block list \<Rightarrow> unit fidelity" where
  "retarget_removed_known_node name node_order opaque_xml blocks =
     retarget_keyed_known_nodes name [()] [] []
       \<lparr>fi_node_order = node_order,
        fi_tracked = map (\<lambda>_. ()) (filter (\<lambda>x. x = name) node_order),
        fi_opaque_xml = opaque_xml, fi_blocks = blocks\<rparr>"

definition remove_entry_node :: "string \<Rightarrow> entry_core \<Rightarrow> entry_core" where
  "remove_entry_node name e =
     (let s = retarget_removed_known_node name (er_node_order (e_raw_state e)) (e_opaque_xml e)
                (e_custom_data_blocks e)
      in e\<lparr>e_raw_state := (e_raw_state e)\<lparr>er_node_order := fi_node_order s\<rparr>,
           e_opaque_xml := fi_opaque_xml s, e_custom_data_blocks := fi_blocks s\<rparr>)"

definition remove_group_node :: "string \<Rightarrow> group_core \<Rightarrow> group_core" where
  "remove_group_node name g =
     (let s = retarget_removed_known_node name (gr_node_order (g_raw_state g)) (g_opaque_xml g)
                (g_custom_data_blocks g)
      in g\<lparr>g_raw_state := (g_raw_state g)\<lparr>gr_node_order := fi_node_order s\<rparr>,
           g_opaque_xml := fi_opaque_xml s, g_custom_data_blocks := fi_blocks s\<rparr>)"

definition retarget_removed_meta_node :: "string \<Rightarrow> vault \<Rightarrow> vault" where
  "retarget_removed_meta_node name v =
     (let s = retarget_removed_known_node name (mr_node_order (v_meta_raw_state v)) (v_meta_opaque_xml v)
                (v_meta_custom_data_blocks v)
      in v\<lparr>v_meta_raw_state := (v_meta_raw_state v)\<lparr>mr_node_order := fi_node_order s\<rparr>,
           v_meta_opaque_xml := fi_opaque_xml s, v_meta_custom_data_blocks := fi_blocks s\<rparr>)"

text \<open>Children that leave a group: the slots \<open>Entry\<close> and \<open>Group\<close> are tracked by id.\<close>

definition retarget_group_entries :: "uuid list \<Rightarrow> uuid list \<Rightarrow> group_core \<Rightarrow> group_core" where
  "retarget_group_entries old new g =
     (let s = retarget_keyed_known_nodes ''Entry'' old new []
                \<lparr>fi_node_order = gr_node_order (g_raw_state g), fi_tracked = gr_entry_order (g_raw_state g),
                 fi_opaque_xml = g_opaque_xml g, fi_blocks = g_custom_data_blocks g\<rparr>
      in g\<lparr>g_raw_state := (g_raw_state g)\<lparr>gr_node_order := fi_node_order s, gr_entry_order := fi_tracked s\<rparr>,
           g_opaque_xml := fi_opaque_xml s, g_custom_data_blocks := fi_blocks s\<rparr>)"

definition retarget_group_children :: "uuid list \<Rightarrow> uuid list \<Rightarrow> group_core \<Rightarrow> group_core" where
  "retarget_group_children old new g =
     (let s = retarget_keyed_known_nodes ''Group'' old new []
                \<lparr>fi_node_order = gr_node_order (g_raw_state g), fi_tracked = gr_group_order (g_raw_state g),
                 fi_opaque_xml = g_opaque_xml g, fi_blocks = g_custom_data_blocks g\<rparr>
      in g\<lparr>g_raw_state := (g_raw_state g)\<lparr>gr_node_order := fi_node_order s, gr_group_order := fi_tracked s\<rparr>,
           g_opaque_xml := fi_opaque_xml s, g_custom_data_blocks := fi_blocks s\<rparr>)"

section \<open>Finding and changing\<close>

abbreviation entry_id :: "entry \<Rightarrow> uuid" where "entry_id e \<equiv> e_id (e_core e)"
abbreviation group_id :: "vgroup \<Rightarrow> uuid" where "group_id g \<equiv> g_id (g_core g)"

fun find_group_by_id :: "core_env \<Rightarrow> string \<Rightarrow> vgroup \<Rightarrow> vgroup option"
  and find_group_in :: "core_env \<Rightarrow> string \<Rightarrow> vgroup list \<Rightarrow> vgroup option" where
  "find_group_by_id env i (Group g es children) =
     (if ce_uuid_text env (g_id g) = i then Some (Group g es children) else find_group_in env i children)"
| "find_group_in env i [] = None"
| "find_group_in env i (child # children) =
     (case find_group_by_id env i child of Some found \<Rightarrow> Some found | None \<Rightarrow> find_group_in env i children)"

fun find_group_by_id_mut :: "core_env \<Rightarrow> string \<Rightarrow> (vgroup \<Rightarrow> 'r \<times> vgroup) \<Rightarrow> vgroup \<Rightarrow> ('r \<times> vgroup) option"
  and find_group_in_mut :: "core_env \<Rightarrow> string \<Rightarrow> (vgroup \<Rightarrow> 'r \<times> vgroup) \<Rightarrow> vgroup list \<Rightarrow> ('r \<times> vgroup list) option" where
  "find_group_by_id_mut env i f (Group g es children) =
     (if ce_uuid_text env (g_id g) = i then Some (f (Group g es children))
      else map_option (\<lambda>(r, children'). (r, Group g es children')) (find_group_in_mut env i f children))"
| "find_group_in_mut env i f [] = None"
| "find_group_in_mut env i f (child # children) =
     (case find_group_by_id_mut env i f child of
        Some (r, child') \<Rightarrow> Some (r, child' # children)
      | None \<Rightarrow> map_option (\<lambda>(r, children'). (r, child # children')) (find_group_in_mut env i f children))"

fun find_entry_by_id :: "core_env \<Rightarrow> string \<Rightarrow> vgroup \<Rightarrow> entry option"
  and find_entry_in :: "core_env \<Rightarrow> string \<Rightarrow> vgroup list \<Rightarrow> entry option" where
  "find_entry_by_id env i (Group g es children) =
     (case find (\<lambda>e. ce_uuid_text env (entry_id e) = i) es of
        Some found \<Rightarrow> Some found | None \<Rightarrow> find_entry_in env i children)"
| "find_entry_in env i [] = None"
| "find_entry_in env i (child # children) =
     (case find_entry_by_id env i child of Some found \<Rightarrow> Some found | None \<Rightarrow> find_entry_in env i children)"

text \<open>\<open>entries.iter().position(..)\<close> with the element changed at that index.\<close>

fun change_entry :: "core_env \<Rightarrow> string \<Rightarrow> (entry \<Rightarrow> 'r \<times> entry) \<Rightarrow> entry list \<Rightarrow> ('r \<times> entry list) option" where
  "change_entry env i f [] = None"
| "change_entry env i f (e # es) =
     (if ce_uuid_text env (entry_id e) = i then (case f e of (r, e') \<Rightarrow> Some (r, e' # es))
      else map_option (\<lambda>(r, es'). (r, e # es')) (change_entry env i f es))"

fun find_entry_by_id_mut :: "core_env \<Rightarrow> string \<Rightarrow> (entry \<Rightarrow> 'r \<times> entry) \<Rightarrow> vgroup \<Rightarrow> ('r \<times> vgroup) option"
  and find_entry_in_mut :: "core_env \<Rightarrow> string \<Rightarrow> (entry \<Rightarrow> 'r \<times> entry) \<Rightarrow> vgroup list \<Rightarrow> ('r \<times> vgroup list) option" where
  "find_entry_by_id_mut env i f (Group g es children) =
     (case change_entry env i f es of
        Some (r, es') \<Rightarrow> Some (r, Group g es' children)
      | None \<Rightarrow> map_option (\<lambda>(r, children'). (r, Group g es children')) (find_entry_in_mut env i f children))"
| "find_entry_in_mut env i f [] = None"
| "find_entry_in_mut env i f (child # children) =
     (case find_entry_by_id_mut env i f child of
        Some (r, child') \<Rightarrow> Some (r, child' # children)
      | None \<Rightarrow> map_option (\<lambda>(r, children'). (r, child # children')) (find_entry_in_mut env i f children))"

fun group_contains_id :: "core_env \<Rightarrow> string \<Rightarrow> vgroup \<Rightarrow> bool"
  and children_contain_id :: "core_env \<Rightarrow> string \<Rightarrow> vgroup list \<Rightarrow> bool" where
  "group_contains_id env i (Group g es children) \<longleftrightarrow> children_contain_id env i children"
| "children_contain_id env i [] \<longleftrightarrow> False"
| "children_contain_id env i (child # children) \<longleftrightarrow>
     ce_uuid_text env (group_id child) = i \<or> group_contains_id env i child \<or> children_contain_id env i children"

fun group_or_entry_uses_uuid :: "vgroup \<Rightarrow> uuid \<Rightarrow> bool" where
  "group_or_entry_uses_uuid (Group g es children) u \<longleftrightarrow>
     g_id g = u \<or> list_ex (\<lambda>e. entry_id e = u) es \<or> list_ex (\<lambda>child. group_or_entry_uses_uuid child u) children"

section \<open>Taking out\<close>

text \<open>\<open>Vec::remove(index)\<close>.\<close>

definition remove_at :: "nat \<Rightarrow> 'a list \<Rightarrow> 'a list" where
  "remove_at i xs = take i xs @ drop (Suc i) xs"

fun take_entry_from_group :: "core_env \<Rightarrow> string \<Rightarrow> vgroup \<Rightarrow> ((entry \<times> uuid) \<times> vgroup) option"
  and take_entry_from_children :: "core_env \<Rightarrow> string \<Rightarrow> vgroup list \<Rightarrow> ((entry \<times> uuid) \<times> vgroup list) option" where
  "take_entry_from_group env i (Group g es children) =
     (case position (\<lambda>e. ce_uuid_text env (entry_id e) = i) es of
        Some index \<Rightarrow>
          Some ((es ! index, g_id g),
            Group (retarget_group_entries (map entry_id es) (map entry_id (remove_at index es)) g)
              (remove_at index es) children)
      | None \<Rightarrow>
          map_option (\<lambda>(r, children'). (r, Group g es children')) (take_entry_from_children env i children))"
| "take_entry_from_children env i [] = None"
| "take_entry_from_children env i (child # children) =
     (case take_entry_from_group env i child of
        Some (r, child') \<Rightarrow> Some (r, child' # children)
      | None \<Rightarrow> map_option (\<lambda>(r, children'). (r, child # children')) (take_entry_from_children env i children))"

fun take_group_from_group :: "core_env \<Rightarrow> string \<Rightarrow> vgroup \<Rightarrow> (vgroup \<times> vgroup) option"
  and take_group_from_children :: "core_env \<Rightarrow> string \<Rightarrow> vgroup list \<Rightarrow> (vgroup \<times> vgroup list) option" where
  "take_group_from_group env i (Group g es children) =
     (case position (\<lambda>child. ce_uuid_text env (group_id child) = i) children of
        Some index \<Rightarrow>
          Some (children ! index,
            Group (retarget_group_children (map group_id children) (map group_id (remove_at index children)) g)
              es (remove_at index children))
      | None \<Rightarrow>
          map_option (\<lambda>(r, children'). (r, Group g es children')) (take_group_from_children env i children))"
| "take_group_from_children env i [] = None"
| "take_group_from_children env i (child # children) =
     (case take_group_from_group env i child of
        Some (r, child') \<Rightarrow> Some (r, child' # children)
      | None \<Rightarrow> map_option (\<lambda>(r, children'). (r, child # children')) (take_group_from_children env i children))"

text \<open>\<open>delete_entry_from_group\<close> and \<open>delete_group_from_group\<close> repeat the same bodies and drop what they
  remove; \<open>None\<close> is the result \<open>false\<close>, which leaves the tree as it was.\<close>

definition delete_entry_from_group :: "core_env \<Rightarrow> string \<Rightarrow> vgroup \<Rightarrow> vgroup option" where
  "delete_entry_from_group env i g = map_option snd (take_entry_from_group env i g)"

definition delete_group_from_group :: "core_env \<Rightarrow> string \<Rightarrow> vgroup \<Rightarrow> vgroup option" where
  "delete_group_from_group env i g = map_option snd (take_group_from_group env i g)"

section \<open>Fresh identifiers\<close>

text \<open>The loop draws until the id is unused; \<open>None\<close> is a run that never ends.\<close>

partial_function (option) draw_until :: "(nat \<Rightarrow> uuid) \<Rightarrow> (uuid \<Rightarrow> bool) \<Rightarrow> nat \<Rightarrow> uuid option" where
  [code]: "draw_until draw used k = (if used (draw k) then draw_until draw used (Suc k) else Some (draw k))"

definition live_uuid_used :: "vault \<Rightarrow> uuid \<Rightarrow> bool" where
  "live_uuid_used v u \<longleftrightarrow>
     group_or_entry_uses_uuid (v_root v) u \<or> list_ex (\<lambda>d. do_id d = u) (v_deleted_objects v)"

definition fresh_live_uuid :: "core_env \<Rightarrow> vault \<Rightarrow> uuid option" where
  "fresh_live_uuid env v = draw_until (ce_new_v4 env) (live_uuid_used v) 0"

definition fresh_custom_icon_uuid :: "core_env \<Rightarrow> vault \<Rightarrow> uuid option" where
  "fresh_custom_icon_uuid env v =
     draw_until (ce_new_v4 env) (\<lambda>u. list_ex (\<lambda>icon. ci_id icon = u) (v_custom_icons v)) 0"

end
