(* ===== verification/CoreEntry.thy ===== *)
theory CoreEntry
  imports CoreTree Snapshot
begin

text \<open>
  The entry mutations of \<^verbatim>\<open>crates/vaultkern-core/src/lib.rs\<close>. A mutation takes the vault and returns its
  result, an error or the view the code projects, with the vault as it is afterwards, also on an error.
\<close>

section \<open>Running a mutation\<close>

type_synonym 'r mutation = "vault \<Rightarrow> (mutation_error + 'r) \<times> vault"

text \<open>\<open>let x = check?;\<close> in a function that holds \<open>&mut vault\<close>.\<close>

definition guarded :: "mutation_error + 'c \<Rightarrow> ('c \<Rightarrow> 'r mutation) \<Rightarrow> 'r mutation" where
  "guarded r k v = (case r of Inl e \<Rightarrow> (Inl e, v) | Inr x \<Rightarrow> k x v)"

text \<open>\<open>find_entry_by_id_mut(&mut vault.root, id).ok_or_else(..)?\<close> and what follows.\<close>

definition on_entry :: "core_env \<Rightarrow> string \<Rightarrow> (entry \<Rightarrow> (mutation_error + 'r) \<times> entry) \<Rightarrow> 'r mutation" where
  "on_entry env i f v =
     (case find_entry_by_id_mut env i f (v_root v) of
        None \<Rightarrow> (Inl (Err_EntryNotFound i), v)
      | Some (r, root) \<Rightarrow> (r, v\<lparr>v_root := root\<rparr>))"

definition get_entry :: "core_env \<Rightarrow> string \<Rightarrow> vault \<Rightarrow> mutation_error + entry" where
  "get_entry env i v = ok_or (find_entry_by_id env i (v_root v)) (Err_EntryNotFound i)"

text \<open>\<open>if let Some(x) = x { .. }\<close>.\<close>

definition with_some :: "'a option \<Rightarrow> ('a \<Rightarrow> 's \<Rightarrow> 's) \<Rightarrow> 's \<Rightarrow> 's" where
  "with_some x f s = (case x of None \<Rightarrow> s | Some a \<Rightarrow> f a s)"

text \<open>The body that changes the fields of an entry and projects it.\<close>

definition edit :: "core_env \<Rightarrow> (entry_core \<Rightarrow> entry_core) \<Rightarrow> entry \<Rightarrow> (mutation_error + entry_view) \<times> entry" where
  "edit env f entry = (let entry' = upd_entry f entry in (Inr (project_entry env entry'), entry'))"

section \<open>Fields\<close>

record entry_update =
  eu_title :: "string option"
  eu_username :: "string option"
  eu_password :: "string option"
  eu_url :: "string option"
  eu_notes :: "string option"

definition update_entry_fields :: "core_env \<Rightarrow> string \<Rightarrow> entry_update \<Rightarrow> entry_view mutation" where
  "update_entry_fields env i u v =
     guarded (get_entry env i v) (\<lambda>entry.
       let p = e_field_protection (e_core entry) in
       guarded (check_all (\<lambda>(x, protected, kind).
           check_some (\<lambda>x. validate_xml_text_with_protection x protected kind) x)
         [(eu_title u, protect_title p, ''entry title''), (eu_username u, protect_username p, ''entry username''),
          (eu_password u, protect_password p, ''entry password''), (eu_url u, protect_url p, ''entry URL''),
          (eu_notes u, protect_notes p, ''entry notes'')]) (\<lambda>_.
       on_entry env i (edit env
         (with_some (eu_notes u) (\<lambda>x e. e\<lparr>e_notes := x\<rparr>) \<circ> with_some (eu_url u) (\<lambda>x e. e\<lparr>e_url := x\<rparr>) \<circ>
          with_some (eu_password u) (\<lambda>x e. e\<lparr>e_password := x\<rparr>) \<circ>
          with_some (eu_username u) (\<lambda>x e. e\<lparr>e_username := x\<rparr>) \<circ>
          with_some (eu_title u) (\<lambda>x e. e\<lparr>e_title := x\<rparr>))))) v"

record entry_presentation_update =
  epu_icon_id :: "u32 option option"
  epu_foreground_color :: "string option option"
  epu_background_color :: "string option option"
  epu_override_url :: "string option option"

definition set_icon_id :: "u32 option \<Rightarrow> entry_core \<Rightarrow> entry_core" where
  "set_icon_id icon e =
     (if e_icon_id e \<noteq> None \<and> icon = None then remove_entry_node ''IconID'' e else e)\<lparr>e_icon_id := icon\<rparr>"

definition set_foreground_color :: "string option \<Rightarrow> entry_core \<Rightarrow> entry_core" where
  "set_foreground_color x e =
     (let e' = (if (e_foreground_color e \<noteq> None \<or> er_foreground_color_raw (e_raw_state e) \<noteq> None) \<and> x = None
                then remove_entry_node ''ForegroundColor'' e else e)
      in e'\<lparr>e_foreground_color := x, e_raw_state := (e_raw_state e')\<lparr>er_foreground_color_raw := None\<rparr>\<rparr>)"

definition set_background_color :: "string option \<Rightarrow> entry_core \<Rightarrow> entry_core" where
  "set_background_color x e =
     (let e' = (if (e_background_color e \<noteq> None \<or> er_background_color_raw (e_raw_state e) \<noteq> None) \<and> x = None
                then remove_entry_node ''BackgroundColor'' e else e)
      in e'\<lparr>e_background_color := x, e_raw_state := (e_raw_state e')\<lparr>er_background_color_raw := None\<rparr>\<rparr>)"

definition set_override_url :: "string option \<Rightarrow> entry_core \<Rightarrow> entry_core" where
  "set_override_url x e =
     (let e' = (if (e_override_url e \<noteq> None \<or> er_override_url_raw (e_raw_state e) \<noteq> None) \<and> x = None
                then remove_entry_node ''OverrideURL'' e else e)
      in e'\<lparr>e_override_url := x, e_raw_state := (e_raw_state e')\<lparr>er_override_url_raw := None\<rparr>\<rparr>)"

definition update_entry_presentation_metadata ::
    "core_env \<Rightarrow> string \<Rightarrow> entry_presentation_update \<Rightarrow> entry_presentation_view mutation" where
  "update_entry_presentation_metadata env i u =
     guarded (check_all (\<lambda>(x, kind). check_some (\<lambda>x. validate_unprotected_xml_text x kind) x)
       [(Option.bind (epu_foreground_color u) id, ''entry foreground color''),
        (Option.bind (epu_background_color u) id, ''entry background color''),
        (Option.bind (epu_override_url u) id, ''entry override URL'')]) (\<lambda>_.
     on_entry env i (\<lambda>entry.
       let entry' = upd_entry
         (with_some (epu_override_url u) set_override_url \<circ> with_some (epu_background_color u) set_background_color \<circ>
          with_some (epu_foreground_color u) set_foreground_color \<circ> with_some (epu_icon_id u) set_icon_id) entry
       in (Inr (project_entry_presentation_metadata (e_core entry')), entry')))"

record entry_lineage_update =
  elu_previous_parent_id :: "string option option"
  elu_exclude_from_reports :: "bool option"

definition set_exclude_from_reports :: "bool \<Rightarrow> entry_core \<Rightarrow> entry_core" where
  "set_exclude_from_reports x e =
     (let old_quality_check = e_exclude_from_reports e \<or> er_quality_check_raw (e_raw_state e) \<noteq> None;
          e' = (if old_quality_check \<and> \<not> x then remove_entry_node ''QualityCheck'' e else e)
      in e'\<lparr>e_exclude_from_reports := x, e_raw_state := (e_raw_state e')\<lparr>er_quality_check_raw := None\<rparr>\<rparr>)"

definition clear_previous_parent :: "entry_core \<Rightarrow> entry_core" where
  "clear_previous_parent e =
     (if e_previous_parent e \<noteq> None then remove_entry_node ''PreviousParentGroup'' e else e)
       \<lparr>e_previous_parent := None\<rparr>"

definition update_entry_lineage_report_metadata ::
    "core_env \<Rightarrow> string \<Rightarrow> entry_lineage_update \<Rightarrow> entry_lineage_view mutation" where
  "update_entry_lineage_report_metadata env i u v =
     (let finish = (\<lambda>f. on_entry env i (\<lambda>entry.
            let entry' = upd_entry (with_some (elu_exclude_from_reports u) set_exclude_from_reports \<circ> f) entry
            in (Inr (project_entry_lineage_report_metadata env (e_core entry')), entry')))
      in case elu_previous_parent_id u of
           Some (Some parent) \<Rightarrow>
             guarded (parse_uuid env parent) (\<lambda>parsed.
               if find_group_by_id env parent (v_root v) = None
               then guarded (Inl (Err_GroupNotFound parent)) (\<lambda>x. x)
               else finish (\<lambda>e. e\<lparr>e_previous_parent := Some parsed\<rparr>)) v
         | Some None \<Rightarrow> finish clear_previous_parent v
         | None \<Rightarrow> finish (\<lambda>e. e) v)"

record auto_type_update =
  atu_enabled :: "bool option option"
  atu_obfuscation :: "i32 option option"
  atu_default_sequence :: "string option option"
  atu_associations :: "auto_type_association list option"

definition update_entry_auto_type :: "core_env \<Rightarrow> string \<Rightarrow> auto_type_update \<Rightarrow> auto_type_config mutation" where
  "update_entry_auto_type env i u =
     guarded (check_some (\<lambda>x. validate_unprotected_xml_text x ''auto-type default sequence'')
       (Option.bind (atu_default_sequence u) id)) (\<lambda>_.
     guarded (check_some (check_all (\<lambda>a.
         and_then (validate_unprotected_xml_text (at_window a) ''auto-type window'') (\<lambda>_.
           validate_unprotected_xml_text (at_sequence a) ''auto-type sequence''))) (atu_associations u)) (\<lambda>_.
     on_entry env i (\<lambda>entry.
       let a = (case e_auto_type (e_core entry) of Some a \<Rightarrow> a | None \<Rightarrow> default_auto_type);
           a' = (with_some (atu_associations u) (\<lambda>x a. a\<lparr>at_associations := x\<rparr>) \<circ>
                 with_some (atu_default_sequence u) (\<lambda>x a. a\<lparr>at_default_sequence := x\<rparr>) \<circ>
                 with_some (atu_obfuscation u) (\<lambda>x a. a\<lparr>at_obfuscation := x\<rparr>) \<circ>
                 with_some (atu_enabled u) (\<lambda>x a. a\<lparr>at_enabled := x\<rparr>)) a;
           entry' = upd_entry (\<lambda>e. e\<lparr>e_auto_type := Some a'\<rparr>) entry
       in (Inr (project_entry_auto_type (e_core entry')), entry'))))"

section \<open>Times\<close>

record entry_times_update =
  etu_created_at :: "u64 option"
  etu_modified_at :: "u64 option"
  etu_last_accessed_at :: "u64 option option"
  etu_usage_count :: "u64 option option"
  etu_location_changed_at :: "u64 option option"

definition update_entry_times :: "core_env \<Rightarrow> string \<Rightarrow> entry_times_update \<Rightarrow> entry_times_view mutation" where
  "update_entry_times env i u =
     guarded (if etu_location_changed_at u = Some None then Inl (Err_InvalidEntryValue Cannot_Be_Cleared) else Inr ()) (\<lambda>_.
     guarded (check_all validate_persistent_unsigned_timestamp
       (somes [etu_created_at u, etu_modified_at u])) (\<lambda>_.
     guarded (check_all validate_persistent_unsigned_timestamp
       (somes (somes [etu_last_accessed_at u, etu_location_changed_at u]))) (\<lambda>_.
     on_entry env i (\<lambda>entry.
       let entry' = upd_entry
         (with_some (etu_location_changed_at u) (\<lambda>x e. e\<lparr>e_location_changed_at := x\<rparr>) \<circ>
          with_some (etu_usage_count u) (\<lambda>x e. e\<lparr>e_usage_count := x\<rparr>) \<circ>
          with_some (etu_last_accessed_at u) (\<lambda>x e. e\<lparr>e_last_accessed_at := x\<rparr>) \<circ>
          with_some (etu_modified_at u) (\<lambda>x e. e\<lparr>e_modified_at := x\<rparr>) \<circ>
          with_some (etu_created_at u) (\<lambda>x e. e\<lparr>e_created_at := x\<rparr>)) entry
       in (Inr (project_entry_times (e_core entry')), entry')))))"

record expiry_update =
  xu_expires :: bool
  xu_expiry_time :: "i64 option"

definition update_entry_expiry :: "core_env \<Rightarrow> string \<Rightarrow> expiry_update \<Rightarrow> entry_view mutation" where
  "update_entry_expiry env i u =
     guarded (if xu_expires u \<and> xu_expiry_time u = None
              then Inl (Err_InvalidEntryValue Expiry_Time_Required) else Inr ()) (\<lambda>_.
     guarded (check_some validate_persistent_timestamp (xu_expiry_time u)) (\<lambda>_.
     on_entry env i (edit env (\<lambda>e. e\<lparr>e_expires := xu_expires u, e_expiry_time := xu_expiry_time u\<rparr>))))"

section \<open>Icons, tags, protection\<close>

text \<open>The parsed and known custom icon of an update.\<close>

definition known_custom_icon :: "core_env \<Rightarrow> string option \<Rightarrow> vault \<Rightarrow> mutation_error + uuid option" where
  "known_custom_icon env icon v =
     and_then (case icon of Some i \<Rightarrow> and_then (parse_uuid env i) (\<lambda>u. Inr (Some u)) | None \<Rightarrow> Inr None) (\<lambda>parsed.
       case parsed of
         Some u \<Rightarrow> if list_ex (\<lambda>icon. ci_id icon = u) (v_custom_icons v) then Inr parsed
                   else Inl (Err_CustomIconNotFound (ce_uuid_text env u))
       | None \<Rightarrow> Inr parsed)"

definition set_entry_custom_icon :: "uuid option \<Rightarrow> entry_core \<Rightarrow> entry_core" where
  "set_entry_custom_icon icon e =
     (if e_custom_icon_id e \<noteq> None \<and> icon = None then remove_entry_node ''CustomIconUUID'' e else e)
       \<lparr>e_custom_icon_id := icon\<rparr>"

definition update_entry_custom_icon :: "core_env \<Rightarrow> string \<Rightarrow> string option \<Rightarrow> entry_view mutation" where
  "update_entry_custom_icon env i icon v =
     guarded (known_custom_icon env icon v) (\<lambda>parsed. on_entry env i (edit env (set_entry_custom_icon parsed))) v"

definition set_tags :: "string list \<Rightarrow> entry_core \<Rightarrow> entry_core" where
  "set_tags tags e =
     (let e' = (if (e_tags e \<noteq> [] \<or> er_tags_raw (e_raw_state e) \<noteq> None) \<and> tags = []
                then remove_entry_node ''Tags'' e else e)
      in e'\<lparr>e_tags := bs_of_list tags, e_raw_state := (e_raw_state e')\<lparr>er_tags_raw := None\<rparr>\<rparr>)"

definition replace_entry_tags :: "core_env \<Rightarrow> string \<Rightarrow> string list \<Rightarrow> entry_view mutation" where
  "replace_entry_tags env i tags =
     on_entry env i (\<lambda>entry.
       case validate_persistent_tags tags of
         Inl e \<Rightarrow> (Inl e, entry)
       | Inr _ \<Rightarrow> edit env (set_tags tags) entry)"

record field_protection_update =
  fpu_title :: "bool option"
  fpu_username :: "bool option"
  fpu_password :: "bool option"
  fpu_url :: "bool option"
  fpu_notes :: "bool option"

definition update_entry_field_protection ::
    "core_env \<Rightarrow> string \<Rightarrow> field_protection_update \<Rightarrow> entry_view mutation" where
  "update_entry_field_protection env i u v =
     guarded (get_entry env i v) (\<lambda>entry.
       let c = e_core entry in
       guarded (check_all (\<lambda>(x, protection, kind).
           if protection = Some False then validate_unprotected_xml_text x kind else Inr ())
         [(e_title c, fpu_title u, ''entry title''), (e_username c, fpu_username u, ''entry username''),
          (e_password c, fpu_password u, ''entry password''), (e_url c, fpu_url u, ''entry URL''),
          (e_notes c, fpu_notes u, ''entry notes'')]) (\<lambda>_.
       on_entry env i (edit env (\<lambda>e. e\<lparr>e_field_protection :=
         (with_some (fpu_notes u) (\<lambda>x p. p\<lparr>protect_notes := x\<rparr>) \<circ>
          with_some (fpu_url u) (\<lambda>x p. p\<lparr>protect_url := x\<rparr>) \<circ>
          with_some (fpu_password u) (\<lambda>x p. p\<lparr>protect_password := x\<rparr>) \<circ>
          with_some (fpu_username u) (\<lambda>x p. p\<lparr>protect_username := x\<rparr>) \<circ>
          with_some (fpu_title u) (\<lambda>x p. p\<lparr>protect_title := x\<rparr>)) (e_field_protection e)\<rparr>)))) v"

section \<open>Custom fields and credentials\<close>

text \<open>\<open>entry_string_identities\<close>: the keys of the \<open>String\<close> nodes, tracked ones first.\<close>

fun ordered_identities :: "'a::linorder list \<Rightarrow> 'a list \<Rightarrow> 'a list \<Rightarrow> 'a list" where
  "ordered_identities [] remaining ordered = ordered @ remaining"
| "ordered_identities (x # xs) remaining ordered =
     (if x \<in> set remaining then ordered_identities xs (removeAll x remaining) (ordered @ [x])
      else ordered_identities xs remaining ordered)"

definition string_keys :: "entry_core \<Rightarrow> string list" where
  "string_keys e =
     bs_of_list ([''Title'', ''UserName'', ''Password'', ''URL'', ''Notes''] @
       bt_keys (mt_fields (materialize_entry_persistent_attributes e)))"

definition entry_string_identities :: "entry_core \<Rightarrow> string list" where
  "entry_string_identities e = ordered_identities (er_string_order (e_raw_state e)) (string_keys e) []"

definition entry_binary_identities :: "entry_core \<Rightarrow> string list" where
  "entry_binary_identities e =
     ordered_identities (er_binary_order (e_raw_state e)) (bs_of_list (bt_keys (e_attachments e))) []"

definition retarget_strings :: "string list \<Rightarrow> string list \<Rightarrow> entry_core \<Rightarrow> entry_core" where
  "retarget_strings old new e =
     (let s = retarget_keyed_known_nodes ''String'' old new []
                \<lparr>fi_node_order = er_node_order (e_raw_state e), fi_tracked = er_string_order (e_raw_state e),
                 fi_opaque_xml = e_opaque_xml e, fi_blocks = e_custom_data_blocks e\<rparr>
      in e\<lparr>e_raw_state := (e_raw_state e)\<lparr>er_node_order := fi_node_order s, er_string_order := fi_tracked s\<rparr>,
           e_opaque_xml := fi_opaque_xml s, e_custom_data_blocks := fi_blocks s\<rparr>)"

definition retarget_binaries :: "string list \<Rightarrow> string list \<Rightarrow> (string \<times> string) list \<Rightarrow> entry_core \<Rightarrow> entry_core" where
  "retarget_binaries old new renames e =
     (let s = retarget_keyed_known_nodes ''Binary'' old new renames
                \<lparr>fi_node_order = er_node_order (e_raw_state e), fi_tracked = er_binary_order (e_raw_state e),
                 fi_opaque_xml = e_opaque_xml e, fi_blocks = e_custom_data_blocks e\<rparr>
      in e\<lparr>e_raw_state := (e_raw_state e)\<lparr>er_node_order := fi_node_order s, er_binary_order := fi_tracked s\<rparr>,
           e_opaque_xml := fi_opaque_xml s, e_custom_data_blocks := fi_blocks s\<rparr>)"

text \<open>A change of the \<open>String\<close> nodes, between the two readings of their identities.\<close>

definition change_strings :: "(entry_core \<Rightarrow> entry_core) \<Rightarrow> entry_core \<Rightarrow> entry_core" where
  "change_strings f e =
     (let e' = f e in retarget_strings (entry_string_identities e) (entry_string_identities e') e')"

record custom_field_input =
  fin_key :: string
  fin_value :: string
  fin_protected :: bool

definition upsert_entry_custom_field :: "core_env \<Rightarrow> string \<Rightarrow> custom_field_input \<Rightarrow> entry_view mutation" where
  "upsert_entry_custom_field env i field =
     on_entry env i (\<lambda>entry.
       case (if fin_key field = [] then Inl (Err_InvalidEntryValue (Empty_Key ''custom field''))
             else if is_reserved_entry_custom_field_key (fin_key field)
                  then Inl (Err_ReservedCustomFieldKey (fin_key field))
             else and_then (validate_unprotected_xml_text (fin_key field) ''custom field key'') (\<lambda>_.
                    validate_xml_text_with_protection (fin_value field) (fin_protected field) ''custom field value'')) of
         Inl e \<Rightarrow> (Inl e, entry)
       | Inr _ \<Rightarrow> edit env (\<lambda>e. e\<lparr>e_attributes := bt_insert (fin_key field)
                    \<lparr>cf_value = fin_value field, cf_protected = fin_protected field\<rparr> (e_attributes e)\<rparr>) entry)"

definition delete_entry_custom_field :: "core_env \<Rightarrow> string \<Rightarrow> string \<Rightarrow> entry_view mutation" where
  "delete_entry_custom_field env i key =
     on_entry env i (\<lambda>entry.
       if is_reserved_entry_custom_field_key key then (Inl (Err_ReservedCustomFieldKey key), entry)
       else if \<not> bt_contains (e_attributes (e_core entry)) key then (Inl (Err_CustomFieldNotFound key), entry)
       else edit env (change_strings (\<lambda>e. e\<lparr>e_attributes := bt_remove key (e_attributes e)\<rparr>)) entry)"

definition default_account :: "entry \<Rightarrow> totp_spec \<Rightarrow> totp_spec" where
  "default_account entry t =
     (let t' = (if tp_issuer t = Some [] then t\<lparr>tp_issuer := None\<rparr> else t) in
      if tp_account_name t' = None \<or> tp_account_name t' = Some []
      then t'\<lparr>tp_account_name := Some (e_username (e_core entry))\<rparr> else t')"

definition set_entry_totp :: "core_env \<Rightarrow> string \<Rightarrow> totp_spec \<Rightarrow> entry_view mutation" where
  "set_entry_totp env i totp v =
     guarded (get_entry env i v) (\<lambda>current.
       let t = default_account current totp;
           account = (case tp_account_name t of Some a \<Rightarrow> a | None \<Rightarrow> []) in
       guarded (if account = [] then Inl (Err_InvalidEntryValue Totp_Account_Empty)
                else if tp_secret_base32 t = [] then Inl (Err_InvalidEntryValue Totp_Secret_Empty)
                else if tp_issuer t = None \<and> CHR '':'' \<in> set account
                     then Inl (Err_InvalidEntryValue Totp_Issuer_Required)
                else Inr ()) (\<lambda>_.
       on_entry env i (edit env (change_strings (\<lambda>e. e\<lparr>e_totp := Some t\<rparr>))))) v"

definition clear_entry_totp :: "core_env \<Rightarrow> string \<Rightarrow> entry_view mutation" where
  "clear_entry_totp env i =
     on_entry env i (edit env (change_strings (\<lambda>e. e\<lparr>e_totp := None,
       e_attributes := filter (\<lambda>(key, _). \<not> is_totp_persistent_attribute_key key) (e_attributes e)\<rparr>)))"

definition set_entry_passkey :: "core_env \<Rightarrow> string \<Rightarrow> passkey_record \<Rightarrow> entry_view mutation" where
  "set_entry_passkey env i passkey =
     guarded (validate_unprotected_xml_text (pk_username passkey) ''passkey username'') (\<lambda>_.
     guarded (check_some (\<lambda>x. validate_unprotected_xml_text x ''passkey generated user ID'')
       (pk_generated_user_id passkey)) (\<lambda>_.
     guarded (validate_unprotected_xml_text (pk_relying_party passkey) ''passkey relying party'') (\<lambda>_.
     on_entry env i (edit env (change_strings (\<lambda>e. e\<lparr>e_passkey := Some passkey\<rparr>))))))"

definition clear_entry_passkey :: "core_env \<Rightarrow> string \<Rightarrow> entry_view mutation" where
  "clear_entry_passkey env i =
     on_entry env i (edit env (change_strings (\<lambda>e. e\<lparr>e_passkey := None,
       e_attributes := filter (\<lambda>(key, _). \<not> is_passkey_persistent_attribute_key key) (e_attributes e)\<rparr>)))"

section \<open>Attachments\<close>

text \<open>\<open>find_shared_attachment_content\<close>: the first content with the same id, the entries of a group with
  their histories before its children. A content with the same id and other bytes is an error.\<close>

fun shared_in_attachments :: "content_id \<Rightarrow> bytes \<Rightarrow> attachment list \<Rightarrow> mutation_error + attachment_content option" where
  "shared_in_attachments cid bs [] = Inr None"
| "shared_in_attachments cid bs (a # attachments) =
     (if ac_id (a_data a) = cid then
        (if ac_bytes (a_data a) \<noteq> bs then Inl Err_AttachmentContentHashCollision else Inr (Some (a_data a)))
      else shared_in_attachments cid bs attachments)"

fun find_shared_attachment_content_in_entry ::
    "content_id \<Rightarrow> bytes \<Rightarrow> entry \<Rightarrow> mutation_error + attachment_content option"
  and find_shared_in_history :: "content_id \<Rightarrow> bytes \<Rightarrow> entry list \<Rightarrow> mutation_error + attachment_content option" where
  "find_shared_attachment_content_in_entry cid bs (Entry e history) =
     and_then (shared_in_attachments cid bs (bt_values (e_attachments e))) (\<lambda>found.
       case found of Some c \<Rightarrow> Inr (Some c) | None \<Rightarrow> find_shared_in_history cid bs history)"
| "find_shared_in_history cid bs [] = Inr None"
| "find_shared_in_history cid bs (h # history) =
     and_then (find_shared_attachment_content_in_entry cid bs h) (\<lambda>found.
       case found of Some c \<Rightarrow> Inr (Some c) | None \<Rightarrow> find_shared_in_history cid bs history)"

fun find_shared_in_entries :: "content_id \<Rightarrow> bytes \<Rightarrow> entry list \<Rightarrow> mutation_error + attachment_content option" where
  "find_shared_in_entries cid bs [] = Inr None"
| "find_shared_in_entries cid bs (entry # es) =
     and_then (shared_in_attachments cid bs (bt_values (e_attachments (e_core entry)))) (\<lambda>found.
       case found of
         Some c \<Rightarrow> Inr (Some c)
       | None \<Rightarrow> and_then (find_shared_in_history cid bs (e_history entry)) (\<lambda>found.
           case found of Some c \<Rightarrow> Inr (Some c) | None \<Rightarrow> find_shared_in_entries cid bs es))"

fun find_shared_attachment_content ::
    "content_id \<Rightarrow> bytes \<Rightarrow> vgroup \<Rightarrow> mutation_error + attachment_content option"
  and find_shared_in_children :: "content_id \<Rightarrow> bytes \<Rightarrow> vgroup list \<Rightarrow> mutation_error + attachment_content option" where
  "find_shared_attachment_content cid bs (Group g es children) =
     and_then (find_shared_in_entries cid bs es) (\<lambda>found.
       case found of Some c \<Rightarrow> Inr (Some c) | None \<Rightarrow> find_shared_in_children cid bs children)"
| "find_shared_in_children cid bs [] = Inr None"
| "find_shared_in_children cid bs (child # children) =
     and_then (find_shared_attachment_content cid bs child) (\<lambda>found.
       case found of Some c \<Rightarrow> Inr (Some c) | None \<Rightarrow> find_shared_in_children cid bs children)"

definition shared_attachment_content :: "core_env \<Rightarrow> vgroup \<Rightarrow> bytes \<Rightarrow> mutation_error + attachment_content" where
  "shared_attachment_content env root bs =
     (let cid = ce_content_id env bs in
      and_then (find_shared_attachment_content cid bs root) (\<lambda>found.
        Inr (case found of Some c \<Rightarrow> c | None \<Rightarrow> \<lparr>ac_id = cid, ac_bytes = bs\<rparr>)))"

record attachment_input =
  ain_name :: string
  ain_data :: bytes
  ain_protect_in_memory :: bool

definition add_entry_attachment :: "core_env \<Rightarrow> string \<Rightarrow> attachment_input \<Rightarrow> entry_view mutation" where
  "add_entry_attachment env i a v =
     guarded (if ain_name a = [] then Inl (Err_InvalidEntryValue (Empty_Key ''attachment name'')) else Inr ()) (\<lambda>_.
     guarded (validate_unprotected_xml_text (ain_name a) ''attachment name'') (\<lambda>_.
     guarded (shared_attachment_content env (v_root v) (ain_data a)) (\<lambda>content.
     on_entry env i (edit env (\<lambda>e. e\<lparr>e_attachments := bt_insert (ain_name a)
       \<lparr>a_name = ain_name a, a_data = content, a_protect_in_memory = ain_protect_in_memory a\<rparr>
       (e_attachments e)\<rparr>))))) v"

definition delete_entry_attachment :: "core_env \<Rightarrow> string \<Rightarrow> string \<Rightarrow> entry_view mutation" where
  "delete_entry_attachment env i name =
     on_entry env i (\<lambda>entry.
       if \<not> bt_contains (e_attachments (e_core entry)) name then (Inl (Err_AttachmentNotFound name), entry)
       else edit env (\<lambda>e.
         let e' = e\<lparr>e_attachments := bt_remove name (e_attachments e)\<rparr> in
         retarget_binaries (entry_binary_identities e) (entry_binary_identities e') [] e') entry)"

record attachment_metadata_update =
  amu_new_name :: "string option"
  amu_protect_in_memory :: "bool option"

text \<open>The attachment is taken out first; a name that is in use puts it back.\<close>

definition update_entry_attachment_metadata ::
    "core_env \<Rightarrow> string \<Rightarrow> string \<Rightarrow> attachment_metadata_update \<Rightarrow> attachment_view list mutation" where
  "update_entry_attachment_metadata env i name u =
     on_entry env i (\<lambda>entry.
       if amu_new_name u = Some [] then (Inl (Err_InvalidEntryValue (Empty_Key ''attachment name'')), entry)
       else case check_some (\<lambda>x. validate_unprotected_xml_text x ''attachment name'') (amu_new_name u) of
         Inl e \<Rightarrow> (Inl e, entry)
       | Inr _ \<Rightarrow>
         (let e = e_core entry; old_identities = entry_binary_identities e in
          case bt_get (e_attachments e) name of
            None \<Rightarrow> (Inl (Err_AttachmentNotFound name), entry)
          | Some a \<Rightarrow>
            (let rest = bt_remove name (e_attachments e);
                 target = (case amu_new_name u of Some n \<Rightarrow> n | None \<Rightarrow> a_name a) in
             if target \<noteq> name \<and> bt_contains rest target
             then (Inl (Err_AttachmentAlreadyExists target),
                   upd_entry (\<lambda>e. e\<lparr>e_attachments := bt_insert name a rest\<rparr>) entry)
             else let a' = (with_some (amu_protect_in_memory u) (\<lambda>x a. a\<lparr>a_protect_in_memory := x\<rparr>)) (a\<lparr>a_name := target\<rparr>);
                      e' = e\<lparr>e_attachments := bt_insert target a' rest\<rparr>;
                      entry' = upd_entry (\<lambda>_. retarget_binaries old_identities (entry_binary_identities e')
                                 [(name, target)] e') entry
                  in (Inr (project_attachment_items (e_attachments (e_core entry'))), entry'))))"

definition replace_entry_attachment_content ::
    "core_env \<Rightarrow> string \<Rightarrow> string \<Rightarrow> bytes \<Rightarrow> attachment_view list mutation" where
  "replace_entry_attachment_content env i name data v =
     guarded (shared_attachment_content env (v_root v) data) (\<lambda>content.
     on_entry env i (\<lambda>entry.
       case bt_get (e_attachments (e_core entry)) name of
         None \<Rightarrow> (Inl (Err_AttachmentNotFound name), entry)
       | Some a \<Rightarrow>
         (let entry' = upd_entry (\<lambda>e. e\<lparr>e_attachments := bt_insert name (a\<lparr>a_data := content\<rparr>) (e_attachments e)\<rparr>) entry
          in (Inr (project_attachment_items (e_attachments (e_core entry'))), entry')))) v"

section \<open>Custom data and history\<close>

text \<open>\<open>canonicalize_custom_data_blocks\<close> on the fields of an entry.\<close>

definition canonicalize_entry_custom_data :: "(string \<times> i64 option) option \<Rightarrow> entry_core \<Rightarrow> entry_core" where
  "canonicalize_entry_custom_data updated e =
     (case reconcile_custom_data_blocks (e_custom_data_blocks e) (e_opaque_xml e) (er_node_order (e_raw_state e))
             (e_custom_data e) updated of
        (blocks, opaque, order) \<Rightarrow>
          e\<lparr>e_custom_data_blocks := blocks, e_opaque_xml := opaque,
            e_raw_state := (e_raw_state e)\<lparr>er_node_order := order\<rparr>\<rparr>)"

definition validate_custom_data_item :: "string \<Rightarrow> string \<Rightarrow> mutation_error + unit" where
  "validate_custom_data_item key v =
     and_then (validate_non_empty_key key ''custom data'') (\<lambda>_.
     and_then (validate_unprotected_xml_text key ''custom data key'') (\<lambda>_.
     validate_unprotected_xml_text v ''custom data value''))"

definition put_entry_custom_data :: "string \<Rightarrow> string \<Rightarrow> i64 option \<Rightarrow> entry_core \<Rightarrow> entry_core" where
  "put_entry_custom_data key v modified e =
     canonicalize_entry_custom_data (Some (key, modified)) (e\<lparr>e_custom_data := bt_insert key v (e_custom_data e)\<rparr>)"

definition upsert_entry_custom_data :: "core_env \<Rightarrow> string \<Rightarrow> string \<Rightarrow> string \<Rightarrow> entry_view mutation" where
  "upsert_entry_custom_data env i key v =
     guarded (validate_custom_data_item key v) (\<lambda>_. on_entry env i (edit env (put_entry_custom_data key v None)))"

definition upsert_entry_custom_data_detail :: "core_env \<Rightarrow> string \<Rightarrow> custom_data_item \<Rightarrow> entry_view mutation" where
  "upsert_entry_custom_data_detail env i item =
     guarded (validate_custom_data_item (cd_key item) (cd_value item)) (\<lambda>_.
     guarded (check_some validate_persistent_timestamp (cd_last_modified item)) (\<lambda>_.
     on_entry env i (edit env (put_entry_custom_data (cd_key item) (cd_value item) (cd_last_modified item)))))"

definition delete_entry_custom_data :: "core_env \<Rightarrow> string \<Rightarrow> string \<Rightarrow> entry_view mutation" where
  "delete_entry_custom_data env i key =
     on_entry env i (\<lambda>entry.
       if \<not> bt_contains (e_custom_data (e_core entry)) key then (Inl (Err_CustomDataNotFound key), entry)
       else edit env (\<lambda>e. canonicalize_entry_custom_data None
              (e\<lparr>e_custom_data := bt_remove key (e_custom_data e)\<rparr>)) entry)"

definition snapshot_entry_to_history :: "core_env \<Rightarrow> string \<Rightarrow> entry_view mutation" where
  "snapshot_entry_to_history env i =
     on_entry env i (\<lambda>entry.
       let entry' = set_history (e_history entry @ [prepare_entry_history_snapshot entry]) entry
       in (Inr (project_entry env entry'), entry'))"

definition clear_entry_history :: "core_env \<Rightarrow> string \<Rightarrow> entry_view mutation" where
  "clear_entry_history env i =
     on_entry env i (\<lambda>entry.
       let entry' = set_history [] entry in (Inr (project_entry env entry'), entry'))"

end
