(* ===== verification/CoreGroup.thy ===== *)
theory CoreGroup
  imports CoreEntry
begin

text \<open>
  The group and vault mutations of \<^verbatim>\<open>crates/vaultkern-core/src/lib.rs\<close>: metadata, custom data, custom
  icons.
\<close>

section \<open>Groups\<close>

text \<open>\<open>find_group_by_id_mut(&mut vault.root, id).ok_or_else(..)?\<close> and what follows.\<close>

definition on_group :: "core_env \<Rightarrow> string \<Rightarrow> (vgroup \<Rightarrow> (mutation_error + 'r) \<times> vgroup) \<Rightarrow> 'r mutation" where
  "on_group env i f v =
     (case find_group_by_id_mut env i f (v_root v) of
        None \<Rightarrow> (Inl (Err_GroupNotFound i), v)
      | Some (r, root) \<Rightarrow> (r, v\<lparr>v_root := root\<rparr>))"

definition upd_group :: "(group_core \<Rightarrow> group_core) \<Rightarrow> vgroup \<Rightarrow> vgroup" where
  "upd_group f g = Group (f (g_core g)) (g_entries g) (g_children g)"

lemma upd_group_simps [simp]:
  "g_core (upd_group f g) = f (g_core g)" "g_entries (upd_group f g) = g_entries g"
  "g_children (upd_group f g) = g_children g"
  by (simp_all add: upd_group_def)

text \<open>The body that changes the fields of a group and returns a view of them.\<close>

definition regroup :: "(group_core \<Rightarrow> 'r) \<Rightarrow> (group_core \<Rightarrow> group_core) \<Rightarrow> vgroup \<Rightarrow> (mutation_error + 'r) \<times> vgroup" where
  "regroup view f g = (let g' = upd_group f g in (Inr (view (g_core g')), g'))"

record group_metadata_update =
  gmu_title :: "string option"
  gmu_notes :: "string option"
  gmu_icon_id :: "u32 option"
  gmu_flags :: "group_flags option"

definition update_group_metadata :: "core_env \<Rightarrow> string \<Rightarrow> group_metadata_update \<Rightarrow> group_view mutation" where
  "update_group_metadata env i u =
     guarded (check_some (\<lambda>x. validate_unprotected_xml_text x ''group title'') (gmu_title u)) (\<lambda>_.
     guarded (check_some (\<lambda>x. validate_unprotected_xml_text x ''group notes'') (gmu_notes u)) (\<lambda>_.
     on_group env i (\<lambda>g.
       let g' = upd_group
         (with_some (gmu_flags u) (\<lambda>x g. g\<lparr>g_flags := x, g_raw_state := (g_raw_state g)
            \<lparr>gr_enable_auto_type_raw := None, gr_enable_searching_raw := None\<rparr>\<rparr>) \<circ>
          with_some (gmu_icon_id u) (\<lambda>x g. g\<lparr>g_icon_id := Some x\<rparr>) \<circ>
          with_some (gmu_notes u) (\<lambda>x g. g\<lparr>g_notes := x\<rparr>) \<circ>
          with_some (gmu_title u) (\<lambda>x g. g\<lparr>g_title := x\<rparr>)) g
       in (Inr (project_group env g'), g'))))"

record group_behavior_update =
  gbu_default_auto_type_sequence :: "string option"
  gbu_last_top_visible_entry_id :: "string option"
  gbu_enable_auto_type :: "bool option"
  gbu_enable_searching :: "bool option"

definition some_unless_empty :: "string \<Rightarrow> string option" where
  "some_unless_empty s = (if s = [] then None else Some s)"

definition update_group_behavior_metadata ::
    "core_env \<Rightarrow> string \<Rightarrow> group_behavior_update \<Rightarrow> group_behavior_view mutation" where
  "update_group_behavior_metadata env i u =
     guarded (check_some (\<lambda>x. validate_unprotected_xml_text x ''group default auto-type sequence'')
       (gbu_default_auto_type_sequence u)) (\<lambda>_.
     guarded (case gbu_last_top_visible_entry_id u of
                None \<Rightarrow> Inr None | Some x \<Rightarrow> and_then (parse_uuid env x) (\<lambda>y. Inr (Some y))) (\<lambda>last_top_visible_entry.
     on_group env i (regroup (project_group_behavior_metadata env)
       (with_some (gbu_enable_searching u) (\<lambda>x g. g\<lparr>g_flags := (g_flags g)\<lparr>gf_enable_searching := Some x\<rparr>,
          g_raw_state := (g_raw_state g)\<lparr>gr_enable_searching_raw := None\<rparr>\<rparr>) \<circ>
        with_some (gbu_enable_auto_type u) (\<lambda>x g. g\<lparr>g_flags := (g_flags g)\<lparr>gf_enable_auto_type := Some x\<rparr>,
          g_raw_state := (g_raw_state g)\<lparr>gr_enable_auto_type_raw := None\<rparr>\<rparr>) \<circ>
        with_some last_top_visible_entry (\<lambda>x g. g\<lparr>g_last_top_visible_entry := Some x\<rparr>) \<circ>
        with_some (gbu_default_auto_type_sequence u) (\<lambda>x g. g\<lparr>g_default_auto_type_sequence := some_unless_empty x,
          g_raw_state := (g_raw_state g)\<lparr>gr_default_auto_type_sequence_raw := None\<rparr>\<rparr>)))))"

record group_lineage_update =
  glu_tags :: "string list option"
  glu_previous_parent_id :: "string option option"

text \<open>An update that names a group: it must parse and be found.\<close>

definition resolve_group_reference_update ::
    "core_env \<Rightarrow> string option option \<Rightarrow> vault \<Rightarrow> mutation_error + uuid option option" where
  "resolve_group_reference_update env u v =
     (case u of
        None \<Rightarrow> Inr None
      | Some None \<Rightarrow> Inr (Some None)
      | Some (Some i) \<Rightarrow>
          and_then (parse_uuid env i) (\<lambda>parsed.
            if find_group_by_id env i (v_root v) = None then Inl (Err_GroupNotFound i)
            else Inr (Some (Some parsed))))"

definition set_group_tags :: "string list \<Rightarrow> group_core \<Rightarrow> group_core" where
  "set_group_tags tags g =
     (if g_tags g \<noteq> [] \<and> tags = [] then remove_group_node ''Tags'' g else g)\<lparr>g_tags := bs_of_list tags\<rparr>"

definition set_group_previous_parent :: "uuid option \<Rightarrow> group_core \<Rightarrow> group_core" where
  "set_group_previous_parent x g =
     (if g_previous_parent g \<noteq> None \<and> x = None then remove_group_node ''PreviousParentGroup'' g else g)
       \<lparr>g_previous_parent := x\<rparr>"

definition update_group_lineage_tag_metadata ::
    "core_env \<Rightarrow> string \<Rightarrow> group_lineage_update \<Rightarrow> group_lineage_view mutation" where
  "update_group_lineage_tag_metadata env i u v =
     guarded (check_some validate_persistent_tags (glu_tags u)) (\<lambda>_.
     guarded (resolve_group_reference_update env (glu_previous_parent_id u) v) (\<lambda>previous_parent.
     on_group env i (regroup (project_group_lineage_tag_metadata env)
       (with_some previous_parent set_group_previous_parent \<circ> with_some (glu_tags u) set_group_tags)))) v"

record group_times_update =
  gtu_created_at :: "u64 option option"
  gtu_modified_at :: "u64 option option"
  gtu_last_accessed_at :: "u64 option option"
  gtu_usage_count :: "u64 option option"
  gtu_location_changed_at :: "u64 option option"

definition times_or_default :: "group_core \<Rightarrow> group_times" where
  "times_or_default g =
     (case g_times g of
        Some t \<Rightarrow> t
      | None \<Rightarrow> \<lparr>gt_created_at = 0, gt_modified_at = 0, gt_expires = False, gt_expiry_time = None,
                 gt_last_accessed_at = None, gt_usage_count = None, gt_location_changed_at = None\<rparr>)"

definition update_group_times :: "core_env \<Rightarrow> string \<Rightarrow> group_times_update \<Rightarrow> group_times_view mutation" where
  "update_group_times env i u =
     guarded (check_all validate_persistent_unsigned_timestamp
       (somes (somes [gtu_created_at u, gtu_modified_at u]))) (\<lambda>_.
     guarded (check_all validate_persistent_unsigned_timestamp
       (somes (somes [gtu_last_accessed_at u, gtu_location_changed_at u]))) (\<lambda>_.
     on_group env i (regroup project_group_times (\<lambda>g. g\<lparr>g_times := Some
       ((with_some (gtu_location_changed_at u) (\<lambda>x t. t\<lparr>gt_location_changed_at := x\<rparr>) \<circ>
         with_some (gtu_usage_count u) (\<lambda>x t. t\<lparr>gt_usage_count := x\<rparr>) \<circ>
         with_some (gtu_last_accessed_at u) (\<lambda>x t. t\<lparr>gt_last_accessed_at := x\<rparr>) \<circ>
         with_some (Option.bind (gtu_modified_at u) id) (\<lambda>x t. t\<lparr>gt_modified_at := x\<rparr>) \<circ>
         with_some (Option.bind (gtu_created_at u) id) (\<lambda>x t. t\<lparr>gt_created_at := x\<rparr>))
        (times_or_default g))\<rparr>))))"

definition update_group_expiry :: "core_env \<Rightarrow> string \<Rightarrow> expiry_update \<Rightarrow> group_expiry_view mutation" where
  "update_group_expiry env i u =
     guarded (check_some validate_persistent_timestamp (xu_expiry_time u)) (\<lambda>_.
     on_group env i (regroup project_group_expiry (\<lambda>g. g\<lparr>g_times := Some
       ((times_or_default g)\<lparr>gt_expires := xu_expires u, gt_expiry_time := xu_expiry_time u\<rparr>)\<rparr>)))"

section \<open>Custom icons\<close>

definition set_group_custom_icon :: "uuid option \<Rightarrow> group_core \<Rightarrow> group_core" where
  "set_group_custom_icon icon g =
     (if g_custom_icon_id g \<noteq> None \<and> icon = None then remove_group_node ''CustomIconUUID'' g else g)
       \<lparr>g_custom_icon_id := icon\<rparr>"

definition update_group_custom_icon :: "core_env \<Rightarrow> string \<Rightarrow> string option \<Rightarrow> group_view mutation" where
  "update_group_custom_icon env i icon v =
     guarded (known_custom_icon env icon v) (\<lambda>parsed.
     on_group env i (\<lambda>g. let g' = upd_group (set_group_custom_icon parsed) g in (Inr (project_group env g'), g'))) v"

fun clear_custom_icon_references_from_entry :: "uuid \<Rightarrow> entry \<Rightarrow> entry" where
  "clear_custom_icon_references_from_entry icon (Entry e history) =
     Entry (if e_custom_icon_id e = Some icon
            then (remove_entry_node ''CustomIconUUID'' e)\<lparr>e_custom_icon_id := None\<rparr> else e)
       (map (clear_custom_icon_references_from_entry icon) history)"

fun clear_custom_icon_references_from_group :: "uuid \<Rightarrow> vgroup \<Rightarrow> vgroup" where
  "clear_custom_icon_references_from_group icon (Group g es children) =
     Group (if g_custom_icon_id g = Some icon
            then (remove_group_node ''CustomIconUUID'' g)\<lparr>g_custom_icon_id := None\<rparr> else g)
       (map (clear_custom_icon_references_from_entry icon) es)
       (map (clear_custom_icon_references_from_group icon) children)"

record custom_icon_input =
  cin_id :: "string option"
  cin_data :: bytes
  cin_name :: "string option"
  cin_last_modified :: "i64 option"

text \<open>\<open>iter_mut().find(..)\<close> and the change of what it found.\<close>

fun change_icon :: "uuid \<Rightarrow> (custom_icon \<Rightarrow> custom_icon) \<Rightarrow> custom_icon list \<Rightarrow> custom_icon list" where
  "change_icon icon f [] = []"
| "change_icon icon f (c # cs) = (if ci_id c = icon then f c # cs else c # change_icon icon f cs)"

definition put_custom_icon :: "custom_icon \<Rightarrow> custom_icon list \<Rightarrow> custom_icon list" where
  "put_custom_icon icon icons =
     (if list_ex (\<lambda>c. ci_id c = ci_id icon) icons
      then change_icon (ci_id icon) (\<lambda>c. c\<lparr>ci_data := ci_data icon, ci_name := ci_name icon,
             ci_last_modified := ci_last_modified icon\<rparr>) icons
      else icons @ [icon])"

text \<open>\<open>None\<close> is the search for a fresh id that never ends.\<close>

definition upsert_custom_icon ::
    "core_env \<Rightarrow> custom_icon_input \<Rightarrow> vault \<Rightarrow> ((mutation_error + custom_icon_view) \<times> vault) option" where
  "upsert_custom_icon env u v =
     (case and_then (check_some (\<lambda>x. validate_unprotected_xml_text x ''custom icon name'') (cin_name u)) (\<lambda>_.
             and_then (check_some validate_persistent_timestamp (cin_last_modified u)) (\<lambda>_.
             case cin_id u of Some x \<Rightarrow> and_then (parse_uuid env x) (\<lambda>y. Inr (Some y)) | None \<Rightarrow> Inr None)) of
        Inl e \<Rightarrow> Some (Inl e, v)
      | Inr chosen \<Rightarrow>
          map_option (\<lambda>icon_id.
            let name = Option.bind (cin_name u) some_unless_empty;
                icon = \<lparr>ci_id = icon_id, ci_data = cin_data u, ci_name = name, ci_last_modified = cin_last_modified u\<rparr>
            in (Inr (project_custom_icon env icon), v\<lparr>v_custom_icons := put_custom_icon icon (v_custom_icons v)\<rparr>))
            (case chosen of Some icon_id \<Rightarrow> Some icon_id | None \<Rightarrow> fresh_custom_icon_uuid env v))"

definition delete_custom_icon :: "core_env \<Rightarrow> string \<Rightarrow> unit mutation" where
  "delete_custom_icon env i v =
     guarded (parse_uuid env i) (\<lambda>icon.
       case position (\<lambda>c. ci_id c = icon) (v_custom_icons v) of
         None \<Rightarrow> guarded (Inl (Err_CustomIconNotFound i)) (\<lambda>x. x)
       | Some index \<Rightarrow> (\<lambda>v. (Inr (), v\<lparr>v_custom_icons := remove_at index (v_custom_icons v),
                          v_root := clear_custom_icon_references_from_group icon (v_root v)\<rparr>))) v"

section \<open>Custom data\<close>

definition canonicalize_group_custom_data :: "(string \<times> i64 option) option \<Rightarrow> group_core \<Rightarrow> group_core" where
  "canonicalize_group_custom_data updated g =
     (case reconcile_custom_data_blocks (g_custom_data_blocks g) (g_opaque_xml g) (gr_node_order (g_raw_state g))
             (g_custom_data g) updated of
        (blocks, opaque, order) \<Rightarrow>
          g\<lparr>g_custom_data_blocks := blocks, g_opaque_xml := opaque,
            g_raw_state := (g_raw_state g)\<lparr>gr_node_order := order\<rparr>\<rparr>)"

definition canonicalize_meta_custom_data :: "(string \<times> i64 option) option \<Rightarrow> vault \<Rightarrow> vault" where
  "canonicalize_meta_custom_data updated v =
     (case reconcile_custom_data_blocks (v_meta_custom_data_blocks v) (v_meta_opaque_xml v)
             (mr_node_order (v_meta_raw_state v)) (v_meta_custom_data v) updated of
        (blocks, opaque, order) \<Rightarrow>
          v\<lparr>v_meta_custom_data_blocks := blocks, v_meta_opaque_xml := opaque,
            v_meta_raw_state := (v_meta_raw_state v)\<lparr>mr_node_order := order\<rparr>\<rparr>)"

definition put_group_custom_data :: "string \<Rightarrow> string \<Rightarrow> i64 option \<Rightarrow> group_core \<Rightarrow> group_core" where
  "put_group_custom_data key x modified g =
     canonicalize_group_custom_data (Some (key, modified)) (g\<lparr>g_custom_data := bt_insert key x (g_custom_data g)\<rparr>)"

definition put_meta_custom_data :: "string \<Rightarrow> string \<Rightarrow> i64 option \<Rightarrow> vault \<Rightarrow> vault" where
  "put_meta_custom_data key x modified v =
     canonicalize_meta_custom_data (Some (key, modified)) (v\<lparr>v_meta_custom_data := bt_insert key x (v_meta_custom_data v)\<rparr>)"

definition upsert_vault_custom_data :: "string \<Rightarrow> string \<Rightarrow> (string \<times> string) list mutation" where
  "upsert_vault_custom_data key x =
     guarded (validate_custom_data_item key x) (\<lambda>_ v.
       let v' = put_meta_custom_data key x None v
       in (Inr (project_custom_data_items (v_meta_custom_data v')), v'))"

definition upsert_vault_custom_data_detail :: "custom_data_item \<Rightarrow> custom_data_item list mutation" where
  "upsert_vault_custom_data_detail item =
     guarded (validate_custom_data_item (cd_key item) (cd_value item)) (\<lambda>_.
     guarded (check_some validate_persistent_timestamp (cd_last_modified item)) (\<lambda>_ v.
       let v' = put_meta_custom_data (cd_key item) (cd_value item) (cd_last_modified item) v
       in (Inr (project_vault_custom_data_items v'), v')))"

definition delete_vault_custom_data :: "string \<Rightarrow> (string \<times> string) list mutation" where
  "delete_vault_custom_data key v =
     (if \<not> bt_contains (v_meta_custom_data v) key then (Inl (Err_CustomDataNotFound key), v)
      else let v' = canonicalize_meta_custom_data None (v\<lparr>v_meta_custom_data := bt_remove key (v_meta_custom_data v)\<rparr>)
           in (Inr (project_custom_data_items (v_meta_custom_data v')), v'))"

definition upsert_vault_public_custom_data :: "string \<Rightarrow> bytes \<Rightarrow> (string \<times> bytes) list mutation" where
  "upsert_vault_public_custom_data key x =
     guarded (validate_non_empty_key key ''public custom data'') (\<lambda>_ v.
       let v' = v\<lparr>v_public_custom_data := bt_insert key x (v_public_custom_data v)\<rparr>
       in (Inr (project_public_custom_data_items (v_public_custom_data v')), v'))"

definition delete_vault_public_custom_data :: "string \<Rightarrow> (string \<times> bytes) list mutation" where
  "delete_vault_public_custom_data key v =
     (if \<not> bt_contains (v_public_custom_data v) key then (Inl (Err_CustomDataNotFound key), v)
      else let v' = v\<lparr>v_public_custom_data := bt_remove key (v_public_custom_data v)\<rparr>
           in (Inr (project_public_custom_data_items (v_public_custom_data v')), v'))"

definition upsert_group_custom_data :: "core_env \<Rightarrow> string \<Rightarrow> string \<Rightarrow> string \<Rightarrow> (string \<times> string) list mutation" where
  "upsert_group_custom_data env i key x =
     guarded (validate_custom_data_item key x) (\<lambda>_.
     on_group env i (regroup (\<lambda>g. project_custom_data_items (g_custom_data g)) (put_group_custom_data key x None)))"

definition upsert_group_custom_data_detail ::
    "core_env \<Rightarrow> string \<Rightarrow> custom_data_item \<Rightarrow> custom_data_item list mutation" where
  "upsert_group_custom_data_detail env i item =
     guarded (validate_custom_data_item (cd_key item) (cd_value item)) (\<lambda>_.
     guarded (check_some validate_persistent_timestamp (cd_last_modified item)) (\<lambda>_.
     on_group env i (regroup project_group_custom_data_items
       (put_group_custom_data (cd_key item) (cd_value item) (cd_last_modified item)))))"

definition delete_group_custom_data :: "core_env \<Rightarrow> string \<Rightarrow> string \<Rightarrow> (string \<times> string) list mutation" where
  "delete_group_custom_data env i key =
     on_group env i (\<lambda>g.
       if \<not> bt_contains (g_custom_data (g_core g)) key then (Inl (Err_CustomDataNotFound key), g)
       else regroup (\<lambda>g. project_custom_data_items (g_custom_data g))
              (\<lambda>g. canonicalize_group_custom_data None (g\<lparr>g_custom_data := bt_remove key (g_custom_data g)\<rparr>)) g)"

section \<open>Vault metadata\<close>

record vault_metadata_update =
  vmu_description :: "string option"
  vmu_default_username :: "string option"
  vmu_color :: "string option"
  vmu_history_max_items :: "i32 option"
  vmu_history_max_size :: "i64 option"
  vmu_memory_protection :: "memory_protection option"

text \<open>\<open>if condition { retarget_removed_meta_node(vault, name); }\<close>\<close>

definition drop_meta_node :: "bool \<Rightarrow> string \<Rightarrow> vault \<Rightarrow> vault" where
  "drop_meta_node condition name v = (if condition then retarget_removed_meta_node name v else v)"

definition set_description :: "string \<Rightarrow> vault \<Rightarrow> vault" where
  "set_description x v =
     (let v' = drop_meta_node ((v_description v \<noteq> None \<or> mr_description_raw (v_meta_raw_state v) \<noteq> None) \<and> x = [])
                 ''DatabaseDescription'' v
      in v'\<lparr>v_description := some_unless_empty x,
            v_meta_raw_state := (v_meta_raw_state v')\<lparr>mr_description_raw := None\<rparr>\<rparr>)"

definition set_default_username :: "string \<Rightarrow> vault \<Rightarrow> vault" where
  "set_default_username x v =
     (let v' = drop_meta_node ((v_default_username v \<noteq> None \<or> mr_default_username_raw (v_meta_raw_state v) \<noteq> None) \<and> x = [])
                 ''DefaultUserName'' v
      in v'\<lparr>v_default_username := some_unless_empty x,
            v_meta_raw_state := (v_meta_raw_state v')\<lparr>mr_default_username_raw := None\<rparr>\<rparr>)"

definition set_color :: "string \<Rightarrow> vault \<Rightarrow> vault" where
  "set_color x v =
     (let v' = drop_meta_node ((v_color v \<noteq> None \<or> mr_color_raw (v_meta_raw_state v) \<noteq> None) \<and> x = []) ''Color'' v
      in v'\<lparr>v_color := some_unless_empty x, v_meta_raw_state := (v_meta_raw_state v')\<lparr>mr_color_raw := None\<rparr>\<rparr>)"

definition update_vault_metadata :: "vault_metadata_update \<Rightarrow> vault_metadata_view mutation" where
  "update_vault_metadata u =
     guarded (check_all (\<lambda>(x, kind). check_some (\<lambda>x. validate_unprotected_xml_text x kind) x)
       [(vmu_description u, ''vault description''), (vmu_default_username u, ''vault default username''),
        (vmu_color u, ''vault color'')]) (\<lambda>_ v.
     let v' = (with_some (vmu_memory_protection u) (\<lambda>x v. v\<lparr>v_memory_protection := Some x\<rparr>) \<circ>
               with_some (vmu_history_max_size u) (\<lambda>x v. v\<lparr>v_history_max_size := Some x\<rparr>) \<circ>
               with_some (vmu_history_max_items u) (\<lambda>x v. v\<lparr>v_history_max_items := Some x\<rparr>) \<circ>
               with_some (vmu_color u) set_color \<circ> with_some (vmu_default_username u) set_default_username \<circ>
               with_some (vmu_description u) set_description) v
     in (Inr (project_vault_metadata v'), v'))"

record vault_selection_update =
  vsu_last_selected_group_id :: "string option option"
  vsu_last_top_visible_group_id :: "string option option"

definition set_last_selected_group :: "uuid option \<Rightarrow> vault \<Rightarrow> vault" where
  "set_last_selected_group x v =
     (drop_meta_node (v_last_selected_group v \<noteq> None \<and> x = None) ''LastSelectedGroup'' v)\<lparr>v_last_selected_group := x\<rparr>"

definition set_last_top_visible_group :: "uuid option \<Rightarrow> vault \<Rightarrow> vault" where
  "set_last_top_visible_group x v =
     (drop_meta_node (v_last_top_visible_group v \<noteq> None \<and> x = None) ''LastTopVisibleGroup'' v)
       \<lparr>v_last_top_visible_group := x\<rparr>"

definition update_vault_selection_metadata ::
    "core_env \<Rightarrow> vault_selection_update \<Rightarrow> vault_selection_view mutation" where
  "update_vault_selection_metadata env u v =
     guarded (resolve_group_reference_update env (vsu_last_selected_group_id u) v) (\<lambda>selected.
     guarded (resolve_group_reference_update env (vsu_last_top_visible_group_id u) v) (\<lambda>visible v.
       let v' = (with_some visible set_last_top_visible_group \<circ> with_some selected set_last_selected_group) v
       in (Inr (project_vault_selection_metadata env v'), v'))) v"

text \<open>The update of the lifecycle metadata has the fields of its view.\<close>

definition update_vault_lifecycle_metadata :: "vault_lifecycle_view \<Rightarrow> vault_lifecycle_view mutation" where
  "update_vault_lifecycle_metadata u =
     guarded (check_all validate_persistent_timestamp (somes [vl_settings_changed u, vl_master_key_changed u])) (\<lambda>_ v.
     let v' = foldl (\<lambda>s (name, was_present, remains_present).
                drop_meta_node (was_present \<and> \<not> remains_present) name s) v
          [(''SettingsChanged'', v_settings_changed v \<noteq> None, vl_settings_changed u \<noteq> None),
           (''MaintenanceHistoryDays'', v_maintenance_history_days v \<noteq> None, vl_maintenance_history_days u \<noteq> None),
           (''MasterKeyChanged'', v_master_key_changed v \<noteq> None, vl_master_key_changed u \<noteq> None),
           (''MasterKeyChangeRec'', v_master_key_change_rec v \<noteq> None, vl_master_key_change_rec u \<noteq> None),
           (''MasterKeyChangeForce'', v_master_key_change_force v \<noteq> None, vl_master_key_change_force u \<noteq> None),
           (''MasterKeyChangeForceOnce'', v_master_key_change_force_once v \<noteq> None, vl_master_key_change_force_once u \<noteq> None)];
         v'' = v'\<lparr>v_settings_changed := vl_settings_changed u,
                  v_maintenance_history_days := vl_maintenance_history_days u,
                  v_master_key_changed := vl_master_key_changed u,
                  v_master_key_change_rec := vl_master_key_change_rec u,
                  v_master_key_change_force := vl_master_key_change_force u,
                  v_master_key_change_force_once := vl_master_key_change_force_once u\<rparr>
     in (Inr (project_vault_lifecycle_metadata v''), v''))"

record vault_bin_template_update =
  vbu_recycle_bin_enabled :: "bool option option"
  vbu_recycle_bin_group_id :: "string option option"
  vbu_recycle_bin_changed :: "i64 option option"
  vbu_entry_templates_group_id :: "string option option"
  vbu_entry_templates_group_changed :: "i64 option option"

definition set_recycle_bin_enabled :: "bool option \<Rightarrow> vault \<Rightarrow> vault" where
  "set_recycle_bin_enabled x v =
     (drop_meta_node (v_recycle_bin_enabled v \<noteq> None \<and> x = None) ''RecycleBinEnabled'' v)\<lparr>v_recycle_bin_enabled := x\<rparr>"

definition set_recycle_bin_group :: "uuid option \<Rightarrow> vault \<Rightarrow> vault" where
  "set_recycle_bin_group x v =
     (let v' = drop_meta_node ((v_recycle_bin_group v \<noteq> None \<or> mr_recycle_bin_group_raw (v_meta_raw_state v) \<noteq> None) \<and> x = None)
                 ''RecycleBinUUID'' v
      in v'\<lparr>v_recycle_bin_group := x, v_meta_raw_state := (v_meta_raw_state v')\<lparr>mr_recycle_bin_group_raw := None\<rparr>\<rparr>)"

definition set_recycle_bin_changed :: "i64 option \<Rightarrow> vault \<Rightarrow> vault" where
  "set_recycle_bin_changed x v =
     (drop_meta_node (v_recycle_bin_changed v \<noteq> None \<and> x = None) ''RecycleBinChanged'' v)\<lparr>v_recycle_bin_changed := x\<rparr>"

definition set_entry_templates_group :: "uuid option \<Rightarrow> vault \<Rightarrow> vault" where
  "set_entry_templates_group x v =
     (let v' = drop_meta_node ((v_entry_templates_group v \<noteq> None \<or> mr_entry_templates_group_raw (v_meta_raw_state v) \<noteq> None)
                 \<and> x = None) ''EntryTemplatesGroup'' v
      in v'\<lparr>v_entry_templates_group := x,
            v_meta_raw_state := (v_meta_raw_state v')\<lparr>mr_entry_templates_group_raw := None\<rparr>\<rparr>)"

definition set_entry_templates_group_changed :: "i64 option \<Rightarrow> vault \<Rightarrow> vault" where
  "set_entry_templates_group_changed x v =
     (drop_meta_node (v_entry_templates_group_changed v \<noteq> None \<and> x = None) ''EntryTemplatesGroupChanged'' v)
       \<lparr>v_entry_templates_group_changed := x\<rparr>"

definition update_vault_bin_template_metadata ::
    "core_env \<Rightarrow> vault_bin_template_update \<Rightarrow> vault_bin_template_view mutation" where
  "update_vault_bin_template_metadata env u v =
     guarded (check_all validate_persistent_timestamp
       (somes [Option.bind (vbu_recycle_bin_changed u) id, Option.bind (vbu_entry_templates_group_changed u) id])) (\<lambda>_.
     guarded (resolve_group_reference_update env (vbu_recycle_bin_group_id u) v) (\<lambda>bin.
     guarded (resolve_group_reference_update env (vbu_entry_templates_group_id u) v) (\<lambda>templates v.
       let v' = (with_some (vbu_entry_templates_group_changed u) set_entry_templates_group_changed \<circ>
                 with_some templates set_entry_templates_group \<circ>
                 with_some (vbu_recycle_bin_changed u) set_recycle_bin_changed \<circ>
                 with_some bin set_recycle_bin_group \<circ>
                 with_some (vbu_recycle_bin_enabled u) set_recycle_bin_enabled) v
       in (Inr (project_vault_bin_template_metadata env v'), v')))) v"

record vault_identity_update =
  viu_name :: "string option"
  viu_generator :: "string option"
  viu_database_name_changed :: "i64 option"
  viu_description_changed :: "i64 option"
  viu_default_username_changed :: "i64 option"

definition update_vault_identity_metadata :: "vault_identity_update \<Rightarrow> vault_identity_view mutation" where
  "update_vault_identity_metadata u =
     guarded (check_some (\<lambda>x. validate_unprotected_xml_text x ''vault name'') (viu_name u)) (\<lambda>_.
     guarded (check_some (\<lambda>x. validate_unprotected_xml_text x ''vault generator'') (viu_generator u)) (\<lambda>_.
     guarded (check_all validate_persistent_timestamp
       (somes [viu_database_name_changed u, viu_description_changed u, viu_default_username_changed u])) (\<lambda>_ v.
     let v1 = with_some (viu_name u) (\<lambda>x v. v\<lparr>v_name := x\<rparr>) v;
         v2 = drop_meta_node (v_generator v1 \<noteq> None \<and> Option.bind (viu_generator u) some_unless_empty = None) ''Generator'' v1;
         v3 = drop_meta_node (v_database_name_changed v2 \<noteq> None \<and> viu_database_name_changed u = None) ''DatabaseNameChanged'' v2;
         v4 = drop_meta_node (v_description_changed v3 \<noteq> None \<and> viu_description_changed u = None) ''DatabaseDescriptionChanged'' v3;
         v5 = drop_meta_node (v_default_username_changed v4 \<noteq> None \<and> viu_default_username_changed u = None) ''DefaultUserNameChanged'' v4;
         v6 = v5\<lparr>v_generator := Option.bind (viu_generator u) some_unless_empty,
                 v_database_name_changed := viu_database_name_changed u,
                 v_description_changed := viu_description_changed u,
                 v_default_username_changed := viu_default_username_changed u\<rparr>
     in (Inr (project_vault_identity_metadata v6), v6))))"

end
