(* ===== verification/CoreGraph.thy ===== *)
theory CoreGraph
  imports CoreGroup Search
begin

text \<open>
  The mutations of \<^verbatim>\<open>crates/vaultkern-core/src/lib.rs\<close> that change the shape of the tree: adding,
  deleting and moving entries and groups, and the recycle bin.
\<close>

section \<open>Adding\<close>

record entry_create =
  ec_title :: string
  ec_username :: string
  ec_password :: string
  ec_url :: string
  ec_notes :: string

text \<open>\<open>entries.push(..)\<close> and \<open>children.push(..)\<close> on the found group, with the view of what was pushed.\<close>

definition push_entry :: "core_env \<Rightarrow> entry \<Rightarrow> vgroup \<Rightarrow> (mutation_error + entry_view) \<times> vgroup" where
  "push_entry env entry g =
     (Inr (project_entry env entry), Group (g_core g) (g_entries g @ [entry]) (g_children g))"

definition push_group :: "core_env \<Rightarrow> vgroup \<Rightarrow> vgroup \<Rightarrow> (mutation_error + group_view) \<times> vgroup" where
  "push_group env child g =
     (Inr (project_group env child), Group (g_core g) (g_entries g) (g_children g @ [child]))"

definition created_entry :: "uuid \<Rightarrow> entry_create \<Rightarrow> u64 \<Rightarrow> entry" where
  "created_entry uid create creation_time =
     upd_entry (\<lambda>e. e\<lparr>e_username := ec_username create, e_password := ec_password create, e_url := ec_url create,
        e_notes := ec_notes create, e_created_at := creation_time, e_modified_at := creation_time,
        e_expiry_time := Some (I64 creation_time), e_last_accessed_at := Some creation_time,
        e_usage_count := Some 0, e_location_changed_at := Some creation_time\<rparr>)
       (entry_new uid (ec_title create))"

definition canonical_uuid :: "core_env \<Rightarrow> string \<Rightarrow> mutation_error + uuid" where
  "canonical_uuid env i =
     and_then (parse_uuid env i) (\<lambda>parsed.
       if parsed = 0 \<or> ce_uuid_text env parsed \<noteq> i then Inl (Err_InvalidUuid i) else Inr parsed)"

definition add_entry_with_id :: "core_env \<Rightarrow> string \<Rightarrow> string \<Rightarrow> entry_create \<Rightarrow> entry_view mutation" where
  "add_entry_with_id env parent i create v =
     guarded (canonical_uuid env i) (\<lambda>parsed.
     guarded (if live_uuid_used v parsed then Inl (Err_UuidCollision i) else Inr ()) (\<lambda>_.
     guarded (check_all (\<lambda>(x, kind). validate_unprotected_xml_text x kind)
       [(ec_title create, ''entry title''), (ec_username create, ''entry username''),
        (ec_url create, ''entry URL''), (ec_notes create, ''entry notes'')]) (\<lambda>_.
     on_group env parent (\<lambda>g.
       case validate_persistent_unsigned_timestamp (clock_u64 env 0) of
         Inl e \<Rightarrow> (Inl e, g)
       | Inr _ \<Rightarrow> push_entry env (created_entry parsed create (clock_u64 env 0)) g)))) v"

text \<open>\<open>None\<close> is a draw of ids that never ends.\<close>

definition add_entry :: "core_env \<Rightarrow> string \<Rightarrow> entry_create \<Rightarrow> vault \<Rightarrow> ((mutation_error + entry_view) \<times> vault) option" where
  "add_entry env parent create v =
     map_option (\<lambda>u. add_entry_with_id env parent (ce_uuid_text env u) create v) (fresh_live_uuid env v)"

definition add_group :: "core_env \<Rightarrow> string \<Rightarrow> string \<Rightarrow> vault \<Rightarrow> ((mutation_error + group_view) \<times> vault) option" where
  "add_group env parent title v =
     (case validate_unprotected_xml_text title ''group title'' of
        Inl e \<Rightarrow> Some (Inl e, v)
      | Inr _ \<Rightarrow>
          map_option (\<lambda>u. on_group env parent (push_group env (group_new u title)) v) (fresh_live_uuid env v))"

section \<open>Deleting\<close>

definition delete_entry :: "core_env \<Rightarrow> string \<Rightarrow> unit mutation" where
  "delete_entry env i v =
     (case delete_entry_from_group env i (v_root v) of
        Some root \<Rightarrow> (Inr (), v\<lparr>v_root := root\<rparr>)
      | None \<Rightarrow> (Inl (Err_EntryNotFound i), v))"

definition delete_group :: "core_env \<Rightarrow> string \<Rightarrow> unit mutation" where
  "delete_group env i v =
     (if ce_uuid_text env (group_id (v_root v)) = i then (Inl Err_CannotDeleteRootGroup, v)
      else case delete_group_from_group env i (v_root v) of
             Some root \<Rightarrow> (Inr (), v\<lparr>v_root := root\<rparr>)
           | None \<Rightarrow> (Inl (Err_GroupNotFound i), v))"

section \<open>Moving\<close>

definition find_group_or :: "core_env \<Rightarrow> string \<Rightarrow> vault \<Rightarrow> mutation_error + vgroup" where
  "find_group_or env i v = ok_or (find_group_by_id env i (v_root v)) (Err_GroupNotFound i)"

definition move_entry :: "core_env \<Rightarrow> string \<Rightarrow> string \<Rightarrow> entry_view mutation" where
  "move_entry env i target v =
     guarded (find_group_or env target v) (\<lambda>_.
     guarded (get_entry env i v) (\<lambda>entry.
     guarded (next_entry_location_timestamp env 0 (e_location_changed_at (e_core entry))) (\<lambda>next_location v.
       case take_entry_from_group env i (v_root v) of
         None \<Rightarrow> (Inl (Err_EntryNotFound i), v)
       | Some ((entry, _), root) \<Rightarrow>
           on_group env target
             (push_entry env (upd_entry (\<lambda>e. e\<lparr>e_location_changed_at := Some next_location\<rparr>) entry))
             (v\<lparr>v_root := root\<rparr>)))) v"

definition move_group :: "core_env \<Rightarrow> string \<Rightarrow> string \<Rightarrow> group_view mutation" where
  "move_group env i target v =
     guarded (if ce_uuid_text env (group_id (v_root v)) = i then Inl Err_CannotMoveRootGroup else Inr ()) (\<lambda>_.
     guarded (find_group_or env i v) (\<lambda>moving.
     guarded (if ce_uuid_text env (group_id moving) = target \<or> group_contains_id env target moving
              then Inl Err_CannotMoveGroupIntoDescendant else Inr ()) (\<lambda>_.
     guarded (find_group_or env target v) (\<lambda>_ v.
       case take_group_from_group env i (v_root v) of
         None \<Rightarrow> (Inl (Err_GroupNotFound i), v)
       | Some (moved, root) \<Rightarrow> on_group env target (push_group env moved) (v\<lparr>v_root := root\<rparr>))))) v"

section \<open>Recycle bin\<close>

definition existing_recycle_bin :: "core_env \<Rightarrow> vault \<Rightarrow> uuid option" where
  "existing_recycle_bin env v =
     (case v_recycle_bin_group v of
        Some u \<Rightarrow> if find_group_by_id env (ce_uuid_text env u) (v_root v) \<noteq> None then Some u else None
      | None \<Rightarrow> None)"

definition ensure_recycle_bin :: "core_env \<Rightarrow> nat \<Rightarrow> vault \<Rightarrow> (string \<times> vault) option" where
  "ensure_recycle_bin env k v =
     (case existing_recycle_bin env v of
        Some u \<Rightarrow> Some (ce_uuid_text env u, v\<lparr>v_recycle_bin_enabled := Some True\<rparr>)
      | None \<Rightarrow>
          map_option (\<lambda>u.
            let root = v_root v;
                v' = v\<lparr>v_root := Group (g_core root) (g_entries root) (g_children root @ [group_new u ''Recycle Bin'']),
                       v_recycle_bin_enabled := Some True, v_recycle_bin_group := Some u\<rparr>
            in (ce_uuid_text env u,
                if v_recycle_bin_changed v' = None
                then v'\<lparr>v_recycle_bin_changed := Some (current_unix_timestamp env k)\<rparr> else v'))
            (fresh_live_uuid env v))"

definition record_deleted :: "deleted_object \<Rightarrow> deleted_object list \<Rightarrow> deleted_object list" where
  "record_deleted d deleted = filter (\<lambda>item. do_id item \<noteq> do_id d) deleted @ [d]"

definition soft_delete_entry_to_recycle_bin ::
    "core_env \<Rightarrow> string \<Rightarrow> vault \<Rightarrow> ((mutation_error + entry_view) \<times> vault) option" where
  "soft_delete_entry_to_recycle_bin env i v =
     (case find_entry_by_id env i (v_root v) of
        None \<Rightarrow> Some (Inl (Err_EntryNotFound i), v)
      | Some entry \<Rightarrow>
        (case next_entry_location_timestamp env 0 (e_location_changed_at (e_core entry)) of
           Inl e \<Rightarrow> Some (Inl e, v)
         | Inr next_location \<Rightarrow>
             map_option (\<lambda>(bin, v).
               case take_entry_from_group env i (v_root v) of
                 None \<Rightarrow> (Inl (Err_EntryNotFound i), v)
               | Some ((entry, parent), root) \<Rightarrow>
                   (let entry' = upd_entry (\<lambda>e. e\<lparr>e_previous_parent := Some parent,
                          e_location_changed_at := Some next_location\<rparr>) entry;
                        v' = v\<lparr>v_root := root, v_deleted_objects := record_deleted
                          \<lparr>do_id = entry_id entry', do_deleted_at = current_unix_timestamp env 2\<rparr> (v_deleted_objects v)\<rparr>
                    in on_group env bin (push_entry env entry') v'))
             (ensure_recycle_bin env 1 v)))"

definition restore_target :: "core_env \<Rightarrow> string option \<Rightarrow> entry \<Rightarrow> mutation_error + string" where
  "restore_target env target entry =
     (case target of
        Some t \<Rightarrow> Inr t
      | None \<Rightarrow> (case e_previous_parent (e_core entry) of
                  Some u \<Rightarrow> Inr (ce_uuid_text env u)
                | None \<Rightarrow> Inl (Err_GroupNotFound ''restore-target'')))"

definition restore_entry_from_recycle_bin :: "core_env \<Rightarrow> string \<Rightarrow> string option \<Rightarrow> entry_view mutation" where
  "restore_entry_from_recycle_bin env i target v =
     guarded (ok_or (v_recycle_bin_group v) (Err_GroupNotFound ''recycle-bin'')) (\<lambda>bin_id.
     guarded (find_group_or env (ce_uuid_text env bin_id) v) (\<lambda>bin.
     guarded (ok_or (find (\<lambda>e. ce_uuid_text env (entry_id e) = i) (g_entries bin)) (Err_EntryNotFound i)) (\<lambda>entry.
     guarded (restore_target env target entry) (\<lambda>target_id.
     guarded (next_entry_location_timestamp env 0 (e_location_changed_at (e_core entry))) (\<lambda>next_location.
     guarded (find_group_or env target_id v) (\<lambda>_ v.
       case take_entry_from_group env i (v_root v) of
         None \<Rightarrow> (Inl (Err_EntryNotFound i), v)
       | Some ((entry, _), root) \<Rightarrow>
           (let entry' = upd_entry (\<lambda>e. (clear_previous_parent e)\<lparr>e_location_changed_at := Some next_location\<rparr>) entry in
            case on_group env target_id (push_entry env entry') (v\<lparr>v_root := root\<rparr>) of
              (Inl e, v') \<Rightarrow> (Inl e, v')
            | (Inr view, v') \<Rightarrow>
                (Inr view, v'\<lparr>v_deleted_objects :=
                   filter (\<lambda>item. ce_uuid_text env (do_id item) \<noteq> i) (v_deleted_objects v')\<rparr>)))))))) v"

end
