(* ===== verification/CoreQuery.thy ===== *)
theory CoreQuery
  imports CoreGraph
begin

text \<open>
  The read-only methods of \<open>KeepassCore\<close> (\<^verbatim>\<open>crates/vaultkern-core/src/lib.rs\<close>): the views of one entry,
  of one of its history snapshots, of a group and of the vault, and the search that shows where a match
  is. A query returns a view and changes nothing, so it is a function of the vault.
\<close>

section \<open>Entries and their history\<close>

definition get_snapshot :: "core_env \<Rightarrow> string \<Rightarrow> nat \<Rightarrow> vault \<Rightarrow> mutation_error + entry" where
  "get_snapshot env i index v =
     and_then (get_entry env i v) (\<lambda>entry.
       if index < length (e_history entry) then Inr (e_history entry ! index)
       else Inl (Err_HistoryIndexOutOfBounds index))"

definition of_entry :: "(entry_core \<Rightarrow> 'r) \<Rightarrow> core_env \<Rightarrow> string \<Rightarrow> vault \<Rightarrow> mutation_error + 'r" where
  "of_entry view env i v = and_then (get_entry env i v) (\<lambda>entry. Inr (view (e_core entry)))"

definition of_snapshot :: "(entry_core \<Rightarrow> 'r) \<Rightarrow> core_env \<Rightarrow> string \<Rightarrow> nat \<Rightarrow> vault \<Rightarrow> mutation_error + 'r" where
  "of_snapshot view env i index v = and_then (get_snapshot env i index v) (\<lambda>entry. Inr (view (e_core entry)))"

definition query_entry_presentation_metadata :: "core_env \<Rightarrow> string \<Rightarrow> vault \<Rightarrow> mutation_error + entry_presentation_view" where
  "query_entry_presentation_metadata = of_entry project_entry_presentation_metadata"

definition query_entry_lineage_report_metadata :: "core_env \<Rightarrow> string \<Rightarrow> vault \<Rightarrow> mutation_error + entry_lineage_view" where
  "query_entry_lineage_report_metadata env = of_entry (project_entry_lineage_report_metadata env) env"

definition query_entry_totp :: "core_env \<Rightarrow> string \<Rightarrow> vault \<Rightarrow> mutation_error + entry_totp_view option" where
  "query_entry_totp = of_entry (\<lambda>e. map_option project_entry_totp (e_totp e))"

definition query_entry_detail :: "core_env \<Rightarrow> string \<Rightarrow> vault \<Rightarrow> mutation_error + entry_detail_view" where
  "query_entry_detail env = of_entry (project_entry_detail env) env"

definition query_entry_passkey :: "core_env \<Rightarrow> string \<Rightarrow> vault \<Rightarrow> mutation_error + entry_passkey_view option" where
  "query_entry_passkey = of_entry (\<lambda>e. map_option project_entry_passkey (e_passkey e))"

definition query_entry_auto_type :: "core_env \<Rightarrow> string \<Rightarrow> vault \<Rightarrow> mutation_error + auto_type_config" where
  "query_entry_auto_type = of_entry project_entry_auto_type"

definition query_entry_times :: "core_env \<Rightarrow> string \<Rightarrow> vault \<Rightarrow> mutation_error + entry_times_view" where
  "query_entry_times = of_entry project_entry_times"

definition query_history_detail :: "core_env \<Rightarrow> string \<Rightarrow> nat \<Rightarrow> vault \<Rightarrow> mutation_error + entry_history_detail_view" where
  "query_history_detail env = of_snapshot (project_entry_history_detail env) env"

definition query_history_presentation_metadata ::
    "core_env \<Rightarrow> string \<Rightarrow> nat \<Rightarrow> vault \<Rightarrow> mutation_error + entry_presentation_view" where
  "query_history_presentation_metadata = of_snapshot project_entry_presentation_metadata"

definition query_history_lineage_report_metadata ::
    "core_env \<Rightarrow> string \<Rightarrow> nat \<Rightarrow> vault \<Rightarrow> mutation_error + entry_lineage_view" where
  "query_history_lineage_report_metadata env = of_snapshot (project_entry_lineage_report_metadata env) env"

definition query_history_field_protection ::
    "core_env \<Rightarrow> string \<Rightarrow> nat \<Rightarrow> vault \<Rightarrow> mutation_error + field_protection" where
  "query_history_field_protection = of_snapshot e_field_protection"

definition query_history_totp :: "core_env \<Rightarrow> string \<Rightarrow> nat \<Rightarrow> vault \<Rightarrow> mutation_error + entry_totp_view option" where
  "query_history_totp = of_snapshot (\<lambda>e. map_option project_entry_totp (e_totp e))"

definition query_history_passkey :: "core_env \<Rightarrow> string \<Rightarrow> nat \<Rightarrow> vault \<Rightarrow> mutation_error + entry_passkey_view option" where
  "query_history_passkey = of_snapshot (\<lambda>e. map_option project_entry_passkey (e_passkey e))"

definition query_history_auto_type :: "core_env \<Rightarrow> string \<Rightarrow> nat \<Rightarrow> vault \<Rightarrow> mutation_error + auto_type_config" where
  "query_history_auto_type = of_snapshot project_entry_auto_type"

definition query_history_times :: "core_env \<Rightarrow> string \<Rightarrow> nat \<Rightarrow> vault \<Rightarrow> mutation_error + entry_times_view" where
  "query_history_times = of_snapshot project_entry_times"

section \<open>Lists\<close>

definition list_entry_history :: "core_env \<Rightarrow> string \<Rightarrow> vault \<Rightarrow> mutation_error + entry_history_item_view list" where
  "list_entry_history env i v =
     and_then (get_entry env i v) (\<lambda>entry. Inr (map (\<lambda>h. project_history_item (e_core h)) (e_history entry)))"

definition list_entry_attachments :: "core_env \<Rightarrow> string \<Rightarrow> vault \<Rightarrow> mutation_error + attachment_view list" where
  "list_entry_attachments = of_entry (\<lambda>e. project_attachment_items (e_attachments e))"

definition list_entry_history_attachments ::
    "core_env \<Rightarrow> string \<Rightarrow> nat \<Rightarrow> vault \<Rightarrow> mutation_error + attachment_view list" where
  "list_entry_history_attachments = of_snapshot (\<lambda>e. project_attachment_items (e_attachments e))"

definition attachment_content_of :: "string \<Rightarrow> entry \<Rightarrow> mutation_error + string \<times> bytes" where
  "attachment_content_of name entry =
     (case bt_get (e_attachments (e_core entry)) name of
        None \<Rightarrow> Inl (Err_AttachmentNotFound name)
      | Some a \<Rightarrow> Inr (a_name a, ac_bytes (a_data a)))"

definition project_entry_attachment_content ::
    "core_env \<Rightarrow> string \<Rightarrow> string \<Rightarrow> vault \<Rightarrow> mutation_error + string \<times> bytes" where
  "project_entry_attachment_content env i name v = and_then (get_entry env i v) (attachment_content_of name)"

definition project_entry_history_attachment_content ::
    "core_env \<Rightarrow> string \<Rightarrow> nat \<Rightarrow> string \<Rightarrow> vault \<Rightarrow> mutation_error + string \<times> bytes" where
  "project_entry_history_attachment_content env i index name v =
     and_then (get_snapshot env i index v) (attachment_content_of name)"

definition list_entry_custom_fields :: "core_env \<Rightarrow> string \<Rightarrow> vault \<Rightarrow> mutation_error + custom_field_view list" where
  "list_entry_custom_fields = of_entry (\<lambda>e. project_entry_custom_fields (e_attributes e))"

definition list_entry_history_custom_fields ::
    "core_env \<Rightarrow> string \<Rightarrow> nat \<Rightarrow> vault \<Rightarrow> mutation_error + custom_field_view list" where
  "list_entry_history_custom_fields = of_snapshot (\<lambda>e. project_entry_custom_fields (e_attributes e))"

definition list_entry_custom_data :: "core_env \<Rightarrow> string \<Rightarrow> vault \<Rightarrow> mutation_error + (string \<times> string) list" where
  "list_entry_custom_data = of_entry (\<lambda>e. project_custom_data_items (e_custom_data e))"

definition list_entry_custom_data_detail :: "core_env \<Rightarrow> string \<Rightarrow> vault \<Rightarrow> mutation_error + custom_data_item list" where
  "list_entry_custom_data_detail = of_entry project_entry_custom_data_items"

definition list_entry_history_custom_data ::
    "core_env \<Rightarrow> string \<Rightarrow> nat \<Rightarrow> vault \<Rightarrow> mutation_error + (string \<times> string) list" where
  "list_entry_history_custom_data = of_snapshot (\<lambda>e. project_custom_data_items (e_custom_data e))"

definition list_deleted_objects :: "core_env \<Rightarrow> vault \<Rightarrow> (string \<times> i64) list" where
  "list_deleted_objects env v = map (\<lambda>d. (ce_uuid_text env (do_id d), do_deleted_at d)) (v_deleted_objects v)"

definition list_custom_icons :: "core_env \<Rightarrow> vault \<Rightarrow> custom_icon_view list" where
  "list_custom_icons env v = map (project_custom_icon env) (v_custom_icons v)"

section \<open>Groups\<close>

definition of_group :: "(group_core \<Rightarrow> 'r) \<Rightarrow> core_env \<Rightarrow> string \<Rightarrow> vault \<Rightarrow> mutation_error + 'r" where
  "of_group view env i v = and_then (find_group_or env i v) (\<lambda>g. Inr (view (g_core g)))"

definition query_group_behavior_metadata :: "core_env \<Rightarrow> string \<Rightarrow> vault \<Rightarrow> mutation_error + group_behavior_view" where
  "query_group_behavior_metadata env = of_group (project_group_behavior_metadata env) env"

definition query_group_lineage_tag_metadata :: "core_env \<Rightarrow> string \<Rightarrow> vault \<Rightarrow> mutation_error + group_lineage_view" where
  "query_group_lineage_tag_metadata env = of_group (project_group_lineage_tag_metadata env) env"

definition query_group_detail :: "core_env \<Rightarrow> string \<Rightarrow> vault \<Rightarrow> mutation_error + group_detail_view" where
  "query_group_detail env = of_group (project_group_detail env) env"

definition query_group_times :: "core_env \<Rightarrow> string \<Rightarrow> vault \<Rightarrow> mutation_error + group_times_view" where
  "query_group_times = of_group project_group_times"

definition query_group_expiry :: "core_env \<Rightarrow> string \<Rightarrow> vault \<Rightarrow> mutation_error + group_expiry_view" where
  "query_group_expiry = of_group project_group_expiry"

definition list_group_custom_data :: "core_env \<Rightarrow> string \<Rightarrow> vault \<Rightarrow> mutation_error + (string \<times> string) list" where
  "list_group_custom_data = of_group (\<lambda>g. project_custom_data_items (g_custom_data g))"

definition list_group_custom_data_detail :: "core_env \<Rightarrow> string \<Rightarrow> vault \<Rightarrow> mutation_error + custom_data_item list" where
  "list_group_custom_data_detail = of_group project_group_custom_data_items"

definition find_group_view_by_id :: "core_env \<Rightarrow> vault \<Rightarrow> string \<Rightarrow> group_view option" where
  "find_group_view_by_id env v i = map_option (project_group env) (find_group_by_id env i (v_root v))"

definition find_entry_view_by_id :: "core_env \<Rightarrow> vault \<Rightarrow> string \<Rightarrow> entry_view option" where
  "find_entry_view_by_id env v i = map_option (project_entry env) (find_entry_by_id env i (v_root v))"

section \<open>Search\<close>

record entry_match_view =
  em_entry :: entry_view
  em_group_id :: string
  em_group_path :: "string list"

definition visible_haystacks :: "entry_core \<Rightarrow> string list" where
  "visible_haystacks e =
     [e_title e, e_username e, e_password e, e_url e, e_notes e] @ e_tags e @
       map (\<lambda>(key, field). cf_value field)
         (filter (\<lambda>(key, field). \<not> is_reserved_entry_custom_field_key key) (e_attributes e))"

definition visible_match :: "string \<Rightarrow> entry \<Rightarrow> bool" where
  "visible_match needle entry \<longleftrightarrow>
     list_ex (\<lambda>v. str_contains (to_ascii_lowercase v) needle) (visible_haystacks (e_core entry))"

definition entry_match :: "core_env \<Rightarrow> group_core \<Rightarrow> string list \<Rightarrow> entry \<Rightarrow> entry_match_view" where
  "entry_match env g path entry =
     \<lparr>em_entry = project_entry env entry, em_group_id = ce_uuid_text env (g_id g), em_group_path = path\<rparr>"

fun collect_entry_matches ::
    "core_env \<Rightarrow> string \<Rightarrow> vgroup \<Rightarrow> string list \<Rightarrow> entry_match_view list \<Rightarrow> entry_match_view list"
  and collect_child_matches ::
    "core_env \<Rightarrow> string \<Rightarrow> vgroup list \<Rightarrow> string list \<Rightarrow> entry_match_view list \<Rightarrow> entry_match_view list" where
  "collect_entry_matches env needle (Group g es children) path matches =
     collect_child_matches env needle children path
       (foldl (\<lambda>ms entry. if visible_match needle entry then ms @ [entry_match env g path entry] else ms) matches es)"
| "collect_child_matches env needle [] path matches = matches"
| "collect_child_matches env needle (child # children) path matches =
     collect_child_matches env needle children path
       (collect_entry_matches env needle child (path @ [g_title (g_core child)]) matches)"

definition search_entries_view :: "core_env \<Rightarrow> vault \<Rightarrow> string \<Rightarrow> entry_match_view list" where
  "search_entries_view env v term =
     collect_entry_matches env (to_ascii_lowercase term) (v_root v) [g_title (g_core (v_root v))] []"

text \<open>Every entry of a tree with the group that holds it and the titles from the root down to that group.\<close>

fun located_entries :: "string list \<Rightarrow> vgroup \<Rightarrow> (group_core \<times> string list \<times> entry) list" where
  "located_entries path (Group g es children) =
     map (\<lambda>entry. (g, path, entry)) es @
     concat (map (\<lambda>child. located_entries (path @ [g_title (g_core child)]) child) children)"

lemma collect_matches_fold:
  "foldl (\<lambda>ms entry. if visible_match needle entry then ms @ [entry_match env g path entry] else ms) ms es =
     ms @ map (entry_match env g path) (filter (visible_match needle) es)"
  by (induction es arbitrary: ms) simp_all

abbreviation shown :: "core_env \<Rightarrow> string \<Rightarrow> (group_core \<times> string list \<times> entry) list \<Rightarrow> entry_match_view list" where
  "shown env needle located \<equiv>
     map (\<lambda>(g, path, entry). entry_match env g path entry)
       (filter (\<lambda>(_, _, entry). visible_match needle entry) located)"

lemma collect_matches_located:
  "collect_entry_matches env needle grp path ms = ms @ shown env needle (located_entries path grp)"
  "collect_child_matches env needle gs path ms = ms @ shown env needle
     (concat (map (\<lambda>child. located_entries (path @ [g_title (g_core child)]) child) gs))"
  by (induction env needle grp path ms and env needle gs path ms
      rule: collect_entry_matches_collect_child_matches.induct)
     (simp_all add: collect_matches_fold filter_map comp_def)

lemma located_entries_all: "map (\<lambda>(_, _, entry). entry) (located_entries path grp) = group_entries grp"
proof (induction path grp rule: located_entries.induct)
  case (1 path g es children)
  then show ?case by (simp add: comp_def map_concat cong: map_cong)
qed

lemma visible_haystacks_subset: "set (visible_haystacks e) \<subseteq> set (entry_haystacks e)"
  by (force simp: visible_haystacks_def entry_haystacks_def)

text \<open>C33. The search shown to clients lists, in document order and once per occurrence, the entries that
  hold the term in a field, a tag or an attribute that is not reserved for credentials; each comes with the
  id of its group and with the titles on the way down to it, and \<open>Vault::search\<close> finds it too. The value of a
  reserved attribute, such as a TOTP secret, never makes an entry match.\<close>

theorem search_view_locates:
  "search_entries_view env v term =
     map (\<lambda>(g, path, entry). entry_match env g path entry)
       (filter (\<lambda>(_, _, entry). \<exists>hay \<in> set (visible_haystacks (e_core entry)). \<exists>pre post.
           to_ascii_lowercase hay = pre @ to_ascii_lowercase term @ post)
         (located_entries [g_title (g_core (v_root v))] (v_root v))) \<and>
   map (\<lambda>(_, _, entry). entry) (located_entries [g_title (g_core (v_root v))] (v_root v)) = group_entries (v_root v) \<and>
   em_entry ` set (search_entries_view env v term) \<subseteq> project_entry env ` set (vault_search v term)"
proof -
  have located: "search_entries_view env v term =
     shown env (to_ascii_lowercase term) (located_entries [g_title (g_core (v_root v))] (v_root v))"
    by (simp add: search_entries_view_def collect_matches_located)
  have "em_entry ` set (search_entries_view env v term) \<subseteq> project_entry env ` set (vault_search v term)"
  proof
    fix x assume "x \<in> em_entry ` set (search_entries_view env v term)"
    then obtain g path entry where x: "x = project_entry env entry"
      and at: "(g, path, entry) \<in> set (located_entries [g_title (g_core (v_root v))] (v_root v))"
      and match: "visible_match (to_ascii_lowercase term) entry"
      by (auto simp: located entry_match_def)
    from at have "entry \<in> set (group_entries (v_root v))"
      unfolding located_entries_all [of "[g_title (g_core (v_root v))]", symmetric] by force
    moreover from match have "entry_matches (to_ascii_lowercase term) entry"
      using visible_haystacks_subset [of "e_core entry"]
      by (auto simp: visible_match_def entry_matches_def list_ex_iff)
    ultimately show "x \<in> project_entry env ` set (vault_search v term)"
      by (simp add: x vault_search_def collect_search_filter)
  qed
  moreover have "visible_match (to_ascii_lowercase term) entry \<longleftrightarrow>
      (\<exists>hay \<in> set (visible_haystacks (e_core entry)). \<exists>pre post.
           to_ascii_lowercase hay = pre @ to_ascii_lowercase term @ post)" for entry
    by (simp add: visible_match_def list_ex_iff str_contains_iff)
  ultimately show ?thesis by (simp add: located located_entries_all)
qed

end
