(* ===== verification/Validate.thy ===== *)
theory Validate
  imports XmlText Credentials CustomData Headers
begin

text \<open>
  What a vault must satisfy before it is written (\<^verbatim>\<open>crates/vaultkern-kdbx/src/lib.rs\<close>,
  \<open>validate_vault_model\<close>), and the format version its content needs (\<open>required_version\<close>).
\<close>

section \<open>Required version\<close>

definition custom_data_requires_41 :: "custom_data_block list \<Rightarrow> (string, string) btree \<Rightarrow> bool" where
  "custom_data_requires_41 blocks merged \<longleftrightarrow>
     merge_custom_data_blocks blocks = merged \<and>
     list_ex (\<lambda>item. cd_last_modified item \<noteq> None) (all_items blocks)"

definition entry_state_requires_41 :: "entry_core \<Rightarrow> bool" where
  "entry_state_requires_41 e \<longleftrightarrow>
     e_exclude_from_reports e \<or> er_quality_check_raw (e_raw_state e) \<noteq> None \<or> e_previous_parent e \<noteq> None \<or>
     mt_has_projectable_passkey (materialize_entry_persistent_attributes e) \<or>
     custom_data_requires_41 (e_custom_data_blocks e) (e_custom_data e)"

fun entry_requires_41 :: "entry \<Rightarrow> bool" where
  "entry_requires_41 (Entry e history) \<longleftrightarrow> entry_state_requires_41 e \<or> list_ex entry_requires_41 history"

fun group_requires_41 :: "vgroup \<Rightarrow> bool" where
  "group_requires_41 (Group g es children) \<longleftrightarrow>
     g_tags g \<noteq> [] \<or> g_previous_parent g \<noteq> None \<or>
     custom_data_requires_41 (g_custom_data_blocks g) (g_custom_data g) \<or>
     list_ex entry_requires_41 es \<or> list_ex group_requires_41 children"

definition required_version :: "vault \<Rightarrow> kdbx_version" where
  "required_version v =
     (if custom_data_requires_41 (v_meta_custom_data_blocks v) (v_meta_custom_data v) \<or>
         list_ex (\<lambda>icon. (case ci_name icon of Some name \<Rightarrow> name \<noteq> [] | None \<Rightarrow> False) \<or>
           ci_last_modified icon \<noteq> None) (v_custom_icons v) \<or>
         group_requires_41 (v_root v)
      then V4_1 else V4_0)"

section \<open>Raw texts\<close>

definition parse_bool_text :: "string \<Rightarrow> bool" where
  "parse_bool_text s \<longleftrightarrow> (let t = str_trim s in eq_ignore_ascii_case t ''true'' \<or> t = ''1'')"

definition parse_bool_text_strict :: "string \<Rightarrow> bool option" where
  "parse_bool_text_strict s =
     (let t = str_trim s in
      if eq_ignore_ascii_case t ''true'' \<or> t = ''1'' then Some True
      else if eq_ignore_ascii_case t ''false'' \<or> t = ''0'' then Some False
      else None)"

definition parse_nullable_bool_strict :: "string \<Rightarrow> bool option option" where
  "parse_nullable_bool_strict s =
     (let t = str_trim s in
      if t = [] \<or> eq_ignore_ascii_case t ''null'' then Some None
      else map_option Some (parse_bool_text_strict s))"

text \<open>\<open>parse_bool_text_strict\<close> is given the trimmed text, which trimming leaves as it is.\<close>

fun split_tags :: "string \<Rightarrow> string list" where
  "split_tags [] = [[]]"
| "split_tags (c # s) =
     (if c = CHR '','' \<or> c = CHR '';'' then [] # split_tags s
      else case split_tags s of t # ts \<Rightarrow> (c # t) # ts | [] \<Rightarrow> [[c]])"

definition parse_tags :: "string \<Rightarrow> string list" where
  "parse_tags tags = bs_of_list (filter (\<lambda>t. t \<noteq> []) (map str_trim (split_tags tags)))"

definition raw_collapsed_optional_text_matches :: "string option \<Rightarrow> string option \<Rightarrow> bool" where
  "raw_collapsed_optional_text_matches modeled raw \<longleftrightarrow>
     (case raw of None \<Rightarrow> True | Some r \<Rightarrow> modeled = (if r = [] then None else Some r))"

definition raw_present_text_matches :: "string option \<Rightarrow> string option \<Rightarrow> bool" where
  "raw_present_text_matches modeled raw \<longleftrightarrow> (case raw of None \<Rightarrow> True | Some r \<Rightarrow> modeled = Some r)"

definition raw_nullable_bool_matches :: "bool option \<Rightarrow> string option \<Rightarrow> bool" where
  "raw_nullable_bool_matches modeled raw \<longleftrightarrow>
     (case raw of None \<Rightarrow> True | Some r \<Rightarrow> parse_nullable_bool_strict r = Some modeled)"

definition tags_are_persistence_valid :: "string list \<Rightarrow> bool" where
  "tags_are_persistence_valid tags \<longleftrightarrow> list_all (\<lambda>tag. \<not> tag_ambiguous tag) tags"

definition is_standard_entry_field_name :: "string \<Rightarrow> bool" where
  "is_standard_entry_field_name name \<longleftrightarrow> name \<in> {''Title'', ''UserName'', ''Password'', ''URL'', ''Notes''}"

section \<open>Checks\<close>

definition ensure :: "bool \<Rightarrow> kdbx_error + unit" where
  "ensure ok = (if ok then Inr () else Inl InvalidValue)"

definition validate_kdbx4_timestamp :: "i64 \<Rightarrow> kdbx_error + unit" where
  "validate_kdbx4_timestamp t = ensure (kdbx4_time_ok t)"

definition validate_unsigned_kdbx4_timestamp :: "u64 \<Rightarrow> kdbx_error + unit" where
  "validate_unsigned_kdbx4_timestamp t = ensure (kdbx4_unsigned_time_ok t)"

fun each_ok :: "('a \<Rightarrow> 'e + unit) \<Rightarrow> 'a list \<Rightarrow> 'e + unit" where
  "each_ok check [] = Inr ()"
| "each_ok check (x # xs) = and_then (check x) (\<lambda>_. each_ok check xs)"

definition when_some :: "('a \<Rightarrow> 'e + unit) \<Rightarrow> 'a option \<Rightarrow> 'e + unit" where
  "when_some check x = (case x of None \<Rightarrow> Inr () | Some a \<Rightarrow> check a)"

text \<open>The loop over the recorded nodes, with the count so far of each name.\<close>

fun raw_slots :: "(string \<times> nat) list \<Rightarrow> (string, nat) btree \<Rightarrow> string list \<Rightarrow> kdbx_error + unit" where
  "raw_slots emitted recorded [] = Inr ()"
| "raw_slots emitted recorded (name # names) =
     (case map_of emitted name of
        None \<Rightarrow> Inl InvalidValue
      | Some emitted_count \<Rightarrow>
          (let count = Suc (case bt_get recorded name of Some c \<Rightarrow> c | None \<Rightarrow> 0) in
           if count > emitted_count then Inl InvalidValue
           else raw_slots emitted (bt_insert name count recorded) names))"

definition validate_raw_node_slots :: "string list \<Rightarrow> (string \<times> nat) list \<Rightarrow> kdbx_error + unit" where
  "validate_raw_node_slots node_order emitted = raw_slots emitted [] node_order"

definition validate_tracked_identity_slots ::
    "string \<Rightarrow> string list \<Rightarrow> 'a::linorder list \<Rightarrow> 'a list \<Rightarrow> kdbx_error + unit" where
  "validate_tracked_identity_slots name node_order tracked current =
     ensure (length (filter (\<lambda>n. n = name) node_order) = length tracked \<and>
       length (bs_of_list tracked) = length tracked \<and> list_all (\<lambda>x. x \<in> set current) tracked)"

definition validate_tracked_identity_prefix :: "'a list \<Rightarrow> 'b list \<Rightarrow> ('b \<Rightarrow> 'a) \<Rightarrow> kdbx_error + unit" where
  "validate_tracked_identity_prefix tracked current identity =
     ensure (\<not> length current < length tracked \<and> map identity (take (length tracked) current) = tracked)"

definition of_bool_nat :: "bool \<Rightarrow> nat" where "of_bool_nat b = (if b then 1 else 0)"

definition custom_data_emitted_count :: "custom_data_block list \<Rightarrow> (string, string) btree \<Rightarrow> nat" where
  "custom_data_emitted_count blocks merged =
     (if blocks = [] then of_bool_nat (merged \<noteq> []) else length blocks)"

definition validate_custom_data_model ::
    "(string, string) btree \<Rightarrow> custom_data_block list \<Rightarrow> kdbx_error + unit" where
  "validate_custom_data_model merged blocks =
     and_then (ensure (\<not> (list_ex (\<lambda>k. k = []) (bt_keys merged) \<or>
         list_ex (\<lambda>item. cd_key item = []) (all_items blocks) \<or> merge_custom_data_blocks blocks \<noteq> merged))) (\<lambda>_.
     each_ok validate_kdbx4_timestamp (List.map_filter cd_last_modified (all_items blocks)))"

section \<open>Entries\<close>

definition should_emit_history :: "entry \<Rightarrow> bool \<Rightarrow> bool" where
  "should_emit_history entry include_history \<longleftrightarrow>
     include_history \<and> (e_history entry \<noteq> [] \<or> er_has_history_node (e_raw_state (e_core entry)) \<or>
       er_node_order (e_raw_state (e_core entry)) = [])"

definition entry_emitted_node_counts :: "entry \<Rightarrow> bool \<Rightarrow> (string \<times> nat) list" where
  "entry_emitted_node_counts entry include_history =
     (let e = e_core entry; raw = e_raw_state e in
      [(''UUID'', 1), (''Times'', 1),
       (''IconID'', of_bool_nat (e_icon_id e \<noteq> None)),
       (''CustomIconUUID'', of_bool_nat (e_custom_icon_id e \<noteq> None)),
       (''ForegroundColor'', of_bool_nat (e_foreground_color e \<noteq> None \<or> er_foreground_color_raw raw \<noteq> None)),
       (''BackgroundColor'', of_bool_nat (e_background_color e \<noteq> None \<or> er_background_color_raw raw \<noteq> None)),
       (''OverrideURL'', of_bool_nat (e_override_url e \<noteq> None \<or> er_override_url_raw raw \<noteq> None)),
       (''Tags'', of_bool_nat (e_tags e \<noteq> [] \<or> er_tags_raw raw \<noteq> None)),
       (''PreviousParentGroup'', of_bool_nat (e_previous_parent e \<noteq> None)),
       (''QualityCheck'', of_bool_nat (e_exclude_from_reports e \<or>
          (case er_quality_check_raw raw of Some r \<Rightarrow> parse_bool_text r | None \<Rightarrow> False))),
       (''String'', length (mt_fields (materialize_entry_persistent_attributes e)) + 5),
       (''Binary'', length (e_attachments e)),
       (''AutoType'', of_bool_nat (e_auto_type e \<noteq> None)),
       (''History'', of_bool_nat (should_emit_history entry include_history)),
       (''CustomData'', custom_data_emitted_count (e_custom_data_blocks e) (e_custom_data e))])"

definition entry_string_keys :: "entry_core \<Rightarrow> string list" where
  "entry_string_keys e =
     bs_of_list ([''Title'', ''UserName'', ''Password'', ''URL'', ''Notes''] @
       bt_keys (mt_fields (materialize_entry_persistent_attributes e)))"

definition structured_totp_valid :: "totp_spec option \<Rightarrow> bool" where
  "structured_totp_valid totp \<longleftrightarrow> (case totp of Some t \<Rightarrow> structured_totp_is_persistence_valid t | None \<Rightarrow> True)"

definition entry_fields_valid :: "entry \<Rightarrow> uuid \<Rightarrow> bool \<Rightarrow> bool" where
  "entry_fields_valid entry owner_id is_snapshot \<longleftrightarrow>
     (let e = e_core entry; raw = e_raw_state e in
      \<not> ((is_snapshot \<and> (e_id e \<noteq> owner_id \<or> e_history entry \<noteq> [] \<or> er_has_history_node raw)) \<or>
         e_custom_icon_id e = Some 0 \<or> e_previous_parent e = Some 0 \<or>
         \<not> tags_are_persistence_valid (e_tags e) \<or>
         list_ex (\<lambda>key. key = [] \<or> is_standard_entry_field_name key) (bt_keys (e_attributes e)) \<or>
         list_ex (\<lambda>(key, a). key = [] \<or> a_name a = [] \<or> a_name a \<noteq> key) (e_attachments e) \<or>
         \<not> raw_present_text_matches (e_foreground_color e) (er_foreground_color_raw raw) \<or>
         \<not> raw_present_text_matches (e_background_color e) (er_background_color_raw raw) \<or>
         \<not> raw_present_text_matches (e_override_url e) (er_override_url_raw raw) \<or>
         (case er_tags_raw raw of Some r \<Rightarrow> parse_tags r \<noteq> e_tags e | None \<Rightarrow> False) \<or>
         e_location_changed_at e = None \<or>
         (e_expires e \<and> e_expiry_time e = None) \<or>
         \<not> structured_totp_valid (e_totp e)))"

definition entry_slots_valid :: "entry \<Rightarrow> bool \<Rightarrow> kdbx_error + unit" where
  "entry_slots_valid entry is_snapshot =
     (let e = e_core entry; raw = e_raw_state e in
      and_then (validate_raw_node_slots (er_node_order raw) (entry_emitted_node_counts entry (\<not> is_snapshot))) (\<lambda>_.
      and_then (validate_tracked_identity_slots ''String'' (er_node_order raw) (er_string_order raw)
        (entry_string_keys e)) (\<lambda>_.
      validate_tracked_identity_slots ''Binary'' (er_node_order raw) (er_binary_order raw)
        (bs_of_list (bt_keys (e_attachments e))))))"

definition entry_times_valid :: "entry_core \<Rightarrow> kdbx_error + unit" where
  "entry_times_valid e =
     and_then (validate_unsigned_kdbx4_timestamp (e_created_at e)) (\<lambda>_.
     and_then (validate_unsigned_kdbx4_timestamp (e_modified_at e)) (\<lambda>_.
     and_then (when_some validate_kdbx4_timestamp (e_expiry_time e)) (\<lambda>_.
     and_then (when_some validate_unsigned_kdbx4_timestamp (e_last_accessed_at e)) (\<lambda>_.
     when_some validate_unsigned_kdbx4_timestamp (e_location_changed_at e)))))"

definition quality_check_valid :: "entry_core \<Rightarrow> kdbx_error + unit" where
  "quality_check_valid e =
     when_some (\<lambda>raw. and_then (ok_or (parse_bool_text_strict raw) InvalidValue) (\<lambda>x.
       ensure (e_exclude_from_reports e \<noteq> x))) (er_quality_check_raw (e_raw_state e))"

definition validate_entry_state :: "entry \<Rightarrow> uuid \<Rightarrow> bool \<Rightarrow> kdbx_error + unit" where
  "validate_entry_state entry owner_id is_snapshot =
     and_then (ensure (entry_fields_valid entry owner_id is_snapshot)) (\<lambda>_.
     and_then (entry_slots_valid entry is_snapshot) (\<lambda>_.
     and_then (validate_custom_data_model (e_custom_data (e_core entry)) (e_custom_data_blocks (e_core entry))) (\<lambda>_.
     and_then (entry_times_valid (e_core entry)) (\<lambda>_.
     quality_check_valid (e_core entry)))))"

fun validate_entry_model :: "entry \<Rightarrow> uuid \<Rightarrow> bool \<Rightarrow> kdbx_error + unit"
  and validate_history :: "entry list \<Rightarrow> uuid \<Rightarrow> kdbx_error + unit" where
  "validate_entry_model (Entry e history) owner_id is_snapshot =
     and_then (validate_entry_state (Entry e history) owner_id is_snapshot) (\<lambda>_. validate_history history (e_id e))"
| "validate_history [] owner_id = Inr ()"
| "validate_history (snapshot # history) owner_id =
     and_then (validate_entry_model snapshot owner_id True) (\<lambda>_. validate_history history owner_id)"

section \<open>Groups\<close>

definition group_emitted_node_counts :: "vgroup \<Rightarrow> (string \<times> nat) list" where
  "group_emitted_node_counts grp =
     (let g = g_core grp in
      [(''UUID'', 1), (''Name'', 1), (''Notes'', 1), (''IconID'', 1), (''Times'', 1), (''IsExpanded'', 1),
       (''DefaultAutoTypeSequence'', 1), (''EnableAutoType'', 1), (''EnableSearching'', 1),
       (''LastTopVisibleEntry'', of_bool_nat (g_last_top_visible_entry g \<noteq> None)),
       (''CustomIconUUID'', of_bool_nat (g_custom_icon_id g \<noteq> None)),
       (''Tags'', of_bool_nat (g_tags g \<noteq> [])),
       (''PreviousParentGroup'', of_bool_nat (g_previous_parent g \<noteq> None)),
       (''Entry'', length (g_entries grp)), (''Group'', length (g_children grp)),
       (''CustomData'', custom_data_emitted_count (g_custom_data_blocks g) (g_custom_data g))])"

definition group_fields_valid :: "group_core \<Rightarrow> bool" where
  "group_fields_valid g \<longleftrightarrow>
     (let raw = g_raw_state g in
      \<not> (g_custom_icon_id g = Some 0 \<or> g_last_top_visible_entry g = Some 0 \<or> g_previous_parent g = Some 0 \<or>
         g_default_auto_type_sequence g = Some [] \<or>
         \<not> raw_collapsed_optional_text_matches (g_default_auto_type_sequence g) (gr_default_auto_type_sequence_raw raw) \<or>
         \<not> raw_nullable_bool_matches (gf_enable_auto_type (g_flags g)) (gr_enable_auto_type_raw raw) \<or>
         \<not> raw_nullable_bool_matches (gf_enable_searching (g_flags g)) (gr_enable_searching_raw raw) \<or>
         gr_last_top_visible_entry_raw raw \<noteq> None \<or>
         \<not> tags_are_persistence_valid (g_tags g)))"

definition group_times_valid :: "group_times \<Rightarrow> kdbx_error + unit" where
  "group_times_valid t =
     and_then (validate_unsigned_kdbx4_timestamp (gt_created_at t)) (\<lambda>_.
     and_then (validate_unsigned_kdbx4_timestamp (gt_modified_at t)) (\<lambda>_.
     and_then (when_some validate_kdbx4_timestamp (gt_expiry_time t)) (\<lambda>_.
     and_then (when_some validate_unsigned_kdbx4_timestamp (gt_last_accessed_at t)) (\<lambda>_.
     when_some validate_unsigned_kdbx4_timestamp (gt_location_changed_at t)))))"

definition validate_group_state :: "vgroup \<Rightarrow> kdbx_error + unit" where
  "validate_group_state grp =
     (let g = g_core grp; raw = g_raw_state g; es = g_entries grp; children = g_children grp in
      and_then (validate_raw_node_slots (gr_node_order raw) (group_emitted_node_counts grp)) (\<lambda>_.
      and_then (validate_tracked_identity_slots ''Entry'' (gr_node_order raw) (gr_entry_order raw)
        (bs_of_list (map (\<lambda>e. e_id (e_core e)) es))) (\<lambda>_.
      and_then (validate_tracked_identity_prefix (gr_entry_order raw) es (\<lambda>e. e_id (e_core e))) (\<lambda>_.
      and_then (validate_tracked_identity_slots ''Group'' (gr_node_order raw) (gr_group_order raw)
        (bs_of_list (map (\<lambda>c. g_id (g_core c)) children))) (\<lambda>_.
      and_then (validate_tracked_identity_prefix (gr_group_order raw) children (\<lambda>c. g_id (g_core c))) (\<lambda>_.
      and_then (validate_custom_data_model (g_custom_data g) (g_custom_data_blocks g)) (\<lambda>_.
      when_some group_times_valid (g_times g))))))))"

text \<open>The set of the ids seen so far is threaded through; \<open>insert\<close> tells whether an id is new.\<close>

definition claim_id :: "uuid \<Rightarrow> uuid list \<Rightarrow> kdbx_error + uuid list" where
  "claim_id u live = (if u = 0 \<or> u \<in> set live then Inl InvalidValue else Inr (bs_insert u live))"

fun validate_entries :: "entry list \<Rightarrow> uuid list \<Rightarrow> kdbx_error + uuid list" where
  "validate_entries [] live = Inr live"
| "validate_entries (entry # es) live =
     and_then (claim_id (e_id (e_core entry)) live) (\<lambda>live.
     and_then (validate_entry_model entry (e_id (e_core entry)) False) (\<lambda>_. validate_entries es live))"

fun validate_group_model :: "vgroup \<Rightarrow> uuid list \<Rightarrow> kdbx_error + uuid list"
  and validate_group_children :: "vgroup list \<Rightarrow> uuid list \<Rightarrow> kdbx_error + uuid list" where
  "validate_group_model (Group g es children) live =
     and_then (claim_id (g_id g) live) (\<lambda>live.
     and_then (ensure (group_fields_valid g)) (\<lambda>_.
     and_then (validate_group_state (Group g es children)) (\<lambda>_.
     and_then (validate_entries es live) (\<lambda>live.
     validate_group_children children live))))"
| "validate_group_children [] live = Inr live"
| "validate_group_children (child # children) live =
     and_then (validate_group_model child live) (\<lambda>live. validate_group_children children live)"

section \<open>Vaults\<close>

definition meta_emitted_node_counts :: "vault \<Rightarrow> (string \<times> nat) list" where
  "meta_emitted_node_counts v =
     (let raw = v_meta_raw_state v in
      [(''Generator'', of_bool_nat (v_generator v \<noteq> None)),
       (''SettingsChanged'', of_bool_nat (v_settings_changed v \<noteq> None)),
       (''DatabaseName'', of_bool_nat True),
       (''DatabaseNameChanged'', of_bool_nat (v_database_name_changed v \<noteq> None)),
       (''DatabaseDescription'', of_bool_nat (v_description v \<noteq> None \<or> mr_description_raw raw \<noteq> None)),
       (''DatabaseDescriptionChanged'', of_bool_nat (v_description_changed v \<noteq> None)),
       (''DefaultUserName'', of_bool_nat (v_default_username v \<noteq> None \<or> mr_default_username_raw raw \<noteq> None)),
       (''DefaultUserNameChanged'', of_bool_nat (v_default_username_changed v \<noteq> None)),
       (''MaintenanceHistoryDays'', of_bool_nat (v_maintenance_history_days v \<noteq> None)),
       (''Color'', of_bool_nat (v_color v \<noteq> None \<or> mr_color_raw raw \<noteq> None)),
       (''MemoryProtection'', of_bool_nat (v_memory_protection v \<noteq> None)),
       (''CustomIcons'', of_bool_nat (v_custom_icons v \<noteq> [] \<or> mr_has_custom_icons_node raw)),
       (''RecycleBinEnabled'', of_bool_nat (v_recycle_bin_enabled v \<noteq> None)),
       (''RecycleBinUUID'', of_bool_nat (v_recycle_bin_group v \<noteq> None)),
       (''RecycleBinChanged'', of_bool_nat (v_recycle_bin_changed v \<noteq> None)),
       (''EntryTemplatesGroup'', of_bool_nat (v_entry_templates_group v \<noteq> None)),
       (''EntryTemplatesGroupChanged'', of_bool_nat (v_entry_templates_group_changed v \<noteq> None)),
       (''MasterKeyChanged'', of_bool_nat (v_master_key_changed v \<noteq> None)),
       (''MasterKeyChangeRec'', of_bool_nat (v_master_key_change_rec v \<noteq> None)),
       (''MasterKeyChangeForce'', of_bool_nat (v_master_key_change_force v \<noteq> None)),
       (''MasterKeyChangeForceOnce'', of_bool_nat (v_master_key_change_force_once v \<noteq> None)),
       (''LastSelectedGroup'', of_bool_nat (v_last_selected_group v \<noteq> None)),
       (''LastTopVisibleGroup'', of_bool_nat (v_last_top_visible_group v \<noteq> None)),
       (''HistoryMaxItems'', of_bool_nat (v_history_max_items v \<noteq> None)),
       (''HistoryMaxSize'', of_bool_nat (v_history_max_size v \<noteq> None)),
       (''CustomData'', custom_data_emitted_count (v_meta_custom_data_blocks v) (v_meta_custom_data v))])"

definition root_emitted_node_counts :: "vault \<Rightarrow> (string \<times> nat) list" where
  "root_emitted_node_counts v =
     [(''Group'', 1),
      (''DeletedObjects'', of_bool_nat (v_deleted_objects v \<noteq> [] \<or> rr_has_deleted_objects_node (v_root_raw_state v)))]"

definition meta_fields_valid :: "vault \<Rightarrow> bool" where
  "meta_fields_valid v \<longleftrightarrow>
     (let raw = v_meta_raw_state v in
      \<not> (Some [] \<in> set [v_generator v, v_description v, v_default_username v, v_color v] \<or>
         Some 0 \<in> set [v_recycle_bin_group v, v_entry_templates_group v, v_last_selected_group v,
                       v_last_top_visible_group v] \<or>
         list_ex (\<lambda>k. k = []) (bt_keys (v_public_custom_data v)) \<or>
         \<not> raw_collapsed_optional_text_matches (v_description v) (mr_description_raw raw) \<or>
         \<not> raw_collapsed_optional_text_matches (v_default_username v) (mr_default_username_raw raw) \<or>
         \<not> raw_collapsed_optional_text_matches (v_color v) (mr_color_raw raw) \<or>
         mr_recycle_bin_group_raw raw \<noteq> None \<or> mr_entry_templates_group_raw raw \<noteq> None \<or>
         (case mr_auto_enable_visual_hiding_raw raw of
            Some r \<Rightarrow> v_memory_protection v = None \<or> parse_bool_text_strict r = None
          | None \<Rightarrow> False)))"

fun validate_icons :: "custom_icon list \<Rightarrow> uuid list \<Rightarrow> kdbx_error + unit" where
  "validate_icons [] seen = Inr ()"
| "validate_icons (icon # icons) seen =
     and_then (claim_id (ci_id icon) seen) (\<lambda>seen.
     and_then (ensure (ci_name icon \<noteq> Some [])) (\<lambda>_.
     and_then (when_some validate_kdbx4_timestamp (ci_last_modified icon)) (\<lambda>_. validate_icons icons seen)))"

fun validate_deleted :: "deleted_object list \<Rightarrow> uuid list \<Rightarrow> kdbx_error + unit" where
  "validate_deleted [] seen = Inr ()"
| "validate_deleted (d # deleted) seen =
     and_then (claim_id (do_id d) seen) (\<lambda>seen.
     and_then (validate_kdbx4_timestamp (do_deleted_at d)) (\<lambda>_. validate_deleted deleted seen))"

definition validate_meta :: "vault \<Rightarrow> kdbx_error + unit" where
  "validate_meta v =
     and_then (ensure (meta_fields_valid v)) (\<lambda>_.
     and_then (validate_raw_node_slots (mr_node_order (v_meta_raw_state v)) (meta_emitted_node_counts v)) (\<lambda>_.
     and_then (validate_raw_node_slots (rr_node_order (v_root_raw_state v)) (root_emitted_node_counts v)) (\<lambda>_.
     and_then (validate_custom_data_model (v_meta_custom_data v) (v_meta_custom_data_blocks v)) (\<lambda>_.
     and_then (each_ok validate_kdbx4_timestamp (List.map_filter (\<lambda>x. x)
       [v_settings_changed v, v_database_name_changed v, v_description_changed v, v_default_username_changed v,
        v_master_key_changed v, v_recycle_bin_changed v, v_entry_templates_group_changed v])) (\<lambda>_.
     validate_icons (v_custom_icons v) [])))))"

definition validate_vault_model :: "vault \<Rightarrow> kdbx_error + unit" where
  "validate_vault_model v =
     and_then (validate_meta v) (\<lambda>_.
     and_then (validate_group_model (v_root v) []) (\<lambda>_.
     validate_deleted (v_deleted_objects v) []))"

end
