(* ===== verification/Saveable.thy ===== *)
theory Saveable
  imports Validate CoreGraph
begin

text \<open>
  The condition under which a vault can be written, put as predicates that mutations preserve.
\<close>

section \<open>The checks as predicates\<close>

lemma ensure_Inr [simp]: "ensure ok = Inr u \<longleftrightarrow> ok"
  by (simp add: ensure_def)

lemma each_Inr [simp]: "each_ok check xs = Inr u \<longleftrightarrow> (\<forall>x \<in> set xs. check x = Inr ())"
  by (induction xs) (auto simp: and_then_eq_Inr)

lemma when_some_Inr [simp]: "when_some check x = Inr u \<longleftrightarrow> (\<forall>a. x = Some a \<longrightarrow> check a = Inr ())"
  by (cases x) (simp_all add: when_some_def)

lemma timestamps_Inr [simp]:
  "validate_kdbx4_timestamp t = Inr u \<longleftrightarrow> kdbx4_time_ok t"
  "validate_unsigned_kdbx4_timestamp n = Inr u \<longleftrightarrow> kdbx4_unsigned_time_ok n"
  by (simp_all add: validate_kdbx4_timestamp_def validate_unsigned_kdbx4_timestamp_def)

definition node_ok :: "string list \<Rightarrow> (string \<times> nat) list \<Rightarrow> bool" where
  "node_ok order emitted \<longleftrightarrow>
     (\<forall>n \<in> set order. \<exists>c. map_of emitted n = Some c \<and> count_list order n \<le> c)"

lemma raw_slots_iff:
  assumes "\<And>n. (case bt_get recorded n of Some c \<Rightarrow> c | None \<Rightarrow> 0) = count_list pre n"
  shows "raw_slots emitted recorded order = Inr u \<longleftrightarrow>
    (\<forall>n \<in> set order. \<exists>c. map_of emitted n = Some c \<and> count_list (pre @ order) n \<le> c)"
  using assms
proof (induction order arbitrary: recorded pre)
  case (Cons x xs)
  show ?case
  proof (cases "map_of emitted x")
    case (Some c)
    let ?k = "Suc (case bt_get recorded x of Some c \<Rightarrow> c | None \<Rightarrow> 0)"
    have "(case bt_get (bt_insert x ?k recorded) n of Some c \<Rightarrow> c | None \<Rightarrow> 0) = count_list (pre @ [x]) n" for n
      using Cons.prems by (cases "n = x") simp_all
    then have IH: "raw_slots emitted (bt_insert x ?k recorded) xs = Inr u \<longleftrightarrow>
        (\<forall>n \<in> set xs. \<exists>c. map_of emitted n = Some c \<and> count_list (pre @ x # xs) n \<le> c)"
      using Cons.IH [of "bt_insert x ?k recorded" "pre @ [x]"] by simp
    have k: "?k = Suc (count_list pre x)" using Cons.prems [of x] by simp
    have cx: "count_list (pre @ x # xs) x = ?k + count_list xs x" using k by simp
    show ?thesis
    proof (cases "?k > c")
      case True
      then have "\<not> count_list (pre @ x # xs) x \<le> c" using cx by linarith
      then show ?thesis using True Some by (auto simp: Let_def)
    next
      case False
      then have "raw_slots emitted recorded (x # xs) = Inr u \<longleftrightarrow>
          (\<forall>n \<in> set xs. \<exists>c. map_of emitted n = Some c \<and> count_list (pre @ x # xs) n \<le> c)"
        using Some IH by (simp add: Let_def)
      moreover have "count_list (pre @ x # xs) x \<le> c" if "x \<notin> set xs"
        using that False cx by simp
      ultimately show ?thesis using Some by (metis option.inject set_ConsD list.set_intros(1,2))
    qed
  qed simp
qed simp

lemma validate_raw_node_slots_iff [simp]: "validate_raw_node_slots order emitted = Inr u \<longleftrightarrow> node_ok order emitted"
  using raw_slots_iff [of "[]" "[]" emitted order u] by (simp add: validate_raw_node_slots_def node_ok_def)

definition tracked_ok :: "string \<Rightarrow> string list \<Rightarrow> 'a list \<Rightarrow> 'a set \<Rightarrow> bool" where
  "tracked_ok name order tracked current \<longleftrightarrow>
     count_list order name = length tracked \<and> distinct tracked \<and> set tracked \<subseteq> current"

lemma length_bs_of_list: "length (bs_of_list xs) = length xs \<longleftrightarrow> distinct xs"
proof -
  have "length (bs_of_list xs) = card (set xs)"
    by (metis bs_wf_distinct bs_wf_of_list distinct_card set_bs_of_list)
  then show ?thesis by (metis card_distinct distinct_card)
qed

lemma length_filter_count: "length (filter (\<lambda>n. n = name) xs) = count_list xs name"
  by (induction xs) auto

lemma validate_tracked_iff [simp]:
  "validate_tracked_identity_slots name order tracked current = Inr u \<longleftrightarrow>
     tracked_ok name order tracked (set current)"
  by (auto simp: validate_tracked_identity_slots_def tracked_ok_def length_bs_of_list length_filter_count list_all_iff)

lemma validate_prefix_iff [simp]:
  "validate_tracked_identity_prefix tracked current identity = Inr u \<longleftrightarrow>
     take (length tracked) (map identity current) = tracked"
  by (auto simp: validate_tracked_identity_prefix_def take_map dest: arg_cong [where f = length])

definition custom_data_ok :: "(string, string) btree \<Rightarrow> custom_data_block list \<Rightarrow> bool" where
  "custom_data_ok merged blocks \<longleftrightarrow>
     [] \<notin> fst ` set merged \<and> [] \<notin> cd_key ` set (all_items blocks) \<and> merge_custom_data_blocks blocks = merged \<and>
     (\<forall>item \<in> set (all_items blocks). \<forall>t. cd_last_modified item = Some t \<longrightarrow> kdbx4_time_ok t)"

lemma validate_custom_data_iff [simp]:
  "validate_custom_data_model merged blocks = Inr u \<longleftrightarrow> custom_data_ok merged blocks"
  by (force simp: validate_custom_data_model_def and_then_eq_Inr custom_data_ok_def list_ex_iff
      List.map_filter_def)

section \<open>Entries\<close>

text \<open>What the writer emits for an entry apart from strings and attachments, with the \<open>History\<close> node
  counted when the loader saw one.\<close>

definition entry_counts :: "entry_core \<Rightarrow> (string \<times> nat) list" where
  "entry_counts e =
     (let raw = e_raw_state e in
      [(''UUID'', 1), (''Times'', 1),
       (''IconID'', of_bool_nat (e_icon_id e \<noteq> None)),
       (''CustomIconUUID'', of_bool_nat (e_custom_icon_id e \<noteq> None)),
       (''ForegroundColor'', of_bool_nat (e_foreground_color e \<noteq> None \<or> er_foreground_color_raw raw \<noteq> None)),
       (''BackgroundColor'', of_bool_nat (e_background_color e \<noteq> None \<or> er_background_color_raw raw \<noteq> None)),
       (''OverrideURL'', of_bool_nat (e_override_url e \<noteq> None \<or> er_override_url_raw raw \<noteq> None)),
       (''Tags'', of_bool_nat (e_tags e \<noteq> [] \<or> er_tags_raw raw \<noteq> None)),
       (''PreviousParentGroup'', of_bool_nat (e_previous_parent e \<noteq> None)),
       (''QualityCheck'', of_bool_nat (e_exclude_from_reports e \<or>
          (case er_quality_check_raw raw of Some r \<Rightarrow> parse_bool_text r | None \<Rightarrow> False))),
       (''AutoType'', of_bool_nat (e_auto_type e \<noteq> None)),
       (''History'', of_bool_nat (er_has_history_node raw)),
       (''CustomData'', custom_data_emitted_count (e_custom_data_blocks e) (e_custom_data e))])"

definition string_key_set :: "entry_core \<Rightarrow> string set" where
  "string_key_set e =
     {''Title'', ''UserName'', ''Password'', ''URL'', ''Notes''} \<union>
     fst ` set (mt_fields (materialize_entry_persistent_attributes e))"

definition plain_nodes_ok :: "entry_core \<Rightarrow> bool" where
  "plain_nodes_ok e \<longleftrightarrow>
     node_ok (filter (\<lambda>n. n \<noteq> ''String'' \<and> n \<noteq> ''Binary'') (er_node_order (e_raw_state e))) (entry_counts e)"

definition entry_texts_ok :: "entry_core \<Rightarrow> bool" where
  "entry_texts_ok e \<longleftrightarrow>
     (let raw = e_raw_state e in
      e_custom_icon_id e \<noteq> Some 0 \<and> e_previous_parent e \<noteq> Some 0 \<and>
      tags_are_persistence_valid (e_tags e) \<and>
      (\<forall>key \<in> fst ` set (e_attributes e). key \<noteq> [] \<and> \<not> is_standard_entry_field_name key) \<and>
      (\<forall>(key, a) \<in> set (e_attachments e). key \<noteq> [] \<and> a_name a = key) \<and>
      raw_present_text_matches (e_foreground_color e) (er_foreground_color_raw raw) \<and>
      raw_present_text_matches (e_background_color e) (er_background_color_raw raw) \<and>
      raw_present_text_matches (e_override_url e) (er_override_url_raw raw) \<and>
      (\<forall>r. er_tags_raw raw = Some r \<longrightarrow> parse_tags r = e_tags e) \<and>
      e_location_changed_at e \<noteq> None \<and> (e_expires e \<longrightarrow> e_expiry_time e \<noteq> None) \<and>
      structured_totp_valid (e_totp e))"

definition entry_dates_ok :: "entry_core \<Rightarrow> bool" where
  "entry_dates_ok e \<longleftrightarrow>
     kdbx4_unsigned_time_ok (e_created_at e) \<and> kdbx4_unsigned_time_ok (e_modified_at e) \<and>
     (\<forall>t. e_expiry_time e = Some t \<longrightarrow> kdbx4_time_ok t) \<and>
     (\<forall>t. e_last_accessed_at e = Some t \<longrightarrow> kdbx4_unsigned_time_ok t) \<and>
     (\<forall>t. e_location_changed_at e = Some t \<longrightarrow> kdbx4_unsigned_time_ok t)"

definition quality_ok :: "entry_core \<Rightarrow> bool" where
  "quality_ok e \<longleftrightarrow>
     (\<forall>raw. er_quality_check_raw (e_raw_state e) = Some raw \<longrightarrow>
        parse_bool_text_strict raw = Some (\<not> e_exclude_from_reports e))"

definition strings_ok :: "entry_core \<Rightarrow> bool" where
  "strings_ok e \<longleftrightarrow>
     tracked_ok ''String'' (er_node_order (e_raw_state e)) (er_string_order (e_raw_state e)) (string_key_set e)"

definition attachment_slots_ok :: "entry_core \<Rightarrow> bool" where
  "attachment_slots_ok e \<longleftrightarrow>
     tracked_ok ''Binary'' (er_node_order (e_raw_state e)) (er_binary_order (e_raw_state e))
       (fst ` set (e_attachments e))"

definition live_ok :: "entry_core \<Rightarrow> bool" where
  "live_ok e \<longleftrightarrow>
     entry_texts_ok e \<and> plain_nodes_ok e \<and> strings_ok e \<and> attachment_slots_ok e \<and>
     custom_data_ok (e_custom_data e) (e_custom_data_blocks e) \<and> entry_dates_ok e \<and> quality_ok e"

text \<open>The tracked slots bound the recorded strings and attachments.\<close>

lemma tracked_bound:
  assumes "tracked_ok name order tracked (set keys)"
  shows "count_list order name \<le> length keys"
proof -
  have "length tracked = card (set tracked)" using assms by (simp add: tracked_ok_def distinct_card)
  also have "\<dots> \<le> card (set keys)" using assms by (intro card_mono) (auto simp: tracked_ok_def)
  also have "\<dots> \<le> length keys" by (rule card_length)
  finally show ?thesis using assms by (simp add: tracked_ok_def)
qed

lemma node_ok_split:
  assumes "\<forall>n \<in> names. \<exists>c. map_of emitted n = Some c \<and> count_list order n \<le> c"
    and "\<And>n. n \<in> set order \<Longrightarrow> n \<notin> names \<Longrightarrow> map_of emitted n = map_of rest n"
  shows "node_ok order emitted \<longleftrightarrow> node_ok (filter (\<lambda>n. n \<notin> names) order) rest"
proof -
  have "count_list (filter (\<lambda>n. n \<notin> names) order) n = count_list order n" if "n \<notin> names" for n
    using that by (induction order) auto
  then show ?thesis using assms by (auto simp: node_ok_def)
qed

lemma entry_counts_agree:
  assumes "n \<notin> {''String'', ''Binary''}"
    and "n = ''History'' \<Longrightarrow> should_emit_history (Entry e h) b = er_has_history_node (e_raw_state e)"
  shows "map_of (entry_emitted_node_counts (Entry e h) b) n = map_of (entry_counts e) n"
  using assms by (cases "n = ''History''") (auto simp: entry_emitted_node_counts_def entry_counts_def Let_def)

lemma counts_strings_binaries:
  assumes "strings_ok e" and "attachment_slots_ok e"
  shows "\<forall>n \<in> {''String'', ''Binary''}. \<exists>c. map_of (entry_emitted_node_counts (Entry e h) b) n = Some c \<and>
    count_list (er_node_order (e_raw_state e)) n \<le> c"
proof -
  let ?keys = "[''Title'', ''UserName'', ''Password'', ''URL'', ''Notes''] @
    map fst (mt_fields (materialize_entry_persistent_attributes e))"
  have "count_list (er_node_order (e_raw_state e)) ''String'' \<le> length ?keys"
    using assms(1) by (intro tracked_bound) (simp add: strings_ok_def string_key_set_def)
  moreover have "count_list (er_node_order (e_raw_state e)) ''Binary'' \<le> length (map fst (e_attachments e))"
    using assms(2) by (intro tracked_bound) (simp add: attachment_slots_ok_def)
  ultimately show ?thesis by (simp add: entry_emitted_node_counts_def Let_def)
qed

lemma entry_fields_iff:
  "entry_fields_valid (Entry e h) owner snap \<longleftrightarrow>
     (snap \<longrightarrow> e_id e = owner \<and> h = [] \<and> \<not> er_has_history_node (e_raw_state e)) \<and> entry_texts_ok e"
  unfolding entry_fields_valid_def entry_texts_ok_def Let_def
  by (auto simp: list_ex_iff split: option.splits)

lemma entry_times_iff [simp]: "entry_times_valid e = Inr u \<longleftrightarrow> entry_dates_ok e"
  by (simp add: entry_times_valid_def entry_dates_ok_def and_then_eq_Inr)

lemma quality_iff [simp]: "quality_check_valid e = Inr u \<longleftrightarrow> quality_ok e"
  by (cases "er_quality_check_raw (e_raw_state e)")
     (auto simp: quality_check_valid_def quality_ok_def and_then_eq_Inr ok_or_def split: option.splits)

lemma slots_iff:
  "entry_slots_valid (Entry e h) snap = Inr u \<longleftrightarrow>
     node_ok (er_node_order (e_raw_state e)) (entry_emitted_node_counts (Entry e h) (\<not> snap)) \<and>
     strings_ok e \<and> attachment_slots_ok e"
  by (simp add: entry_slots_valid_def Let_def and_then_eq_Inr strings_ok_def attachment_slots_ok_def
      entry_string_keys_def string_key_set_def set_bs_of_list insert_commute)

lemma history_recorded:
  assumes "plain_nodes_ok e" and "''History'' \<in> set (er_node_order (e_raw_state e))"
  shows "er_has_history_node (e_raw_state e)"
proof (rule ccontr)
  assume no: "\<not> er_has_history_node (e_raw_state e)"
  let ?order = "filter (\<lambda>n. n \<noteq> ''String'' \<and> n \<noteq> ''Binary'') (er_node_order (e_raw_state e))"
  have in_order: "''History'' \<in> set ?order" using assms(2) by simp
  then have "count_list ?order ''History'' \<noteq> 0" by (simp add: count_list_0_iff)
  moreover from assms(1) in_order obtain c where "map_of (entry_counts e) ''History'' = Some c"
    "count_list ?order ''History'' \<le> c" unfolding plain_nodes_ok_def node_ok_def by blast
  ultimately show False using no by (simp add: entry_counts_def Let_def of_bool_nat_def)
qed

lemma plain_nodes_iff:
  assumes "strings_ok e" and "attachment_slots_ok e"
    and "''History'' \<in> set (er_node_order (e_raw_state e)) \<Longrightarrow>
      should_emit_history (Entry e h) b = er_has_history_node (e_raw_state e)"
  shows "node_ok (er_node_order (e_raw_state e)) (entry_emitted_node_counts (Entry e h) b) \<longleftrightarrow> plain_nodes_ok e"
proof -
  have "node_ok (er_node_order (e_raw_state e)) (entry_emitted_node_counts (Entry e h) b) \<longleftrightarrow>
    node_ok (filter (\<lambda>n. n \<notin> {''String'', ''Binary''}) (er_node_order (e_raw_state e))) (entry_counts e)"
    using counts_strings_binaries [OF assms(1,2)] by (rule node_ok_split) (use assms(3) in \<open>auto intro: entry_counts_agree\<close>)
  then show ?thesis by (simp add: plain_nodes_ok_def)
qed

lemma entry_state_live:
  "validate_entry_state (Entry e h) owner False = Inr () \<and>
     (''History'' \<in> set (er_node_order (e_raw_state e)) \<longrightarrow> er_has_history_node (e_raw_state e)) \<longleftrightarrow> live_ok e"
proof (cases "''History'' \<in> set (er_node_order (e_raw_state e)) \<longrightarrow> er_has_history_node (e_raw_state e)")
  case True
  have "''History'' \<in> set (er_node_order (e_raw_state e)) \<Longrightarrow>
      should_emit_history (Entry e h) True = er_has_history_node (e_raw_state e)"
    using True by (simp add: should_emit_history_def)
  then show ?thesis
    using True plain_nodes_iff [of e h True]
    by (auto simp: validate_entry_state_def and_then_eq_Inr entry_fields_iff slots_iff live_ok_def)
qed (auto simp: live_ok_def dest: history_recorded)

lemma entry_state_snapshot:
  "validate_entry_state (Entry e h) owner True = Inr u \<longleftrightarrow>
     e_id e = owner \<and> h = [] \<and> \<not> er_has_history_node (e_raw_state e) \<and> live_ok e"
proof -
  have "should_emit_history (Entry e h) False \<longleftrightarrow> False" by (simp add: should_emit_history_def)
  then show ?thesis
    using plain_nodes_iff [of e h False]
    by (auto simp: validate_entry_state_def and_then_eq_Inr entry_fields_iff slots_iff live_ok_def)
qed

text \<open>An entry that can be written, whose \<open>History\<close> slot comes from the loader.\<close>

definition snapshot_ok :: "uuid \<Rightarrow> entry \<Rightarrow> bool" where
  "snapshot_ok owner s \<longleftrightarrow>
     e_id (e_core s) = owner \<and> e_history s = [] \<and> \<not> er_has_history_node (e_raw_state (e_core s)) \<and> live_ok (e_core s)"

definition entry_ok :: "entry \<Rightarrow> bool" where
  "entry_ok e \<longleftrightarrow> live_ok (e_core e) \<and> (\<forall>s \<in> set (e_history e). snapshot_ok (entry_id e) s)"

lemma validate_history_iff: "validate_history hs owner = Inr u \<longleftrightarrow> (\<forall>s \<in> set hs. snapshot_ok owner s)"
proof (induction hs)
  case (Cons s hs)
  have "validate_entry_model s owner True = Inr () \<longleftrightarrow> snapshot_ok owner s"
    by (cases s) (auto simp: and_then_eq_Inr entry_state_snapshot snapshot_ok_def)
  then show ?case using Cons.IH by (auto simp: and_then_eq_Inr)
qed simp

definition history_recorded_entry :: "entry \<Rightarrow> bool" where
  "history_recorded_entry e \<longleftrightarrow>
     (''History'' \<in> set (er_node_order (e_raw_state (e_core e))) \<longrightarrow> er_has_history_node (e_raw_state (e_core e)))"

lemma entry_ok_iff:
  "entry_ok e \<longleftrightarrow> validate_entry_model e owner False = Inr () \<and> history_recorded_entry e"
  using entry_state_live [of "e_core e" "e_history e" owner]
  by (cases e) (auto simp: and_then_eq_Inr validate_history_iff entry_ok_def history_recorded_entry_def)

section \<open>Removing nodes\<close>

lemma retain_other: "n \<noteq> name \<Longrightarrow> count_list (retain_keyed_nodes name tr k order) n = count_list order n"
  by (induction name tr k order rule: retain_keyed_nodes.induct) auto

lemma retain_subset: "set (retain_keyed_nodes name tr k order) \<subseteq> set order"
  by (induction name tr k order rule: retain_keyed_nodes.induct) auto

lemma filter_other_retain:
  "P name = False \<Longrightarrow> filter P (retain_keyed_nodes name tr k order) = filter P order"
  by (induction name tr k order rule: retain_keyed_nodes.induct) auto

lemma length_somes: "length (somes xs) = length (filter (\<lambda>x. x \<noteq> None) xs)"
  by (simp add: List.map_filter_def)

lemma retain_same:
  assumes "k + count_list order name = length tr"
  shows "count_list (retain_keyed_nodes name tr k order) name = length (somes (drop k tr))"
  using assms
proof (induction name tr k order rule: retain_keyed_nodes.induct)
  case (2 name tr k x xs)
  show ?case
  proof (cases "x = name")
    case True
    then have k: "k < length tr" using "2.prems" by simp
    then have d: "drop k tr = tr ! k # drop (Suc k) tr" by (simp add: Cons_nth_drop_Suc)
    show ?thesis
    proof (cases "tr ! k = None")
      case True
      have "count_list (retain_keyed_nodes name tr (Suc k) xs) name = length (somes (drop (Suc k) tr))"
        using "2.IH"(2) \<open>x = name\<close> k True "2.prems" by simp
      then show ?thesis using \<open>x = name\<close> k True d by (simp add: length_somes)
    next
      case False
      have "count_list (retain_keyed_nodes name tr (Suc k) xs) name = length (somes (drop (Suc k) tr))"
        using "2.IH"(3) \<open>x = name\<close> k False "2.prems" by simp
      then show ?thesis using \<open>x = name\<close> k False d by (auto simp: List.map_filter_simps)
    qed
  qed (use "2.IH"(1) "2.prems" in simp)
qed (simp add: length_somes)

lemma retain_none:
  assumes "set tr \<subseteq> {None}" and "k + count_list order name \<le> length tr"
  shows "retain_keyed_nodes name tr k order = filter (\<lambda>n. n \<noteq> name) order"
  using assms
proof (induction name tr k order rule: retain_keyed_nodes.induct)
  case (2 name tr k x xs)
  show ?case
  proof (cases "x = name")
    case True
    then have "k < length tr" using "2.prems"(2) by simp
    then have "tr ! k = None" using "2.prems"(1) nth_mem by blast
    then show ?thesis using True "2.IH"(2) "2.prems" \<open>k < length tr\<close> by simp
  qed (use "2.IH"(1) "2.prems" in simp)
qed simp

text \<open>What retargeting does to the tracked slots; fragments and blocks only change where they point.\<close>

lemma retarget_parts:
  "fi_node_order (retarget_keyed_known_nodes name old new renames s) =
     retain_keyed_nodes name (map (retained_identity renames new) (fi_tracked s)) 0 (fi_node_order s)"
  "fi_tracked (retarget_keyed_known_nodes name old new renames s) =
     somes (map (retained_identity renames new) (fi_tracked s))"
  "map cb_items (fi_blocks (retarget_keyed_known_nodes name old new renames s)) = map cb_items (fi_blocks s)"
  by (simp_all add: retarget_keyed_known_nodes_def Let_def)

lemma set_somes: "set (somes xs) = {x. Some x \<in> set xs}"
  by (auto simp: List.map_filter_def) force

lemma retained_plain [simp]: "retained_identity [] new x = (if x \<in> set new then Some x else None)"
  by (simp add: retained_identity_def renamed_identity_def)

lemma somes_retained:
  "somes (map (retained_identity renames new) xs) =
     filter (\<lambda>x. x \<in> set new) (map (renamed_identity renames) xs)"
  by (induction xs) (simp_all add: List.map_filter_simps retained_identity_def Let_def)

lemma somes_retained_plain: "somes (map (retained_identity [] new) xs) = filter (\<lambda>x. x \<in> set new) xs"
  by (induction xs) (simp_all add: List.map_filter_simps)

lemma tracked_retarget:
  assumes "tracked_ok name (fi_node_order s) (fi_tracked s) current"
    and "inj_on (renamed_identity renames) (set (fi_tracked s))"
  shows "tracked_ok name (fi_node_order (retarget_keyed_known_nodes name old new renames s))
    (fi_tracked (retarget_keyed_known_nodes name old new renames s)) (set new)"
proof -
  let ?m = "map (retained_identity renames new) (fi_tracked s)"
  have "count_list (retain_keyed_nodes name ?m 0 (fi_node_order s)) name = length (somes ?m)"
    using retain_same [of 0 "fi_node_order s" name ?m] assms(1) by (simp add: tracked_ok_def)
  moreover have "distinct (somes ?m) \<and> set (somes ?m) \<subseteq> set new"
    using assms by (auto simp: tracked_ok_def distinct_map somes_retained)
  ultimately show ?thesis by (simp add: tracked_ok_def retarget_parts)
qed

section \<open>Changing an entry\<close>

lemma overlay_keys:
  "fst ` set (overlay_totp_projection m e t) =
     fst ` set (filter (\<lambda>p. \<not> is_totp_persistent_attribute_key (fst p)) m) \<union>
     {''otp'', ''TimeOtp-Secret-Base32'', ''TimeOtp-Algorithm'', ''TimeOtp-Length'', ''TimeOtp-Period''}"
  unfolding overlay_totp_projection_def fst_set_bt_extend by (simp add: totp_overlay_fields_def)

lemma fst_filter_keys: "fst ` set (filter (\<lambda>p. P (fst p)) m) = {k \<in> fst ` set m. P k}"
  by auto

lemma protect_keys_set [simp]: "fst ` set (protect_keys p m) = fst ` set m"
  by (metis keys_protect_keys list.set_map)

lemma string_key_cong:
  assumes "e_attributes e' = e_attributes e" and "e_totp e' = e_totp e" and "e_passkey e' = e_passkey e"
  shows "string_key_set e' = string_key_set e"
proof -
  have overlay: "fst ` set (overlay_totp_projection m e' t) = fst ` set (overlay_totp_projection m e t)" for m t
    by (simp only: overlay_keys)
  have stage: "fst ` set (totp_stage e') = fst ` set (totp_stage e)"
    unfolding totp_stage_def effective_totp_def using assms
    by (simp add: overlay split: option.split)
  have "fst ` set (mt_fields (materialize_entry_persistent_attributes e')) =
      fst ` set (mt_fields (materialize_entry_persistent_attributes e))"
    unfolding materialize_alt effective_passkey_def using assms stage
    by (simp add: fst_set_bt_extend fst_filter_keys [where P = "\<lambda>k. \<not> is_passkey_persistent_attribute_key k"]
        del: set_filter split: option.split)
  then show ?thesis by (simp add: string_key_set_def)
qed

lemma strings_ok_cong:
  assumes "strings_ok e" and "e_attributes e' = e_attributes e" and "e_totp e' = e_totp e"
    and "e_passkey e' = e_passkey e"
    and "count_list (er_node_order (e_raw_state e')) ''String'' = count_list (er_node_order (e_raw_state e)) ''String''"
    and "er_string_order (e_raw_state e') = er_string_order (e_raw_state e)"
  shows "strings_ok e'"
  using assms(1,5,6) string_key_cong [OF assms(2-4)] by (simp add: strings_ok_def tracked_ok_def)

lemma count_filter_other: "P x \<Longrightarrow> count_list (filter P xs) x = count_list xs x"
  by (induction xs) auto

lemma node_ok_subset:
  assumes "node_ok order emitted" and "set order' \<subseteq> set order"
    and "\<And>n c. n \<in> set order' \<Longrightarrow> map_of emitted n = Some c \<Longrightarrow> count_list order n \<le> c \<Longrightarrow>
      \<exists>c'. map_of emitted' n = Some c' \<and> count_list order' n \<le> c'"
  shows "node_ok order' emitted'"
  using assms unfolding node_ok_def by (metis subsetD)

lemma plain_nodes_change:
  assumes "plain_nodes_ok e" and "er_node_order (e_raw_state e') = er_node_order (e_raw_state e)"
    and "\<And>n c. n \<in> set (er_node_order (e_raw_state e)) \<Longrightarrow> map_of (entry_counts e) n = Some c \<Longrightarrow>
      \<exists>c' \<ge> c. map_of (entry_counts e') n = Some c'"
  shows "plain_nodes_ok e'"
proof -
  let ?o = "filter (\<lambda>n. n \<noteq> ''String'' \<and> n \<noteq> ''Binary'') (er_node_order (e_raw_state e))"
  have "node_ok ?o (entry_counts e')"
    using assms(1) unfolding plain_nodes_ok_def
  proof (rule node_ok_subset [OF _ subset_refl])
    fix n c assume n: "n \<in> set ?o" "map_of (entry_counts e) n = Some c" "count_list ?o n \<le> c"
    then have "n \<in> set (er_node_order (e_raw_state e))" by simp
    from assms(3) [OF this n(2)] obtain c' where "c \<le> c'" "map_of (entry_counts e') n = Some c'" by blast
    then show "\<exists>c'. map_of (entry_counts e') n = Some c' \<and> count_list ?o n \<le> c'" using n(3) by auto
  qed
  then show ?thesis by (simp add: plain_nodes_ok_def assms(2))
qed

lemma absent_node:
  assumes "plain_nodes_ok e" and "map_of (entry_counts e) n = Some 0" and "n \<noteq> ''String''" and "n \<noteq> ''Binary''"
  shows "n \<notin> set (er_node_order (e_raw_state e))"
proof
  assume "n \<in> set (er_node_order (e_raw_state e))"
  then have in_order: "n \<in> set (filter (\<lambda>n. n \<noteq> ''String'' \<and> n \<noteq> ''Binary'') (er_node_order (e_raw_state e)))" (is "_ \<in> set ?o")
    using assms(3,4) by simp
  then have "count_list ?o n \<noteq> 0" by (simp add: count_list_0_iff)
  then show False using assms(1,2) in_order unfolding plain_nodes_ok_def node_ok_def by fastforce
qed

lemma removed_node_order:
  "fi_node_order (retarget_removed_known_node name order opaque blocks) = filter (\<lambda>n. n \<noteq> name) order"
proof -
  have "set (map (retained_identity [] []) (map (\<lambda>_. ()) (filter (\<lambda>x. x = name) order))) \<subseteq> {None}" by auto
  then show ?thesis
    unfolding retarget_removed_known_node_def retarget_parts fidelity.select_convs
    by (rule retain_none) (simp add: length_filter_count)
qed

lemma removed_node_items:
  "map cb_items (fi_blocks (retarget_removed_known_node name order opaque blocks)) = map cb_items blocks"
  unfolding retarget_removed_known_node_def retarget_parts by simp

lemma same_items:
  assumes "map cb_items bs' = map cb_items bs"
  shows "all_items bs' = all_items bs" "custom_data_ok m bs' = custom_data_ok m bs"
    "custom_data_emitted_count bs' m = custom_data_emitted_count bs m"
proof -
  show items: "all_items bs' = all_items bs" using assms by (simp add: all_items_def)
  show "custom_data_ok m bs' = custom_data_ok m bs"
    by (simp add: custom_data_ok_def merge_custom_data_blocks_def items)
  show "custom_data_emitted_count bs' m = custom_data_emitted_count bs m"
    using assms by (auto simp: custom_data_emitted_count_def dest: map_eq_imp_length_eq)
qed

text \<open>The entry with other slots, fragments and block positions.\<close>

lemma remove_entry_node_parts:
  obtains opaque blocks where
    "remove_entry_node name e =
       e\<lparr>e_raw_state := (e_raw_state e)\<lparr>er_node_order := filter (\<lambda>n. n \<noteq> name) (er_node_order (e_raw_state e))\<rparr>,
         e_opaque_xml := opaque, e_custom_data_blocks := blocks\<rparr>"
    "map cb_items blocks = map cb_items (e_custom_data_blocks e)"
  by (rule that [of "fi_blocks (retarget_removed_known_node name (er_node_order (e_raw_state e)) (e_opaque_xml e)
          (e_custom_data_blocks e))" "fi_opaque_xml (retarget_removed_known_node name (er_node_order (e_raw_state e))
          (e_opaque_xml e) (e_custom_data_blocks e))", OF _ removed_node_items])
     (simp add: remove_entry_node_def Let_def removed_node_order)

lemma live_ok_remove:
  assumes "live_ok e" and "name \<noteq> ''String''" and "name \<noteq> ''Binary''"
  shows "live_ok (remove_entry_node name e)"
proof -
  obtain opaque blocks where r: "remove_entry_node name e =
       e\<lparr>e_raw_state := (e_raw_state e)\<lparr>er_node_order := filter (\<lambda>n. n \<noteq> name) (er_node_order (e_raw_state e))\<rparr>,
         e_opaque_xml := opaque, e_custom_data_blocks := blocks\<rparr>"
    and items: "map cb_items blocks = map cb_items (e_custom_data_blocks e)"
    by (rule remove_entry_node_parts)
  let ?e = "remove_entry_node name e"
  have counts: "entry_counts ?e = entry_counts e"
    by (simp add: r entry_counts_def Let_def same_items [OF items])
  have "plain_nodes_ok ?e"
  proof -
    have "node_ok (filter (\<lambda>n. n \<noteq> ''String'' \<and> n \<noteq> ''Binary'') (er_node_order (e_raw_state e))) (entry_counts e)"
      using assms(1) by (simp add: live_ok_def plain_nodes_ok_def)
    then have "node_ok (filter (\<lambda>n. n \<noteq> ''String'' \<and> n \<noteq> ''Binary'') (er_node_order (e_raw_state ?e))) (entry_counts e)"
      by (rule node_ok_subset) (auto simp: r count_filter_other)
    then show ?thesis by (simp add: plain_nodes_ok_def counts)
  qed
  moreover have "strings_ok ?e"
    by (rule strings_ok_cong [of e]) (use assms in \<open>auto simp: r live_ok_def count_filter_other\<close>)
  moreover have "attachment_slots_ok ?e"
    using assms by (simp add: live_ok_def attachment_slots_ok_def tracked_ok_def r count_filter_other)
  ultimately show ?thesis
    using assms(1) by (simp add: live_ok_def r entry_texts_ok_def Let_def entry_dates_ok_def quality_ok_def same_items [OF items])
qed

text \<open>A change that leaves attributes, credentials, attachments, custom data and slots alone has to keep
  the texts, the counts of the emitted nodes, the dates and the quality check.\<close>

lemma live_ok_change:
  assumes "live_ok e"
    and "e_attributes e' = e_attributes e" "e_totp e' = e_totp e" "e_passkey e' = e_passkey e"
    and "e_attachments e' = e_attachments e" "e_custom_data e' = e_custom_data e"
    and "e_custom_data_blocks e' = e_custom_data_blocks e"
    and "er_node_order (e_raw_state e') = er_node_order (e_raw_state e)"
    and "er_string_order (e_raw_state e') = er_string_order (e_raw_state e)"
    and "er_binary_order (e_raw_state e') = er_binary_order (e_raw_state e)"
    and "entry_texts_ok e \<Longrightarrow> entry_texts_ok e'"
    and "entry_dates_ok e \<Longrightarrow> entry_dates_ok e'"
    and "quality_ok e \<Longrightarrow> quality_ok e'"
    and "\<And>n c. n \<in> set (er_node_order (e_raw_state e)) \<Longrightarrow> map_of (entry_counts e) n = Some c \<Longrightarrow>
      \<exists>c' \<ge> c. map_of (entry_counts e') n = Some c'"
  shows "live_ok e'"
proof -
  have "plain_nodes_ok e" using assms(1) by (simp add: live_ok_def)
  then have "plain_nodes_ok e'" using assms(8,14) by (rule plain_nodes_change)
  moreover have "strings_ok e'"
    by (rule strings_ok_cong [of e]) (use assms(1-4,8,9) in \<open>simp_all add: live_ok_def\<close>)
  ultimately show ?thesis using assms(1,5-8,10-13) by (simp add: live_ok_def attachment_slots_ok_def)
qed

lemmas entry_state_defs = entry_texts_ok_def entry_dates_ok_def quality_ok_def entry_counts_def Let_def

lemma live_ok_neutral [simp]:
  assumes "live_ok e"
  shows "live_ok (e\<lparr>e_title := x\<rparr>)" "live_ok (e\<lparr>e_username := x\<rparr>)" "live_ok (e\<lparr>e_password := x\<rparr>)"
    "live_ok (e\<lparr>e_url := x\<rparr>)" "live_ok (e\<lparr>e_notes := x\<rparr>)" "live_ok (e\<lparr>e_usage_count := n\<rparr>)"
    "live_ok (e\<lparr>e_field_protection := p\<rparr>)"
  using assms by (auto intro!: live_ok_change [OF assms] simp: entry_state_defs)

lemma of_bool_nat_simps [simp]: "of_bool_nat True = 1" "of_bool_nat False = 0"
  by (simp_all add: of_bool_nat_def)

lemma of_bool_nat_le [simp]: "of_bool_nat b \<le> Suc 0"
  by (simp add: of_bool_nat_def)

lemma live_ok_icon:
  assumes "live_ok e" and "''IconID'' \<in> set (er_node_order (e_raw_state e)) \<longrightarrow> x \<noteq> None"
  shows "live_ok (e\<lparr>e_icon_id := x\<rparr>)"
  using assms(2) by (intro live_ok_change [OF assms(1)]) (auto simp: entry_state_defs split: if_splits)

lemma live_ok_custom_icon:
  assumes "live_ok e" and "''CustomIconUUID'' \<in> set (er_node_order (e_raw_state e)) \<longrightarrow> x \<noteq> None" and "x \<noteq> Some 0"
  shows "live_ok (e\<lparr>e_custom_icon_id := x\<rparr>)"
  using assms(2,3) by (intro live_ok_change [OF assms(1)]) (auto simp: entry_state_defs split: if_splits)


lemma live_ok_foreground:
  assumes "live_ok e" and "''ForegroundColor'' \<in> set (er_node_order (e_raw_state e)) \<longrightarrow> x \<noteq> None"
  shows "live_ok (e\<lparr>e_foreground_color := x, e_raw_state := (e_raw_state e)\<lparr>er_foreground_color_raw := None\<rparr>\<rparr>)"
  using assms(2) by (intro live_ok_change [OF assms(1)])
    (auto simp: entry_state_defs raw_present_text_matches_def split: if_splits)

lemma live_ok_background:
  assumes "live_ok e" and "''BackgroundColor'' \<in> set (er_node_order (e_raw_state e)) \<longrightarrow> x \<noteq> None"
  shows "live_ok (e\<lparr>e_background_color := x, e_raw_state := (e_raw_state e)\<lparr>er_background_color_raw := None\<rparr>\<rparr>)"
  using assms(2) by (intro live_ok_change [OF assms(1)])
    (auto simp: entry_state_defs raw_present_text_matches_def split: if_splits)

lemma live_ok_override_url:
  assumes "live_ok e" and "''OverrideURL'' \<in> set (er_node_order (e_raw_state e)) \<longrightarrow> x \<noteq> None"
  shows "live_ok (e\<lparr>e_override_url := x, e_raw_state := (e_raw_state e)\<lparr>er_override_url_raw := None\<rparr>\<rparr>)"
  using assms(2) by (intro live_ok_change [OF assms(1)])
    (auto simp: entry_state_defs raw_present_text_matches_def split: if_splits)

lemma live_ok_previous_parent:
  assumes "live_ok e" and "''PreviousParentGroup'' \<in> set (er_node_order (e_raw_state e)) \<longrightarrow> x \<noteq> None" and "x \<noteq> Some 0"
  shows "live_ok (e\<lparr>e_previous_parent := x\<rparr>)"
  using assms(2,3) by (intro live_ok_change [OF assms(1)]) (auto simp: entry_state_defs split: if_splits)

lemma live_ok_quality:
  assumes "live_ok e" and "''QualityCheck'' \<in> set (er_node_order (e_raw_state e)) \<longrightarrow> x"
  shows "live_ok (e\<lparr>e_exclude_from_reports := x, e_raw_state := (e_raw_state e)\<lparr>er_quality_check_raw := None\<rparr>\<rparr>)"
  using assms(2) by (intro live_ok_change [OF assms(1)]) (auto simp: entry_state_defs split: if_splits)

lemma live_ok_tags:
  assumes "live_ok e" and "''Tags'' \<in> set (er_node_order (e_raw_state e)) \<longrightarrow> tags \<noteq> []"
    and "tags_are_persistence_valid tags"
  shows "live_ok (e\<lparr>e_tags := bs_of_list tags, e_raw_state := (e_raw_state e)\<lparr>er_tags_raw := None\<rparr>\<rparr>)"
proof -
  have "bs_of_list tags \<noteq> [] \<longleftrightarrow> tags \<noteq> []" by (metis set_bs_of_list set_empty)
  then show ?thesis
    using assms(2,3) by (intro live_ok_change [OF assms(1)])
      (auto simp: entry_state_defs tags_are_persistence_valid_def list_all_iff split: if_splits)
qed

lemma live_ok_auto_type: "live_ok e \<Longrightarrow> live_ok (e\<lparr>e_auto_type := Some a\<rparr>)"
  by (rule live_ok_change) (auto simp: entry_state_defs split: if_splits)

lemma live_ok_expiry:
  assumes "live_ok e" and "b \<longrightarrow> x \<noteq> None" and "\<And>t. x = Some t \<Longrightarrow> kdbx4_time_ok t"
  shows "live_ok (e\<lparr>e_expires := b, e_expiry_time := x\<rparr>)"
  using assms(2,3) by (intro live_ok_change [OF assms(1)]) (auto simp: entry_state_defs)

lemma live_ok_created: "live_ok e \<Longrightarrow> kdbx4_unsigned_time_ok t \<Longrightarrow> live_ok (e\<lparr>e_created_at := t\<rparr>)"
  and live_ok_modified: "live_ok e \<Longrightarrow> kdbx4_unsigned_time_ok t \<Longrightarrow> live_ok (e\<lparr>e_modified_at := t\<rparr>)"
  and live_ok_accessed: "live_ok e \<Longrightarrow> (\<And>t. x = Some t \<Longrightarrow> kdbx4_unsigned_time_ok t) \<Longrightarrow> live_ok (e\<lparr>e_last_accessed_at := x\<rparr>)"
  and live_ok_location: "live_ok e \<Longrightarrow> kdbx4_unsigned_time_ok t \<Longrightarrow> live_ok (e\<lparr>e_location_changed_at := Some t\<rparr>)"
  by (erule live_ok_change; simp add: entry_state_defs)+

text \<open>Removing a node when the value it stands for goes.\<close>

lemma live_ok_dropped:
  fixes present gone :: bool
  assumes "live_ok e" and "\<not> present \<Longrightarrow> map_of (entry_counts e) name = Some 0"
    and "name \<noteq> ''String''" and "name \<noteq> ''Binary''"
  defines "e' \<equiv> if present \<and> gone then remove_entry_node name e else e"
  shows "live_ok e'" and "name \<in> set (er_node_order (e_raw_state e')) \<longrightarrow> \<not> gone"
proof -
  show "live_ok e'" using assms live_ok_remove by auto
  show "name \<in> set (er_node_order (e_raw_state e')) \<longrightarrow> \<not> gone"
  proof (cases "present \<and> gone")
    case True
    obtain opaque blocks where "remove_entry_node name e =
       e\<lparr>e_raw_state := (e_raw_state e)\<lparr>er_node_order := filter (\<lambda>n. n \<noteq> name) (er_node_order (e_raw_state e))\<rparr>,
         e_opaque_xml := opaque, e_custom_data_blocks := blocks\<rparr>" by (rule remove_entry_node_parts)
    then show ?thesis using True by (simp add: e'_def)
  next
    case False
    then show ?thesis using absent_node [of e name] assms by (auto simp: e'_def live_ok_def)
  qed
qed

lemma live_ok_setters:
  assumes "live_ok e"
  shows "live_ok (set_icon_id icon e)" and "live_ok (set_foreground_color x e)"
    and "live_ok (set_background_color x e)" and "live_ok (set_override_url x e)"
    and "live_ok (set_exclude_from_reports b e)" and "live_ok (clear_previous_parent e)"
    and "i \<noteq> Some 0 \<Longrightarrow> live_ok (set_entry_custom_icon i e)"
    and "tags_are_persistence_valid tags \<Longrightarrow> live_ok (set_tags tags e)"
proof -
  note side = entry_counts_def Let_def of_bool_nat_def
  show "live_ok (set_icon_id icon e)"
    unfolding set_icon_id_def by (rule live_ok_icon; rule live_ok_dropped [OF assms]) (simp_all add: side)
  show "live_ok (set_foreground_color x e)"
    unfolding set_foreground_color_def Let_def
    by (rule live_ok_foreground; rule live_ok_dropped [OF assms]) (simp_all add: side)
  show "live_ok (set_background_color x e)"
    unfolding set_background_color_def Let_def
    by (rule live_ok_background; rule live_ok_dropped [OF assms]) (simp_all add: side)
  show "live_ok (set_override_url x e)"
    unfolding set_override_url_def Let_def
    by (rule live_ok_override_url; rule live_ok_dropped [OF assms]) (simp_all add: side)
  note q = live_ok_dropped [OF assms, where gone = "\<not> b" and name = "''QualityCheck''" and
      present = "e_exclude_from_reports e \<or> er_quality_check_raw (e_raw_state e) \<noteq> None"]
  show "live_ok (set_exclude_from_reports b e)"
    unfolding set_exclude_from_reports_def Let_def
    by (rule live_ok_quality, rule q(1)) (use q(2) in \<open>simp_all add: side\<close>)
  note p = live_ok_dropped [OF assms, where gone = True and name = "''PreviousParentGroup''" and
      present = "e_previous_parent e \<noteq> None"]
  show "live_ok (clear_previous_parent e)"
    unfolding clear_previous_parent_def
    by (rule live_ok_previous_parent) (use p in \<open>simp_all add: side\<close>)
  show "live_ok (set_entry_custom_icon i e)" if "i \<noteq> Some 0"
    unfolding set_entry_custom_icon_def
    by (rule live_ok_custom_icon [OF _ _ that]; rule live_ok_dropped [OF assms]) (simp_all add: side)
  show "live_ok (set_tags tags e)" if "tags_are_persistence_valid tags"
    unfolding set_tags_def Let_def
    by (rule live_ok_tags [OF _ _ that]; rule live_ok_dropped [OF assms]) (simp_all add: side)
qed

end
