(* ===== verification/SaveableEntry.thy ===== *)
theory SaveableEntry
  imports Saveable
begin

text \<open>
  Every change that an entry mutation makes keeps the entry writable: strings and attachments with their
  tracked slots, custom data with its blocks, history snapshots.
\<close>

section \<open>Strings and attachments\<close>

lemma set_ordered_identities: "set (ordered_identities tracked rest acc) = set acc \<union> set rest"
  by (induction tracked rest acc rule: ordered_identities.induct) auto

lemma set_entry_string_identities: "set (entry_string_identities e) = string_key_set e"
  by (auto simp: entry_string_identities_def set_ordered_identities string_keys_def string_key_set_def)

lemma set_entry_binary_identities: "set (entry_binary_identities e) = fst ` set (e_attachments e)"
  by (simp add: entry_binary_identities_def set_ordered_identities)

text \<open>An entry with new slots for strings or attachments.\<close>

lemma retargeted_entry:
  assumes slots: "s = retarget_keyed_known_nodes name old new renames
      \<lparr>fi_node_order = er_node_order (e_raw_state e), fi_tracked = tracked,
       fi_opaque_xml = e_opaque_xml e, fi_blocks = e_custom_data_blocks e\<rparr>"
    and name: "name = ''String'' \<or> name = ''Binary''"
    and e': "er_node_order (e_raw_state e') = fi_node_order s" "e_custom_data_blocks e' = fi_blocks s"
      "entry_counts (e'\<lparr>e_custom_data_blocks := e_custom_data_blocks e\<rparr>) = entry_counts e"
    and "plain_nodes_ok e"
  shows "plain_nodes_ok e'" and "custom_data_ok m (e_custom_data_blocks e') = custom_data_ok m (e_custom_data_blocks e)"
    and "n \<noteq> name \<Longrightarrow> count_list (er_node_order (e_raw_state e')) n = count_list (er_node_order (e_raw_state e)) n"
proof -
  have items: "map cb_items (e_custom_data_blocks e') = map cb_items (e_custom_data_blocks e)"
    by (simp add: e' slots retarget_parts)
  have "entry_counts e' = entry_counts (e'\<lparr>e_custom_data_blocks := e_custom_data_blocks e\<rparr>)"
    by (simp add: entry_counts_def Let_def same_items [OF items])
  then have counts: "entry_counts e' = entry_counts e" using e'(3) by simp
  have "filter (\<lambda>n. n \<noteq> ''String'' \<and> n \<noteq> ''Binary'') (er_node_order (e_raw_state e')) =
      filter (\<lambda>n. n \<noteq> ''String'' \<and> n \<noteq> ''Binary'') (er_node_order (e_raw_state e))"
    using name by (simp add: e' slots retarget_parts) (auto intro: filter_other_retain)
  then show "plain_nodes_ok e'" using assms(6) by (simp add: plain_nodes_ok_def counts)
  show "custom_data_ok m (e_custom_data_blocks e') = custom_data_ok m (e_custom_data_blocks e)"
    by (rule same_items [OF items])
  show "n \<noteq> name \<Longrightarrow> count_list (er_node_order (e_raw_state e')) n = count_list (er_node_order (e_raw_state e)) n"
    by (simp add: e' slots retarget_parts retain_other)
qed

text \<open>The change \<open>f\<close> of attributes or credentials that \<open>change_strings\<close> surrounds.\<close>

lemma live_ok_change_strings:
  assumes "live_ok e"
    and f: "e_raw_state (f e) = e_raw_state e" "e_custom_data_blocks (f e) = e_custom_data_blocks e"
      "e_opaque_xml (f e) = e_opaque_xml e" "e_attachments (f e) = e_attachments e"
      "e_custom_data (f e) = e_custom_data e"
    and "entry_counts (f e) = entry_counts e" and "entry_texts_ok (f e)"
    and "entry_dates_ok (f e) = entry_dates_ok e" and "quality_ok (f e) = quality_ok e"
  shows "live_ok (change_strings f e)"
proof -
  let ?new = "entry_string_identities (f e)"
  define s where "s = retarget_keyed_known_nodes ''String'' (entry_string_identities e) ?new []
    \<lparr>fi_node_order = er_node_order (e_raw_state e), fi_tracked = er_string_order (e_raw_state e),
     fi_opaque_xml = e_opaque_xml e, fi_blocks = e_custom_data_blocks e\<rparr>"
  define e' where "e' = (f e)\<lparr>e_raw_state := (e_raw_state e)\<lparr>er_node_order := fi_node_order s, er_string_order := fi_tracked s\<rparr>,
    e_opaque_xml := fi_opaque_xml s, e_custom_data_blocks := fi_blocks s\<rparr>"
  have e': "change_strings f e = e'"
    by (simp add: Let_def change_strings_def retarget_strings_def e'_def s_def f)
  have slots: "plain_nodes_ok e'" "custom_data_ok m (e_custom_data_blocks e') = custom_data_ok m (e_custom_data_blocks e)"
    "n \<noteq> ''String'' \<Longrightarrow> count_list (er_node_order (e_raw_state e')) n = count_list (er_node_order (e_raw_state e)) n" for m n
  proof -
    have counts: "entry_counts (e'\<lparr>e_custom_data_blocks := e_custom_data_blocks e\<rparr>) = entry_counts e"
      unfolding assms(7) [symmetric] by (simp add: e'_def entry_counts_def Let_def f)
    have "plain_nodes_ok e" using assms(1) by (simp add: live_ok_def)
    note R = retargeted_entry [OF s_def _ _ _ counts this]
    show "plain_nodes_ok e'" by (rule R(1)) (simp_all add: e'_def)
    show "custom_data_ok m (e_custom_data_blocks e') = custom_data_ok m (e_custom_data_blocks e)"
      by (rule R(2)) (simp_all add: e'_def)
    show "n \<noteq> ''String'' \<Longrightarrow> count_list (er_node_order (e_raw_state e')) n = count_list (er_node_order (e_raw_state e)) n"
      by (rule R(3)) (simp_all add: e'_def)
  qed
  have "tracked_ok ''String'' (fi_node_order s) (fi_tracked s) (set ?new)"
    unfolding s_def
  proof (rule tracked_retarget)
    show "tracked_ok ''String'' (fi_node_order \<lparr>fi_node_order = er_node_order (e_raw_state e),
        fi_tracked = er_string_order (e_raw_state e), fi_opaque_xml = e_opaque_xml e,
        fi_blocks = e_custom_data_blocks e\<rparr>) (fi_tracked \<lparr>fi_node_order = er_node_order (e_raw_state e),
        fi_tracked = er_string_order (e_raw_state e), fi_opaque_xml = e_opaque_xml e,
        fi_blocks = e_custom_data_blocks e\<rparr>) (string_key_set e)"
      using assms(1) by (simp add: live_ok_def strings_ok_def)
  qed (auto simp: inj_on_def renamed_identity_def)
  moreover have "string_key_set e' = string_key_set (f e)"
    by (rule string_key_cong) (simp_all add: e'_def)
  ultimately have "strings_ok e'"
    by (simp add: strings_ok_def set_entry_string_identities) (simp add: e'_def)
  moreover have "attachment_slots_ok e'"
    using assms(1) slots(3) [of "''Binary''"]
    by (simp add: live_ok_def attachment_slots_ok_def tracked_ok_def) (simp add: e'_def f)
  moreover have "entry_texts_ok e'" using assms(8) by (simp add: e'_def entry_texts_ok_def Let_def f)
  moreover have "entry_dates_ok e'"
    using assms(1,9) by (simp add: live_ok_def) (simp add: e'_def entry_dates_ok_def)
  moreover have "quality_ok e'"
    using assms(1,10) by (simp add: live_ok_def) (simp add: e'_def quality_ok_def f)
  moreover have "custom_data_ok (e_custom_data e') (e_custom_data_blocks e')"
    using assms(1) by (simp add: slots(2) live_ok_def) (simp add: e'_def f)
  ultimately show ?thesis using slots(1) by (simp add: e' live_ok_def)
qed

text \<open>The same for a change of the attachments.\<close>

lemma live_ok_change_binaries:
  assumes "live_ok e"
    and "\<And>key a. (key, a) \<in> set m \<Longrightarrow> key \<noteq> [] \<and> a_name a = key"
    and "inj_on (renamed_identity renames) (fst ` set (e_attachments e))"
  defines "e1 \<equiv> e\<lparr>e_attachments := m\<rparr>"
  shows "live_ok (retarget_binaries old (entry_binary_identities e1) renames e1)"
proof -
  define s where "s = retarget_keyed_known_nodes ''Binary'' old (entry_binary_identities e1) renames
    \<lparr>fi_node_order = er_node_order (e_raw_state e), fi_tracked = er_binary_order (e_raw_state e),
     fi_opaque_xml = e_opaque_xml e, fi_blocks = e_custom_data_blocks e\<rparr>"
  define e' where "e' = e1\<lparr>e_raw_state := (e_raw_state e)\<lparr>er_node_order := fi_node_order s, er_binary_order := fi_tracked s\<rparr>,
    e_opaque_xml := fi_opaque_xml s, e_custom_data_blocks := fi_blocks s\<rparr>"
  have e': "retarget_binaries old (entry_binary_identities e1) renames e1 = e'"
    by (simp add: Let_def retarget_binaries_def e'_def s_def e1_def)
  have slots: "plain_nodes_ok e'" "custom_data_ok m (e_custom_data_blocks e') = custom_data_ok m (e_custom_data_blocks e)"
    "n \<noteq> ''Binary'' \<Longrightarrow> count_list (er_node_order (e_raw_state e')) n = count_list (er_node_order (e_raw_state e)) n" for m n
  proof -
    have counts: "entry_counts (e'\<lparr>e_custom_data_blocks := e_custom_data_blocks e\<rparr>) = entry_counts e"
      by (simp add: e'_def e1_def entry_counts_def Let_def)
    have "plain_nodes_ok e" using assms(1) by (simp add: live_ok_def)
    note R = retargeted_entry [OF s_def _ _ _ counts this]
    show "plain_nodes_ok e'" by (rule R(1)) (simp_all add: e'_def)
    show "custom_data_ok m (e_custom_data_blocks e') = custom_data_ok m (e_custom_data_blocks e)"
      by (rule R(2)) (simp_all add: e'_def)
    show "n \<noteq> ''Binary'' \<Longrightarrow> count_list (er_node_order (e_raw_state e')) n = count_list (er_node_order (e_raw_state e)) n"
      by (rule R(3)) (simp_all add: e'_def)
  qed
  have old: "tracked_ok ''Binary'' (er_node_order (e_raw_state e)) (er_binary_order (e_raw_state e)) (fst ` set (e_attachments e))"
    using assms(1) by (simp add: live_ok_def attachment_slots_ok_def)
  have "tracked_ok ''Binary'' (fi_node_order s) (fi_tracked s) (set (entry_binary_identities e1))"
    unfolding s_def
    by (rule tracked_retarget [where current = "fst ` set (e_attachments e)"])
       (use old assms(3) in \<open>auto simp: tracked_ok_def intro: inj_on_subset\<close>)
  then have "attachment_slots_ok e'"
    by (simp add: attachment_slots_ok_def set_entry_binary_identities) (simp add: e'_def e1_def)
  moreover have "strings_ok e'"
  proof (rule strings_ok_cong)
    show "strings_ok e" using assms(1) by (simp add: live_ok_def)
    show "count_list (er_node_order (e_raw_state e')) ''String'' = count_list (er_node_order (e_raw_state e)) ''String''"
      by (rule slots(3)) simp
  qed (simp_all add: e'_def e1_def)
  moreover have "entry_texts_ok e'"
  proof -
    have "\<forall>(key, a) \<in> set m. key \<noteq> [] \<and> a_name a = key" using assms(2) by blast
    moreover have "entry_texts_ok e" using assms(1) by (simp add: live_ok_def)
    ultimately show ?thesis unfolding entry_texts_ok_def Let_def by (simp add: e'_def e1_def)
  qed
  moreover have "entry_dates_ok e'" "quality_ok e'"
    using assms(1) by (simp_all add: live_ok_def e'_def e1_def entry_dates_ok_def quality_ok_def)
  moreover have "custom_data_ok (e_custom_data e') (e_custom_data_blocks e')"
    using assms(1) by (simp add: slots(2) live_ok_def) (simp add: e'_def e1_def)
  ultimately show ?thesis using slots(1) by (simp add: e' live_ok_def)
qed

end
