(* ===== verification/SaveableData.thy ===== *)
theory SaveableData
  imports SaveableEntry
begin

text \<open>
  Custom data with its blocks, history snapshots, and the entry mutations: every one of them takes a
  writable entry to a writable entry.
\<close>

section \<open>Custom data\<close>

lemma reconciled_custom_data:
  assumes "custom_data_ok m blocks" and "bt_wf m'" and "[] \<notin> fst ` set m'"
    and "\<And>key t. u = Some (key, Some t) \<Longrightarrow> kdbx4_time_ok t"
    and "count_list order ''CustomData'' \<le> custom_data_emitted_count blocks m"
    and res: "reconcile_custom_data_blocks blocks opaque order m' u = (blocks', opaque', order')"
  shows "custom_data_ok m' blocks'"
    and "count_list order' ''CustomData'' \<le> custom_data_emitted_count blocks' m'"
    and "filter (\<lambda>n. n \<noteq> ''CustomData'') order' = filter (\<lambda>n. n \<noteq> ''CustomData'') order"
proof -
  define st where "st = reconcile_blocks m' blocks"
  obtain written missing where
    w: "write_merged (last_position_by_key (rs_blocks st)) u m' (rs_blocks st) [] = (written, missing)" by fastforce
  have b: "blocks' = append_missing written missing" and o: "order' = retain_custom_data_nodes (rs_retained st) 0 order"
    using res by (simp_all add: reconcile_custom_data_blocks_def Let_def st_def [symmetric] w)
  let ?P = "\<lambda>t. \<forall>x. t = Some x \<longrightarrow> kdbx4_time_ok x"
  have "?P (cd_last_modified item)" if "item \<in> set (all_items (rs_blocks st)) \<union> set []" for item
    using that assms(1) by (auto simp: st_def reconcile_blocks_def reconcile_blocks_items custom_data_ok_def)
  then have "\<forall>item \<in> set (all_items written) \<union> set missing. ?P (cd_last_modified item)"
    by (rule write_merged_items [OF w, where P = ?P]) (use assms(4) in auto)
  then have times: "\<forall>item \<in> set (all_items blocks'). ?P (cd_last_modified item)"
    by (simp add: b all_items_append_missing)
  have "cd_key ` set (all_items blocks') = fst ` set m'" "merge_custom_data_blocks blocks' = m'"
    using reconciled_keys [OF assms(2), of blocks opaque order u]
      reconciled_spell [OF assms(2), of blocks opaque order u] by (simp_all add: res)
  then show "custom_data_ok m' blocks'" using times assms(3) by (simp add: custom_data_ok_def)
  show "filter (\<lambda>n. n \<noteq> ''CustomData'') order' = filter (\<lambda>n. n \<noteq> ''CustomData'') order"
    by (simp add: o retain_others)
  have empty: "blocks = [] \<Longrightarrow> m = []" using assms(1) by (auto simp: custom_data_ok_def merge_custom_data_blocks_def)
  have "count_list order ''CustomData'' \<le> length blocks"
    using assms(5) empty by (auto simp: custom_data_emitted_count_def of_bool_nat_def split: if_splits)
  then have "count_list order' ''CustomData'' \<le> length (rs_blocks st)"
    using retained_count_le [of order 0 "rs_retained st"] retained_flags [of m' blocks]
    by (simp add: o st_def)
  moreover have "length (rs_blocks st) \<le> length blocks'"
    using write_merged_values [OF refl bt_wf_distinct [OF assms(2)] w]
    by (cases written) (auto simp: b append_missing_def dest: map_eq_imp_length_eq)
  ultimately show "count_list order' ''CustomData'' \<le> custom_data_emitted_count blocks' m'"
    by (auto simp: custom_data_emitted_count_def)
qed

lemma node_ok_swap:
  assumes "node_ok order emitted" and "filter (\<lambda>n. n \<noteq> name) order' = filter (\<lambda>n. n \<noteq> name) order"
    and "\<And>n. n \<noteq> name \<Longrightarrow> map_of emitted' n = map_of emitted n"
    and "map_of emitted' name = Some c" and "count_list order' name \<le> c"
  shows "node_ok order' emitted'"
  unfolding node_ok_def
proof
  fix n assume n: "n \<in> set order'"
  show "\<exists>c. map_of emitted' n = Some c \<and> count_list order' n \<le> c"
  proof (cases "n = name")
    case False
    then have "count_list order' n = count_list order n" using assms(2) count_filter_other [of "\<lambda>n. n \<noteq> name" n] by metis
    moreover have "n \<in> set order" using n False assms(2) by (metis (mono_tags, lifting) mem_Collect_eq set_filter)
    ultimately show ?thesis using assms(1,3) False by (auto simp: node_ok_def)
  qed (use assms(4,5) in blast)
qed

text \<open>The slots of custom data in an entry.\<close>

lemma custom_data_count:
  assumes "plain_nodes_ok e"
  shows "count_list (er_node_order (e_raw_state e)) ''CustomData'' \<le>
    custom_data_emitted_count (e_custom_data_blocks e) (e_custom_data e)"
proof (cases "''CustomData'' \<in> set (er_node_order (e_raw_state e))")
  case True
  then have "\<exists>c. map_of (entry_counts e) ''CustomData'' = Some c \<and>
      count_list (filter (\<lambda>n. n \<noteq> ''String'' \<and> n \<noteq> ''Binary'') (er_node_order (e_raw_state e))) ''CustomData'' \<le> c"
    using assms by (simp add: plain_nodes_ok_def node_ok_def)
  then show ?thesis by (simp add: entry_counts_def Let_def count_filter_other)
qed (simp add: count_list_0_iff)

lemma live_ok_canonicalize:
  assumes "live_ok e" and "bt_wf m" and "[] \<notin> fst ` set m" and "\<And>key t. u = Some (key, Some t) \<Longrightarrow> kdbx4_time_ok t"
  shows "live_ok (canonicalize_entry_custom_data u (e\<lparr>e_custom_data := m\<rparr>))"
proof -
  obtain blocks opaque order where res: "reconcile_custom_data_blocks (e_custom_data_blocks e) (e_opaque_xml e)
      (er_node_order (e_raw_state e)) m u = (blocks, opaque, order)" by (metis prod_cases3)
  define e' where "e' = e\<lparr>e_custom_data := m, e_custom_data_blocks := blocks, e_opaque_xml := opaque,
    e_raw_state := (e_raw_state e)\<lparr>er_node_order := order\<rparr>\<rparr>"
  have e': "canonicalize_entry_custom_data u (e\<lparr>e_custom_data := m\<rparr>) = e'"
    by (simp add: canonicalize_entry_custom_data_def res e'_def)
  have plain: "plain_nodes_ok e" and data: "custom_data_ok (e_custom_data e) (e_custom_data_blocks e)"
    using assms(1) by (simp_all add: live_ok_def)
  have R: "custom_data_ok m blocks" "count_list order ''CustomData'' \<le> custom_data_emitted_count blocks m"
    "filter (\<lambda>n. n \<noteq> ''CustomData'') order = filter (\<lambda>n. n \<noteq> ''CustomData'') (er_node_order (e_raw_state e))"
    using reconciled_custom_data [OF data assms(2,3) _ custom_data_count [OF plain] res] assms(4) by blast+
  have other: "count_list order n = count_list (er_node_order (e_raw_state e)) n" if "n \<noteq> ''CustomData''" for n
  proof -
    have "count_list (filter (\<lambda>n. n \<noteq> ''CustomData'') xs) n = count_list xs n" for xs
      using that by (intro count_filter_other)
    from this [of order] this [of "er_node_order (e_raw_state e)"] show ?thesis using R(3) by simp
  qed
  have "plain_nodes_ok e'"
    unfolding plain_nodes_ok_def
  proof (rule node_ok_swap)
    show "node_ok (filter (\<lambda>n. n \<noteq> ''String'' \<and> n \<noteq> ''Binary'') (er_node_order (e_raw_state e))) (entry_counts e)"
      using plain by (simp add: plain_nodes_ok_def)
    have "filter (\<lambda>n. n \<noteq> ''CustomData'') (filter (\<lambda>n. n \<noteq> ''String'' \<and> n \<noteq> ''Binary'') xs) =
        filter (\<lambda>n. n \<noteq> ''String'' \<and> n \<noteq> ''Binary'') (filter (\<lambda>n. n \<noteq> ''CustomData'') xs)" for xs
      by (induction xs) auto
    then show "filter (\<lambda>n. n \<noteq> ''CustomData'') (filter (\<lambda>n. n \<noteq> ''String'' \<and> n \<noteq> ''Binary'') (er_node_order (e_raw_state e'))) =
        filter (\<lambda>n. n \<noteq> ''CustomData'') (filter (\<lambda>n. n \<noteq> ''String'' \<and> n \<noteq> ''Binary'') (er_node_order (e_raw_state e)))"
      using arg_cong [OF R(3), of "filter (\<lambda>n. n \<noteq> ''String'' \<and> n \<noteq> ''Binary'')"] by (simp add: e'_def del: filter_filter)
    show "map_of (entry_counts e') n = map_of (entry_counts e) n" if "n \<noteq> ''CustomData''" for n
      using that by (simp add: entry_counts_def Let_def e'_def)
    show "map_of (entry_counts e') ''CustomData'' = Some (custom_data_emitted_count blocks m)"
      by (simp add: entry_counts_def Let_def e'_def)
    show "count_list (filter (\<lambda>n. n \<noteq> ''String'' \<and> n \<noteq> ''Binary'') (er_node_order (e_raw_state e'))) ''CustomData'' \<le>
        custom_data_emitted_count blocks m"
      using R(2) by (simp add: e'_def count_filter_other)
  qed
  moreover have "strings_ok e'"
  proof (rule strings_ok_cong)
    show "strings_ok e" using assms(1) by (simp add: live_ok_def)
    show "count_list (er_node_order (e_raw_state e')) ''String'' = count_list (er_node_order (e_raw_state e)) ''String''"
      by (simp add: e'_def other)
  qed (simp_all add: e'_def)
  moreover have "attachment_slots_ok e'"
    using assms(1) other [of "''Binary''"] by (simp add: live_ok_def attachment_slots_ok_def tracked_ok_def) (simp add: e'_def)
  moreover have "entry_texts_ok e' = entry_texts_ok e" "entry_dates_ok e' = entry_dates_ok e" "quality_ok e' = quality_ok e"
    by (simp_all add: entry_texts_ok_def Let_def entry_dates_ok_def quality_ok_def e'_def)
  moreover have "custom_data_ok (e_custom_data e') (e_custom_data_blocks e')" using R(1) by (simp add: e'_def)
  ultimately show ?thesis using assms(1) by (simp add: e' live_ok_def)
qed

section \<open>Strings\<close>

lemma view_keys: "k \<in> fst ` set (mt_fields (materialize_entry_persistent_attributes e)) \<longleftrightarrow> view_lookup e k \<noteq> None"
  using map_of_eq_None_iff [of "mt_fields (materialize_entry_persistent_attributes e)" k]
  by (simp add: materialize_lookup)

definition credential_key :: "string \<Rightarrow> bool" where
  "credential_key k \<longleftrightarrow> is_totp_persistent_attribute_key k \<or> is_passkey_persistent_attribute_key k"

lemma totp_attributes_insert:
  assumes "\<not> is_totp_persistent_attribute_key k"
  shows "totp_from_persistent_attributes (bt_insert k x m) = totp_from_persistent_attributes m"
proof -
  have other: "bt_get (bt_insert k x m) j = bt_get m j" if "j \<in> set totp_keys" for j
    using assms that by (auto simp: is_totp_persistent_attribute_key_def)
  have "set (bt_keys (bt_insert k x m)) = insert k (set (bt_keys m))" using fst_set_bt_insert [of k x m] by simp
  then have "list_ex (\<lambda>key. is_totp_persistent_attribute_key key \<and> \<not> is_projectable_totp_attribute_key key)
      (bt_keys (bt_insert k x m)) = list_ex (\<lambda>key. is_totp_persistent_attribute_key key \<and>
      \<not> is_projectable_totp_attribute_key key) (bt_keys m)"
    using assms by (simp add: list_ex_iff)
  moreover have "bt_get (bt_insert k x m) ''otp'' = bt_get m ''otp''"
    "bt_get (bt_insert k x m) ''TimeOtp-Secret-Base32'' = bt_get m ''TimeOtp-Secret-Base32''"
    "bt_get (bt_insert k x m) ''TimeOtp-Algorithm'' = bt_get m ''TimeOtp-Algorithm''"
    "bt_get (bt_insert k x m) ''TimeOtp-Length'' = bt_get m ''TimeOtp-Length''"
    "bt_get (bt_insert k x m) ''TimeOtp-Period'' = bt_get m ''TimeOtp-Period''"
    by (rule other, simp add: totp_keys_def)+
  ultimately show ?thesis
    unfolding totp_from_persistent_attributes_def discrete_totp_matches_def
      present_discrete_totp_parameters_match_def bt_contains_def by (simp only:)
qed

lemma passkey_attributes_insert:
  assumes "\<not> is_passkey_persistent_attribute_key k"
  shows "passkey_from_attributes (bt_insert k x m) = passkey_from_attributes m"
proof -
  have other: "bt_get (bt_insert k x m) j = bt_get m j" if "j \<in> set passkey_keys" for j
    using assms that by (auto simp: is_passkey_persistent_attribute_key_def)
  have "bt_get (bt_insert k x m) pk_username_key = bt_get m pk_username_key"
    "bt_get (bt_insert k x m) pk_credential_id_key = bt_get m pk_credential_id_key"
    "bt_get (bt_insert k x m) pk_generated_user_id_key = bt_get m pk_generated_user_id_key"
    "bt_get (bt_insert k x m) pk_private_key_pem_key = bt_get m pk_private_key_pem_key"
    "bt_get (bt_insert k x m) pk_relying_party_key = bt_get m pk_relying_party_key"
    "bt_get (bt_insert k x m) pk_user_handle_key = bt_get m pk_user_handle_key"
    "bt_get (bt_insert k x m) pk_flag_be_key = bt_get m pk_flag_be_key"
    "bt_get (bt_insert k x m) pk_flag_bs_key = bt_get m pk_flag_bs_key"
    by (rule other, simp add: passkey_keys_def)+
  then show ?thesis unfolding passkey_from_attributes_def by (simp only:)
qed

lemma view_lookup_None_cong:
  assumes "effective_totp f = effective_totp e" "effective_passkey f = effective_passkey e"
    and "bt_get (e_attributes f) k = bt_get (e_attributes e) k"
  shows "view_lookup f k = None \<longleftrightarrow> view_lookup e k = None"
proof -
  have "map_of (rev (totp_overlay_fields f t)) k = None \<longleftrightarrow> map_of (rev (totp_overlay_fields e t)) k = None" for t
    by (simp add: map_of_eq_None_iff totp_overlay_fields_def)
  then show ?thesis using assms by (simp add: view_lookup_def split: option.split)
qed

lemma string_keys_insert:
  assumes "\<not> credential_key k"
  shows "string_key_set e \<subseteq> string_key_set (e\<lparr>e_attributes := bt_insert k x (e_attributes e)\<rparr>)"
proof -
  let ?e = "e\<lparr>e_attributes := bt_insert k x (e_attributes e)\<rparr>"
  have k: "\<not> is_totp_persistent_attribute_key k" "\<not> is_passkey_persistent_attribute_key k"
    using assms by (simp_all add: credential_key_def)
  have eff: "effective_totp ?e = effective_totp e" "effective_passkey ?e = effective_passkey e"
    using k by (simp_all add: effective_totp_def effective_passkey_def totp_attributes_insert passkey_attributes_insert
        split: option.split)
  have "view_lookup ?e j \<noteq> None" if "view_lookup e j \<noteq> None" for j
  proof (cases "j = k")
    case True
    then show ?thesis using k by (simp add: view_lookup_def)
  next
    case False
    then have "bt_get (e_attributes ?e) j = bt_get (e_attributes e) j" by simp
    from view_lookup_None_cong [OF eff this] that show ?thesis by blast
  qed
  then have "{j. view_lookup e j \<noteq> None} \<subseteq> {j. view_lookup ?e j \<noteq> None}" by blast
  moreover have "fst ` set (mt_fields (materialize_entry_persistent_attributes f)) = {j. view_lookup f j \<noteq> None}" for f
    by (rule set_eqI) (simp only: view_keys mem_Collect_eq)
  ultimately show ?thesis unfolding string_key_set_def by (simp only: Un_mono subset_refl)
qed

lemma live_ok_custom_field:
  assumes "live_ok e" and "key \<noteq> []" and "\<not> is_reserved_entry_custom_field_key key"
  shows "live_ok (e\<lparr>e_attributes := bt_insert key x (e_attributes e)\<rparr>)"
proof -
  let ?e = "e\<lparr>e_attributes := bt_insert key x (e_attributes e)\<rparr>"
  have "\<not> credential_key key" "\<not> is_standard_entry_field_name key"
    using assms(3) unfolding credential_key_def is_reserved_entry_custom_field_key_def is_standard_entry_field_name_def
    by (auto simp: is_passkey_persistent_attribute_key_def passkey_keys_def starts_with_iff)
  then have "strings_ok ?e" "entry_texts_ok ?e"
    using assms string_keys_insert [of key e x]
    by (auto simp: live_ok_def strings_ok_def tracked_ok_def entry_texts_ok_def Let_def)
  moreover have "entry_counts ?e = entry_counts e" by (simp add: entry_counts_def Let_def)
  ultimately show ?thesis
    using assms(1) by (simp add: live_ok_def plain_nodes_ok_def attachment_slots_ok_def entry_dates_ok_def quality_ok_def)
qed

lemma live_ok_strings:
  assumes "live_ok e"
  shows "live_ok (change_strings (\<lambda>e. e\<lparr>e_attributes := bt_remove key (e_attributes e)\<rparr>) e)"
    and "live_ok (change_strings (\<lambda>e. e\<lparr>e_totp := None, e_attributes := filter P (e_attributes e)\<rparr>) e)"
    and "live_ok (change_strings (\<lambda>e. e\<lparr>e_passkey := p, e_attributes := filter P (e_attributes e)\<rparr>) e)"
    and "live_ok (change_strings (\<lambda>e. e\<lparr>e_passkey := p\<rparr>) e)"
    and "structured_totp_is_persistence_valid t \<Longrightarrow> live_ok (change_strings (\<lambda>e. e\<lparr>e_totp := Some t\<rparr>) e)"
proof -
  have texts: "entry_texts_ok e" using assms by (simp add: live_ok_def)
  note side = entry_texts_ok_def Let_def entry_counts_def entry_dates_ok_def quality_ok_def structured_totp_valid_def
  show "live_ok (change_strings (\<lambda>e. e\<lparr>e_attributes := bt_remove key (e_attributes e)\<rparr>) e)"
    by (rule live_ok_change_strings [OF assms]) (use texts in \<open>auto simp: side bt_remove_def\<close>)
  show "live_ok (change_strings (\<lambda>e. e\<lparr>e_totp := None, e_attributes := filter P (e_attributes e)\<rparr>) e)"
    by (rule live_ok_change_strings [OF assms]) (use texts in \<open>auto simp: side\<close>)
  show "live_ok (change_strings (\<lambda>e. e\<lparr>e_passkey := p, e_attributes := filter P (e_attributes e)\<rparr>) e)"
    by (rule live_ok_change_strings [OF assms]) (use texts in \<open>auto simp: side\<close>)
  show "live_ok (change_strings (\<lambda>e. e\<lparr>e_passkey := p\<rparr>) e)"
    by (rule live_ok_change_strings [OF assms]) (use texts in \<open>auto simp: side\<close>)
  show "live_ok (change_strings (\<lambda>e. e\<lparr>e_totp := Some t\<rparr>) e)" if "structured_totp_is_persistence_valid t"
    by (rule live_ok_change_strings [OF assms]) (use texts that in \<open>auto simp: side\<close>)
qed

section \<open>Attachments\<close>

lemma live_ok_attachments:
  assumes "live_ok e" and "\<And>key a. (key, a) \<in> set m \<Longrightarrow> key \<noteq> [] \<and> a_name a = key"
    and "fst ` set (e_attachments e) \<subseteq> fst ` set m"
  shows "live_ok (e\<lparr>e_attachments := m\<rparr>)"
proof -
  let ?e = "e\<lparr>e_attachments := m\<rparr>"
  have "\<forall>(key, a) \<in> set m. key \<noteq> [] \<and> a_name a = key" using assms(2) by blast
  moreover have "entry_texts_ok e" using assms(1) by (simp add: live_ok_def)
  ultimately have "entry_texts_ok ?e" unfolding entry_texts_ok_def Let_def by simp
  moreover have "attachment_slots_ok e" using assms(1) by (simp add: live_ok_def)
  then have "attachment_slots_ok ?e" using assms(3) unfolding attachment_slots_ok_def tracked_ok_def by simp blast
  moreover have "strings_ok ?e" by (rule strings_ok_cong [of e]) (use assms(1) in \<open>simp_all add: live_ok_def\<close>)
  moreover have "entry_counts ?e = entry_counts e" by (simp add: entry_counts_def Let_def)
  ultimately show ?thesis
    using assms(1) by (simp add: live_ok_def plain_nodes_ok_def entry_dates_ok_def quality_ok_def)
qed

lemma attachment_names: "live_ok e \<Longrightarrow> (key, a) \<in> set (e_attachments e) \<Longrightarrow> key \<noteq> [] \<and> a_name a = key"
  by (force simp: live_ok_def entry_texts_ok_def Let_def)

lemma in_bt_insert: "(k, a) \<in> set (bt_insert key x m) \<Longrightarrow> k = key \<and> a = x \<or> (k, a) \<in> set m"
  using set_bt_insert_subset [of key x m] by auto

lemma live_ok_add_attachment:
  assumes "live_ok e" and "name \<noteq> []" and "a_name a = name"
  shows "live_ok (e\<lparr>e_attachments := bt_insert name a (e_attachments e)\<rparr>)"
proof (rule live_ok_attachments [OF assms(1)])
  show "key \<noteq> [] \<and> a_name b = key" if "(key, b) \<in> set (bt_insert name a (e_attachments e))" for key b
    using in_bt_insert [OF that] attachment_names [OF assms(1)] assms(2,3) by blast
qed (auto simp: fst_set_bt_insert)

lemma live_ok_retained_attachment:
  assumes "live_ok e" and "bt_get (e_attachments e) name = Some a"
  shows "live_ok (e\<lparr>e_attachments := bt_insert name a (bt_remove name (e_attachments e))\<rparr>)"
proof (rule live_ok_attachments [OF assms(1)])
  have "(name, a) \<in> set (e_attachments e)" using assms(2) by (simp add: map_of_SomeD)
  then show "key \<noteq> [] \<and> a_name b = key"
    if "(key, b) \<in> set (bt_insert name a (bt_remove name (e_attachments e)))" for key b
    using in_bt_insert [OF that] attachment_names [OF assms(1)] unfolding bt_remove_def by auto
qed (auto simp: fst_set_bt_insert bt_remove_def)

lemma live_ok_delete_attachment:
  assumes "live_ok e"
  shows "live_ok (let e' = e\<lparr>e_attachments := bt_remove name (e_attachments e)\<rparr> in
    retarget_binaries (entry_binary_identities e) (entry_binary_identities e') [] e')"
  unfolding Let_def
  by (rule live_ok_change_binaries [OF assms])
     (use attachment_names [OF assms] in \<open>auto simp: bt_remove_def inj_on_def renamed_identity_def\<close>)

lemma live_ok_rename_attachment:
  assumes "live_ok e" and "bt_get (e_attachments e) name = Some a" and "target \<noteq> []" and "a_name a' = target"
    and "target = name \<or> target \<notin> fst ` set (bt_remove name (e_attachments e))"
  defines "e' \<equiv> e\<lparr>e_attachments := bt_insert target a' (bt_remove name (e_attachments e))\<rparr>"
  shows "live_ok (retarget_binaries old (entry_binary_identities e') [(name, target)] e')"
  unfolding e'_def
proof (rule live_ok_change_binaries [OF assms(1)])
  show "key \<noteq> [] \<and> a_name b = key"
    if "(key, b) \<in> set (bt_insert target a' (bt_remove name (e_attachments e)))" for key b
    using in_bt_insert [OF that] assms(3,4) attachment_names [OF assms(1)] unfolding bt_remove_def by auto
  show "inj_on (renamed_identity [(name, target)]) (fst ` set (e_attachments e))"
    using assms(5) by (auto simp: inj_on_def renamed_identity_def bt_remove_def image_iff)
qed

section \<open>Snapshots\<close>

lemma removed_items: "map cb_items (e_custom_data_blocks (retarget_removed_entry_known_nodes name e)) = map cb_items (e_custom_data_blocks e)"
  by (simp add: retarget_removed_entry_known_nodes_def Let_def comp_def)

lemma snapshot_of_live:
  assumes "live_ok (e_core entry)"
  shows "snapshot_ok (entry_id entry) (prepare_entry_history_snapshot entry)"
proof -
  let ?e = "e_core entry" let ?c = "e_core (prepare_entry_history_snapshot entry)"
  define r where "r = retarget_removed_entry_known_nodes ''History'' ?e"
  have order: "er_node_order (e_raw_state ?c) = filter (\<lambda>n. n \<noteq> ''History'') (er_node_order (e_raw_state ?e))"
    by (auto simp: prepare_entry_history_snapshot_def retarget_removed_entry_known_nodes_def Let_def intro!: filter_True [symmetric])
  have same: "e_id ?c = e_id ?e" "e_attributes ?c = e_attributes ?e" "e_totp ?c = e_totp ?e"
    "e_passkey ?c = e_passkey ?e" "e_attachments ?c = e_attachments ?e" "e_custom_data ?c = e_custom_data ?e"
    "er_string_order (e_raw_state ?c) = er_string_order (e_raw_state ?e)"
    "er_binary_order (e_raw_state ?c) = er_binary_order (e_raw_state ?e)"
    "\<not> er_has_history_node (e_raw_state ?c)" "e_history (prepare_entry_history_snapshot entry) = []"
    "map cb_items (e_custom_data_blocks ?c) = map cb_items (e_custom_data_blocks ?e)"
    "entry_texts_ok ?c = entry_texts_ok ?e" "entry_dates_ok ?c = entry_dates_ok ?e" "quality_ok ?c = quality_ok ?e"
    by (simp_all add: prepare_entry_history_snapshot_def retarget_removed_entry_known_nodes_def Let_def comp_def
        entry_texts_ok_def entry_dates_ok_def quality_ok_def)
  note items = same_items [OF same(11)]
  have counts: "map_of (entry_counts ?c) n = map_of (entry_counts ?e) n" if "n \<noteq> ''History''" for n
    using that by (simp add: entry_counts_def Let_def same items)
       (simp add: prepare_entry_history_snapshot_def retarget_removed_entry_known_nodes_def Let_def)
  have "plain_nodes_ok ?c"
  proof -
    have "plain_nodes_ok ?e" using assms by (simp add: live_ok_def)
    then show ?thesis
      unfolding plain_nodes_ok_def order
      by (rule node_ok_subset) (auto simp: counts count_filter_other)
  qed
  moreover have "strings_ok ?c"
    by (rule strings_ok_cong [of ?e]) (use assms in \<open>simp_all add: live_ok_def same order count_filter_other\<close>)
  moreover have "attachment_slots_ok ?c"
    using assms by (simp add: live_ok_def attachment_slots_ok_def tracked_ok_def same order count_filter_other)
  ultimately have "live_ok ?c" using assms by (simp add: live_ok_def same items)
  then show ?thesis by (simp add: snapshot_ok_def same)
qed

end
