(* ===== verification/SaveableTree.thy ===== *)
theory SaveableTree
  imports SaveableData "HOL-Library.Multiset"
begin

text \<open>
  The group tree of a writable vault: the slots of entries and child groups follow the children, all ids
  are different, and the operations that change, add and take out nodes keep both.
\<close>

section \<open>Groups\<close>

text \<open>A tracked slot list is the beginning of the list of children.\<close>

definition slots_ok :: "string \<Rightarrow> string list \<Rightarrow> uuid list \<Rightarrow> uuid list \<Rightarrow> bool" where
  "slots_ok name order tracked ids \<longleftrightarrow>
     count_list order name = length tracked \<and> distinct tracked \<and> take (length tracked) ids = tracked"

definition group_counts :: "group_core \<Rightarrow> (string \<times> nat) list" where
  "group_counts g = filter (\<lambda>(n, _). n \<noteq> ''Entry'' \<and> n \<noteq> ''Group'') (group_emitted_node_counts (Group g [] []))"

definition times_ok :: "group_times \<Rightarrow> bool" where
  "times_ok t \<longleftrightarrow>
     kdbx4_unsigned_time_ok (gt_created_at t) \<and> kdbx4_unsigned_time_ok (gt_modified_at t) \<and>
     (\<forall>x. gt_expiry_time t = Some x \<longrightarrow> kdbx4_time_ok x) \<and>
     (\<forall>x. gt_last_accessed_at t = Some x \<longrightarrow> kdbx4_unsigned_time_ok x) \<and>
     (\<forall>x. gt_location_changed_at t = Some x \<longrightarrow> kdbx4_unsigned_time_ok x)"

definition plain_group_nodes :: "group_core \<Rightarrow> bool" where
  "plain_group_nodes g \<longleftrightarrow>
     node_ok (filter (\<lambda>n. n \<noteq> ''Entry'' \<and> n \<noteq> ''Group'') (gr_node_order (g_raw_state g))) (group_counts g)"

definition gcore_ok :: "group_core \<Rightarrow> bool" where
  "gcore_ok g \<longleftrightarrow>
     group_fields_valid g \<and> plain_group_nodes g \<and> custom_data_ok (g_custom_data g) (g_custom_data_blocks g) \<and>
     (\<forall>t. g_times g = Some t \<longrightarrow> times_ok t)"

definition children_ok :: "group_core \<Rightarrow> uuid list \<Rightarrow> uuid list \<Rightarrow> bool" where
  "children_ok g eids gids \<longleftrightarrow>
     slots_ok ''Entry'' (gr_node_order (g_raw_state g)) (gr_entry_order (g_raw_state g)) eids \<and>
     slots_ok ''Group'' (gr_node_order (g_raw_state g)) (gr_group_order (g_raw_state g)) gids"

lemma group_times_iff [simp]: "group_times_valid t = Inr u \<longleftrightarrow> times_ok t"
  by (simp add: group_times_valid_def times_ok_def and_then_eq_Inr)

lemma prefix_subset: "take n ids = tracked \<Longrightarrow> set tracked \<subseteq> set ids"
  by (metis set_take_subset)

lemma slots_bound: "slots_ok name order tracked ids \<Longrightarrow> count_list order name \<le> length ids"
  by (metis length_take min.cobounded1 slots_ok_def)

lemma group_state_iff:
  "validate_group_state grp = Inr u \<and> group_fields_valid (g_core grp) \<longleftrightarrow>
     gcore_ok (g_core grp) \<and> children_ok (g_core grp) (map entry_id (g_entries grp)) (map group_id (g_children grp))"
proof -
  let ?g = "g_core grp"
  let ?order = "gr_node_order (g_raw_state ?g)"
  let ?eids = "map entry_id (g_entries grp)" and ?gids = "map group_id (g_children grp)"
  have slots: "tracked_ok name ?order tracked (set ids) \<and> take (length tracked) ids = tracked \<longleftrightarrow>
      slots_ok name ?order tracked ids" for name tracked ids
    using prefix_subset [of "length tracked" ids tracked] by (auto simp: tracked_ok_def slots_ok_def)
  have nodes: "node_ok ?order (group_emitted_node_counts grp) \<longleftrightarrow> plain_group_nodes ?g"
    if "children_ok ?g ?eids ?gids"
  proof -
    have "node_ok ?order (group_emitted_node_counts grp) \<longleftrightarrow>
      node_ok (filter (\<lambda>n. n \<notin> {''Entry'', ''Group''}) ?order) (group_counts ?g)"
    proof (rule node_ok_split)
      have "count_list ?order ''Entry'' \<le> length ?eids" "count_list ?order ''Group'' \<le> length ?gids"
        using that by (auto simp: children_ok_def dest: slots_bound)
      then show "\<forall>n \<in> {''Entry'', ''Group''}. \<exists>c. map_of (group_emitted_node_counts grp) n = Some c \<and> count_list ?order n \<le> c"
        by (simp add: group_emitted_node_counts_def Let_def)
      show "map_of (group_emitted_node_counts grp) n = map_of (group_counts ?g) n" if "n \<notin> {''Entry'', ''Group''}" for n
        using that by (simp add: group_counts_def group_emitted_node_counts_def Let_def)
    qed
    then show ?thesis by (simp add: plain_group_nodes_def)
  qed
  show ?thesis
    using nodes slots [of "''Entry''" "gr_entry_order (g_raw_state ?g)" ?eids]
      slots [of "''Group''" "gr_group_order (g_raw_state ?g)" ?gids]
    by (auto simp: validate_group_state_def Let_def and_then_eq_Inr gcore_ok_def children_ok_def set_bs_of_list)
qed

section \<open>Trees\<close>

fun node_ids :: "vgroup \<Rightarrow> uuid list" where
  "node_ids (Group g es children) = g_id g # map entry_id es @ concat (map node_ids children)"

fun tree_ok :: "vgroup \<Rightarrow> bool" where
  "tree_ok (Group g es children) \<longleftrightarrow>
     gcore_ok g \<and> children_ok g (map entry_id es) (map group_id children) \<and>
     (\<forall>e \<in> set es. entry_ok e) \<and> (\<forall>child \<in> set children. tree_ok child)"

fun tree_recorded :: "vgroup \<Rightarrow> bool" where
  "tree_recorded (Group g es children) \<longleftrightarrow>
     (\<forall>e \<in> set es. history_recorded_entry e) \<and> (\<forall>child \<in> set children. tree_recorded child)"

definition ids_free :: "uuid list \<Rightarrow> uuid list \<Rightarrow> bool" where
  "ids_free ids live \<longleftrightarrow> distinct ids \<and> 0 \<notin> set ids \<and> set ids \<inter> set live = {}"

lemma ids_free_Nil [simp]: "ids_free [] live"
  by (simp add: ids_free_def)

lemma ids_free_append:
  "ids_free (xs @ ys) live \<longleftrightarrow> ids_free xs live \<and> ids_free ys (fold bs_insert xs live)"
  by (auto simp: ids_free_def set_fold_bs_insert)

lemma ids_free_Cons: "ids_free (x # ys) live \<longleftrightarrow> x \<noteq> 0 \<and> x \<notin> set live \<and> ids_free ys (bs_insert x live)"
  by (auto simp: ids_free_def set_bs_insert)

lemma claim_iff: "claim_id u live = Inr live' \<longleftrightarrow> u \<noteq> 0 \<and> u \<notin> set live \<and> live' = bs_insert u live"
  by (auto simp: claim_id_def)

lemma validate_entries_iff:
  "validate_entries es live = Inr live' \<and> (\<forall>e \<in> set es. history_recorded_entry e) \<longleftrightarrow>
     live' = fold bs_insert (map entry_id es) live \<and> ids_free (map entry_id es) live \<and> (\<forall>e \<in> set es. entry_ok e)"
proof (induction es arbitrary: live)
  case (Cons e es)
  show ?case
    using Cons.IH [of "bs_insert (entry_id e) live"] entry_ok_iff [of e "entry_id e"]
    by (auto simp: and_then_eq_Inr claim_iff ids_free_Cons)
qed auto

lemma validate_tree_iff:
  "validate_group_model g live = Inr live' \<and> tree_recorded g \<longleftrightarrow>
     live' = fold bs_insert (node_ids g) live \<and> ids_free (node_ids g) live \<and> tree_ok g"
  "validate_group_children gs live = Inr live' \<and> (\<forall>g \<in> set gs. tree_recorded g) \<longleftrightarrow>
     live' = fold bs_insert (concat (map node_ids gs)) live \<and> ids_free (concat (map node_ids gs)) live \<and>
     (\<forall>g \<in> set gs. tree_ok g)"
proof (induction g live and gs live arbitrary: live' and live' rule: validate_group_model_validate_group_children.induct)
  case (1 g es children live)
  have IH: "validate_group_children children l = Inr live' \<and> (\<forall>g \<in> set children. tree_recorded g) \<longleftrightarrow>
     live' = fold bs_insert (concat (map node_ids children)) l \<and> ids_free (concat (map node_ids children)) l \<and>
     (\<forall>g \<in> set children. tree_ok g)"
    if "validate_entries es (bs_insert (g_id g) live) = Inr l" "claim_id (g_id g) live = Inr (bs_insert (g_id g) live)"
      "group_fields_valid g" "validate_group_state (Group g es children) = Inr ()" for l
    using 1 that by (simp add: ensure_def)
  let ?live = "bs_insert (g_id g) live" let ?l = "fold bs_insert (map entry_id es) ?live"
  have "validate_group_model (Group g es children) live = Inr live' \<and> tree_recorded (Group g es children) \<longleftrightarrow>
    claim_id (g_id g) live = Inr ?live \<and>
    (validate_group_state (Group g es children) = Inr () \<and> group_fields_valid g) \<and>
    (\<exists>l. (validate_entries es ?live = Inr l \<and> (\<forall>e \<in> set es. history_recorded_entry e)) \<and>
      (validate_group_children children l = Inr live' \<and> (\<forall>g \<in> set children. tree_recorded g)))"
    by (auto simp: and_then_eq_Inr claim_iff)
  also have "\<dots> \<longleftrightarrow> claim_id (g_id g) live = Inr ?live \<and>
    (validate_group_state (Group g es children) = Inr () \<and> group_fields_valid g) \<and>
    (validate_entries es ?live = Inr ?l \<and> (\<forall>e \<in> set es. history_recorded_entry e)) \<and>
    (validate_group_children children ?l = Inr live' \<and> (\<forall>g \<in> set children. tree_recorded g))"
  proof -
    have "l = ?l" if "validate_entries es ?live = Inr l \<and> (\<forall>e \<in> set es. history_recorded_entry e)" for l
      using that validate_entries_iff [of es ?live l] by simp
    then show ?thesis by blast
  qed
  also have "\<dots> \<longleftrightarrow> live' = fold bs_insert (node_ids (Group g es children)) live \<and>
      ids_free (node_ids (Group g es children)) live \<and> tree_ok (Group g es children)"
  proof -
    have split: "live' = fold bs_insert (node_ids (Group g es children)) live \<and>
        ids_free (node_ids (Group g es children)) live \<and> tree_ok (Group g es children) \<longleftrightarrow>
      live' = fold bs_insert (concat (map node_ids children)) ?l \<and>
      (g_id g \<noteq> 0 \<and> g_id g \<notin> set live) \<and> ids_free (map entry_id es) ?live \<and>
      ids_free (concat (map node_ids children)) ?l \<and>
      (gcore_ok g \<and> children_ok g (map entry_id es) (map group_id children)) \<and>
      (\<forall>e \<in> set es. entry_ok e) \<and> (\<forall>g \<in> set children. tree_ok g)"
      by (simp add: ids_free_Cons ids_free_append)
    have state: "validate_group_state (Group g es children) = Inr () \<and> group_fields_valid g \<longleftrightarrow>
      gcore_ok g \<and> children_ok g (map entry_id es) (map group_id children)"
      using group_state_iff [of "Group g es children" "()"] by simp
    have claimed: "claim_id (g_id g) live = Inr ?live \<longleftrightarrow> g_id g \<noteq> 0 \<and> g_id g \<notin> set live"
      by (simp add: claim_iff)
    have entries: "validate_entries es ?live = Inr ?l \<and> (\<forall>e \<in> set es. history_recorded_entry e) \<longleftrightarrow>
      ids_free (map entry_id es) ?live \<and> (\<forall>e \<in> set es. entry_ok e)"
      using validate_entries_iff [of es ?live ?l] by simp
    show ?thesis unfolding split using IH [of ?l] state claimed entries by argo
  qed
  finally show ?case .
next
  case (3 child children live)
  let ?l = "fold bs_insert (node_ids child) live"
  have "validate_group_children (child # children) live = Inr live' \<and> (\<forall>g \<in> set (child # children). tree_recorded g) \<longleftrightarrow>
    (\<exists>l. (validate_group_model child live = Inr l \<and> tree_recorded child) \<and>
      validate_group_children children l = Inr live' \<and> (\<forall>g \<in> set children. tree_recorded g))"
    by (auto simp: and_then_eq_Inr)
  also have "\<dots> \<longleftrightarrow> (validate_group_model child live = Inr ?l \<and> tree_recorded child) \<and>
      validate_group_children children ?l = Inr live' \<and> (\<forall>g \<in> set children. tree_recorded g)"
  proof -
    have "l = ?l" if "validate_group_model child live = Inr l \<and> tree_recorded child" for l
      using that 3(1) [of l] by simp
    then show ?thesis by blast
  qed
  also have "\<dots> \<longleftrightarrow> live' = fold bs_insert (concat (map node_ids (child # children))) live \<and>
      ids_free (concat (map node_ids (child # children))) live \<and> (\<forall>g \<in> set (child # children). tree_ok g)"
    using 3(1) [of ?l] 3(2) [of ?l live'] by (auto simp: ids_free_append)
  finally show ?case .
qed auto

definition root_ok :: "vgroup \<Rightarrow> bool" where
  "root_ok g \<longleftrightarrow> tree_ok g \<and> distinct (node_ids g) \<and> 0 \<notin> set (node_ids g)"

lemma root_ok_iff: "root_ok g \<longleftrightarrow> (\<exists>live. validate_group_model g [] = Inr live) \<and> tree_recorded g"
  using validate_tree_iff(1) [of g "[]"] by (auto simp: root_ok_def ids_free_def)

section \<open>Changing a node in place\<close>

definition keeps_entry :: "(entry \<Rightarrow> 'r \<times> entry) \<Rightarrow> bool" where
  "keeps_entry f \<longleftrightarrow> (\<forall>e. entry_ok e \<longrightarrow> entry_ok (snd (f e)) \<and> entry_id (snd (f e)) = entry_id e)"

definition keeps_group :: "uuid multiset \<Rightarrow> (vgroup \<Rightarrow> 'r \<times> vgroup) \<Rightarrow> bool" where
  "keeps_group added f \<longleftrightarrow>
     (\<forall>g. tree_ok g \<longrightarrow> tree_ok (snd (f g)) \<and> group_id (snd (f g)) = group_id g \<and>
        mset (node_ids (snd (f g))) = mset (node_ids g) + added)"

lemma change_entry_ok:
  assumes "keeps_entry f" and "change_entry env i f es = Some (r, es')" and "\<forall>e \<in> set es. entry_ok e"
  shows "map entry_id es' = map entry_id es \<and> (\<forall>e \<in> set es'. entry_ok e)"
  using assms(2,3)
proof (induction es arbitrary: es')
  case (Cons e es)
  show ?case
  proof (cases "ce_uuid_text env (entry_id e) = i")
    case True
    then have "es' = snd (f e) # es" using Cons.prems(1) by (cases "f e") auto
    then show ?thesis using assms(1) Cons.prems(2) by (simp add: keeps_entry_def)
  next
    case False
    then obtain es'' where "change_entry env i f es = Some (r, es'')" "es' = e # es''" using Cons.prems(1) by auto
    then show ?thesis using Cons.IH Cons.prems(2) by simp
  qed
qed simp

lemma find_entry_mut_ok:
  "find_entry_by_id_mut env i f g = Some (r, g') \<Longrightarrow> keeps_entry f \<Longrightarrow> tree_ok g \<Longrightarrow>
      tree_ok g' \<and> node_ids g' = node_ids g \<and> g_core g' = g_core g"
  "find_entry_in_mut env i f gs = Some (r, gs') \<Longrightarrow> keeps_entry f \<Longrightarrow> \<forall>g \<in> set gs. tree_ok g \<Longrightarrow>
      (\<forall>g \<in> set gs'. tree_ok g) \<and> map node_ids gs' = map node_ids gs \<and> map g_core gs' = map g_core gs"
proof (induction env i f g and env i f gs arbitrary: r g' and r gs'
    rule: find_entry_by_id_mut_find_entry_in_mut.induct [case_names Group Nil Cons])
  case (Group env i f g es children)
  show ?case
  proof (cases "change_entry env i f es")
    case None
    then obtain children' where c: "find_entry_in_mut env i f children = Some (r, children')" "g' = Group g es children'"
      using Group.prems(1) by auto
    have "(\<forall>g \<in> set children'. tree_ok g) \<and> map node_ids children' = map node_ids children \<and>
        map g_core children' = map g_core children"
      using Group.IH [OF None c(1)] Group.prems(2,3) by simp
    moreover from this have "map g_id (map g_core children') = map g_id (map g_core children)" by simp
    then have "map group_id children' = map group_id children" by (simp add: comp_def)
    ultimately show ?thesis using Group.prems(3) by (simp add: c(2))
  next
    case (Some x)
    then obtain es' where es': "change_entry env i f es = Some (r, es')" "g' = Group g es' children"
      using Group.prems(1) by (auto split: prod.splits)
    then show ?thesis using change_entry_ok [OF Group.prems(2) es'(1)] Group.prems(3) by simp
  qed
next
  case (Cons env i f child children)
  show ?case
  proof (cases "find_entry_by_id_mut env i f child")
    case None
    then obtain children' where c: "find_entry_in_mut env i f children = Some (r, children')" "gs' = child # children'"
      using Cons.prems(1) by auto
    then show ?thesis using Cons.IH(2) [OF None c(1)] Cons.prems(2,3) by simp
  next
    case (Some x)
    then obtain child' where c: "find_entry_by_id_mut env i f child = Some (r, child')" "gs' = child' # children"
      using Cons.prems(1) by (cases x) auto
    then show ?thesis using Cons.IH(1) [OF c(1)] Cons.prems(2,3) by simp
  qed
qed simp

lemma tree_ok_alt:
  "tree_ok g \<longleftrightarrow> gcore_ok (g_core g) \<and>
     children_ok (g_core g) (map entry_id (g_entries g)) (map group_id (g_children g)) \<and>
     (\<forall>e \<in> set (g_entries g). entry_ok e) \<and> (\<forall>child \<in> set (g_children g). tree_ok child)"
  by (cases g) simp

lemma node_ids_alt: "node_ids g = group_id g # map entry_id (g_entries g) @ concat (map node_ids (g_children g))"
  by (cases g) simp

lemma find_group_mut_ok:
  "find_group_by_id_mut env i f g = Some (r, g') \<Longrightarrow> keeps_group added f \<Longrightarrow> tree_ok g \<Longrightarrow>
      tree_ok g' \<and> group_id g' = group_id g \<and> mset (node_ids g') = mset (node_ids g) + added"
  "find_group_in_mut env i f gs = Some (r, gs') \<Longrightarrow> keeps_group added f \<Longrightarrow> \<forall>g \<in> set gs. tree_ok g \<Longrightarrow>
      (\<forall>g \<in> set gs'. tree_ok g) \<and> map group_id gs' = map group_id gs \<and>
      mset (concat (map node_ids gs')) = mset (concat (map node_ids gs)) + added"
proof (induction env i f g and env i f gs arbitrary: r g' and r gs'
    rule: find_group_by_id_mut_find_group_in_mut.induct [case_names Group Nil Cons])
  case (Group env i f g es children)
  show ?case
  proof (cases "ce_uuid_text env (g_id g) = i")
    case True
    then have "f (Group g es children) = (r, g')" using Group.prems(1) by simp
    then have "g' = snd (f (Group g es children))" by simp
    then show ?thesis using Group.prems(2,3) unfolding keeps_group_def by blast
  next
    case False
    then obtain children' where c: "find_group_in_mut env i f children = Some (r, children')" "g' = Group g es children'"
      using Group.prems(1) by auto
    then show ?thesis using Group.IH [OF False c(1)] Group.prems(2,3) by simp
  qed
next
  case (Cons env i f child children)
  show ?case
  proof (cases "find_group_by_id_mut env i f child")
    case None
    then obtain children' where c: "find_group_in_mut env i f children = Some (r, children')" "gs' = child # children'"
      using Cons.prems(1) by auto
    then show ?thesis using Cons.IH(2) [OF None c(1)] Cons.prems(2,3) by simp
  next
    case (Some x)
    then obtain child' where c: "find_group_by_id_mut env i f child = Some (r, child')" "gs' = child' # children"
      using Cons.prems(1) by (cases x) auto
    then show ?thesis using Cons.IH(1) [OF c(1)] Cons.prems(2,3) by simp
  qed
qed simp

section \<open>Taking a node out\<close>

lemma position_Some: "position p xs = Some i \<Longrightarrow> i < length xs \<and> p (xs ! i)"
  by (induction xs arbitrary: i) (auto split: if_splits)

lemma map_remove_at: "map f (remove_at i xs) = remove_at i (map f xs)"
  by (simp add: remove_at_def take_map drop_map)

lemma mset_remove_at: "i < length xs \<Longrightarrow> mset xs = add_mset (xs ! i) (mset (remove_at i xs))"
  using arg_cong [OF id_take_nth_drop [of i xs], of mset] by (simp add: remove_at_def)

lemma set_remove_at: "set (remove_at i xs) \<subseteq> set xs"
  by (auto simp: remove_at_def dest: in_set_takeD in_set_dropD)

lemma remove_at_filter:
  assumes "distinct xs" and "i < length xs"
  shows "remove_at i xs = filter (\<lambda>x. x \<noteq> xs ! i) xs"
proof -
  let ?P = "\<lambda>x. x \<noteq> xs ! i"
  have split: "xs = take i xs @ xs ! i # drop (Suc i) xs" by (rule id_take_nth_drop [OF assms(2)])
  then have "xs ! i \<notin> set (take i xs)" "xs ! i \<notin> set (drop (Suc i) xs)" using assms(1) by (metis distinct.simps(2) distinct_append not_distinct_conv_prefix, metis distinct.simps(2) distinct_append)
  then have "filter ?P (take i xs) = take i xs" "filter ?P (drop (Suc i) xs) = drop (Suc i) xs"
    by (auto intro: filter_True)
  then show ?thesis using arg_cong [OF split, of "filter ?P"] by (simp add: remove_at_def)
qed

lemma slots_retarget:
  assumes "slots_ok name (fi_node_order s) (fi_tracked s) ids" and "distinct ids" and "i < length ids"
  defines "s' \<equiv> retarget_keyed_known_nodes name ids (remove_at i ids) [] s"
  shows "slots_ok name (fi_node_order s') (fi_tracked s') (remove_at i ids)"
proof -
  let ?m = "map (retained_identity [] (remove_at i ids)) (fi_tracked s)"
  let ?P = "\<lambda>x. x \<noteq> ids ! i"
  have new: "remove_at i ids = filter ?P ids" by (rule remove_at_filter [OF assms(2,3)])
  have prefix: "take (length (fi_tracked s)) ids = fi_tracked s" using assms(1) by (simp add: slots_ok_def)
  then obtain rest where ids: "ids = fi_tracked s @ rest" by (metis append_take_drop_id)
  have tracked: "somes ?m = filter ?P (fi_tracked s)"
    unfolding somes_retained_plain new using prefix_subset [OF prefix] by (auto intro: filter_cong)
  have "count_list (retain_keyed_nodes name ?m 0 (fi_node_order s)) name = length (somes ?m)"
    using retain_same [of 0 "fi_node_order s" name ?m] assms(1) by (simp add: slots_ok_def)
  moreover have "take (length (filter ?P (fi_tracked s))) (filter ?P ids) = filter ?P (fi_tracked s)"
    by (subst ids) simp
  moreover have "distinct (filter ?P (fi_tracked s))" using assms(1) by (simp add: slots_ok_def)
  ultimately show ?thesis
    unfolding slots_ok_def s'_def retarget_parts tracked by (simp add: new)
qed

lemma slots_other:
  assumes "slots_ok name (fi_node_order s) tracked ids" and "name \<noteq> other"
  shows "slots_ok name (fi_node_order (retarget_keyed_known_nodes other old new renames s)) tracked ids"
  using assms by (simp add: slots_ok_def retarget_parts retain_other)

text \<open>A group whose slots for entries or child groups were retargeted.\<close>

lemma gcore_retargeted:
  assumes "gcore_ok g" and name: "name = ''Entry'' \<or> name = ''Group''"
    and g': "gr_node_order (g_raw_state g') = fi_node_order s" "g_custom_data_blocks g' = fi_blocks s"
    and s: "s = retarget_keyed_known_nodes name old new [] \<lparr>fi_node_order = gr_node_order (g_raw_state g),
      fi_tracked = tracked, fi_opaque_xml = g_opaque_xml g, fi_blocks = g_custom_data_blocks g\<rparr>"
    and same: "g_custom_data g' = g_custom_data g" "g_times g' = g_times g" "group_fields_valid g' = group_fields_valid g"
      "group_counts (g'\<lparr>g_custom_data_blocks := g_custom_data_blocks g\<rparr>) = group_counts g"
  shows "gcore_ok g'"
proof -
  have items: "map cb_items (g_custom_data_blocks g') = map cb_items (g_custom_data_blocks g)"
    by (simp add: g' s retarget_parts)
  have "group_counts g' = group_counts (g'\<lparr>g_custom_data_blocks := g_custom_data_blocks g\<rparr>)"
    by (simp add: group_counts_def group_emitted_node_counts_def Let_def same_items [OF items])
  then have counts: "group_counts g' = group_counts g" using same(4) by simp
  have "filter (\<lambda>n. n \<noteq> ''Entry'' \<and> n \<noteq> ''Group'') (gr_node_order (g_raw_state g')) =
      filter (\<lambda>n. n \<noteq> ''Entry'' \<and> n \<noteq> ''Group'') (gr_node_order (g_raw_state g))"
    using name by (simp add: g' s retarget_parts) (auto intro: filter_other_retain)
  then have "plain_group_nodes g'" using assms(1) by (simp add: gcore_ok_def plain_group_nodes_def counts)
  then show ?thesis using assms(1) by (simp add: gcore_ok_def same same_items [OF items])
qed

lemma retargeted_entries:
  assumes "gcore_ok g" and "children_ok g eids gids" and "distinct eids" and "i < length eids"
  shows "gcore_ok (retarget_group_entries eids (remove_at i eids) g)"
    and "children_ok (retarget_group_entries eids (remove_at i eids) g) (remove_at i eids) gids"
    and "g_id (retarget_group_entries eids (remove_at i eids) g) = g_id g"
proof -
  define s where "s = retarget_keyed_known_nodes ''Entry'' eids (remove_at i eids) []
    \<lparr>fi_node_order = gr_node_order (g_raw_state g), fi_tracked = gr_entry_order (g_raw_state g),
     fi_opaque_xml = g_opaque_xml g, fi_blocks = g_custom_data_blocks g\<rparr>"
  define g' where "g' = g\<lparr>g_raw_state := (g_raw_state g)\<lparr>gr_node_order := fi_node_order s, gr_entry_order := fi_tracked s\<rparr>,
    g_opaque_xml := fi_opaque_xml s, g_custom_data_blocks := fi_blocks s\<rparr>"
  have g': "retarget_group_entries eids (remove_at i eids) g = g'"
    by (simp add: retarget_group_entries_def g'_def s_def Let_def)
  show "gcore_ok (retarget_group_entries eids (remove_at i eids) g)"
    unfolding g' by (rule gcore_retargeted [OF assms(1) disjI1 [OF refl] _ _ s_def])
      (simp_all add: g'_def group_fields_valid_def group_counts_def group_emitted_node_counts_def Let_def)
  have "slots_ok ''Entry'' (fi_node_order s) (fi_tracked s) (remove_at i eids)"
    unfolding s_def by (rule slots_retarget) (use assms in \<open>simp_all add: children_ok_def\<close>)
  moreover have "slots_ok ''Group'' (fi_node_order s) (gr_group_order (g_raw_state g)) gids"
    unfolding s_def by (rule slots_other) (use assms in \<open>simp_all add: children_ok_def\<close>)
  ultimately show "children_ok (retarget_group_entries eids (remove_at i eids) g) (remove_at i eids) gids"
    by (simp add: g' children_ok_def) (simp add: g'_def)
  show "g_id (retarget_group_entries eids (remove_at i eids) g) = g_id g" by (simp add: g' g'_def)
qed

lemma retargeted_children:
  assumes "gcore_ok g" and "children_ok g eids gids" and "distinct gids" and "i < length gids"
  shows "gcore_ok (retarget_group_children gids (remove_at i gids) g)"
    and "children_ok (retarget_group_children gids (remove_at i gids) g) eids (remove_at i gids)"
    and "g_id (retarget_group_children gids (remove_at i gids) g) = g_id g"
proof -
  define s where "s = retarget_keyed_known_nodes ''Group'' gids (remove_at i gids) []
    \<lparr>fi_node_order = gr_node_order (g_raw_state g), fi_tracked = gr_group_order (g_raw_state g),
     fi_opaque_xml = g_opaque_xml g, fi_blocks = g_custom_data_blocks g\<rparr>"
  define g' where "g' = g\<lparr>g_raw_state := (g_raw_state g)\<lparr>gr_node_order := fi_node_order s, gr_group_order := fi_tracked s\<rparr>,
    g_opaque_xml := fi_opaque_xml s, g_custom_data_blocks := fi_blocks s\<rparr>"
  have g': "retarget_group_children gids (remove_at i gids) g = g'"
    by (simp add: retarget_group_children_def g'_def s_def Let_def)
  show "gcore_ok (retarget_group_children gids (remove_at i gids) g)"
    unfolding g' by (rule gcore_retargeted [OF assms(1) disjI2 [OF refl] _ _ s_def])
      (simp_all add: g'_def group_fields_valid_def group_counts_def group_emitted_node_counts_def Let_def)
  have "slots_ok ''Group'' (fi_node_order s) (fi_tracked s) (remove_at i gids)"
    unfolding s_def by (rule slots_retarget) (use assms in \<open>simp_all add: children_ok_def\<close>)
  moreover have "slots_ok ''Entry'' (fi_node_order s) (gr_entry_order (g_raw_state g)) eids"
    unfolding s_def by (rule slots_other) (use assms in \<open>simp_all add: children_ok_def\<close>)
  ultimately show "children_ok (retarget_group_children gids (remove_at i gids) g) eids (remove_at i gids)"
    by (simp add: g' children_ok_def) (simp add: g'_def)
  show "g_id (retarget_group_children gids (remove_at i gids) g) = g_id g" by (simp add: g' g'_def)
qed

lemma group_id_in_ids: "group_id g \<in> set (node_ids g)"
  by (cases g) simp

lemma distinct_heads: "distinct (concat (map node_ids gs)) \<Longrightarrow> distinct (map group_id gs)"
proof (induction gs)
  case (Cons g gs)
  have "group_id c \<in> set (concat (map node_ids gs))" if "c \<in> set gs" for c
    using that group_id_in_ids by fastforce
  then show ?case using Cons group_id_in_ids [of g] by auto
qed simp

lemma take_entry_ok:
  "take_entry_from_group env i g = Some ((e, p), g') \<Longrightarrow> tree_ok g \<Longrightarrow> distinct (node_ids g) \<Longrightarrow>
     tree_ok g' \<and> entry_ok e \<and> group_id g' = group_id g \<and> p \<in> set (node_ids g) \<and>
     ce_uuid_text env (entry_id e) = i \<and> mset (node_ids g) = add_mset (entry_id e) (mset (node_ids g'))"
  "take_entry_from_children env i gs = Some ((e, p), gs') \<Longrightarrow> \<forall>g \<in> set gs. tree_ok g \<Longrightarrow>
     distinct (concat (map node_ids gs)) \<Longrightarrow>
     (\<forall>g \<in> set gs'. tree_ok g) \<and> entry_ok e \<and> map group_id gs' = map group_id gs \<and>
     p \<in> set (concat (map node_ids gs)) \<and> ce_uuid_text env (entry_id e) = i \<and>
     mset (concat (map node_ids gs)) = add_mset (entry_id e) (mset (concat (map node_ids gs')))"
proof (induction env i g and env i gs arbitrary: g' and gs'
    rule: take_entry_from_group_take_entry_from_children.induct [case_names Group Nil Cons])
  case (Group env i g es children)
  have core: "gcore_ok g" "children_ok g (map entry_id es) (map group_id children)" "\<forall>e \<in> set es. entry_ok e"
    "\<forall>child \<in> set children. tree_ok child" "distinct (map entry_id es)" "distinct (concat (map node_ids children))"
    using Group.prems(2,3) by simp_all
  show ?case
  proof (cases "position (\<lambda>e. ce_uuid_text env (entry_id e) = i) es")
    case None
    then obtain children' where c: "take_entry_from_children env i children = Some ((e, p), children')" "g' = Group g es children'"
      using Group.prems(1) by auto
    then show ?thesis using Group.IH [OF None c(1) core(4,6)] core by simp
  next
    case (Some k)
    note k = position_Some [OF this]
    have e: "e = es ! k" "p = g_id g"
      "g' = Group (retarget_group_entries (map entry_id es) (remove_at k (map entry_id es)) g) (remove_at k es) children"
      using Group.prems(1) Some by (simp_all add: map_remove_at)
    have "k < length (map entry_id es)" using k by simp
    note R = retargeted_entries [OF core(1,2,5) this]
    have "mset (map entry_id es) = add_mset (entry_id e) (mset (map entry_id (remove_at k es)))"
      using mset_remove_at [of k "map entry_id es"] k by (simp add: map_remove_at e(1))
    then have ids: "mset (node_ids (Group g es children)) = add_mset (entry_id e) (mset (node_ids g'))"
      by (simp add: e(3) R(3) del: mset_map)
    have "\<forall>x \<in> set (remove_at k es). entry_ok x" using core(3) set_remove_at by fast
    moreover have "entry_ok e" using core(3) k by (simp add: e(1))
    ultimately show ?thesis
      using ids R core(4) k by (simp add: e(2,3) map_remove_at) (simp add: e(1))
  qed
next
  case (Cons env i child children)
  have core: "tree_ok child" "\<forall>g \<in> set children. tree_ok g" "distinct (node_ids child)" "distinct (concat (map node_ids children))"
    using Cons.prems(2,3) by simp_all
  show ?case
  proof (cases "take_entry_from_group env i child")
    case None
    then obtain children' where c: "take_entry_from_children env i children = Some ((e, p), children')" "gs' = child # children'"
      using Cons.prems(1) by auto
    then show ?thesis using Cons.IH(2) [OF None c(1) core(2,4)] core by simp
  next
    case (Some x)
    then obtain child' where c: "take_entry_from_group env i child = Some ((e, p), child')" "gs' = child' # children"
      using Cons.prems(1) by (cases x) auto
    then show ?thesis using Cons.IH(1) [OF c(1) core(1,3)] core by simp
  qed
qed simp

lemma take_group_ok:
  "take_group_from_group env i g = Some (c, g') \<Longrightarrow> tree_ok g \<Longrightarrow> distinct (node_ids g) \<Longrightarrow>
     tree_ok g' \<and> tree_ok c \<and> group_id g' = group_id g \<and>
     ce_uuid_text env (group_id c) = i \<and> mset (node_ids g) = mset (node_ids c) + mset (node_ids g')"
  "take_group_from_children env i gs = Some (c, gs') \<Longrightarrow> \<forall>g \<in> set gs. tree_ok g \<Longrightarrow>
     distinct (concat (map node_ids gs)) \<Longrightarrow>
     (\<forall>g \<in> set gs'. tree_ok g) \<and> tree_ok c \<and> map group_id gs' = map group_id gs \<and>
     ce_uuid_text env (group_id c) = i \<and>
     mset (concat (map node_ids gs)) = mset (node_ids c) + mset (concat (map node_ids gs'))"
proof (induction env i g and env i gs arbitrary: g' and gs'
    rule: take_group_from_group_take_group_from_children.induct [case_names Group Nil Cons])
  case (Group env i g es children)
  have core: "gcore_ok g" "children_ok g (map entry_id es) (map group_id children)" "\<forall>e \<in> set es. entry_ok e"
    "\<forall>child \<in> set children. tree_ok child" "distinct (map group_id children)" "distinct (concat (map node_ids children))"
    using Group.prems(2,3) distinct_heads [of children] by simp_all
  show ?case
  proof (cases "position (\<lambda>child. ce_uuid_text env (group_id child) = i) children")
    case None
    then obtain children' where t: "take_group_from_children env i children = Some (c, children')" "g' = Group g es children'"
      using Group.prems(1) by auto
    then show ?thesis using Group.IH [OF None t(1) core(4,6)] core by simp
  next
    case (Some k)
    note k = position_Some [OF this]
    have c: "c = children ! k"
      "g' = Group (retarget_group_children (map group_id children) (remove_at k (map group_id children)) g) es (remove_at k children)"
      using Group.prems(1) Some by (simp_all add: map_remove_at)
    have "k < length (map group_id children)" using k by simp
    note R = retargeted_children [OF core(1,2,5) this]
    have "mset (concat (map node_ids children)) = mset (node_ids c) + mset (concat (map node_ids (remove_at k children)))"
      using arg_cong [OF id_take_nth_drop [of k children], of "\<lambda>gs. mset (concat (map node_ids gs))"] k
      by (simp add: remove_at_def c(1))
    then have ids: "mset (node_ids (Group g es children)) = mset (node_ids c) + mset (node_ids g')"
      by (simp add: c(2) R(3))
    have "\<forall>x \<in> set (remove_at k children). tree_ok x" using core(4) set_remove_at by fast
    moreover have "tree_ok c" using core(4) k by (simp add: c(1))
    ultimately show ?thesis
      using ids R core(3) k by (simp add: c(2) map_remove_at) (simp add: c(1))
  qed
next
  case (Cons env i child children)
  have core: "tree_ok child" "\<forall>g \<in> set children. tree_ok g" "distinct (node_ids child)" "distinct (concat (map node_ids children))"
    using Cons.prems(2,3) by simp_all
  show ?case
  proof (cases "take_group_from_group env i child")
    case None
    then obtain children' where t: "take_group_from_children env i children = Some (c, children')" "gs' = child # children'"
      using Cons.prems(1) by auto
    then show ?thesis using Cons.IH(2) [OF None t(1) core(2,4)] core by simp
  next
    case (Some x)
    then obtain child' where t: "take_group_from_group env i child = Some (c, child')" "gs' = child' # children"
      using Cons.prems(1) by (cases x) auto
    then show ?thesis using Cons.IH(1) [OF t(1) core(1,3)] core by simp
  qed
qed simp

end
