(* ===== verification/SaveableVault.thy ===== *)
theory SaveableVault
  imports SaveableTree
begin

text \<open>
  A writable vault: metadata, icons and deleted objects beside the group tree, and the frames in which
  mutations run.
\<close>

section \<open>The condition\<close>

definition icons_ok :: "custom_icon list \<Rightarrow> bool" where
  "icons_ok icons \<longleftrightarrow> distinct (map ci_id icons) \<and>
     (\<forall>c \<in> set icons. ci_id c \<noteq> 0 \<and> ci_name c \<noteq> Some [] \<and> (\<forall>t. ci_last_modified c = Some t \<longrightarrow> kdbx4_time_ok t))"

definition deleted_ok :: "deleted_object list \<Rightarrow> bool" where
  "deleted_ok deleted \<longleftrightarrow> distinct (map do_id deleted) \<and>
     (\<forall>d \<in> set deleted. do_id d \<noteq> 0 \<and> kdbx4_time_ok (do_deleted_at d))"

text \<open>The nodes that the writer emits whatever icons and deleted objects there are.\<close>

definition meta_counts :: "vault \<Rightarrow> (string \<times> nat) list" where
  "meta_counts v = meta_emitted_node_counts (v\<lparr>v_custom_icons := []\<rparr>)"

definition root_counts :: "vault \<Rightarrow> (string \<times> nat) list" where
  "root_counts v = root_emitted_node_counts (v\<lparr>v_deleted_objects := []\<rparr>)"

definition meta_times :: "vault \<Rightarrow> i64 option list" where
  "meta_times v =
     [v_settings_changed v, v_database_name_changed v, v_description_changed v, v_default_username_changed v,
      v_master_key_changed v, v_recycle_bin_changed v, v_entry_templates_group_changed v]"

definition meta_ok :: "vault \<Rightarrow> bool" where
  "meta_ok v \<longleftrightarrow>
     meta_fields_valid v \<and> node_ok (mr_node_order (v_meta_raw_state v)) (meta_counts v) \<and>
     node_ok (rr_node_order (v_root_raw_state v)) (root_counts v) \<and>
     custom_data_ok (v_meta_custom_data v) (v_meta_custom_data_blocks v) \<and>
     (\<forall>t. Some t \<in> set (meta_times v) \<longrightarrow> kdbx4_time_ok t) \<and>
     icons_ok (v_custom_icons v) \<and> deleted_ok (v_deleted_objects v)"

text \<open>The flags that the loader sets with the node orders: an order that lists a \<open>CustomIcons\<close>,
  \<open>DeletedObjects\<close> or \<open>History\<close> node comes from a document that has the node.\<close>

definition slots_recorded :: "vault \<Rightarrow> bool" where
  "slots_recorded v \<longleftrightarrow>
     (''CustomIcons'' \<in> set (mr_node_order (v_meta_raw_state v)) \<longrightarrow> mr_has_custom_icons_node (v_meta_raw_state v)) \<and>
     (''DeletedObjects'' \<in> set (rr_node_order (v_root_raw_state v)) \<longrightarrow> rr_has_deleted_objects_node (v_root_raw_state v)) \<and>
     tree_recorded (v_root v)"

definition saveable :: "vault \<Rightarrow> bool" where
  "saveable v \<longleftrightarrow> validate_vault_model v = Inr () \<and> slots_recorded v"

lemma validate_icons_iff:
  "validate_icons icons seen = Inr u \<longleftrightarrow> icons_ok icons \<and> ci_id ` set icons \<inter> set seen = {}"
  by (induction icons seen rule: validate_icons.induct)
     (auto simp: icons_ok_def and_then_eq_Inr claim_iff set_bs_insert)

lemma validate_deleted_iff:
  "validate_deleted deleted seen = Inr u \<longleftrightarrow> deleted_ok deleted \<and> do_id ` set deleted \<inter> set seen = {}"
  by (induction deleted seen rule: validate_deleted.induct)
     (auto simp: deleted_ok_def and_then_eq_Inr claim_iff set_bs_insert)

text \<open>A node that is emitted for a flag or for content, with the flag required.\<close>

lemma node_ok_recorded:
  assumes "\<And>n. n \<noteq> name \<Longrightarrow> map_of emitted' n = map_of emitted n"
    and "map_of emitted name = Some (of_bool_nat (content \<or> flag))" and "map_of emitted' name = Some (of_bool_nat flag)"
  shows "node_ok order emitted \<and> (name \<in> set order \<longrightarrow> flag) \<longleftrightarrow> node_ok order emitted'"
proof
  assume old: "node_ok order emitted \<and> (name \<in> set order \<longrightarrow> flag)"
  show "node_ok order emitted'"
    unfolding node_ok_def
  proof
    fix n assume n: "n \<in> set order"
    then obtain c where "map_of emitted n = Some c" "count_list order n \<le> c" using old by (auto simp: node_ok_def)
    then show "\<exists>c. map_of emitted' n = Some c \<and> count_list order n \<le> c"
      using old n assms by (cases "n = name") auto
  qed
next
  assume new: "node_ok order emitted'"
  have flag: flag if "name \<in> set order"
  proof (rule ccontr)
    assume "\<not> flag"
    then have "count_list order name \<le> 0" using new that assms(3) by (auto simp: node_ok_def)
    then show False using that by (simp add: count_list_0_iff)
  qed
  have "node_ok order emitted"
    unfolding node_ok_def
  proof
    fix n assume n: "n \<in> set order"
    then obtain c where "map_of emitted' n = Some c" "count_list order n \<le> c" using new by (auto simp: node_ok_def)
    then show "\<exists>c. map_of emitted n = Some c \<and> count_list order n \<le> c"
      using n flag assms by (cases "n = name") auto
  qed
  then show "node_ok order emitted \<and> (name \<in> set order \<longrightarrow> flag)" using flag by blast
qed

lemma meta_node_iff:
  "node_ok order (meta_emitted_node_counts v) \<and> (''CustomIcons'' \<in> set order \<longrightarrow> mr_has_custom_icons_node (v_meta_raw_state v))
     \<longleftrightarrow> node_ok order (meta_counts v)"
  by (rule node_ok_recorded [where content = "v_custom_icons v \<noteq> []"])
     (simp_all add: meta_counts_def meta_emitted_node_counts_def Let_def)

lemma root_node_iff:
  "node_ok order (root_emitted_node_counts v) \<and>
     (''DeletedObjects'' \<in> set order \<longrightarrow> rr_has_deleted_objects_node (v_root_raw_state v)) \<longleftrightarrow> node_ok order (root_counts v)"
  by (rule node_ok_recorded [where content = "v_deleted_objects v \<noteq> []"])
     (simp_all add: root_counts_def root_emitted_node_counts_def)

lemma validate_meta_iff:
  "validate_meta v = Inr () \<and> validate_deleted (v_deleted_objects v) [] = Inr () \<and>
   (''CustomIcons'' \<in> set (mr_node_order (v_meta_raw_state v)) \<longrightarrow> mr_has_custom_icons_node (v_meta_raw_state v)) \<and>
   (''DeletedObjects'' \<in> set (rr_node_order (v_root_raw_state v)) \<longrightarrow> rr_has_deleted_objects_node (v_root_raw_state v)) \<longleftrightarrow>
   meta_ok v"
proof -
  have times: "(\<forall>t \<in> set (List.map_filter (\<lambda>x. x) (meta_times v)). validate_kdbx4_timestamp t = Inr ()) \<longleftrightarrow>
      (\<forall>t. Some t \<in> set (meta_times v) \<longrightarrow> kdbx4_time_ok t)"
    by (auto simp: set_somes)
  show ?thesis
    unfolding validate_meta_def and_then_eq_Inr each_Inr ensure_Inr validate_raw_node_slots_iff validate_custom_data_iff
      validate_icons_iff validate_deleted_iff meta_ok_def meta_times_def [symmetric] times
      meta_node_iff [symmetric] root_node_iff [symmetric]
    by auto
qed

lemma saveable_iff: "saveable v \<longleftrightarrow> meta_ok v \<and> root_ok (v_root v)"
proof -
  have "validate_vault_model v = Inr () \<longleftrightarrow> validate_meta v = Inr () \<and> (\<exists>live. validate_group_model (v_root v) [] = Inr live) \<and>
      validate_deleted (v_deleted_objects v) [] = Inr ()"
    by (auto simp: validate_vault_model_def and_then_eq_Inr)
  then show ?thesis
    unfolding saveable_def slots_recorded_def validate_meta_iff [symmetric] root_ok_iff by blast
qed

lemma meta_fields_iff:
  "meta_fields_valid v \<longleftrightarrow>
     v_generator v \<noteq> Some [] \<and> v_description v \<noteq> Some [] \<and> v_default_username v \<noteq> Some [] \<and> v_color v \<noteq> Some [] \<and>
     v_recycle_bin_group v \<noteq> Some 0 \<and> v_entry_templates_group v \<noteq> Some 0 \<and> v_last_selected_group v \<noteq> Some 0 \<and>
     v_last_top_visible_group v \<noteq> Some 0 \<and> [] \<notin> fst ` set (v_public_custom_data v) \<and>
     raw_collapsed_optional_text_matches (v_description v) (mr_description_raw (v_meta_raw_state v)) \<and>
     raw_collapsed_optional_text_matches (v_default_username v) (mr_default_username_raw (v_meta_raw_state v)) \<and>
     raw_collapsed_optional_text_matches (v_color v) (mr_color_raw (v_meta_raw_state v)) \<and>
     mr_recycle_bin_group_raw (v_meta_raw_state v) = None \<and> mr_entry_templates_group_raw (v_meta_raw_state v) = None \<and>
     (\<forall>r. mr_auto_enable_visual_hiding_raw (v_meta_raw_state v) = Some r \<longrightarrow>
        v_memory_protection v \<noteq> None \<and> parse_bool_text_strict r \<noteq> None)"
  unfolding meta_fields_valid_def Let_def by (auto simp: list_ex_iff split: option.splits)

section \<open>Frames\<close>

lemma guarded_saveable:
  assumes "saveable v" and "\<And>x. r = Inr x \<Longrightarrow> saveable (snd (k x v))"
  shows "saveable (snd (guarded r k v))"
  using assms by (cases r) (simp_all add: guarded_def)

lemma meta_ok_root [simp]: "meta_ok (v\<lparr>v_root := root\<rparr>) = meta_ok v"
proof -
  have "meta_fields_valid (v\<lparr>v_root := root\<rparr>) = meta_fields_valid v"
    by (simp add: meta_fields_iff)
  moreover have "meta_counts (v\<lparr>v_root := root\<rparr>) = meta_counts v"
    unfolding meta_counts_def meta_emitted_node_counts_def Let_def by simp
  moreover have "root_counts (v\<lparr>v_root := root\<rparr>) = root_counts v" "meta_times (v\<lparr>v_root := root\<rparr>) = meta_times v"
    by (simp_all add: root_counts_def root_emitted_node_counts_def meta_times_def)
  ultimately show ?thesis unfolding meta_ok_def by simp
qed

lemma on_entry_saveable:
  assumes "saveable v" and "keeps_entry f"
  shows "saveable (snd (on_entry env i f v))"
proof (cases "find_entry_by_id_mut env i f (v_root v)")
  case (Some x)
  obtain r root where x: "x = (r, root)" by (cases x)
  then have "tree_ok root \<and> node_ids root = node_ids (v_root v)"
    using find_entry_mut_ok(1) [of env i f "v_root v" r root] Some assms by (simp add: saveable_iff root_ok_def)
  then show ?thesis using assms(1) by (simp add: on_entry_def Some x saveable_iff root_ok_def)
qed (use assms(1) in \<open>simp add: on_entry_def\<close>)

lemma distinct_of_mset: "mset xs = mset ys \<Longrightarrow> distinct xs = distinct ys"
  by (rule mset_eq_imp_distinct_iff)

lemma root_ok_added:
  assumes "root_ok g" and "tree_ok g'" and "mset (node_ids g') = mset (node_ids g) + mset new"
    and "distinct new" and "0 \<notin> set new" and "set new \<inter> set (node_ids g) = {}"
  shows "root_ok g'"
proof -
  have "mset (node_ids g') = mset (node_ids g @ new)" using assms(3) by simp
  from distinct_of_mset [OF this] mset_eq_setD [OF this] show ?thesis
    using assms by (auto simp: root_ok_def)
qed

lemma on_group_adds:
  assumes "saveable v" and "keeps_group (mset new) f"
    and "distinct new" and "0 \<notin> set new" and "set new \<inter> set (node_ids (v_root v)) = {}"
  shows "saveable (snd (on_group env i f v))"
proof (cases "find_group_by_id_mut env i f (v_root v)")
  case (Some x)
  obtain r root where x: "x = (r, root)" by (cases x)
  have "tree_ok root \<and> mset (node_ids root) = mset (node_ids (v_root v)) + mset new"
    using find_group_mut_ok(1) [of env i f "v_root v" r root "mset new"] Some x assms(1,2)
    by (simp add: saveable_iff root_ok_def)
  then have "root_ok root" using root_ok_added [of "v_root v" root new] assms by (simp add: saveable_iff)
  then show ?thesis using assms(1) by (simp add: on_group_def Some x saveable_iff)
qed (use assms(1) in \<open>simp add: on_group_def\<close>)

lemma on_group_saveable: "saveable v \<Longrightarrow> keeps_group {#} f \<Longrightarrow> saveable (snd (on_group env i f v))"
  using on_group_adds [of v "[]" f] by simp

section \<open>Changes of an entry and of a group\<close>

definition sound_edit :: "(entry_core \<Rightarrow> entry_core) \<Rightarrow> bool" where
  "sound_edit f \<longleftrightarrow> (\<forall>e. live_ok e \<longrightarrow> live_ok (f e) \<and> e_id (f e) = e_id e)"

lemma sound_comp: "sound_edit f \<Longrightarrow> sound_edit g \<Longrightarrow> sound_edit (f \<circ> g)"
  by (simp add: sound_edit_def)

lemma sound_with_some: "(\<And>a. x = Some a \<Longrightarrow> sound_edit (f a)) \<Longrightarrow> sound_edit (with_some x f)"
  by (cases x) (auto simp: sound_edit_def with_some_def)

lemma sound_id: "sound_edit (\<lambda>e. e)"
  by (simp add: sound_edit_def)

lemma keeps_upd: "sound_edit f \<Longrightarrow> keeps_entry (\<lambda>entry. (r entry, upd_entry f entry))"
  by (simp add: keeps_entry_def sound_edit_def entry_ok_def)

lemma keeps_edit: "sound_edit f \<Longrightarrow> keeps_entry (edit env f)"
  using keeps_upd [of f "\<lambda>entry. Inr (project_entry env (upd_entry f entry))"] by (simp add: edit_def [abs_def] Let_def)

lemma keeps_entry_id: "keeps_entry (\<lambda>entry. (r entry, entry))"
  by (simp add: keeps_entry_def)

lemma keeps_entry_cases: "(\<And>x. keeps_entry (f x)) \<Longrightarrow> keeps_entry (\<lambda>entry. f (x entry) entry)"
  by (simp add: keeps_entry_def)

definition sound_group :: "(group_core \<Rightarrow> group_core) \<Rightarrow> bool" where
  "sound_group f \<longleftrightarrow>
     (\<forall>g. gcore_ok g \<longrightarrow> gcore_ok (f g) \<and> g_id (f g) = g_id g \<and>
        (\<forall>eids gids. children_ok g eids gids \<longrightarrow> children_ok (f g) eids gids))"

lemma sound_group_comp: "sound_group f \<Longrightarrow> sound_group g \<Longrightarrow> sound_group (f \<circ> g)"
  by (simp add: sound_group_def)

lemma sound_group_with_some: "(\<And>a. x = Some a \<Longrightarrow> sound_group (f a)) \<Longrightarrow> sound_group (with_some x f)"
  by (cases x) (auto simp: sound_group_def with_some_def)

lemma keeps_group_upd:
  assumes "sound_group f"
  shows "keeps_group {#} (\<lambda>g. (r g, upd_group f g))"
  unfolding keeps_group_def
proof (intro allI impI)
  fix g assume "tree_ok g"
  then show "tree_ok (snd (r g, upd_group f g)) \<and> group_id (snd (r g, upd_group f g)) = group_id g \<and>
      mset (node_ids (snd (r g, upd_group f g))) = mset (node_ids g) + {#}"
    using assms by (cases g) (simp add: upd_group_def sound_group_def)
qed

lemma keeps_regroup: "sound_group f \<Longrightarrow> keeps_group {#} (regroup view f)"
  using keeps_group_upd [of f "\<lambda>g. Inr (view (g_core (upd_group f g)))"] by (simp add: regroup_def [abs_def] Let_def)

lemma keeps_group_id: "keeps_group {#} (\<lambda>g. (r g, g))"
  by (simp add: keeps_group_def)

end
