(* ===== verification/SaveableOps.thy ===== *)
theory SaveableOps
  imports SaveableVault
begin

text \<open>
  Every mutation of an entry or of a group keeps a writable vault writable, whether it succeeds or fails.
\<close>

section \<open>Input checks\<close>

lemma check_all_Inr [simp]: "check_all check xs = Inr u \<longleftrightarrow> (\<forall>x \<in> set xs. check x = Inr ())"
proof -
  have "try_fold (\<lambda>_. check) a xs = Inr u \<longleftrightarrow> (\<forall>x \<in> set xs. check x = Inr ())" for a
    by (induction xs arbitrary: a) (auto simp: and_then_eq_Inr)
  then show ?thesis by (simp add: check_all_def)
qed

lemma check_some_Inr [simp]: "check_some check x = Inr u \<longleftrightarrow> (\<forall>a. x = Some a \<longrightarrow> check a = Inr ())"
  by (cases x) (simp_all add: check_some_def)

lemma checked_values [simp]:
  "validate_persistent_timestamp t = Inr u \<longleftrightarrow> kdbx4_time_ok t"
  "validate_persistent_unsigned_timestamp n = Inr u \<longleftrightarrow> kdbx4_unsigned_time_ok n"
  "validate_non_empty_key key kind = Inr u \<longleftrightarrow> key \<noteq> []"
  by (simp_all add: validate_persistent_timestamp_def validate_persistent_unsigned_timestamp_def validate_non_empty_key_def)

lemma checked_uuid: "parse_uuid env x = Inr u \<Longrightarrow> u \<noteq> 0"
  by (auto simp: parse_uuid_def split: option.splits if_splits)

lemma checked_icon: "known_custom_icon env icon v = Inr parsed \<Longrightarrow> parsed \<noteq> Some 0"
  by (auto simp: known_custom_icon_def and_then_eq_Inr split: option.splits if_splits dest: checked_uuid)

lemma checked_tags: "validate_persistent_tags tags = Inr u \<Longrightarrow> tags_are_persistence_valid tags"
  by (auto simp: validate_persistent_tags_def tags_are_persistence_valid_def list_all_iff find_None_iff
      split: option.splits)

section \<open>Identity\<close>

lemma kept_entry_id [simp]:
  "e_id (remove_entry_node name e) = e_id e" "e_id (change_strings f e) = e_id (f e)"
  "e_id (retarget_binaries old new renames e) = e_id e" "e_id (canonicalize_entry_custom_data u e) = e_id e"
  by (simp_all add: remove_entry_node_def Let_def change_strings_def retarget_strings_def retarget_binaries_def
      canonicalize_entry_custom_data_def split: prod.split)

lemma kept_setter_id [simp]:
  "e_id (set_icon_id icon e) = e_id e" "e_id (set_foreground_color x e) = e_id e"
  "e_id (set_background_color x e) = e_id e" "e_id (set_override_url x e) = e_id e"
  "e_id (set_exclude_from_reports b e) = e_id e" "e_id (clear_previous_parent e) = e_id e"
  "e_id (set_entry_custom_icon i e) = e_id e" "e_id (set_tags tags e) = e_id e"
  by (simp_all add: set_icon_id_def set_foreground_color_def set_background_color_def set_override_url_def
      set_exclude_from_reports_def clear_previous_parent_def set_entry_custom_icon_def set_tags_def Let_def)

lemma sound_setters:
  "sound_edit (set_icon_id icon)" "sound_edit (set_foreground_color x)" "sound_edit (set_background_color x)"
  "sound_edit (set_override_url x)" "sound_edit (set_exclude_from_reports b)" "sound_edit clear_previous_parent"
  "i \<noteq> Some 0 \<Longrightarrow> sound_edit (set_entry_custom_icon i)" "tags_are_persistence_valid tags \<Longrightarrow> sound_edit (set_tags tags)"
  by (simp_all add: sound_edit_def live_ok_setters)

lemma sound_neutral:
  "sound_edit (\<lambda>e. e\<lparr>e_title := x\<rparr>)" "sound_edit (\<lambda>e. e\<lparr>e_username := x\<rparr>)" "sound_edit (\<lambda>e. e\<lparr>e_password := x\<rparr>)"
  "sound_edit (\<lambda>e. e\<lparr>e_url := x\<rparr>)" "sound_edit (\<lambda>e. e\<lparr>e_notes := x\<rparr>)" "sound_edit (\<lambda>e. e\<lparr>e_usage_count := n\<rparr>)"
  by (simp_all add: sound_edit_def)

section \<open>Entries\<close>

lemma keeps_view: "sound_edit f \<Longrightarrow> keeps_entry (\<lambda>entry. let entry' = upd_entry f entry in (Inr (view (e_core entry')), entry'))"
  using keeps_upd [of f "\<lambda>entry. Inr (view (e_core (upd_entry f entry)))"] by (simp add: Let_def)

lemma update_entry_fields_saveable: "saveable v \<Longrightarrow> saveable (snd (update_entry_fields env i u v))"
  unfolding update_entry_fields_def Let_def
  by (intro guarded_saveable on_entry_saveable keeps_edit sound_comp sound_with_some sound_neutral)

lemma update_entry_presentation_saveable:
  "saveable v \<Longrightarrow> saveable (snd (update_entry_presentation_metadata env i u v))"
  unfolding update_entry_presentation_metadata_def
  by (intro guarded_saveable on_entry_saveable keeps_view sound_comp sound_with_some sound_setters)

lemma update_entry_lineage_saveable:
  assumes "saveable v"
  shows "saveable (snd (update_entry_lineage_report_metadata env i u v))"
proof -
  have finish: "saveable (snd (on_entry env i (\<lambda>entry.
      let entry' = upd_entry (with_some (elu_exclude_from_reports u) set_exclude_from_reports \<circ> f) entry
      in (Inr (project_entry_lineage_report_metadata env (e_core entry')), entry')) v))" if "sound_edit f" for f
    using assms that by (intro on_entry_saveable keeps_view sound_comp sound_with_some sound_setters)
  have parent: "sound_edit (\<lambda>e. e\<lparr>e_previous_parent := Some p\<rparr>)" if "parse_uuid env x = Inr p" for x p
    using checked_uuid [OF that] by (simp add: sound_edit_def live_ok_previous_parent)
  have "saveable (snd (guarded (Inl e) (\<lambda>x. x) v))" for e using assms by (simp add: guarded_def)
  then show ?thesis
    unfolding update_entry_lineage_report_metadata_def Let_def
    using finish [unfolded Let_def] parent sound_setters(6) sound_id assms
    by (auto split: option.split intro!: guarded_saveable)
qed

lemma update_entry_auto_type_saveable: "saveable v \<Longrightarrow> saveable (snd (update_entry_auto_type env i u v))"
  unfolding update_entry_auto_type_def Let_def
  by (intro guarded_saveable on_entry_saveable)
     (simp_all add: keeps_entry_def entry_ok_def live_ok_auto_type)

lemma sound_times:
  "kdbx4_unsigned_time_ok t \<Longrightarrow> sound_edit (\<lambda>e. e\<lparr>e_created_at := t\<rparr>)"
  "kdbx4_unsigned_time_ok t \<Longrightarrow> sound_edit (\<lambda>e. e\<lparr>e_modified_at := t\<rparr>)"
  "(\<And>t. x = Some t \<Longrightarrow> kdbx4_unsigned_time_ok t) \<Longrightarrow> sound_edit (\<lambda>e. e\<lparr>e_last_accessed_at := x\<rparr>)"
  "kdbx4_unsigned_time_ok t \<Longrightarrow> sound_edit (\<lambda>e. e\<lparr>e_location_changed_at := Some t\<rparr>)"
  by (simp_all add: sound_edit_def live_ok_created live_ok_modified live_ok_accessed live_ok_location)

lemma update_entry_times_saveable:
  assumes "saveable v"
  shows "saveable (snd (update_entry_times env i u v))"
  unfolding update_entry_times_def
proof (rule guarded_saveable [OF assms], rule guarded_saveable [OF assms], rule guarded_saveable [OF assms])
  fix x y z
  assume present: "(if etu_location_changed_at u = Some None then Inl (Err_InvalidEntryValue Cannot_Be_Cleared) else Inr ()) = Inr x"
    and a: "check_all validate_persistent_unsigned_timestamp (somes [etu_created_at u, etu_modified_at u]) = Inr y"
    and b: "check_all validate_persistent_unsigned_timestamp (somes (somes [etu_last_accessed_at u, etu_location_changed_at u])) = Inr z"
  have ok: "\<And>t. etu_created_at u = Some t \<Longrightarrow> kdbx4_unsigned_time_ok t" "\<And>t. etu_modified_at u = Some t \<Longrightarrow> kdbx4_unsigned_time_ok t"
    "\<And>t. etu_last_accessed_at u = Some (Some t) \<Longrightarrow> kdbx4_unsigned_time_ok t"
    "\<And>t. etu_location_changed_at u = Some (Some t) \<Longrightarrow> kdbx4_unsigned_time_ok t"
    using a b unfolding check_all_Inr checked_values set_somes mem_Collect_eq by simp_all
  have location: "sound_edit (\<lambda>e. e\<lparr>e_location_changed_at := l\<rparr>)" if "etu_location_changed_at u = Some l" for l
    using that present ok(4) by (cases l) (auto intro: sound_times)
  show "saveable (snd (on_entry env i (\<lambda>entry.
       let entry' = upd_entry
         (with_some (etu_location_changed_at u) (\<lambda>x e. e\<lparr>e_location_changed_at := x\<rparr>) \<circ>
          with_some (etu_usage_count u) (\<lambda>x e. e\<lparr>e_usage_count := x\<rparr>) \<circ>
          with_some (etu_last_accessed_at u) (\<lambda>x e. e\<lparr>e_last_accessed_at := x\<rparr>) \<circ>
          with_some (etu_modified_at u) (\<lambda>x e. e\<lparr>e_modified_at := x\<rparr>) \<circ>
          with_some (etu_created_at u) (\<lambda>x e. e\<lparr>e_created_at := x\<rparr>)) entry
       in (Inr (project_entry_times (e_core entry')), entry')) v))"
    by (intro on_entry_saveable [OF assms] keeps_view sound_comp sound_with_some sound_neutral location sound_times ok)
       simp_all
qed

lemma update_entry_expiry_saveable:
  assumes "saveable v"
  shows "saveable (snd (update_entry_expiry env i u v))"
  unfolding update_entry_expiry_def
  by (intro guarded_saveable on_entry_saveable keeps_edit assms)
     (auto simp: sound_edit_def split: if_splits intro!: live_ok_expiry)

lemma update_entry_custom_icon_saveable:
  "saveable v \<Longrightarrow> saveable (snd (update_entry_custom_icon env i icon v))"
  unfolding update_entry_custom_icon_def
  by (intro guarded_saveable on_entry_saveable keeps_edit sound_setters) (auto dest: checked_icon)

lemma replace_entry_tags_saveable: "saveable v \<Longrightarrow> saveable (snd (replace_entry_tags env i tags v))"
  unfolding replace_entry_tags_def
  by (cases "validate_persistent_tags tags")
     (auto intro!: on_entry_saveable keeps_entry_id keeps_edit sound_setters dest: checked_tags)

lemma update_entry_field_protection_saveable:
  "saveable v \<Longrightarrow> saveable (snd (update_entry_field_protection env i u v))"
  unfolding update_entry_field_protection_def Let_def
  by (intro guarded_saveable on_entry_saveable keeps_edit) (simp_all add: sound_edit_def)

lemma keeps_entry_if: "keeps_entry f \<Longrightarrow> keeps_entry g \<Longrightarrow> keeps_entry (\<lambda>e. if P e then f e else g e)"
  by (simp add: keeps_entry_def)

lemma upsert_entry_custom_field_saveable:
  assumes "saveable v"
  shows "saveable (snd (upsert_entry_custom_field env i field v))"
proof -
  let ?check = "if fin_key field = [] then Inl (Err_InvalidEntryValue (Empty_Key ''custom field''))
     else if is_reserved_entry_custom_field_key (fin_key field) then Inl (Err_ReservedCustomFieldKey (fin_key field))
     else and_then (validate_unprotected_xml_text (fin_key field) ''custom field key'') (\<lambda>_.
       validate_xml_text_with_protection (fin_value field) (fin_protected field) ''custom field value'')"
  have "sound_edit (\<lambda>e. e\<lparr>e_attributes := bt_insert (fin_key field) x (e_attributes e)\<rparr>)" if "?check = Inr y" for x y
    using that by (auto simp: sound_edit_def split: if_splits intro!: live_ok_custom_field)
  then show ?thesis
    unfolding upsert_entry_custom_field_def
    by (cases ?check) (auto intro!: on_entry_saveable [OF assms] keeps_entry_id keeps_edit)
qed

lemma delete_entry_custom_field_saveable: "saveable v \<Longrightarrow> saveable (snd (delete_entry_custom_field env i key v))"
  unfolding delete_entry_custom_field_def
  by (intro on_entry_saveable keeps_entry_if keeps_entry_id keeps_edit)
     (simp_all add: sound_edit_def live_ok_strings)

lemma default_account_valid:
  assumes "t = default_account current totp"
    and "(if (case tp_account_name t of Some a \<Rightarrow> a | None \<Rightarrow> []) = [] then Inl a
          else if tp_secret_base32 t = [] then Inl b
          else if tp_issuer t = None \<and> CHR '':'' \<in> set (case tp_account_name t of Some a \<Rightarrow> a | None \<Rightarrow> []) then Inl c
          else Inr ()) = Inr x"
  shows "structured_totp_is_persistence_valid t"
proof -
  have "tp_issuer t \<noteq> Some []" by (simp add: assms(1) default_account_def Let_def)
  then show ?thesis
    using assms(2) by (auto simp: structured_totp_is_persistence_valid_def split: option.splits if_splits)
qed

lemma set_entry_totp_saveable: "saveable v \<Longrightarrow> saveable (snd (set_entry_totp env i totp v))"
  unfolding set_entry_totp_def Let_def
  by (intro guarded_saveable on_entry_saveable keeps_edit)
     (auto simp: sound_edit_def intro!: live_ok_strings default_account_valid [OF refl])

lemma clear_entry_totp_saveable: "saveable v \<Longrightarrow> saveable (snd (clear_entry_totp env i v))"
  unfolding clear_entry_totp_def
  by (intro on_entry_saveable keeps_edit) (simp_all add: sound_edit_def live_ok_strings)

lemma set_entry_passkey_saveable: "saveable v \<Longrightarrow> saveable (snd (set_entry_passkey env i passkey v))"
  unfolding set_entry_passkey_def
  by (intro guarded_saveable on_entry_saveable keeps_edit) (simp_all add: sound_edit_def live_ok_strings)

lemma clear_entry_passkey_saveable: "saveable v \<Longrightarrow> saveable (snd (clear_entry_passkey env i v))"
  unfolding clear_entry_passkey_def
  by (intro on_entry_saveable keeps_edit) (simp_all add: sound_edit_def live_ok_strings)

section \<open>Attachments, custom data, history\<close>

lemma add_entry_attachment_saveable: "saveable v \<Longrightarrow> saveable (snd (add_entry_attachment env i a v))"
  unfolding add_entry_attachment_def
  by (intro guarded_saveable on_entry_saveable keeps_edit)
     (auto simp: sound_edit_def split: if_splits intro!: live_ok_add_attachment)

lemma delete_entry_attachment_saveable: "saveable v \<Longrightarrow> saveable (snd (delete_entry_attachment env i name v))"
  unfolding delete_entry_attachment_def
  by (intro on_entry_saveable keeps_entry_if keeps_entry_id keeps_edit)
     (simp_all add: sound_edit_def live_ok_delete_attachment, simp add: Let_def)

lemma entry_ok_upd: "entry_ok entry \<Longrightarrow> live_ok (f (e_core entry)) \<Longrightarrow> e_id (f (e_core entry)) = entry_id entry \<Longrightarrow>
    entry_ok (upd_entry f entry) \<and> entry_id (upd_entry f entry) = entry_id entry"
  by (simp add: entry_ok_def)

lemma update_entry_attachment_metadata_saveable:
  assumes "saveable v"
  shows "saveable (snd (update_entry_attachment_metadata env i name u v))"
  unfolding update_entry_attachment_metadata_def
proof (rule on_entry_saveable [OF assms], unfold keeps_entry_def, intro allI impI)
  fix entry assume ok: "entry_ok entry"
  let ?e = "e_core entry"
  have live: "live_ok ?e" using ok by (simp add: entry_ok_def)
  let ?body = "\<lambda>entry. if amu_new_name u = Some [] then (Inl (Err_InvalidEntryValue (Empty_Key ''attachment name'')), entry)
       else case check_some (\<lambda>x. validate_unprotected_xml_text x ''attachment name'') (amu_new_name u) of
         Inl e \<Rightarrow> (Inl e, entry)
       | Inr _ \<Rightarrow>
         (let e = e_core entry; old_identities = entry_binary_identities e in
          case bt_get (e_attachments e) name of
            None \<Rightarrow> (Inl (Err_AttachmentNotFound name), entry)
          | Some a \<Rightarrow>
            (let rest = bt_remove name (e_attachments e);
                 target = (case amu_new_name u of Some n \<Rightarrow> n | None \<Rightarrow> a_name a) in
             if target \<noteq> name \<and> bt_contains rest target
             then (Inl (Err_AttachmentAlreadyExists target),
                   upd_entry (\<lambda>e. e\<lparr>e_attachments := bt_insert name a rest\<rparr>) entry)
             else let a' = (with_some (amu_protect_in_memory u) (\<lambda>x a. a\<lparr>a_protect_in_memory := x\<rparr>)) (a\<lparr>a_name := target\<rparr>);
                      e' = e\<lparr>e_attachments := bt_insert target a' rest\<rparr>;
                      entry' = upd_entry (\<lambda>_. retarget_binaries old_identities (entry_binary_identities e')
                                 [(name, target)] e') entry
                  in (Inr (project_attachment_items (e_attachments (e_core entry'))), entry')))"
  show "entry_ok (snd (?body entry)) \<and> entry_id (snd (?body entry)) = entry_id entry"
  proof (cases "amu_new_name u \<noteq> Some [] \<and>
      (\<exists>x. check_some (\<lambda>x. validate_unprotected_xml_text x ''attachment name'') (amu_new_name u) = Inr x) \<and>
      bt_get (e_attachments ?e) name \<noteq> None")
    case False
    then have "snd (?body entry) = entry"
      by (cases "check_some (\<lambda>x. validate_unprotected_xml_text x ''attachment name'') (amu_new_name u)")
         (auto simp: Let_def simp del: check_some_Inr)
    then show ?thesis using ok by simp
  next
    case ready: True
    then obtain a where a: "bt_get (e_attachments ?e) name = Some a" by blast
    let ?rest = "bt_remove name (e_attachments ?e)"
    define target where "target = (case amu_new_name u of Some n \<Rightarrow> n | None \<Rightarrow> a_name a)"
    have "(name, a) \<in> set (e_attachments ?e)" using a by (simp add: map_of_SomeD)
    then have "target \<noteq> []" using ready attachment_names [OF live] by (auto simp: target_def split: option.split)
    obtain x where check: "check_some (\<lambda>x. validate_unprotected_xml_text x ''attachment name'') (amu_new_name u) = Inr x"
      using ready by blast
    show ?thesis
    proof (cases "target \<noteq> name \<and> bt_contains ?rest target")
      case True
      then have "snd (?body entry) = upd_entry (\<lambda>e. e\<lparr>e_attachments := bt_insert name a ?rest\<rparr>) entry"
        using ready by (simp add: a check Let_def target_def [symmetric] del: check_some_Inr)
      then show ?thesis
        using entry_ok_upd [OF ok, of "\<lambda>e. e\<lparr>e_attachments := bt_insert name a ?rest\<rparr>"] live_ok_retained_attachment [OF live a]
        by simp
    next
      case free: False
      define a' where "a' = with_some (amu_protect_in_memory u) (\<lambda>x a. a\<lparr>a_protect_in_memory := x\<rparr>) (a\<lparr>a_name := target\<rparr>)"
      define e' where "e' = ?e\<lparr>e_attachments := bt_insert target a' ?rest\<rparr>"
      let ?r = "retarget_binaries (entry_binary_identities ?e) (entry_binary_identities e') [(name, target)] e'"
      have "a_name a' = target" by (cases "amu_protect_in_memory u") (simp_all add: a'_def with_some_def)
      then have "live_ok ?r"
        unfolding e'_def
        by (intro live_ok_rename_attachment [OF live a \<open>target \<noteq> []\<close>])
           (use free in \<open>auto simp: bt_contains_iff\<close>)
      moreover have "e_id ?r = e_id ?e" by (simp add: e'_def)
      moreover have "snd (?body entry) = upd_entry (\<lambda>_. ?r) entry"
        using ready by (simp add: a check Let_def target_def [symmetric] if_not_P [OF free] a'_def [symmetric]
            e'_def [symmetric] del: check_some_Inr)
      ultimately show ?thesis using entry_ok_upd [OF ok, of "\<lambda>_. ?r"] by simp
    qed
  qed
qed

lemma replace_entry_attachment_content_saveable:
  assumes "saveable v"
  shows "saveable (snd (replace_entry_attachment_content env i name data v))"
  unfolding replace_entry_attachment_content_def
proof (rule guarded_saveable [OF assms], rule on_entry_saveable [OF assms], unfold keeps_entry_def, intro allI impI)
  fix content entry assume ok: "entry_ok entry"
  then have live: "live_ok (e_core entry)" by (simp add: entry_ok_def)
  show "entry_ok (snd (case bt_get (e_attachments (e_core entry)) name of
         None \<Rightarrow> (Inl (Err_AttachmentNotFound name), entry)
       | Some a \<Rightarrow>
         (let entry' = upd_entry (\<lambda>e. e\<lparr>e_attachments := bt_insert name (a\<lparr>a_data := content\<rparr>) (e_attachments e)\<rparr>) entry
          in (Inr (project_attachment_items (e_attachments (e_core entry'))), entry')))) \<and>
    entry_id (snd (case bt_get (e_attachments (e_core entry)) name of
         None \<Rightarrow> (Inl (Err_AttachmentNotFound name), entry)
       | Some a \<Rightarrow>
         (let entry' = upd_entry (\<lambda>e. e\<lparr>e_attachments := bt_insert name (a\<lparr>a_data := content\<rparr>) (e_attachments e)\<rparr>) entry
          in (Inr (project_attachment_items (e_attachments (e_core entry'))), entry')))) = entry_id entry"
  proof (cases "bt_get (e_attachments (e_core entry)) name")
    case (Some a)
    then have "(name, a) \<in> set (e_attachments (e_core entry))" by (simp add: map_of_SomeD)
    then have "name \<noteq> []" "a_name a = name" using attachment_names [OF live] by blast+
    then have "live_ok ((e_core entry)\<lparr>e_attachments := bt_insert name (a\<lparr>a_data := content\<rparr>) (e_attachments (e_core entry))\<rparr>)"
      by (intro live_ok_add_attachment [OF live]) simp_all
    then show ?thesis using ok Some by (simp add: Let_def entry_ok_def)
  qed (use ok in simp)
qed

lemma custom_data_wf:
  assumes "live_ok e"
  shows "bt_wf (e_custom_data e) \<and> [] \<notin> fst ` set (e_custom_data e)"
proof -
  have merged: "bt_wf (merge_custom_data_blocks bs)" for bs by (simp add: merge_custom_data_blocks_def)
  from assms have "custom_data_ok (e_custom_data e) (e_custom_data_blocks e)" unfolding live_ok_def by blast
  then show ?thesis unfolding custom_data_ok_def by (metis merged)
qed

lemma sound_put_custom_data:
  assumes "key \<noteq> []" and "\<And>t. modified = Some t \<Longrightarrow> kdbx4_time_ok t"
  shows "sound_edit (put_entry_custom_data key x modified)"
  unfolding sound_edit_def
proof (intro allI impI)
  fix e assume live: "live_ok e"
  have "live_ok (put_entry_custom_data key x modified e)"
    unfolding put_entry_custom_data_def
    using custom_data_wf [OF live] assms by (intro live_ok_canonicalize [OF live]) (auto simp: fst_set_bt_insert)
  then show "live_ok (put_entry_custom_data key x modified e) \<and> e_id (put_entry_custom_data key x modified e) = e_id e"
    by (simp add: put_entry_custom_data_def)
qed

lemma checked_custom_data: "validate_custom_data_item key x = Inr u \<Longrightarrow> key \<noteq> []"
  by (auto simp: validate_custom_data_item_def and_then_eq_Inr)

lemma upsert_entry_custom_data_saveable: "saveable v \<Longrightarrow> saveable (snd (upsert_entry_custom_data env i key x v))"
  unfolding upsert_entry_custom_data_def
  by (intro guarded_saveable on_entry_saveable keeps_edit sound_put_custom_data) (auto dest: checked_custom_data)

lemma upsert_entry_custom_data_detail_saveable:
  "saveable v \<Longrightarrow> saveable (snd (upsert_entry_custom_data_detail env i item v))"
  unfolding upsert_entry_custom_data_detail_def
  by (intro guarded_saveable on_entry_saveable keeps_edit sound_put_custom_data) (auto dest: checked_custom_data)

lemma delete_entry_custom_data_saveable:
  assumes "saveable v"
  shows "saveable (snd (delete_entry_custom_data env i key v))"
proof -
  have "live_ok (canonicalize_entry_custom_data None (e\<lparr>e_custom_data := bt_remove key (e_custom_data e)\<rparr>))" if "live_ok e" for e
    using custom_data_wf [OF that] by (intro live_ok_canonicalize [OF that]) (auto simp: bt_remove_def)
  then show ?thesis
    unfolding delete_entry_custom_data_def
    by (intro on_entry_saveable [OF assms] keeps_entry_if keeps_entry_id keeps_edit) (simp add: sound_edit_def)
qed

lemma history_saveable:
  assumes "saveable v"
  shows "saveable (snd (snapshot_entry_to_history env i v))" and "saveable (snd (clear_entry_history env i v))"
  unfolding snapshot_entry_to_history_def clear_entry_history_def Let_def
  by (intro on_entry_saveable [OF assms];
      auto simp: keeps_entry_def entry_ok_def intro: snapshot_of_live)+

end
