(* ===== verification/SaveableGroup.thy ===== *)
theory SaveableGroup
  imports SaveableOps
begin

text \<open>
  Every mutation of a group, and the sweep that clears the references to an icon, keep a writable vault
  writable.
\<close>

section \<open>Changes of a group\<close>

lemma group_counts_alt:
  "group_counts g =
     [(''UUID'', 1), (''Name'', 1), (''Notes'', 1), (''IconID'', 1), (''Times'', 1), (''IsExpanded'', 1),
      (''DefaultAutoTypeSequence'', 1), (''EnableAutoType'', 1), (''EnableSearching'', 1),
      (''LastTopVisibleEntry'', of_bool_nat (g_last_top_visible_entry g \<noteq> None)),
      (''CustomIconUUID'', of_bool_nat (g_custom_icon_id g \<noteq> None)),
      (''Tags'', of_bool_nat (g_tags g \<noteq> [])),
      (''PreviousParentGroup'', of_bool_nat (g_previous_parent g \<noteq> None)),
      (''CustomData'', custom_data_emitted_count (g_custom_data_blocks g) (g_custom_data g))]"
  by (simp add: group_counts_def group_emitted_node_counts_def Let_def)

text \<open>Slots stay covered when counts only shrink at names that leave the order.\<close>

definition covers :: "(string \<Rightarrow> bool) \<Rightarrow> (string \<times> nat) list \<Rightarrow> (string \<times> nat) list \<Rightarrow> bool" where
  "covers P counts counts' \<longleftrightarrow> list_all2 (\<lambda>(n, c) (n', c'). n = n' \<and> (P n \<longrightarrow> c \<le> c')) counts counts'"

lemma covers_map_of:
  assumes "covers P counts counts'" and "map_of counts n = Some c" and "P n"
  shows "\<exists>c' \<ge> c. map_of counts' n = Some c'"
  using assms unfolding covers_def by (induction rule: list_all2_induct) (auto split: if_splits)

lemma node_ok_kept:
  assumes "node_ok order counts" and "covers P counts counts'"
  shows "node_ok (filter P order) counts'"
  unfolding node_ok_def
proof
  fix n assume n: "n \<in> set (filter P order)"
  then obtain c where c: "map_of counts n = Some c" "count_list order n \<le> c" using assms(1) by (auto simp: node_ok_def)
  from covers_map_of [OF assms(2) c(1)] n obtain c' where "c \<le> c'" "map_of counts' n = Some c'" by auto
  then show "\<exists>c. map_of counts' n = Some c \<and> count_list (filter P order) n \<le> c" using c(2) n by (auto simp: count_filter_other)
qed

lemma children_ok_order:
  assumes "children_ok g eids gids" and "gr_node_order (g_raw_state g') = gr_node_order (g_raw_state g) \<or>
      gr_node_order (g_raw_state g') = filter (\<lambda>n. n \<noteq> name) (gr_node_order (g_raw_state g))"
    and "name \<noteq> ''Entry''" "name \<noteq> ''Group''"
    and "gr_entry_order (g_raw_state g') = gr_entry_order (g_raw_state g)"
    and "gr_group_order (g_raw_state g') = gr_group_order (g_raw_state g)"
  shows "children_ok g' eids gids"
  using assms by (auto simp: children_ok_def slots_ok_def count_filter_other)

lemma sound_groupI:
  assumes fields: "\<And>g. group_fields_valid g \<Longrightarrow> group_fields_valid (f g) \<and> g_id (f g) = g_id g"
    and order: "\<And>g. gr_node_order (g_raw_state (f g)) =
        (if gone g then filter (\<lambda>n. n \<noteq> name) (gr_node_order (g_raw_state g)) else gr_node_order (g_raw_state g))"
    and counts: "\<And>g. covers (\<lambda>n. \<not> (gone g \<and> n = name)) (group_counts g) (group_counts (f g))"
    and items: "\<And>g. map cb_items (g_custom_data_blocks (f g)) = map cb_items (g_custom_data_blocks g)"
      "\<And>g. g_custom_data (f g) = g_custom_data g"
    and times: "\<And>g. g_times (f g) = g_times g"
    and kept: "\<And>g. gr_entry_order (g_raw_state (f g)) = gr_entry_order (g_raw_state g)"
      "\<And>g. gr_group_order (g_raw_state (f g)) = gr_group_order (g_raw_state g)"
    and name: "name \<noteq> ''Entry''" "name \<noteq> ''Group''"
  shows "sound_group f"
  unfolding sound_group_def
proof (intro allI impI)
  fix g assume g: "gcore_ok g"
  let ?P = "\<lambda>n. n \<noteq> ''Entry'' \<and> n \<noteq> ''Group''"
  let ?order = "gr_node_order (g_raw_state g)" and ?order' = "gr_node_order (g_raw_state (f g))"
  have step: "?order' = ?order \<or> ?order' = filter (\<lambda>n. n \<noteq> name) ?order" using order [of g] by simp
  have "node_ok (filter ?P ?order) (group_counts g)" using g by (simp add: gcore_ok_def plain_group_nodes_def)
  from node_ok_kept [OF this counts] have "node_ok (filter ?P ?order') (group_counts (f g))"
    by (cases "gone g") (simp_all add: order conj_commute conj_left_commute)
  then show "gcore_ok (f g) \<and> g_id (f g) = g_id g \<and> (\<forall>eids gids. children_ok g eids gids \<longrightarrow> children_ok (f g) eids gids)"
    using g fields [of g] times [of g] same_items(2) [OF items(1)] items(2)
      children_ok_order [OF _ step name kept]
    by (simp add: gcore_ok_def plain_group_nodes_def)
qed

text \<open>A change that leaves slots, custom data and times alone.\<close>

lemma sound_group_fields:
  assumes "\<And>g. group_fields_valid g \<Longrightarrow> group_fields_valid (f g) \<and> g_id (f g) = g_id g"
    and "\<And>g. gr_node_order (g_raw_state (f g)) = gr_node_order (g_raw_state g) \<and>
      gr_entry_order (g_raw_state (f g)) = gr_entry_order (g_raw_state g) \<and>
      gr_group_order (g_raw_state (f g)) = gr_group_order (g_raw_state g) \<and>
      g_custom_data_blocks (f g) = g_custom_data_blocks g \<and> g_custom_data (f g) = g_custom_data g"
    and "\<And>g. covers (\<lambda>_. True) (group_counts g) (group_counts (f g))"
    and "\<And>g. g_times (f g) = g_times g"
  shows "sound_group f"
  by (rule sound_groupI [where gone = "\<lambda>_. False" and name = "''UUID''"]) (simp_all add: assms)

named_theorems group_parts

lemmas [group_parts] = group_fields_valid_def Let_def raw_nullable_bool_matches_def raw_collapsed_optional_text_matches_def
  some_unless_empty_def group_counts_alt covers_def of_bool_nat_def

lemma sound_group_plain:
  "sound_group (\<lambda>g. g\<lparr>g_flags := x, g_raw_state := (g_raw_state g)\<lparr>gr_enable_auto_type_raw := None, gr_enable_searching_raw := None\<rparr>\<rparr>)"
  "sound_group (\<lambda>g. g\<lparr>g_icon_id := i\<rparr>)" "sound_group (\<lambda>g. g\<lparr>g_notes := s\<rparr>)" "sound_group (\<lambda>g. g\<lparr>g_title := s\<rparr>)"
  "sound_group (\<lambda>g. g\<lparr>g_flags := (g_flags g)\<lparr>gf_enable_searching := b\<rparr>,
      g_raw_state := (g_raw_state g)\<lparr>gr_enable_searching_raw := None\<rparr>\<rparr>)"
  "sound_group (\<lambda>g. g\<lparr>g_flags := (g_flags g)\<lparr>gf_enable_auto_type := b\<rparr>,
      g_raw_state := (g_raw_state g)\<lparr>gr_enable_auto_type_raw := None\<rparr>\<rparr>)"
  "sound_group (\<lambda>g. g\<lparr>g_default_auto_type_sequence := some_unless_empty s,
      g_raw_state := (g_raw_state g)\<lparr>gr_default_auto_type_sequence_raw := None\<rparr>\<rparr>)"
  by (rule sound_group_fields; simp add: group_parts)+

lemma sound_group_visible_entry: "u \<noteq> 0 \<Longrightarrow> sound_group (\<lambda>g. g\<lparr>g_last_top_visible_entry := Some u\<rparr>)"
  by (rule sound_group_fields; auto simp: group_parts)

lemma sound_group_times: "(\<And>g. gcore_ok g \<Longrightarrow> times_ok (f g)) \<Longrightarrow> sound_group (\<lambda>g. g\<lparr>g_times := Some (f g)\<rparr>)"
  by (simp add: sound_group_def gcore_ok_def plain_group_nodes_def children_ok_def group_counts_alt group_fields_valid_def)

lemma removed_group_node [simp]:
  "gr_node_order (g_raw_state (remove_group_node name g)) = filter (\<lambda>n. n \<noteq> name) (gr_node_order (g_raw_state g))"
  "map cb_items (g_custom_data_blocks (remove_group_node name g)) = map cb_items (g_custom_data_blocks g)"
  by (simp_all add: remove_group_node_def Let_def removed_node_order removed_node_items)

lemma removed_group_fields [simp]:
  "g_id (remove_group_node name g) = g_id g" "g_custom_data (remove_group_node name g) = g_custom_data g"
  "g_times (remove_group_node name g) = g_times g" "g_flags (remove_group_node name g) = g_flags g"
  "g_custom_icon_id (remove_group_node name g) = g_custom_icon_id g" "g_tags (remove_group_node name g) = g_tags g"
  "g_last_top_visible_entry (remove_group_node name g) = g_last_top_visible_entry g"
  "g_previous_parent (remove_group_node name g) = g_previous_parent g"
  "g_default_auto_type_sequence (remove_group_node name g) = g_default_auto_type_sequence g"
  "gr_entry_order (g_raw_state (remove_group_node name g)) = gr_entry_order (g_raw_state g)"
  "gr_group_order (g_raw_state (remove_group_node name g)) = gr_group_order (g_raw_state g)"
  "gr_default_auto_type_sequence_raw (g_raw_state (remove_group_node name g)) = gr_default_auto_type_sequence_raw (g_raw_state g)"
  "gr_enable_auto_type_raw (g_raw_state (remove_group_node name g)) = gr_enable_auto_type_raw (g_raw_state g)"
  "gr_enable_searching_raw (g_raw_state (remove_group_node name g)) = gr_enable_searching_raw (g_raw_state g)"
  "gr_last_top_visible_entry_raw (g_raw_state (remove_group_node name g)) = gr_last_top_visible_entry_raw (g_raw_state g)"
  by (simp_all add: remove_group_node_def Let_def)

lemma removed_emitted [simp]:
  "custom_data_emitted_count (g_custom_data_blocks (remove_group_node name g)) m = custom_data_emitted_count (g_custom_data_blocks g) m"
  by (rule same_items) simp

lemma bs_of_list_empty: "bs_of_list xs = [] \<longleftrightarrow> xs = []"
  using set_bs_of_list [of xs] by (cases "xs = []") (auto simp: bs_of_list_def)

lemma sound_group_tags: "tags_are_persistence_valid tags \<Longrightarrow> sound_group (set_group_tags tags)"
  by (rule sound_groupI [where name = "''Tags''" and gone = "\<lambda>g. g_tags g \<noteq> [] \<and> tags = []"];
    simp add: set_group_tags_def group_parts tags_are_persistence_valid_def list_all_iff set_bs_of_list bs_of_list_empty
      cong: option.case_cong)

lemma sound_group_previous_parent: "p \<noteq> Some 0 \<Longrightarrow> sound_group (set_group_previous_parent p)"
  by (rule sound_groupI [where name = "''PreviousParentGroup''" and gone = "\<lambda>g. g_previous_parent g \<noteq> None \<and> p = None"];
    simp add: set_group_previous_parent_def group_parts cong: option.case_cong)

lemma sound_group_custom_icon: "i \<noteq> Some 0 \<Longrightarrow> sound_group (set_group_custom_icon i)"
  by (rule sound_groupI [where name = "''CustomIconUUID''" and gone = "\<lambda>g. g_custom_icon_id g \<noteq> None \<and> i = None"];
    simp add: set_group_custom_icon_def group_parts cong: option.case_cong)

section \<open>Custom data\<close>

lemma reconciled_nodes:
  assumes "node_ok (filter P order) counts" and "P ''CustomData''"
    and "map_of counts ''CustomData'' = Some (custom_data_emitted_count blocks m)"
    and "custom_data_ok m blocks" and "bt_wf m'" and "[] \<notin> fst ` set m'"
    and "\<And>key t. u = Some (key, Some t) \<Longrightarrow> kdbx4_time_ok t"
    and "reconcile_custom_data_blocks blocks opaque order m' u = (blocks', opaque', order')"
    and "\<And>n. n \<noteq> ''CustomData'' \<Longrightarrow> map_of counts' n = map_of counts n"
    and "map_of counts' ''CustomData'' = Some (custom_data_emitted_count blocks' m')"
  shows "node_ok (filter P order') counts'" and "custom_data_ok m' blocks'"
    and "n \<noteq> ''CustomData'' \<Longrightarrow> count_list order' n = count_list order n"
proof -
  have "count_list (filter P order) ''CustomData'' = count_list order ''CustomData''" by (rule count_filter_other) (rule assms(2))
  then have "count_list order ''CustomData'' \<le> custom_data_emitted_count blocks m"
    using assms(1,2,3) by (cases "''CustomData'' \<in> set order") (auto simp: node_ok_def count_list_0_iff)
  note R = reconciled_custom_data [OF assms(4-6) _ this assms(8)]
  have R': "custom_data_ok m' blocks'" "count_list order' ''CustomData'' \<le> custom_data_emitted_count blocks' m'"
    "filter (\<lambda>n. n \<noteq> ''CustomData'') order' = filter (\<lambda>n. n \<noteq> ''CustomData'') order"
    using R assms(7) by blast+
  show "custom_data_ok m' blocks'" by (rule R'(1))
  show "count_list order' n = count_list order n" if "n \<noteq> ''CustomData''" for n
  proof -
    have "count_list (filter (\<lambda>n. n \<noteq> ''CustomData'') xs) n = count_list xs n" for xs
      using that by (intro count_filter_other)
    from this [of order] this [of order'] show ?thesis by (simp add: R'(3))
  qed
  show "node_ok (filter P order') counts'"
  proof (rule node_ok_swap [OF assms(1) _ assms(9,10)])
    have "filter (\<lambda>n. n \<noteq> ''CustomData'') (filter P xs) = filter P (filter (\<lambda>n. n \<noteq> ''CustomData'') xs)" for xs
      by (induction xs) auto
    then show "filter (\<lambda>n. n \<noteq> ''CustomData'') (filter P order') = filter (\<lambda>n. n \<noteq> ''CustomData'') (filter P order)"
      by (simp only: R'(3))
    show "count_list (filter P order') ''CustomData'' \<le> custom_data_emitted_count blocks' m'"
      using R'(2) assms(2) by (simp add: count_filter_other)
  qed
qed

lemma group_canonicalize:
  assumes "gcore_ok g" and "bt_wf m" and "[] \<notin> fst ` set m" and "\<And>key t. u = Some (key, Some t) \<Longrightarrow> kdbx4_time_ok t"
  defines "g' \<equiv> canonicalize_group_custom_data u (g\<lparr>g_custom_data := m\<rparr>)"
  shows "gcore_ok g' \<and> g_id g' = g_id g \<and> (\<forall>eids gids. children_ok g eids gids \<longrightarrow> children_ok g' eids gids)"
proof -
  obtain blocks opaque order where res: "reconcile_custom_data_blocks (g_custom_data_blocks g) (g_opaque_xml g)
      (gr_node_order (g_raw_state g)) m u = (blocks, opaque, order)" by (metis prod_cases3)
  have g': "g' = g\<lparr>g_custom_data := m, g_custom_data_blocks := blocks, g_opaque_xml := opaque,
      g_raw_state := (g_raw_state g)\<lparr>gr_node_order := order\<rparr>\<rparr>"
    by (simp add: g'_def canonicalize_group_custom_data_def res)
  let ?P = "\<lambda>n. n \<noteq> ''Entry'' \<and> n \<noteq> ''Group''"
  have "node_ok (filter ?P (gr_node_order (g_raw_state g))) (group_counts g)"
    and data: "custom_data_ok (g_custom_data g) (g_custom_data_blocks g)"
    using assms(1) by (simp_all add: gcore_ok_def plain_group_nodes_def)
  note R = reconciled_nodes [OF this(1) _ _ data assms(2,3) _ res]
  have "node_ok (filter ?P order) (group_counts g')"
    by (rule R(1)) (use assms(4) in \<open>auto simp: group_counts_alt g'\<close>)
  moreover have "custom_data_ok m blocks"
    by (rule R(2) [of "group_counts g'"]) (use assms(4) in \<open>auto simp: group_counts_alt g'\<close>)
  moreover have "count_list order n = count_list (gr_node_order (g_raw_state g)) n" if "n \<noteq> ''CustomData''" for n
    by (rule R(3) [of "group_counts g'"]) (use assms(4) that in \<open>auto simp: group_counts_alt g'\<close>)
  ultimately show ?thesis
    using assms(1)
    by (simp add: gcore_ok_def plain_group_nodes_def children_ok_def slots_ok_def) (simp add: g' group_fields_valid_def Let_def)
qed

lemma merged_keys:
  assumes "custom_data_ok m blocks"
  shows "bt_wf m" and "[] \<notin> fst ` set m"
proof -
  have "bt_wf (merge_custom_data_blocks blocks)" by (simp add: merge_custom_data_blocks_def)
  then show "bt_wf m" "[] \<notin> fst ` set m" using assms by (simp_all add: custom_data_ok_def)
qed

lemma sound_put_group_data:
  assumes "key \<noteq> []" and "\<And>t. modified = Some t \<Longrightarrow> kdbx4_time_ok t"
  shows "sound_group (put_group_custom_data key x modified)"
  unfolding sound_group_def put_group_custom_data_def
proof (intro allI impI)
  fix g assume g: "gcore_ok g"
  then have "custom_data_ok (g_custom_data g) (g_custom_data_blocks g)" by (simp add: gcore_ok_def)
  note m = merged_keys [OF this]
  show "gcore_ok (canonicalize_group_custom_data (Some (key, modified)) (g\<lparr>g_custom_data := bt_insert key x (g_custom_data g)\<rparr>)) \<and>
     g_id (canonicalize_group_custom_data (Some (key, modified)) (g\<lparr>g_custom_data := bt_insert key x (g_custom_data g)\<rparr>)) = g_id g \<and>
     (\<forall>eids gids. children_ok g eids gids \<longrightarrow>
        children_ok (canonicalize_group_custom_data (Some (key, modified)) (g\<lparr>g_custom_data := bt_insert key x (g_custom_data g)\<rparr>)) eids gids)"
    by (rule group_canonicalize [OF g]) (use m assms in \<open>auto simp: fst_set_bt_insert\<close>)
qed

lemma sound_drop_group_data:
  "sound_group (\<lambda>g. canonicalize_group_custom_data None (g\<lparr>g_custom_data := bt_remove key (g_custom_data g)\<rparr>))"
  unfolding sound_group_def
proof (intro allI impI)
  fix g assume g: "gcore_ok g"
  then have "custom_data_ok (g_custom_data g) (g_custom_data_blocks g)" by (simp add: gcore_ok_def)
  note m = merged_keys [OF this]
  show "gcore_ok (canonicalize_group_custom_data None (g\<lparr>g_custom_data := bt_remove key (g_custom_data g)\<rparr>)) \<and>
     g_id (canonicalize_group_custom_data None (g\<lparr>g_custom_data := bt_remove key (g_custom_data g)\<rparr>)) = g_id g \<and>
     (\<forall>eids gids. children_ok g eids gids \<longrightarrow>
        children_ok (canonicalize_group_custom_data None (g\<lparr>g_custom_data := bt_remove key (g_custom_data g)\<rparr>)) eids gids)"
    by (rule group_canonicalize [OF g]) (use m in \<open>auto simp: bt_remove_def\<close>)
qed

section \<open>Operations\<close>

lemma keeps_group_view: "sound_group f \<Longrightarrow> keeps_group {#} (\<lambda>g. let g' = upd_group f g in (Inr (view g'), g'))"
  using keeps_group_upd [of f "\<lambda>g. Inr (view (upd_group f g))"] by (simp add: Let_def)

lemma update_group_metadata_saveable: "saveable v \<Longrightarrow> saveable (snd (update_group_metadata env i u v))"
  unfolding update_group_metadata_def
  by (intro guarded_saveable on_group_saveable keeps_group_view sound_group_comp sound_group_with_some sound_group_plain)

lemma update_group_behavior_saveable: "saveable v \<Longrightarrow> saveable (snd (update_group_behavior_metadata env i u v))"
  unfolding update_group_behavior_metadata_def
  by (intro guarded_saveable on_group_saveable keeps_regroup sound_group_comp sound_group_with_some sound_group_plain
      sound_group_visible_entry) (auto simp: and_then_eq_Inr split: option.splits dest: checked_uuid)

lemma resolved_reference: "resolve_group_reference_update env u v = Inr r \<Longrightarrow> r \<noteq> Some (Some 0)"
  by (auto simp: resolve_group_reference_update_def and_then_eq_Inr split: option.splits if_splits dest: checked_uuid)

lemma update_group_lineage_saveable: "saveable v \<Longrightarrow> saveable (snd (update_group_lineage_tag_metadata env i u v))"
  unfolding update_group_lineage_tag_metadata_def
  by (intro guarded_saveable on_group_saveable keeps_regroup sound_group_comp sound_group_with_some sound_group_tags
      sound_group_previous_parent) (auto simp del: check_some_Inr dest: resolved_reference checked_tags
      simp: check_some_def)

lemma default_times_ok: "gcore_ok g \<Longrightarrow> times_ok (times_or_default g)"
  by (cases "g_times g") (simp_all add: gcore_ok_def times_or_default_def times_ok_def kdbx4_unsigned_time_ok_def kdbx4_time_ok_def
      KDBX4_TIME_OFFSET_def)

lemma times_ok_with_some: "times_ok t \<Longrightarrow> (\<And>a t. x = Some a \<Longrightarrow> times_ok t \<Longrightarrow> times_ok (f a t)) \<Longrightarrow> times_ok (with_some x f t)"
  by (cases x) (simp_all add: with_some_def)

lemma update_group_times_saveable:
  assumes "saveable v"
  shows "saveable (snd (update_group_times env i u v))"
  unfolding update_group_times_def
proof (rule guarded_saveable [OF assms], rule guarded_saveable [OF assms])
  fix x y
  assume a: "check_all validate_persistent_unsigned_timestamp (somes (somes [gtu_created_at u, gtu_modified_at u])) = Inr x"
    and b: "check_all validate_persistent_unsigned_timestamp (somes (somes [gtu_last_accessed_at u, gtu_location_changed_at u])) = Inr y"
  have ok: "\<And>t. gtu_created_at u = Some (Some t) \<Longrightarrow> kdbx4_unsigned_time_ok t"
    "\<And>t. gtu_modified_at u = Some (Some t) \<Longrightarrow> kdbx4_unsigned_time_ok t"
    "\<And>t. gtu_last_accessed_at u = Some (Some t) \<Longrightarrow> kdbx4_unsigned_time_ok t"
    "\<And>t. gtu_location_changed_at u = Some (Some t) \<Longrightarrow> kdbx4_unsigned_time_ok t"
    using a b unfolding check_all_Inr checked_values set_somes mem_Collect_eq by simp_all
  show "saveable (snd (on_group env i (regroup project_group_times (\<lambda>g. g\<lparr>g_times := Some
       ((with_some (gtu_location_changed_at u) (\<lambda>x t. t\<lparr>gt_location_changed_at := x\<rparr>) \<circ>
         with_some (gtu_usage_count u) (\<lambda>x t. t\<lparr>gt_usage_count := x\<rparr>) \<circ>
         with_some (gtu_last_accessed_at u) (\<lambda>x t. t\<lparr>gt_last_accessed_at := x\<rparr>) \<circ>
         with_some (Option.bind (gtu_modified_at u) id) (\<lambda>x t. t\<lparr>gt_modified_at := x\<rparr>) \<circ>
         with_some (Option.bind (gtu_created_at u) id) (\<lambda>x t. t\<lparr>gt_created_at := x\<rparr>))
        (times_or_default g))\<rparr>)) v))"
    unfolding comp_apply
    by (intro on_group_saveable [OF assms] keeps_regroup sound_group_times times_ok_with_some default_times_ok)
       (use ok in \<open>auto simp: times_ok_def split: bind_splits\<close>)
qed

lemma update_group_expiry_saveable: "saveable v \<Longrightarrow> saveable (snd (update_group_expiry env i u v))"
  unfolding update_group_expiry_def
  by (intro guarded_saveable on_group_saveable keeps_regroup sound_group_times)
     (auto dest: default_times_ok simp: times_ok_def)

lemma update_group_custom_icon_saveable: "saveable v \<Longrightarrow> saveable (snd (update_group_custom_icon env i icon v))"
  unfolding update_group_custom_icon_def
  by (intro guarded_saveable on_group_saveable keeps_group_view sound_group_custom_icon) (auto dest: checked_icon)

lemma upsert_group_custom_data_saveable: "saveable v \<Longrightarrow> saveable (snd (upsert_group_custom_data env i key x v))"
  unfolding upsert_group_custom_data_def
  by (intro guarded_saveable on_group_saveable keeps_regroup sound_put_group_data) (auto dest: checked_custom_data)

lemma upsert_group_custom_data_detail_saveable:
  "saveable v \<Longrightarrow> saveable (snd (upsert_group_custom_data_detail env i item v))"
  unfolding upsert_group_custom_data_detail_def
  by (intro guarded_saveable on_group_saveable keeps_regroup sound_put_group_data) (auto dest: checked_custom_data)

lemma keeps_group_if: "keeps_group m f \<Longrightarrow> keeps_group m g \<Longrightarrow> keeps_group m (\<lambda>x. if P x then f x else g x)"
  by (simp add: keeps_group_def)

lemma delete_group_custom_data_saveable: "saveable v \<Longrightarrow> saveable (snd (delete_group_custom_data env i key v))"
  unfolding delete_group_custom_data_def
  by (intro on_group_saveable keeps_group_if keeps_group_id keeps_regroup sound_drop_group_data)

section \<open>References to an icon\<close>

definition without_icon :: "uuid \<Rightarrow> entry_core \<Rightarrow> entry_core" where
  "without_icon icon e =
     (if e_custom_icon_id e = Some icon then (remove_entry_node ''CustomIconUUID'' e)\<lparr>e_custom_icon_id := None\<rparr> else e)"

lemma without_icon_ok:
  "live_ok e \<Longrightarrow> live_ok (without_icon icon e)" "e_id (without_icon icon e) = e_id e"
  "er_has_history_node (e_raw_state (without_icon icon e)) = er_has_history_node (e_raw_state e)"
proof -
  show "live_ok (without_icon icon e)" if "live_ok e"
    using live_ok_setters(7) [OF that, of None] that by (auto simp: without_icon_def set_entry_custom_icon_def)
  show "e_id (without_icon icon e) = e_id e"
    "er_has_history_node (e_raw_state (without_icon icon e)) = er_has_history_node (e_raw_state e)"
    by (simp_all add: without_icon_def remove_entry_node_def Let_def)
qed

lemma cleared_entry_ok:
  assumes "entry_ok e"
  shows "entry_ok (clear_custom_icon_references_from_entry icon e) \<and>
    entry_id (clear_custom_icon_references_from_entry icon e) = entry_id e"
proof -
  have cleared: "clear_custom_icon_references_from_entry icon (Entry e h) =
      Entry (without_icon icon e) (map (clear_custom_icon_references_from_entry icon) h)" for e h
    by (simp add: without_icon_def)
  have "snapshot_ok owner (clear_custom_icon_references_from_entry icon s)" if "snapshot_ok owner s" for owner s
    using that unfolding snapshot_ok_def by (cases s) (simp add: cleared without_icon_ok del: clear_custom_icon_references_from_entry.simps)
  then show ?thesis
    using assms by (cases e) (auto simp: cleared entry_ok_def without_icon_ok simp del: clear_custom_icon_references_from_entry.simps)
qed

lemma cleared_tree_ok:
  "tree_ok g \<Longrightarrow> tree_ok (clear_custom_icon_references_from_group icon g) \<and>
     node_ids (clear_custom_icon_references_from_group icon g) = node_ids g \<and>
     group_id (clear_custom_icon_references_from_group icon g) = group_id g"
proof (induction icon g rule: clear_custom_icon_references_from_group.induct)
  case (1 icon g es children)
  let ?clear = "clear_custom_icon_references_from_group icon"
  define g' where "g' = (if g_custom_icon_id g = Some icon
    then (remove_group_node ''CustomIconUUID'' g)\<lparr>g_custom_icon_id := None\<rparr> else g)"
  have g: "gcore_ok g" "children_ok g (map entry_id es) (map group_id children)" using "1.prems" by simp_all
  have "g' = set_group_custom_icon None g \<or> g' = g" by (auto simp: g'_def set_group_custom_icon_def)
  then have "gcore_ok g' \<and> g_id g' = g_id g \<and> children_ok g' (map entry_id es) (map group_id children)"
    using sound_group_custom_icon [of None] g by (auto simp: sound_group_def)
  moreover have "\<forall>e \<in> set es. entry_ok (clear_custom_icon_references_from_entry icon e) \<and>
      entry_id (clear_custom_icon_references_from_entry icon e) = entry_id e"
    using "1.prems" cleared_entry_ok by simp
  moreover from this have "map entry_id (map (clear_custom_icon_references_from_entry icon) es) = map entry_id es" by simp
  moreover have IH: "\<forall>c \<in> set children. tree_ok (?clear c) \<and> node_ids (?clear c) = node_ids c \<and> group_id (?clear c) = group_id c"
    using 1 by simp
  moreover from IH have "map group_id (map ?clear children) = map group_id children"
    "map node_ids (map ?clear children) = map node_ids children" by simp_all
  ultimately show ?case
    by (simp add: g'_def [symmetric] comp_def cong: map_cong)
qed

end
