(* ===== verification/SaveableMeta.thy ===== *)
theory SaveableMeta
  imports SaveableGroup
begin

text \<open>
  Every mutation of the vault's own metadata, custom data and icons keeps a writable vault writable.
\<close>

section \<open>Changes of the metadata\<close>

definition sound_meta :: "(vault \<Rightarrow> vault) \<Rightarrow> bool" where
  "sound_meta f \<longleftrightarrow> (\<forall>v. saveable v \<longrightarrow> saveable (f v))"

lemma sound_meta_comp: "sound_meta f \<Longrightarrow> sound_meta g \<Longrightarrow> sound_meta (f \<circ> g)"
  by (simp add: sound_meta_def)

lemma sound_meta_with_some: "(\<And>a. x = Some a \<Longrightarrow> sound_meta (f a)) \<Longrightarrow> sound_meta (with_some x f)"
  by (cases x) (auto simp: sound_meta_def with_some_def)

lemma meta_counts_alt:
  "meta_counts v =
     (let raw = v_meta_raw_state v in
      [(''Generator'', of_bool_nat (v_generator v \<noteq> None)),
       (''SettingsChanged'', of_bool_nat (v_settings_changed v \<noteq> None)),
       (''DatabaseName'', of_bool_nat True),
       (''DatabaseNameChanged'', of_bool_nat (v_database_name_changed v \<noteq> None)),
       (''DatabaseDescription'', of_bool_nat (v_description v \<noteq> None \<or> mr_description_raw raw \<noteq> None)),
       (''DatabaseDescriptionChanged'', of_bool_nat (v_description_changed v \<noteq> None)),
       (''DefaultUserName'', of_bool_nat (v_default_username v \<noteq> None \<or> mr_default_username_raw raw \<noteq> None)),
       (''DefaultUserNameChanged'', of_bool_nat (v_default_username_changed v \<noteq> None)),
       (''MaintenanceHistoryDays'', of_bool_nat (v_maintenance_history_days v \<noteq> None)),
       (''Color'', of_bool_nat (v_color v \<noteq> None \<or> mr_color_raw raw \<noteq> None)),
       (''MemoryProtection'', of_bool_nat (v_memory_protection v \<noteq> None)),
       (''CustomIcons'', of_bool_nat (mr_has_custom_icons_node raw)),
       (''RecycleBinEnabled'', of_bool_nat (v_recycle_bin_enabled v \<noteq> None)),
       (''RecycleBinUUID'', of_bool_nat (v_recycle_bin_group v \<noteq> None)),
       (''RecycleBinChanged'', of_bool_nat (v_recycle_bin_changed v \<noteq> None)),
       (''EntryTemplatesGroup'', of_bool_nat (v_entry_templates_group v \<noteq> None)),
       (''EntryTemplatesGroupChanged'', of_bool_nat (v_entry_templates_group_changed v \<noteq> None)),
       (''MasterKeyChanged'', of_bool_nat (v_master_key_changed v \<noteq> None)),
       (''MasterKeyChangeRec'', of_bool_nat (v_master_key_change_rec v \<noteq> None)),
       (''MasterKeyChangeForce'', of_bool_nat (v_master_key_change_force v \<noteq> None)),
       (''MasterKeyChangeForceOnce'', of_bool_nat (v_master_key_change_force_once v \<noteq> None)),
       (''LastSelectedGroup'', of_bool_nat (v_last_selected_group v \<noteq> None)),
       (''LastTopVisibleGroup'', of_bool_nat (v_last_top_visible_group v \<noteq> None)),
       (''HistoryMaxItems'', of_bool_nat (v_history_max_items v \<noteq> None)),
       (''HistoryMaxSize'', of_bool_nat (v_history_max_size v \<noteq> None)),
       (''CustomData'', custom_data_emitted_count (v_meta_custom_data_blocks v) (v_meta_custom_data v))])"
  by (simp add: meta_counts_def meta_emitted_node_counts_def Let_def)

lemma root_counts_alt:
  "root_counts v = [(''Group'', 1), (''DeletedObjects'', of_bool_nat (rr_has_deleted_objects_node (v_root_raw_state v)))]"
  by (simp add: root_counts_def root_emitted_node_counts_def)

lemma sound_metaI:
  assumes fields: "\<And>v. meta_fields_valid v \<Longrightarrow> meta_fields_valid (f v)"
    and order: "\<And>v. mr_node_order (v_meta_raw_state (f v)) = filter (P v) (mr_node_order (v_meta_raw_state v))"
    and counts: "\<And>v. covers (P v) (meta_counts v) (meta_counts (f v))"
    and times: "\<And>v. \<forall>t. Some t \<in> set (meta_times v) \<longrightarrow> kdbx4_time_ok t \<Longrightarrow> \<forall>t. Some t \<in> set (meta_times (f v)) \<longrightarrow> kdbx4_time_ok t"
    and items: "\<And>v. map cb_items (v_meta_custom_data_blocks (f v)) = map cb_items (v_meta_custom_data_blocks v)"
    and kept: "\<And>v. v_root_raw_state (f v) = v_root_raw_state v" "\<And>v. v_meta_custom_data (f v) = v_meta_custom_data v"
      "\<And>v. v_root (f v) = v_root v" "\<And>v. v_custom_icons (f v) = v_custom_icons v"
      "\<And>v. v_deleted_objects (f v) = v_deleted_objects v"
  shows "sound_meta f"
  unfolding sound_meta_def
proof (intro allI impI)
  fix v assume "saveable v"
  then have old: "meta_ok v" "root_ok (v_root v)" by (simp_all add: saveable_iff)
  have "node_ok (mr_node_order (v_meta_raw_state (f v))) (meta_counts (f v))"
    unfolding order using old(1) by (intro node_ok_kept [OF _ counts]) (simp add: meta_ok_def)
  moreover have "root_counts (f v) = root_counts v" by (simp add: root_counts_alt kept)
  moreover have "\<forall>t. Some t \<in> set (meta_times (f v)) \<longrightarrow> kdbx4_time_ok t" using old(1) by (intro times) (simp add: meta_ok_def)
  ultimately show "saveable (f v)"
    using old fields same_items(2) [OF items [of v]] by (simp add: saveable_iff meta_ok_def kept)
qed

text \<open>Dropping a node changes the slots and where fragments and blocks point, nothing else.\<close>

lemma drop_meta_alt:
  "\<exists>opaque blocks. drop_meta_node c name v = v\<lparr>v_meta_raw_state := (v_meta_raw_state v)
       \<lparr>mr_node_order := filter (\<lambda>n. \<not> (c \<and> n = name)) (mr_node_order (v_meta_raw_state v))\<rparr>,
     v_meta_opaque_xml := opaque, v_meta_custom_data_blocks := blocks\<rparr> \<and>
     map cb_items blocks = map cb_items (v_meta_custom_data_blocks v)"
proof (cases c)
  case True
  then show ?thesis
    by (intro exI [of _ "fi_opaque_xml (retarget_removed_known_node name (mr_node_order (v_meta_raw_state v))
          (v_meta_opaque_xml v) (v_meta_custom_data_blocks v))"]
        exI [of _ "fi_blocks (retarget_removed_known_node name (mr_node_order (v_meta_raw_state v))
          (v_meta_opaque_xml v) (v_meta_custom_data_blocks v))"])
       (simp add: drop_meta_node_def retarget_removed_meta_node_def Let_def removed_node_order removed_node_items)
next
  case False
  then show ?thesis
    by (intro exI [of _ "v_meta_opaque_xml v"] exI [of _ "v_meta_custom_data_blocks v"]) (simp add: drop_meta_node_def)
qed

lemma drop_meta_field:
  assumes "\<And>order opaque blocks. p (v\<lparr>v_meta_raw_state := (v_meta_raw_state v)\<lparr>mr_node_order := order\<rparr>,
      v_meta_opaque_xml := opaque, v_meta_custom_data_blocks := blocks\<rparr>) = p v"
  shows "p (drop_meta_node c name v) = p v"
  using drop_meta_alt [of c name v] assms by metis

lemma drop_meta_fields [simp]:
  "v_generator (drop_meta_node c name v) = v_generator v" "v_settings_changed (drop_meta_node c name v) = v_settings_changed v"
  "v_database_name_changed (drop_meta_node c name v) = v_database_name_changed v"
  "v_description (drop_meta_node c name v) = v_description v"
  "v_description_changed (drop_meta_node c name v) = v_description_changed v"
  "v_default_username (drop_meta_node c name v) = v_default_username v"
  "v_default_username_changed (drop_meta_node c name v) = v_default_username_changed v"
  "v_maintenance_history_days (drop_meta_node c name v) = v_maintenance_history_days v"
  "v_color (drop_meta_node c name v) = v_color v" "v_memory_protection (drop_meta_node c name v) = v_memory_protection v"
  "v_custom_icons (drop_meta_node c name v) = v_custom_icons v"
  "v_recycle_bin_enabled (drop_meta_node c name v) = v_recycle_bin_enabled v"
  "v_recycle_bin_group (drop_meta_node c name v) = v_recycle_bin_group v"
  "v_recycle_bin_changed (drop_meta_node c name v) = v_recycle_bin_changed v"
  "v_entry_templates_group (drop_meta_node c name v) = v_entry_templates_group v"
  "v_entry_templates_group_changed (drop_meta_node c name v) = v_entry_templates_group_changed v"
  "v_master_key_changed (drop_meta_node c name v) = v_master_key_changed v"
  "v_master_key_change_rec (drop_meta_node c name v) = v_master_key_change_rec v"
  "v_master_key_change_force (drop_meta_node c name v) = v_master_key_change_force v"
  "v_master_key_change_force_once (drop_meta_node c name v) = v_master_key_change_force_once v"
  "v_last_selected_group (drop_meta_node c name v) = v_last_selected_group v"
  "v_last_top_visible_group (drop_meta_node c name v) = v_last_top_visible_group v"
  "v_history_max_items (drop_meta_node c name v) = v_history_max_items v"
  "v_history_max_size (drop_meta_node c name v) = v_history_max_size v"
  "v_meta_custom_data (drop_meta_node c name v) = v_meta_custom_data v" "v_root (drop_meta_node c name v) = v_root v"
  "v_public_custom_data (drop_meta_node c name v) = v_public_custom_data v"
  "v_deleted_objects (drop_meta_node c name v) = v_deleted_objects v"
  "v_root_raw_state (drop_meta_node c name v) = v_root_raw_state v"
  by (rule drop_meta_field; simp)+

lemma drop_meta_raws [simp]:
  "mr_description_raw (v_meta_raw_state (drop_meta_node c name v)) = mr_description_raw (v_meta_raw_state v)"
  "mr_default_username_raw (v_meta_raw_state (drop_meta_node c name v)) = mr_default_username_raw (v_meta_raw_state v)"
  "mr_color_raw (v_meta_raw_state (drop_meta_node c name v)) = mr_color_raw (v_meta_raw_state v)"
  "mr_recycle_bin_group_raw (v_meta_raw_state (drop_meta_node c name v)) = mr_recycle_bin_group_raw (v_meta_raw_state v)"
  "mr_entry_templates_group_raw (v_meta_raw_state (drop_meta_node c name v)) = mr_entry_templates_group_raw (v_meta_raw_state v)"
  "mr_auto_enable_visual_hiding_raw (v_meta_raw_state (drop_meta_node c name v)) =
     mr_auto_enable_visual_hiding_raw (v_meta_raw_state v)"
  "mr_has_custom_icons_node (v_meta_raw_state (drop_meta_node c name v)) = mr_has_custom_icons_node (v_meta_raw_state v)"
  by (rule drop_meta_field [where p = "\<lambda>v. r (v_meta_raw_state v)" for r]; simp)+

lemma drop_meta_order [simp]:
  "mr_node_order (v_meta_raw_state (drop_meta_node c name v)) = filter (\<lambda>n. \<not> (c \<and> n = name)) (mr_node_order (v_meta_raw_state v))"
  using drop_meta_alt [of c name v] by force

lemma drop_meta_items [simp]:
  "map cb_items (v_meta_custom_data_blocks (drop_meta_node c name v)) = map cb_items (v_meta_custom_data_blocks v)"
  using drop_meta_alt [of c name v] by force

lemma drop_meta_emitted [simp]:
  "custom_data_emitted_count (v_meta_custom_data_blocks (drop_meta_node c name v)) m =
     custom_data_emitted_count (v_meta_custom_data_blocks v) m"
  by (rule same_items) simp

section \<open>Setters\<close>

named_theorems meta_parts

lemmas [meta_parts] = meta_fields_iff meta_times_def meta_counts_alt covers_def Let_def of_bool_nat_def some_unless_empty_def
  raw_collapsed_optional_text_matches_def

abbreviation keeping :: "(vault \<Rightarrow> bool) \<Rightarrow> string \<Rightarrow> vault \<Rightarrow> string \<Rightarrow> bool" where
  "keeping gone name \<equiv> \<lambda>v n. \<not> (gone v \<and> n = name)"

lemma sound_description: "sound_meta (set_description x)"
  unfolding set_description_def
  by (rule sound_metaI [where P = "keeping (\<lambda>v. (v_description v \<noteq> None \<or> mr_description_raw (v_meta_raw_state v) \<noteq> None) \<and> x = [])
      ''DatabaseDescription''"]; simp add: meta_parts cong: option.case_cong)

lemma sound_default_username: "sound_meta (set_default_username x)"
  unfolding set_default_username_def
  by (rule sound_metaI [where P = "keeping (\<lambda>v. (v_default_username v \<noteq> None \<or> mr_default_username_raw (v_meta_raw_state v) \<noteq> None) \<and> x = [])
      ''DefaultUserName''"]; simp add: meta_parts cong: option.case_cong)

lemma sound_color: "sound_meta (set_color x)"
  unfolding set_color_def
  by (rule sound_metaI [where P = "keeping (\<lambda>v. (v_color v \<noteq> None \<or> mr_color_raw (v_meta_raw_state v) \<noteq> None) \<and> x = []) ''Color''"];
    simp add: meta_parts cong: option.case_cong)

lemma sound_limits:
  "sound_meta (\<lambda>v. v\<lparr>v_memory_protection := Some p\<rparr>)" "sound_meta (\<lambda>v. v\<lparr>v_history_max_size := Some s\<rparr>)"
  "sound_meta (\<lambda>v. v\<lparr>v_history_max_items := Some i\<rparr>)" "sound_meta (\<lambda>v. v\<lparr>v_name := name\<rparr>)"
  "sound_meta (\<lambda>v. v\<lparr>v_recycle_bin_enabled := Some b\<rparr>)"
  by (rule sound_metaI [where P = "\<lambda>_ _. True"]; simp add: meta_parts; fail)+

lemma sound_selected: "g \<noteq> Some 0 \<Longrightarrow> sound_meta (set_last_selected_group g)"
  unfolding set_last_selected_group_def
  by (rule sound_metaI [where P = "keeping (\<lambda>v. v_last_selected_group v \<noteq> None \<and> g = None) ''LastSelectedGroup''"];
    simp add: meta_parts cong: option.case_cong)

lemma sound_top_visible: "g \<noteq> Some 0 \<Longrightarrow> sound_meta (set_last_top_visible_group g)"
  unfolding set_last_top_visible_group_def
  by (rule sound_metaI [where P = "keeping (\<lambda>v. v_last_top_visible_group v \<noteq> None \<and> g = None) ''LastTopVisibleGroup''"];
    simp add: meta_parts cong: option.case_cong)

lemma sound_bin_enabled: "sound_meta (set_recycle_bin_enabled b)"
  unfolding set_recycle_bin_enabled_def
  by (rule sound_metaI [where P = "keeping (\<lambda>v. v_recycle_bin_enabled v \<noteq> None \<and> b = None) ''RecycleBinEnabled''"];
    simp add: meta_parts cong: option.case_cong)

lemma sound_bin_group: "g \<noteq> Some 0 \<Longrightarrow> sound_meta (set_recycle_bin_group g)"
  unfolding set_recycle_bin_group_def
  by (rule sound_metaI [where P = "keeping (\<lambda>v. (v_recycle_bin_group v \<noteq> None \<or> mr_recycle_bin_group_raw (v_meta_raw_state v) \<noteq> None)
      \<and> g = None) ''RecycleBinUUID''"]; simp add: meta_parts cong: option.case_cong)

lemma sound_bin_changed: "(\<And>a. t = Some a \<Longrightarrow> kdbx4_time_ok a) \<Longrightarrow> sound_meta (set_recycle_bin_changed t)"
  unfolding set_recycle_bin_changed_def
  by (rule sound_metaI [where P = "keeping (\<lambda>v. v_recycle_bin_changed v \<noteq> None \<and> t = None) ''RecycleBinChanged''"];
    simp add: meta_parts cong: option.case_cong)

lemma sound_templates: "g \<noteq> Some 0 \<Longrightarrow> sound_meta (set_entry_templates_group g)"
  unfolding set_entry_templates_group_def
  by (rule sound_metaI [where P = "keeping (\<lambda>v. (v_entry_templates_group v \<noteq> None \<or>
      mr_entry_templates_group_raw (v_meta_raw_state v) \<noteq> None) \<and> g = None) ''EntryTemplatesGroup''"];
    simp add: meta_parts cong: option.case_cong)

lemma sound_templates_changed:
  "(\<And>a. t = Some a \<Longrightarrow> kdbx4_time_ok a) \<Longrightarrow> sound_meta (set_entry_templates_group_changed t)"
  unfolding set_entry_templates_group_changed_def
  by (rule sound_metaI [where P = "keeping (\<lambda>v. v_entry_templates_group_changed v \<noteq> None \<and> t = None) ''EntryTemplatesGroupChanged''"];
    simp add: meta_parts cong: option.case_cong)

section \<open>Operations\<close>

lemma finished_saveable:
  assumes "saveable v" and "sound_meta (f \<circ> g)"
  shows "saveable (snd (let v' = (f \<circ> g) v in (Inr (r v'), v')))"
  using assms by (simp add: sound_meta_def Let_def)

lemma checked_dates:
  "check_all validate_persistent_timestamp (somes ts) = Inr u \<Longrightarrow> Some t \<in> set ts \<Longrightarrow> kdbx4_time_ok t"
  unfolding check_all_Inr checked_values set_somes by blast

lemma update_vault_metadata_saveable: "saveable v \<Longrightarrow> saveable (snd (update_vault_metadata u v))"
  unfolding update_vault_metadata_def
  by (intro guarded_saveable finished_saveable sound_meta_comp sound_meta_with_some sound_limits sound_color
      sound_default_username sound_description)

lemma update_vault_selection_saveable: "saveable v \<Longrightarrow> saveable (snd (update_vault_selection_metadata env u v))"
  unfolding update_vault_selection_metadata_def
  by (intro guarded_saveable finished_saveable sound_meta_comp sound_meta_with_some sound_selected sound_top_visible)
     (auto dest: resolved_reference)

lemma update_vault_bin_template_saveable:
  assumes "saveable v"
  shows "saveable (snd (update_vault_bin_template_metadata env u v))"
  unfolding update_vault_bin_template_metadata_def
proof (rule guarded_saveable [OF assms], rule guarded_saveable [OF assms], rule guarded_saveable [OF assms])
  fix x bin templates
  assume dates: "check_all validate_persistent_timestamp
      (somes [Option.bind (vbu_recycle_bin_changed u) id, Option.bind (vbu_entry_templates_group_changed u) id]) = Inr x"
    and groups: "resolve_group_reference_update env (vbu_recycle_bin_group_id u) v = Inr bin"
      "resolve_group_reference_update env (vbu_entry_templates_group_id u) v = Inr templates"
  have ok: "kdbx4_time_ok t" if "vbu_recycle_bin_changed u = Some (Some t) \<or> vbu_entry_templates_group_changed u = Some (Some t)" for t
    by (rule checked_dates [OF dates]) (use that in auto)
  show "saveable (snd (let v' = (with_some (vbu_entry_templates_group_changed u) set_entry_templates_group_changed \<circ>
                 with_some templates set_entry_templates_group \<circ>
                 with_some (vbu_recycle_bin_changed u) set_recycle_bin_changed \<circ>
                 with_some bin set_recycle_bin_group \<circ>
                 with_some (vbu_recycle_bin_enabled u) set_recycle_bin_enabled) v
       in (Inr (project_vault_bin_template_metadata env v'), v')))"
    by (intro finished_saveable [OF assms] sound_meta_comp sound_meta_with_some sound_bin_enabled sound_bin_group
        sound_bin_changed sound_templates sound_templates_changed)
       (use ok resolved_reference groups in blast)+
qed

text \<open>All nodes go first, then all values change: a name that stays in the order has a value.\<close>

lemma update_vault_lifecycle_saveable:
  assumes "saveable v"
  shows "saveable (snd (update_vault_lifecycle_metadata u v))"
  unfolding update_vault_lifecycle_metadata_def
proof (rule guarded_saveable [OF assms])
  fix x
  assume dates: "check_all validate_persistent_timestamp (somes [vl_settings_changed u, vl_master_key_changed u]) = Inr x"
  have ok: "kdbx4_time_ok t" if "vl_settings_changed u = Some t \<or> vl_master_key_changed u = Some t" for t
    by (rule checked_dates [OF dates]) (use that in auto)
  define f where "f = (\<lambda>v. (foldl (\<lambda>s (name, was_present, remains_present). drop_meta_node (was_present \<and> \<not> remains_present) name s) v
          [(''SettingsChanged'', v_settings_changed v \<noteq> None, vl_settings_changed u \<noteq> None),
           (''MaintenanceHistoryDays'', v_maintenance_history_days v \<noteq> None, vl_maintenance_history_days u \<noteq> None),
           (''MasterKeyChanged'', v_master_key_changed v \<noteq> None, vl_master_key_changed u \<noteq> None),
           (''MasterKeyChangeRec'', v_master_key_change_rec v \<noteq> None, vl_master_key_change_rec u \<noteq> None),
           (''MasterKeyChangeForce'', v_master_key_change_force v \<noteq> None, vl_master_key_change_force u \<noteq> None),
           (''MasterKeyChangeForceOnce'', v_master_key_change_force_once v \<noteq> None, vl_master_key_change_force_once u \<noteq> None)])
     \<lparr>v_settings_changed := vl_settings_changed u, v_maintenance_history_days := vl_maintenance_history_days u,
      v_master_key_changed := vl_master_key_changed u, v_master_key_change_rec := vl_master_key_change_rec u,
      v_master_key_change_force := vl_master_key_change_force u,
      v_master_key_change_force_once := vl_master_key_change_force_once u\<rparr>)"
  have "sound_meta f"
    unfolding f_def
    by (rule sound_metaI [where P = "\<lambda>v n. \<not> (v_settings_changed v \<noteq> None \<and> vl_settings_changed u = None \<and> n = ''SettingsChanged'') \<and>
        \<not> (v_maintenance_history_days v \<noteq> None \<and> vl_maintenance_history_days u = None \<and> n = ''MaintenanceHistoryDays'') \<and>
        \<not> (v_master_key_changed v \<noteq> None \<and> vl_master_key_changed u = None \<and> n = ''MasterKeyChanged'') \<and>
        \<not> (v_master_key_change_rec v \<noteq> None \<and> vl_master_key_change_rec u = None \<and> n = ''MasterKeyChangeRec'') \<and>
        \<not> (v_master_key_change_force v \<noteq> None \<and> vl_master_key_change_force u = None \<and> n = ''MasterKeyChangeForce'') \<and>
        \<not> (v_master_key_change_force_once v \<noteq> None \<and> vl_master_key_change_force_once u = None \<and> n = ''MasterKeyChangeForceOnce'')"];
      simp add: meta_parts conj_ac ok cong: option.case_cong)
  then have "saveable (f v)" using assms by (simp add: sound_meta_def)
  then show "saveable (snd (let v' = foldl (\<lambda>s (name, was_present, remains_present).
                drop_meta_node (was_present \<and> \<not> remains_present) name s) v
          [(''SettingsChanged'', v_settings_changed v \<noteq> None, vl_settings_changed u \<noteq> None),
           (''MaintenanceHistoryDays'', v_maintenance_history_days v \<noteq> None, vl_maintenance_history_days u \<noteq> None),
           (''MasterKeyChanged'', v_master_key_changed v \<noteq> None, vl_master_key_changed u \<noteq> None),
           (''MasterKeyChangeRec'', v_master_key_change_rec v \<noteq> None, vl_master_key_change_rec u \<noteq> None),
           (''MasterKeyChangeForce'', v_master_key_change_force v \<noteq> None, vl_master_key_change_force u \<noteq> None),
           (''MasterKeyChangeForceOnce'', v_master_key_change_force_once v \<noteq> None, vl_master_key_change_force_once u \<noteq> None)];
         v'' = v'\<lparr>v_settings_changed := vl_settings_changed u,
                  v_maintenance_history_days := vl_maintenance_history_days u,
                  v_master_key_changed := vl_master_key_changed u,
                  v_master_key_change_rec := vl_master_key_change_rec u,
                  v_master_key_change_force := vl_master_key_change_force u,
                  v_master_key_change_force_once := vl_master_key_change_force_once u\<rparr>
     in (Inr (project_vault_lifecycle_metadata v''), v'')))"
    unfolding Let_def snd_conv f_def .
qed

lemma update_vault_identity_saveable:
  assumes "saveable v"
  shows "saveable (snd (update_vault_identity_metadata u v))"
  unfolding update_vault_identity_metadata_def
proof (rule guarded_saveable [OF assms], rule guarded_saveable [OF assms], rule guarded_saveable [OF assms])
  fix x
  assume dates: "check_all validate_persistent_timestamp
      (somes [viu_database_name_changed u, viu_description_changed u, viu_default_username_changed u]) = Inr x"
  have ok: "kdbx4_time_ok t" if "viu_database_name_changed u = Some t \<or> viu_description_changed u = Some t \<or>
      viu_default_username_changed u = Some t" for t
    by (rule checked_dates [OF dates]) (use that in auto)
  let ?generator = "Option.bind (viu_generator u) some_unless_empty"
  define f where "f = (\<lambda>v. let v1 = v;
         v2 = drop_meta_node (v_generator v1 \<noteq> None \<and> ?generator = None) ''Generator'' v1;
         v3 = drop_meta_node (v_database_name_changed v2 \<noteq> None \<and> viu_database_name_changed u = None) ''DatabaseNameChanged'' v2;
         v4 = drop_meta_node (v_description_changed v3 \<noteq> None \<and> viu_description_changed u = None) ''DatabaseDescriptionChanged'' v3;
         v5 = drop_meta_node (v_default_username_changed v4 \<noteq> None \<and> viu_default_username_changed u = None) ''DefaultUserNameChanged'' v4
     in v5\<lparr>v_generator := ?generator, v_database_name_changed := viu_database_name_changed u,
           v_description_changed := viu_description_changed u, v_default_username_changed := viu_default_username_changed u\<rparr>)"
  have generator: "?generator \<noteq> Some []" by (auto simp: some_unless_empty_def split: bind_splits)
  have "sound_meta f"
    unfolding f_def
    by (rule sound_metaI [where P = "\<lambda>v n. \<not> (v_generator v \<noteq> None \<and> ?generator = None \<and> n = ''Generator'') \<and>
        \<not> (v_database_name_changed v \<noteq> None \<and> viu_database_name_changed u = None \<and> n = ''DatabaseNameChanged'') \<and>
        \<not> (v_description_changed v \<noteq> None \<and> viu_description_changed u = None \<and> n = ''DatabaseDescriptionChanged'') \<and>
        \<not> (v_default_username_changed v \<noteq> None \<and> viu_default_username_changed u = None \<and> n = ''DefaultUserNameChanged'')"];
      use generator in \<open>simp add: meta_fields_iff meta_times_def meta_counts_alt covers_def Let_def of_bool_nat_def
        raw_collapsed_optional_text_matches_def conj_ac ok cong: option.case_cong\<close>)
  moreover have "saveable (with_some (viu_name u) (\<lambda>x v. v\<lparr>v_name := x\<rparr>) v)"
    using sound_meta_with_some [of "viu_name u" "\<lambda>x v. v\<lparr>v_name := x\<rparr>"] sound_limits(4) assms by (simp add: sound_meta_def)
  ultimately have "saveable (f (with_some (viu_name u) (\<lambda>x v. v\<lparr>v_name := x\<rparr>) v))" by (simp add: sound_meta_def)
  then show "saveable (snd (let v1 = with_some (viu_name u) (\<lambda>x v. v\<lparr>v_name := x\<rparr>) v;
         v2 = drop_meta_node (v_generator v1 \<noteq> None \<and> Option.bind (viu_generator u) some_unless_empty = None) ''Generator'' v1;
         v3 = drop_meta_node (v_database_name_changed v2 \<noteq> None \<and> viu_database_name_changed u = None) ''DatabaseNameChanged'' v2;
         v4 = drop_meta_node (v_description_changed v3 \<noteq> None \<and> viu_description_changed u = None) ''DatabaseDescriptionChanged'' v3;
         v5 = drop_meta_node (v_default_username_changed v4 \<noteq> None \<and> viu_default_username_changed u = None) ''DefaultUserNameChanged'' v4;
         v6 = v5\<lparr>v_generator := Option.bind (viu_generator u) some_unless_empty,
                 v_database_name_changed := viu_database_name_changed u,
                 v_description_changed := viu_description_changed u,
                 v_default_username_changed := viu_default_username_changed u\<rparr>
     in (Inr (project_vault_identity_metadata v6), v6)))"
    unfolding Let_def snd_conv f_def .
qed

section \<open>Custom data\<close>

lemma saveable_meta: "saveable v \<Longrightarrow> meta_ok v' \<Longrightarrow> v_root v' = v_root v \<Longrightarrow> saveable v'"
  by (simp add: saveable_iff)

lemma meta_canonicalize:
  assumes "saveable v" and "bt_wf m" and "[] \<notin> fst ` set m" and "\<And>key t. u = Some (key, Some t) \<Longrightarrow> kdbx4_time_ok t"
  shows "saveable (canonicalize_meta_custom_data u (v\<lparr>v_meta_custom_data := m\<rparr>))"
proof -
  obtain blocks opaque order where res: "reconcile_custom_data_blocks (v_meta_custom_data_blocks v) (v_meta_opaque_xml v)
      (mr_node_order (v_meta_raw_state v)) m u = (blocks, opaque, order)" by (metis prod_cases3)
  define v' where "v' = v\<lparr>v_meta_custom_data := m, v_meta_custom_data_blocks := blocks, v_meta_opaque_xml := opaque,
      v_meta_raw_state := (v_meta_raw_state v)\<lparr>mr_node_order := order\<rparr>\<rparr>"
  have v': "canonicalize_meta_custom_data u (v\<lparr>v_meta_custom_data := m\<rparr>) = v'"
    by (simp add: canonicalize_meta_custom_data_def res v'_def)
  have old: "meta_ok v" using assms(1) by (simp add: saveable_iff)
  then have "node_ok (filter (\<lambda>_. True) (mr_node_order (v_meta_raw_state v))) (meta_counts v)"
    and data: "custom_data_ok (v_meta_custom_data v) (v_meta_custom_data_blocks v)"
    by (simp_all add: meta_ok_def)
  note R = reconciled_nodes [OF this(1) _ _ data assms(2,3) _ res]
  have "node_ok (filter (\<lambda>_. True) order) (meta_counts v')"
    by (rule R(1)) (use assms(4) in \<open>auto simp: meta_counts_alt Let_def v'_def\<close>)
  moreover have "custom_data_ok m blocks"
    by (rule R(2) [of "meta_counts v'"]) (use assms(4) in \<open>auto simp: meta_counts_alt Let_def v'_def\<close>)
  moreover have "root_counts v' = root_counts v" "meta_times v' = meta_times v" "meta_fields_valid v' = meta_fields_valid v"
    by (simp_all add: root_counts_alt meta_times_def meta_fields_iff v'_def)
  ultimately have "meta_ok v'" using old by (simp add: meta_ok_def) (simp add: v'_def)
  then show ?thesis unfolding v' by (rule saveable_meta [OF assms(1)]) (simp add: v'_def)
qed

lemma meta_data_wf: "saveable v \<Longrightarrow> bt_wf (v_meta_custom_data v) \<and> [] \<notin> fst ` set (v_meta_custom_data v)"
  using merged_keys unfolding saveable_iff meta_ok_def by blast

lemma put_meta_custom_data_saveable:
  assumes "saveable v" and "key \<noteq> []" and "\<And>t. modified = Some t \<Longrightarrow> kdbx4_time_ok t"
  shows "saveable (put_meta_custom_data key x modified v)"
  unfolding put_meta_custom_data_def
  using meta_data_wf [OF assms(1)] assms by (intro meta_canonicalize) (auto simp: fst_set_bt_insert)

lemma upsert_vault_custom_data_saveable: "saveable v \<Longrightarrow> saveable (snd (upsert_vault_custom_data key x v))"
  unfolding upsert_vault_custom_data_def Let_def
  by (rule guarded_saveable) (auto dest: checked_custom_data intro: put_meta_custom_data_saveable)

lemma upsert_vault_custom_data_detail_saveable: "saveable v \<Longrightarrow> saveable (snd (upsert_vault_custom_data_detail item v))"
  unfolding upsert_vault_custom_data_detail_def Let_def
  by (intro guarded_saveable) (auto dest: checked_custom_data intro!: put_meta_custom_data_saveable)

lemma delete_vault_custom_data_saveable: "saveable v \<Longrightarrow> saveable (snd (delete_vault_custom_data key v))"
  using meta_data_wf [of v] unfolding delete_vault_custom_data_def Let_def
  by (auto intro!: meta_canonicalize simp: bt_remove_def)

lemma saveable_same_meta:
  assumes "saveable v" and "meta_counts v' = meta_counts v" and "v_meta_raw_state v' = v_meta_raw_state v"
    and "v_root_raw_state v' = v_root_raw_state v" and "meta_times v' = meta_times v"
    and "v_meta_custom_data v' = v_meta_custom_data v" and "v_meta_custom_data_blocks v' = v_meta_custom_data_blocks v"
    and "meta_fields_valid v \<Longrightarrow> meta_fields_valid v'" and "icons_ok (v_custom_icons v) \<Longrightarrow> icons_ok (v_custom_icons v')"
    and "deleted_ok (v_deleted_objects v) \<Longrightarrow> deleted_ok (v_deleted_objects v')" and "root_ok (v_root v')"
  shows "saveable v'"
proof -
  have "root_counts v' = root_counts v" by (simp add: root_counts_alt assms(4))
  then show ?thesis using assms by (simp add: saveable_iff meta_ok_def)
qed

lemma upsert_vault_public_custom_data_saveable:
  assumes "saveable v"
  shows "saveable (snd (upsert_vault_public_custom_data key x v))"
  unfolding upsert_vault_public_custom_data_def Let_def
proof (rule guarded_saveable [OF assms], unfold snd_conv)
  fix y assume "validate_non_empty_key key ''public custom data'' = Inr y"
  then show "saveable (v\<lparr>v_public_custom_data := bt_insert key x (v_public_custom_data v)\<rparr>)"
    using assms by (intro saveable_same_meta [OF assms])
      (auto simp: meta_counts_alt meta_times_def meta_fields_iff fst_set_bt_insert saveable_iff)
qed

lemma delete_vault_public_custom_data_saveable:
  assumes "saveable v"
  shows "saveable (snd (delete_vault_public_custom_data key v))"
proof -
  have "saveable (v\<lparr>v_public_custom_data := bt_remove key (v_public_custom_data v)\<rparr>)"
    using assms by (intro saveable_same_meta [OF assms])
      (auto simp: meta_counts_alt meta_times_def meta_fields_iff bt_remove_def saveable_iff)
  then show ?thesis using assms by (simp add: delete_vault_public_custom_data_def Let_def)
qed

section \<open>Icons\<close>

lemma draw_until_free: "draw_until draw used k = Some u \<Longrightarrow> \<not> used u \<and> u \<in> range draw"
proof (rule draw_until.raw_induct [where P = "\<lambda>draw used k u. \<not> used u \<and> u \<in> range draw"])
  fix loop :: "(nat \<Rightarrow> uuid) \<Rightarrow> (uuid \<Rightarrow> bool) \<Rightarrow> nat \<Rightarrow> uuid option" and draw used k u
  assume IH: "\<And>draw used k u. loop draw used k = Some u \<Longrightarrow> \<not> used u \<and> u \<in> range draw"
    and step: "(if used (draw k) then loop draw used (Suc k) else Some (draw k)) = Some u"
  show "\<not> used u \<and> u \<in> range draw"
    using IH [of draw used "Suc k" u] step by (auto split: if_splits)
qed

lemma changed_icon_ids: "map ci_id (change_icon icon f icons) = map ci_id icons" if "\<And>c. ci_id (f c) = ci_id c"
  by (induction icons) (simp_all add: that)

lemma changed_icon_ok:
  assumes "\<And>c. c \<in> set icons \<Longrightarrow> P c" and "\<And>c. c \<in> set icons \<Longrightarrow> P c \<Longrightarrow> P (f c)" and "c \<in> set (change_icon icon f icons)"
  shows "P c"
  using assms by (induction icons) (auto split: if_splits)

lemma put_custom_icon_ok:
  assumes "icons_ok icons" and "ci_id icon \<noteq> 0" and "ci_name icon \<noteq> Some []"
    and "\<And>t. ci_last_modified icon = Some t \<Longrightarrow> kdbx4_time_ok t"
  shows "icons_ok (put_custom_icon icon icons)"
proof (cases "list_ex (\<lambda>c. ci_id c = ci_id icon) icons")
  case True
  let ?f = "\<lambda>c. c\<lparr>ci_data := ci_data icon, ci_name := ci_name icon, ci_last_modified := ci_last_modified icon\<rparr>"
  let ?P = "\<lambda>c. ci_id c \<noteq> 0 \<and> ci_name c \<noteq> Some [] \<and> (\<forall>t. ci_last_modified c = Some t \<longrightarrow> kdbx4_time_ok t)"
  have "?P c" if "c \<in> set (change_icon (ci_id icon) ?f icons)" for c
    by (rule changed_icon_ok [OF _ _ that]) (use assms in \<open>auto simp: icons_ok_def\<close>)
  then show ?thesis
    using True assms(1) changed_icon_ids [of ?f "ci_id icon" icons] by (simp add: put_custom_icon_def icons_ok_def)
next
  case False
  then show ?thesis using assms by (auto simp: put_custom_icon_def icons_ok_def list_ex_iff)
qed

lemma upsert_custom_icon_saveable:
  assumes "saveable v" and "\<And>k. ce_new_v4 env k \<noteq> 0" and "upsert_custom_icon env u v = Some (r, v')"
  shows "saveable v'"
proof (cases "and_then (check_some (\<lambda>x. validate_unprotected_xml_text x ''custom icon name'') (cin_name u)) (\<lambda>_.
             and_then (check_some validate_persistent_timestamp (cin_last_modified u)) (\<lambda>_.
             case cin_id u of Some x \<Rightarrow> and_then (parse_uuid env x) (\<lambda>y. Inr (Some y)) | None \<Rightarrow> Inr None))")
  case (Inl e)
  then show ?thesis using assms by (simp add: upsert_custom_icon_def)
next
  case (Inr chosen)
  then obtain i where i: "(case chosen of Some icon_id \<Rightarrow> Some icon_id | None \<Rightarrow> fresh_custom_icon_uuid env v) = Some i"
    and v': "v' = v\<lparr>v_custom_icons := put_custom_icon \<lparr>ci_id = i, ci_data = cin_data u,
      ci_name = Option.bind (cin_name u) some_unless_empty, ci_last_modified = cin_last_modified u\<rparr> (v_custom_icons v)\<rparr>"
    using assms(3) unfolding upsert_custom_icon_def by (auto simp: Let_def)
  have dates: "kdbx4_time_ok t" if "cin_last_modified u = Some t" for t using Inr that by (auto simp: and_then_eq_Inr)
  have "i \<noteq> 0"
  proof (cases chosen)
    case None
    then have "i \<in> range (ce_new_v4 env)" using i by (auto simp: fresh_custom_icon_uuid_def dest: draw_until_free)
    then show ?thesis using assms(2) by (metis rangeE)
  next
    case (Some c)
    then show ?thesis using i Inr by (auto simp: and_then_eq_Inr split: option.splits dest: checked_uuid)
  qed
  then have "icons_ok (v_custom_icons v) \<Longrightarrow> icons_ok (v_custom_icons v')"
    using dates by (auto simp: v' some_unless_empty_def intro!: put_custom_icon_ok split: bind_splits)
  then show ?thesis
    using assms(1) by (intro saveable_same_meta [OF assms(1)]) (simp_all add: v' meta_counts_alt meta_times_def meta_fields_iff saveable_iff)
qed

lemma distinct_remove_at: "distinct xs \<Longrightarrow> distinct (remove_at i xs)"
  using set_take_disj_set_drop_if_distinct [of xs i "Suc i"] by (simp add: remove_at_def)

lemma delete_custom_icon_saveable:
  assumes "saveable v"
  shows "saveable (snd (delete_custom_icon env i v))"
  unfolding delete_custom_icon_def
proof (rule guarded_saveable [OF assms])
  fix icon
  let ?v = "\<lambda>index. v\<lparr>v_custom_icons := remove_at index (v_custom_icons v),
      v_root := clear_custom_icon_references_from_group icon (v_root v)\<rparr>"
  have "root_ok (clear_custom_icon_references_from_group icon (v_root v))"
    using assms cleared_tree_ok [of "v_root v" icon] by (simp add: saveable_iff root_ok_def)
  moreover have "icons_ok (remove_at index (v_custom_icons v))" if "icons_ok (v_custom_icons v)" for index
    using that set_remove_at [of index "v_custom_icons v"] distinct_remove_at [of "map ci_id (v_custom_icons v)" index]
    by (auto simp: icons_ok_def map_remove_at)
  ultimately have "saveable (?v index)" for index
    by (intro saveable_same_meta [OF assms]) (simp_all add: meta_counts_alt meta_times_def meta_fields_iff)
  then show "saveable (snd ((case position (\<lambda>c. ci_id c = icon) (v_custom_icons v) of
         None \<Rightarrow> guarded (Inl (Err_CustomIconNotFound i)) (\<lambda>x. x)
       | Some index \<Rightarrow> (\<lambda>v. (Inr (), v\<lparr>v_custom_icons := remove_at index (v_custom_icons v),
                          v_root := clear_custom_icon_references_from_group icon (v_root v)\<rparr>))) v))"
    using assms by (auto simp: guarded_def split: option.split)
qed

end
