(* ===== verification/SaveableGraph.thy ===== *)
theory SaveableGraph
  imports SaveableMeta
begin

text \<open>
  Adding, deleting and moving entries and groups, and the recycle bin, keep a writable vault writable; with
  them every mutation of the core does, in any order.
\<close>

section \<open>What is added\<close>

lemma slots_ok_more: "slots_ok name order tracked ids \<Longrightarrow> slots_ok name order tracked (ids @ ids')"
proof -
  assume ok: "slots_ok name order tracked ids"
  then have "length tracked \<le> length ids" by (metis length_take min.cobounded1 slots_ok_def)
  then show ?thesis using ok by (simp add: slots_ok_def)
qed

lemma keeps_push_entry:
  assumes "entry_ok entry"
  shows "keeps_group {#entry_id entry#} (push_entry env entry)"
  unfolding keeps_group_def
proof (intro allI impI)
  fix g assume "tree_ok g"
  then show "tree_ok (snd (push_entry env entry g)) \<and> group_id (snd (push_entry env entry g)) = group_id g \<and>
      mset (node_ids (snd (push_entry env entry g))) = mset (node_ids g) + {#entry_id entry#}"
    using assms by (cases g) (auto simp: push_entry_def children_ok_def slots_ok_more)
qed

lemma keeps_push_group:
  assumes "tree_ok child"
  shows "keeps_group (mset (node_ids child)) (push_group env child)"
  unfolding keeps_group_def
proof (intro allI impI)
  fix g assume "tree_ok g"
  then show "tree_ok (snd (push_group env child g)) \<and> group_id (snd (push_group env child g)) = group_id g \<and>
      mset (node_ids (snd (push_group env child g))) = mset (node_ids g) + mset (node_ids child)"
    using assms by (cases g) (auto simp: push_group_def children_ok_def slots_ok_more)
qed

lemma push_entry_saveable:
  assumes "saveable v" and "entry_ok entry" and "entry_id entry \<noteq> 0" and "entry_id entry \<notin> set (node_ids (v_root v))"
  shows "saveable (snd (on_group env i (push_entry env entry) v))"
  by (rule on_group_adds [where new = "[entry_id entry]"]) (use assms keeps_push_entry in auto)

lemma push_group_saveable:
  assumes "saveable v" and "tree_ok child" and "distinct (node_ids child)" and "0 \<notin> set (node_ids child)"
    and "set (node_ids child) \<inter> set (node_ids (v_root v)) = {}"
  shows "saveable (snd (on_group env i (push_group env child) v))"
  by (rule on_group_adds [OF assms(1) keeps_push_group [OF assms(2)] assms(3-5)])

lemma new_group_ok: "tree_ok (group_new u title)" "node_ids (group_new u title) = [u]"
  by (simp_all add: group_new_def gcore_ok_def group_fields_valid_def plain_group_nodes_def node_ok_def
      default_group_raw_state_def raw_collapsed_optional_text_matches_def raw_nullable_bool_matches_def
      tags_are_persistence_valid_def custom_data_ok_def merge_custom_data_blocks_def all_items_def
      children_ok_def slots_ok_def)

lemma new_entry_ok:
  assumes "kdbx4_unsigned_time_ok now"
  shows "entry_ok (created_entry u create now)" and "entry_id (created_entry u create now) = u"
proof -
  have "kdbx4_time_ok (I64 now)" using assms by (simp add: kdbx4_unsigned_time_ok_def)
  then show "entry_ok (created_entry u create now)"
    using assms
    by (simp add: created_entry_def entry_new_def entry_ok_def live_ok_def entry_texts_ok_def plain_nodes_ok_def node_ok_def
        strings_ok_def attachment_slots_ok_def tracked_ok_def default_entry_raw_state_def entry_dates_ok_def quality_ok_def
        custom_data_ok_def merge_custom_data_blocks_def all_items_def raw_present_text_matches_def
        tags_are_persistence_valid_def structured_totp_valid_def)
  show "entry_id (created_entry u create now) = u" by (simp add: created_entry_def entry_new_def)
qed

lemma uuid_used_iff: "group_or_entry_uses_uuid g u \<longleftrightarrow> u \<in> set (node_ids g)"
  by (induction g u rule: group_or_entry_uses_uuid.induct) (auto simp: list_ex_iff)

lemma fresh_unused:
  "fresh_live_uuid env v = Some u \<Longrightarrow> u \<notin> set (node_ids (v_root v)) \<and> u \<in> range (ce_new_v4 env)"
  unfolding fresh_live_uuid_def by (auto dest!: draw_until_free simp: live_uuid_used_def uuid_used_iff)

definition env_ok :: "core_env \<Rightarrow> bool" where
  "env_ok env \<longleftrightarrow> (\<forall>k. ce_new_v4 env k \<noteq> 0) \<and> (\<forall>k. kdbx4_time_ok (current_unix_timestamp env k))"

lemma fresh_nonzero: "env_ok env \<Longrightarrow> fresh_live_uuid env v = Some u \<Longrightarrow> u \<noteq> 0"
  using fresh_unused by (force simp: env_ok_def)

section \<open>Adding\<close>

lemma canonical_nonzero: "canonical_uuid env i = Inr u \<Longrightarrow> u \<noteq> 0"
  by (auto simp: canonical_uuid_def and_then_eq_Inr split: if_splits)

lemma add_entry_with_id_saveable:
  assumes "saveable v"
  shows "saveable (snd (add_entry_with_id env parent i create v))"
  unfolding add_entry_with_id_def
proof (rule guarded_saveable [OF assms], rule guarded_saveable [OF assms], rule guarded_saveable [OF assms])
  fix parsed x y
  assume "canonical_uuid env i = Inr parsed" "(if live_uuid_used v parsed then Inl (Err_UuidCollision i) else Inr ()) = Inr x"
  then have u: "parsed \<noteq> 0" "parsed \<notin> set (node_ids (v_root v))"
    by (auto simp: live_uuid_used_def uuid_used_iff dest: canonical_nonzero split: if_splits)
  show "saveable (snd (on_group env parent (\<lambda>g.
       case validate_persistent_unsigned_timestamp (clock_u64 env 0) of
         Inl e \<Rightarrow> (Inl e, g)
       | Inr _ \<Rightarrow> push_entry env (created_entry parsed create (clock_u64 env 0)) g) v))"
  proof (cases "validate_persistent_unsigned_timestamp (clock_u64 env 0)")
    case (Inl e)
    then show ?thesis by (simp add: on_group_saveable [OF assms] keeps_group_id)
  next
    case (Inr z)
    then have now: "kdbx4_unsigned_time_ok (clock_u64 env 0)" by simp
    show ?thesis
      unfolding Inr sum.case
      by (rule push_entry_saveable [OF assms]) (use u new_entry_ok [OF now] in simp_all)
  qed
qed

lemma add_entry_saveable: "saveable v \<Longrightarrow> add_entry env parent create v = Some (r, v') \<Longrightarrow> saveable v'"
proof -
  assume v: "saveable v" and "add_entry env parent create v = Some (r, v')"
  then obtain u where "add_entry_with_id env parent (ce_uuid_text env u) create v = (r, v')" by (auto simp: add_entry_def)
  then show "saveable v'" using add_entry_with_id_saveable [OF v, of env parent "ce_uuid_text env u" create] by simp
qed

lemma add_group_saveable:
  assumes "saveable v" and "env_ok env" and "add_group env parent title v = Some (r, v')"
  shows "saveable v'"
proof (cases "validate_unprotected_xml_text title ''group title''")
  case (Inl e)
  then show ?thesis using assms by (simp add: add_group_def)
next
  case (Inr x)
  then obtain u where u: "fresh_live_uuid env v = Some u"
    and v': "(r, v') = on_group env parent (push_group env (group_new u title)) v"
    using assms(3) by (auto simp: add_group_def)
  have "saveable (snd (on_group env parent (push_group env (group_new u title)) v))"
    by (rule push_group_saveable [OF assms(1)])
       (use fresh_unused [OF u] fresh_nonzero [OF assms(2) u] in \<open>simp_all add: new_group_ok\<close>)
  then show ?thesis by (simp flip: v')
qed

section \<open>Taking out\<close>

lemma saveable_root: "saveable v \<Longrightarrow> root_ok root \<Longrightarrow> saveable (v\<lparr>v_root := root\<rparr>)"
  by (simp add: saveable_iff)

lemma taken_entry:
  assumes "saveable v" and "take_entry_from_group env i (v_root v) = Some ((e, p), root)"
  shows "saveable (v\<lparr>v_root := root\<rparr>)" and "entry_ok e" and "entry_id e \<noteq> 0" and "entry_id e \<notin> set (node_ids root)"
    and "p \<noteq> 0"
proof -
  have old: "root_ok (v_root v)" using assms(1) by (simp add: saveable_iff)
  then have t: "tree_ok root" "entry_ok e" "p \<in> set (node_ids (v_root v))"
    "mset (node_ids (v_root v)) = add_mset (entry_id e) (mset (node_ids root))"
    using take_entry_ok(1) [OF assms(2)] by (simp_all add: root_ok_def)
  then have "mset (node_ids (v_root v)) = mset (entry_id e # node_ids root)" by simp
  note ids = mset_eq_setD [OF this] distinct_of_mset [OF this]
  show "saveable (v\<lparr>v_root := root\<rparr>)" using old t ids by (intro saveable_root [OF assms(1)]) (auto simp: root_ok_def)
  show "entry_ok e" by (rule t)
  show "entry_id e \<noteq> 0" "entry_id e \<notin> set (node_ids root)" "p \<noteq> 0"
    using old ids t(3) by (auto simp: root_ok_def)
qed

lemma taken_group:
  assumes "saveable v" and "take_group_from_group env i (v_root v) = Some (c, root)"
  shows "saveable (v\<lparr>v_root := root\<rparr>)" and "tree_ok c" and "distinct (node_ids c)" and "0 \<notin> set (node_ids c)"
    and "set (node_ids c) \<inter> set (node_ids root) = {}"
proof -
  have old: "root_ok (v_root v)" using assms(1) by (simp add: saveable_iff)
  then have t: "tree_ok root" "tree_ok c" "mset (node_ids (v_root v)) = mset (node_ids c) + mset (node_ids root)"
    using take_group_ok(1) [OF assms(2)] by (simp_all add: root_ok_def)
  then have "mset (node_ids (v_root v)) = mset (node_ids c @ node_ids root)" by simp
  note ids = mset_eq_setD [OF this] distinct_of_mset [OF this]
  show "saveable (v\<lparr>v_root := root\<rparr>)" using old t ids by (intro saveable_root [OF assms(1)]) (auto simp: root_ok_def)
  show "tree_ok c" by (rule t)
  show "distinct (node_ids c)" "0 \<notin> set (node_ids c)" "set (node_ids c) \<inter> set (node_ids root) = {}"
    using old ids by (auto simp: root_ok_def)
qed

lemma delete_entry_saveable: "saveable v \<Longrightarrow> saveable (snd (delete_entry env i v))"
  by (auto simp: delete_entry_def delete_entry_from_group_def dest: taken_entry(1) split: option.split)

lemma delete_group_saveable: "saveable v \<Longrightarrow> saveable (snd (delete_group env i v))"
  by (auto simp: delete_group_def delete_group_from_group_def dest: taken_group(1) split: option.split)

section \<open>Moving\<close>

lemma next_location_ok: "next_entry_location_timestamp env k previous = Inr t \<Longrightarrow> kdbx4_unsigned_time_ok t"
  by (auto simp: next_entry_location_timestamp_def and_then_eq_Inr Let_def)

lemma edited_entry_ok:
  assumes "entry_ok entry" and "sound_edit f"
  shows "entry_ok (upd_entry f entry)" and "entry_id (upd_entry f entry) = entry_id entry"
  using assms by (simp_all add: sound_edit_def entry_ok_def)

lemma move_entry_saveable:
  assumes "saveable v"
  shows "saveable (snd (move_entry env i target v))"
  unfolding move_entry_def
proof (rule guarded_saveable [OF assms], rule guarded_saveable [OF assms], rule guarded_saveable [OF assms])
  fix x y t assume t: "next_entry_location_timestamp env 0 (e_location_changed_at (e_core y)) = Inr t"
  show "saveable (snd (case take_entry_from_group env i (v_root v) of
         None \<Rightarrow> (Inl (Err_EntryNotFound i), v)
       | Some ((entry, _), root) \<Rightarrow>
           on_group env target (push_entry env (upd_entry (\<lambda>e. e\<lparr>e_location_changed_at := Some t\<rparr>) entry))
             (v\<lparr>v_root := root\<rparr>)))"
  proof (cases "take_entry_from_group env i (v_root v)")
    case (Some z)
    obtain e p root where z: "z = ((e, p), root)" by (metis prod_cases3 surj_pair)
    note T = taken_entry [OF assms Some [unfolded z]]
    note E = edited_entry_ok [OF T(2) sound_times(4) [OF next_location_ok [OF t]]]
    show ?thesis
      unfolding Some z option.case prod.case by (rule push_entry_saveable [OF T(1) E(1)]) (use T E(2) in simp_all)
  qed (simp add: assms)
qed

lemma move_group_saveable:
  assumes "saveable v"
  shows "saveable (snd (move_group env i target v))"
  unfolding move_group_def
proof (rule guarded_saveable [OF assms], rule guarded_saveable [OF assms], rule guarded_saveable [OF assms],
    rule guarded_saveable [OF assms])
  show "saveable (snd (case take_group_from_group env i (v_root v) of
         None \<Rightarrow> (Inl (Err_GroupNotFound i), v)
       | Some (moved, root) \<Rightarrow> on_group env target (push_group env moved) (v\<lparr>v_root := root\<rparr>)))"
  proof (cases "take_group_from_group env i (v_root v)")
    case (Some z)
    obtain c root where z: "z = (c, root)" by fastforce
    note T = taken_group [OF assms Some [unfolded z]]
    show ?thesis
      unfolding Some z option.case prod.case by (rule push_group_saveable [OF T(1,2,3,4)]) (use T(5) in simp)
  qed (simp add: assms)
qed

section \<open>Recycle bin\<close>

lemma existing_bin_grows:
  assumes "saveable v"
  shows "saveable (v\<lparr>v_recycle_bin_enabled := Some True\<rparr>)"
  using sound_limits(5) [of True] assms by (simp add: sound_meta_def)

lemma new_bin_saveable:
  assumes "saveable v" and "u \<noteq> 0" and "u \<notin> set (node_ids (v_root v))" and "\<And>t. changed = Some t \<Longrightarrow> kdbx4_time_ok t"
    and "v_recycle_bin_changed v \<noteq> None \<longrightarrow> changed = v_recycle_bin_changed v"
  defines "root \<equiv> v_root v"
  shows "saveable (v\<lparr>v_root := Group (g_core root) (g_entries root) (g_children root @ [group_new u ''Recycle Bin'']),
    v_recycle_bin_enabled := Some True, v_recycle_bin_group := Some u, v_recycle_bin_changed := changed\<rparr>)" (is "saveable ?v")
proof -
  have old: "meta_ok v" "root_ok root" using assms(1) by (simp_all add: saveable_iff root_def)
  let ?root = "Group (g_core root) (g_entries root) (g_children root @ [group_new u ''Recycle Bin''])"
  let ?env = "undefined :: core_env"
  have "keeps_group {#u#} (push_group ?env (group_new u ''Recycle Bin''))"
    using keeps_push_group [OF new_group_ok(1) [of u "''Recycle Bin''"], of ?env] by (simp add: new_group_ok)
  then have "tree_ok ?root \<and> mset (node_ids ?root) = mset (node_ids root) + {#u#}"
    using old(2) unfolding keeps_group_def root_ok_def push_group_def snd_conv by blast
  then have "root_ok ?root" using assms(2,3) by (intro root_ok_added [OF old(2), where new = "[u]"]) (simp_all add: root_def)
  moreover have "meta_ok ?v"
  proof -
    have "node_ok (filter (\<lambda>_. True) (mr_node_order (v_meta_raw_state v))) (meta_counts ?v)"
      using old(1) assms(5)
      by (intro node_ok_kept [where counts = "meta_counts v"]) (auto simp: meta_ok_def meta_parts)
    moreover have "root_counts ?v = root_counts v" by (simp add: root_counts_alt)
    moreover have "\<forall>t. Some t \<in> set (meta_times ?v) \<longrightarrow> kdbx4_time_ok t"
      using old(1) assms(4) by (auto simp: meta_ok_def meta_times_def)
    moreover have "meta_fields_valid ?v" using old(1) assms(2) by (simp add: meta_ok_def meta_fields_iff)
    ultimately show ?thesis using old(1) by (simp add: meta_ok_def)
  qed
  ultimately show ?thesis by (simp add: saveable_iff)
qed

lemma ensure_recycle_bin_saveable:
  assumes "saveable v" and "env_ok env" and "ensure_recycle_bin env k v = Some (bin, v')"
  shows "saveable v'" and "v_deleted_objects v' = v_deleted_objects v"
proof -
  have "saveable v' \<and> v_deleted_objects v' = v_deleted_objects v"
  proof (cases "existing_recycle_bin env v")
    case (Some u)
    then show ?thesis using assms(3) existing_bin_grows [OF assms(1)] by (auto simp: ensure_recycle_bin_def)
  next
    case None
    let ?root = "v_root v"
    obtain u where u: "fresh_live_uuid env v = Some u"
      and v': "v' = v\<lparr>v_root := Group (g_core ?root) (g_entries ?root) (g_children ?root @ [group_new u ''Recycle Bin'']),
        v_recycle_bin_enabled := Some True, v_recycle_bin_group := Some u, v_recycle_bin_changed :=
          (case v_recycle_bin_changed v of Some t \<Rightarrow> Some t | None \<Rightarrow> Some (current_unix_timestamp env k))\<rparr>"
      using assms(3) None by (auto simp: ensure_recycle_bin_def Let_def split: option.splits)
    have "\<And>t. v_recycle_bin_changed v = Some t \<Longrightarrow> kdbx4_time_ok t"
      using assms(1) by (auto simp: saveable_iff meta_ok_def meta_times_def)
    then show ?thesis
      unfolding v' using assms(2) fresh_unused [OF u] fresh_nonzero [OF assms(2) u]
      by (intro conjI new_bin_saveable [OF assms(1)]) (auto simp: env_ok_def split: option.splits)
  qed
  then show "saveable v'" "v_deleted_objects v' = v_deleted_objects v" by simp_all
qed

lemma saveable_deleted: "saveable v \<Longrightarrow> deleted_ok deleted \<Longrightarrow> saveable (v\<lparr>v_deleted_objects := deleted\<rparr>)"
  by (rule saveable_same_meta) (simp_all add: meta_counts_alt meta_times_def meta_fields_iff saveable_iff)

lemma deleted_of_saveable: "saveable v \<Longrightarrow> deleted_ok (v_deleted_objects v)"
  by (simp add: saveable_iff meta_ok_def)

lemma record_deleted_ok:
  "deleted_ok deleted \<Longrightarrow> do_id d \<noteq> 0 \<Longrightarrow> kdbx4_time_ok (do_deleted_at d) \<Longrightarrow> deleted_ok (record_deleted d deleted)"
  by (auto simp: deleted_ok_def record_deleted_def distinct_map_filter)

lemma filter_deleted_ok: "deleted_ok deleted \<Longrightarrow> deleted_ok (filter P deleted)"
  by (simp add: deleted_ok_def distinct_map_filter)

lemma soft_delete_saveable:
  assumes "saveable v" and "env_ok env" and "soft_delete_entry_to_recycle_bin env i v = Some (r, v')"
  shows "saveable v'"
proof (cases "find_entry_by_id env i (v_root v)")
  case None
  then show ?thesis using assms by (simp add: soft_delete_entry_to_recycle_bin_def)
next
  case (Some found)
  show ?thesis
  proof (cases "next_entry_location_timestamp env 0 (e_location_changed_at (e_core found))")
    case (Inl e)
    then show ?thesis using assms Some by (simp add: soft_delete_entry_to_recycle_bin_def)
  next
    case (Inr t)
    then obtain bin v1 where bin: "ensure_recycle_bin env 1 v = Some (bin, v1)"
      and step: "(r, v') = (case take_entry_from_group env i (v_root v1) of
                 None \<Rightarrow> (Inl (Err_EntryNotFound i), v1)
               | Some ((entry, parent), root) \<Rightarrow>
                   (let entry' = upd_entry (\<lambda>e. e\<lparr>e_previous_parent := Some parent,
                          e_location_changed_at := Some t\<rparr>) entry;
                        v' = v1\<lparr>v_root := root, v_deleted_objects := record_deleted
                          \<lparr>do_id = entry_id entry', do_deleted_at = current_unix_timestamp env 2\<rparr> (v_deleted_objects v1)\<rparr>
                    in on_group env bin (push_entry env entry') v'))"
      using assms(3) Some by (auto simp: soft_delete_entry_to_recycle_bin_def)
    note v1 = ensure_recycle_bin_saveable [OF assms(1,2) bin]
    show ?thesis
    proof (cases "take_entry_from_group env i (v_root v1)")
      case None
      then show ?thesis using step v1 by simp
    next
      case taken: (Some z)
      obtain e p root where z: "z = ((e, p), root)" by (metis prod_cases3 surj_pair)
      note T = taken_entry [OF v1(1) taken [unfolded z]]
      let ?f = "\<lambda>e. e\<lparr>e_previous_parent := Some p, e_location_changed_at := Some t\<rparr>"
      let ?v = "v1\<lparr>v_root := root, v_deleted_objects := record_deleted
          \<lparr>do_id = entry_id (upd_entry ?f e), do_deleted_at = current_unix_timestamp env 2\<rparr> (v_deleted_objects v1)\<rparr>"
      have "sound_edit ?f"
        using T(5) next_location_ok [OF Inr] by (simp add: sound_edit_def live_ok_previous_parent live_ok_location)
      note E = edited_entry_ok [OF T(2) this]
      have "saveable ?v"
        using saveable_deleted [OF T(1) record_deleted_ok [OF deleted_of_saveable [OF v1(1)]]] E(2) T(3) assms(2)
        by (simp add: env_ok_def)
      then have "saveable (snd (on_group env bin (push_entry env (upd_entry ?f e)) ?v))"
        by (rule push_entry_saveable [OF _ E(1)]) (use T(3,4) E(2) in simp_all)
      moreover have "(r, v') = on_group env bin (push_entry env (upd_entry ?f e)) ?v"
        using step by (simp add: taken z Let_def)
      ultimately show ?thesis by (metis snd_conv)
    qed
  qed
qed

lemma restore_saveable:
  assumes "saveable v"
  shows "saveable (snd (restore_entry_from_recycle_bin env i target v))"
  unfolding restore_entry_from_recycle_bin_def
proof (rule guarded_saveable [OF assms], rule guarded_saveable [OF assms], rule guarded_saveable [OF assms],
    rule guarded_saveable [OF assms], rule guarded_saveable [OF assms], rule guarded_saveable [OF assms])
  fix bin_id bin entry target_id t x
  assume t: "next_entry_location_timestamp env 0 (e_location_changed_at (e_core entry)) = Inr t"
  let ?f = "\<lambda>e. (clear_previous_parent e)\<lparr>e_location_changed_at := Some t\<rparr>"
  show "saveable (snd (case take_entry_from_group env i (v_root v) of
         None \<Rightarrow> (Inl (Err_EntryNotFound i), v)
       | Some ((entry, _), root) \<Rightarrow>
           (let entry' = upd_entry ?f entry in
            case on_group env target_id (push_entry env entry') (v\<lparr>v_root := root\<rparr>) of
              (Inl e, v') \<Rightarrow> (Inl e, v')
            | (Inr view, v') \<Rightarrow>
                (Inr view, v'\<lparr>v_deleted_objects :=
                   filter (\<lambda>item. ce_uuid_text env (do_id item) \<noteq> i) (v_deleted_objects v')\<rparr>))))"
  proof (cases "take_entry_from_group env i (v_root v)")
    case (Some z)
    obtain e p root where z: "z = ((e, p), root)" by (metis prod_cases3 surj_pair)
    note T = taken_entry [OF assms Some [unfolded z]]
    have "sound_edit ?f"
      using sound_comp [OF sound_times(4) [OF next_location_ok [OF t]] sound_setters(6)] by (simp add: comp_def)
    note E = edited_entry_ok [OF T(2) this]
    obtain r v' where m: "on_group env target_id (push_entry env (upd_entry ?f e)) (v\<lparr>v_root := root\<rparr>) = (r, v')" by fastforce
    have "saveable (snd (on_group env target_id (push_entry env (upd_entry ?f e)) (v\<lparr>v_root := root\<rparr>)))"
      by (rule push_entry_saveable [OF T(1) E(1)]) (use T(3,4) E(2) in simp_all)
    then have "saveable v'" by (simp add: m)
    then show ?thesis
      using saveable_deleted [OF _ filter_deleted_ok [OF deleted_of_saveable]]
      by (cases r) (simp_all add: Some z Let_def m)
  qed (simp add: assms)
qed

end
