(* ===== verification/VaultSteps.thy ===== *)
theory VaultSteps
  imports SaveableGraph
begin

text \<open>
  The vault as a state machine: its steps are the public mutations of \<^verbatim>\<open>KeepassCore\<close>, with whatever
  arguments and whether they succeed or fail. Every vault that can be reached from one that passes the checks
  before a save passes them.
\<close>

section \<open>Steps\<close>

text \<open>What a mutation leaves behind: its error, if any, and the vault.\<close>

definition outcome :: "('e + 'r) \<times> vault \<Rightarrow> 'e option \<times> vault" where
  "outcome m = (case fst m of Inl e \<Rightarrow> Some e | Inr _ \<Rightarrow> None, snd m)"

lemma snd_outcome [simp]: "snd (outcome m) = snd m"
  by (simp add: outcome_def)

text \<open>The mutations of an entry.\<close>

inductive entry_step :: "core_env \<Rightarrow> vault \<Rightarrow> mutation_error option \<times> vault \<Rightarrow> bool" for env where
  "entry_step env v (outcome (update_entry_fields env a b v))"
| "entry_step env v (outcome (update_entry_presentation_metadata env a b v))"
| "entry_step env v (outcome (update_entry_lineage_report_metadata env a b v))"
| "entry_step env v (outcome (update_entry_auto_type env a b v))"
| "entry_step env v (outcome (update_entry_times env a b v))"
| "entry_step env v (outcome (update_entry_expiry env a b v))"
| "entry_step env v (outcome (update_entry_custom_icon env a b v))"
| "entry_step env v (outcome (replace_entry_tags env a b v))"
| "entry_step env v (outcome (update_entry_field_protection env a b v))"
| "entry_step env v (outcome (upsert_entry_custom_field env a b v))"
| "entry_step env v (outcome (delete_entry_custom_field env a b v))"
| "entry_step env v (outcome (set_entry_totp env a b v))"
| "entry_step env v (outcome (clear_entry_totp env a v))"
| "entry_step env v (outcome (set_entry_passkey env a b v))"
| "entry_step env v (outcome (clear_entry_passkey env a v))"
| "entry_step env v (outcome (add_entry_attachment env a b v))"
| "entry_step env v (outcome (delete_entry_attachment env a b v))"
| "entry_step env v (outcome (update_entry_attachment_metadata env a b c v))"
| "entry_step env v (outcome (replace_entry_attachment_content env a b c v))"
| "entry_step env v (outcome (upsert_entry_custom_data env a b c v))"
| "entry_step env v (outcome (upsert_entry_custom_data_detail env a b v))"
| "entry_step env v (outcome (delete_entry_custom_data env a b v))"
| "entry_step env v (outcome (snapshot_entry_to_history env a v))"
| "entry_step env v (outcome (clear_entry_history env a v))"

text \<open>The mutations of a group.\<close>

inductive group_step :: "core_env \<Rightarrow> vault \<Rightarrow> mutation_error option \<times> vault \<Rightarrow> bool" for env where
  "group_step env v (outcome (update_group_metadata env a b v))"
| "group_step env v (outcome (update_group_behavior_metadata env a b v))"
| "group_step env v (outcome (update_group_lineage_tag_metadata env a b v))"
| "group_step env v (outcome (update_group_times env a b v))"
| "group_step env v (outcome (update_group_expiry env a b v))"
| "group_step env v (outcome (update_group_custom_icon env a b v))"
| "group_step env v (outcome (upsert_group_custom_data env a b c v))"
| "group_step env v (outcome (upsert_group_custom_data_detail env a b v))"
| "group_step env v (outcome (delete_group_custom_data env a b v))"

text \<open>The mutations of the vault's own data.\<close>

inductive vault_data_step :: "core_env \<Rightarrow> vault \<Rightarrow> mutation_error option \<times> vault \<Rightarrow> bool" for env where
  "upsert_custom_icon env a v = Some m \<Longrightarrow> vault_data_step env v (outcome m)"
| "vault_data_step env v (outcome (delete_custom_icon env a v))"
| "vault_data_step env v (outcome (upsert_vault_custom_data a b v))"
| "vault_data_step env v (outcome (upsert_vault_custom_data_detail a v))"
| "vault_data_step env v (outcome (delete_vault_custom_data a v))"
| "vault_data_step env v (outcome (upsert_vault_public_custom_data a b v))"
| "vault_data_step env v (outcome (delete_vault_public_custom_data a v))"
| "vault_data_step env v (outcome (update_vault_metadata a v))"
| "vault_data_step env v (outcome (update_vault_selection_metadata env a v))"
| "vault_data_step env v (outcome (update_vault_lifecycle_metadata a v))"
| "vault_data_step env v (outcome (update_vault_bin_template_metadata env a v))"
| "vault_data_step env v (outcome (update_vault_identity_metadata a v))"

text \<open>The mutations of the tree. Those that draw an id take place when the draw ends.\<close>

inductive tree_step :: "core_env \<Rightarrow> vault \<Rightarrow> mutation_error option \<times> vault \<Rightarrow> bool" for env where
  "tree_step env v (outcome (add_entry_with_id env a b c v))"
| "add_entry env a b v = Some m \<Longrightarrow> tree_step env v (outcome m)"
| "add_group env a b v = Some m \<Longrightarrow> tree_step env v (outcome m)"
| "tree_step env v (outcome (delete_entry env a v))"
| "tree_step env v (outcome (delete_group env a v))"
| "tree_step env v (outcome (move_entry env a b v))"
| "tree_step env v (outcome (move_group env a b v))"
| "soft_delete_entry_to_recycle_bin env a v = Some m \<Longrightarrow> tree_step env v (outcome m)"
| "tree_step env v (outcome (restore_entry_from_recycle_bin env a b v))"

inductive vault_step :: "core_env \<Rightarrow> vault \<Rightarrow> mutation_error option \<times> vault \<Rightarrow> bool" for env where
  "entry_step env v s \<Longrightarrow> vault_step env v s"
| "group_step env v s \<Longrightarrow> vault_step env v s"
| "vault_data_step env v s \<Longrightarrow> vault_step env v s"
| "tree_step env v s \<Longrightarrow> vault_step env v s"

inductive edited :: "core_env \<Rightarrow> vault \<Rightarrow> vault \<Rightarrow> bool" for env v where
  edited_refl: "edited env v v"
| edited_step: "edited env v w \<Longrightarrow> vault_step env w (e, w') \<Longrightarrow> edited env v w'"

section \<open>Every step keeps a writable vault writable\<close>

lemma entry_step_saveable: "entry_step env v s \<Longrightarrow> saveable v \<Longrightarrow> saveable (snd s)"
  by (induction rule: entry_step.induct) (simp_all add:
    update_entry_fields_saveable update_entry_presentation_saveable update_entry_lineage_saveable
    update_entry_auto_type_saveable update_entry_times_saveable update_entry_expiry_saveable
    update_entry_custom_icon_saveable replace_entry_tags_saveable update_entry_field_protection_saveable
    upsert_entry_custom_field_saveable delete_entry_custom_field_saveable set_entry_totp_saveable
    clear_entry_totp_saveable set_entry_passkey_saveable clear_entry_passkey_saveable
    add_entry_attachment_saveable delete_entry_attachment_saveable update_entry_attachment_metadata_saveable
    replace_entry_attachment_content_saveable upsert_entry_custom_data_saveable
    upsert_entry_custom_data_detail_saveable delete_entry_custom_data_saveable history_saveable)

lemma group_step_saveable: "group_step env v s \<Longrightarrow> saveable v \<Longrightarrow> saveable (snd s)"
  by (induction rule: group_step.induct) (simp_all add:
    update_group_metadata_saveable update_group_behavior_saveable update_group_lineage_saveable
    update_group_times_saveable update_group_expiry_saveable update_group_custom_icon_saveable
    upsert_group_custom_data_saveable upsert_group_custom_data_detail_saveable delete_group_custom_data_saveable)

lemma vault_data_step_saveable:
  assumes "vault_data_step env v s" and "env_ok env" and "saveable v"
  shows "saveable (snd s)"
  using assms(1,3)
proof (induction rule: vault_data_step.induct)
  fix u v and m :: "(mutation_error + custom_icon_view) \<times> vault"
  assume "upsert_custom_icon env u v = Some m" "saveable v"
  then show "saveable (snd (outcome m))"
    using assms(2) by (cases m) (auto simp: env_ok_def intro: upsert_custom_icon_saveable)
qed (simp_all add:
    upsert_vault_custom_data_saveable upsert_vault_custom_data_detail_saveable delete_vault_custom_data_saveable
    upsert_vault_public_custom_data_saveable delete_vault_public_custom_data_saveable update_vault_metadata_saveable
    update_vault_selection_saveable update_vault_lifecycle_saveable update_vault_bin_template_saveable
    update_vault_identity_saveable delete_custom_icon_saveable)

lemma tree_step_saveable:
  assumes "tree_step env v s" and "env_ok env" and "saveable v"
  shows "saveable (snd s)"
  using assms(1,3)
proof (induction rule: tree_step.induct)
  fix p c v and m :: "(mutation_error + entry_view) \<times> vault"
  assume "add_entry env p c v = Some m" "saveable v"
  then show "saveable (snd (outcome m))" by (cases m) (auto intro: add_entry_saveable)
next
  fix p t v and m :: "(mutation_error + group_view) \<times> vault"
  assume "add_group env p t v = Some m" "saveable v"
  then show "saveable (snd (outcome m))" using assms(2) by (cases m) (auto intro: add_group_saveable)
next
  fix i v and m :: "(mutation_error + entry_view) \<times> vault"
  assume "soft_delete_entry_to_recycle_bin env i v = Some m" "saveable v"
  then show "saveable (snd (outcome m))" using assms(2) by (cases m) (auto intro: soft_delete_saveable)
qed (simp_all add:
    add_entry_with_id_saveable delete_entry_saveable delete_group_saveable move_entry_saveable move_group_saveable
    restore_saveable)

lemma vault_step_saveable: "vault_step env v s \<Longrightarrow> env_ok env \<Longrightarrow> saveable v \<Longrightarrow> saveable (snd s)"
  by (induction rule: vault_step.induct)
     (auto intro: entry_step_saveable group_step_saveable vault_data_step_saveable tree_step_saveable)

lemma edited_saveable: "edited env v w \<Longrightarrow> env_ok env \<Longrightarrow> saveable v \<Longrightarrow> saveable w"
  by (induction rule: edited.induct) (use vault_step_saveable in fastforce)+

lemma empty_saveable: "root_id \<noteq> 0 \<Longrightarrow> saveable (vault_empty root_id name)"
  using new_group_ok [of root_id name]
  by (simp add: saveable_iff root_ok_def vault_empty_def meta_ok_def meta_fields_iff node_ok_def
      raw_collapsed_optional_text_matches_def custom_data_ok_def merge_custom_data_blocks_def all_items_def
      meta_times_def icons_ok_def deleted_ok_def)

text \<open>C1. The vault that is being edited can always be saved. Start from a vault that passes the checks the
  KDBX writer makes before a save (a new vault, or one that the loader built, whose node orders list a
  \<open>CustomIcons\<close>, \<open>DeletedObjects\<close> or \<open>History\<close> node only when the document had one), and apply any of the 54
  public mutations of the core in any order with any arguments, failed ones included: the vault still passes
  every check. The remembered node order of every entry, of every group and of the metadata still names only
  nodes that will be written, no more often than they will be written; the slots of strings, attachments, entries and
  child groups still follow what is there; CustomData blocks still spell the maps; ids stay unique and not nil; dates stay
  in the domain of the format. Drawn ids are not nil, and the clock is within the format's dates.\<close>

theorem edits_stay_saveable:
  assumes "env_ok env"
    and "validate_vault_model v = Inr ()" and "slots_recorded v"
    and "edited env v w"
  shows "validate_vault_model w = Inr ()"
proof -
  have "saveable w" using edited_saveable [OF assms(4,1)] assms(2,3) by (simp add: saveable_def)
  then show ?thesis by (simp add: saveable_def)
qed

text \<open>A concrete environment, with ids written in unary, and a vault with an entry and two groups.\<close>

definition sample_env :: core_env where
  "sample_env =
     \<lparr>ce_uuid_text = (\<lambda>u. replicate (unat u) CHR ''i''), ce_parse_uuid = (\<lambda>s. Some (of_nat (length s))),
      ce_new_v4 = (\<lambda>_. 7), ce_clock = (\<lambda>_. Some 1700000000), ce_content_id = (\<lambda>bs. of_nat (length bs))\<rparr>"

lemma sample_text_ok: "uuid_text_ok sample_env"
  by (simp add: sample_env_def uuid_text_ok_def)

definition sample_vault :: vault where
  "sample_vault = (vault_empty 1 ''Vault'')\<lparr>v_root := Group (g_core (group_new 1 ''Vault''))
     [created_entry 4 \<lparr>ec_title = ''Mail'', ec_username = ''me'', ec_password = ''pw'', ec_url = [], ec_notes = []\<rparr> 1700000000]
     [group_new 2 ''Work'', group_new 3 ''Home'']\<rparr>"

lemma sample_env_ok: "env_ok sample_env"
  by (simp add: sample_env_def env_ok_def current_unix_timestamp_def kdbx4_time_ok_def KDBX4_TIME_OFFSET_def Let_def)

lemma sample_vault_saveable: "saveable sample_vault"
proof -
  let ?create = "\<lparr>ec_title = ''Mail'', ec_username = ''me'', ec_password = ''pw'', ec_url = [], ec_notes = []\<rparr>"
  have now: "kdbx4_unsigned_time_ok 1700000000"
    by (simp add: kdbx4_unsigned_time_ok_def kdbx4_time_ok_def KDBX4_TIME_OFFSET_def Let_def)
  note E = new_entry_ok [OF now, of 4 ?create]
  have "gcore_ok (g_core (group_new 1 ''Vault''))"
    using new_group_ok(1) [of 1 "''Vault''"] unfolding tree_ok_alt [of "group_new 1 ''Vault''"] by blast
  moreover have "children_ok (g_core (group_new 1 ''Vault'')) eids gids" for eids gids
    by (simp add: children_ok_def slots_ok_def group_new_def default_group_raw_state_def)
  moreover have "group_id (group_new u t) = u" for u t by (simp add: group_new_def)
  ultimately have "root_ok (v_root sample_vault)"
    using E new_group_ok by (simp add: sample_vault_def root_ok_def)
  then show ?thesis unfolding sample_vault_def using saveable_root [OF empty_saveable [of 1 "''Vault''"]] by simp
qed

lemma edited_once: "vault_step env v (outcome m) \<Longrightarrow> edited env v (snd m)"
  by (metis edited_refl edited_step outcome_def)

lemma edited_more: "edited env u v \<Longrightarrow> vault_step env v (outcome m) \<Longrightarrow> edited env u (snd m)"
  by (metis edited_step outcome_def)

theorem edits_stay_saveable_witness:
  "validate_vault_model (snd (update_group_lineage_tag_metadata sample_env ''i''
      \<lparr>glu_tags = Some [''home''], glu_previous_parent_id = None\<rparr>
     (snd (upsert_vault_custom_data ''theme'' ''dark'' (vault_empty 1 ''Vault''))))) = Inr ()"
proof (rule edits_stay_saveable [OF sample_env_ok])
  show "validate_vault_model (vault_empty 1 ''Vault'') = Inr ()" "slots_recorded (vault_empty 1 ''Vault'')"
    using empty_saveable [of 1 "''Vault''"] by (simp_all add: saveable_def)
  show "edited sample_env (vault_empty 1 ''Vault'') (snd (update_group_lineage_tag_metadata sample_env ''i''
      \<lparr>glu_tags = Some [''home''], glu_previous_parent_id = None\<rparr>
     (snd (upsert_vault_custom_data ''theme'' ''dark'' (vault_empty 1 ''Vault'')))))"
    by (rule edited_more [OF edited_once [OF vault_step.intros(3)] vault_step.intros(2)],
        rule vault_data_step.intros, rule group_step.intros)
qed

end
