(* ===== verification/Atomic.thy ===== *)
theory Atomic
  imports VaultSteps
begin

text \<open>
  A mutation that fails changes nothing, and a move loses nothing: the checks of a move come before the first
  change, so what was taken out always finds its target.
\<close>

section \<open>Frames\<close>

text \<open>A result beside the vault it started from.\<close>

definition kept :: "vault \<Rightarrow> ('e + 'r) \<times> vault \<Rightarrow> bool" where
  "kept v m \<longleftrightarrow> (\<forall>e. fst m = Inl e \<longrightarrow> snd m = v)"

lemma kept_guarded: "(\<And>x. r = Inr x \<Longrightarrow> kept v (k x v)) \<Longrightarrow> kept v (guarded r k v)"
  by (cases r) (simp_all add: kept_def guarded_def)

lemma kept_done: "kept v (Inr r, w)" "kept v (result, v)" "kept v (let w = k in (Inr (q w), w))"
  by (simp_all add: kept_def Let_def)

lemma kept_fail: "kept v (guarded (Inl e) k v)"
  by (simp add: kept_def guarded_def)

lemma kept_if: "kept v m \<Longrightarrow> kept v m' \<Longrightarrow> kept v (if P then m else m')"
  "kept v (k v) \<Longrightarrow> kept v (k' v) \<Longrightarrow> kept v ((if P then k else k') v)"
  by simp_all

text \<open>The maps of the code are sorted; the only failing mutation that touches one puts back what it took.\<close>

definition sorted_attachments :: "entry \<Rightarrow> bool" where
  "sorted_attachments e \<longleftrightarrow> bt_wf (e_attachments (e_core e))"

fun all_entries :: "vgroup \<Rightarrow> entry list" where
  "all_entries (Group g es children) = es @ concat (map all_entries children)"

definition atomic_entry :: "(entry \<Rightarrow> ('e + 'r) \<times> entry) \<Rightarrow> bool" where
  "atomic_entry f \<longleftrightarrow> (\<forall>entry e. sorted_attachments entry \<longrightarrow> fst (f entry) = Inl e \<longrightarrow> snd (f entry) = entry)"

definition atomic_group :: "(vgroup \<Rightarrow> ('e + 'r) \<times> vgroup) \<Rightarrow> bool" where
  "atomic_group f \<longleftrightarrow> (\<forall>g e. fst (f g) = Inl e \<longrightarrow> snd (f g) = g)"

lemma change_entry_atomic:
  assumes "atomic_entry f" and "change_entry env i f es = Some (Inl e, es')" and "\<forall>x \<in> set es. sorted_attachments x"
  shows "es' = es"
  using assms(2,3)
proof (induction es arbitrary: es')
  case (Cons x es)
  show ?case
  proof (cases "ce_uuid_text env (entry_id x) = i")
    case True
    then have "fst (f x) = Inl e" "es' = snd (f x) # es" using Cons.prems(1) by (auto split: prod.splits)
    then show ?thesis using assms(1) Cons.prems(2) by (simp add: atomic_entry_def)
  next
    case False
    then obtain es'' where "change_entry env i f es = Some (Inl e, es'')" "es' = x # es''" using Cons.prems(1) by auto
    then show ?thesis using Cons.IH Cons.prems(2) by simp
  qed
qed simp

lemma find_entry_mut_atomic:
  "find_entry_by_id_mut env i f g = Some (Inl e, g') \<Longrightarrow> atomic_entry f \<Longrightarrow> \<forall>x \<in> set (all_entries g). sorted_attachments x \<Longrightarrow>
     g' = g"
  "find_entry_in_mut env i f gs = Some (Inl e, gs') \<Longrightarrow> atomic_entry f \<Longrightarrow>
     \<forall>g \<in> set gs. \<forall>x \<in> set (all_entries g). sorted_attachments x \<Longrightarrow> gs' = gs"
proof (induction env i f g and env i f gs arbitrary: g' and gs'
    rule: find_entry_by_id_mut_find_entry_in_mut.induct [case_names Group Nil Cons])
  case (Group env i f g es children)
  show ?case
  proof (cases "change_entry env i f es")
    case None
    then obtain children' where c: "find_entry_in_mut env i f children = Some (Inl e, children')" "g' = Group g es children'"
      using Group.prems(1) by auto
    have "\<forall>g \<in> set children. \<forall>x \<in> set (all_entries g). sorted_attachments x" using Group.prems(3) by auto
    from Group.IH [OF None c(1) Group.prems(2) this] show ?thesis by (simp add: c(2))
  next
    case (Some x)
    then obtain es' where es': "change_entry env i f es = Some (Inl e, es')" "g' = Group g es' children"
      using Group.prems(1) by (auto split: prod.splits)
    then show ?thesis using change_entry_atomic [OF Group.prems(2) es'(1)] Group.prems(3) by simp
  qed
next
  case (Cons env i f child children)
  show ?case
  proof (cases "find_entry_by_id_mut env i f child")
    case None
    then obtain children' where c: "find_entry_in_mut env i f children = Some (Inl e, children')" "gs' = child # children'"
      using Cons.prems(1) by auto
    then show ?thesis using Cons.IH(2) [OF None c(1) Cons.prems(2)] Cons.prems(3) by simp
  next
    case (Some x)
    then obtain child' where c: "find_entry_by_id_mut env i f child = Some (Inl e, child')" "gs' = child' # children"
      using Cons.prems(1) by (cases x) auto
    then show ?thesis using Cons.IH(1) [OF c(1) Cons.prems(2)] Cons.prems(3) by simp
  qed
qed simp

lemma find_group_mut_atomic:
  "find_group_by_id_mut env i f g = Some (Inl e, g') \<Longrightarrow> atomic_group f \<Longrightarrow> g' = g"
  "find_group_in_mut env i f gs = Some (Inl e, gs') \<Longrightarrow> atomic_group f \<Longrightarrow> gs' = gs"
proof (induction env i f g and env i f gs arbitrary: g' and gs'
    rule: find_group_by_id_mut_find_group_in_mut.induct [case_names Group Nil Cons])
  case (Group env i f g es children)
  show ?case
  proof (cases "ce_uuid_text env (g_id g) = i")
    case True
    then have "f (Group g es children) = (Inl e, g')" using Group.prems(1) by simp
    then show ?thesis using Group.prems(2) by (metis atomic_group_def fst_conv snd_conv)
  next
    case False
    then obtain children' where c: "find_group_in_mut env i f children = Some (Inl e, children')" "g' = Group g es children'"
      using Group.prems(1) by auto
    then show ?thesis using Group.IH [OF False c(1) Group.prems(2)] by simp
  qed
next
  case (Cons env i f child children)
  show ?case
  proof (cases "find_group_by_id_mut env i f child")
    case None
    then obtain children' where c: "find_group_in_mut env i f children = Some (Inl e, children')" "gs' = child # children'"
      using Cons.prems(1) by auto
    then show ?thesis using Cons.IH(2) [OF None c(1) Cons.prems(2)] by simp
  next
    case (Some x)
    then obtain child' where c: "find_group_by_id_mut env i f child = Some (Inl e, child')" "gs' = child' # children"
      using Cons.prems(1) by (cases x) auto
    then show ?thesis using Cons.IH(1) [OF c(1) Cons.prems(2)] by simp
  qed
qed simp

definition maps_sorted :: "vault \<Rightarrow> bool" where
  "maps_sorted v \<longleftrightarrow> (\<forall>e \<in> set (all_entries (v_root v)). sorted_attachments e)"

lemma kept_on_entry: "maps_sorted v \<Longrightarrow> atomic_entry f \<Longrightarrow> kept v (on_entry env i f v)"
  using find_entry_mut_atomic(1) [of env i f "v_root v"]
  by (auto simp: kept_def on_entry_def maps_sorted_def split: option.splits)

lemma kept_on_group: "atomic_group f \<Longrightarrow> kept v (on_group env i f v)"
  using find_group_mut_atomic(1) [of env i f "v_root v"]
  by (auto simp: kept_def on_group_def split: option.splits)

lemma atomic_entry_changes:
  "atomic_entry (edit env f)" "atomic_entry (\<lambda>entry. (Inr (r entry), k entry))" "atomic_entry (\<lambda>entry. (q entry, entry))"
  "atomic_entry (\<lambda>entry. let entry' = k entry in (Inr (view entry'), entry'))"
  "atomic_entry h \<Longrightarrow> atomic_entry h' \<Longrightarrow> atomic_entry (\<lambda>entry. if P entry then h entry else h' entry)"
  by (simp_all add: atomic_entry_def edit_def Let_def)

lemma atomic_group_changes:
  "atomic_group (regroup view f)" "atomic_group (\<lambda>g. (Inr (r g), k g))" "atomic_group (\<lambda>g. (q g, g))"
  "atomic_group (\<lambda>g. let g' = k g in (Inr (look g'), g'))"
  "atomic_group h \<Longrightarrow> atomic_group h' \<Longrightarrow> atomic_group (\<lambda>g. if P g then h g else h' g)"
  by (simp_all add: atomic_group_def regroup_def Let_def)

section \<open>Entries and groups\<close>

lemma insert_removed:
  assumes "bt_wf m" and "bt_get m k = Some a"
  shows "bt_insert k a (bt_remove k m) = m"
  using assms by (intro bt_eqI) (auto simp: fun_eq_iff)

lemma kept_attachment_metadata: "maps_sorted v \<Longrightarrow> kept v (update_entry_attachment_metadata env i name u v)"
  unfolding update_entry_attachment_metadata_def
proof (rule kept_on_entry, assumption, unfold atomic_entry_def, intro allI impI)
  fix entry e
  let ?e = "e_core entry"
  let ?rest = "bt_remove name (e_attachments ?e)"
  let ?body = "\<lambda>entry. if amu_new_name u = Some [] then (Inl (Err_InvalidEntryValue (Empty_Key ''attachment name'')), entry)
       else case check_some (\<lambda>x. validate_unprotected_xml_text x ''attachment name'') (amu_new_name u) of
         Inl e \<Rightarrow> (Inl e, entry)
       | Inr _ \<Rightarrow>
         (let e = e_core entry; old_identities = entry_binary_identities e in
          case bt_get (e_attachments e) name of
            None \<Rightarrow> (Inl (Err_AttachmentNotFound name), entry)
          | Some a \<Rightarrow>
            (let rest = bt_remove name (e_attachments e);
                 target = (case amu_new_name u of Some n \<Rightarrow> n | None \<Rightarrow> a_name a) in
             if target \<noteq> name \<and> bt_contains rest target
             then (Inl (Err_AttachmentAlreadyExists target),
                   upd_entry (\<lambda>e. e\<lparr>e_attachments := bt_insert name a rest\<rparr>) entry)
             else let a' = (with_some (amu_protect_in_memory u) (\<lambda>x a. a\<lparr>a_protect_in_memory := x\<rparr>)) (a\<lparr>a_name := target\<rparr>);
                      e' = e\<lparr>e_attachments := bt_insert target a' rest\<rparr>;
                      entry' = upd_entry (\<lambda>_. retarget_binaries old_identities (entry_binary_identities e')
                                 [(name, target)] e') entry
                  in (Inr (project_attachment_items (e_attachments (e_core entry'))), entry')))"
  assume sorted: "sorted_attachments entry" and failed: "fst (?body entry) = Inl e"
  have same: "upd_entry (\<lambda>e. e\<lparr>e_attachments := bt_insert name a ?rest\<rparr>) entry = entry"
    if "bt_get (e_attachments ?e) name = Some a" for a
    using that sorted by (cases entry) (simp add: sorted_attachments_def insert_removed upd_entry_def)
  show "snd (?body entry) = entry"
  proof (cases "amu_new_name u = Some []")
    case False
    show ?thesis
    proof (cases "check_some (\<lambda>x. validate_unprotected_xml_text x ''attachment name'') (amu_new_name u)")
      case (Inr x)
      show ?thesis
      proof (cases "bt_get (e_attachments ?e) name")
        case (Some a)
        let ?target = "case amu_new_name u of Some n \<Rightarrow> n | None \<Rightarrow> a_name a"
        show ?thesis
        proof (cases "?target \<noteq> name \<and> bt_contains ?rest ?target")
          case True
          have "snd (?body entry) = upd_entry (\<lambda>e. e\<lparr>e_attachments := bt_insert name a ?rest\<rparr>) entry"
            unfolding if_not_P [OF False] Inr sum.case Let_def Some option.case if_P [OF True] snd_conv by (rule refl)
          then show ?thesis by (simp only: same [OF Some])
        next
          case other: False
          show ?thesis
            using failed unfolding if_not_P [OF False] Inr sum.case Let_def Some option.case if_not_P [OF other] fst_conv by simp
        qed
      qed (simp add: False Inr Let_def)
    qed (simp add: False)
  qed simp
qed

lemma kept_attachment_content: "maps_sorted v \<Longrightarrow> kept v (replace_entry_attachment_content env i name data v)"
  unfolding replace_entry_attachment_content_def
  by (intro kept_guarded kept_on_entry) (auto simp: atomic_entry_def Let_def split: option.splits)

lemma kept_lineage: "maps_sorted v \<Longrightarrow> kept v (update_entry_lineage_report_metadata env i u v)"
  unfolding update_entry_lineage_report_metadata_def Let_def
  by (auto split: option.split intro!: kept_guarded kept_fail kept_on_entry atomic_entry_changes)

lemmas entry_operations =
  update_entry_fields_def update_entry_presentation_metadata_def update_entry_auto_type_def update_entry_times_def
  update_entry_expiry_def update_entry_custom_icon_def replace_entry_tags_def update_entry_field_protection_def
  upsert_entry_custom_field_def delete_entry_custom_field_def set_entry_totp_def clear_entry_totp_def
  set_entry_passkey_def clear_entry_passkey_def add_entry_attachment_def delete_entry_attachment_def
  upsert_entry_custom_data_def upsert_entry_custom_data_detail_def delete_entry_custom_data_def
  snapshot_entry_to_history_def clear_entry_history_def

lemma kept_entry_operations:
  assumes "maps_sorted v"
  shows "kept v (update_entry_fields env i u1 v)" "kept v (update_entry_presentation_metadata env i u2 v)"
    "kept v (update_entry_auto_type env i u3 v)" "kept v (update_entry_times env i u4 v)"
    "kept v (update_entry_expiry env i u5 v)" "kept v (update_entry_custom_icon env i icon v)"
    "kept v (replace_entry_tags env i tags v)" "kept v (update_entry_field_protection env i u6 v)"
    "kept v (upsert_entry_custom_field env i field v)" "kept v (delete_entry_custom_field env i key v)"
    "kept v (set_entry_totp env i totp v)" "kept v (clear_entry_totp env i v)"
    "kept v (set_entry_passkey env i passkey v)" "kept v (clear_entry_passkey env i v)"
    "kept v (add_entry_attachment env i a v)" "kept v (delete_entry_attachment env i key v)"
    "kept v (upsert_entry_custom_data env i key x v)" "kept v (upsert_entry_custom_data_detail env i item v)"
    "kept v (delete_entry_custom_data env i key v)" "kept v (snapshot_entry_to_history env i v)"
    "kept v (clear_entry_history env i v)"
  unfolding entry_operations Let_def
  by (intro kept_guarded kept_on_entry [OF assms] atomic_entry_changes;
      (simp add: atomic_entry_def edit_def Let_def split: sum.split option.split; fail)?)+

lemma kept_outcome: "kept v m \<Longrightarrow> fst (outcome m) = Some e \<Longrightarrow> snd (outcome m) = v"
  by (auto simp: kept_def outcome_def split: sum.splits)

lemma entry_step_kept: "entry_step env v s \<Longrightarrow> maps_sorted v \<Longrightarrow> fst s = Some e \<Longrightarrow> snd s = v"
  by (induction rule: entry_step.induct)
     (rule kept_outcome, erule kept_entry_operations kept_attachment_metadata kept_attachment_content kept_lineage, assumption)+

lemmas group_operations =
  update_group_metadata_def update_group_behavior_metadata_def update_group_lineage_tag_metadata_def
  update_group_times_def update_group_expiry_def update_group_custom_icon_def upsert_group_custom_data_def
  upsert_group_custom_data_detail_def delete_group_custom_data_def

lemma kept_group_operations:
  "kept v (update_group_metadata env i u1 v)" "kept v (update_group_behavior_metadata env i u2 v)"
  "kept v (update_group_lineage_tag_metadata env i u3 v)" "kept v (update_group_times env i u4 v)"
  "kept v (update_group_expiry env i u5 v)" "kept v (update_group_custom_icon env i icon v)"
  "kept v (upsert_group_custom_data env i key x v)" "kept v (upsert_group_custom_data_detail env i item v)"
  "kept v (delete_group_custom_data env i key v)"
  unfolding group_operations Let_def
  by (intro kept_guarded kept_on_group atomic_group_changes;
      (simp add: atomic_group_def regroup_def Let_def; fail)?)+

lemma group_step_kept: "group_step env v s \<Longrightarrow> fst s = Some e \<Longrightarrow> snd s = v"
  by (induction rule: group_step.induct) (rule kept_outcome, rule kept_group_operations, assumption)+

lemmas vault_operations =
  delete_custom_icon_def upsert_vault_custom_data_def upsert_vault_custom_data_detail_def delete_vault_custom_data_def
  upsert_vault_public_custom_data_def delete_vault_public_custom_data_def update_vault_metadata_def
  update_vault_selection_metadata_def update_vault_lifecycle_metadata_def update_vault_bin_template_metadata_def
  update_vault_identity_metadata_def

lemma kept_vault_operations:
  "kept v (delete_custom_icon env i v)" "kept v (upsert_vault_custom_data key x v)"
  "kept v (upsert_vault_custom_data_detail item v)" "kept v (delete_vault_custom_data key v)"
  "kept v (upsert_vault_public_custom_data key bs v)" "kept v (delete_vault_public_custom_data key v)"
  "kept v (update_vault_metadata u1 v)" "kept v (update_vault_selection_metadata env u2 v)"
  "kept v (update_vault_lifecycle_metadata u3 v)" "kept v (update_vault_bin_template_metadata env u4 v)"
  "kept v (update_vault_identity_metadata u5 v)"
  unfolding vault_operations Let_def
  by (intro kept_guarded kept_if kept_done;
      (simp add: kept_def guarded_def split: option.split; fail)?)+

lemma kept_upsert_icon: "upsert_custom_icon env u v = Some m \<Longrightarrow> kept v m"
  by (cases "and_then (check_some (\<lambda>x. validate_unprotected_xml_text x ''custom icon name'') (cin_name u)) (\<lambda>_.
             and_then (check_some validate_persistent_timestamp (cin_last_modified u)) (\<lambda>_.
             case cin_id u of Some x \<Rightarrow> and_then (parse_uuid env x) (\<lambda>y. Inr (Some y)) | None \<Rightarrow> Inr None))")
     (auto simp: upsert_custom_icon_def kept_def Let_def)

lemma vault_data_step_kept: "vault_data_step env v s \<Longrightarrow> fst s = Some e \<Longrightarrow> snd s = v"
  by (induction rule: vault_data_step.induct)
     (rule kept_outcome, (erule kept_upsert_icon | rule kept_vault_operations), assumption)+

section \<open>Groups of a tree\<close>

fun group_ids :: "vgroup \<Rightarrow> uuid list" where
  "group_ids (Group g es children) = g_id g # concat (map group_ids children)"

lemma find_group_iff:
  "find_group_by_id env i g = None \<longleftrightarrow> i \<notin> ce_uuid_text env ` set (group_ids g)"
  "find_group_in env i gs = None \<longleftrightarrow> i \<notin> ce_uuid_text env ` (\<Union>g \<in> set gs. set (group_ids g))"
  by (induction env i g and env i gs rule: find_group_by_id_find_group_in.induct) (auto split: option.splits)

lemma find_group_mut_iff:
  "find_group_by_id_mut env i f g = None \<longleftrightarrow> i \<notin> ce_uuid_text env ` set (group_ids g)"
  "find_group_in_mut env i f gs = None \<longleftrightarrow> i \<notin> ce_uuid_text env ` (\<Union>g \<in> set gs. set (group_ids g))"
  by (induction env i f g and env i f gs rule: find_group_by_id_mut_find_group_in_mut.induct) (auto split: option.splits)

lemma find_group_mut_result:
  "find_group_by_id_mut env i f g = Some (r, g') \<Longrightarrow> \<exists>h. fst (f h) = r"
  "find_group_in_mut env i f gs = Some (r, gs') \<Longrightarrow> \<exists>h. fst (f h) = r"
  by (induction env i f g and env i f gs arbitrary: g' and gs' rule: find_group_by_id_mut_find_group_in_mut.induct)
     (auto split: option.splits if_splits, metis fst_conv)

text \<open>A push into a group that is there succeeds.\<close>

lemma on_group_pushes:
  assumes "t \<in> ce_uuid_text env ` set (group_ids (v_root v))" and "\<And>h. \<exists>view. fst (f h) = Inr view"
  shows "\<exists>view root. find_group_by_id_mut env t f (v_root v) = Some (Inr view, root) \<and>
    on_group env t f v = (Inr view, v\<lparr>v_root := root\<rparr>)"
proof -
  obtain r root where found: "find_group_by_id_mut env t f (v_root v) = Some (r, root)"
    using assms(1) find_group_mut_iff(1) [of env t f "v_root v"] by auto
  obtain h where "fst (f h) = r" using find_group_mut_result(1) [OF found] by auto
  then obtain view where "r = Inr view" using assms(2) by metis
  then show ?thesis using found by (simp add: on_group_def)
qed

lemma pushes: "\<exists>view. fst (push_entry env entry h) = Inr view" "\<exists>view. fst (push_group env child h) = Inr view"
  by (simp_all add: push_entry_def push_group_def)

lemma take_entry_group_ids:
  "take_entry_from_group env i g = Some (r, g') \<Longrightarrow> group_ids g' = group_ids g"
  "take_entry_from_children env i gs = Some (r, gs') \<Longrightarrow> map group_ids gs' = map group_ids gs"
proof (induction env i g and env i gs arbitrary: g' and gs'
    rule: take_entry_from_group_take_entry_from_children.induct [case_names Group Nil Cons])
  case (Group env i g es children)
  have "g_id (retarget_group_entries a b g) = g_id g" for a b by (simp add: retarget_group_entries_def Let_def)
  then show ?case using Group by (auto split: option.splits)
next
  case (Cons env i child children)
  then show ?case by (auto split: option.splits)
qed simp

lemma take_group_group_ids:
  "take_group_from_group env i g = Some (c, g') \<Longrightarrow> mset (group_ids g) = mset (group_ids c) + mset (group_ids g')"
  "take_group_from_children env i gs = Some (c, gs') \<Longrightarrow>
     mset (concat (map group_ids gs)) = mset (group_ids c) + mset (concat (map group_ids gs'))"
proof (induction env i g and env i gs arbitrary: g' and gs'
    rule: take_group_from_group_take_group_from_children.induct [case_names Group Nil Cons])
  case (Group env i g es children)
  have id: "g_id (retarget_group_children a b g) = g_id g" for a b by (simp add: retarget_group_children_def Let_def)
  show ?case
  proof (cases "position (\<lambda>child. ce_uuid_text env (group_id child) = i) children")
    case None
    then show ?thesis using Group by auto
  next
    case (Some k)
    note k = position_Some [OF this]
    have split: "mset (concat (map group_ids xs)) = mset (group_ids (xs ! k)) + mset (concat (map group_ids (remove_at k xs)))"
      if "k < length xs" for xs
      using arg_cong [OF id_take_nth_drop [OF that], of "\<lambda>xs. mset (concat (map group_ids xs))"]
      by (simp add: remove_at_def)
    then show ?thesis using Group.prems Some k by (auto simp: id)
  qed
next
  case (Cons env i child children)
  then show ?case by (auto split: option.splits)
qed simp

text \<open>Groups are told apart by their ids.\<close>

fun subgroups :: "vgroup \<Rightarrow> vgroup list" where
  "subgroups (Group g es children) = Group g es children # concat (map subgroups children)"

lemma subgroup_ids: "map group_id (subgroups g) = group_ids g"
  by (induction g rule: subgroups.induct) (simp add: map_concat comp_def cong: map_cong)

lemma found_subgroup:
  "find_group_by_id env i g = Some m \<Longrightarrow> m \<in> set (subgroups g) \<and> ce_uuid_text env (group_id m) = i"
  "find_group_in env i gs = Some m \<Longrightarrow> m \<in> (\<Union>g \<in> set gs. set (subgroups g)) \<and> ce_uuid_text env (group_id m) = i"
  by (induction env i g and env i gs rule: find_group_by_id_find_group_in.induct) (auto split: option.splits if_splits)

lemma self_subgroup: "g \<in> set (subgroups g)"
  by (cases g) simp

lemma taken_subgroup:
  "take_group_from_group env i g = Some (c, g') \<Longrightarrow> c \<in> set (subgroups g) \<and> ce_uuid_text env (group_id c) = i"
  "take_group_from_children env i gs = Some (c, gs') \<Longrightarrow>
     c \<in> (\<Union>g \<in> set gs. set (subgroups g)) \<and> ce_uuid_text env (group_id c) = i"
proof (induction env i g and env i gs arbitrary: g' and gs'
    rule: take_group_from_group_take_group_from_children.induct [case_names Group Nil Cons])
  case (Group env i g es children)
  show ?case
  proof (cases "position (\<lambda>child. ce_uuid_text env (group_id child) = i) children")
    case None
    then show ?thesis using Group by auto
  next
    case (Some k)
    then have "c \<in> set children" using Group.prems position_Some [OF Some] by auto
    then show ?thesis using Group.prems Some position_Some [OF Some] self_subgroup by auto
  qed
next
  case (Cons env i child children)
  then show ?case by (auto split: option.splits)
qed simp

lemma group_ids_subset: "set (group_ids g) \<subseteq> set (node_ids g)"
  by (induction g rule: group_ids.induct) auto

lemma distinct_group_ids: "distinct (node_ids g) \<Longrightarrow> distinct (group_ids g)"
proof (induction g rule: group_ids.induct)
  case (1 g es children)
  have "distinct (concat (map group_ids gs))" if "set gs \<subseteq> set children" "distinct (concat (map node_ids gs))" for gs
    using that
  proof (induction gs)
    case (Cons c gs)
    have "set (concat (map group_ids gs)) \<subseteq> set (concat (map node_ids gs))" using group_ids_subset by fastforce
    then show ?case using Cons 1(1) group_ids_subset [of c] by fastforce
  qed simp
  moreover have "g_id g \<notin> set (concat (map group_ids children))" using "1.prems" group_ids_subset by fastforce
  ultimately show ?case using "1.prems" by simp
qed

lemma same_subgroup:
  assumes "distinct (node_ids g)" and "a \<in> set (subgroups g)" "b \<in> set (subgroups g)" and "group_id a = group_id b"
  shows "a = b"
proof -
  have "distinct (map group_id (subgroups g))" using distinct_group_ids [OF assms(1)] by (simp add: subgroup_ids)
  then show ?thesis using assms(2-4) by (meson distinct_map inj_onD)
qed

lemma contains_id_iff:
  "ce_uuid_text env (group_id g) = t \<or> group_contains_id env t g \<longleftrightarrow> t \<in> ce_uuid_text env ` set (group_ids g)"
  "children_contain_id env t gs \<longleftrightarrow> t \<in> ce_uuid_text env ` (\<Union>g \<in> set gs. set (group_ids g))"
  by (induction env t g and env t gs rule: group_contains_id_children_contain_id.induct) auto

section \<open>Adding and deleting\<close>

lemma atomic_push: "atomic_group (push_entry env entry)" "atomic_group (push_group env child)"
  by (simp_all add: atomic_group_def push_entry_def push_group_def)

lemma kept_additions:
  "kept v (add_entry_with_id env parent i create v)"
  "add_entry env parent create v = Some m \<Longrightarrow> kept v m" "add_group env parent title v = Some m' \<Longrightarrow> kept v m'"
  "kept v (delete_entry env i v)" "kept v (delete_group env i v)"
proof -
  have added: "kept v (add_entry_with_id env parent i create v)" for i
    unfolding add_entry_with_id_def
    by (intro kept_guarded kept_on_group) (auto simp: atomic_group_def push_entry_def split: sum.split)
  then show "kept v (add_entry_with_id env parent i create v)" .
  show "kept v m" if "add_entry env parent create v = Some m" using that added by (auto simp: add_entry_def)
  show "kept v m'" if "add_group env parent title v = Some m'"
    using that kept_on_group [OF atomic_push(2)] by (auto simp: add_group_def kept_done split: sum.splits)
  show "kept v (delete_entry env i v)" "kept v (delete_group env i v)"
    by (auto simp: delete_entry_def delete_group_def kept_done split: option.split)
qed

section \<open>Moving\<close>

lemma found_group: "find_group_or env t v = Inr g \<Longrightarrow> t \<in> ce_uuid_text env ` set (group_ids (v_root v))"
  using find_group_iff(1) [of env t "v_root v"] by (auto simp: find_group_or_def ok_or_def split: option.splits)

text \<open>What was taken out of the tree finds the group it was checked against.\<close>

lemma entry_finds_target:
  assumes "t \<in> ce_uuid_text env ` set (group_ids (v_root v))" and "take_entry_from_group env i (v_root v) = Some (r, root)"
  shows "\<exists>view root'. find_group_by_id_mut env t (push_entry env entry) root = Some (Inr view, root') \<and>
    on_group env t (push_entry env entry) (v\<lparr>v_root := root\<rparr>) = (Inr view, v\<lparr>v_root := root'\<rparr>)"
proof -
  have "t \<in> ce_uuid_text env ` set (group_ids (v_root (v\<lparr>v_root := root\<rparr>)))"
    using assms(1) take_entry_group_ids(1) [OF assms(2)] by simp
  from on_group_pushes [OF this, of "push_entry env entry"] show ?thesis using pushes(1) by fastforce
qed

lemma kept_move_entry: "kept v (move_entry env i target v)"
  unfolding move_entry_def
proof (intro kept_guarded)
  fix g y t assume "find_group_or env target v = Inr g"
  note target = found_group [OF this]
  show "kept v (case take_entry_from_group env i (v_root v) of
         None \<Rightarrow> (Inl (Err_EntryNotFound i), v)
       | Some ((entry, _), root) \<Rightarrow>
           on_group env target (push_entry env (upd_entry (\<lambda>e. e\<lparr>e_location_changed_at := Some t\<rparr>) entry))
             (v\<lparr>v_root := root\<rparr>))"
  proof (cases "take_entry_from_group env i (v_root v)")
    case (Some z)
    obtain e p root where z: "z = ((e, p), root)" by (metis prod_cases3 surj_pair)
    from entry_finds_target [OF target Some [unfolded z], of "upd_entry (\<lambda>e. e\<lparr>e_location_changed_at := Some t\<rparr>) e"]
    show ?thesis by (auto simp: Some z kept_done)
  qed (simp add: kept_done)
qed

lemma moving_subtree:
  assumes "saveable v" and "uuid_text_ok env"
    and "find_group_or env i v = Inr moving" and "take_group_from_group env i (v_root v) = Some (moved, root)"
  shows "moved = moving"
proof (rule same_subgroup)
  show "distinct (node_ids (v_root v))" using assms(1) by (simp add: saveable_iff root_ok_def)
  show "moved \<in> set (subgroups (v_root v))" using taken_subgroup(1) [OF assms(4)] by simp
  have found: "find_group_by_id env i (v_root v) = Some moving"
    using assms(3) by (auto simp: find_group_or_def ok_or_def split: option.splits)
  show "moving \<in> set (subgroups (v_root v))" using found_subgroup(1) [OF found] by simp
  show "group_id moved = group_id moving"
    using found_subgroup(1) [OF found] taken_subgroup(1) [OF assms(4)] uuid_text_inj [OF assms(2), of "group_id moved" "group_id moving"] by simp
qed

lemma group_finds_target:
  assumes "saveable v" and "uuid_text_ok env"
    and "find_group_or env i v = Inr moving" and "take_group_from_group env i (v_root v) = Some (moved, root)"
    and "\<not> (ce_uuid_text env (group_id moving) = t \<or> group_contains_id env t moving)"
    and "find_group_or env t v = Inr g"
  shows "\<exists>view root'. find_group_by_id_mut env t (push_group env child) root = Some (Inr view, root') \<and>
    on_group env t (push_group env child) (v\<lparr>v_root := root\<rparr>) = (Inr view, v\<lparr>v_root := root'\<rparr>)"
proof -
  have "mset (group_ids (v_root v)) = mset (group_ids moved @ group_ids root)"
    using take_group_group_ids(1) [OF assms(4)] by simp
  from mset_eq_setD [OF this] have "set (group_ids (v_root v)) = set (group_ids moved) \<union> set (group_ids root)" by simp
  moreover have "t \<notin> ce_uuid_text env ` set (group_ids moved)"
    using assms(5) contains_id_iff(1) [of env moving t] moving_subtree [OF assms(1-4)] by simp
  ultimately have "t \<in> ce_uuid_text env ` set (group_ids (v_root (v\<lparr>v_root := root\<rparr>)))"
    using found_group [OF assms(6)] by auto
  from on_group_pushes [OF this, of "push_group env child"] show ?thesis using pushes(2) by fastforce
qed

lemma kept_move_group:
  assumes "saveable v" and "uuid_text_ok env"
  shows "kept v (move_group env i target v)"
  unfolding move_group_def
proof (intro kept_guarded)
  fix moving g x
  assume moving: "find_group_or env i v = Inr moving" and target: "find_group_or env target v = Inr g"
    and "(if ce_uuid_text env (group_id moving) = target \<or> group_contains_id env target moving
              then Inl Err_CannotMoveGroupIntoDescendant else Inr ()) = Inr x"
  then have outside: "\<not> (ce_uuid_text env (group_id moving) = target \<or> group_contains_id env target moving)"
    by (auto split: if_splits)
  show "kept v (case take_group_from_group env i (v_root v) of
         None \<Rightarrow> (Inl (Err_GroupNotFound i), v)
       | Some (moved, root) \<Rightarrow> on_group env target (push_group env moved) (v\<lparr>v_root := root\<rparr>))"
  proof (cases "take_group_from_group env i (v_root v)")
    case (Some z)
    obtain c root where z: "z = (c, root)" by fastforce
    from group_finds_target [OF assms moving Some [unfolded z] outside target, of c]
    show ?thesis by (auto simp: Some z kept_done)
  qed (simp add: kept_done)
qed

section \<open>Recycle bin\<close>

lemma take_entry_iff:
  "take_entry_from_group env i g = None \<longleftrightarrow> (\<forall>e \<in> set (all_entries g). ce_uuid_text env (entry_id e) \<noteq> i)"
  "take_entry_from_children env i gs = None \<longleftrightarrow>
     (\<forall>g \<in> set gs. \<forall>e \<in> set (all_entries g). ce_uuid_text env (entry_id e) \<noteq> i)"
proof (induction env i g and env i gs rule: take_entry_from_group_take_entry_from_children.induct)
  case (1 env i g es children)
  have at: "position (\<lambda>e. ce_uuid_text env (entry_id e) = i) xs = None \<longleftrightarrow> (\<forall>e \<in> set xs. ce_uuid_text env (entry_id e) \<noteq> i)" for xs
    by (induction xs) auto
  show ?case
  proof (cases "position (\<lambda>e. ce_uuid_text env (entry_id e) = i) es")
    case None
    then show ?thesis using 1 at [of es] by auto
  next
    case (Some k)
    then have "\<exists>e \<in> set es. ce_uuid_text env (entry_id e) = i" using at [of es] by auto
    then show ?thesis by (auto simp: Some)
  qed
qed (auto split: option.splits)

lemma find_entry_iff:
  "find_entry_by_id env i g = None \<longleftrightarrow> (\<forall>e \<in> set (all_entries g). ce_uuid_text env (entry_id e) \<noteq> i)"
  "find_entry_in env i gs = None \<longleftrightarrow>
     (\<forall>g \<in> set gs. \<forall>e \<in> set (all_entries g). ce_uuid_text env (entry_id e) \<noteq> i)"
proof (induction env i g and env i gs rule: find_entry_by_id_find_entry_in.induct)
  case (1 env i g es children)
  show ?case
  proof (cases "find (\<lambda>e. ce_uuid_text env (entry_id e) = i) es")
    case None
    then have "\<forall>e \<in> set es. ce_uuid_text env (entry_id e) \<noteq> i" by (auto simp: find_None_iff)
    then show ?thesis using 1 [OF None] by (auto simp: None)
  next
    case (Some x)
    then have "\<exists>e \<in> set es. ce_uuid_text env (entry_id e) = i" by (auto simp: find_Some_iff)
    then show ?thesis by (auto simp: Some)
  qed
qed (auto split: option.splits)

lemma ensured_bin:
  assumes "ensure_recycle_bin env k v = Some (bin, v')"
  shows "bin \<in> ce_uuid_text env ` set (group_ids (v_root v'))" and "all_entries (v_root v') = all_entries (v_root v)"
proof -
  obtain g es children where root: "v_root v = Group g es children" by (cases "v_root v")
  have "bin \<in> ce_uuid_text env ` set (group_ids (v_root v')) \<and> all_entries (v_root v') = all_entries (v_root v)"
  proof (cases "existing_recycle_bin env v")
    case (Some u)
    then have "ce_uuid_text env u \<in> ce_uuid_text env ` set (group_ids (v_root v))"
      using find_group_iff(1) [of env "ce_uuid_text env u" "v_root v"]
      by (auto simp: existing_recycle_bin_def split: option.splits if_splits)
    then show ?thesis using assms Some by (auto simp: ensure_recycle_bin_def)
  next
    case None
    then show ?thesis using assms by (auto simp: ensure_recycle_bin_def Let_def root group_new_def)
  qed
  then show "bin \<in> ce_uuid_text env ` set (group_ids (v_root v'))" "all_entries (v_root v') = all_entries (v_root v)"
    by simp_all
qed

lemma kept_soft_delete:
  assumes "soft_delete_entry_to_recycle_bin env i v = Some m"
  shows "kept v m"
proof (cases "find_entry_by_id env i (v_root v)")
  case None
  then show ?thesis using assms by (auto simp: soft_delete_entry_to_recycle_bin_def kept_done)
next
  case (Some found)
  show ?thesis
  proof (cases "next_entry_location_timestamp env 0 (e_location_changed_at (e_core found))")
    case (Inl e)
    then show ?thesis using assms Some by (auto simp: soft_delete_entry_to_recycle_bin_def kept_done)
  next
    case (Inr t)
    then obtain bin v1 where bin: "ensure_recycle_bin env 1 v = Some (bin, v1)"
      using assms Some by (auto simp: soft_delete_entry_to_recycle_bin_def)
    have "\<exists>e \<in> set (all_entries (v_root v1)). ce_uuid_text env (entry_id e) = i"
      using Some find_entry_iff(1) [of env i "v_root v"] ensured_bin(2) [OF bin] by auto
    then obtain e p root where taken: "take_entry_from_group env i (v_root v1) = Some ((e, p), root)"
      using take_entry_iff(1) [of env i "v_root v1"] by (cases "take_entry_from_group env i (v_root v1)") auto
    let ?entry = "upd_entry (\<lambda>e. e\<lparr>e_previous_parent := Some p, e_location_changed_at := Some t\<rparr>) e"
    let ?v = "v1\<lparr>v_root := root, v_deleted_objects := record_deleted
        \<lparr>do_id = entry_id ?entry, do_deleted_at = current_unix_timestamp env 2\<rparr> (v_deleted_objects v1)\<rparr>"
    have m: "m = on_group env bin (push_entry env ?entry) ?v"
      using assms Some Inr bin taken by (simp add: soft_delete_entry_to_recycle_bin_def Let_def)
    have "bin \<in> ce_uuid_text env ` set (group_ids (v_root ?v))"
      using ensured_bin(1) [OF bin] take_entry_group_ids(1) [OF taken] by simp
    from on_group_pushes [OF this, of "push_entry env ?entry"] pushes(1) show ?thesis by (auto simp: m kept_done)
  qed
qed

lemma kept_restore: "kept v (restore_entry_from_recycle_bin env i target v)"
  unfolding restore_entry_from_recycle_bin_def
proof (intro kept_guarded)
  fix bin_id bin entry target_id t g
  assume "find_group_or env target_id v = Inr g"
  note target = found_group [OF this]
  let ?f = "\<lambda>e. (clear_previous_parent e)\<lparr>e_location_changed_at := Some t\<rparr>"
  show "kept v (case take_entry_from_group env i (v_root v) of
         None \<Rightarrow> (Inl (Err_EntryNotFound i), v)
       | Some ((entry, _), root) \<Rightarrow>
           (let entry' = upd_entry ?f entry in
            case on_group env target_id (push_entry env entry') (v\<lparr>v_root := root\<rparr>) of
              (Inl e, v') \<Rightarrow> (Inl e, v')
            | (Inr view, v') \<Rightarrow>
                (Inr view, v'\<lparr>v_deleted_objects :=
                   filter (\<lambda>item. ce_uuid_text env (do_id item) \<noteq> i) (v_deleted_objects v')\<rparr>)))"
  proof (cases "take_entry_from_group env i (v_root v)")
    case (Some z)
    obtain e p root where z: "z = ((e, p), root)" by (metis prod_cases3 surj_pair)
    from entry_finds_target [OF target Some [unfolded z], of "upd_entry ?f e"]
    show ?thesis by (auto simp: Some z kept_done Let_def)
  qed (simp add: kept_done)
qed

lemma tree_step_kept:
  assumes "tree_step env v s" and "saveable v" and "uuid_text_ok env"
  shows "fst s = Some e \<Longrightarrow> snd s = v"
proof -
  have "fst s = Some e \<longrightarrow> snd s = v"
    using assms(1,2)
    by (induction rule: tree_step.induct)
       (intro impI, erule kept_outcome [rotated],
        (erule kept_additions kept_soft_delete | rule kept_additions kept_move_entry kept_restore
           kept_move_group [OF _ assms(3)], assumption?))+
  then show "fst s = Some e \<Longrightarrow> snd s = v" by blast
qed

text \<open>C4. A mutation of the core that fails leaves the vault as it was. Each of the 54 public mutations checks before it
  changes, or undoes what it did: an attachment that was taken out is put back under its name when the new
  name is in use; a moved entry or subtree, an entry sent to the recycle bin or restored from it, is only taken
  out of the tree when the group that receives it will be found again. The vault passes the checks before a
  save, its attachment maps are sorted as \<open>BTreeMap\<close> keeps them, and the text of an id determines the id.\<close>

theorem failed_edits_change_nothing:
  assumes "vault_step env v (Some e, w)"
    and "validate_vault_model v = Inr ()" and "slots_recorded v" and "maps_sorted v" and "uuid_text_ok env"
  shows "w = v"
proof -
  have v: "saveable v" using assms(2,3) by (simp add: saveable_def)
  obtain s where s: "vault_step env v s" "fst s = Some e" "snd s = w" using assms(1) by force
  have "snd s = v"
    using s(1)
  proof (cases rule: vault_step.cases)
    case 1
    then show ?thesis by (rule entry_step_kept [OF _ assms(4) s(2)])
  next
    case 2
    then show ?thesis by (rule group_step_kept [OF _ s(2)])
  next
    case 3
    then show ?thesis by (rule vault_data_step_kept [OF _ s(2)])
  next
    case 4
    then show ?thesis by (rule tree_step_kept [OF _ v assms(5) s(2)])
  qed
  then show ?thesis using s(3) by simp
qed

theorem failed_edits_change_nothing_witness:
  "snd (move_group sample_env ''ii'' ''ii'' sample_vault) = sample_vault"
proof (rule failed_edits_change_nothing [OF _ _ _ _ sample_text_ok])
  have "ce_uuid_text sample_env 1 = ''i''" "ce_uuid_text sample_env 2 = ''ii''"
    by (simp_all add: sample_env_def, simp add: numeral_2_eq_2)
  then have "fst (move_group sample_env ''ii'' ''ii'' sample_vault) = Inl Err_CannotMoveGroupIntoDescendant"
    by (simp add: move_group_def guarded_def sample_vault_def find_group_or_def ok_or_def group_new_def)
  then have "outcome (move_group sample_env ''ii'' ''ii'' sample_vault) =
      (Some Err_CannotMoveGroupIntoDescendant, snd (move_group sample_env ''ii'' ''ii'' sample_vault))"
    by (simp add: outcome_def)
  then show "vault_step sample_env sample_vault
      (Some Err_CannotMoveGroupIntoDescendant, snd (move_group sample_env ''ii'' ''ii'' sample_vault))"
    by (metis vault_step.intros(4) tree_step.intros)
  show "validate_vault_model sample_vault = Inr ()" "slots_recorded sample_vault"
    using sample_vault_saveable by (simp_all add: saveable_def)
  show "maps_sorted sample_vault"
    by (simp add: maps_sorted_def sample_vault_def group_new_def created_entry_def entry_new_def sorted_attachments_def
        upd_entry_def bt_wf_def)
qed

text \<open>C13. No move of an entry loses, duplicates or invents a node. In a vault that passes \<open>validate_vault_model\<close>, as every
  loaded vault does, and records its slots, whatever the ids given to \<open>move_entry\<close> and whether it succeeds or fails, the
  tree holds the same entry and group ids afterwards.\<close>

theorem move_entry_conserves_tree:
  assumes "validate_vault_model v = Inr ()" and "slots_recorded v"
  shows "mset (node_ids (v_root (snd (move_entry env i target v)))) = mset (node_ids (v_root v))"
proof -
  have v: "saveable v" using assms by (simp add: saveable_def)
  let ?same = "\<lambda>m. mset (node_ids (v_root (snd m))) = mset (node_ids (v_root v))"
  have guard: "?same (guarded r k v)" if "\<And>x. r = Inr x \<Longrightarrow> ?same (k x v)" for r k
    using that by (cases r) (simp_all add: guarded_def)
  show ?thesis
    unfolding move_entry_def
  proof (intro guard)
    fix g y t assume g: "find_group_or env target v = Inr g"
      and t: "next_entry_location_timestamp env 0 (e_location_changed_at (e_core y)) = Inr t"
    show "?same (case take_entry_from_group env i (v_root v) of
         None \<Rightarrow> (Inl (Err_EntryNotFound i), v)
       | Some ((entry, _), root) \<Rightarrow>
           on_group env target (push_entry env (upd_entry (\<lambda>e. e\<lparr>e_location_changed_at := Some t\<rparr>) entry))
             (v\<lparr>v_root := root\<rparr>))"
    proof (cases "take_entry_from_group env i (v_root v)")
      case (Some z)
      obtain e p root where z: "z = ((e, p), root)" by (metis prod_cases3 surj_pair)
      note taken = Some [unfolded z]
      let ?entry = "upd_entry (\<lambda>e. e\<lparr>e_location_changed_at := Some t\<rparr>) e"
      note E = edited_entry_ok [OF taken_entry(2) [OF v taken] sound_times(4) [OF next_location_ok [OF t]]]
      obtain view root' where pushed: "find_group_by_id_mut env target (push_entry env ?entry) root = Some (Inr view, root')"
        "on_group env target (push_entry env ?entry) (v\<lparr>v_root := root\<rparr>) = (Inr view, v\<lparr>v_root := root'\<rparr>)"
        using entry_finds_target [OF found_group [OF g] taken] by blast
      have "tree_ok (v_root v)" "distinct (node_ids (v_root v))" using v by (simp_all add: saveable_iff root_ok_def)
      note T = take_entry_ok(1) [OF taken this]
      have "mset (node_ids root') = mset (node_ids root) + {#entry_id ?entry#}"
        using find_group_mut_ok(1) [OF pushed(1) keeps_push_entry [OF E(1)]] T by simp
      then show ?thesis using T E(2) by (simp add: Some z pushed(2))
    qed simp
  qed
qed

lemma sample_ids: "node_ids (v_root sample_vault) = [1, 4, 2, 3]"
  by (simp add: sample_vault_def group_new_def created_entry_def entry_new_def upd_entry_def)

theorem move_entry_conserves_tree_witness:
  "mset (node_ids (v_root (snd (move_entry sample_env ''iiii'' ''iii'' sample_vault)))) = {#1, 4, 2, 3#}"
  using move_entry_conserves_tree [of sample_vault sample_env "''iiii''" "''iii''"] sample_vault_saveable
  by (simp add: saveable_def sample_ids)

text \<open>A subtree can only be lost where a group id occurs twice: the search finds the first such group in preorder, the
  removal prefers a child of the root. No vault that passes the validation is like that, and both loaders end with it.\<close>

definition twin_vault :: vault where
  "twin_vault = sample_vault\<lparr>v_root := Group (g_core (group_new 1 ''Vault'')) []
     [Group (g_core (group_new 2 ''Work'')) [] [group_new 3 ''Old''],
      Group (g_core (group_new 3 ''New'')) [] [group_new 4 ''Mail'']]\<rparr>"

lemma twins_lose_a_subtree:
  "\<not> saveable twin_vault" "node_ids (v_root twin_vault) = [1, 2, 3, 3, 4]"
  "fst (move_group sample_env ''iii'' ''iiii'' twin_vault) = Inl (Err_GroupNotFound ''iiii'')"
  "node_ids (v_root (snd (move_group sample_env ''iii'' ''iiii'' twin_vault))) = [1, 2, 3]"
proof -
  have ids: "ce_uuid_text sample_env 1 = ''i''" "ce_uuid_text sample_env 2 = ''ii''"
    "ce_uuid_text sample_env 3 = ''iii''" "ce_uuid_text sample_env 4 = ''iiii''"
    by (simp_all add: sample_env_def, simp_all add: numeral_eq_Suc)
  have new: "group_new u t = Group (g_core (group_new u t)) [] []" "g_id (g_core (group_new u t)) = u" for u t
    by (simp_all add: group_new_def)
  have retargeted: "g_id (retarget_group_children old new g) = g_id g" for old new g
    by (simp add: retarget_group_children_def Let_def)
  have root: "v_root twin_vault = Group (g_core (group_new 1 ''Vault'')) []
     [Group (g_core (group_new 2 ''Work'')) [] [Group (g_core (group_new 3 ''Old'')) [] []],
      Group (g_core (group_new 3 ''New'')) [] [Group (g_core (group_new 4 ''Mail'')) [] []]]"
    using new(1) by (simp add: twin_vault_def)
  show tree: "node_ids (v_root twin_vault) = [1, 2, 3, 3, 4]" by (simp add: root new(2))
  then show "\<not> saveable twin_vault" by (simp add: saveable_iff root_ok_def)
  have "move_group sample_env ''iii'' ''iiii'' twin_vault = (Inl (Err_GroupNotFound ''iiii''),
      twin_vault\<lparr>v_root := Group (retarget_group_children [2, 3] [2] (g_core (group_new 1 ''Vault''))) []
        [Group (g_core (group_new 2 ''Work'')) [] [Group (g_core (group_new 3 ''Old'')) [] []]]\<rparr>)"
    by (simp add: move_group_def guarded_def root new(2) find_group_or_def ok_or_def ids on_group_def remove_at_def retargeted)
  then show "fst (move_group sample_env ''iii'' ''iiii'' twin_vault) = Inl (Err_GroupNotFound ''iiii'')"
    "node_ids (v_root (snd (move_group sample_env ''iii'' ''iiii'' twin_vault))) = [1, 2, 3]"
    by (simp_all add: new(2) retargeted)
qed

text \<open>C14. No move of a group loses, duplicates or invents a node: in a vault that passes \<open>validate_vault_model\<close>, as every
  loaded vault does, and records its slots, whatever the ids given to \<open>move_group\<close> and whether it succeeds or fails, the
  tree holds the same entry and group ids afterwards. The check against moving a group into itself or below itself keeps
  the moved subtree in the tree; that ids are distinct, as the validation demands, and have distinct texts, as the text
  form of a UUID has, makes the group that is checked the one that is moved.\<close>

theorem move_group_conserves_tree:
  assumes "validate_vault_model v = Inr ()" and "slots_recorded v" and "uuid_text_ok env"
  shows "mset (node_ids (v_root (snd (move_group env i target v)))) = mset (node_ids (v_root v))"
proof -
  have v: "saveable v" using assms by (simp add: saveable_def)
  let ?same = "\<lambda>m. mset (node_ids (v_root (snd m))) = mset (node_ids (v_root v))"
  have guard: "?same (guarded r k v)" if "\<And>x. r = Inr x \<Longrightarrow> ?same (k x v)" for r k
    using that by (cases r) (simp_all add: guarded_def)
  show ?thesis
    unfolding move_group_def
  proof (intro guard)
    fix moving g x
    assume moving: "find_group_or env i v = Inr moving" and target: "find_group_or env target v = Inr g"
      and "(if ce_uuid_text env (group_id moving) = target \<or> group_contains_id env target moving
              then Inl Err_CannotMoveGroupIntoDescendant else Inr ()) = Inr x"
    then have outside: "\<not> (ce_uuid_text env (group_id moving) = target \<or> group_contains_id env target moving)"
      by (auto split: if_splits)
    show "?same (case take_group_from_group env i (v_root v) of
         None \<Rightarrow> (Inl (Err_GroupNotFound i), v)
       | Some (moved, root) \<Rightarrow> on_group env target (push_group env moved) (v\<lparr>v_root := root\<rparr>))"
    proof (cases "take_group_from_group env i (v_root v)")
      case (Some z)
      obtain c root where z: "z = (c, root)" by fastforce
      note taken = Some [unfolded z]
      obtain view root' where pushed: "find_group_by_id_mut env target (push_group env c) root = Some (Inr view, root')"
        "on_group env target (push_group env c) (v\<lparr>v_root := root\<rparr>) = (Inr view, v\<lparr>v_root := root'\<rparr>)"
        using group_finds_target [OF v assms(3) moving taken outside target] by blast
      have "tree_ok (v_root v)" "distinct (node_ids (v_root v))" using v by (simp_all add: saveable_iff root_ok_def)
      note T = take_group_ok(1) [OF taken this]
      have "mset (node_ids root') = mset (node_ids root) + mset (node_ids c)"
        using find_group_mut_ok(1) [OF pushed(1) keeps_push_group] T by simp
      then show ?thesis using T by (simp add: Some z pushed(2) union_commute)
    qed simp
  qed
qed

theorem move_group_conserves_tree_witness:
  "mset (node_ids (v_root (snd (move_group sample_env ''ii'' ''iii'' sample_vault)))) = {#1, 4, 2, 3#}"
  using move_group_conserves_tree [of sample_vault sample_env "''ii''" "''iii''"] sample_vault_saveable sample_text_ok
  by (simp add: saveable_def sample_ids)

end
