(* ===== verification/Session.thy ===== *)
theory Session
  imports Model Kdf
begin

text \<open>
  The sessions of the runtime (\<^verbatim>\<open>tools/vaultkern-runtime/src/session.rs\<close>): the selected vault
  reference, the active vault, and the loaded vaults with what unlocking leaves in them. A session is a state
  machine; it refines an abstract one that only knows which vaults are open, and secrets are only where they were
  put since they were last cleared.
\<close>

section \<open>State\<close>

record session_state =
  ss_unlocked :: bool
  ss_active_vault_id :: "string option"
  ss_current_vault_ref_id :: "string option"

definition state_new :: session_state where
  "state_new = \<lparr>ss_unlocked = False, ss_active_vault_id = None, ss_current_vault_ref_id = None\<rparr>"

definition state_set_current_vault :: "string \<Rightarrow> session_state \<Rightarrow> session_state" where
  "state_set_current_vault r s =
     s\<lparr>ss_current_vault_ref_id := Some r, ss_unlocked := False, ss_active_vault_id := None\<rparr>"

definition state_unlock :: "string \<Rightarrow> string option \<Rightarrow> session_state \<Rightarrow> session_state" where
  "state_unlock vault_id current s =
     (let s' = s\<lparr>ss_unlocked := True, ss_active_vault_id := Some vault_id\<rparr> in
      case current of Some r \<Rightarrow> s'\<lparr>ss_current_vault_ref_id := Some r\<rparr> | None \<Rightarrow> s')"

definition state_lock :: "session_state \<Rightarrow> session_state" where
  "state_lock s = s\<lparr>ss_unlocked := False, ss_active_vault_id := None\<rparr>"

definition state_clear_current_vault :: "session_state \<Rightarrow> session_state" where
  "state_clear_current_vault s = (state_lock s)\<lparr>ss_current_vault_ref_id := None\<rparr>"

record vault_source_status =
  st_source_kind :: string
  st_remote_state :: string
  st_last_sync_at :: "i64 option"
  st_cached_at :: "i64 option"
  st_last_error :: "string option"

record session_state_dto =
  dto_unlocked :: bool
  dto_active_vault_id :: "string option"
  dto_current_vault_ref_id :: "string option"
  dto_supports_biometric_unlock :: bool
  dto_source_status :: "vault_source_status option"

definition state_to_dto :: "session_state \<Rightarrow> bool \<Rightarrow> session_state_dto" where
  "state_to_dto s supports =
     \<lparr>dto_unlocked = ss_unlocked s, dto_active_vault_id = ss_active_vault_id s,
      dto_current_vault_ref_id = ss_current_vault_ref_id s, dto_supports_biometric_unlock = supports,
      dto_source_status = None\<rparr>"

section \<open>Loaded vaults\<close>

record vault_source_fingerprint =
  fp_content_sha256 :: string
  fp_size_bytes :: u64
  fp_modified_at :: "u64 option"

record master_credential_shape =
  sh_has_password :: bool
  sh_has_key_file :: bool

datatype vault_source = LocalPath string | OneDriveItem string string

text \<open>The argument is the percent encoding of the \<^verbatim>\<open>url\<close> crate.\<close>

definition onedrive_remote_id :: "(string \<Rightarrow> string) \<Rightarrow> string \<Rightarrow> string \<Rightarrow> string" where
  "onedrive_remote_id encode drive_id item_id = encode drive_id @ '':'' @ encode item_id"

definition onedrive_vault_id :: "(string \<Rightarrow> string) \<Rightarrow> string \<Rightarrow> string \<Rightarrow> string" where
  "onedrive_vault_id encode drive_id item_id = ''onedrive:'' @ onedrive_remote_id encode drive_id item_id"

definition source_vault_id :: "(string \<Rightarrow> string) \<Rightarrow> vault_source \<Rightarrow> string" where
  "source_vault_id encode source =
     (case source of
        LocalPath path \<Rightarrow> path
      | OneDriveItem drive_id item_id \<Rightarrow> onedrive_vault_id encode drive_id item_id)"

record loaded_vault =
  lv_source :: vault_source
  lv_name :: string
  lv_bytes :: bytes
  lv_baseline_fingerprint :: vault_source_fingerprint
  lv_credential_shape :: master_credential_shape
  lv_save_profile :: save_profile
  lv_requires_source_migration :: bool
  lv_vault :: "vault option"
  lv_transformed_key :: "bytes option"
  lv_source_status :: "vault_source_status option"
  lv_source_account_label :: "string option"

definition clear_unlock_secrets :: "loaded_vault \<Rightarrow> loaded_vault" where
  "clear_unlock_secrets l = l\<lparr>lv_vault := None, lv_transformed_key := None\<rparr>"

section \<open>Sessions\<close>

record vault_session =
  vs_state :: session_state
  vs_loaded :: "(string, loaded_vault) btree"
  vs_preloaded_for_unlock :: "string option"

definition session_new :: vault_session where
  "session_new = \<lparr>vs_state = state_new, vs_loaded = [], vs_preloaded_for_unlock = None\<rparr>"

text \<open>\<open>for loaded in self.loaded.values_mut() { loaded.clear_unlock_secrets(); }\<close>\<close>

definition clear_all_secrets :: "vault_session \<Rightarrow> vault_session" where
  "clear_all_secrets s = s\<lparr>vs_loaded := map (\<lambda>(k, l). (k, clear_unlock_secrets l)) (vs_loaded s)\<rparr>"

definition set_current_vault :: "string \<Rightarrow> vault_session \<Rightarrow> vault_session" where
  "set_current_vault r s =
     (clear_all_secrets s)\<lparr>vs_state := state_set_current_vault r (vs_state s), vs_preloaded_for_unlock := None\<rparr>"

definition lock_all :: "vault_session \<Rightarrow> vault_session" where
  "lock_all s = (clear_all_secrets s)\<lparr>vs_state := state_lock (vs_state s), vs_preloaded_for_unlock := None\<rparr>"

definition clear_current_vault :: "vault_session \<Rightarrow> vault_session" where
  "clear_current_vault s =
     s\<lparr>vs_state := state_clear_current_vault (vs_state s), vs_preloaded_for_unlock := None\<rparr>"

definition session_to_dto :: "vault_session \<Rightarrow> bool \<Rightarrow> session_state_dto" where
  "session_to_dto s = state_to_dto (vs_state s)"

definition insert_loaded :: "string \<Rightarrow> loaded_vault \<Rightarrow> vault_session \<Rightarrow> vault_session" where
  "insert_loaded vault_id l s = s\<lparr>vs_loaded := bt_insert vault_id l (vs_loaded s)\<rparr>"

definition mark_preloaded_for_unlock :: "string \<Rightarrow> vault_session \<Rightarrow> vault_session" where
  "mark_preloaded_for_unlock vault_id s = s\<lparr>vs_preloaded_for_unlock := Some vault_id\<rparr>"

definition is_preloaded_for_unlock :: "string \<Rightarrow> vault_session \<Rightarrow> bool" where
  "is_preloaded_for_unlock vault_id s \<longleftrightarrow> vs_preloaded_for_unlock s = Some vault_id"

definition loaded_vault_ids :: "vault_session \<Rightarrow> string list" where
  "loaded_vault_ids s = bt_keys (vs_loaded s)"

definition find_loaded :: "string \<Rightarrow> vault_session \<Rightarrow> loaded_vault option" where
  "find_loaded vault_id s = bt_get (vs_loaded s) vault_id"

text \<open>\<open>find_loaded_mut\<close> and what the caller does to the vault it finds.\<close>

definition change_loaded :: "string \<Rightarrow> (loaded_vault \<Rightarrow> loaded_vault) \<Rightarrow> vault_session \<Rightarrow> vault_session" where
  "change_loaded vault_id f s =
     (case bt_get (vs_loaded s) vault_id of
        Some l \<Rightarrow> s\<lparr>vs_loaded := bt_insert vault_id (f l) (vs_loaded s)\<rparr>
      | None \<Rightarrow> s)"

definition remove_loaded :: "string \<Rightarrow> vault_session \<Rightarrow> vault_session" where
  "remove_loaded vault_id s =
     (let s' = s\<lparr>vs_loaded := bt_remove vault_id (vs_loaded s)\<rparr>;
          s'' = (if vs_preloaded_for_unlock s' = Some vault_id then s'\<lparr>vs_preloaded_for_unlock := None\<rparr> else s')
      in if ss_active_vault_id (vs_state s'') = Some vault_id then s''\<lparr>vs_state := state_lock (vs_state s'')\<rparr> else s'')"

text \<open>The only error is the one for a vault that was not opened.\<close>

definition finish_unlock ::
    "string \<Rightarrow> vault \<Rightarrow> bytes \<Rightarrow> master_credential_shape \<Rightarrow> string option \<Rightarrow> vault_session \<Rightarrow> (string + unit) \<times> vault_session" where
  "finish_unlock vault_id v key shape current s =
     (case bt_get (vs_loaded s) vault_id of
        None \<Rightarrow> (Inl (''vault not opened: '' @ vault_id), s)
      | Some l \<Rightarrow>
          (let l' = l\<lparr>lv_bytes := [], lv_vault := Some v, lv_transformed_key := Some key, lv_credential_shape := shape\<rparr>
           in (Inr (), s\<lparr>vs_loaded := bt_insert vault_id l' (vs_loaded s), vs_preloaded_for_unlock := None,
                         vs_state := state_unlock vault_id current (vs_state s)\<rparr>)))"

text \<open>\<open>finish_unlock_from_blob\<close> repeats the body.\<close>

definition finish_unlock_from_blob ::
    "string \<Rightarrow> vault \<Rightarrow> bytes \<Rightarrow> master_credential_shape \<Rightarrow> string option \<Rightarrow> vault_session \<Rightarrow> (string + unit) \<times> vault_session" where
  "finish_unlock_from_blob = finish_unlock"

section \<open>Runs\<close>

datatype session_op =
    Set_Current string
  | Lock_All
  | Clear_Current
  | Insert_Loaded string loaded_vault
  | Mark_Preloaded string
  | Remove_Loaded string
  | Finish_Unlock string vault bytes master_credential_shape "string option"
  | Finish_Unlock_From_Blob string vault bytes master_credential_shape "string option"
  | Change_Loaded string "loaded_vault \<Rightarrow> loaded_vault"

fun session_apply :: "session_op \<Rightarrow> vault_session \<Rightarrow> vault_session" where
  "session_apply (Set_Current r) = set_current_vault r"
| "session_apply Lock_All = lock_all"
| "session_apply Clear_Current = clear_current_vault"
| "session_apply (Insert_Loaded i l) = insert_loaded i l"
| "session_apply (Mark_Preloaded i) = mark_preloaded_for_unlock i"
| "session_apply (Remove_Loaded i) = remove_loaded i"
| "session_apply (Finish_Unlock i v key shape current) = (\<lambda>s. snd (finish_unlock i v key shape current s))"
| "session_apply (Finish_Unlock_From_Blob i v key shape current) = (\<lambda>s. snd (finish_unlock_from_blob i v key shape current s))"
| "session_apply (Change_Loaded i f) = change_loaded i f"

definition session_run :: "session_op list \<Rightarrow> vault_session" where
  "session_run ops = fold session_apply ops session_new"

text \<open>A vault with something that unlocking left there.\<close>

definition is_open :: "loaded_vault \<Rightarrow> bool" where
  "is_open l \<longleftrightarrow> lv_vault l \<noteq> None \<or> lv_transformed_key l \<noteq> None"

text \<open>A change in place that does not open what is not open. Several callers of \<open>find_loaded_mut\<close>
  (\<^verbatim>\<open>tools/vaultkern-runtime/src/runtime.rs\<close>) set the vault or the key without looking; they are such a change where
  they find the vault open.\<close>

definition respects_lock :: "session_op \<Rightarrow> bool" where
  "respects_lock op \<longleftrightarrow> (case op of Change_Loaded i f \<Rightarrow> (\<forall>l. is_open (f l) \<longrightarrow> is_open l) | _ \<Rightarrow> True)"

section \<open>The abstract session\<close>

text \<open>The sets of loaded and of open vaults, the active one and the selected reference.\<close>

record session_spec =
  spec_active :: "string option"
  spec_current :: "string option"
  spec_loaded :: "string set"
  spec_open :: "string set"

text \<open>What an operation may do to it.\<close>

fun spec_step :: "session_op \<Rightarrow> session_spec \<Rightarrow> session_spec \<Rightarrow> bool" where
  "spec_step (Set_Current r) t t' \<longleftrightarrow> t' = t\<lparr>spec_active := None, spec_current := Some r, spec_open := {}\<rparr>"
| "spec_step Lock_All t t' \<longleftrightarrow> t' = t\<lparr>spec_active := None, spec_open := {}\<rparr>"
| "spec_step Clear_Current t t' \<longleftrightarrow> t' = t\<lparr>spec_active := None, spec_current := None\<rparr>"
| "spec_step (Insert_Loaded i l) t t' \<longleftrightarrow>
     t' = t\<lparr>spec_loaded := insert i (spec_loaded t), spec_open := (if is_open l then insert i (spec_open t) else spec_open t - {i})\<rparr>"
| "spec_step (Mark_Preloaded i) t t' \<longleftrightarrow> t' = t"
| "spec_step (Remove_Loaded i) t t' \<longleftrightarrow>
     t' = t\<lparr>spec_loaded := spec_loaded t - {i}, spec_open := spec_open t - {i},
            spec_active := (if spec_active t = Some i then None else spec_active t)\<rparr>"
| "spec_step (Finish_Unlock i v key shape current) t t' \<longleftrightarrow>
     t' = (if i \<in> spec_loaded t
           then t\<lparr>spec_active := Some i, spec_current := (if current = None then spec_current t else current),
                  spec_open := insert i (spec_open t)\<rparr>
           else t)"
| "spec_step (Finish_Unlock_From_Blob i v key shape current) t t' \<longleftrightarrow>
     t' = (if i \<in> spec_loaded t
           then t\<lparr>spec_active := Some i, spec_current := (if current = None then spec_current t else current),
                  spec_open := insert i (spec_open t)\<rparr>
           else t)"
| "spec_step (Change_Loaded i f) t t' \<longleftrightarrow> t' = t \<or> t' = t\<lparr>spec_open := spec_open t - {i}\<rparr>"

definition session_abs :: "vault_session \<Rightarrow> session_spec" where
  "session_abs s =
     \<lparr>spec_active = ss_active_vault_id (vs_state s), spec_current = ss_current_vault_ref_id (vs_state s),
      spec_loaded = {i. find_loaded i s \<noteq> None},
      spec_open = {i. \<exists>l. find_loaded i s = Some l \<and> is_open l}\<rparr>"

lemma cleared_lookup: "map_of (map (\<lambda>(k, l). (k, clear_unlock_secrets l)) m) i = map_option clear_unlock_secrets (map_of m i)"
  by (induction m) auto

lemma cleared_secrets [simp]: "lv_vault (clear_unlock_secrets l) = None" "lv_transformed_key (clear_unlock_secrets l) = None"
  by (simp_all add: clear_unlock_secrets_def)

lemmas session_operations =
  set_current_vault_def state_set_current_vault_def lock_all_def state_lock_def clear_current_vault_def
  state_clear_current_vault_def insert_loaded_def mark_preloaded_for_unlock_def remove_loaded_def finish_unlock_def
  finish_unlock_from_blob_def state_unlock_def change_loaded_def clear_all_secrets_def

lemma apply_refines: "respects_lock op \<Longrightarrow> spec_step op (session_abs s) (session_abs (session_apply op s))"
  by (cases op)
     (auto simp: session_operations session_abs_def find_loaded_def cleared_lookup Let_def respects_lock_def is_open_def
        split: option.splits if_splits)

fun spec_run :: "session_op list \<Rightarrow> session_spec \<Rightarrow> session_spec \<Rightarrow> bool" where
  "spec_run [] t t' \<longleftrightarrow> t' = t"
| "spec_run (op # ops) t t' \<longleftrightarrow> (\<exists>u. spec_step op t u \<and> spec_run ops u t')"

lemma spec_run_append: "spec_run (xs @ ys) t t' \<longleftrightarrow> (\<exists>u. spec_run xs t u \<and> spec_run ys u t')"
  by (induction xs arbitrary: t) auto

definition spec_new :: session_spec where
  "spec_new = \<lparr>spec_active = None, spec_current = None, spec_loaded = {}, spec_open = {}\<rparr>"

lemma session_abs_new [simp]: "session_abs session_new = spec_new"
  by (simp add: session_abs_def spec_new_def session_new_def state_new_def find_loaded_def)

lemma fold_refines: "\<forall>op \<in> set ops. respects_lock op \<Longrightarrow> spec_run ops (session_abs s) (session_abs (fold session_apply ops s))"
  using apply_refines by (induction ops arbitrary: s) auto

text \<open>C30. The session of the runtime refines the abstract one. Whatever sequence of operations a session goes
  through, what it says and holds, the active vault, the selected reference, which vaults are loaded and
  which of them carry a decrypted vault or a key, is what the abstract session with two sets says after
  the same sequence. The condition is on the callers of \<open>find_loaded_mut\<close> alone: they do not open what they find
  locked. What a run can leave open without it is the subject of the last section.\<close>

theorem session_refines_spec:
  assumes "\<forall>op \<in> set ops. respects_lock op"
  shows "spec_run ops spec_new (session_abs (session_run ops))"
  using fold_refines [OF assms, of session_new] by (simp add: session_run_def)

definition sample_loaded :: "string \<Rightarrow> loaded_vault" where
  "sample_loaded name =
     \<lparr>lv_source = LocalPath name, lv_name = name, lv_bytes = [1, 2],
      lv_baseline_fingerprint = \<lparr>fp_content_sha256 = ''00'', fp_size_bytes = 2, fp_modified_at = None\<rparr>,
      lv_credential_shape = \<lparr>sh_has_password = False, sh_has_key_file = False\<rparr>, lv_save_profile = recommended_profile,
      lv_requires_source_migration = False, lv_vault = None, lv_transformed_key = None, lv_source_status = None,
      lv_source_account_label = None\<rparr>"

definition sample_unlock :: "string \<Rightarrow> session_op" where
  "sample_unlock i = Finish_Unlock i (vault_empty 1 i) [7] \<lparr>sh_has_password = True, sh_has_key_file = False\<rparr> None"

definition sample_ops :: "session_op list" where
  "sample_ops = [Set_Current ''r'', Insert_Loaded ''a'' (sample_loaded ''a''), Insert_Loaded ''b'' (sample_loaded ''b''),
     sample_unlock ''b'', sample_unlock ''a'']"

lemma sample_respects: "\<forall>op \<in> set sample_ops. respects_lock op"
  by (simp add: sample_ops_def sample_unlock_def respects_lock_def)

theorem session_refines_spec_witness: "spec_run sample_ops spec_new (session_abs (session_run sample_ops))"
  using session_refines_spec [OF sample_respects] .

section \<open>Invariant\<close>

definition session_wf :: "vault_session \<Rightarrow> bool" where
  "session_wf s \<longleftrightarrow>
     bt_wf (vs_loaded s) \<and> (ss_unlocked (vs_state s) \<longleftrightarrow> ss_active_vault_id (vs_state s) \<noteq> None) \<and>
     (\<forall>i. ss_active_vault_id (vs_state s) = Some i \<longrightarrow> find_loaded i s \<noteq> None)"

lemma cleared_wf: "bt_wf m \<Longrightarrow> bt_wf (map (\<lambda>(k, l). (k, clear_unlock_secrets l)) m)"
  by (simp add: bt_wf_def comp_def split_def)

lemma apply_wf: "session_wf s \<Longrightarrow> session_wf (session_apply op s)"
  by (cases op)
     (auto simp: session_wf_def session_operations find_loaded_def cleared_lookup cleared_wf Let_def
        split: option.splits if_splits)

lemma run_wf: "session_wf (session_run ops)"
proof -
  have "session_wf (fold session_apply ops s)" if "session_wf s" for s
    using that apply_wf by (induction ops arbitrary: s) auto
  moreover have "session_wf session_new"
    by (simp add: session_wf_def session_new_def state_new_def bt_wf_def)
  ultimately show ?thesis by (simp add: session_run_def)
qed

text \<open>C31. In every session that operations can lead to, also those whose callers unlock behind its back, the record
  shown to clients is consistent: it says unlocked exactly when it names an active vault, and that
  vault is loaded.\<close>

theorem shown_session_consistent:
  "dto_unlocked (session_to_dto (session_run ops) b) \<longleftrightarrow>
     (\<exists>i. dto_active_vault_id (session_to_dto (session_run ops) b) = Some i \<and> i \<in> set (loaded_vault_ids (session_run ops)))"
proof -
  have "i \<in> set (loaded_vault_ids s) \<longleftrightarrow> find_loaded i s \<noteq> None" for i s
    by (simp add: loaded_vault_ids_def find_loaded_def map_of_eq_None_iff)
  then show ?thesis using run_wf [of ops] by (auto simp: session_wf_def session_to_dto_def state_to_dto_def)
qed

section \<open>What unlocking leaves\<close>

text \<open>The operations that can open a vault: to unlock it, to insert it open, or to change it in place, where the caller of
  \<open>find_loaded_mut\<close> sets a vault or a key whether or not there was one. And those that clear what is in it.\<close>

definition opens :: "string \<Rightarrow> session_op \<Rightarrow> bool" where
  "opens i op \<longleftrightarrow>
     (case op of
        Finish_Unlock j v key shape current \<Rightarrow> i = j
      | Finish_Unlock_From_Blob j v key shape current \<Rightarrow> i = j
      | Insert_Loaded j l \<Rightarrow> i = j \<and> is_open l
      | Change_Loaded j f \<Rightarrow> i = j \<and> (\<exists>l. \<not> is_open l \<and> is_open (f l))
      | _ \<Rightarrow> False)"

definition clears :: "string \<Rightarrow> session_op \<Rightarrow> bool" where
  "clears i op \<longleftrightarrow>
     (case op of
        Set_Current r \<Rightarrow> True
      | Lock_All \<Rightarrow> True
      | Remove_Loaded j \<Rightarrow> i = j
      | Insert_Loaded j l \<Rightarrow> i = j \<and> \<not> is_open l
      | Change_Loaded j f \<Rightarrow> i = j \<and> (\<forall>l. \<not> is_open (f l))
      | _ \<Rightarrow> False)"

definition holds_secrets :: "string \<Rightarrow> vault_session \<Rightarrow> bool" where
  "holds_secrets i s \<longleftrightarrow> (\<exists>l. find_loaded i s = Some l \<and> is_open l)"

lemma session_run_snoc: "session_run (ops @ [op]) = session_apply op (session_run ops)"
  by (simp add: session_run_def)

lemma fresh_holds_nothing: "\<not> holds_secrets i (session_run [])"
  by (simp add: holds_secrets_def session_run_def session_new_def find_loaded_def)

lemma secrets_step:
  "holds_secrets i (session_apply op s) \<Longrightarrow> \<not> clears i op \<and> (opens i op \<or> holds_secrets i s)"
  by (cases op)
     (auto simp: holds_secrets_def opens_def clears_def session_operations find_loaded_def cleared_lookup Let_def is_open_def
        split: option.splits if_splits)

lemma secrets_run:
  "holds_secrets i (session_run ops) \<Longrightarrow>
     \<exists>pre op post. ops = pre @ op # post \<and> opens i op \<and> holds_secrets i (session_run (pre @ [op])) \<and>
       (\<forall>x \<in> set post. \<not> clears i x)"
proof (induction ops rule: rev_induct)
  case Nil
  then show ?case by (simp add: fresh_holds_nothing)
next
  case (snoc op ops)
  from secrets_step [of i op "session_run ops"] snoc.prems have step: "\<not> clears i op" "opens i op \<or> holds_secrets i (session_run ops)"
    by (simp_all add: session_run_snoc)
  from step(2) show ?case
  proof
    assume "opens i op"
    then show ?thesis using snoc.prems by (intro exI [of _ ops] exI [of _ op] exI [of _ "[]"]) simp
  next
    assume "holds_secrets i (session_run ops)"
    from snoc.IH [OF this] obtain pre x post where "ops = pre @ x # post" "opens i x"
      "holds_secrets i (session_run (pre @ [x]))" "\<forall>y \<in> set post. \<not> clears i y" by blast
    then show ?thesis using step(1) by (intro exI [of _ pre] exI [of _ x] exI [of _ "post @ [op]"]) auto
  qed
qed

text \<open>C32. What unlocking leaves has to be put there, and clearing it is final. If at the end of any run a loaded vault
  carries a decrypted vault or a transformed key, then some operation of the run put secrets into that very vault, by
  unlocking it, inserting it open, or setting a vault or a key in place, and no operation after it cleared them:
  none selected another reference, locked the session, closed that vault or replaced it by a locked one. Clearing the
  current reference and closing another vault are not among these, although they show the session as locked:
  \<open>locked_session_holds_secrets\<close> below has the run.\<close>

theorem secrets_need_unlock:
  assumes "find_loaded i (session_run ops) = Some l" and "is_open l"
  shows "\<exists>pre op post. ops = pre @ op # post \<and> opens i op \<and> holds_secrets i (session_run (pre @ [op])) \<and>
    (\<forall>x \<in> set post. \<not> clears i x)"
  by (rule secrets_run) (use assms in \<open>auto simp: holds_secrets_def\<close>)

lemma sample_session: "\<exists>l. find_loaded ''b'' (session_run sample_ops) = Some l \<and> is_open l"
  by (simp add: session_run_def sample_ops_def session_new_def session_operations find_loaded_def sample_unlock_def
      is_open_def Let_def)

theorem secrets_need_unlock_witness:
  "\<exists>pre op post. sample_ops = pre @ op # post \<and> opens ''b'' op \<and> holds_secrets ''b'' (session_run (pre @ [op])) \<and>
    (\<forall>x \<in> set post. \<not> clears ''b'' x)"
  using sample_session secrets_need_unlock by blast

text \<open>Closing the active vault locks the session, and deleting its reference clears the selection besides, but
  neither clears another vault: with two vaults unlocked one after the other, the session says it is locked while the first
  one is still decrypted.\<close>

lemma locked_session_holds_secrets:
  "\<not> dto_unlocked (session_to_dto (session_run (sample_ops @ [Remove_Loaded ''a'', Clear_Current])) True) \<and>
   (\<exists>l. find_loaded ''b'' (session_run (sample_ops @ [Remove_Loaded ''a'', Clear_Current])) = Some l \<and> is_open l)"
  by (simp add: session_run_def sample_ops_def session_new_def session_operations find_loaded_def sample_unlock_def
      is_open_def Let_def session_to_dto_def state_to_dto_def)

end
