(* ===== verification/Unlock.thy ===== *)
theory Unlock
  imports Container Session
begin

text \<open>
  Quick unlock (\<^verbatim>\<open>tools/vaultkern-runtime/src/unlock.rs\<close>): the master credential, the blob in which it is
  kept in the secure storage beside a cached transformed key, and the attempt to open a file with it.
\<close>

unbundle bit_operations_syntax

section \<open>Master credentials\<close>

datatype storage_failure = Cancelled_Failure | Hello_Key_Invalidated | Record_Invalidated | Other_Failure

datatype unlock_error =
    No_Components
  | Password_Too_Large
  | Blob_Too_Large
  | Unsupported_Format
  | Blob_Truncated
  | Unsupported_Flags
  | Inconsistent_Password_Flag
  | Trailing_Bytes
  | Storage_Failed storage_failure
  | Kdbx_Failed kdbx_error

definition UNLOCK_BLOB_MAGIC :: bytes where
  "UNLOCK_BLOB_MAGIC = [0x56, 0x4B, 0x55, 0x42, 0x4C, 0x4F, 0x42, 0x31]"

definition PASSWORD_PRESENT :: u8 where "PASSWORD_PRESENT = 1"
definition KEY_FILE_PRESENT :: u8 where "KEY_FILE_PRESENT = 2"
definition MAX_PASSWORD_BYTES :: nat where "MAX_PASSWORD_BYTES = 1024 * 1024"

text \<open>The contribution of the key file is an array of 32 bytes.\<close>

record master_credential =
  mc_password :: "bytes option"
  mc_key_file_contribution :: "bytes option"

definition credential_from_parts :: "bytes option \<Rightarrow> bytes option \<Rightarrow> unlock_error + master_credential" where
  "credential_from_parts password contribution =
     (if password = None \<and> contribution = None then Inl No_Components
      else if (case password of Some p \<Rightarrow> length p > MAX_PASSWORD_BYTES | None \<Rightarrow> False) then Inl Password_Too_Large
      else Inr \<lparr>mc_password = password, mc_key_file_contribution = contribution\<rparr>)"

definition to_composite_key :: "master_credential \<Rightarrow> composite_key" where
  "to_composite_key c =
     (let key = (case mc_password c of Some p \<Rightarrow> add_password_bytes p [] | None \<Rightarrow> []) in
      case mc_key_file_contribution c of Some k \<Rightarrow> add_key_file k key | None \<Rightarrow> key)"

definition credential_shape :: "master_credential \<Rightarrow> master_credential_shape" where
  "credential_shape c =
     \<lparr>sh_has_password = (mc_password c \<noteq> None), sh_has_key_file = (mc_key_file_contribution c \<noteq> None)\<rparr>"

section \<open>Blobs\<close>

record unlock_blob =
  ub_master_credential :: master_credential
  ub_cached_transformed_key :: bytes

definition credential_flags :: "master_credential \<Rightarrow> u8" where
  "credential_flags c =
     (if mc_password c \<noteq> None then PASSWORD_PRESENT else 0) OR
     (if mc_key_file_contribution c \<noteq> None then KEY_FILE_PRESENT else 0)"

definition encode_parts :: "master_credential \<Rightarrow> bytes \<Rightarrow> unlock_error + bytes" where
  "encode_parts c transformed =
     (let password = (case mc_password c of Some p \<Rightarrow> p | None \<Rightarrow> []) in
      if length password \<ge> 2 ^ 32 then Inl Password_Too_Large
      else Inr (UNLOCK_BLOB_MAGIC @ [credential_flags c] @ u32_le (of_nat (length password)) @ password @
                (case mc_key_file_contribution c of Some k \<Rightarrow> k | None \<Rightarrow> []) @ transformed))"

definition blob_encode :: "unlock_blob \<Rightarrow> unlock_error + bytes" where
  "blob_encode b = encode_parts (ub_master_credential b) (ub_cached_transformed_key b)"

text \<open>\<open>take\<close>, on a \<open>usize\<close> of 64 bits, where the end of a slice of a \<open>u32\<close> length cannot overflow.\<close>

definition take_bytes :: "bytes \<Rightarrow> nat \<Rightarrow> nat \<Rightarrow> unlock_error + bytes \<times> nat" where
  "take_bytes bs cursor n =
     (if cursor + n \<le> length bs then Inr (take n (drop cursor bs), cursor + n) else Inl Blob_Truncated)"

definition blob_decode :: "bytes \<Rightarrow> unlock_error + unlock_blob" where
  "blob_decode bs =
     (if length bs > MAX_PASSWORD_BYTES + 8 + 1 + 4 + 32 + 32 then Inl Blob_Too_Large
      else
        and_then (take_bytes bs 0 (length UNLOCK_BLOB_MAGIC)) (\<lambda>(magic, c).
        if magic \<noteq> UNLOCK_BLOB_MAGIC then Inl Unsupported_Format
        else
          and_then (take_bytes bs c 1) (\<lambda>(flag_bytes, c).
          let flags = hd flag_bytes in
          if flags AND NOT (PASSWORD_PRESENT OR KEY_FILE_PRESENT) \<noteq> 0 then Inl Unsupported_Flags
          else
            and_then (take_bytes bs c 4) (\<lambda>(len_bytes, c).
            let password_len = unat (word_from_le len_bytes :: u32) in
            if flags AND PASSWORD_PRESENT = 0 \<and> password_len \<noteq> 0 then Inl Inconsistent_Password_Flag
            else
              and_then (take_bytes bs c password_len) (\<lambda>(password, c).
              and_then (if flags AND KEY_FILE_PRESENT \<noteq> 0
                        then and_then (take_bytes bs c 32) (\<lambda>(k, c). Inr (Some k, c)) else Inr (None, c))
                (\<lambda>(contribution, c).
              and_then (take_bytes bs c 32) (\<lambda>(transformed, c).
              if c \<noteq> length bs then Inl Trailing_Bytes
              else and_then (credential_from_parts (if flags AND PASSWORD_PRESENT \<noteq> 0 then Some password else None) contribution)
                     (\<lambda>credential. Inr \<lparr>ub_master_credential = credential, ub_cached_transformed_key = transformed\<rparr>))))))))"

text \<open>What the types of the code allow, with the checks of its constructor.\<close>

definition credential_valid :: "master_credential \<Rightarrow> bool" where
  "credential_valid c \<longleftrightarrow>
     (mc_password c \<noteq> None \<or> mc_key_file_contribution c \<noteq> None) \<and>
     (\<forall>p. mc_password c = Some p \<longrightarrow> length p \<le> MAX_PASSWORD_BYTES) \<and>
     (\<forall>k. mc_key_file_contribution c = Some k \<longrightarrow> length k = 32)"

definition blob_valid :: "unlock_blob \<Rightarrow> bool" where
  "blob_valid b \<longleftrightarrow> credential_valid (ub_master_credential b) \<and> length (ub_cached_transformed_key b) = 32"

lemma take_bytes_Inr:
  "take_bytes bs c n = Inr (x, c') \<longleftrightarrow> c + n \<le> length bs \<and> c' = c + n \<and> length x = n \<and> drop c bs = x @ drop c' bs"
proof
  assume "take_bytes bs c n = Inr (x, c')"
  then have "c + n \<le> length bs" "x = take n (drop c bs)" "c' = c + n" by (auto simp: take_bytes_def split: if_splits)
  moreover from this have "drop c bs = x @ drop c' bs" "length x = n"
    using append_take_drop_id [of n "drop c bs"] by (auto simp: add.commute)
  ultimately show "c + n \<le> length bs \<and> c' = c + n \<and> length x = n \<and> drop c bs = x @ drop c' bs" by blast
next
  assume a: "c + n \<le> length bs \<and> c' = c + n \<and> length x = n \<and> drop c bs = x @ drop c' bs"
  then have "take n (drop c bs) = x" by (metis append_eq_conv_conj)
  then show "take_bytes bs c n = Inr (x, c')" using a by (simp add: take_bytes_def)
qed

lemma flags_cases:
  fixes f :: u8
  shows "f AND NOT (PASSWORD_PRESENT OR KEY_FILE_PRESENT) = 0 \<longleftrightarrow> f \<in> {0, 1, 2, 3}"
proof -
  have three: "PASSWORD_PRESENT OR KEY_FILE_PRESENT = mask 2"
    by (simp add: PASSWORD_PRESENT_def KEY_FILE_PRESENT_def mask_eq_exp_minus_1)
  have "f AND NOT (mask 2) = 0 \<longleftrightarrow> take_bit 2 f = f"
    by (auto simp: bit_eq_iff bit_simps)
  also have "\<dots> \<longleftrightarrow> unat f < 4"
    by (simp add: word_unat_eq_iff unsigned_take_bit_eq take_bit_nat_eq_self_iff)
  also have "\<dots> \<longleftrightarrow> f \<in> {0, 1, 2, 3}"
  proof -
    have "unat f < 4 \<longleftrightarrow> unat f = unat (0 :: u8) \<or> unat f = unat (1 :: u8) \<or> unat f = unat (2 :: u8) \<or> unat f = unat (3 :: u8)"
      by auto
    then show ?thesis by (simp add: word_unat_eq_iff)
  qed
  finally show ?thesis unfolding three .
qed

lemma flags_decide:
  "credential_flags c AND PASSWORD_PRESENT \<noteq> 0 \<longleftrightarrow> mc_password c \<noteq> None"
  "credential_flags c AND KEY_FILE_PRESENT \<noteq> 0 \<longleftrightarrow> mc_key_file_contribution c \<noteq> None"
  "credential_flags c AND NOT (PASSWORD_PRESENT OR KEY_FILE_PRESENT) = 0"
  unfolding flags_cases by (simp_all add: credential_flags_def PASSWORD_PRESENT_def KEY_FILE_PRESENT_def)

lemma flags_recover:
  fixes f :: u8
  assumes "f AND NOT (PASSWORD_PRESENT OR KEY_FILE_PRESENT) = 0"
    and "(f AND PASSWORD_PRESENT \<noteq> 0) \<longleftrightarrow> p \<noteq> None" and "(f AND KEY_FILE_PRESENT \<noteq> 0) \<longleftrightarrow> k \<noteq> None"
  shows "credential_flags \<lparr>mc_password = p, mc_key_file_contribution = k\<rparr> = f"
  using assms unfolding flags_cases by (auto simp: credential_flags_def PASSWORD_PRESENT_def KEY_FILE_PRESENT_def)

lemma guardE: "(if p then Inl e else r) = Inr y \<Longrightarrow> (\<not> p \<Longrightarrow> r = Inr y \<Longrightarrow> thesis) \<Longrightarrow> thesis"
  by (cases p) simp_all

lemma thenE: "and_then r f = Inr y \<Longrightarrow> (\<And>x. r = Inr x \<Longrightarrow> f x = Inr y \<Longrightarrow> thesis) \<Longrightarrow> thesis"
  unfolding and_then_eq_Inr by blast

lemma pair_thenE:
  "and_then r (\<lambda>(a, c). f a c) = Inr y \<Longrightarrow> (\<And>a c. r = Inr (a, c) \<Longrightarrow> f a c = Inr y \<Longrightarrow> thesis) \<Longrightarrow> thesis"
  unfolding and_then_eq_Inr by (auto simp: split_beta)

lemma blob_decodeE:
  assumes "blob_decode bs = Inr b"
  obtains magic c1 flag_bytes c2 len_bytes c3 password c4 contribution c5 transformed c6 credential where
    "take_bytes bs 0 (length UNLOCK_BLOB_MAGIC) = Inr (magic, c1)" "\<not> magic \<noteq> UNLOCK_BLOB_MAGIC"
    "take_bytes bs c1 1 = Inr (flag_bytes, c2)" "\<not> hd flag_bytes AND NOT (PASSWORD_PRESENT OR KEY_FILE_PRESENT) \<noteq> 0"
    "take_bytes bs c2 4 = Inr (len_bytes, c3)"
    "\<not> (hd flag_bytes AND PASSWORD_PRESENT = 0 \<and> unat (word_from_le len_bytes :: u32) \<noteq> 0)"
    "take_bytes bs c3 (unat (word_from_le len_bytes :: u32)) = Inr (password, c4)"
    "(if hd flag_bytes AND KEY_FILE_PRESENT \<noteq> 0
      then and_then (take_bytes bs c4 32) (\<lambda>(k, c). Inr (Some k, c)) else Inr (None, c4)) = Inr (contribution, c5)"
    "take_bytes bs c5 32 = Inr (transformed, c6)" "\<not> c6 \<noteq> length bs"
    "credential_from_parts (if hd flag_bytes AND PASSWORD_PRESENT \<noteq> 0 then Some password else None) contribution
      = Inr credential"
    "Inr \<lparr>ub_master_credential = credential, ub_cached_transformed_key = transformed\<rparr> = (Inr b :: unlock_error + unlock_blob)"
  using assms unfolding blob_decode_def Let_def
  apply -
  apply (erule guardE)
  apply (erule pair_thenE, erule guardE)
  apply (erule pair_thenE, erule guardE)
  apply (erule pair_thenE, erule guardE)
  apply (erule pair_thenE)
  apply (erule pair_thenE)
  apply (erule pair_thenE, erule guardE)
  apply (erule thenE)
  apply (rule that; assumption)
  done


lemma take_bytes_drop: "take_bytes bs c n = Inr (x, c') \<Longrightarrow> drop c bs = x @ drop c' bs"
  by (simp add: take_bytes_Inr)

lemma key_piece:
  assumes "(if flag then and_then (take_bytes bs c 32) (\<lambda>(k, c). Inr (Some k, c)) else Inr (None, c)) = Inr (contribution, c')"
  shows "flag \<longleftrightarrow> contribution \<noteq> None" "\<And>k. contribution = Some k \<Longrightarrow> length k = 32"
    "drop c bs = (case contribution of Some k \<Rightarrow> k | None \<Rightarrow> []) @ drop c' bs"
  using assms by (auto simp: and_then_eq_Inr take_bytes_Inr split: if_splits)

lemma blob_decode_encode:
  assumes "blob_decode bs = Inr b"
  shows "blob_valid b \<and> blob_encode b = Inr bs"
  using assms
proof (rule blob_decodeE)
  fix magic flag_bytes len_bytes password transformed :: bytes and c1 c2 c3 c4 c5 c6 :: nat and contribution credential
  let ?f = "hd flag_bytes"
  let ?p = "if ?f AND PASSWORD_PRESENT \<noteq> 0 then Some password else None"
  assume magic: "take_bytes bs 0 (length UNLOCK_BLOB_MAGIC) = Inr (magic, c1)" "\<not> magic \<noteq> UNLOCK_BLOB_MAGIC"
    and flags: "take_bytes bs c1 1 = Inr (flag_bytes, c2)" "\<not> ?f AND NOT (PASSWORD_PRESENT OR KEY_FILE_PRESENT) \<noteq> 0"
    and len: "take_bytes bs c2 4 = Inr (len_bytes, c3)"
    and empty: "\<not> (?f AND PASSWORD_PRESENT = 0 \<and> unat (word_from_le len_bytes :: u32) \<noteq> 0)"
    and password: "take_bytes bs c3 (unat (word_from_le len_bytes :: u32)) = Inr (password, c4)"
    and key: "(if ?f AND KEY_FILE_PRESENT \<noteq> 0
      then and_then (take_bytes bs c4 32) (\<lambda>(k, c). Inr (Some k, c)) else Inr (None, c4)) = Inr (contribution, c5)"
    and transformed: "take_bytes bs c5 32 = Inr (transformed, c6)" "\<not> c6 \<noteq> length bs"
    and credential: "credential_from_parts ?p contribution = Inr credential"
    and b: "Inr \<lparr>ub_master_credential = credential, ub_cached_transformed_key = transformed\<rparr> = (Inr b :: unlock_error + unlock_blob)"
  have c: "credential = \<lparr>mc_password = ?p, mc_key_file_contribution = contribution\<rparr>" and valid: "credential_valid credential"
    using credential key_piece(2) [OF key] by (auto simp: credential_from_parts_def credential_valid_def split: if_splits)
  have b': "ub_master_credential b = credential" "ub_cached_transformed_key b = transformed" using b by auto
  have len_bytes: "length len_bytes = 4" "length password = unat (word_from_le len_bytes :: u32)"
    using len password by (simp_all add: take_bytes_Inr)
  then have l: "u32_le (of_nat (length password)) = len_bytes" "length password < 2 ^ 32"
    using word_from_le_inverse(2) [OF len_bytes(1)] unsigned_less [of "word_from_le len_bytes :: u32"]
    by simp_all
  have f: "flag_bytes = [?f]" using flags(1) by (cases flag_bytes) (auto simp: take_bytes_Inr)
  have p: "(case ?p of Some p \<Rightarrow> p | None \<Rightarrow> []) = password" using empty len_bytes(2) by auto
  have "credential_flags credential = ?f" unfolding c
    by (rule flags_recover) (use flags(2) key_piece(1) [OF key] in auto)
  moreover have "bs = UNLOCK_BLOB_MAGIC @ [?f] @ len_bytes @ password @
      (case contribution of Some k \<Rightarrow> k | None \<Rightarrow> []) @ transformed"
  proof -
    have "drop c1 bs = [?f] @ drop c2 bs" using take_bytes_drop [OF flags(1)] f by simp
    moreover have "drop c5 bs = transformed" using take_bytes_drop [OF transformed(1)] transformed(2) by simp
    ultimately have tail: "drop c1 bs = [?f] @ len_bytes @ password @ (case contribution of Some k \<Rightarrow> k | None \<Rightarrow> []) @ transformed"
      using take_bytes_drop [OF len] take_bytes_drop [OF password] key_piece(3) [OF key] by metis
    have "bs = magic @ drop c1 bs" using take_bytes_drop [OF magic(1)] by simp
    then show ?thesis unfolding tail using magic(2) by simp
  qed
  ultimately have "encode_parts credential transformed = Inr bs"
    using l p unfolding encode_parts_def c Let_def by simp
  moreover have "length transformed = 32" using transformed(1) by (simp add: take_bytes_Inr)
  ultimately show "blob_valid b \<and> blob_encode b = Inr bs"
    using valid by (simp add: blob_valid_def blob_encode_def b')
qed

lemma take_piece: "length pre = c \<Longrightarrow> length x = n \<Longrightarrow> take_bytes (pre @ x @ post) c n = Inr (x, length (pre @ x))"
  by (simp add: take_bytes_def)


lemma take_piece': "length pre = c \<Longrightarrow> length x = n \<Longrightarrow> take_bytes (pre @ x) c n = Inr (x, length (pre @ x))"
  by (simp add: take_bytes_def)

lemma blob_encode_decode:
  assumes valid: "blob_valid b" and encoded: "blob_encode b = Inr bs"
  shows "blob_decode bs = Inr b"
proof -
  obtain c t where b: "b = \<lparr>ub_master_credential = c, ub_cached_transformed_key = t\<rparr>" by (cases b)
  obtain p k where c: "c = \<lparr>mc_password = p, mc_key_file_contribution = k\<rparr>" by (cases c)
  define pw where "pw = (case p of Some p \<Rightarrow> p | None \<Rightarrow> [])"
  define kf where "kf = (case k of Some k \<Rightarrow> k | None \<Rightarrow> [])"
  define f where "f = credential_flags c"
  have t: "length t = 32" and some: "\<not> (p = None \<and> k = None)" and pw: "length pw \<le> MAX_PASSWORD_BYTES"
    and kf: "k \<noteq> None \<Longrightarrow> length kf = 32"
    using valid unfolding blob_valid_def credential_valid_def b c pw_def kf_def by (auto split: option.splits)
  have bound: "length pw < 2 ^ 32" using pw by (simp add: MAX_PASSWORD_BYTES_def)
  let ?l = "u32_le (of_nat (length pw))"
  have bs: "bs = UNLOCK_BLOB_MAGIC @ [f] @ ?l @ pw @ kf @ t"
    using encoded bound unfolding blob_encode_def encode_parts_def b c f_def pw_def kf_def by (auto simp: Let_def split: if_splits)
  have unat: "unat (word_from_le ?l :: u32) = length pw" using bound by (simp add: unat_of_nat)
  have "length kf \<le> 32" using kf by (cases k) (auto simp: kf_def)
  then have small: "\<not> length bs > MAX_PASSWORD_BYTES + 8 + 1 + 4 + 32 + 32"
    using pw t unfolding bs by (simp add: UNLOCK_BLOB_MAGIC_def)
  let ?m = UNLOCK_BLOB_MAGIC
  have magic: "take_bytes bs 0 (length ?m) = Inr (?m, length ?m)"
    using take_piece [of "[]" 0 ?m "length ?m" "[f] @ ?l @ pw @ kf @ t"] unfolding bs by simp
  have flag: "take_bytes bs (length ?m) 1 = Inr ([f], length (?m @ [f]))"
    using take_piece [of ?m "length ?m" "[f]" 1 "?l @ pw @ kf @ t"] unfolding bs by simp
  have len: "take_bytes bs (length (?m @ [f])) 4 = Inr (?l, length (?m @ [f] @ ?l))"
    using take_piece [of "?m @ [f]" "length (?m @ [f])" ?l 4 "pw @ kf @ t"] unfolding bs by simp
  have password: "take_bytes bs (length (?m @ [f] @ ?l)) (length pw) = Inr (pw, length (?m @ [f] @ ?l @ pw))"
    using take_piece [of "?m @ [f] @ ?l" "length (?m @ [f] @ ?l)" pw "length pw" "kf @ t"] unfolding bs by simp
  have key: "(if k \<noteq> None then and_then (take_bytes bs (length (?m @ [f] @ ?l @ pw)) 32) (\<lambda>(k, c). Inr (Some k, c))
      else Inr (None, length (?m @ [f] @ ?l @ pw))) = Inr (k, length (?m @ [f] @ ?l @ pw @ kf))"
  proof (cases k)
    case (Some k')
    then have "kf = k'" "length kf = 32" using kf by (auto simp: kf_def)
    then show ?thesis
      using Some take_piece [of "?m @ [f] @ ?l @ pw" "length (?m @ [f] @ ?l @ pw)" kf 32 t] unfolding bs by simp
  qed (simp add: kf_def)
  have transformed: "take_bytes bs (length (?m @ [f] @ ?l @ pw @ kf)) 32 = Inr (t, length bs)"
    using take_piece' [of "?m @ [f] @ ?l @ pw @ kf" "length (?m @ [f] @ ?l @ pw @ kf)" t 32] t unfolding bs by simp
  have flags: "f AND NOT (PASSWORD_PRESENT OR KEY_FILE_PRESENT) = 0" "(f AND PASSWORD_PRESENT \<noteq> 0) = (p \<noteq> None)"
    "(f AND KEY_FILE_PRESENT \<noteq> 0) = (k \<noteq> None)"
    using flags_decide [of c] unfolding f_def c by simp_all
  have pf: "\<not> (f AND PASSWORD_PRESENT = 0 \<and> length pw \<noteq> 0)" using flags(2) by (auto simp: pw_def)
  have cred: "credential_from_parts (if p \<noteq> None then Some pw else None) k = Inr c"
    using some pw unfolding credential_from_parts_def c pw_def by (auto split: option.splits)
  have nf: "\<not> f AND NOT (PASSWORD_PRESENT OR KEY_FILE_PRESENT) \<noteq> 0" using flags(1) by blast
  show ?thesis
    unfolding blob_decode_def if_not_P [OF small] magic and_then.simps prod.case flag len password Let_def list.sel unat
      if_not_P [OF nf] if_not_P [OF pf] flags(2,3) key transformed cred
    by (simp add: b)
qed

lemma unlock_blob_form: "blob_decode bs = Inr b \<longleftrightarrow> blob_valid b \<and> blob_encode b = Inr bs"
  using blob_decode_encode blob_encode_decode by blast

section \<open>Secure storage\<close>

text \<open>The operations of the trait \<open>SecureStorageProvider\<close> that unlocking calls, on a state of the provider's. A load asks
  the user and may fail in ways the caller tells apart.\<close>

record 's storage_provider =
  sp_store :: "string \<Rightarrow> bytes \<Rightarrow> 's \<Rightarrow> (storage_failure + unit) \<times> 's"
  sp_load :: "string \<Rightarrow> 's \<Rightarrow> (storage_failure + bytes option) \<times> 's"
  sp_delete :: "string \<Rightarrow> 's \<Rightarrow> (storage_failure + unit) \<times> 's"

definition memory_storage :: "(string \<rightharpoonup> bytes) storage_provider" where
  "memory_storage =
     \<lparr>sp_store = \<lambda>key v s. (Inr (), s(key \<mapsto> v)),
      sp_load = \<lambda>key s. (Inr (s key), s),
      sp_delete = \<lambda>key s. (Inr (), s(key := None))\<rparr>"

definition unsupported_storage :: "'s storage_provider" where
  "unsupported_storage =
     \<lparr>sp_store = \<lambda>_ _ s. (Inl Other_Failure, s),
      sp_load = \<lambda>_ s. (Inr None, s),
      sp_delete = \<lambda>_ s. (Inr (), s)\<rparr>"

section \<open>Attempts\<close>

record unlocked_vault =
  uv_vault :: vault
  uv_transformed_key :: bytes
  uv_credential_shape :: master_credential_shape

datatype unlock_attempt = Unlocked unlocked_vault | NotEnrolled | Cancelled | OpenAppRequired | CredentialRequired

definition enroll_unlock_blob ::
    "'s storage_provider \<Rightarrow> string \<Rightarrow> master_credential \<Rightarrow> bytes \<Rightarrow> 's \<Rightarrow> (unlock_error + unit) \<times> 's" where
  "enroll_unlock_blob storage key credential transformed s =
     (case encode_parts credential transformed of
        Inl e \<Rightarrow> (Inl e, s)
      | Inr encoded \<Rightarrow>
          (case sp_store storage key encoded s of
             (Inl e, s) \<Rightarrow> (Inl (Storage_Failed e), s)
           | (Inr _, s) \<Rightarrow> (Inr (), s)))"

text \<open>The record is given up: deleted, and reported as \<open>attempt\<close>.\<close>

definition delete_then ::
    "'s storage_provider \<Rightarrow> string \<Rightarrow> unlock_attempt \<Rightarrow> 's \<Rightarrow> (unlock_error + unlock_attempt) \<times> 's" where
  "delete_then storage key attempt s =
     (case sp_delete storage key s of
        (Inl e, s) \<Rightarrow> (Inl (Storage_Failed e), s)
      | (Inr _, s) \<Rightarrow> (Inr attempt, s))"

definition normalize_xml_model_error :: "kdbx_error \<Rightarrow> kdbx_error" where
  "normalize_xml_model_error e = (case e of InvalidXmlModel _ _ \<Rightarrow> InvalidValue | e \<Rightarrow> e)"

text \<open>\<open>xml\<close> stands for the last three stages of the loader, which make the vault of the XML document.\<close>

type_synonym xml_stages = "opened_container \<Rightarrow> kdbx_load_stage \<times> kdbx_error + vault"

definition load_kdbx_with_transformed_key :: "kdbx_deps \<Rightarrow> xml_stages \<Rightarrow> bytes \<Rightarrow> bytes \<Rightarrow> kdbx_error + vault" where
  "load_kdbx_with_transformed_key deps xml bs transformed =
     (case and_then (open_with_transformed_key deps bs transformed) xml of
        Inl (_, e) \<Rightarrow> Inl (normalize_xml_model_error e)
      | Inr v \<Rightarrow> Inr v)"

text \<open>What follows when the file does not open with the cached key.\<close>

definition unlock_with_refreshed_key ::
    "kdbx_deps \<Rightarrow> xml_stages \<Rightarrow> 's storage_provider \<Rightarrow> string \<Rightarrow> bytes \<Rightarrow> kdf_policy \<Rightarrow> kdf_confirmation \<Rightarrow> bool \<Rightarrow>
     unlock_blob \<Rightarrow> 's \<Rightarrow> (unlock_error + unlock_attempt) \<times> 's" where
  "unlock_with_refreshed_key deps xml storage key bs policy confirmation refresh blob s =
     (let credential = ub_master_credential blob in
      case derive_transformed_key_with_policy deps bs (to_composite_key credential) (evaluate policy) confirmation of
        Inl e \<Rightarrow> (Inl (Kdbx_Failed e), s)
      | Inr refreshed \<Rightarrow>
          (case load_kdbx_with_transformed_key deps xml bs refreshed of
             Inl HeaderHmacMismatch \<Rightarrow>
               if refresh then delete_then storage key CredentialRequired s else (Inr CredentialRequired, s)
           | Inl e \<Rightarrow> (Inl (Kdbx_Failed e), s)
           | Inr v \<Rightarrow>
               let unlocked = Unlocked \<lparr>uv_vault = v, uv_transformed_key = refreshed,
                     uv_credential_shape = credential_shape credential\<rparr> in
               if refresh then
                 (case encode_parts credential refreshed of
                    Inl e \<Rightarrow> (Inl e, s)
                  | Inr encoded \<Rightarrow> (Inr unlocked, snd (sp_store storage key encoded s)))
               else (Inr unlocked, s)))"

definition unlock_with_blob ::
    "kdbx_deps \<Rightarrow> xml_stages \<Rightarrow> 's storage_provider \<Rightarrow> string \<Rightarrow> bytes \<Rightarrow> kdf_policy \<Rightarrow> kdf_confirmation \<Rightarrow> bool \<Rightarrow>
     unlock_blob \<Rightarrow> 's \<Rightarrow> (unlock_error + unlock_attempt) \<times> 's" where
  "unlock_with_blob deps xml storage key bs policy confirmation refresh blob s =
     (case load_kdbx_with_transformed_key deps xml bs (ub_cached_transformed_key blob) of
        Inr v \<Rightarrow>
          (Inr (Unlocked \<lparr>uv_vault = v, uv_transformed_key = ub_cached_transformed_key blob,
             uv_credential_shape = credential_shape (ub_master_credential blob)\<rparr>), s)
      | Inl HeaderHmacMismatch \<Rightarrow>
          if policy = Extension then (Inr OpenAppRequired, s)
          else unlock_with_refreshed_key deps xml storage key bs policy confirmation refresh blob s
      | Inl e \<Rightarrow> (Inl (Kdbx_Failed e), s))"

definition unlock_from_blob_with_cache_policy ::
    "kdbx_deps \<Rightarrow> xml_stages \<Rightarrow> 's storage_provider \<Rightarrow> string \<Rightarrow> bytes \<Rightarrow> kdf_policy \<Rightarrow> kdf_confirmation \<Rightarrow> bool \<Rightarrow>
     's \<Rightarrow> (unlock_error + unlock_attempt) \<times> 's" where
  "unlock_from_blob_with_cache_policy deps xml storage key bs policy confirmation refresh s =
     (case sp_load storage key s of
        (Inr None, s) \<Rightarrow> (Inr NotEnrolled, s)
      | (Inl Cancelled_Failure, s) \<Rightarrow> (Inr Cancelled, s)
      | (Inl Hello_Key_Invalidated, s) \<Rightarrow> delete_then storage key NotEnrolled s
      | (Inl Record_Invalidated, s) \<Rightarrow> delete_then storage key NotEnrolled s
      | (Inl Other_Failure, s) \<Rightarrow> (Inl (Storage_Failed Other_Failure), s)
      | (Inr (Some encoded), s) \<Rightarrow>
          if encoded = [] then delete_then storage key NotEnrolled s
          else (case blob_decode encoded of
                  Inl _ \<Rightarrow> delete_then storage key NotEnrolled s
                | Inr blob \<Rightarrow> unlock_with_blob deps xml storage key bs policy confirmation refresh blob s))"


definition unlock_historical_snapshot_from_blob_with_policy where
  "unlock_historical_snapshot_from_blob_with_policy deps xml storage key bs policy confirmation =
     unlock_from_blob_with_cache_policy deps xml storage key bs policy confirmation False"


section \<open>The interface of the storage\<close>

text \<open>What a provider promises: a load that succeeds returns what is stored, and only stores and deletes that succeed
  change it.\<close>

locale secure_storage =
  fixes storage :: "'s storage_provider" and stored :: "'s \<Rightarrow> string \<Rightarrow> bytes option"
  assumes loads: "sp_load storage key s = (Inr found, s') \<Longrightarrow> found = stored s key"
    and load_keeps: "sp_load storage key s = (r, s') \<Longrightarrow> stored s' = stored s"
    and stores: "sp_store storage key v s = (Inr u, s') \<Longrightarrow> stored s' = (stored s)(key \<mapsto> v)"
    and store_fails: "sp_store storage key v s = (Inl e, s') \<Longrightarrow> stored s' = stored s"
    and deletes: "sp_delete storage key s = (Inr u, s') \<Longrightarrow> stored s' = (stored s)(key := None)"
    and delete_fails: "sp_delete storage key s = (Inl e, s') \<Longrightarrow> stored s' = stored s"
begin

lemma delete_then_stored:
  "delete_then storage key attempt s = (r, s') \<Longrightarrow>
     stored s' = stored s \<and> (\<exists>e. r = Inl (Storage_Failed e)) \<or> stored s' = (stored s)(key := None) \<and> r = Inr attempt"
  by (auto simp: delete_then_def deletes delete_fails split: prod.splits sum.splits)

lemma store_after:
  "stored (snd (sp_store storage key v s)) = stored s \<or> stored (snd (sp_store storage key v s)) = (stored s)(key \<mapsto> v)"
proof -
  obtain r s' where r: "sp_store storage key v s = (r, s')" by fastforce
  then show ?thesis using stores store_fails by (cases r) auto
qed

end

interpretation memory: secure_storage memory_storage "\<lambda>s. s"
  by unfold_locales (auto simp: memory_storage_def)

interpretation unsupported: secure_storage "unsupported_storage :: 's storage_provider" "\<lambda>_ _. None"
  by unfold_locales (auto simp: unsupported_storage_def)

text \<open>A storage that can be read but not written, as the one of the test
  \<^verbatim>\<open>successful_unlock_survives_a_transient_cache_refresh_failure\<close>.\<close>

definition refusing_storage :: "(string \<rightharpoonup> bytes) storage_provider" where
  "refusing_storage = memory_storage\<lparr>sp_store := \<lambda>_ _ s. (Inl Other_Failure, s)\<rparr>"

interpretation refusing: secure_storage refusing_storage "\<lambda>s. s"
  by unfold_locales (auto simp: refusing_storage_def memory_storage_def)

lemma derived_key_sized:
  assumes "sha256_sized (kd_crypto deps)"
    and "derive_transformed_key_with_policy deps bs key policy confirmation = Inr transformed"
  shows "length transformed = 32"
proof -
  from assms(2) obtain profile raw where "derive_key (kd_crypto deps) profile raw = Inr transformed"
    by (auto simp: derive_transformed_key_with_policy_def and_then_eq_Inr from_crypto_Inr split: if_split_asm)
  then show ?thesis using assms(1)
    by (auto simp: derive_key_def derive_aes_kdf_def derive_argon2_def sha256_sized_def and_then_eq_Inr
        split: kdf_profile.split_asm if_split_asm prod.split_asm)
qed

text \<open>Why a vault was unlocked: with the cached key, or, where the policy allows the derivation and the file had another
  key, with the key derived of the enrolled credential.\<close>

definition key_of_blob :: "kdbx_deps \<Rightarrow> xml_stages \<Rightarrow> bytes \<Rightarrow> kdf_policy \<Rightarrow> kdf_confirmation \<Rightarrow> unlock_blob \<Rightarrow> bytes \<Rightarrow> bool" where
  "key_of_blob deps xml bs policy confirmation b transformed \<longleftrightarrow>
     transformed = ub_cached_transformed_key b \<or>
     policy \<noteq> Extension \<and>
     load_kdbx_with_transformed_key deps xml bs (ub_cached_transformed_key b) = Inl HeaderHmacMismatch \<and>
     derive_transformed_key_with_policy deps bs (to_composite_key (ub_master_credential b)) (evaluate policy) confirmation
       = Inr transformed"

definition serves :: "kdbx_deps \<Rightarrow> xml_stages \<Rightarrow> bytes \<Rightarrow> unlock_blob \<Rightarrow> unlocked_vault \<Rightarrow> bool" where
  "serves deps xml bs b u \<longleftrightarrow>
     load_kdbx_with_transformed_key deps xml bs (uv_transformed_key u) = Inr (uv_vault u) \<and>
     uv_credential_shape u = credential_shape (ub_master_credential b)"

lemma refreshed_unlocked:
  assumes "unlock_with_refreshed_key deps xml storage key bs policy confirmation refresh b s = (Inr (Unlocked u), s')"
  shows "serves deps xml bs b u \<and>
    derive_transformed_key_with_policy deps bs (to_composite_key (ub_master_credential b)) (evaluate policy) confirmation
      = Inr (uv_transformed_key u) \<and>
    (if refresh then \<exists>encoded. encode_parts (ub_master_credential b) (uv_transformed_key u) = Inr encoded \<and>
       s' = snd (sp_store storage key encoded s) else s' = s)"
  using assms
  by (auto simp: unlock_with_refreshed_key_def serves_def delete_then_def Let_def
      split: sum.split_asm kdbx_error.split_asm if_split_asm prod.split_asm)

lemma with_blob_unlocked:
  assumes "unlock_with_blob deps xml storage key bs policy confirmation refresh b s = (Inr (Unlocked u), s')"
  shows "serves deps xml bs b u \<and> key_of_blob deps xml bs policy confirmation b (uv_transformed_key u)"
proof (cases "load_kdbx_with_transformed_key deps xml bs (ub_cached_transformed_key b)")
  case (Inr v)
  with assms show ?thesis by (auto simp: unlock_with_blob_def serves_def key_of_blob_def)
next
  case (Inl e)
  then have e: "e = HeaderHmacMismatch" "policy \<noteq> Extension"
    and "unlock_with_refreshed_key deps xml storage key bs policy confirmation refresh b s = (Inr (Unlocked u), s')"
    using assms by (auto simp: unlock_with_blob_def split: kdbx_error.split_asm if_split_asm)
  from refreshed_unlocked [OF this(3)] e Inl show ?thesis by (auto simp: key_of_blob_def)
qed

text \<open>A refreshed record: the credential of the old one, with the key that was derived of it and opened the file.\<close>

definition refreshes ::
    "kdbx_deps \<Rightarrow> xml_stages \<Rightarrow> bytes \<Rightarrow> kdf_policy \<Rightarrow> kdf_confirmation \<Rightarrow> bool \<Rightarrow> unlock_blob \<Rightarrow> unlocked_vault \<Rightarrow> unlock_blob \<Rightarrow> bool" where
  "refreshes deps xml bs policy confirmation refresh b u b' \<longleftrightarrow>
     refresh \<and> policy \<noteq> Extension \<and>
     load_kdbx_with_transformed_key deps xml bs (ub_cached_transformed_key b) = Inl HeaderHmacMismatch \<and>
     derive_transformed_key_with_policy deps bs (to_composite_key (ub_master_credential b)) (evaluate policy) confirmation
       = Inr (ub_cached_transformed_key b') \<and>
     ub_master_credential b' = ub_master_credential b \<and> ub_cached_transformed_key b' = uv_transformed_key u \<and>
     load_kdbx_with_transformed_key deps xml bs (ub_cached_transformed_key b') = Inr (uv_vault u)"

text \<open>A record whose cached key opens the file unlocks it, under every policy, and nothing but the load happens.\<close>

lemma record_unlocks:
  assumes "sp_load storage key s = (Inr (Some encoded), t)" and "blob_decode encoded = Inr b"
    and "load_kdbx_with_transformed_key deps xml bs (ub_cached_transformed_key b) = Inr v"
  shows "unlock_from_blob_with_cache_policy deps xml storage key bs policy confirmation refresh s =
    (Inr (Unlocked \<lparr>uv_vault = v, uv_transformed_key = ub_cached_transformed_key b,
       uv_credential_shape = credential_shape (ub_master_credential b)\<rparr>), t)"
proof -
  have "encoded \<noteq> []" using assms(2) by (auto simp: blob_decode_def take_bytes_def UNLOCK_BLOB_MAGIC_def)
  then show ?thesis using assms by (simp add: unlock_from_blob_with_cache_policy_def unlock_with_blob_def)
qed

context secure_storage
begin

lemma attempt_cases:
  assumes "unlock_from_blob_with_cache_policy deps xml storage key bs policy confirmation refresh s = (r, s')"
  shows "stored s' = stored s \<and> (\<forall>u. r \<noteq> Inr (Unlocked u)) \<or> stored s' = (stored s)(key := None) \<and> r = Inr NotEnrolled \<or>
    (\<exists>encoded b t. stored s key = Some encoded \<and> blob_decode encoded = Inr b \<and> stored t = stored s \<and>
       unlock_with_blob deps xml storage key bs policy confirmation refresh b t = (r, s'))"
proof -
  obtain l t where l: "sp_load storage key s = (l, t)" by fastforce
  note t = load_keeps [OF l]
  have del: "delete_then storage key NotEnrolled t = (r, s') \<Longrightarrow>
      stored s' = stored s \<and> (\<forall>u. r \<noteq> Inr (Unlocked u)) \<or> stored s' = (stored s)(key := None) \<and> r = Inr NotEnrolled"
    using delete_then_stored [of key NotEnrolled t r s'] t by auto
  show ?thesis
  proof (cases l)
    case (Inl e)
    with assms l del t show ?thesis by (cases e) (auto simp: unlock_from_blob_with_cache_policy_def)
  next
    case (Inr v)
    show ?thesis
    proof (cases v)
      case None
      with assms l Inr t show ?thesis by (auto simp: unlock_from_blob_with_cache_policy_def)
    next
      case (Some encoded)
      then have "stored s key = Some encoded" using loads [of key s v t] l Inr by simp
      then show ?thesis
        using assms l Inr Some del t
        by (cases "blob_decode encoded") (auto simp: unlock_from_blob_with_cache_policy_def split: if_split_asm)
    qed
  qed
qed

lemma unlocked_by_record:
  assumes "unlock_from_blob_with_cache_policy deps xml storage key bs policy confirmation refresh s = (Inr (Unlocked u), s')"
  shows "\<exists>encoded b. stored s key = Some encoded \<and> blob_decode encoded = Inr b \<and> serves deps xml bs b u \<and>
    key_of_blob deps xml bs policy confirmation b (uv_transformed_key u)"
  using attempt_cases [OF assms] by (auto dest: with_blob_unlocked)

text \<open>What an attempt does with the record it decoded: nothing, or, where the file has another key than the cached one,
  it writes the record anew for the key it unlocked with, or gives it up.\<close>

lemma with_blob_stored:
  assumes deps: "sha256_sized (kd_crypto deps)" and b: "blob_valid b"
    and attempt: "unlock_with_blob deps xml storage key bs policy confirmation refresh b t = (r, s')"
  shows "stored s' = stored t \<or> stored s' = (stored t)(key := None) \<and> r = Inr CredentialRequired \<and> refresh \<or>
    (\<exists>u encoded' b'. r = Inr (Unlocked u) \<and> refreshes deps xml bs policy confirmation refresh b u b' \<and>
       blob_decode encoded' = Inr b' \<and> sp_store storage key encoded' t = (Inr (), s'))"
proof -
  consider "s' = t" | "load_kdbx_with_transformed_key deps xml bs (ub_cached_transformed_key b) = Inl HeaderHmacMismatch"
    "policy \<noteq> Extension" "unlock_with_refreshed_key deps xml storage key bs policy confirmation refresh b t = (r, s')"
    using attempt by (auto simp: unlock_with_blob_def split: sum.split_asm kdbx_error.split_asm if_split_asm)
  then show ?thesis
  proof cases
    case 2
    show ?thesis
    proof (cases "\<exists>u. r = Inr (Unlocked u)")
      case True
      then obtain u where r: "r = Inr (Unlocked u)" by blast
      note u = refreshed_unlocked [OF 2(3) [unfolded r]]
      let ?b = "\<lparr>ub_master_credential = ub_master_credential b, ub_cached_transformed_key = uv_transformed_key u\<rparr>"
      show ?thesis
      proof (cases refresh)
        case True
        with u obtain encoded' where e: "encode_parts (ub_master_credential b) (uv_transformed_key u) = Inr encoded'"
          "s' = snd (sp_store storage key encoded' t)" by auto
        have "blob_valid ?b" using b u derived_key_sized [OF deps] by (auto simp: blob_valid_def)
        then have "blob_decode encoded' = Inr ?b" using e(1) by (simp add: unlock_blob_form blob_encode_def)
        moreover have "refreshes deps xml bs policy confirmation refresh b u ?b"
          using u 2(1,2) True by (simp add: refreshes_def serves_def)
        moreover obtain x where x: "sp_store storage key encoded' t = (x, s')" using e(2) by (metis prod.collapse)
        ultimately have "stored s' = stored t \<or> (\<exists>b'. refreshes deps xml bs policy confirmation refresh b u b' \<and>
            blob_decode encoded' = Inr b' \<and> sp_store storage key encoded' t = (Inr (), s'))"
          using store_fails [of key encoded' t] by (cases x) auto
        then show ?thesis using r by blast
      qed (use u in simp)
    next
      case False
      then have "s' = t \<or> refresh \<and> delete_then storage key CredentialRequired t = (r, s')"
        using 2(3) by (auto simp: unlock_with_refreshed_key_def Let_def split: sum.split_asm kdbx_error.split_asm if_split_asm)
      then show ?thesis using delete_then_stored by blast
    qed
  qed simp
qed

lemma record_kept:
  assumes deps: "sha256_sized (kd_crypto deps)"
    and attempt: "unlock_from_blob_with_cache_policy deps xml storage key bs policy confirmation refresh s = (r, s')"
  shows "stored s' = stored s \<or>
    stored s' = (stored s)(key := None) \<and> (r = Inr NotEnrolled \<or> r = Inr CredentialRequired \<and> refresh) \<or>
    (\<exists>encoded b u encoded' b'. stored s key = Some encoded \<and> blob_decode encoded = Inr b \<and>
       r = Inr (Unlocked u) \<and> refreshes deps xml bs policy confirmation refresh b u b' \<and>
       stored s' = (stored s)(key \<mapsto> encoded') \<and> blob_decode encoded' = Inr b')"
  using attempt_cases [OF attempt]
proof (elim disjE conjE exE)
  fix encoded b t
  assume found: "stored s key = Some encoded" "blob_decode encoded = Inr b" "stored t = stored s"
    and "unlock_with_blob deps xml storage key bs policy confirmation refresh b t = (r, s')"
  from with_blob_stored [OF deps _ this(4)] found(2)
  have "stored s' = stored t \<or> stored s' = (stored t)(key := None) \<and> r = Inr CredentialRequired \<and> refresh \<or>
    (\<exists>u encoded' b'. r = Inr (Unlocked u) \<and> refreshes deps xml bs policy confirmation refresh b u b' \<and>
       blob_decode encoded' = Inr b' \<and> sp_store storage key encoded' t = (Inr (), s'))"
    by (simp add: unlock_blob_form)
  with found stores show ?thesis by (metis (no_types, lifting))
qed auto

lemma unlocked_again:
  assumes deps: "sha256_sized (kd_crypto deps)"
    and first: "unlock_from_blob_with_cache_policy deps xml storage key bs policy confirmation True s = (Inr (Unlocked u), s')"
    and load: "sp_load storage key s' = (Inr found, s'')"
  shows "unlock_from_blob_with_cache_policy deps xml storage key bs policy' confirmation' refresh' s' = (Inr (Unlocked u), s'') \<or>
    policy \<noteq> Extension \<and> (\<exists>encoded t e. stored t = stored s \<and> sp_store storage key encoded t = (Inl e, s'))"
proof -
  from attempt_cases [OF first] obtain encoded b t where b: "stored s key = Some encoded" "blob_decode encoded = Inr b"
    "stored t = stored s" and with_blob: "unlock_with_blob deps xml storage key bs policy confirmation True b t = (Inr (Unlocked u), s')"
    by auto
  note served = with_blob_unlocked [OF with_blob, THEN conjunct1, unfolded serves_def]
  have unlocks: ?thesis if "stored s' key = Some x" "blob_decode x = Inr y" "ub_master_credential y = ub_master_credential b"
    "ub_cached_transformed_key y = uv_transformed_key u" for x y
  proof -
    have "sp_load storage key s' = (Inr (Some x), s'')" using loads [OF load] that(1) load by simp
    from record_unlocks [OF this that(2)] served that(3,4) show ?thesis by (cases u) simp
  qed
  show ?thesis
  proof (cases "load_kdbx_with_transformed_key deps xml bs (ub_cached_transformed_key b)")
    case (Inr v)
    then have "s' = t" "ub_cached_transformed_key b = uv_transformed_key u"
      using with_blob by (auto simp: unlock_with_blob_def)
    then show ?thesis using unlocks [of encoded b] b by simp
  next
    case (Inl e)
    then have again: "unlock_with_refreshed_key deps xml storage key bs policy confirmation True b t = (Inr (Unlocked u), s')"
      and policy: "policy \<noteq> Extension"
      using with_blob by (auto simp: unlock_with_blob_def split: kdbx_error.split_asm if_split_asm)
    note r = refreshed_unlocked [OF again]
    let ?b = "\<lparr>ub_master_credential = ub_master_credential b, ub_cached_transformed_key = uv_transformed_key u\<rparr>"
    from r obtain encoded' where e: "encode_parts (ub_master_credential b) (uv_transformed_key u) = Inr encoded'"
      "s' = snd (sp_store storage key encoded' t)" by auto
    have "blob_valid ?b" using b(2) r derived_key_sized [OF deps] by (auto simp: unlock_blob_form blob_valid_def)
    then have decoded: "blob_decode encoded' = Inr ?b" using e(1) by (simp add: unlock_blob_form blob_encode_def)
    obtain x where x: "sp_store storage key encoded' t = (x, s')" using e(2) by (metis prod.collapse)
    show ?thesis
    proof (cases x)
      case Inl
      then show ?thesis using x b(3) policy by blast
    next
      case Inr
      then show ?thesis using stores [of key encoded' t] x unlocks [OF _ decoded] by simp
    qed
  qed
qed

end

text \<open>What was enrolled unlocks.\<close>

lemma enrolled_unlocks:
  assumes "credential_valid c" and "length transformed = 32"
    and "enroll_unlock_blob memory_storage key c transformed s = (Inr u, s')"
    and "load_kdbx_with_transformed_key deps xml bs transformed = Inr v"
  shows "unlock_from_blob_with_cache_policy deps xml memory_storage key bs policy confirmation refresh s' =
    (Inr (Unlocked \<lparr>uv_vault = v, uv_transformed_key = transformed, uv_credential_shape = credential_shape c\<rparr>), s')"
proof -
  let ?b = "\<lparr>ub_master_credential = c, ub_cached_transformed_key = transformed\<rparr>"
  from assms(3) obtain encoded where e: "encode_parts c transformed = Inr encoded" "s' = s(key \<mapsto> encoded)"
    by (auto simp: enroll_unlock_blob_def memory_storage_def split: sum.split_asm)
  then have "blob_decode encoded = Inr ?b"
    using assms(1,2) by (simp add: unlock_blob_form blob_valid_def blob_encode_def)
  moreover have "sp_load memory_storage key s' = (Inr (Some encoded), s')" by (simp add: memory_storage_def e(2))
  ultimately show ?thesis using record_unlocks [of memory_storage key s' encoded s' ?b] assms(4) by simp
qed

text \<open>A refresh that cannot be written does not stop the unlock.\<close>

lemma refused_refresh_unlocks:
  assumes "unlock_from_blob_with_cache_policy deps xml memory_storage key bs policy confirmation refresh s = (Inr (Unlocked u), s')"
  shows "unlock_from_blob_with_cache_policy deps xml refusing_storage key bs policy confirmation refresh s = (Inr (Unlocked u), s)"
proof -
  from memory.attempt_cases [OF assms] obtain encoded b where b: "s key = Some encoded" "blob_decode encoded = Inr b"
    and with_blob: "unlock_with_blob deps xml memory_storage key bs policy confirmation refresh b s = (Inr (Unlocked u), s')"
    by auto
  have "encoded \<noteq> []" using b(2) by (auto simp: blob_decode_def take_bytes_def UNLOCK_BLOB_MAGIC_def)
  moreover have "unlock_with_blob deps xml refusing_storage key bs policy confirmation refresh b s = (Inr (Unlocked u), s)"
  proof (cases "load_kdbx_with_transformed_key deps xml bs (ub_cached_transformed_key b)")
    case (Inr v)
    then show ?thesis using with_blob by (simp add: unlock_with_blob_def)
  next
    case (Inl e)
    then have again: "unlock_with_refreshed_key deps xml memory_storage key bs policy confirmation refresh b s = (Inr (Unlocked u), s')"
      and e: "e = HeaderHmacMismatch" "policy \<noteq> Extension"
      using with_blob by (auto simp: unlock_with_blob_def split: kdbx_error.split_asm if_split_asm)
    note u = refreshed_unlocked [OF again, unfolded serves_def]
    have "unlock_with_refreshed_key deps xml refusing_storage key bs policy confirmation refresh b s = (Inr (Unlocked u), s)"
      using u by (cases u; cases refresh) (auto simp: unlock_with_refreshed_key_def refusing_storage_def Let_def)
    then show ?thesis using Inl e by (simp add: unlock_with_blob_def)
  qed
  ultimately show ?thesis
    using b by (simp add: unlock_from_blob_with_cache_policy_def refusing_storage_def memory_storage_def)
qed

section \<open>An enrolled file\<close>

definition sample_key :: bytes where "sample_key = replicate 32 7"

definition sample_credential :: master_credential where
  "sample_credential = \<lparr>mc_password = Some [1, 2], mc_key_file_contribution = None\<rparr>"

definition sample_stages :: xml_stages where "sample_stages oc = Inr (vault_empty 1 ''root'')"

lemma sample_file: "\<exists>bs. load_kdbx_with_transformed_key example_kdbx sample_stages bs sample_key = Inr (vault_empty 1 ''root'')"
proof -
  have none: "public_data_ok []" by (simp add: public_data_ok_def)
  have "header_ok example_header" "iv_ok (kh_cipher example_header) (kh_encryption_iv example_header)"
    "kh_cipher example_header = sp_cipher recommended_profile" "kh_compression example_header = sp_compression recommended_profile"
    using prepared_header_ok [OF example_prepared none example_sizes] by blast+
  from sealed_file [OF example_kdbx_ok this example_binary_ok, of "[]" sample_key "[60]"]
  obtain bs oc where "open_with_transformed_key example_kdbx bs sample_key = Inr oc" by auto
  then show ?thesis
    by (intro exI [of _ bs]) (simp add: load_kdbx_with_transformed_key_def sample_stages_def)
qed

definition sample_storage :: "string \<rightharpoonup> bytes" where
  "sample_storage = snd (enroll_unlock_blob memory_storage ''k'' sample_credential sample_key Map.empty)"

lemma sample_attempt:
  "\<exists>bs u. unlock_from_blob_with_cache_policy example_kdbx sample_stages memory_storage ''k'' bs policy confirmation refresh
     sample_storage = (Inr (Unlocked u), sample_storage)"
proof -
  obtain bs where bs: "load_kdbx_with_transformed_key example_kdbx sample_stages bs sample_key = Inr (vault_empty 1 ''root'')"
    using sample_file by blast
  have "credential_valid sample_credential" "length sample_key = 32"
    by (simp_all add: credential_valid_def sample_credential_def MAX_PASSWORD_BYTES_def sample_key_def)
  moreover have "enroll_unlock_blob memory_storage ''k'' sample_credential sample_key Map.empty = (Inr (), sample_storage)"
    by (simp add: sample_storage_def enroll_unlock_blob_def encode_parts_def memory_storage_def sample_credential_def)
  ultimately show ?thesis using enrolled_unlocks [OF _ _ _ bs] by blast
qed

lemma sample_deps_sized: "sha256_sized (kd_crypto example_kdbx)"
  using example_deps_sized by (simp add: example_kdbx_def sha256_sized_def)

section \<open>Properties\<close>

text \<open>C26. The unlock blob has one form. A byte sequence decodes to a blob exactly when the blob is one the types and the
  constructor of the credential allow, and encoding it gives those bytes back: no flag, length, trailing byte or
  part of a blob is accepted and then lost, and what was enrolled is what is found.\<close>

theorem unlock_blob_has_one_form:
  "blob_decode bs = Inr b \<longleftrightarrow> blob_valid b \<and> blob_encode b = Inr bs"
  by (rule unlock_blob_form)


text \<open>C27. What quick unlock hands out. An attempt that unlocks found a record that decodes, the file opens with the key
  it returns and gives the vault it returns, and that key is the cached one, or one derived from the enrolled
  credential because the file has another key than the cached one and the policy allowed the derivation:
  under the policy of the extension no key is ever derived.\<close>

theorem unlocked_with_enrolled_key:
  assumes "unlock_from_blob_with_cache_policy deps xml memory_storage key bs policy confirmation refresh s =
    (Inr (Unlocked u), s')"
  shows "\<exists>encoded b. s key = Some encoded \<and> blob_decode encoded = Inr b \<and> serves deps xml bs b u \<and>
    key_of_blob deps xml bs policy confirmation b (uv_transformed_key u)"
  using assms by (rule memory.unlocked_by_record)

theorem unlocked_with_enrolled_key_witness:
  "\<exists>bs u encoded b. sample_storage ''k'' = Some encoded \<and> blob_decode encoded = Inr b \<and>
     serves example_kdbx sample_stages bs b u \<and>
     key_of_blob example_kdbx sample_stages bs Extension Unconfirmed b (uv_transformed_key u)"
  using sample_attempt [of Extension Unconfirmed False] unlocked_with_enrolled_key by blast

text \<open>C28. What an attempt to unlock leaves in the storage, for any storage that keeps its laws, also one whose loads, stores
  and deletes can fail, and whatever the outcome of the attempt. Every record but its own is as before, and its own is as
  before, or it is deleted and the attempt reports that a credential is needed, or it is replaced. It is replaced only by
  an attempt that unlocked with a key derived under its policy, because the file has another key than the cached one;
  the new record decodes, holds the enrolled credential, and caches a key that loads the file, with the vault the
  attempt returned. The digest of the crates is assumed to have 32 bytes.\<close>

theorem unlock_keeps_credential:
  assumes "secure_storage storage stored"
    and "sha256_sized (kd_crypto deps)"
    and "unlock_from_blob_with_cache_policy deps xml storage key bs policy confirmation refresh s = (r, s')"
  shows "stored s' = stored s \<or>
    stored s' = (stored s)(key := None) \<and> (r = Inr NotEnrolled \<or> r = Inr CredentialRequired \<and> refresh) \<or>
    (\<exists>encoded b u encoded' b'. stored s key = Some encoded \<and> blob_decode encoded = Inr b \<and>
       r = Inr (Unlocked u) \<and> refreshes deps xml bs policy confirmation refresh b u b' \<and>
       stored s' = (stored s)(key \<mapsto> encoded') \<and> blob_decode encoded' = Inr b')"
  by (rule secure_storage.record_kept [OF assms])

theorem unlock_keeps_credential_witness:
  "\<exists>bs r s'. unlock_from_blob_with_cache_policy example_kdbx sample_stages memory_storage ''k'' bs Desktop Unconfirmed True
     sample_storage = (r, s') \<and> (s' = sample_storage \<or>
    s' = sample_storage(''k'' := None) \<and> (r = Inr NotEnrolled \<or> r = Inr CredentialRequired \<and> True) \<or>
    (\<exists>encoded b u encoded' b'. sample_storage ''k'' = Some encoded \<and> blob_decode encoded = Inr b \<and>
       r = Inr (Unlocked u) \<and> refreshes example_kdbx sample_stages bs Desktop Unconfirmed True b u b' \<and>
       s' = sample_storage(''k'' \<mapsto> encoded') \<and> blob_decode encoded' = Inr b'))"
proof -
  obtain bs u where a: "unlock_from_blob_with_cache_policy example_kdbx sample_stages memory_storage ''k'' bs Desktop
      Unconfirmed True sample_storage = (Inr (Unlocked u), sample_storage)"
    using sample_attempt by blast
  show ?thesis using a unlock_keeps_credential [OF memory.secure_storage_axioms sample_deps_sized a] by blast
qed



end
