(* ===== verification/Spec2Isabelle.thy ===== *)
theory Spec2Isabelle
  imports Credentials CustomData Canonical Snapshot Crypto Slots AttachmentPool Search ThreeWay Protocol Container
    CoreQuery Atomic Unlock
begin

text \<open>
  Verification library for vaultkern, a password manager that reads and writes KeePass databases.

  The program. Five crates hold the logic. \<^verbatim>\<open>vaultkern-model\<close> has the vault, a tree of groups with entries, and
  beside every object the XML fidelity data of the file it was read from: the order of its child nodes, fragments
  nobody knows, anchored behind the node they followed, and CustomData kept twice, as a map and as the blocks of the
  document. It also merges three versions of a vault and serializes entries canonically. \<^verbatim>\<open>vaultkern-crypto\<close> composes
  keys, derives them and computes TOTP codes. \<^verbatim>\<open>vaultkern-kdbx\<close> reads and writes the encrypted container and checks a
  vault before it is written. \<^verbatim>\<open>vaultkern-core\<close> has the operations a client may call on a vault.
  \<^verbatim>\<open>vaultkern-runtime-protocol\<close> has the commands, and the runtime in \<^verbatim>\<open>tools/vaultkern-runtime\<close> decides which client may
  send them, holds the unlocked vaults, and unlocks a file with a record in the secure storage of the platform.
  All paths below are relative to \<^verbatim>\<open>src/\<close>.

  How code becomes definitions (\<^verbatim>\<open>Prelude\<close>, \<^verbatim>\<open>Text\<close>). A struct is a \<open>record\<close>, an enum a \<open>datatype\<close>, \<open>Result<T, E>\<close> a sum
  with the error on the left, \<open>?\<close> is \<open>and_then\<close>. Machine integers keep their width. A \<open>str\<close> is the list of its UTF-8 bytes.
  \<open>BTreeMap\<close> and \<open>BTreeSet\<close> are strictly sorted lists, so that they iterate as the code does; the locale \<open>ordered_map\<close>
  states the laws of the map and is interpreted on them. A method on \<open>&mut Vault\<close> returns its result together with the
  vault as it is afterwards, also on an error. A function that hands out a \<open>&mut\<close> to what it finds takes the change as
  an argument. Shared contents (\<open>Arc\<close>, \<open>Weak\<close>) are addresses in an explicit store.

  The model crate, \<^verbatim>\<open>crates/vaultkern-model/src\<close>.
  \<^item> \<^verbatim>\<open>Model\<close>: the data of \<^verbatim>\<open>lib.rs\<close>, field by field.
  \<^item> \<^verbatim>\<open>OtpAuth\<close>: TOTP provisioning URIs; the writer and the parser are inverse on what the save gate accepts with 1 to 9
    digits and a period.
  \<^item> \<^verbatim>\<open>Credentials\<close>: TOTP and passkeys as entry attributes; the materialized view determines them and protects secrets.
  \<^item> \<^verbatim>\<open>CustomData\<close>, \<^verbatim>\<open>Snapshot\<close>, \<^verbatim>\<open>Slots\<close>: the fidelity data under change. Blocks spell the map again, anchors keep their
    place among the nodes that remain, node orders stay in step with identities.
  \<^item> \<^verbatim>\<open>AttachmentPool\<close>, \<^verbatim>\<open>Search\<close>: interning of contents as a state machine over its reachable states; search in tree order.
  \<^item> \<^verbatim>\<open>Canonical\<close>: \<^verbatim>\<open>canonical_serialization.rs\<close>. The locale \<open>prefix_code\<close> is the promise of every writer, interpreted for
    each of them up to the whole entry: equal bytes mean equal content.
  \<^item> \<^verbatim>\<open>FieldMerge\<close>, \<^verbatim>\<open>Hierarchy\<close>, \<^verbatim>\<open>EntryMerge\<close>, \<^verbatim>\<open>ThreeWay\<close>: \<^verbatim>\<open>three_way_patch.rs\<close>. How one value, a map, an entry, the
    metadata and the tree are merged; walks along parents against reachability; no edit and no losing version is lost.

  Keys and files, \<^verbatim>\<open>crates/vaultkern-crypto/src\<close> and \<^verbatim>\<open>crates/vaultkern-kdbx/src\<close>.
  \<^item> \<^verbatim>\<open>Crypto\<close>: composite keys, key files, key derivation and TOTP codes, over the primitives in \<open>crypto_deps\<close>.
  \<^item> \<^verbatim>\<open>Dictionary\<close>, \<^verbatim>\<open>Headers\<close>: the cursor, variant dictionaries and headers. The locale \<open>reader\<close> is the contract between a
    read operation and what a writer appends; \<open>reader_pair\<close> puts two of them in sequence.
  \<^item> \<^verbatim>\<open>Kdf\<close>: \<^verbatim>\<open>external_kdf.rs\<close>, \<^verbatim>\<open>kdf_generation.rs\<close> and the save side: parameters of a file, the work they may ask for.
  \<^item> \<^verbatim>\<open>Blocks\<close>, \<^verbatim>\<open>Container\<close>: authenticated payloads, and the whole container from the bytes to the XML document and
    back. \<open>authentic\<close> describes an accepted file without the loader.
  \<^item> \<^verbatim>\<open>XmlText\<close>, \<^verbatim>\<open>Validate\<close>: \<open>validate_vault_model\<close>, which every load and every save ends or begins with.

  The core, \<^verbatim>\<open>crates/vaultkern-core/src/lib.rs\<close>.
  \<^item> \<^verbatim>\<open>CoreView\<close>, \<^verbatim>\<open>CoreQuery\<close>: the views and the methods that read.
  \<^item> \<^verbatim>\<open>CoreTree\<close>, \<^verbatim>\<open>CoreEntry\<close>, \<^verbatim>\<open>CoreGroup\<close>, \<^verbatim>\<open>CoreGraph\<close>: the 54 public mutations with their checks in the order of the code.
  \<^item> \<^verbatim>\<open>Saveable\<close>, \<^verbatim>\<open>SaveableEntry\<close>, \<^verbatim>\<open>SaveableData\<close>, \<^verbatim>\<open>SaveableTree\<close>, \<^verbatim>\<open>SaveableVault\<close>, \<^verbatim>\<open>SaveableOps\<close>, \<^verbatim>\<open>SaveableGroup\<close>,
    \<^verbatim>\<open>SaveableMeta\<close>, \<^verbatim>\<open>SaveableGraph\<close>: the checks before a save as predicates, and every mutation preserves them.
  \<^item> \<^verbatim>\<open>VaultSteps\<close>: the mutations as the steps of one machine, with the invariant over any sequence of them.
  \<^item> \<^verbatim>\<open>Atomic\<close>: a mutation that fails changes nothing; a move conserves the tree.

  The runtime, \<^verbatim>\<open>crates/vaultkern-runtime-protocol/src/lib.rs\<close> and \<^verbatim>\<open>tools/vaultkern-runtime/src\<close>.
  \<^item> \<^verbatim>\<open>Commands\<close>, \<^verbatim>\<open>Protocol\<close>: the commands, and \<^verbatim>\<open>protocol_session.rs\<close> as a machine driven by them.
  \<^item> \<^verbatim>\<open>Session\<close>: \<^verbatim>\<open>session.rs\<close>, a refinement of an abstract session with two sets; where secrets are and since when.
  \<^item> \<^verbatim>\<open>Unlock\<close>: \<^verbatim>\<open>unlock.rs\<close> over any secure storage that keeps the laws of the locale \<open>secure_storage\<close>, failing ones
    included; the in-memory and the unsupported provider of \<^verbatim>\<open>providers/secure_storage.rs\<close> keep them, and so does one
    that refuses every write.

  What lies outside the source is a parameter: the primitives of cryptography, compression and text encodings in
  \<open>crypto_deps\<close> and \<open>kdbx_deps\<close>, UUIDs, the clock and content digests in \<open>core_env\<close>, percent encoding of the \<^verbatim>\<open>url\<close> crate, the
  state and the operations of a storage provider. What a property relies on of them, the length of a digest, that
  decryption inverts encryption, that the text of a UUID parses back, no collision on named inputs, is a hypothesis in its statement,
  and its witness instantiates the parameter with a concrete function.

  Loops. Recursions that are not structural have a measure: the input that is left (\<open>field_loop\<close>, \<open>decode_item_loop\<close>,
  \<open>decode_block_loop\<close>, \<open>decode_legacy_loop\<close>, \<open>chunks\<close>, \<open>utf8_valid\<close>, the trimming of key files), the groups not seen yet
  (\<open>below_loop\<close>, \<open>validate_walk\<close>, \<open>rebuild_tree\<close>), or the bytes still to draw (\<open>random_fill\<close>). No model uses fuel. The one
  loop of the code that need not end, drawing UUIDs until one is new (\<open>draw_until\<close>), is a partial function: \<open>None\<close> is
  the run that does not end. A \<open>usize\<close> that counts what is in memory is a \<open>nat\<close>, without a bound.

  Not modelled. The parser and writer of the XML document between the container and the vault, which work on trees of the
  \<^verbatim>\<open>xmltree\<close> crate: the container stops at its bytes, and \<^verbatim>\<open>Unlock\<close> takes those stages as a parameter. The command handlers of
  \<^verbatim>\<open>runtime.rs\<close>, which tie the parts together around input and output; so nothing here says that they call the parts in the right
  order. Autofill receipts, the remote cache, local and remote files, OneDrive, passkey ceremonies, the Windows
  provider of the secure storage, the transports, the command line, the set-up tool, the bindings and the front ends.
  Zeroizing of memory and timing are not visible in the model.
\<close>

end
